(* ===== verification/JsPrelude.thy ===== *)
theory JsPrelude
  imports Main "HOL-Library.AList" "HOL-Library.Sublist"
begin

text \<open>
  The prelude: what the components of \<^verbatim>\<open>src/webapp\<close> use of the JavaScript language and its
  standard library.

  \<^item> A JavaScript string is a sequence of UTF-16 code units; here it is a \<open>string\<close>, a list
    of code units below 256 (Latin-1). \<open>to_lower\<close> is exact on that range, \<open>to_upper\<close> on all
    of it but three characters (0xB5, 0xDF, 0xFF) whose upper case leaves the range and which
    it keeps.
  \<^item> \<open>index_of\<close>, \<open>str_includes\<close> (\<open>includes\<close>), \<open>starts_with\<close>, \<open>split_on\<close>, \<open>join\<close>, \<open>replace_first\<close> and
    \<open>replace_all\<close> are the methods of the same names of \<open>String.prototype\<close> and
    \<open>Array.prototype\<close>; \<open>-1\<close> (not found) is \<open>None\<close>. \<open>substr\<close>, \<open>substring\<close> and \<open>slice\<close>
    with in-range arguments are \<open>take\<close> and \<open>drop\<close>.
  \<^item> A JavaScript object used as a dictionary is an association list in insertion order
    (\<open>'v obj\<close>), with \<open>obj_get\<close>, \<open>obj_set\<close> (an existing key keeps its place) and
    \<open>obj_delete\<close>; \<open>own_order\<close> is the order in which its keys are enumerated, where the keys that
    are array indices come first. Keys of the prototype are not modelled.
  \<^item> \<open>undefined\<close> is \<open>None\<close>; \<open>truthy\<close> is the boolean reading of an optional string.
\<close>

named_theorems js_simps "characteristic equations of the JavaScript library functions"

type_synonym jsstring = string
type_synonym 'v obj = "(string \<times> 'v) list"

section \<open>Strings\<close>

fun starts_with :: "'a list \<Rightarrow> 'a list \<Rightarrow> bool" where
  "starts_with s [] = True"
| "starts_with [] (c # p) = False"
| "starts_with (d # s) (c # p) = (d = c \<and> starts_with s p)"

definition ends_with :: "'a list \<Rightarrow> 'a list \<Rightarrow> bool" where
  "ends_with s p = starts_with (rev s) (rev p)"

fun index_of :: "'a list \<Rightarrow> 'a list \<Rightarrow> nat option" where
  "index_of [] p = (if p = [] then Some 0 else None)"
| "index_of (d # s) p =
     (if starts_with (d # s) p then Some 0 else map_option Suc (index_of s p))"

definition str_includes :: "'a list \<Rightarrow> 'a list \<Rightarrow> bool" where
  "str_includes s p = (index_of s p \<noteq> None)"

text \<open>\<open>last_index_of s p\<close>: the largest index at which \<open>p\<close> occurs in \<open>s\<close>.\<close>

fun last_index_of :: "'a list \<Rightarrow> 'a list \<Rightarrow> nat option" where
  "last_index_of [] p = (if p = [] then Some 0 else None)"
| "last_index_of (d # s) p =
     (case last_index_of s p of
        Some i \<Rightarrow> Some (Suc i)
      | None \<Rightarrow> if starts_with (d # s) p then Some 0 else None)"

text \<open>\<open>s.split(c)\<close> for a separator of one character: never the empty list.\<close>

fun split_on :: "'a \<Rightarrow> 'a list \<Rightarrow> 'a list list" where
  "split_on c [] = [[]]"
| "split_on c (d # s) =
     (if d = c then [] # split_on c s
      else (case split_on c s of [] \<Rightarrow> [[d]] | w # ws \<Rightarrow> (d # w) # ws))"

fun join :: "'a list \<Rightarrow> 'a list list \<Rightarrow> 'a list" where
  "join sep [] = []"
| "join sep [w] = w"
| "join sep (w # ws) = w @ sep @ join sep ws"

text \<open>\<open>s.replace(p, r)\<close> for a string pattern: the first occurrence only.\<close>

definition replace_first :: "'a list \<Rightarrow> 'a list \<Rightarrow> 'a list \<Rightarrow> 'a list" where
  "replace_first p r s =
     (case index_of s p of
        None \<Rightarrow> s
      | Some i \<Rightarrow> take i s @ r @ drop (i + length p) s)"

text \<open>
  \<open>s.replace(/p/g, r)\<close> for a regular expression that is the literal, nonempty \<open>p\<close>:
  scan from the left, every non-overlapping occurrence.
\<close>

function replace_all :: "'a list \<Rightarrow> 'a list \<Rightarrow> 'a list \<Rightarrow> 'a list" where
  "replace_all p r [] = []"
| "replace_all p r (d # s) =
     (if p \<noteq> [] \<and> starts_with (d # s) p then r @ replace_all p r (drop (length p) (d # s))
      else d # replace_all p r s)"
  by pat_completeness auto
termination
  by (relation "measure (\<lambda>(p, r, s). length s)") auto

definition lower_char :: "char \<Rightarrow> char" where
  "lower_char c =
     (let n = of_char c :: nat in
      if (65 \<le> n \<and> n \<le> 90) \<or> (192 \<le> n \<and> n \<le> 222 \<and> n \<noteq> 215) then char_of (n + 32) else c)"

definition upper_char :: "char \<Rightarrow> char" where
  "upper_char c =
     (let n = of_char c :: nat in
      if (97 \<le> n \<and> n \<le> 122) \<or> (224 \<le> n \<and> n \<le> 254 \<and> n \<noteq> 247) then char_of (n - 32) else c)"

definition to_lower :: "string \<Rightarrow> string" where
  "to_lower s = map lower_char s"

definition to_upper :: "string \<Rightarrow> string" where
  "to_upper s = map upper_char s"

text \<open>The same on the bits of a character, for evaluation.\<close>

lemma upper_char_code [code]:
  "upper_char (Char b0 b1 b2 b3 b4 b5 b6 b7) =
     (if b6 \<and> b5 \<and>
         (if b7 then \<not> (b4 \<and> b2 \<and> b1 \<and> b0)
          else (b0 \<or> b1 \<or> b2 \<or> b3 \<or> b4) \<and> \<not> (b4 \<and> b3 \<and> (b2 \<or> b1 \<and> b0)))
      then Char b0 b1 b2 b3 b4 False b6 b7 else Char b0 b1 b2 b3 b4 b5 b6 b7)"
  by (cases b0; cases b1; cases b2; cases b3; cases b4; cases b5; cases b6; cases b7;
    simp add: upper_char_def Let_def char_of_def bit_iff_odd of_char_def)

lemma lower_char_code [code]:
  "lower_char (Char b0 b1 b2 b3 b4 b5 b6 b7) =
     (if b6 \<and> \<not> b5 \<and>
         (if b7 then \<not> (b4 \<and> b2 \<and> b1 \<and> b0)
          else (b0 \<or> b1 \<or> b2 \<or> b3 \<or> b4) \<and> \<not> (b4 \<and> b3 \<and> (b2 \<or> b1 \<and> b0)))
      then Char b0 b1 b2 b3 b4 True b6 b7 else Char b0 b1 b2 b3 b4 b5 b6 b7)"
  by (cases b0; cases b1; cases b2; cases b3; cases b4; cases b5; cases b6; cases b7;
    simp add: lower_char_def Let_def char_of_def bit_iff_odd of_char_def)

text \<open>White space of \<open>trim\<close> and of the class \<open>\s\<close>, on Latin-1.\<close>

definition is_space :: "char \<Rightarrow> bool" where
  "is_space c = (let n = of_char c :: nat in (9 \<le> n \<and> n \<le> 13) \<or> n = 32 \<or> n = 160)"

definition trim :: "string \<Rightarrow> string" where
  "trim s = rev (dropWhile is_space (rev (dropWhile is_space s)))"

definition is_digit :: "char \<Rightarrow> bool" where
  "is_digit c = (let n = of_char c :: nat in 48 \<le> n \<and> n \<le> 57)"

definition is_letter :: "char \<Rightarrow> bool" where
  "is_letter c =
     (let n = of_char c :: nat in (65 \<le> n \<and> n \<le> 90) \<or> (97 \<le> n \<and> n \<le> 122))"

text \<open>The decimal digits of a number, as \<open>String(n)\<close> and template literals print it.\<close>

fun show_nat :: "nat \<Rightarrow> string" where
  "show_nat n =
     (if n < 10 then [char_of (48 + n)] else show_nat (n div 10) @ [char_of (48 + n mod 10)])"

declare show_nat.simps [simp del]

definition show_int :: "int \<Rightarrow> string" where
  "show_int i = (if i < 0 then CHR ''-'' # show_nat (nat (- i)) else show_nat (nat i))"

text \<open>\<open>parseInt\<close> of a string of decimal digits.\<close>

definition digits_value :: "string \<Rightarrow> nat" where
  "digits_value s = foldl (\<lambda>n c. 10 * n + (of_char c - 48)) 0 s"

text \<open>The same with integers, for evaluation.\<close>

definition digit_int :: "char \<Rightarrow> int" where
  "digit_int c = int (of_char c - 48)"

lemma digit_int_code [code]:
  "digit_int c = (let n = of_char c :: int in if n < 48 then 0 else n - 48)"
proof -
  obtain n :: nat where n: "n = of_char c" by simp
  then have "(of_char c :: int) = int n" by (simp only: of_nat_of_char)
  then show ?thesis unfolding digit_int_def Let_def n [symmetric] by simp
qed

definition digits_int :: "string \<Rightarrow> int" where
  "digits_int s = foldl (\<lambda>n c. 10 * n + digit_int c) 0 s"

lemma int_digits_value [code_unfold]: "int (digits_value s) = digits_int s"
proof -
  have "int (foldl (\<lambda>n c. 10 * n + (of_char c - 48)) n s) = foldl (\<lambda>n c. 10 * n + digit_int c) (int n) s" for n
    by (induction s arbitrary: n) (simp_all add: digit_int_def)
  from this [of 0] show ?thesis by (simp add: digits_value_def digits_int_def)
qed

section \<open>Booleans, options, arrays\<close>

text \<open>An optional string as a condition: \<open>undefined\<close> and \<open>''\<close> are false.\<close>

definition truthy :: "string option \<Rightarrow> bool" where
  "truthy v = (case v of None \<Rightarrow> False | Some s \<Rightarrow> s \<noteq> [])"

text \<open>\<open>v || d\<close> for an optional string.\<close>

definition or_else :: "string option \<Rightarrow> string \<Rightarrow> string" where
  "or_else v d = (case v of None \<Rightarrow> d | Some s \<Rightarrow> if s = [] then d else s)"

text \<open>\<open>Array.prototype.find\<close> and \<open>findIndex\<close>.\<close>

fun find_index :: "('a \<Rightarrow> bool) \<Rightarrow> 'a list \<Rightarrow> nat option" where
  "find_index P [] = None"
| "find_index P (x # xs) = (if P x then Some 0 else map_option Suc (find_index P xs))"

text \<open>Array reads and writes that JavaScript leaves at \<open>undefined\<close> out of range.\<close>

definition elem_at :: "'a list \<Rightarrow> nat \<Rightarrow> 'a option" where
  "elem_at xs i = (if i < length xs then Some (xs ! i) else None)"

text \<open>\<open>xs.splice(i, 0, ...ys)\<close>: insertion; an index past the end inserts at the end.\<close>

definition splice_in :: "nat \<Rightarrow> 'a list \<Rightarrow> 'a list \<Rightarrow> 'a list" where
  "splice_in i ys xs = take i xs @ ys @ drop i xs"

text \<open>The elements of a list in order of first occurrence, as \<open>new Set(xs)\<close> keeps them.\<close>

fun nub_from :: "'a list \<Rightarrow> 'a list \<Rightarrow> 'a list" where
  "nub_from seen [] = []"
| "nub_from seen (x # xs) =
     (if x \<in> set seen then nub_from seen xs else x # nub_from (x # seen) xs)"

definition nub :: "'a list \<Rightarrow> 'a list" where
  "nub xs = nub_from [] xs"

section \<open>Objects as dictionaries\<close>

abbreviation obj_get :: "'v obj \<Rightarrow> string \<Rightarrow> 'v option" where
  "obj_get o1 k \<equiv> map_of o1 k"

abbreviation obj_set :: "string \<Rightarrow> 'v \<Rightarrow> 'v obj \<Rightarrow> 'v obj" where
  "obj_set k v o1 \<equiv> AList.update k v o1"

abbreviation obj_delete :: "string \<Rightarrow> 'v obj \<Rightarrow> 'v obj" where
  "obj_delete k o1 \<equiv> AList.delete k o1"

definition has_key :: "'v obj \<Rightarrow> string \<Rightarrow> bool" where
  "has_key o1 k = (obj_get o1 k \<noteq> None)"

abbreviation obj_keys :: "'v obj \<Rightarrow> string list" where
  "obj_keys o1 \<equiv> map fst o1"

text \<open>\<open>Object.assign(o1, o2)\<close>.\<close>

definition obj_assign :: "'v obj \<Rightarrow> 'v obj \<Rightarrow> 'v obj" where
  "obj_assign o1 o2 = foldl (\<lambda>acc kv. obj_set (fst kv) (snd kv) acc) o1 o2"

text \<open>
  The order in which \<open>Object.keys\<close>, \<open>values\<close> and \<open>entries\<close> list an object: the keys that are array
  indices in ascending order, then the others as they were inserted.
\<close>

definition array_index :: "string \<Rightarrow> bool" where
  "array_index k =
     (if k = [] \<or> \<not> list_all is_digit k then False
      else if length k > 1 \<and> hd k = CHR ''0'' then False
      else digits_value k < 2 ^ 32 - 1)"

definition own_order :: "'v obj \<Rightarrow> 'v obj" where
  "own_order o1 =
     sort_key (\<lambda>kv. digits_value (fst kv)) (filter (\<lambda>kv. array_index (fst kv)) o1)
       @ filter (\<lambda>kv. \<not> array_index (fst kv)) o1"

text \<open>Mapping with a function that may throw: the first error is thrown.\<close>

fun map_throw :: "('a \<Rightarrow> string + 'b) \<Rightarrow> 'a list \<Rightarrow> string + 'b list" where
  "map_throw f [] = Inr []"
| "map_throw f (x # xs) =
     (case f x of
        Inl e \<Rightarrow> Inl e
      | Inr y \<Rightarrow> (case map_throw f xs of Inl e \<Rightarrow> Inl e | Inr ys \<Rightarrow> Inr (y # ys)))"

section \<open>Lemmas\<close>

lemma starts_with_prefix [js_simps]: "starts_with s p \<longleftrightarrow> prefix p s"
  by (induction s p rule: starts_with.induct) auto

lemma starts_with_append [simp]: "starts_with (p @ s) p"
  by (simp add: starts_with_prefix)

lemma starts_with_iff_take: "starts_with s p \<longleftrightarrow> take (length p) s = p"
  by (auto simp: starts_with_prefix prefix_def) (metis append_take_drop_id)

lemma ends_with_suffix [js_simps]: "ends_with s p \<longleftrightarrow> suffix p s"
  by (simp add: ends_with_def starts_with_prefix suffix_to_prefix)

lemma index_of_empty [simp]: "index_of s [] = Some 0"
  by (cases s) auto

lemma index_of_Some_prefix: "index_of s p = Some i \<Longrightarrow> starts_with (drop i s) p"
  by (induction s arbitrary: i) (auto split: if_splits)

lemma index_of_bound: "index_of s p = Some i \<Longrightarrow> i + length p \<le> length s"
proof (induction s arbitrary: i)
  case Nil
  then show ?case by (simp split: if_splits)
next
  case (Cons d s)
  show ?case
  proof (cases "starts_with (d # s) p")
    case True
    with Cons.prems have "i = 0" by simp
    with True show ?thesis by (auto simp: starts_with_prefix dest: prefix_length_le)
  next
    case False
    with Cons show ?thesis by auto
  qed
qed

lemma str_includes_iff: "str_includes s p \<longleftrightarrow> (\<exists>a b. s = a @ p @ b)"
proof
  assume "str_includes s p"
  then obtain i where i: "index_of s p = Some i" by (auto simp: str_includes_def)
  from index_of_Some_prefix [OF i] obtain b where "drop i s = p @ b"
    by (auto simp: starts_with_prefix prefix_def)
  then have "s = take i s @ p @ b" by (metis append_take_drop_id)
  then show "\<exists>a b. s = a @ p @ b" by blast
next
  assume "\<exists>a b. s = a @ p @ b"
  then obtain a b where "s = a @ p @ b" by blast
  then show "str_includes s p"
    by (induction a arbitrary: s) (auto simp: str_includes_def neq_Nil_conv, case_tac p, auto)
qed

text \<open>Searching for one character.\<close>

lemma index_of_char:
  "index_of s [c] = (if c \<in> set s then Some (length (takeWhile (\<lambda>d. d \<noteq> c) s)) else None)"
  by (induction s) auto

lemma index_of_char_append [simp]: "c \<notin> set a \<Longrightarrow> index_of (a @ c # b) [c] = Some (length a)"
  by (induction a) auto

lemma index_of_char_None [simp]: "c \<notin> set s \<Longrightarrow> index_of s [c] = None"
  by (simp add: index_of_char)

lemma index_of_char_Some_split:
  "index_of s [c] = Some i \<Longrightarrow> s = take i s @ c # drop (Suc i) s \<and> c \<notin> set (take i s)"
proof (induction s arbitrary: i)
  case Nil
  then show ?case by simp
next
  case (Cons d s)
  then show ?case by (cases "d = c") auto
qed

text \<open>Splitting and joining.\<close>

lemma split_on_not_Nil [simp]: "split_on c s \<noteq> []"
  by (cases s) (auto split: list.splits)

lemma split_on_absent [simp]: "c \<notin> set w \<Longrightarrow> split_on c w = [w]"
  by (induction w) auto

lemma split_on_append: "c \<notin> set w \<Longrightarrow> split_on c (w @ c # s) = w # split_on c s"
  by (induction w) auto

lemma split_on_no_sep: "w \<in> set (split_on c s) \<Longrightarrow> c \<notin> set w"
  by (induction c s arbitrary: w rule: split_on.induct) (auto split: if_splits list.splits)

lemma join_Cons: "ws \<noteq> [] \<Longrightarrow> join sep (w # ws) = w @ sep @ join sep ws"
  by (cases ws) auto

lemma split_on_join:
  "ws \<noteq> [] \<Longrightarrow> \<forall>w \<in> set ws. c \<notin> set w \<Longrightarrow> split_on c (join [c] ws) = ws"
proof (induction ws)
  case Nil
  then show ?case by simp
next
  case (Cons w ws)
  show ?case
  proof (cases "ws = []")
    case True
    with Cons.prems show ?thesis by simp
  next
    case False
    with Cons show ?thesis by (simp add: join_Cons split_on_append)
  qed
qed

lemma join_split_on: "join [c] (split_on c s) = s"
proof (induction s)
  case Nil
  then show ?case by simp
next
  case (Cons d s)
  then show ?case
    by (cases "split_on c s") (auto simp: join_Cons split: list.splits, metis join.simps(2) join.simps(3) append_Cons list.exhaust)
qed

lemma set_join_subset: "set (join sep ws) \<subseteq> set sep \<union> (\<Union>w \<in> set ws. set w)"
  by (induction sep ws rule: join.induct) auto

lemma in_join_subset: "w \<in> set ws \<Longrightarrow> set w \<subseteq> set (join sep ws)"
  by (induction sep ws rule: join.induct) auto

lemma split_on_subset: "w \<in> set (split_on c s) \<Longrightarrow> set w \<subseteq> set s"
  using in_join_subset [of w "split_on c s" "[c]"] by (simp add: join_split_on)

text \<open>Replacing.\<close>

lemma replace_all_absent: "\<not> str_includes s p \<Longrightarrow> replace_all p r s = s"
proof (induction s)
  case Nil
  then show ?case by simp
next
  case (Cons d s)
  then show ?case by (auto simp: str_includes_def)
qed

text \<open>Case conversion.\<close>

lemma lower_char_idem [simp]: "lower_char (lower_char c) = lower_char c"
proof -
  have "of_char (char_of n :: char) = n" if "n < 256" for n :: nat
    using that by simp
  then show ?thesis
    unfolding lower_char_def Let_def by (auto simp del: of_char_of)
qed

lemma to_lower_idem [simp]: "to_lower (to_lower s) = to_lower s"
  by (simp add: to_lower_def)

lemma length_to_lower [simp]: "length (to_lower s) = length s"
  by (simp add: to_lower_def)

lemma length_to_upper [simp]: "length (to_upper s) = length s"
  by (simp add: to_upper_def)

lemma to_lower_append [simp]: "to_lower (a @ b) = to_lower a @ to_lower b"
  by (simp add: to_lower_def)

lemma to_upper_append [simp]: "to_upper (a @ b) = to_upper a @ to_upper b"
  by (simp add: to_upper_def)

text \<open>Order of first occurrence.\<close>

lemma set_nub_from [simp]: "set (nub_from seen xs) = set xs - set seen"
  by (induction seen xs rule: nub_from.induct) auto

lemma distinct_nub_from [simp]: "distinct (nub_from seen xs)"
  by (induction seen xs rule: nub_from.induct) auto

lemma nub_from_id: "distinct xs \<Longrightarrow> set xs \<inter> set seen = {} \<Longrightarrow> nub_from seen xs = xs"
  by (induction xs arbitrary: seen) auto

lemma set_nub [simp]: "set (nub xs) = set xs"
  by (simp add: nub_def)

lemma distinct_nub [simp]: "distinct (nub xs)"
  by (simp add: nub_def)

lemma nub_id [simp]: "distinct xs \<Longrightarrow> nub xs = xs"
  by (simp add: nub_def nub_from_id)

text \<open>Objects.\<close>

lemma has_key_iff: "has_key o1 k \<longleftrightarrow> k \<in> fst ` set o1"
  by (auto simp: has_key_def map_of_eq_None_iff)

lemma has_key_set [simp]: "has_key (obj_set k v o1) k' \<longleftrightarrow> k' = k \<or> has_key o1 k'"
  by (auto simp: has_key_def update_conv')

lemma obj_get_set: "obj_get (obj_set k v o1) k' = (if k' = k then Some v else obj_get o1 k')"
  by (simp add: update_conv')

lemma obj_get_set_same [simp]: "obj_get (obj_set k v o1) k = Some v"
  by (simp add: obj_get_set)

lemma obj_get_set_other [simp]: "k' \<noteq> k \<Longrightarrow> obj_get (obj_set k v o1) k' = obj_get o1 k'"
  by (simp add: obj_get_set)

lemma obj_set_new: "\<not> has_key o1 k \<Longrightarrow> obj_set k v o1 = o1 @ [(k, v)]"
  by (induction o1) (auto simp: has_key_def)

lemma distinct_keys_set: "distinct (obj_keys o1) \<Longrightarrow> distinct (obj_keys (obj_set k v o1))"
  by (simp add: distinct_update)


lemma set_own_order [simp]: "set (own_order o1) = set o1"
  by (auto simp: own_order_def)

lemma sum_list_own_order [simp]:
  "sum_list (map f (own_order o1)) = (sum_list (map f o1) :: 'b :: comm_monoid_add)"
proof -
  have "sum_list (map f (insort_key k x xs)) = f x + sum_list (map f xs)" for k :: "_ \<Rightarrow> nat" and x xs
    by (induction xs) (auto simp: ac_simps)
  then have "sum_list (map f (sort_key k xs)) = sum_list (map f xs)" for k :: "_ \<Rightarrow> nat" and xs
    by (induction xs) (auto simp: sort_key_def)
  moreover have "sum_list (map f (filter P o1)) + sum_list (map f (filter (\<lambda>x. \<not> P x) o1)) = sum_list (map f o1)"
    for P by (induction o1) (auto simp: algebra_simps)
  ultimately show ?thesis by (simp add: own_order_def)
qed

lemma own_order_plain: "list_all (\<lambda>kv. \<not> array_index (fst kv)) o1 \<Longrightarrow> own_order o1 = o1"
  by (simp add: own_order_def list_all_iff filter_empty_conv)

section \<open>Printed numbers\<close>

lemma show_nat_digits: "c \<in> set (show_nat n) \<Longrightarrow> is_digit c"
proof (induction n rule: show_nat.induct)
  case (1 n)
  have "is_digit (char_of (48 + k))" if "k < 10" for k :: nat
    using that by (simp add: is_digit_def Let_def)
  with 1 show ?case by (subst (asm) show_nat.simps) (auto split: if_splits)
qed

lemma show_nat_not_Nil [simp]: "show_nat n \<noteq> []"
  by (subst show_nat.simps) simp

lemma digits_value_snoc: "digits_value (s @ [c]) = 10 * digits_value s + (of_char c - 48)"
  by (simp add: digits_value_def)

lemma digits_value_show_nat [simp]: "digits_value (show_nat n) = n"
proof (induction n rule: show_nat.induct)
  case (1 n)
  have "of_char (char_of (48 + k) :: char) = 48 + k" if "k < 10" for k :: nat
    using that by simp
  then have d: "of_char (char_of (48 + k) :: char) - 48 = k" if "k < 10" for k :: nat using that by simp
  show ?case
  proof (cases "n < 10")
    case True
    with d show ?thesis by (subst show_nat.simps) (simp add: digits_value_def)
  next
    case False
    have "show_nat n = show_nat (n div 10) @ [char_of (48 + n mod 10)]"
      using False by (subst show_nat.simps) simp
    then have "digits_value (show_nat n) = 10 * (n div 10) + n mod 10"
      using 1 False d [of "n mod 10"] by (simp add: digits_value_snoc)
    then show ?thesis by simp
  qed
qed

end
