(* ===== verification/OhmPeg.thy ===== *)
theory OhmPeg
  imports JsPrelude
begin

text \<open>
  The matcher of \<^verbatim>\<open>webapp/components/ohm.js\<close> (a copy of the Ohm library), as far as the search
  grammar of \<^verbatim>\<open>test-search.js\<close> uses it: parsing expressions, applications of rules, implicit
  skipping of spaces in syntactic rules, and concrete syntax trees with iteration columns.

  \<open>run\<close> is \<^verbatim>\<open>MatchState.eval\<close> with the \<^verbatim>\<open>eval\<close> of the expression, over what the rules do (the
  argument \<open>env\<close>); \<open>apply_rule\<close> ties the knot with a bound on the depth of nested applications.
  \<open>Deep\<close> says that the bound was exceeded, or that a loop made no progress (which loops forever
  in the code, and which Ohm rejects when it compiles a grammar). The locale \<open>peg\<close> states when a
  grammar is well-formed, and proves that then neither happens: each input has an answer, and
  the answer satisfies the unbounded recursive equations (\<open>answer_unfold\<close>). Memoisation does not
  change answers and is not modelled.
\<close>

datatype 'n pexp =
    Terminal string
  | CaseInsensitive string
  | CharClass "char \<Rightarrow> bool"
  | Empty
  | App 'n
  | Alt "'n pexp" "'n pexp"
  | Seq "'n pexp" "'n pexp"
  | Star "'n pexp"
  | Plus "'n pexp"
  | Opt "'n pexp"
  | Neg "'n pexp"

datatype 'n cst =
    Tok string
  | Node 'n "'n cst list" string \<comment> \<open>rule, children, source string\<close>
  | Iter "'n cst list"

datatype 'n answer =
    Deep
  | Fail
  | Match "'n cst list" string \<comment> \<open>bindings, remaining input\<close>

text \<open>The rule \<open>space\<close> is the range from character 0 to the blank.\<close>

definition ohm_space :: "char \<Rightarrow> bool" where
  "ohm_space c = ((of_char c :: nat) \<le> 32)"

definition skip_spaces :: "string \<Rightarrow> string" where
  "skip_spaces s = dropWhile ohm_space s"

definition skip_if :: "bool \<Rightarrow> string \<Rightarrow> string" where
  "skip_if b s = (if b then skip_spaces s else s)"

fun starts_with_ci :: "string \<Rightarrow> string \<Rightarrow> bool" where
  "starts_with_ci s [] = True"
| "starts_with_ci [] (c # p) = False"
| "starts_with_ci (d # s) (c # p) =
     (if upper_char d = upper_char c then starts_with_ci s p else False)"

primrec arity :: "'n pexp \<Rightarrow> nat" where
  "arity (Terminal t) = 1"
| "arity (CaseInsensitive t) = 1"
| "arity (CharClass P) = 1"
| "arity Empty = 0"
| "arity (App n) = 1"
| "arity (Alt a b) = arity a"
| "arity (Seq a b) = arity a + arity b"
| "arity (Star a) = arity a"
| "arity (Plus a) = arity a"
| "arity (Opt a) = arity a"
| "arity (Neg a) = 0"

definition columns :: "nat \<Rightarrow> 'n cst list list \<Rightarrow> 'n cst list" where
  "columns k rows = map (\<lambda>j. Iter (map (\<lambda>r. r ! j) rows)) [0..<k]"

text \<open>Repetition: the rows of bindings and the remaining input, \<open>None\<close> for \<open>Deep\<close>.\<close>

primrec iterate :: "nat \<Rightarrow> (string \<Rightarrow> 'n answer) \<Rightarrow> string \<Rightarrow> ('n cst list list \<times> string) option" where
  "iterate 0 f s = None"
| "iterate (Suc m) f s =
     (case f s of
        Deep \<Rightarrow> None
      | Fail \<Rightarrow> Some ([], s)
      | Match row r \<Rightarrow>
          if length r < length s
          then map_option (\<lambda>(rows, t). (row # rows, t)) (iterate m f r)
          else None)"

primrec run ::
  "('n \<Rightarrow> string \<Rightarrow> 'n answer) \<Rightarrow> ('n \<Rightarrow> bool) \<Rightarrow> bool \<Rightarrow> 'n pexp \<Rightarrow> string \<Rightarrow> 'n answer" where
  "run env syn ctx (Terminal t) s =
     (let s' = skip_if ctx s
      in if starts_with s' t then Match [Tok t] (drop (length t) s') else Fail)"
| "run env syn ctx (CaseInsensitive t) s =
     (let s' = skip_if ctx s
      in if starts_with_ci s' t then Match [Tok (take (length t) s')] (drop (length t) s') else Fail)"
| "run env syn ctx (CharClass P) s =
     (case skip_if ctx s of
        [] \<Rightarrow> Fail
      | c # r \<Rightarrow> if P c then Match [Tok [c]] r else Fail)"
| "run env syn ctx Empty s = Match [] s"
| "run env syn ctx (App n) s = env n (skip_if (ctx \<or> syn n) s)"
| "run env syn ctx (Alt a b) s =
     (case run env syn ctx a s of Fail \<Rightarrow> run env syn ctx b s | x \<Rightarrow> x)"
| "run env syn ctx (Seq a b) s =
     (case run env syn ctx a s of
        Match ks r \<Rightarrow>
          (case run env syn ctx b r of Match ls t \<Rightarrow> Match (ks @ ls) t | x \<Rightarrow> x)
      | x \<Rightarrow> x)"
| "run env syn ctx (Star a) s =
     (case iterate (Suc (length s)) (run env syn ctx a) s of
        None \<Rightarrow> Deep
      | Some (rows, r) \<Rightarrow> Match (columns (arity a) rows) r)"
| "run env syn ctx (Plus a) s =
     (case iterate (Suc (length s)) (run env syn ctx a) s of
        None \<Rightarrow> Deep
      | Some (rows, r) \<Rightarrow> if rows = [] then Fail else Match (columns (arity a) rows) r)"
| "run env syn ctx (Opt a) s =
     (case run env syn ctx a s of
        Deep \<Rightarrow> Deep
      | Fail \<Rightarrow> Match (columns (arity a) []) s
      | Match row r \<Rightarrow> Match (columns (arity a) [row]) r)"
| "run env syn ctx (Neg a) s =
     (case run env syn ctx a s of Deep \<Rightarrow> Deep | Fail \<Rightarrow> Match [] s | Match _ _ \<Rightarrow> Fail)"

text \<open>The node that an application builds.\<close>

definition wrap :: "'n \<Rightarrow> string \<Rightarrow> 'n answer \<Rightarrow> 'n answer" where
  "wrap n s a =
     (case a of Match ks r \<Rightarrow> Match [Node n ks (take (length s - length r) s)] r | x \<Rightarrow> x)"

primrec apply_rule ::
  "('n \<Rightarrow> 'n pexp) \<Rightarrow> ('n \<Rightarrow> bool) \<Rightarrow> nat \<Rightarrow> 'n \<Rightarrow> string \<Rightarrow> 'n answer" where
  "apply_rule body syn 0 n s = Deep"
| "apply_rule body syn (Suc d) n s = wrap n s (run (apply_rule body syn d) syn (syn n) (body n) s)"

text \<open>
  \<open>answer\<close>: a rule applied to an input, with room for \<open>K\<close> nested applications at each position.
\<close>

definition answer ::
  "('n \<Rightarrow> 'n pexp) \<Rightarrow> ('n \<Rightarrow> bool) \<Rightarrow> nat \<Rightarrow> 'n \<Rightarrow> string \<Rightarrow> 'n answer" where
  "answer body syn K n s = apply_rule body syn (Suc (length s) * K) n s"

text \<open>
  \<^verbatim>\<open>grammar.match(input)\<close>: the start rule, then the end of the input; spaces are skipped before
  each of the two when the start rule is syntactic. \<open>None\<close> is a failed match.
\<close>

definition match_all ::
  "('n \<Rightarrow> 'n pexp) \<Rightarrow> ('n \<Rightarrow> bool) \<Rightarrow> nat \<Rightarrow> 'n \<Rightarrow> string \<Rightarrow> 'n cst option" where
  "match_all body syn K start s =
     (case answer body syn K start (skip_if (syn start) s) of
        Match [k] r \<Rightarrow> if skip_if (syn start) r = [] then Some k else None
      | _ \<Rightarrow> None)"

section \<open>Well-formed grammars\<close>

text \<open>
  \<open>nul nl e\<close>: \<open>e\<close> may succeed without consuming input, where \<open>nl\<close> says so of the rules;
  \<open>left nl e\<close>: the rules it may apply before consuming input; \<open>loops_ok nl e\<close>: the body of each
  loop consumes input.
\<close>

primrec nul :: "('n \<Rightarrow> bool) \<Rightarrow> 'n pexp \<Rightarrow> bool" where
  "nul nl (Terminal t) = (t = [])"
| "nul nl (CaseInsensitive t) = (t = [])"
| "nul nl (CharClass P) = False"
| "nul nl Empty = True"
| "nul nl (App n) = nl n"
| "nul nl (Alt a b) = (nul nl a \<or> nul nl b)"
| "nul nl (Seq a b) = (nul nl a \<and> nul nl b)"
| "nul nl (Star a) = True"
| "nul nl (Plus a) = nul nl a"
| "nul nl (Opt a) = True"
| "nul nl (Neg a) = True"

primrec left :: "('n \<Rightarrow> bool) \<Rightarrow> 'n pexp \<Rightarrow> 'n list" where
  "left nl (Terminal t) = []"
| "left nl (CaseInsensitive t) = []"
| "left nl (CharClass P) = []"
| "left nl Empty = []"
| "left nl (App n) = [n]"
| "left nl (Alt a b) = left nl a @ left nl b"
| "left nl (Seq a b) = left nl a @ (if nul nl a then left nl b else [])"
| "left nl (Star a) = left nl a"
| "left nl (Plus a) = left nl a"
| "left nl (Opt a) = left nl a"
| "left nl (Neg a) = left nl a"

primrec loops_ok :: "('n \<Rightarrow> bool) \<Rightarrow> 'n pexp \<Rightarrow> bool" where
  "loops_ok nl (Terminal t) = True"
| "loops_ok nl (CaseInsensitive t) = True"
| "loops_ok nl (CharClass P) = True"
| "loops_ok nl Empty = True"
| "loops_ok nl (App n) = True"
| "loops_ok nl (Alt a b) = (loops_ok nl a \<and> loops_ok nl b)"
| "loops_ok nl (Seq a b) = (loops_ok nl a \<and> loops_ok nl b)"
| "loops_ok nl (Star a) = (loops_ok nl a \<and> \<not> nul nl a)"
| "loops_ok nl (Plus a) = (loops_ok nl a \<and> \<not> nul nl a)"
| "loops_ok nl (Opt a) = loops_ok nl a"
| "loops_ok nl (Neg a) = loops_ok nl a"

text \<open>\<open>consuming nl env\<close>: applications never give input back, and non-nullable ones take some.\<close>

definition consuming :: "('n \<Rightarrow> bool) \<Rightarrow> ('n \<Rightarrow> string \<Rightarrow> 'n answer) \<Rightarrow> bool" where
  "consuming nl env =
     (\<forall>n s ks r. env n s = Match ks r \<longrightarrow>
        length r \<le> length s \<and> (length r < length s \<or> nl n))"

lemma consumingD:
  "consuming nl env \<Longrightarrow> env n s = Match ks r \<Longrightarrow> length r \<le> length s"
  "consuming nl env \<Longrightarrow> env n s = Match ks r \<Longrightarrow> \<not> nl n \<Longrightarrow> length r < length s"
  by (auto simp: consuming_def)

lemma skip_spaces_length [simp]: "length (skip_spaces s) \<le> length s"
  by (simp add: skip_spaces_def length_dropWhile_le)

lemma skip_if_length: "length (skip_if b s) \<le> length s"
  by (simp add: skip_if_def)

lemma starts_with_ci_length: "starts_with_ci s p \<Longrightarrow> length p \<le> length s"
  by (induction s p rule: starts_with_ci.induct) (auto split: if_splits)

lemma starts_with_length: "starts_with s p \<Longrightarrow> length p \<le> length s"
  by (simp add: starts_with_prefix prefix_length_le)

lemma iterate_consumes:
  "iterate m f s = Some (rows, r) \<Longrightarrow> length r \<le> length s \<and> (rows = [] \<or> length r < length s)"
proof (induction m arbitrary: s rows)
  case 0
  then show ?case by simp
next
  case (Suc m)
  then show ?case by (fastforce split: answer.splits if_splits)
qed

lemma run_consumes:
  assumes "consuming nl env"
  shows "run env syn ctx e s = Match ks r \<Longrightarrow>
           length r \<le> length s \<and> (length r < length s \<or> nul nl e)"
proof (induction e arbitrary: s ks r)
  case (Terminal t)
  then have "length r + length t \<le> length s"
    using skip_if_length [of ctx s] starts_with_length [of "skip_if ctx s" t]
    by (simp add: Let_def split: if_splits) auto
  then show ?case by (cases t) auto
next
  case (CaseInsensitive t)
  then have "length r + length t \<le> length s"
    using skip_if_length [of ctx s] starts_with_ci_length [of "skip_if ctx s" t]
    by (simp add: Let_def split: if_splits) auto
  then show ?case by (cases t) auto
next
  case (CharClass P)
  then show ?case
    using skip_if_length [of ctx s] by (auto split: list.splits if_splits)
next
  case Empty
  then show ?case by simp
next
  case (App n)
  then show ?case
    using consumingD [OF assms, of n "skip_if (ctx \<or> syn n) s" ks r] skip_if_length [of "ctx \<or> syn n" s]
    by fastforce
next
  case (Alt a b)
  then show ?case by (fastforce split: answer.splits)
next
  case (Seq a b)
  then obtain ks1 r1 ks2 where
    "run env syn ctx a s = Match ks1 r1" "run env syn ctx b r1 = Match ks2 r"
    by (auto split: answer.splits)
  with Seq.IH(1) [of s ks1 r1] Seq.IH(2) [of r1 ks2 r] show ?case by auto
next
  case (Star a)
  then show ?case by (auto split: option.splits simp del: iterate.simps dest!: iterate_consumes)
next
  case (Plus a)
  then show ?case
    by (auto split: option.splits if_splits simp del: iterate.simps dest!: iterate_consumes)
next
  case (Opt a)
  then show ?case by (fastforce split: answer.splits)
next
  case (Neg a)
  then show ?case by (auto split: answer.splits)
qed

section \<open>Well-formed grammars have answers\<close>

text \<open>
  \<open>below l ns\<close>: the applications that an expression can make on an input of length \<open>l\<close> when
  \<open>ns\<close> are the rules it may apply first.
\<close>

definition agree :: "('n \<Rightarrow> string \<Rightarrow> 'a) \<Rightarrow> ('n \<Rightarrow> string \<Rightarrow> 'a) \<Rightarrow> nat \<Rightarrow> 'n list \<Rightarrow> bool" where
  "agree f g l ns =
     (\<forall>n s. length s < l \<or> length s \<le> l \<and> n \<in> set ns \<longrightarrow> f n s = g n s)"

definition settled :: "('n \<Rightarrow> string \<Rightarrow> 'n answer) \<Rightarrow> nat \<Rightarrow> 'n list \<Rightarrow> bool" where
  "settled f l ns =
     (\<forall>n s. length s < l \<or> length s \<le> l \<and> n \<in> set ns \<longrightarrow> f n s \<noteq> Deep)"

lemma agree_sub: "agree f g l ns \<Longrightarrow> m \<le> l \<Longrightarrow> set ms \<subseteq> set ns \<or> m < l \<Longrightarrow> agree f g m ms"
  unfolding agree_def by (meson le_less_trans less_le_trans subsetD order_trans)

lemma settled_sub: "settled f l ns \<Longrightarrow> m \<le> l \<Longrightarrow> set ms \<subseteq> set ns \<or> m < l \<Longrightarrow> settled f m ms"
  unfolding settled_def by (meson le_less_trans less_le_trans subsetD order_trans)

lemma iterate_cong:
  "(\<And>s'. length s' \<le> length s \<Longrightarrow> f s' = g s') \<Longrightarrow> iterate m f s = iterate m g s"
proof (induction m arbitrary: s)
  case 0
  then show ?case by simp
next
  case (Suc m)
  then show ?case by (auto split: answer.split)
qed

lemma iterate_settled:
  "length s < m \<Longrightarrow> (\<And>s'. length s' \<le> length s \<Longrightarrow> f s' \<noteq> Deep) \<Longrightarrow>
   (\<And>s' ks r. f s' = Match ks r \<Longrightarrow> length r < length s') \<Longrightarrow> iterate m f s \<noteq> None"
proof (induction m arbitrary: s)
  case 0
  then show ?case by simp
next
  case (Suc m)
  show ?case
  proof (cases "f s")
    case Deep
    with Suc.prems(2) [of s] show ?thesis by simp
  next
    case Fail
    then show ?thesis by simp
  next
    case (Match ks r)
    with Suc.prems(3) have "length r < length s" by blast
    with Suc.IH [of r] Suc.prems Match show ?thesis by simp
  qed
qed

lemma run_cong:
  assumes "consuming nl f"
  shows "agree f g (length s) (left nl e) \<Longrightarrow> run f syn ctx e s = run g syn ctx e s"
proof (induction e arbitrary: s)
  case (App n)
  then show ?case using skip_if_length [of "ctx \<or> syn n" s] by (auto simp: agree_def)
next
  case (Alt a b)
  then have "agree f g (length s) (left nl a)" "agree f g (length s) (left nl b)"
    by (auto intro: agree_sub)
  with Alt.IH show ?case by (simp split: answer.split)
next
  case (Seq a b)
  have "agree f g (length s) (left nl a)"
    by (rule agree_sub [OF Seq.prems]) auto
  then have a: "run f syn ctx a s = run g syn ctx a s" by (rule Seq.IH(1))
  have "run f syn ctx b r = run g syn ctx b r" if "run f syn ctx a s = Match ks r" for ks r
  proof (rule Seq.IH(2), rule agree_sub [OF Seq.prems])
    show "length r \<le> length s" "set (left nl b) \<subseteq> set (left nl (Seq a b)) \<or> length r < length s"
      using run_consumes [OF assms that] by auto
  qed
  with a show ?case by (auto split: answer.split)
next
  case (Star a)
  have "run f syn ctx a s' = run g syn ctx a s'" if "length s' \<le> length s" for s'
    by (rule Star.IH, rule agree_sub [OF Star.prems]) (use that in auto)
  then show ?case using iterate_cong [of s "run f syn ctx a" "run g syn ctx a"] by simp
next
  case (Plus a)
  have "run f syn ctx a s' = run g syn ctx a s'" if "length s' \<le> length s" for s'
    by (rule Plus.IH, rule agree_sub [OF Plus.prems]) (use that in auto)
  then show ?case using iterate_cong [of s "run f syn ctx a" "run g syn ctx a"] by simp
qed auto

lemma run_settled:
  assumes "consuming nl f"
  shows "settled f (length s) (left nl e) \<Longrightarrow> loops_ok nl e \<Longrightarrow> run f syn ctx e s \<noteq> Deep"
proof (induction e arbitrary: s)
  case (App n)
  then show ?case using skip_if_length [of "ctx \<or> syn n" s] by (auto simp: settled_def)
next
  case (Alt a b)
  then have "settled f (length s) (left nl a)" "settled f (length s) (left nl b)"
    by (auto intro: settled_sub)
  with Alt show ?case by (auto split: answer.split)
next
  case (Seq a b)
  have "settled f (length s) (left nl a)"
    by (rule settled_sub [OF Seq.prems(1)]) auto
  then have a: "run f syn ctx a s \<noteq> Deep" using Seq by simp
  have "run f syn ctx b r \<noteq> Deep" if m: "run f syn ctx a s = Match ks r" for ks r
  proof (rule Seq.IH(2), rule settled_sub [OF Seq.prems(1)])
    show "length r \<le> length s" "set (left nl b) \<subseteq> set (left nl (Seq a b)) \<or> length r < length s"
      using run_consumes [OF assms m] by auto
  qed (use Seq in simp)
  with a show ?case by (auto split: answer.split)
next
  case (Star a)
  have "run f syn ctx a s' \<noteq> Deep" if "length s' \<le> length s" for s'
    by (rule Star.IH, rule settled_sub [OF Star.prems(1)]) (use that Star in auto)
  then have "iterate (Suc (length s)) (run f syn ctx a) s \<noteq> None"
    using run_consumes [OF assms, of syn ctx a] Star.prems(2)
    by (intro iterate_settled) fastforce+
  then show ?case by (auto split: option.split simp del: iterate.simps)
next
  case (Plus a)
  have "run f syn ctx a s' \<noteq> Deep" if "length s' \<le> length s" for s'
    by (rule Plus.IH, rule settled_sub [OF Plus.prems(1)]) (use that Plus in auto)
  then have "iterate (Suc (length s)) (run f syn ctx a) s \<noteq> None"
    using run_consumes [OF assms, of syn ctx a] Plus.prems(2)
    by (intro iterate_settled) fastforce+
  then show ?case by (auto split: option.split simp del: iterate.simps)
qed (auto simp: Let_def split: list.split answer.split)

locale peg =
  fixes body :: "'n \<Rightarrow> 'n pexp"
    and syn :: "'n \<Rightarrow> bool"
    and nl :: "'n \<Rightarrow> bool"
    and rank :: "'n \<Rightarrow> nat"
    and K :: nat
  assumes nullable: "nul nl (body n) \<Longrightarrow> nl n"
    and loops: "loops_ok nl (body n)"
    and rank_left: "m \<in> set (left nl (body n)) \<Longrightarrow> rank m < rank n"
    and rank_K: "rank n < K"
begin

lemma apply_rule_consuming: "consuming nl (apply_rule body syn d)"
proof (induction d)
  case 0
  then show ?case by (simp add: consuming_def)
next
  case (Suc d)
  show ?case
    unfolding consuming_def
  proof (intro allI impI)
    fix n s ks r assume "apply_rule body syn (Suc d) n s = Match ks r"
    then obtain ks' where "run (apply_rule body syn d) syn (syn n) (body n) s = Match ks' r"
      by (auto simp: wrap_def split: answer.splits)
    from run_consumes [OF Suc this] nullable [of n]
    show "length r \<le> length s \<and> (length r < length s \<or> nl n)" by blast
  qed
qed

lemma bound_step:
  assumes "length s * K + rank n < Suc d"
    and "length s' < length s \<or> length s' \<le> length s \<and> m \<in> set (left nl (body n))"
  shows "length s' * K + rank m < d"
  using assms(2)
proof
  assume "length s' < length s"
  then have "Suc (length s') * K \<le> length s * K" by (intro mult_le_mono1) simp
  with rank_K [of m] assms(1) show ?thesis by simp
next
  assume m: "length s' \<le> length s \<and> m \<in> set (left nl (body n))"
  then have "length s' * K \<le> length s * K" by (intro mult_le_mono1) simp
  with rank_left [of m n] m assms(1) show ?thesis by linarith
qed

lemma apply_rule_settled: "length s * K + rank n < d \<Longrightarrow> apply_rule body syn d n s \<noteq> Deep"
proof (induction d arbitrary: n s)
  case 0
  then show ?case by simp
next
  case (Suc d)
  have "settled (apply_rule body syn d) (length s) (left nl (body n))"
    unfolding settled_def using Suc.IH bound_step [OF Suc.prems] by blast
  from run_settled [OF apply_rule_consuming this loops]
  show ?case by (auto simp: wrap_def split: answer.split)
qed

lemma apply_rule_stable:
  "length s * K + rank n < d \<Longrightarrow> length s * K + rank n < d' \<Longrightarrow>
     apply_rule body syn d n s = apply_rule body syn d' n s"
proof (induction d arbitrary: n s d')
  case 0
  then show ?case by simp
next
  case (Suc d)
  then obtain e where e: "d' = Suc e" by (cases d') auto
  have "agree (apply_rule body syn d) (apply_rule body syn e) (length s) (left nl (body n))"
    unfolding agree_def
    using Suc.IH bound_step [OF Suc.prems(1)] bound_step [OF Suc.prems(2) [unfolded e]] by blast
  from run_cong [OF apply_rule_consuming this] show ?case by (simp add: e)
qed

lemma answer_stable:
  "length s * K + rank n < d \<Longrightarrow> apply_rule body syn d n s = answer body syn K n s"
  unfolding answer_def using rank_K [of n] by (intro apply_rule_stable) simp_all

theorem answer_settled: "answer body syn K n s \<noteq> Deep"
  unfolding answer_def using rank_K [of n] by (intro apply_rule_settled) simp

theorem answer_unfold:
  "answer body syn K n s = wrap n s (run (answer body syn K) syn (syn n) (body n) s)"
proof -
  let ?d = "length s * K + rank n"
  have "agree (apply_rule body syn ?d) (answer body syn K) (length s) (left nl (body n))"
    unfolding agree_def using answer_stable bound_step [of s n ?d] by blast
  from run_cong [OF apply_rule_consuming this]
  have "apply_rule body syn (Suc ?d) n s = wrap n s (run (answer body syn K) syn (syn n) (body n) s)"
    by simp
  with answer_stable [of s n "Suc ?d"] show ?thesis by simp
qed

end

section \<open>What is left is a suffix of the input\<close>

lemma suffix_skip_if: "suffix (skip_if b s) s"
  by (simp add: skip_if_def skip_spaces_def suffix_dropWhile)

lemma iterate_suffix:
  "iterate m f s = Some (rows, r) \<Longrightarrow> (\<And>s ks r. f s = Match ks r \<Longrightarrow> suffix r s) \<Longrightarrow> suffix r s"
proof (induction m arbitrary: s rows)
  case 0
  then show ?case by simp
next
  case (Suc m)
  show ?case
  proof (cases "f s")
    case (Match ks t)
    with Suc.prems obtain rows' where "iterate m f t = Some (rows', r)" by (auto split: if_splits)
    with Suc.IH Suc.prems(2) Match show ?thesis by (meson suffix_order.trans)
  qed (use Suc.prems in auto)
qed

lemma run_suffix:
  assumes "\<And>n s ks r. env n s = Match ks r \<Longrightarrow> suffix r s"
  shows "run env syn ctx e s = Match ks r \<Longrightarrow> suffix r s"
proof (induction e arbitrary: s ks r)
  case (Terminal t)
  then show ?case
    using suffix_skip_if [of ctx s] suffix_drop [of "length t" "skip_if ctx s"]
    by (auto simp: Let_def split: if_splits dest: suffix_order.trans)
next
  case (CaseInsensitive t)
  then show ?case
    using suffix_skip_if [of ctx s] suffix_drop [of "length t" "skip_if ctx s"]
    by (auto simp: Let_def split: if_splits dest: suffix_order.trans)
next
  case (CharClass P)
  then show ?case
    using suffix_skip_if [of ctx s] by (auto split: list.splits if_splits dest: suffix_ConsD)
next
  case (App n)
  then show ?case using assms suffix_skip_if suffix_order.trans by fastforce
next
  case (Alt a b)
  then show ?case by (auto split: answer.splits)
next
  case (Seq a b)
  then obtain k1 t k2 where "run env syn ctx a s = Match k1 t" "run env syn ctx b t = Match k2 r"
    by (auto split: answer.splits)
  with Seq.IH show ?case by (meson suffix_order.trans)
next
  case (Star a)
  then show ?case
    using iterate_suffix [of _ "run env syn ctx a" s _ r]
    by (auto split: option.splits simp del: iterate.simps)
next
  case (Plus a)
  then show ?case
    using iterate_suffix [of _ "run env syn ctx a" s _ r]
    by (auto split: option.splits if_splits simp del: iterate.simps)
qed (auto split: answer.splits)

lemma apply_rule_suffix: "apply_rule body syn d n s = Match ks r \<Longrightarrow> suffix r s"
proof (induction d arbitrary: n s ks r)
  case 0
  then show ?case by simp
next
  case (Suc d)
  then obtain ks' where "run (apply_rule body syn d) syn (syn n) (body n) s = Match ks' r"
    by (auto simp: wrap_def split: answer.splits)
  from run_suffix [OF Suc.IH this] show ?case by simp
qed

lemma answer_suffix: "answer body syn K n s = Match ks r \<Longrightarrow> suffix r s"
  unfolding answer_def by (rule apply_rule_suffix)

section \<open>The shape of syntax trees\<close>

text \<open>
  \<open>shape T e ks\<close>: \<open>ks\<close> are bindings that \<open>e\<close> may produce, if the nodes of each rule \<open>n\<close> satisfy
  \<open>T n\<close>. A property of nodes that every body hands on to its own node holds of all nodes.
\<close>

primrec shape :: "('n \<Rightarrow> 'n cst \<Rightarrow> bool) \<Rightarrow> 'n pexp \<Rightarrow> 'n cst list \<Rightarrow> bool" where
  "shape T (Terminal t) ks = (ks = [Tok t])"
| "shape T (CaseInsensitive t) ks = (\<exists>u. ks = [Tok u] \<and> to_upper u = to_upper t)"
| "shape T (CharClass P) ks = (\<exists>c. P c \<and> ks = [Tok [c]])"
| "shape T Empty ks = (ks = [])"
| "shape T (App n) ks = (\<exists>k. ks = [k] \<and> T n k)"
| "shape T (Alt a b) ks = (shape T a ks \<or> shape T b ks)"
| "shape T (Seq a b) ks = (\<exists>k1 k2. ks = k1 @ k2 \<and> shape T a k1 \<and> shape T b k2)"
| "shape T (Star a) ks =
     (\<exists>rows. (\<forall>row \<in> set rows. shape T a row) \<and> ks = columns (arity a) rows)"
| "shape T (Plus a) ks =
     (\<exists>rows. rows \<noteq> [] \<and> (\<forall>row \<in> set rows. shape T a row) \<and> ks = columns (arity a) rows)"
| "shape T (Opt a) ks =
     (\<exists>rows. (\<forall>row \<in> set rows. shape T a row) \<and> ks = columns (arity a) rows)"
| "shape T (Neg a) ks = (ks = [])"

lemma starts_with_ci_take:
  "starts_with_ci s p \<Longrightarrow> to_upper (take (length p) s) = to_upper p"
  by (induction s p rule: starts_with_ci.induct) (auto simp: to_upper_def split: if_splits)

lemma iterate_rows:
  "iterate m f s = Some (rows, r) \<Longrightarrow> (\<And>s ks r. f s = Match ks r \<Longrightarrow> P ks) \<Longrightarrow> \<forall>row \<in> set rows. P row"
proof (induction m arbitrary: s rows)
  case 0
  then show ?case by simp
next
  case (Suc m)
  show ?case
  proof (cases "f s")
    case (Match ks t)
    with Suc.prems obtain rows' where
      "iterate m f t = Some (rows', r)" "rows = ks # rows'"
      by (auto split: if_splits)
    with Suc.IH [of t rows'] Suc.prems(2) Match show ?thesis by auto
  qed (use Suc.prems in auto)
qed

lemma run_shape:
  assumes "\<And>n s ks r. env n s = Match ks r \<Longrightarrow> \<exists>k. ks = [k] \<and> T n k"
  shows "run env syn ctx e s = Match ks r \<Longrightarrow> shape T e ks"
proof (induction e arbitrary: s ks r)
  case (CaseInsensitive t)
  then show ?case using starts_with_ci_take by (auto simp: Let_def split: if_splits)
next
  case (App n)
  then show ?case using assms by auto
next
  case (Alt a b)
  then show ?case by (auto split: answer.splits)
next
  case (Seq a b)
  then obtain k1 t k2 where "run env syn ctx a s = Match k1 t" "run env syn ctx b t = Match k2 r"
    "ks = k1 @ k2"
    by (auto split: answer.splits)
  with Seq.IH(1) [of s k1 t] Seq.IH(2) [of t k2 r] show ?case by auto
next
  case (Star a)
  then show ?case
    using iterate_rows [of _ "run env syn ctx a" s _ r "shape T a"]
    by (auto split: option.splits simp del: iterate.simps)
next
  case (Plus a)
  then show ?case
    using iterate_rows [of _ "run env syn ctx a" s _ r "shape T a"]
    by (auto split: option.splits if_splits simp del: iterate.simps)
next
  case (Opt a)
  have "shape T (Opt a) (columns (arity a) rows)" if "\<forall>row \<in> set rows. shape T a row" for rows
    using that by auto
  from this [of "[]"] this [of "[_]"] Opt show ?case
    by (auto split: answer.splits simp del: shape.simps)
next
  case (Neg a)
  then show ?case by (auto split: answer.splits)
qed (auto simp: Let_def split: if_splits list.splits)

context peg
begin

theorem answer_shape:
  assumes step: "\<And>n ks src. shape T (body n) ks \<Longrightarrow> T n (Node n ks src)"
    and ans: "answer body syn K n s = Match ks r"
  shows "\<exists>k. ks = [k] \<and> T n k"
proof -
  have "\<exists>k. ks = [k] \<and> T n k" if "apply_rule body syn d n s = Match ks r" for d n s ks r
    using that
  proof (induction d arbitrary: n s ks r)
    case 0
    then show ?case by simp
  next
    case (Suc d)
    then obtain ks' where
      "run (apply_rule body syn d) syn (syn n) (body n) s = Match ks' r"
      and ks: "ks = [Node n ks' (take (length s - length r) s)]"
      by (auto simp: wrap_def split: answer.splits)
    from run_shape [of _ T, OF Suc.IH this(1)] have "shape T (body n) ks'" by simp
    with ks step show ?case by auto
  qed
  with ans show ?thesis by (simp add: answer_def)
qed

end

end
