(* ===== verification/JsRegex.thy ===== *)
theory JsRegex
  imports JsPrelude
begin

text \<open>
  Regular expressions of JavaScript, as far as the components use them: literals, character
  classes, sequence, alternation, the greedy quantifiers \<open>?\<close>, \<open>*\<close> and \<open>+\<close>, capture groups, the
  assertions \<open>^\<close>, \<open>$\<close> and \<open>\b\<close>, and the flag \<open>i\<close>. The matcher is the backtracking matcher of
  the ECMAScript specification: a pattern is a function from a continuation to a function on
  matching states, alternatives are tried in order, and an iteration of a quantifier that
  consumes nothing fails.

  A matching state is (text already consumed, reversed; text to come; captures). The
  iterations of \<open>*\<close> are bounded by the length of the text to come, plus one; since every
  iteration consumes a character this bound is never reached
  (\<open>star_loop_enough\<close>).
\<close>

datatype re =
    RChr char
  | RClass bool "char \<Rightarrow> bool" \<comment> \<open>negated?, members\<close>
  | REmpty
  | RSeq re re
  | RAlt re re
  | ROpt re
  | RStar re
  | RPlus re
  | RGroup nat re
  | RBegin
  | REnd
  | RWordBoundary

type_synonym captures = "(nat \<times> string) list"
type_synonym rstate = "string \<times> string \<times> captures"
type_synonym cont = "rstate \<Rightarrow> rstate option"

definition class_member :: "bool \<Rightarrow> (char \<Rightarrow> bool) \<Rightarrow> char \<Rightarrow> bool" where
  "class_member icase P c =
     (if icase then P c \<or> P (lower_char c) \<or> P (upper_char c) else P c)"

definition chr_eq :: "bool \<Rightarrow> char \<Rightarrow> char \<Rightarrow> bool" where
  "chr_eq icase c d = (if c = d then True else if icase then upper_char c = upper_char d else False)"

definition is_word_char :: "char \<Rightarrow> bool" where
  "is_word_char c = (is_letter c \<or> is_digit c \<or> c = CHR ''_'')"

definition at_word_char :: "string \<Rightarrow> bool" where
  "at_word_char s = (case s of [] \<Rightarrow> False | c # _ \<Rightarrow> is_word_char c)"

primrec groups :: "re \<Rightarrow> nat list" where
  "groups (RChr c) = []"
| "groups (RClass n P) = []"
| "groups REmpty = []"
| "groups (RSeq a b) = groups a @ groups b"
| "groups (RAlt a b) = groups a @ groups b"
| "groups (ROpt a) = groups a"
| "groups (RStar a) = groups a"
| "groups (RPlus a) = groups a"
| "groups (RGroup i a) = i # groups a"
| "groups RBegin = []"
| "groups REnd = []"
| "groups RWordBoundary = []"

definition reset_groups :: "nat list \<Rightarrow> captures \<Rightarrow> captures" where
  "reset_groups gs caps = filter (\<lambda>(i, t). i \<notin> set gs) caps"

primrec star_loop :: "nat \<Rightarrow> (cont \<Rightarrow> cont) \<Rightarrow> nat list \<Rightarrow> cont \<Rightarrow> cont" where
  "star_loop 0 step gs k st = k st"
| "star_loop (Suc n) step gs k st =
     (case st of (before, after, caps) \<Rightarrow>
        (case step (\<lambda>(b, a, c).
                 if length a = length after then None else star_loop n step gs k (b, a, c))
               (before, after, reset_groups gs caps) of
           Some r \<Rightarrow> Some r
         | None \<Rightarrow> k st))"

primrec rmatch :: "bool \<Rightarrow> re \<Rightarrow> cont \<Rightarrow> cont" where
  "rmatch icase (RChr c) k st =
     (case st of (before, after, caps) \<Rightarrow>
        (case after of [] \<Rightarrow> None
         | d # ds \<Rightarrow> if chr_eq icase c d then k (d # before, ds, caps) else None))"
| "rmatch icase (RClass negated P) k st =
     (case st of (before, after, caps) \<Rightarrow>
        (case after of [] \<Rightarrow> None
         | d # ds \<Rightarrow>
             if class_member icase P d \<noteq> negated then k (d # before, ds, caps) else None))"
| "rmatch icase REmpty k st = k st"
| "rmatch icase (RSeq a b) k st = rmatch icase a (rmatch icase b k) st"
| "rmatch icase (RAlt a b) k st =
     (case rmatch icase a k st of Some r \<Rightarrow> Some r | None \<Rightarrow> rmatch icase b k st)"
| "rmatch icase (ROpt a) k st =
     (case st of (before, after, caps) \<Rightarrow>
        (case rmatch icase a (\<lambda>(b, s, c). if length s = length after then None else k (b, s, c))
                (before, after, reset_groups (groups a) caps) of
           Some r \<Rightarrow> Some r
         | None \<Rightarrow> k st))"
| "rmatch icase (RStar a) k st =
     star_loop (Suc (length (fst (snd st)))) (rmatch icase a) (groups a) k st"
| "rmatch icase (RPlus a) k st =
     rmatch icase a
       (\<lambda>st'. star_loop (Suc (length (fst (snd st')))) (rmatch icase a) (groups a) k st') st"
| "rmatch icase (RGroup i a) k st =
     (case st of (before, after, caps) \<Rightarrow>
        rmatch icase a
          (\<lambda>(b, s, c). k (b, s, (i, rev (take (length b - length before) b)) # c)) st)"
| "rmatch icase RBegin k st = (if fst st = [] then k st else None)"
| "rmatch icase REnd k st = (if fst (snd st) = [] then k st else None)"
| "rmatch icase RWordBoundary k st =
     (if at_word_char (fst st) \<noteq> at_word_char (fst (snd st)) then k st else None)"

text \<open>A regular expression object: its flag \<open>i\<close> and its pattern.\<close>

record regex =
  ignore_case :: bool
  pattern_of :: re

record match_result =
  m_before :: string
  m_text :: string
  m_after :: string
  m_groups :: captures

fun search_from :: "bool \<Rightarrow> re \<Rightarrow> string \<Rightarrow> string \<Rightarrow> match_result option" where
  "search_from icase r before after =
     (case rmatch icase r Some (before, after, []) of
        Some (b, a, caps) \<Rightarrow>
          Some \<lparr>m_before = rev before, m_text = rev (take (length b - length before) b),
                m_after = a, m_groups = caps\<rparr>
      | None \<Rightarrow> (case after of [] \<Rightarrow> None | d # ds \<Rightarrow> search_from icase r (d # before) ds))"

declare search_from.simps [simp del]

text \<open>\<open>rx.exec(s)\<close> (and \<open>s.match(rx)\<close>) and \<open>rx.test(s)\<close>.\<close>

definition exec :: "regex \<Rightarrow> string \<Rightarrow> match_result option" where
  "exec rx s = search_from (ignore_case rx) (pattern_of rx) [] s"

definition test :: "regex \<Rightarrow> string \<Rightarrow> bool" where
  "test rx s = (exec rx s \<noteq> None)"

definition group :: "match_result \<Rightarrow> nat \<Rightarrow> string option" where
  "group m i = (if i = 0 then Some (m_text m) else map_of (m_groups m) i)"

text \<open>\<open>s.replace(rx, f)\<close> for \<open>rx\<close> without the flag \<open>g\<close>: the first match is replaced.\<close>

definition replace_match :: "regex \<Rightarrow> (match_result \<Rightarrow> string) \<Rightarrow> string \<Rightarrow> string" where
  "replace_match rx f s =
     (case exec rx s of None \<Rightarrow> s | Some m \<Rightarrow> m_before m @ f m @ m_after m)"

text \<open>Building patterns: a literal, a sequence, a choice, a set of characters.\<close>

definition rstr :: "string \<Rightarrow> re" where
  "rstr s = foldr (\<lambda>c r. RSeq (RChr c) r) s REmpty"

fun rseq :: "re list \<Rightarrow> re" where
  "rseq [] = REmpty"
| "rseq [r] = r"
| "rseq (r # rs) = RSeq r (rseq rs)"

fun ralt :: "re list \<Rightarrow> re" where
  "ralt [] = REmpty"
| "ralt [r] = r"
| "ralt (r # rs) = RAlt r (ralt rs)"

definition rset :: "string \<Rightarrow> re" where
  "rset cs = RClass False (\<lambda>c. c \<in> set cs)"

definition rnset :: "string \<Rightarrow> re" where
  "rnset cs = RClass True (\<lambda>c. c \<in> set cs)"

definition rdigit :: re where
  "rdigit = RClass False is_digit"

section \<open>The bound on iterations is never reached\<close>

text \<open>
  \<open>below n k k'\<close>: the continuations agree on every state with at most \<open>n\<close> characters to come.
\<close>

definition below :: "nat \<Rightarrow> cont \<Rightarrow> cont \<Rightarrow> bool" where
  "below n k k' = (\<forall>b a c. length a \<le> n \<longrightarrow> k (b, a, c) = k' (b, a, c))"

text \<open>
  \<open>local step\<close>: a matcher calls its continuation on states with no more text to come than its
  own, so it cannot tell continuations apart that agree on those.
\<close>

definition local_step :: "(cont \<Rightarrow> cont) \<Rightarrow> bool" where
  "local_step step = (\<forall>n k k'. below n k k' \<longrightarrow> below n (step k) (step k'))"

lemma belowI: "(\<And>b a c. length a \<le> n \<Longrightarrow> k (b, a, c) = k' (b, a, c)) \<Longrightarrow> below n k k'"
  by (simp add: below_def)

lemma belowD: "below n k k' \<Longrightarrow> length a \<le> n \<Longrightarrow> k (b, a, c) = k' (b, a, c)"
  by (simp add: below_def)

lemma below_mono: "below n k k' \<Longrightarrow> m \<le> n \<Longrightarrow> below m k k'"
  by (simp add: below_def)

lemma star_loop_local:
  assumes "local_step step" and "below n k k'"
  shows "below n (star_loop m step gs k) (star_loop m step gs k')"
proof (induction m)
  case 0
  show ?case using assms(2) by (simp add: below_def)
next
  case (Suc m)
  show ?case
  proof (rule belowI)
    fix b a c assume a: "length (a :: string) \<le> n"
    let ?f = "\<lambda>k (b', a', c'). if length a' = length a then None
                else star_loop m step gs k (b', a', c')"
    have "below n (?f k) (?f k')" using Suc.IH by (simp add: below_def)
    then have "below n (step (?f k)) (step (?f k'))"
      using assms(1) unfolding local_step_def by blast
    from belowD [OF this a, of b "reset_groups gs c"] belowD [OF assms(2) a, of b c]
    show "star_loop (Suc m) step gs k (b, a, c) = star_loop (Suc m) step gs k' (b, a, c)"
      by (simp split: option.split)
  qed
qed

lemma rmatch_RSeq_fun: "rmatch icase (RSeq a b) k = rmatch icase a (rmatch icase b k)"
  by (rule ext) simp

lemma rmatch_RPlus_fun:
  "rmatch icase (RPlus a) k = rmatch icase a
     (\<lambda>st'. star_loop (Suc (length (fst (snd st')))) (rmatch icase a) (groups a) k st')"
  by (rule ext) (simp del: star_loop.simps)

lemma rmatch_local: "local_step (rmatch icase r)"
proof (induction r)
  case (RSeq a b)
  show ?case
    unfolding local_step_def
  proof (intro allI impI)
    fix n k k' assume k: "below n k k'"
    have "below n (rmatch icase b k) (rmatch icase b k')"
      using RSeq(2) k unfolding local_step_def by blast
    then have "below n (rmatch icase a (rmatch icase b k)) (rmatch icase a (rmatch icase b k'))"
      using RSeq(1) unfolding local_step_def by blast
    then show "below n (rmatch icase (RSeq a b) k) (rmatch icase (RSeq a b) k')"
      by (simp add: below_def)
  qed
next
  case (RAlt a b)
  show ?case
    unfolding local_step_def
  proof (intro allI impI belowI)
    fix n k k' b' c and s :: string
    assume k: "below n k k'" and s: "length s \<le> n"
    have "below n (rmatch icase a k) (rmatch icase a k')"
         "below n (rmatch icase b k) (rmatch icase b k')"
      using RAlt k unfolding local_step_def by blast+
    from belowD [OF this(1) s] belowD [OF this(2) s]
    show "rmatch icase (RAlt a b) k (b', s, c) = rmatch icase (RAlt a b) k' (b', s, c)"
      by (simp split: option.split)
  qed
next
  case (ROpt a)
  show ?case
    unfolding local_step_def
  proof (intro allI impI belowI)
    fix n k k' b c and s :: string
    assume k: "below n k k'" and s: "length s \<le> n"
    let ?f = "\<lambda>k (b', a', c'). if length a' = length s then None else k (b', a', c')"
    have "below n (?f k) (?f k')" using k by (simp add: below_def)
    then have "below n (rmatch icase a (?f k)) (rmatch icase a (?f k'))"
      using ROpt unfolding local_step_def by blast
    from belowD [OF this s, of b "reset_groups (groups a) c"] belowD [OF k s, of b c]
    show "rmatch icase (ROpt a) k (b, s, c) = rmatch icase (ROpt a) k' (b, s, c)"
      by (simp split: option.split)
  qed
next
  case (RStar a)
  show ?case
    unfolding local_step_def
  proof (intro allI impI belowI)
    fix n k k' b c and s :: string
    assume k: "below n k k'" and s: "length s \<le> n"
    show "rmatch icase (RStar a) k (b, s, c) = rmatch icase (RStar a) k' (b, s, c)"
      using belowD [OF star_loop_local [OF RStar k] s] by (simp del: star_loop.simps)
  qed
next
  case (RPlus a)
  have "below n (\<lambda>st'. star_loop (Suc (length (fst (snd st')))) (rmatch icase a) (groups a) k st')
                (\<lambda>st'. star_loop (Suc (length (fst (snd st')))) (rmatch icase a) (groups a) k' st')"
    if "below n k k'" for n k k'
    by (rule belowI) (simp del: star_loop.simps add: belowD [OF star_loop_local [OF RPlus that]])
  then show ?case using RPlus unfolding local_step_def rmatch_RPlus_fun by blast
next
  case (RGroup i a)
  show ?case
    unfolding local_step_def
  proof (intro allI impI belowI)
    fix n k k' c and b s :: string
    assume k: "below n k k'" and s: "length s \<le> n"
    let ?f = "\<lambda>k (b', a', c'). k (b', a', (i, rev (take (length b' - length b) b')) # c')"
    have "below n (?f k) (?f k')" using k by (simp add: below_def)
    then have "below n (rmatch icase a (?f k)) (rmatch icase a (?f k'))"
      using RGroup unfolding local_step_def by blast
    from belowD [OF this s]
    show "rmatch icase (RGroup i a) k (b, s, c) = rmatch icase (RGroup i a) k' (b, s, c)" by simp
  qed
qed (auto simp: local_step_def below_def split: list.splits)

lemma star_loop_enough:
  assumes step: "local_step step"
  shows "length a < m \<Longrightarrow> length a < n \<Longrightarrow>
    star_loop m step gs k (b, a, c) = star_loop n step gs k (b, a, c)"
proof (induction m arbitrary: n b a c)
  case 0
  then show ?case by simp
next
  case (Suc m)
  then obtain n' where n: "n = Suc n'" by (cases n) auto
  let ?f = "\<lambda>m (b', a', c'). if length a' = length a then None
              else star_loop m step gs k (b', a', c')"
  have "below (length a) (?f m) (?f n')"
    using Suc n by (auto intro!: belowI)
  then have "below (length a) (step (?f m)) (step (?f n'))"
    using step unfolding local_step_def by blast
  from belowD [OF this order_refl, of b "reset_groups gs c"]
  show ?case unfolding n by (simp split: option.split)
qed

text \<open>The usual unfolding of a greedy star, free of the bound.\<close>

lemma rmatch_star_unfold:
  "rmatch icase (RStar r) k (b, a, c) =
     (case rmatch icase r
             (\<lambda>(b', a', c'). if length a' < length a then rmatch icase (RStar r) k (b', a', c')
                else if length a' = length a then None
                else star_loop (length a) (rmatch icase r) (groups r) k (b', a', c'))
             (b, a, reset_groups (groups r) c) of
        Some res \<Rightarrow> Some res
      | None \<Rightarrow> k (b, a, c))"
proof -
  let ?f = "\<lambda>(b', a', c'). if length a' = length a then None
              else star_loop (length a) (rmatch icase r) (groups r) k (b', a', c')"
  let ?g = "\<lambda>(b', a', c'). if length a' < length a then rmatch icase (RStar r) k (b', a', c')
              else if length a' = length a then None
              else star_loop (length a) (rmatch icase r) (groups r) k (b', a', c')"
  have "below (length a) ?f ?g"
    by (rule belowI) (auto simp del: star_loop.simps intro!: star_loop_enough rmatch_local)
  then have "below (length a) (rmatch icase r ?f) (rmatch icase r ?g)"
    using rmatch_local unfolding local_step_def by blast
  from belowD [OF this] show ?thesis by simp
qed

section \<open>A match is a factor of the text\<close>

text \<open>
  \<open>extends st st'\<close>: \<open>st'\<close> is reached from \<open>st\<close> by consuming text.
\<close>

definition extends :: "rstate \<Rightarrow> rstate \<Rightarrow> bool" where
  "extends st st' =
     (\<exists>t. fst st' = rev t @ fst st \<and> fst (snd st) = t @ fst (snd st'))"

lemma extends_refl [simp]: "extends st st"
  by (simp add: extends_def)

lemma extends_trans: "extends a b \<Longrightarrow> extends b c \<Longrightarrow> extends a c"
  unfolding extends_def by (metis append.assoc rev_append)

lemma extends_caps: "extends (b, a, c) (b', a', c') \<Longrightarrow> extends (b, a, d) (b', a', d')"
  by (simp add: extends_def)

lemma extends_from: "extends (b, a, c) st \<Longrightarrow> extends (b, a, d) st"
  by (simp add: extends_def)

lemma extends_Cons: "extends (b, d # a, c) (d # b, a, c')"
  by (auto simp: extends_def intro: exI [of _ "[d]"])

definition sound_step :: "(cont \<Rightarrow> cont) \<Rightarrow> bool" where
  "sound_step step = (\<forall>k st r. step k st = Some r \<longrightarrow> (\<exists>st'. extends st st' \<and> k st' = Some r))"

lemma star_loop_sound: "sound_step step \<Longrightarrow> sound_step (star_loop n step gs)"
proof (induction n)
  case 0
  then show ?case by (auto simp: sound_step_def intro: extends_refl)
next
  case (Suc n)
  note IH = Suc.IH [OF Suc.prems]
  show ?case
    unfolding sound_step_def
  proof (intro allI impI)
    fix k st r assume r: "star_loop (Suc n) step gs k st = Some r"
    obtain b a c where st: "st = (b, a, c)" by (cases st)
    let ?f = "\<lambda>(b', a', c'). if length a' = length a then None
                else star_loop n step gs k (b', a', c')"
    show "\<exists>st'. extends st st' \<and> k st' = Some r"
    proof (cases "step ?f (b, a, reset_groups gs c)")
      case None
      with r st show ?thesis by (auto intro: extends_refl)
    next
      case (Some r')
      with r st have "step ?f (b, a, reset_groups gs c) = Some r" by simp
      then obtain st1 where st1: "extends (b, a, reset_groups gs c) st1" "?f st1 = Some r"
        using Suc.prems unfolding sound_step_def by blast
      then have "star_loop n step gs k st1 = Some r" by (cases st1) (simp split: if_splits)
      then obtain st2 where "extends st1 st2" "k st2 = Some r"
        using IH unfolding sound_step_def by blast
      moreover have "extends st st1" unfolding st using st1(1) by (rule extends_from)
      ultimately show ?thesis using extends_trans by blast
    qed
  qed
qed

lemma rmatch_sound: "sound_step (rmatch icase r)"
proof (induction r)
  case (RSeq a b)
  show ?case
    unfolding sound_step_def
  proof (intro allI impI)
    fix k st r assume "rmatch icase (RSeq a b) k st = Some r"
    then obtain st1 where st1: "extends st st1" "rmatch icase b k st1 = Some r"
      using RSeq(1) unfolding sound_step_def rmatch_RSeq_fun by blast
    then obtain st2 where "extends st1 st2" "k st2 = Some r"
      using RSeq(2) unfolding sound_step_def by blast
    with st1(1) extends_trans show "\<exists>st'. extends st st' \<and> k st' = Some r" by blast
  qed
next
  case (RAlt a b)
  then show ?case unfolding sound_step_def by (auto split: option.splits)
next
  case (ROpt a)
  show ?case
    unfolding sound_step_def
  proof (intro allI impI)
    fix k st r assume r: "rmatch icase (ROpt a) k st = Some r"
    obtain b s c where st: "st = (b, s, c)" by (cases st)
    let ?f = "\<lambda>(b', a', c'). if length a' = length s then None else k (b', a', c')"
    show "\<exists>st'. extends st st' \<and> k st' = Some r"
    proof (cases "rmatch icase a ?f (b, s, reset_groups (groups a) c)")
      case None
      with r st show ?thesis by (auto intro: extends_refl)
    next
      case (Some r')
      with r st have "rmatch icase a ?f (b, s, reset_groups (groups a) c) = Some r" by simp
      then obtain st1 where "extends (b, s, reset_groups (groups a) c) st1" "?f st1 = Some r"
        using ROpt unfolding sound_step_def by blast
      with st show ?thesis by (cases st1) (auto split: if_splits intro: extends_caps)
    qed
  qed
next
  case (RStar a)
  show ?case
    using star_loop_sound [OF RStar]
    unfolding sound_step_def rmatch.simps by blast
next
  case (RPlus a)
  show ?case
    unfolding sound_step_def
  proof (intro allI impI)
    fix k st r assume "rmatch icase (RPlus a) k st = Some r"
    then obtain st1 where st1: "extends st st1"
      "star_loop (Suc (length (fst (snd st1)))) (rmatch icase a) (groups a) k st1 = Some r"
      using RPlus unfolding sound_step_def rmatch_RPlus_fun by blast
    then obtain st2 where "extends st1 st2" "k st2 = Some r"
      using star_loop_sound [OF RPlus] unfolding sound_step_def by blast
    with st1(1) show "\<exists>st'. extends st st' \<and> k st' = Some r" by (meson extends_trans)
  qed
next
  case (RGroup i a)
  show ?case
    unfolding sound_step_def
  proof (intro allI impI)
    fix k st r assume r: "rmatch icase (RGroup i a) k st = Some r"
    obtain b s c where st: "st = (b, s, c)" by (cases st)
    with r RGroup obtain st1 where "extends (b, s, c) st1"
      "(case st1 of (b', s', c') \<Rightarrow> k (b', s', (i, rev (take (length b' - length b) b')) # c')) = Some r"
      unfolding sound_step_def by fastforce
    with st show "\<exists>st'. extends st st' \<and> k st' = Some r"
      by (cases st1) (auto intro: extends_caps)
  qed
next
  case (RChr c)
  then show ?case
    unfolding sound_step_def by (auto split: list.splits if_splits intro: extends_Cons)
next
  case (RClass n P)
  then show ?case
    unfolding sound_step_def by (auto split: list.splits if_splits intro: extends_Cons)
qed (auto simp: sound_step_def split: if_splits intro: extends_refl)

lemma search_from_factor:
  "search_from icase r before after = Some m \<Longrightarrow>
     m_before m @ m_text m @ m_after m = rev before @ after"
proof (induction icase r before after rule: search_from.induct)
  case (1 icase r before after)
  show ?case
  proof (cases "rmatch icase r Some (before, after, [])")
    case None
    with "1.prems" "1.IH" show ?thesis
      by (cases after) (auto simp: search_from.simps [of icase r before])
  next
    case (Some st)
    obtain b a c where st: "st = (b, a, c)" by (cases st)
    from Some have "extends (before, after, []) st"
      using rmatch_sound [of icase r] unfolding sound_step_def by fastforce
    then obtain t where "b = rev t @ before" "after = t @ a"
      using st by (auto simp: extends_def)
    with "1.prems" Some st show ?thesis
      by (auto simp: search_from.simps [of icase r before])
  qed
qed

lemma exec_factor: "exec rx s = Some m \<Longrightarrow> m_before m @ m_text m @ m_after m = s"
  unfolding exec_def by (drule search_from_factor) simp

text \<open>A pattern that is one capture group captures the whole match.\<close>

lemma search_from_group:
  "search_from icase (RGroup i r) before after = Some m \<Longrightarrow> group m i = Some (m_text m)"
proof (induction icase "RGroup i r" before after rule: search_from.induct)
  case (1 icase before after)
  show ?case
  proof (cases "rmatch icase (RGroup i r) Some (before, after, [])")
    case None
    with "1.prems" "1.hyps" show ?thesis
      by (cases after) (auto simp: search_from.simps [of icase _ before])
  next
    case (Some st)
    let ?k = "\<lambda>(b, s, c). Some (b, s, (i, rev (take (length b - length before) b)) # c)"
    from Some have "rmatch icase r ?k (before, after, []) = Some st" by simp
    then obtain st' where "?k st' = Some st"
      using rmatch_sound [of icase r] unfolding sound_step_def by blast
    with "1.prems" Some show ?thesis
      by (cases st') (auto simp: search_from.simps [of icase _ before] group_def)
  qed
qed

lemma exec_group:
  "pattern_of rx = RGroup i r \<Longrightarrow> exec rx s = Some m \<Longrightarrow> group m i = Some (m_text m)"
  by (simp add: exec_def search_from_group)

lemma m_text_included: "exec rx s = Some m \<Longrightarrow> str_includes s (m_text m)"
  by (drule exec_factor) (auto simp: str_includes_iff)

section \<open>Greedy runs of a character class\<close>

definition in_class :: "bool \<Rightarrow> bool \<Rightarrow> (char \<Rightarrow> bool) \<Rightarrow> char \<Rightarrow> bool" where
  "in_class icase negated P c = (class_member icase P c \<noteq> negated)"

lemma in_class_False [simp]: "in_class False False P = P"
  by (simp add: in_class_def class_member_def fun_eq_iff)

lemma reset_groups_Nil [simp]: "reset_groups [] c = c"
  by (simp add: reset_groups_def)

lemma star_class_greedy:
  "length a < n \<Longrightarrow>
   k (rev (takeWhile (in_class icase negated P) a) @ b, dropWhile (in_class icase negated P) a, c) = Some r \<Longrightarrow>
   star_loop n (rmatch icase (RClass negated P)) [] k (b, a, c) = Some r"
proof (induction n arbitrary: a b)
  case 0
  then show ?case by simp
next
  case (Suc n)
  show ?case
  proof (cases a)
    case Nil
    with Suc.prems show ?thesis by simp
  next
    case (Cons d ds)
    show ?thesis
    proof (cases "in_class icase negated P d")
      case True
      with Suc.IH [of ds "d # b"] Suc.prems Cons show ?thesis
        by (simp add: in_class_def)
    next
      case False
      with Suc.prems Cons show ?thesis by (simp add: in_class_def)
    qed
  qed
qed

lemma plus_class_greedy:
  assumes "in_class icase negated P d"
    and "k (rev (takeWhile (in_class icase negated P) (d # ds)) @ b,
            dropWhile (in_class icase negated P) (d # ds), c) = Some r"
  shows "rmatch icase (RPlus (RClass negated P)) k (b, d # ds, c) = Some r"
  using assms star_class_greedy [of ds "Suc (length ds)" k icase negated P "d # b" c r]
  by (simp add: in_class_def del: star_loop.simps)

lemma plus_class_fail:
  "a = [] \<or> \<not> in_class icase negated P (hd a) \<Longrightarrow>
     rmatch icase (RPlus (RClass negated P)) k (b, a, c) = None"
  by (cases a) (auto simp: in_class_def)

text \<open>Searching for a captured run of a class finds the first one, and all of it.\<close>

lemma search_run:
  "search_from False (RGroup 1 (RPlus (RClass False P))) before after =
     (case dropWhile (\<lambda>c. \<not> P c) after of
        [] \<Rightarrow> None
      | d # ds \<Rightarrow>
          (let run = takeWhile P (d # ds)
           in Some \<lparr>m_before = rev before @ takeWhile (\<lambda>c. \<not> P c) after, m_text = run,
                m_after = dropWhile P (d # ds), m_groups = [(1, run)]\<rparr>))"
proof (induction after arbitrary: before)
  case Nil
  show ?case by (simp add: search_from.simps plus_class_fail del: rmatch.simps(8))
next
  case (Cons d ds)
  let ?k = "\<lambda>(b, s, c). Some (b, s, (1::nat, rev (take (length b - length before) b)) # c)"
  show ?case
  proof (cases "P d")
    case True
    then have "rmatch False (RPlus (RClass False P)) ?k (before, d # ds, []) =
        ?k (rev (takeWhile P (d # ds)) @ before, dropWhile P (d # ds), [])"
      by (simp add: plus_class_greedy del: rmatch.simps(8))
    with True show ?thesis
      by (simp add: search_from.simps Let_def del: rmatch.simps(8))
  next
    case False
    then have "rmatch False (RPlus (RClass False P)) ?k (before, d # ds, []) = None"
      by (simp add: plus_class_fail del: rmatch.simps(8))
    with False Cons show ?thesis
      by (cases "dropWhile (\<lambda>c. \<not> P c) ds")
        (simp_all add: search_from.simps [of _ _ _ "d # ds"] del: rmatch.simps(8) dropWhile_eq_Nil_conv)
  qed
qed

end
