(* ===== verification/ProductInfo.thy ===== *)
theory ProductInfo
  imports JsRegex
begin

text \<open>
  \<^verbatim>\<open>webapp/components/product-info.js\<close>: products (a browser, perhaps its version, a revision
  of WPT and labels), the textual product specs the whole UI and the API use
  (\<^verbatim>\<open>name[-version][[label,...]][@revision]\<close>), and how products are displayed. A product is a
  record; a test run, the JSON object the API sends, is a product with more fields. A thrown
  exception is \<open>Inl\<close> of the thrown string.
\<close>

section \<open>Constants\<close>

definition DisplayNames :: "string obj" where
  "DisplayNames =
     [(''chrome'', ''Chrome''), (''chrome-experimental'', ''Chrome''),
      (''edge'', ''Edge''), (''edge-experimental'', ''Edge''),
      (''firefox'', ''Firefox''), (''firefox-experimental'', ''Firefox''),
      (''safari'', ''Safari''), (''safari-experimental'', ''Safari''),
      (''android_webview'', ''WebView''), (''blitz'', ''Blitz''),
      (''chrome_android'', ''ChromeAndroid''), (''chrome_ios'', ''ChromeIOS''),
      (''chromium'', ''Chromium''), (''deno'', ''Deno''),
      (''firefox_android'', ''Firefox Android''), (''flow'', ''Flow''),
      (''ladybird'', ''Ladybird''), (''node.js'', ''Node.js''), (''servo'', ''Servo''),
      (''uc'', ''UC Browser''), (''wktr'', ''macOS WebKit''), (''webkitgtk'', ''WebKitGTK''),
      (''wpewebkit'', ''WPE WebKit''),
      (''android'', ''Android''), (''linux'', ''Linux''), (''mac'', ''macOS''),
      (''win'', ''Windows''),
      (''stable'', ''Stable''), (''beta'', ''Beta''), (''experimental'', ''Experimental''),
      (''dev'', ''Dev''), (''preview'', ''Technology Preview''), (''nightly'', ''Nightly''),
      (''azure'', ''Azure Pipelines''), (''buildbot'', ''Buildbot''),
      (''github-actions'', ''GitHub Actions''), (''msedge'', ''MS Edge''),
      (''taskcluster'', ''Taskcluster'')]"

definition versionPatterns_Major :: regex where
  "versionPatterns_Major = \<lparr>ignore_case = False, pattern_of = RGroup 1 (RPlus rdigit)\<rparr>"

definition versionPatterns_MajorAndMinor :: regex where
  "versionPatterns_MajorAndMinor =
     \<lparr>ignore_case = False,
      pattern_of = RGroup 1 (rseq [RPlus rdigit, RChr (CHR ''.''), RPlus rdigit])\<rparr>"

definition versionPatterns_Node :: regex where
  "versionPatterns_Node =
     \<lparr>ignore_case = False,
      pattern_of = RGroup 1 (rseq
        [RPlus rdigit, RChr (CHR ''.''), RPlus rdigit, RChr (CHR ''.''), RPlus rdigit,
         ROpt (RSeq (RChr (CHR ''-'')) (RPlus (RClass False is_letter)))])\<rparr>"

definition AllBrowserNames :: "string list" where
  "AllBrowserNames =
     [''android_webview'', ''blitz'', ''chrome_android'', ''chrome_ios'', ''chrome'',
      ''chromium'', ''deno'', ''edge'', ''firefox_android'', ''firefox'', ''flow'', ''ladybird'',
      ''node.js'', ''safari'', ''servo'', ''webkitgtk'', ''wpewebkit'', ''wktr'']"

definition DefaultBrowserNames :: "string list" where
  "DefaultBrowserNames = [''chrome'', ''edge'', ''firefox'', ''safari'']"

definition DefaultProductSpecs :: "string list" where
  "DefaultProductSpecs = DefaultBrowserNames"

definition CommitTypes :: "string list" where
  "CommitTypes = [''pr_head'', ''master'']"

definition Channels :: "string list" where
  "Channels = [''stable'', ''beta'', ''experimental'']"

definition Sources :: "string list" where
  "Sources = [''buildbot'', ''taskcluster'', ''msedge'', ''azure'', ''github-actions'']"

definition Platforms :: "string list" where
  "Platforms = [''linux'', ''win'', ''mac'', ''ios'', ''android'']"

definition SemanticLabels :: "(string \<times> string list) list" where
  "SemanticLabels = [(''_channel'', Channels), (''_source'', Sources)]"

section \<open>Products and their specs\<close>

record product =
  browser_name :: string
  browser_version :: "string option"
  labels :: "string list option"
  revision :: "string option"

text \<open>The fields of a test run beyond those of its product, as the components read them.\<close>

record test_run = product +
  run_id :: nat
  os_name :: string
  os_version :: string
  full_revision_hash :: string
  results_url :: string
  time_start :: string
  time_end :: string

text \<open>The idiom \<open>i = s.indexOf(c); if (i > 0) { ... s.substr(i + 1) ... s.substr(0, i) ... }\<close>.\<close>

definition cut_at :: "char \<Rightarrow> string \<Rightarrow> string \<times> string option" where
  "cut_at c s =
     (case index_of s [c] of
        Some i \<Rightarrow> if i > 0 then (take i s, Some (drop (i + 1) s)) else (s, None)
      | None \<Rightarrow> (s, None))"

definition parseProduct :: "string \<Rightarrow> product" where
  "parseProduct nm =
     (case cut_at (CHR ''-'') nm of
        (b, v) \<Rightarrow> \<lparr>browser_name = b, browser_version = v, labels = None, revision = None\<rparr>)"

text \<open>The text after an opening bracket: a closing bracket last, the labels without repetitions.\<close>

definition parseLabels :: "string \<Rightarrow> string + string list" where
  "parseLabels labelsStr =
     (if labelsStr = [] \<or> last labelsStr \<noteq> CHR '']'' then Inl ''Expected closing bracket''
      else Inr (nub (split_on (CHR '','') (butlast labelsStr))))"

definition parseProductSpec :: "string \<Rightarrow> string + product" where
  "parseProductSpec spec =
     (case cut_at (CHR ''@'') spec of (spec1, sha) \<Rightarrow>
      (case cut_at (CHR ''['') spec1 of (spec2, labelsStr) \<Rightarrow>
       (case (case labelsStr of None \<Rightarrow> Inr [] | Some l \<Rightarrow> parseLabels l) of
          Inl e \<Rightarrow> Inl e
        | Inr ls \<Rightarrow>
            Inr ((parseProduct spec2)
                  \<lparr>revision := Some (case sha of None \<Rightarrow> [] | Some r \<Rightarrow> r), labels := Some ls\<rparr>))))"

definition AllProducts :: "(string + product) list" where
  "AllProducts = map parseProductSpec AllBrowserNames"

definition DefaultProducts :: "(string + product) list" where
  "DefaultProducts = map parseProductSpec DefaultProductSpecs"

definition productFromRun :: "test_run \<Rightarrow> product" where
  "productFromRun run =
     \<lparr>browser_name = browser_name run, browser_version = browser_version run,
      labels = labels run, revision = revision run\<rparr>"

text \<open>A revision as the components pass it around: \<open>undefined\<close>, a string, or an array.\<close>

datatype sha = NoSha | Sha string | Shas "sha list"

fun computeIsLatest :: "sha \<Rightarrow> bool" where
  "computeIsLatest (Shas []) = True"
| "computeIsLatest (Shas [r]) = computeIsLatest r"
| "computeIsLatest (Shas (r # s # rs)) = False"
| "computeIsLatest NoSha = True"
| "computeIsLatest (Sha r) = (r = [] \<or> r = ''latest'')"

definition getSpec :: "bool \<Rightarrow> ('a :: type) product_scheme \<Rightarrow> string" where
  "getSpec withRevision p =
     browser_name p
     @ (if truthy (browser_version p) then ''-'' @ the (browser_version p) else [])
     @ (case labels p of
          Some (l # ls) \<Rightarrow> ''['' @ join '','' (l # ls) @ '']''
        | _ \<Rightarrow> [])
     @ (if withRevision \<and> truthy (revision p) \<and> \<not> computeIsLatest (Sha (the (revision p)))
        then ''@'' @ the (revision p) else [])"

section \<open>Display\<close>

text \<open>\<open>DisplayNames.get(name) || name\<close>, where \<open>name\<close> may be \<open>undefined\<close>.\<close>

definition displayName :: "string option \<Rightarrow> string option" where
  "displayName nm =
     (case nm of None \<Rightarrow> None | Some n \<Rightarrow> Some (or_else (obj_get DisplayNames n) n))"

definition displayLabels :: "string list option \<Rightarrow> string" where
  "displayLabels ls = (case ls of Some l \<Rightarrow> join '', '' l | None \<Rightarrow> [])"

definition logoWithoutChannels :: "string list" where
  "logoWithoutChannels =
     [''blitz'', ''chromium'', ''deno'', ''flow'', ''ladybird'', ''node.js'', ''servo'', ''wktr'',
      ''webkitgtk'', ''wpewebkit'']"

definition logoChannels :: "string list" where
  "logoChannels = [''beta'', ''dev'', ''canary'', ''nightly'', ''preview'']"

definition displayLogo :: "string option \<Rightarrow> string list option \<Rightarrow> string option" where
  "displayLogo name0 labels0 =
     (if \<not> truthy name0 then None
      else
        (let nm = the name0;
             ls = (case labels0 of None \<Rightarrow> [] | Some l \<Rightarrow> l)
         in
           if nm = ''chrome'' \<and> ''nightly'' \<in> set ls \<and> ''canary'' \<notin> set ls then
             Some (''/static/'' @ ''chromium'' @ ''_64x64.png'')
           else if nm = ''android_webview'' then Some (''/static/'' @ nm @ ''.png'')
           else if nm = ''chrome_android'' \<or> nm = ''chrome_ios'' then
             Some ''/static/chrome_64x64.png''
           else if nm = ''firefox_android'' then Some ''/static/geckoview_64x64.png''
           else if nm \<notin> set logoWithoutChannels then
             (case find (\<lambda>c. c \<in> set ls) logoChannels of
                Some channel \<Rightarrow> Some (''/static/'' @ nm @ ''-'' @ channel @ ''_64x64.png'')
              | None \<Rightarrow> Some (''/static/'' @ nm @ ''_64x64.png''))
           else Some (''/static/'' @ nm @ ''_64x64.png'')))"

definition displayMetadataLogo :: "string \<Rightarrow> string option" where
  "displayMetadataLogo productName =
     displayLogo (Some (if productName = [] then ''wpt'' else productName)) None"

definition sourceName :: "('a :: type) product_scheme \<Rightarrow> string option" where
  "sourceName p =
     (case labels p of
        Some ls \<Rightarrow> displayName (find (\<lambda>s. s \<in> set Sources) ls)
      | None \<Rightarrow> Some [])"

definition minorIsSignificant :: "string \<Rightarrow> bool" where
  "minorIsSignificant browserName =
     (browserName = ''deno'' \<or> browserName = ''flow'' \<or> browserName = ''safari'' \<or>
      browserName = ''webkitgtk'' \<or> browserName = ''wpewebkit'')"

text \<open>\<open>exec(undefined)\<close> searches the text \<open>undefined\<close>.\<close>

definition versionPattern :: "string \<Rightarrow> regex" where
  "versionPattern browserName =
     (if browserName = ''node.js'' then versionPatterns_Node
      else if minorIsSignificant browserName then versionPatterns_MajorAndMinor
      else versionPatterns_Major)"

definition shortVersion :: "string \<Rightarrow> string option \<Rightarrow> string option" where
  "shortVersion browserName browserVersion =
     (case exec (versionPattern browserName)
             (case browserVersion of None \<Rightarrow> ''undefined'' | Some v \<Rightarrow> v) of
        None \<Rightarrow> browserVersion
      | Some m \<Rightarrow> group m 1)"

section \<open>Cutting a text in two\<close>

lemma cut_at_append [simp]:
  "c \<notin> set a \<Longrightarrow> a \<noteq> [] \<Longrightarrow> cut_at c (a @ c # b) = (a, Some b)"
  by (simp add: cut_at_def)

lemma cut_at_absent [simp]: "c \<notin> set s \<Longrightarrow> cut_at c s = (s, None)"
  by (simp add: cut_at_def)

lemma cut_at_first [simp]: "cut_at c (c # s) = (c # s, None)"
  by (simp add: cut_at_def)

lemma cut_at_SomeD: "cut_at c s = (a, Some b) \<Longrightarrow> s = a @ c # b \<and> c \<notin> set a \<and> a \<noteq> []"
  by (cases "index_of s [c]")
    (auto simp: cut_at_def split: if_splits dest: index_of_char_Some_split)

lemma cut_at_NoneD: "cut_at c s = (a, None) \<Longrightarrow> a = s \<and> (c \<notin> set s \<or> (\<exists>t. s = c # t))"
  by (cases s) (auto simp: cut_at_def index_of_char split: option.splits if_splits)

lemma cut_at_cases [consumes 1, case_names None Some]:
  assumes "cut_at c s = (a, v)"
    and "v = None \<Longrightarrow> a = s \<Longrightarrow> c \<notin> set s \<or> (\<exists>t. s = c # t) \<Longrightarrow> thesis"
    and "\<And>b. v = Some b \<Longrightarrow> s = a @ c # b \<Longrightarrow> c \<notin> set a \<Longrightarrow> a \<noteq> [] \<Longrightarrow> thesis"
  shows thesis
  using assms cut_at_SomeD [of c s a] cut_at_NoneD [of c s a] by (cases v) auto

lemma cut_at_uncut:
  "c \<notin> set s \<or> (\<exists>t. s = c # t) \<Longrightarrow> cut_at c s = (s, None)"
  by auto

section \<open>Printing and parsing specs\<close>

text \<open>
  What a spec keeps of a product: no empty version, and no revision (\<open>''\<close>) in place of
  \<open>latest\<close>; the parser always fills in labels and a revision.
\<close>

definition canonical :: "product \<Rightarrow> product" where
  "canonical p =
     p\<lparr>browser_version := (if truthy (browser_version p) then browser_version p else None),
       labels := Some (case labels p of None \<Rightarrow> [] | Some ls \<Rightarrow> ls),
       revision := Some (if truthy (revision p) \<and> \<not> computeIsLatest (Sha (the (revision p)))
                         then the (revision p) else [])\<rparr>"

text \<open>Products a spec can denote: the separators do not occur where they would be misread.\<close>

definition specifiable :: "product \<Rightarrow> bool" where
  "specifiable p =
     (browser_name p \<noteq> [] \<and>
      (\<forall>c \<in> set (browser_name p). c \<notin> {CHR ''-'', CHR ''['', CHR ''@''}) \<and>
      (\<forall>c \<in> set (case browser_version p of None \<Rightarrow> [] | Some v \<Rightarrow> v).
          c \<notin> {CHR ''['', CHR ''@''}) \<and>
      (case labels p of None \<Rightarrow> True
       | Some ls \<Rightarrow> distinct ls \<and> (\<forall>l \<in> set ls. CHR '','' \<notin> set l \<and> CHR ''@'' \<notin> set l)))"

text \<open>The three parts of a printed spec.\<close>

definition version_part :: "string option \<Rightarrow> string" where
  "version_part v = (if truthy v then ''-'' @ the v else [])"

definition labels_part :: "string list \<Rightarrow> string" where
  "labels_part ls = (if ls = [] then [] else ''['' @ join '','' ls @ '']'')"

definition revision_part :: "string option \<Rightarrow> string" where
  "revision_part r =
     (if truthy r \<and> \<not> computeIsLatest (Sha (the r)) then ''@'' @ the r else [])"

lemma getSpec_parts:
  "getSpec True p = browser_name p @ version_part (browser_version p)
     @ labels_part (case labels p of None \<Rightarrow> [] | Some ls \<Rightarrow> ls) @ revision_part (revision p)"
  by (simp add: getSpec_def version_part_def labels_part_def revision_part_def
      split: option.splits list.splits)

lemma parseLabels_join:
  assumes "ls \<noteq> []" "distinct ls" "\<forall>l \<in> set ls. CHR '','' \<notin> set l"
  shows "parseLabels (join '','' ls @ '']'') = Inr ls"
  using assms by (simp add: parseLabels_def split_on_join)

text \<open>If the three cuts find the parts again then parsing gives the canonical product.\<close>

lemma parse_parts:
  fixes p :: product
  defines "nm \<equiv> browser_name p" and "v \<equiv> browser_version p"
    and "ls \<equiv> (case labels p of None \<Rightarrow> [] | Some ls \<Rightarrow> ls)" and "r \<equiv> revision p"
  assumes name: "cut_at (CHR ''-'') (nm @ version_part v)
                   = (nm, if truthy v then v else None)"
    and lbls: "cut_at (CHR ''['') (nm @ version_part v @ labels_part ls)
                   = (nm @ version_part v, if ls = [] then None else Some (join '','' ls @ '']''))"
    and rev: "cut_at (CHR ''@'') (nm @ version_part v @ labels_part ls @ revision_part r)
                   = (nm @ version_part v @ labels_part ls,
                      if revision_part r = [] then None else Some (the r))"
    and ok: "distinct ls" "\<forall>l \<in> set ls. CHR '','' \<notin> set l"
  shows "parseProductSpec (getSpec True p) = Inr (canonical p)"
proof -
  have "(case (if ls = [] then None else Some (join '','' ls @ '']'')) of
           None \<Rightarrow> Inr [] | Some l \<Rightarrow> parseLabels l) = Inr ls"
    using parseLabels_join [OF _ ok] by auto
  moreover have "(case if revision_part r = [] then None else Some (the r) of None \<Rightarrow> [] | Some r \<Rightarrow> r)
      = (if truthy r \<and> \<not> computeIsLatest (Sha (the r)) then the r else [])"
    by (simp add: revision_part_def)
  moreover have "parseProduct (nm @ version_part v) =
      \<lparr>browser_name = nm, browser_version = if truthy v then v else None,
       labels = None, revision = None\<rparr>"
    using name by (simp add: parseProduct_def)
  ultimately show ?thesis
    using lbls rev
    unfolding getSpec_parts parseProductSpec_def canonical_def nm_def v_def ls_def r_def
    by (cases p) simp
qed

lemma set_version_part: "set (version_part v) \<subseteq> {CHR ''-''} \<union> set (case v of None \<Rightarrow> [] | Some w \<Rightarrow> w)"
  by (auto simp: version_part_def truthy_def split: option.splits)

lemma set_labels_part:
  "set (labels_part ls) \<subseteq> {CHR ''['', CHR '']'', CHR '',''} \<union> (\<Union>l \<in> set ls. set l)"
  using set_join_subset [of "'',''" ls] by (auto simp: labels_part_def)

lemma labels_part_absent:
  "c \<notin> {CHR ''['', CHR '']'', CHR '',''} \<Longrightarrow> \<forall>l \<in> set ls. c \<notin> set l \<Longrightarrow> c \<notin> set (labels_part ls)"
  using set_labels_part [of ls] by blast

lemma parse_specifiable:
  assumes "specifiable p"
  shows "parseProductSpec (getSpec True p) = Inr (canonical p)"
proof (rule parse_parts)
  let ?nm = "browser_name p" and ?v = "browser_version p" and ?r = "revision p"
  let ?ls = "case labels p of None \<Rightarrow> [] | Some ls \<Rightarrow> ls"
  have nm: "?nm \<noteq> []" "CHR ''-'' \<notin> set ?nm" "CHR ''['' \<notin> set ?nm" "CHR ''@'' \<notin> set ?nm"
    using assms by (auto simp: specifiable_def)
  have v: "CHR ''['' \<notin> set (version_part ?v)" "CHR ''@'' \<notin> set (version_part ?v)"
    using assms set_version_part [of ?v] by (auto simp: specifiable_def)
  show ls: "distinct ?ls" "\<forall>l \<in> set ?ls. CHR '','' \<notin> set l"
    using assms by (auto simp: specifiable_def split: option.splits)
  have "\<forall>l \<in> set ?ls. CHR ''@'' \<notin> set l"
    using assms by (auto simp: specifiable_def split: option.splits)
  then have l: "CHR ''@'' \<notin> set (labels_part ?ls)"
    by (intro labels_part_absent) auto
  show "cut_at (CHR ''-'') (?nm @ version_part ?v) = (?nm, if truthy ?v then ?v else None)"
    using nm by (auto simp: version_part_def truthy_def split: option.splits)
  show "cut_at (CHR ''['') (?nm @ version_part ?v @ labels_part ?ls)
          = (?nm @ version_part ?v, if ?ls = [] then None else Some (join '','' ?ls @ '']''))"
    using nm v cut_at_append [of "CHR ''[''" "?nm @ version_part ?v"]
    by (auto simp: labels_part_def)
  show "cut_at (CHR ''@'') (?nm @ version_part ?v @ labels_part ?ls @ revision_part ?r)
          = (?nm @ version_part ?v @ labels_part ?ls,
             if revision_part ?r = [] then None else Some (the ?r))"
    using nm v l cut_at_append [of "CHR ''@''" "?nm @ version_part ?v @ labels_part ?ls"]
    by (auto simp: revision_part_def)
qed

text \<open>
  Any spec that parses: its product prints to a spec that parses to the canonical product.
\<close>

lemma cut_at_prefix_uncut:
  assumes "c \<notin> set (a @ b) \<or> (\<exists>t. a @ b = c # t)" and "a \<noteq> []"
    and "c \<notin> set b'"
  shows "cut_at c (a @ b') = (a @ b', None)"
  using assms by (cases a) (auto intro!: cut_at_uncut)

lemma parseLabels_Inr:
  assumes "parseLabels l = Inr ls"
  shows "ls \<noteq> []" "distinct ls" "\<forall>w \<in> set ls. CHR '','' \<notin> set w \<and> set w \<subseteq> set l"
proof -
  have l: "l \<noteq> []" and ls: "ls = nub (split_on (CHR '','') (butlast l))"
    using assms by (auto simp: parseLabels_def split: if_splits)
  have "set ls \<noteq> {}" unfolding ls set_nub by simp
  then show "ls \<noteq> []" by auto
  show "distinct ls" unfolding ls by simp
  show "\<forall>w \<in> set ls. CHR '','' \<notin> set w \<and> set w \<subseteq> set l"
    unfolding ls set_nub using split_on_no_sep split_on_subset in_set_butlastD by fast
qed

lemma cut_version_part:
  assumes "cut_at c s = (nm, v)"
  shows "cut_at c (nm @ (if truthy v then c # the v else [])) = (nm, if truthy v then v else None)"
  using assms
proof (cases rule: cut_at_cases)
  case None
  then show ?thesis by (auto simp: truthy_def)
next
  case (Some b)
  then show ?thesis by (auto simp: truthy_def)
qed

lemma parse_stable:
  assumes "parseProductSpec spec = Inr p"
  shows "parseProductSpec (getSpec True p) = Inr (canonical p)"
proof -
  obtain s1 sh where c1: "cut_at (CHR ''@'') spec = (s1, sh)" by fastforce
  obtain s2 L where c2: "cut_at (CHR ''['') s1 = (s2, L)" by fastforce
  obtain nm v where c3: "cut_at (CHR ''-'') s2 = (nm, v)" by fastforce
  obtain ls where ls: "(case L of None \<Rightarrow> Inr [] | Some l \<Rightarrow> parseLabels l) = Inr ls"
    and p: "p = \<lparr>browser_name = nm, browser_version = v, labels = Some ls,
                 revision = Some (case sh of None \<Rightarrow> [] | Some r \<Rightarrow> r)\<rparr>"
    using assms by (auto simp: parseProductSpec_def parseProduct_def c1 c2 c3 split: sum.splits)
  let ?v = "version_part v" and ?l = "labels_part ls" and ?r = "revision_part (revision p)"
  have ls_ok: "distinct ls" "\<forall>w \<in> set ls. CHR '','' \<notin> set w"
    using ls parseLabels_Inr by (force split: option.splits)+
  have v: "?v = (if truthy v then CHR ''-'' # the v else [])" by (simp add: version_part_def)
  have s2: "s2 = nm @ ?v \<or> s2 = nm @ ''-'' \<and> ?v = []"
    using c3 by (cases rule: cut_at_cases) (auto simp: version_part_def truthy_def)
  have s2_nm: "nm = [] \<Longrightarrow> s2 = []"
    using c3 by (cases rule: cut_at_cases) auto
  have s1: "s1 = s2 \<and> L = None \<and> ls = [] \<and> (CHR ''['' \<notin> set s2 \<or> (\<exists>t. s2 = CHR ''['' # t))
            \<or> (\<exists>b. s1 = s2 @ CHR ''['' # b \<and> s2 \<noteq> [] \<and> CHR ''['' \<notin> set s2 \<and> ls \<noteq> []
                   \<and> (\<forall>w \<in> set ls. set w \<subseteq> set b))"
    using c2 ls by (cases rule: cut_at_cases) (auto dest: parseLabels_Inr)
  have first: "(\<exists>t. s2 = c # t) \<Longrightarrow> \<exists>t. nm @ w = c # t" for c w
    using s2 s2_nm by (cases nm) auto
  have "set (nm @ ?v) \<subseteq> set s2" using s2 by (elim disjE) (simp_all add: subset_insertI)
  moreover have "set s2 \<subseteq> set s1" using s1 by (elim disjE) auto
  ultimately have sub: "set (nm @ ?v) \<subseteq> set s1" by blast
  have "\<forall>w \<in> set ls. set w \<subseteq> set s1" using s1 by fastforce
  then have at_l: "CHR ''@'' \<notin> set s1 \<Longrightarrow> CHR ''@'' \<notin> set (nm @ ?v @ ?l)"
    using sub labels_part_absent [of "CHR ''@''" ls] by auto
  show ?thesis
  proof (rule parse_parts; simp only: p product.select_convs option.case)
    show "cut_at (CHR ''-'') (nm @ ?v) = (nm, if truthy v then v else None)"
      unfolding v by (rule cut_version_part [OF c3])
    show "cut_at (CHR ''['') (nm @ ?v @ ?l)
            = (nm @ ?v, if ls = [] then None else Some (join '','' ls @ '']''))"
      using s1
    proof
      assume "s1 = s2 \<and> L = None \<and> ls = [] \<and> (CHR ''['' \<notin> set s2 \<or> (\<exists>t. s2 = CHR ''['' # t))"
      then show ?thesis using s2 first [of "CHR ''[''" ?v]
        by (auto simp: labels_part_def intro!: cut_at_uncut)
    next
      assume "\<exists>b. s1 = s2 @ CHR ''['' # b \<and> s2 \<noteq> [] \<and> CHR ''['' \<notin> set s2 \<and> ls \<noteq> []
                   \<and> (\<forall>w \<in> set ls. set w \<subseteq> set b)"
      then have "nm \<noteq> []" "CHR ''['' \<notin> set (nm @ ?v)" "ls \<noteq> []" using s2 s2_nm by auto
      then show ?thesis using cut_at_append [of "CHR ''[''" "nm @ ?v" "join '','' ls @ '']''"]
        by (simp add: labels_part_def)
    qed
    show "cut_at (CHR ''@'') (nm @ ?v @ ?l @ revision_part (Some (case sh of None \<Rightarrow> [] | Some r \<Rightarrow> r)))
            = (nm @ ?v @ ?l, if revision_part (Some (case sh of None \<Rightarrow> [] | Some r \<Rightarrow> r)) = [] then None
                 else Some (the (Some (case sh of None \<Rightarrow> [] | Some r \<Rightarrow> r))))"
      using c1
    proof (cases rule: cut_at_cases)
      case None
      then have "CHR ''@'' \<notin> set (nm @ ?v @ ?l) \<or> (\<exists>t. nm @ ?v @ ?l = CHR ''@'' # t)"
        using at_l first [of "CHR ''@''" "?v @ ?l"] s1 by (cases s2) auto
      with None show ?thesis
        using cut_at_uncut [of "CHR ''@''" "nm @ ?v @ ?l"] by (simp add: revision_part_def truthy_def)
    next
      case (Some b)
      then have "nm \<noteq> []" using s1 s2_nm by auto
      with Some at_l cut_at_append [of "CHR ''@''" "nm @ ?v @ ?l"] show ?thesis
        by (auto simp: revision_part_def)
    qed
  qed (use ls_ok in auto)
qed

section \<open>The contract of product specs\<close>

text \<open>
  What the components that pass products around as specs rely on: on the products it can
  denote, printing then parsing gives the canonical product, which prints to the same spec.
\<close>

locale spec_syntax =
  fixes print :: "'p \<Rightarrow> string" and parse :: "string \<Rightarrow> string + 'p"
    and denotable :: "'p \<Rightarrow> bool" and canon :: "'p \<Rightarrow> 'p"
  assumes parse_print: "denotable p \<Longrightarrow> parse (print p) = Inr (canon p)"
    and print_canon: "print (canon p) = print p"
begin

lemma parse_all:
  "\<forall>p \<in> set ps. denotable p \<Longrightarrow> map_throw parse (map print ps) = Inr (map canon ps)"
  by (induction ps) (auto simp: parse_print)

lemma print_canon_all: "map print (map canon ps) = map print ps"
  by (simp add: print_canon)

lemma specs_stable:
  "\<forall>p \<in> set ps. denotable p \<Longrightarrow>
     \<exists>qs. map_throw parse (map print ps) = Inr qs \<and> map print qs = map print ps"
  using parse_all print_canon_all by blast

end

lemma getSpec_canonical: "getSpec True (canonical p) = getSpec True p"
  by (auto simp: getSpec_parts canonical_def version_part_def revision_part_def truthy_def
      split: option.splits)

interpretation specs: spec_syntax "getSpec True" parseProductSpec specifiable canonical
  by unfold_locales (simp_all add: parse_specifiable getSpec_canonical)

section \<open>Short versions\<close>

lemma versionPattern_group: "\<exists>r. pattern_of (versionPattern b) = RGroup 1 r"
  by (simp add: versionPattern_def versionPatterns_Major_def versionPatterns_Node_def
      versionPatterns_MajorAndMinor_def)

lemma shortVersion_match:
  "shortVersion b (Some v) =
     Some (case exec (versionPattern b) v of None \<Rightarrow> v | Some m \<Rightarrow> m_text m)"
  using versionPattern_group [of b]
  by (auto simp: shortVersion_def exec_group split: option.split)

lemma exec_major:
  "exec versionPatterns_Major v =
     (case dropWhile (\<lambda>c. \<not> is_digit c) v of
        [] \<Rightarrow> None
      | d # ds \<Rightarrow>
          (let run = takeWhile is_digit (d # ds)
           in Some \<lparr>m_before = rev [] @ takeWhile (\<lambda>c. \<not> is_digit c) v, m_text = run,
                m_after = dropWhile is_digit (d # ds), m_groups = [(1, run)]\<rparr>))"
  unfolding exec_def versionPatterns_Major_def rdigit_def regex.select_convs by (rule search_run)

section \<open>Properties\<close>

text \<open>
  C1: Any spec that the parser accepts denotes a product that prints to a spec which parses
  again to that product, up to what specs do not keep: an empty version is dropped and the
  revision \<open>latest\<close> becomes empty.
\<close>

theorem product_spec_stable:
  assumes "parseProductSpec spec = Inr p"
  shows "parseProductSpec (getSpec True p) = Inr (canonical p)"
  using assms by (rule parse_stable)

lemma product_spec_stable_witness:
  "parseProductSpec (getSpec True
      \<lparr>browser_name = ''chrome'', browser_version = Some ''63.0'',
       labels = Some [''dev'', ''beta''], revision = Some ''latest''\<rparr>)
   = Inr \<lparr>browser_name = ''chrome'', browser_version = Some ''63.0'',
          labels = Some [''dev'', ''beta''], revision = Some []\<rparr>"
proof -
  have "parseProductSpec ''chrome-63.0[dev,beta,dev]@latest'' =
      Inr \<lparr>browser_name = ''chrome'', browser_version = Some ''63.0'',
           labels = Some [''dev'', ''beta''], revision = Some ''latest''\<rparr>"
    by (simp add: parseProductSpec_def parseProduct_def parseLabels_def cut_at_def nub_def)
  from product_spec_stable [OF this] show ?thesis
    by (simp add: canonical_def truthy_def)
qed

text \<open>
  Printing then parsing gives the canonical form of any product whose name, version and
  labels do not contain the separators of the syntax (versions may contain dashes, labels
  brackets and dashes, revisions anything).
\<close>

lemma product_spec_roundtrip:
  assumes "specifiable p"
  shows "parseProductSpec (getSpec True p) = Inr (canonical p)"
  using assms by (rule parse_specifiable)

lemma product_spec_roundtrip_witness:
  "parseProductSpec (getSpec True
      \<lparr>browser_name = ''safari'', browser_version = Some ''11-beta'',
       labels = Some [''a[b]'', ''master''], revision = Some ''f@0''\<rparr>)
   = Inr \<lparr>browser_name = ''safari'', browser_version = Some ''11-beta'',
          labels = Some [''a[b]'', ''master''], revision = Some ''f@0''\<rparr>"
proof -
  have "specifiable \<lparr>browser_name = ''safari'', browser_version = Some ''11-beta'',
       labels = Some [''a[b]'', ''master''], revision = Some ''f@0''\<rparr>"
    by (simp add: specifiable_def)
  from product_spec_roundtrip [OF this] show ?thesis
    by (simp add: canonical_def truthy_def)
qed

text \<open>
  C2: The parser throws exactly when, before the revision, a bracket opens labels (not at the
  start of the spec) and the spec does not end with a closing bracket; the error is always the
  same.
\<close>

theorem product_spec_error:
  "parseProductSpec spec = Inl e \<longleftrightarrow>
     e = ''Expected closing bracket'' \<and>
     (\<exists>nm rest. fst (cut_at (CHR ''@'') spec) = nm @ CHR ''['' # rest \<and> nm \<noteq> [] \<and>
        CHR ''['' \<notin> set nm \<and> \<not> ends_with rest '']'')"
proof -
  obtain s1 sh where c1: "cut_at (CHR ''@'') spec = (s1, sh)" by fastforce
  obtain s2 L where c2: "cut_at (CHR ''['') s1 = (s2, L)" by fastforce
  have unique: "nm = s2 \<and> Some rest = L" if "s1 = nm @ CHR ''['' # rest" "nm \<noteq> []" "CHR ''['' \<notin> set nm"
    for nm rest
    using that c2 by simp
  show ?thesis
    using c2
  proof (cases rule: cut_at_cases)
    case None
    with c1 c2 unique show ?thesis by (auto simp: parseProductSpec_def)
  next
    case (Some b)
    then have "parseProductSpec spec = Inl e \<longleftrightarrow> parseLabels b = Inl e"
      by (simp add: parseProductSpec_def c1 split: sum.split)
    also have "\<dots> \<longleftrightarrow> e = ''Expected closing bracket'' \<and> \<not> ends_with b '']''"
      by (cases b rule: rev_cases) (auto simp: parseLabels_def ends_with_def)
    also have "\<dots> \<longleftrightarrow> e = ''Expected closing bracket'' \<and>
        (\<exists>nm rest. s1 = nm @ CHR ''['' # rest \<and> nm \<noteq> [] \<and> CHR ''['' \<notin> set nm \<and>
           \<not> ends_with rest '']'')"
      using Some unique by blast
    finally show ?thesis by (simp add: c1)
  qed
qed

text \<open>
  The short version of a browser without significant minor versions is the first run of
  digits of its version; a version without digits is kept whole.
\<close>

lemma shortVersion_major:
  assumes "b \<noteq> ''node.js''" and "\<not> minorIsSignificant b"
  shows "shortVersion b (Some v) =
    Some (if list_ex is_digit v then takeWhile is_digit (dropWhile (\<lambda>c. \<not> is_digit c) v) else v)"
proof -
  have rx: "versionPattern b = versionPatterns_Major"
    using assms by (simp add: versionPattern_def)
  show ?thesis
  proof (cases "dropWhile (\<lambda>c. \<not> is_digit c) v")
    case Nil
    then have "exec versionPatterns_Major v = None"
      unfolding exec_major by (simp del: dropWhile_eq_Nil_conv)
    with Nil show ?thesis by (auto simp: shortVersion_match rx list_ex_iff)
  next
    case (Cons d ds)
    then have "exec versionPatterns_Major v \<noteq> None"
      and "\<forall>m. exec versionPatterns_Major v = Some m \<longrightarrow> m_text m = takeWhile is_digit (d # ds)"
      unfolding exec_major by (simp_all add: Let_def)
    moreover have "list_ex is_digit v"
      using Cons by (metis dropWhile_eq_Nil_conv list.distinct(1) list_ex_iff)
    ultimately show ?thesis using Cons by (auto simp: shortVersion_match rx)
  qed
qed

lemma shortVersion_major_witness: "shortVersion ''chrome'' (Some ''v63.0.3239'') = Some ''63''"
  by (subst shortVersion_major) (simp_all add: minorIsSignificant_def is_digit_def)

end
