(* ===== verification/SearchGrammar.thy ===== *)
theory SearchGrammar
  imports OhmPeg ProductInfo
begin

text \<open>
  The grammar \<^verbatim>\<open>QUERY_GRAMMAR\<close> of \<^verbatim>\<open>webapp/components/test-search.js\<close>: \<open>body\<close> has one equation
  per rule. An alternative with a case name \<^verbatim>\<open>-- c\<close> of a rule \<open>r\<close> is the rule \<open>r_c\<close>, as in Ohm,
  and the built-in lists are instantiated with their arguments, so \<open>r_NonemptyListOf_Q\<close> is
  \<^verbatim>\<open>NonemptyListOf<Q, and>\<close>. The grammar is an instance of the locale \<open>peg\<close>: matching always
  ends, with an answer that satisfies the equations of the grammar.
\<close>

section \<open>The grammar\<close>

definition statuses :: "string list" where
  "statuses =
     [''pass'', ''ok'', ''error'', ''timeout'', ''notrun'', ''fail'', ''crash'', ''skip'',
      ''assert'', ''unknown'', ''missing'', ''precondition_failed'']"

definition atoms :: "string list obj" where
  "atoms = (''status'', statuses) # map (\<lambda>b. (b, statuses)) AllBrowserNames"

datatype rule =
    r_Root | r_OrQ | r_AndQ | r_Q | r_Q_parenRoot | r_Q_not
  | r_All | r_None | r_Sequential | r_Count
  | r_CountSpecifier | r_CountSpecifier_countInequality | r_CountSpecifier_countN
  | r_CountSpecifier_count3 | r_CountSpecifier_count2 | r_CountSpecifier_count1
  | r_Exists | r_Exists_explicit | r_Exists_implicit
  | r_Exp | r_OrPart | r_AndPart | r_AndPart_fragment
  | r_NestedExp | r_NestedExp_paren | r_NestedExp_not
  | r_or | r_and | r_not | r_inequality
  | r_Fragment | r_Fragment_not
  | r_statusExp | r_statusExp_eq | r_statusExp_neq | r_statusExp_product_eq
  | r_statusExp_product_neq
  | r_subtestExp | r_pathExp | r_linkExp | r_triagedExp | r_labelExp | r_webFeatureExp | r_isExp
  | r_patternExp | r_productSpec | r_browserName | r_browserVersion | r_statusLiteral
  | r_metadataQualityLiteral | r_reserved
  | r_nameFragment | r_nameFragment_basic | r_nameFragment_quoted
  | r_basicNameFragment | r_complexNameFragment | r_basicNameFragmentChar | r_nameFragmentChar
  | r_number | r_quotemark
  | r_ListOf_OrQ | r_ListOf_Exp | r_EmptyListOf
  | r_NonemptyListOf_OrQ | r_NonemptyListOf_AndQ | r_NonemptyListOf_Q
  | r_NonemptyListOf_Exp | r_NonemptyListOf_OrPart | r_NonemptyListOf_AndPart

fun alts :: "rule pexp list \<Rightarrow> rule pexp" where
  "alts [] = CharClass (\<lambda>c. False)"
| "alts [e] = e"
| "alts (e # f # es) = Alt e (alts (f # es))"

fun seqs :: "rule pexp list \<Rightarrow> rule pexp" where
  "seqs [] = Empty"
| "seqs [e] = e"
| "seqs (e # f # es) = Seq e (seqs (f # es))"

definition char_range :: "nat \<Rightarrow> nat \<Rightarrow> rule pexp" where
  "char_range a b = CharClass (\<lambda>c. a \<le> of_char c \<and> of_char c \<le> b)"

definition ohm_letter :: "char \<Rightarrow> bool" where
  "ohm_letter c =
     (is_letter c \<or>
      (let n = of_char c :: nat in n = 170 \<or> n = 181 \<or> n = 186 \<or> (192 \<le> n \<and> n \<noteq> 215 \<and> n \<noteq> 247)))"

definition reserved_words :: "string list" where
  "reserved_words =
     [''not'', ''and'', ''or'', ''all'', ''none'', ''exists'', ''seq'', ''count'', ''one'',
      ''two'', ''three'', ''status'', ''subtest'', ''path'', ''link'', ''triaged'', ''label'',
      ''feature'', ''is'']"

abbreviation spaces_sep :: "rule pexp" where
  "spaces_sep \<equiv> Star (CharClass ohm_space)"

primrec body :: "rule \<Rightarrow> rule pexp" where
  "body r_Root = App r_ListOf_OrQ"
| "body r_OrQ = App r_NonemptyListOf_AndQ"
| "body r_AndQ = App r_NonemptyListOf_Q"
| "body r_Q = alts [App r_All, App r_None, App r_Count, App r_Sequential, App r_Exists,
                    App r_Q_parenRoot, App r_Q_not]"
| "body r_Q_parenRoot = seqs [Terminal ''('', App r_Root, Terminal '')'']"
| "body r_Q_not = seqs [App r_not, App r_Q]"
| "body r_All = seqs [Terminal ''all('', App r_ListOf_Exp, Terminal '')'']"
| "body r_None = seqs [Terminal ''none('', App r_ListOf_Exp, Terminal '')'']"
| "body r_Sequential = seqs [Terminal ''seq('', App r_ListOf_Exp, Terminal '')'']"
| "body r_Count = seqs [App r_CountSpecifier, Terminal ''('', App r_Exp, Terminal '')'']"
| "body r_CountSpecifier =
     alts [App r_CountSpecifier_countInequality, App r_CountSpecifier_countN,
           App r_CountSpecifier_count3, App r_CountSpecifier_count2, App r_CountSpecifier_count1]"
| "body r_CountSpecifier_countInequality =
     seqs [Terminal ''count'', Opt (Terminal '':''), App r_inequality, App r_number]"
| "body r_CountSpecifier_countN = seqs [Terminal ''count:'', App r_number]"
| "body r_CountSpecifier_count3 = Terminal ''three''"
| "body r_CountSpecifier_count2 = Terminal ''two''"
| "body r_CountSpecifier_count1 = Terminal ''one''"
| "body r_Exists = alts [App r_Exists_explicit, App r_Exists_implicit]"
| "body r_Exists_explicit = seqs [Terminal ''exists('', App r_ListOf_Exp, Terminal '')'']"
| "body r_Exists_implicit = App r_AndPart"
| "body r_Exp = App r_NonemptyListOf_OrPart"
| "body r_OrPart = App r_NonemptyListOf_AndPart"
| "body r_AndPart = alts [App r_NestedExp, App r_AndPart_fragment]"
| "body r_AndPart_fragment = App r_Fragment"
| "body r_NestedExp = alts [App r_NestedExp_paren, App r_NestedExp_not]"
| "body r_NestedExp_paren = seqs [Terminal ''('', App r_Exp, Terminal '')'']"
| "body r_NestedExp_not = seqs [App r_not, App r_NestedExp]"
| "body r_or = alts [Terminal ''|'', CaseInsensitive ''or'']"
| "body r_and = alts [Terminal ''&'', CaseInsensitive ''and'']"
| "body r_not = alts [Terminal ''!'', Terminal ''not'']"
| "body r_inequality =
     alts [Terminal ''>='', Terminal ''<='', Terminal ''>'', Terminal ''<'', Terminal ''='']"
| "body r_Fragment =
     alts [App r_Fragment_not, App r_linkExp, App r_isExp, App r_triagedExp, App r_labelExp,
           App r_webFeatureExp, App r_statusExp, App r_subtestExp, App r_pathExp,
           App r_patternExp]"
| "body r_Fragment_not = seqs [App r_not, App r_Fragment]"
| "body r_statusExp =
     alts [App r_statusExp_eq, App r_statusExp_neq, App r_statusExp_product_eq,
           App r_statusExp_product_neq]"
| "body r_statusExp_eq =
     seqs [CaseInsensitive ''status'', Terminal '':'', App r_statusLiteral]"
| "body r_statusExp_neq =
     seqs [CaseInsensitive ''status'', Terminal '':!'', App r_statusLiteral]"
| "body r_statusExp_product_eq =
     seqs [App r_productSpec, Terminal '':'', App r_statusLiteral]"
| "body r_statusExp_product_neq =
     seqs [App r_productSpec, Terminal '':!'', App r_statusLiteral]"
| "body r_subtestExp = seqs [CaseInsensitive ''subtest'', Terminal '':'', App r_nameFragment]"
| "body r_pathExp = seqs [CaseInsensitive ''path'', Terminal '':'', App r_nameFragment]"
| "body r_linkExp = seqs [CaseInsensitive ''link'', Terminal '':'', App r_nameFragment]"
| "body r_triagedExp =
     alts [seqs [CaseInsensitive ''triaged'', Terminal '':'', App r_browserName],
           seqs [CaseInsensitive ''triaged'', Terminal '':'', Terminal ''test-issue'']]"
| "body r_labelExp = seqs [CaseInsensitive ''label'', Terminal '':'', App r_nameFragment]"
| "body r_webFeatureExp = seqs [CaseInsensitive ''feature'', Terminal '':'', App r_nameFragment]"
| "body r_isExp = seqs [CaseInsensitive ''is'', Terminal '':'', App r_metadataQualityLiteral]"
| "body r_patternExp = seqs [Neg (App r_reserved), App r_nameFragment]"
| "body r_productSpec =
     seqs [App r_browserName, Opt (seqs [Terminal ''-'', App r_browserVersion])]"
| "body r_browserName = alts (map CaseInsensitive AllBrowserNames)"
| "body r_browserVersion = seqs [App r_number, Star (seqs [Terminal ''.'', App r_number])]"
| "body r_statusLiteral = alts (map CaseInsensitive statuses)"
| "body r_metadataQualityLiteral =
     alts [CaseInsensitive ''different'', CaseInsensitive ''tentative'',
           CaseInsensitive ''optional'']"
| "body r_reserved = alts (App r_browserName # map CaseInsensitive reserved_words)"
| "body r_nameFragment = alts [App r_nameFragment_basic, App r_nameFragment_quoted]"
| "body r_nameFragment_basic = App r_basicNameFragment"
| "body r_nameFragment_quoted =
     seqs [App r_quotemark, App r_complexNameFragment, App r_quotemark]"
| "body r_basicNameFragment = Plus (App r_basicNameFragmentChar)"
| "body r_complexNameFragment =
     seqs [Plus (App r_nameFragmentChar),
           Star (seqs [Plus (CharClass ohm_space), Plus (App r_nameFragmentChar)])]"
| "body r_basicNameFragmentChar =
     alts [CharClass ohm_letter, CharClass is_digit, Terminal ''/'', Terminal ''.'',
           Terminal ''-'', Terminal ''_'', Terminal ''?'']"
| "body r_nameFragmentChar =
     alts [char_range 0 8, char_range 14 31, Terminal ''!'', char_range 35 65535]"
| "body r_number = Plus (CharClass is_digit)"
| "body r_quotemark = Terminal [CHR 0x22]"
| "body r_ListOf_OrQ = alts [App r_NonemptyListOf_OrQ, App r_EmptyListOf]"
| "body r_ListOf_Exp = alts [App r_NonemptyListOf_Exp, App r_EmptyListOf]"
| "body r_EmptyListOf = seqs []"
| "body r_NonemptyListOf_OrQ = seqs [App r_OrQ, Star (seqs [spaces_sep, App r_OrQ])]"
| "body r_NonemptyListOf_AndQ = seqs [App r_AndQ, Star (seqs [App r_or, App r_AndQ])]"
| "body r_NonemptyListOf_Q = seqs [App r_Q, Star (seqs [App r_and, App r_Q])]"
| "body r_NonemptyListOf_Exp = seqs [App r_Exp, Star (seqs [spaces_sep, App r_Exp])]"
| "body r_NonemptyListOf_OrPart = seqs [App r_OrPart, Star (seqs [App r_or, App r_OrPart])]"
| "body r_NonemptyListOf_AndPart = seqs [App r_AndPart, Star (seqs [App r_and, App r_AndPart])]"

text \<open>A rule is syntactic when its name starts with a capital letter.\<close>

definition lexical_rules :: "rule list" where
  "lexical_rules =
     [r_or, r_and, r_not, r_inequality, r_statusExp, r_statusExp_eq, r_statusExp_neq,
      r_statusExp_product_eq, r_statusExp_product_neq, r_subtestExp, r_pathExp, r_linkExp,
      r_triagedExp, r_labelExp, r_webFeatureExp, r_isExp, r_patternExp, r_productSpec,
      r_browserName, r_browserVersion, r_statusLiteral, r_metadataQualityLiteral, r_reserved,
      r_nameFragment, r_nameFragment_basic, r_nameFragment_quoted, r_basicNameFragment,
      r_complexNameFragment, r_basicNameFragmentChar, r_nameFragmentChar, r_number,
      r_quotemark]"

definition syntactic :: "rule \<Rightarrow> bool" where
  "syntactic r = (r \<notin> set lexical_rules)"

text \<open>Rules that may match nothing, and the order in which rules call one another on the left.\<close>

definition nullable_rule :: "rule \<Rightarrow> bool" where
  "nullable_rule r = (r \<in> {r_Root, r_ListOf_OrQ, r_ListOf_Exp, r_EmptyListOf})"

primrec rule_rank :: "rule \<Rightarrow> nat" where
  "rule_rank r_Root = 30"
| "rule_rank r_ListOf_OrQ = 29"
| "rule_rank r_NonemptyListOf_OrQ = 28"
| "rule_rank r_OrQ = 27"
| "rule_rank r_NonemptyListOf_AndQ = 26"
| "rule_rank r_AndQ = 25"
| "rule_rank r_NonemptyListOf_Q = 24"
| "rule_rank r_Q = 23"
| "rule_rank r_Q_parenRoot = 1"
| "rule_rank r_Q_not = 1"
| "rule_rank r_All = 0"
| "rule_rank r_None = 0"
| "rule_rank r_Sequential = 0"
| "rule_rank r_Count = 2"
| "rule_rank r_CountSpecifier = 1"
| "rule_rank r_CountSpecifier_countInequality = 0"
| "rule_rank r_CountSpecifier_countN = 0"
| "rule_rank r_CountSpecifier_count3 = 0"
| "rule_rank r_CountSpecifier_count2 = 0"
| "rule_rank r_CountSpecifier_count1 = 0"
| "rule_rank r_Exists = 13"
| "rule_rank r_Exists_explicit = 0"
| "rule_rank r_Exists_implicit = 12"
| "rule_rank r_AndPart = 11"
| "rule_rank r_AndPart_fragment = 10"
| "rule_rank r_NestedExp = 2"
| "rule_rank r_NestedExp_paren = 0"
| "rule_rank r_NestedExp_not = 1"
| "rule_rank r_or = 0"
| "rule_rank r_and = 0"
| "rule_rank r_not = 0"
| "rule_rank r_inequality = 0"
| "rule_rank r_Fragment = 9"
| "rule_rank r_Fragment_not = 1"
| "rule_rank r_statusExp = 4"
| "rule_rank r_statusExp_eq = 0"
| "rule_rank r_statusExp_neq = 0"
| "rule_rank r_statusExp_product_eq = 3"
| "rule_rank r_statusExp_product_neq = 3"
| "rule_rank r_subtestExp = 0"
| "rule_rank r_pathExp = 0"
| "rule_rank r_linkExp = 0"
| "rule_rank r_triagedExp = 0"
| "rule_rank r_labelExp = 0"
| "rule_rank r_webFeatureExp = 0"
| "rule_rank r_isExp = 0"
| "rule_rank r_patternExp = 8"
| "rule_rank r_productSpec = 2"
| "rule_rank r_browserName = 1"
| "rule_rank r_browserVersion = 1"
| "rule_rank r_statusLiteral = 0"
| "rule_rank r_metadataQualityLiteral = 0"
| "rule_rank r_reserved = 2"
| "rule_rank r_nameFragment = 7"
| "rule_rank r_nameFragment_basic = 6"
| "rule_rank r_nameFragment_quoted = 1"
| "rule_rank r_basicNameFragment = 5"
| "rule_rank r_complexNameFragment = 1"
| "rule_rank r_basicNameFragmentChar = 0"
| "rule_rank r_nameFragmentChar = 0"
| "rule_rank r_number = 0"
| "rule_rank r_quotemark = 0"
| "rule_rank r_EmptyListOf = 0"
| "rule_rank r_ListOf_Exp = 29"
| "rule_rank r_NonemptyListOf_Exp = 28"
| "rule_rank r_Exp = 15"
| "rule_rank r_NonemptyListOf_OrPart = 14"
| "rule_rank r_OrPart = 13"
| "rule_rank r_NonemptyListOf_AndPart = 12"

definition room :: nat where
  "room = 31"

definition query_answer :: "rule \<Rightarrow> string \<Rightarrow> rule answer" where
  "query_answer = answer body syntactic room"

lemmas grammar_simps = AllBrowserNames_def statuses_def reserved_words_def char_range_def

interpretation search: peg body syntactic nullable_rule rule_rank room
proof
  show "nul nullable_rule (body n) \<Longrightarrow> nullable_rule n" for n
    by (cases n) (simp_all add: grammar_simps nullable_rule_def)
  show "loops_ok nullable_rule (body n)" for n
    by (cases n) (simp_all add: grammar_simps nullable_rule_def)
  show "m \<in> set (left nullable_rule (body n)) \<Longrightarrow> rule_rank m < rule_rank n" for m n
    by (cases n) (auto simp: grammar_simps nullable_rule_def)
  show "rule_rank n < room" for n
    by (cases n) (simp_all add: room_def)
qed

end
