(* ===== verification/TestSearch.thy ===== *)
theory TestSearch
  imports SearchGrammar
begin

text \<open>
  \<^verbatim>\<open>webapp/components/test-search.js\<close>: the meaning of the search language and the search box.
  \<open>eval\<close> is \<^verbatim>\<open>QUERY_SEMANTICS\<close>: it turns the syntax tree of a query (theory SearchGrammar) into
  the structured query that the API takes; \<open>None\<close> is an exception in a semantic action. Then
  come the state and the handlers of the component.
\<close>

section \<open>Structured queries\<close>

text \<open>
  The JSON objects that the semantics builds, by the name of their characteristic property. A
  status or product status may be negated (\<^verbatim>\<open>{not: s}\<close>).
\<close>

datatype count_spec = Count int | MoreThan int | LessThan int

datatype query =
    QExists "query list"
  | QAll "query list"
  | QNone "query list"
  | QSequential "query list"
  | QCount count_spec query
  | QNot query
  | QAnd "query list"
  | QOr "query list"
  | QPattern string
  | QSubtest string
  | QPath string
  | QStatus bool string \<comment> \<open>negated?, status\<close>
  | QProductStatus string bool string \<comment> \<open>product, negated?, status\<close>
  | QLink string
  | QTriaged string
  | QLabel string
  | QFeature string
  | QIs string

datatype evalue =
    VStr string
  | VInt int
  | VCount count_spec
  | VQuery query
  | VList "evalue list"

definition emptyQuery :: query where
  "emptyQuery = QExists [QPattern []]"

text \<open>The values of a list, all queries.\<close>

definition as_query :: "evalue \<Rightarrow> query option" where
  "as_query v = (case v of VQuery q \<Rightarrow> Some q | _ \<Rightarrow> None)"

definition as_queries :: "evalue option \<Rightarrow> query list option" where
  "as_queries v =
     (case v of Some (VList vs) \<Rightarrow> those (map as_query vs) | _ \<Rightarrow> None)"

definition conjunction :: "query list \<Rightarrow> query" where
  "conjunction ps = (case ps of [p] \<Rightarrow> p | _ \<Rightarrow> QAnd ps)"

definition disjunction :: "query list \<Rightarrow> query" where
  "disjunction ps = (case ps of [p] \<Rightarrow> p | _ \<Rightarrow> QOr ps)"

fun isImplicitExists :: "query \<Rightarrow> bool" where
  "isImplicitExists (QExists ps) = (length ps = 1)"
| "isImplicitExists (QAnd ps) = list_all isImplicitExists ps"
| "isImplicitExists (QOr ps) = list_all isImplicitExists ps"
| "isImplicitExists _ = False"

fun unwrap :: "query \<Rightarrow> query" where
  "unwrap (QExists (p # ps)) = p"
| "unwrap (QOr ps) = QOr (map unwrap ps)"
| "unwrap (QAnd ps) = QAnd (map unwrap ps)"
| "unwrap p = p"

definition rootQuery :: "query list \<Rightarrow> query" where
  "rootQuery ps =
     (if ps = [] then emptyQuery
      else if list_all isImplicitExists ps then QExists (map unwrap ps)
      else (case ps of [p] \<Rightarrow> p | _ \<Rightarrow> QAnd ps))"

text \<open>\<open>ps.length === 0 ? emptyQuery : f ps\<close>, for an array and for a string.\<close>

definition nonempty_or :: "('a list \<Rightarrow> query) \<Rightarrow> 'a list \<Rightarrow> query" where
  "nonempty_or f ps = (if ps = [] then emptyQuery else f ps)"

section \<open>Semantic actions\<close>

fun source :: "rule cst \<Rightarrow> string" where
  "source (Tok s) = s"
| "source (Node n ks s) = s"
| "source (Iter ks) = concat (map source ks)"

text \<open>
  The action of a rule gets the values of the children (\<open>None\<close> where evaluating the child would
  throw) and their source strings. A rule without an action passes on the value of its only
  child.
\<close>

definition on_query :: "(query \<Rightarrow> query) \<Rightarrow> evalue option \<Rightarrow> evalue option" where
  "on_query f v = (case v of Some (VQuery q) \<Rightarrow> Some (VQuery (f q)) | _ \<Rightarrow> None)"

definition on_queries :: "(query list \<Rightarrow> query) \<Rightarrow> evalue option \<Rightarrow> evalue option" where
  "on_queries f v = map_option (\<lambda>qs. VQuery (f qs)) (as_queries v)"

definition on_string :: "(string \<Rightarrow> query) \<Rightarrow> evalue option \<Rightarrow> evalue option" where
  "on_string f v = (case v of Some (VStr s) \<Rightarrow> Some (VQuery (f s)) | _ \<Rightarrow> None)"

definition countInequality :: "evalue option \<Rightarrow> evalue option \<Rightarrow> evalue option" where
  "countInequality c n =
     (case (c, n) of
        (Some (VStr i), Some (VInt k)) \<Rightarrow>
          if i = ''>='' then Some (VCount (MoreThan (k - 1)))
          else if i = ''>'' then Some (VCount (MoreThan k))
          else if i = ''<='' then Some (VCount (LessThan (k + 1)))
          else if i = ''<'' then Some (VCount (LessThan k))
          else if i = '':'' \<or> i = ''='' then Some (VCount (Count k))
          else None
      | _ \<Rightarrow> None)"

definition countOf :: "evalue option \<Rightarrow> evalue option \<Rightarrow> evalue option" where
  "countOf cs w =
     (case (cs, w) of
        (Some (VCount c), Some (VQuery q)) \<Rightarrow> Some (VQuery (QCount c q))
      | _ \<Rightarrow> None)"

text \<open>\<open>browserName\<close>, \<open>statusLiteral\<close>, \<open>triagedExp\<close>.\<close>

definition statusValue :: "string \<Rightarrow> string" where
  "statusValue s = (if to_upper s = ''MISSING'' then ''UNKNOWN'' else to_upper s)"

definition triagedValue :: "string \<Rightarrow> string" where
  "triagedValue s = replace_first ''test-issue'' [] (to_lower s)"

definition nonempty_lists :: "rule list" where
  "nonempty_lists =
     [r_NonemptyListOf_OrQ, r_NonemptyListOf_AndQ, r_NonemptyListOf_Q, r_NonemptyListOf_Exp,
      r_NonemptyListOf_OrPart, r_NonemptyListOf_AndPart]"

definition concatenated :: "evalue option \<Rightarrow> evalue option \<Rightarrow> evalue option" where
  "concatenated fst_value rest_values =
     (case (fst_value, rest_values) of
        (Some v, Some (VList vs)) \<Rightarrow> Some (VList (v # vs))
      | _ \<Rightarrow> None)"

definition action :: "rule \<Rightarrow> evalue option list \<Rightarrow> string list \<Rightarrow> evalue option" where
  "action n vs srcs =
     (case vs of
        [] \<Rightarrow> (if n = r_EmptyListOf then Some (VList []) else None)
      | [a] \<Rightarrow>
          (case n of
             r_Root \<Rightarrow> on_queries rootQuery a
           | r_OrQ \<Rightarrow> on_queries disjunction a
           | r_AndQ \<Rightarrow> on_queries conjunction a
           | r_Exp \<Rightarrow> on_queries disjunction a
           | r_OrPart \<Rightarrow> on_queries conjunction a
           | r_Exists_implicit \<Rightarrow> on_query (\<lambda>q. QExists [q]) a
           | r_CountSpecifier_count3 \<Rightarrow> Some (VCount (Count 3))
           | r_CountSpecifier_count2 \<Rightarrow> Some (VCount (Count 2))
           | r_CountSpecifier_count1 \<Rightarrow> Some (VCount (Count 1))
           | r_browserName \<Rightarrow> Some (VStr (to_upper (hd srcs)))
           | r_statusLiteral \<Rightarrow> Some (VStr (statusValue (hd srcs)))
           | r_patternExp \<Rightarrow> on_string QPattern a
           | r_nameFragment_basic \<Rightarrow> Some (VStr (hd srcs))
           | r_quotemark \<Rightarrow> Some (VStr [CHR 0x22])
           | r_number \<Rightarrow> Some (VInt (int (digits_value (hd srcs))))
           | _ \<Rightarrow> a)
      | [a, b] \<Rightarrow>
          (case n of
             r_Q_not \<Rightarrow> on_query QNot b
           | r_NestedExp_not \<Rightarrow> on_query QNot b
           | r_Fragment_not \<Rightarrow> on_query QNot b
           | r_CountSpecifier_countN \<Rightarrow>
               (case b of Some (VInt k) \<Rightarrow> Some (VCount (Count k)) | _ \<Rightarrow> None)
           | _ \<Rightarrow> None)
      | [a, b, c] \<Rightarrow>
          (case n of
             r_Q_parenRoot \<Rightarrow> b
           | r_NestedExp_paren \<Rightarrow> b
           | r_Exists_explicit \<Rightarrow> on_queries QExists b
           | r_All \<Rightarrow> on_queries (nonempty_or QAll) b
           | r_None \<Rightarrow> on_queries (nonempty_or QNone) b
           | r_Sequential \<Rightarrow> on_queries (nonempty_or QSequential) b
           | r_linkExp \<Rightarrow> on_string (nonempty_or QLink) c
           | r_labelExp \<Rightarrow> on_string (nonempty_or QLabel) c
           | r_webFeatureExp \<Rightarrow> on_string (nonempty_or QFeature) c
           | r_triagedExp \<Rightarrow> on_string (nonempty_or (\<lambda>s. QTriaged (triagedValue s))) c
           | r_subtestExp \<Rightarrow> on_string QSubtest c
           | r_pathExp \<Rightarrow> on_string QPath c
           | r_isExp \<Rightarrow> on_string QIs c
           | r_statusExp_eq \<Rightarrow> on_string (QStatus False) c
           | r_statusExp_neq \<Rightarrow> on_string (QStatus True) c
           | r_statusExp_product_eq \<Rightarrow> on_string (QProductStatus (to_lower (hd srcs)) False) c
           | r_statusExp_product_neq \<Rightarrow> on_string (QProductStatus (to_lower (hd srcs)) True) c
           | r_nameFragment_quoted \<Rightarrow> Some (VStr (srcs ! 1))
           | _ \<Rightarrow> if n \<in> set nonempty_lists then concatenated a c else None)
      | [a, b, c, d] \<Rightarrow>
          (case n of
             r_Count \<Rightarrow> countOf a c
           | r_CountSpecifier_countInequality \<Rightarrow> countInequality c d
           | _ \<Rightarrow> None)
      | _ \<Rightarrow> None)"

fun eval :: "rule cst \<Rightarrow> evalue option" where
  "eval (Tok s) = Some (VStr s)"
| "eval (Iter ks) = map_option VList (those (map eval ks))"
| "eval (Node n ks src) = action n (map eval ks) (map source ks)"

text \<open>Parsing and interpreting a query: the error is the message of the exception.\<close>

definition parseAndInterpretQuery :: "string \<Rightarrow> string + query" where
  "parseAndInterpretQuery q =
     (case match_all body syntactic room r_Root q of
        None \<Rightarrow> Inl (''Failed to parse query: '' @ q)
      | Some k \<Rightarrow>
          (case eval k of
             Some (VQuery sq) \<Rightarrow> Inr sq
           | _ \<Rightarrow> Inl ''Unexpected value''))"

section \<open>Matched queries always have a meaning\<close>

text \<open>The sorts of the values of the rules; \<open>None\<close> for rules whose value is never used.\<close>

datatype sort = SQuery | SList | SCount | SInequality | SNumber | SString | SUnused

definition sort_of :: "rule \<Rightarrow> sort" where
  "sort_of n =
     (if n \<in> set nonempty_lists \<union> {r_ListOf_OrQ, r_ListOf_Exp, r_EmptyListOf} then SList
      else if n \<in> {r_CountSpecifier, r_CountSpecifier_countInequality, r_CountSpecifier_countN,
                    r_CountSpecifier_count3, r_CountSpecifier_count2, r_CountSpecifier_count1}
        then SCount
      else if n = r_inequality then SInequality
      else if n = r_number then SNumber
      else if n \<in> {r_browserName, r_statusLiteral, r_metadataQualityLiteral, r_nameFragment,
                    r_nameFragment_basic, r_nameFragment_quoted} then SString
      else if n \<in> {r_or, r_and, r_not, r_productSpec, r_browserVersion, r_reserved,
                    r_basicNameFragment, r_complexNameFragment, r_basicNameFragmentChar,
                    r_nameFragmentChar, r_quotemark} then SUnused
      else SQuery)"

definition has_sort :: "sort \<Rightarrow> evalue option \<Rightarrow> bool" where
  "has_sort t v =
     (case t of
        SQuery \<Rightarrow> \<exists>q. v = Some (VQuery q)
      | SList \<Rightarrow> \<exists>qs. v = Some (VList (map VQuery qs))
      | SCount \<Rightarrow> \<exists>c. v = Some (VCount c)
      | SInequality \<Rightarrow> v \<in> (\<lambda>i. Some (VStr i)) ` {''>='', ''<='', ''>'', ''<'', ''=''}
      | SNumber \<Rightarrow> \<exists>k. v = Some (VInt k)
      | SString \<Rightarrow> \<exists>s. v = Some (VStr s)
      | SUnused \<Rightarrow> True)"

definition well_sorted :: "rule \<Rightarrow> rule cst \<Rightarrow> bool" where
  "well_sorted n k = has_sort (sort_of n) (eval k)"

lemma those_queries: "those (map as_query (map VQuery qs)) = Some qs"
  by (induction qs) (auto simp: as_query_def)

lemma as_queries_list [simp]: "as_queries (Some (VList (map VQuery qs))) = Some qs"
  using those_queries by (simp add: as_queries_def del: map_map)

lemma on_simps [simp]:
  "on_queries f (Some (VList (map VQuery qs))) = Some (VQuery (f qs))"
  "on_query g (Some (VQuery q)) = Some (VQuery (g q))"
  "on_string h (Some (VStr s)) = Some (VQuery (h s))"
  by (simp_all add: on_queries_def on_query_def on_string_def)

lemma shape_words:
  "ws \<noteq> [] \<Longrightarrow> shape T (alts (map CaseInsensitive ws)) ks \<Longrightarrow> \<exists>u. ks = [Tok u]"
  by (induction ws rule: induct_list012) auto

text \<open>The value of a nonempty list: separators in the first column, elements in the second.\<close>

lemma those_rows:
  "(\<forall>row \<in> set rows. \<exists>q. eval (row ! 1) = Some (VQuery q)) \<Longrightarrow>
     \<exists>qs. those (map eval (map (\<lambda>row. row ! 1) rows)) = Some (map VQuery qs)"
proof (induction rows)
  case Nil
  show ?case by (auto intro: exI [of _ "[]"])
next
  case (Cons row rows)
  then obtain q qs where "eval (row ! 1) = Some (VQuery q)"
    "those (map eval (map (\<lambda>row. row ! 1) rows)) = Some (map VQuery qs)"
    by auto
  then show ?case by (auto intro: exI [of _ "q # qs"])
qed

lemma list_value:
  assumes n: "n \<in> set nonempty_lists"
    and shape: "shape T (Seq (App e) (Star (Seq sep (App e)))) ks"
    and elem: "\<And>k. T e k \<Longrightarrow> \<exists>q. eval k = Some (VQuery q)"
    and sep: "arity sep = 1" "\<And>row. shape T sep row \<Longrightarrow> length row = 1"
  shows "\<exists>qs. eval (Node n ks src) = Some (VList (map VQuery qs))"
proof -
  from shape obtain k rows where k: "T e k"
    and rows: "\<forall>row \<in> set rows. shape T (Seq sep (App e)) row"
    and ks: "ks = k # columns 2 rows"
    using sep(1) by (auto simp: numeral_2_eq_2)
  have "\<exists>q. eval (row ! 1) = Some (VQuery q)" if "row \<in> set rows" for row
  proof -
    from rows that have "shape T (Seq sep (App e)) row" by blast
    then obtain k1 l where "row = k1 @ [l]" "shape T sep k1" "T e l" by auto
    with sep(2) elem show ?thesis by (auto simp: nth_append)
  qed
  then obtain qs where qs: "those (map eval (map (\<lambda>row. row ! 1) rows)) = Some (map VQuery qs)"
    using those_rows by blast
  obtain q where q: "eval k = Some (VQuery q)" using elem [OF k] by blast
  have "columns 2 rows = [Iter (map (\<lambda>row. row ! 0) rows), Iter (map (\<lambda>row. row ! 1) rows)]"
    by (simp add: columns_def upt_rec)
  then have "eval (Node n ks src) =
      concatenated (eval k) (eval (Iter (map (\<lambda>row. row ! 1) rows)))"
    using n by (auto simp: ks action_def nonempty_lists_def simp del: eval.simps(2))
  also have "\<dots> = Some (VList (map VQuery (q # qs)))"
    using q qs by (simp add: concatenated_def)
  finally show ?thesis by blast
qed

lemmas sort_simps = well_sorted_def sort_of_def nonempty_lists_def has_sort_def action_def

lemma well_sortedD:
  "well_sorted n k \<Longrightarrow> sort_of n = SQuery \<Longrightarrow> \<exists>q. eval k = Some (VQuery q)"
  "well_sorted n k \<Longrightarrow> sort_of n = SList \<Longrightarrow> \<exists>qs. eval k = Some (VList (map VQuery qs))"
  by (simp_all add: well_sorted_def has_sort_def)

lemma list_sorted:
  assumes "n \<in> set nonempty_lists"
    and "shape well_sorted (Seq (App e) (Star (Seq sep (App e)))) ks"
    and "sort_of e = SQuery" and "sep = spaces_sep \<or> (\<exists>m. sep = App m)"
  shows "well_sorted n (Node n ks src)"
proof -
  have "\<exists>qs. eval (Node n ks src) = Some (VList (map VQuery qs))"
    using assms(4)
    by (intro list_value [OF assms(1,2)])
      (auto dest: well_sortedD(1) simp: assms(3) columns_def)
  moreover have "sort_of n = SList" using assms(1) by (simp add: sort_of_def)
  ultimately show ?thesis by (simp add: well_sorted_def has_sort_def)
qed

lemma columns_1: "columns (Suc 0) rows = [Iter (map (\<lambda>row. row ! 0) rows)]"
  by (simp add: columns_def)

lemma body_sorted: "shape well_sorted (body n) ks \<Longrightarrow> well_sorted n (Node n ks src)"
proof (cases n)
  case r_browserName
  assume "shape well_sorted (body n) ks"
  then obtain u where "ks = [Tok u]"
    using shape_words [of AllBrowserNames well_sorted ks] r_browserName
    by (auto simp: AllBrowserNames_def simp del: alts.simps)
  with r_browserName show ?thesis by (simp add: sort_simps)
next
  case r_statusLiteral
  assume "shape well_sorted (body n) ks"
  then obtain u where "ks = [Tok u]"
    using shape_words [of statuses well_sorted ks] r_statusLiteral
    by (auto simp: statuses_def simp del: alts.simps)
  with r_statusLiteral show ?thesis by (simp add: sort_simps)
next
  case r_NonemptyListOf_OrQ
  assume "shape well_sorted (body n) ks"
  with r_NonemptyListOf_OrQ show ?thesis
    by (intro list_sorted [of n r_OrQ spaces_sep])
      (simp_all add: nonempty_lists_def sort_of_def del: shape.simps)
next
  case r_NonemptyListOf_AndQ
  assume "shape well_sorted (body n) ks"
  with r_NonemptyListOf_AndQ show ?thesis
    by (intro list_sorted [of n r_AndQ "App r_or"])
      (simp_all add: nonempty_lists_def sort_of_def del: shape.simps)
next
  case r_NonemptyListOf_Q
  assume "shape well_sorted (body n) ks"
  with r_NonemptyListOf_Q show ?thesis
    by (intro list_sorted [of n r_Q "App r_and"])
      (simp_all add: nonempty_lists_def sort_of_def del: shape.simps)
next
  case r_NonemptyListOf_Exp
  assume "shape well_sorted (body n) ks"
  with r_NonemptyListOf_Exp show ?thesis
    by (intro list_sorted [of n r_Exp spaces_sep])
      (simp_all add: nonempty_lists_def sort_of_def del: shape.simps)
next
  case r_NonemptyListOf_OrPart
  assume "shape well_sorted (body n) ks"
  with r_NonemptyListOf_OrPart show ?thesis
    by (intro list_sorted [of n r_OrPart "App r_or"])
      (simp_all add: nonempty_lists_def sort_of_def del: shape.simps)
next
  case r_NonemptyListOf_AndPart
  assume "shape well_sorted (body n) ks"
  with r_NonemptyListOf_AndPart show ?thesis
    by (intro list_sorted [of n r_AndPart "App r_and"])
      (simp_all add: nonempty_lists_def sort_of_def del: shape.simps)
qed (auto simp: sort_simps countOf_def countInequality_def numeral_2_eq_2 columns_1)

text \<open>So the only error of \<open>parseAndInterpretQuery\<close> is a query that does not parse.\<close>

lemma match_all_sorted:
  assumes "match_all body syntactic room r_Root q = Some k"
  shows "\<exists>sq. eval k = Some (VQuery sq)"
proof -
  from assms obtain r where
    "answer body syntactic room r_Root (skip_if (syntactic r_Root) q) = Match [k] r"
    by (auto simp: match_all_def split: answer.splits list.splits if_splits)
  from search.answer_shape [of well_sorted, OF body_sorted this] have "well_sorted r_Root k" by simp
  then show ?thesis by (rule well_sortedD) (simp add: sort_of_def nonempty_lists_def)
qed

lemma parse_error_iff:
  "parseAndInterpretQuery q = Inl e \<longleftrightarrow>
     match_all body syntactic room r_Root q = None \<and> e = ''Failed to parse query: '' @ q"
proof (cases "match_all body syntactic room r_Root q")
  case None
  then show ?thesis by (auto simp: parseAndInterpretQuery_def)
next
  case (Some k)
  then obtain sq where "eval k = Some (VQuery sq)" using match_all_sorted by blast
  with Some show ?thesis by (simp add: parseAndInterpretQuery_def)
qed

section \<open>The search box\<close>

text \<open>
  The state of the element: the text being typed, the query (the text once it is debounced or
  committed), the structured query, whether the debounce timer runs, and the events the element
  has dispatched, the latest first. \<open>undefined\<close> and \<open>null\<close> are \<open>None\<close>.
\<close>

datatype search_event =
    Commit "string option" "query option"
  | Autocomplete string
  | Blur

record search_box =
  queryInput :: "string option"
  query :: "string option"
  structuredQuery :: "query option"
  debounce :: bool
  dispatched :: "search_event list"

text \<open>Observers run when a property changes, before the assignment returns.\<close>

definition queryInputChanged :: "string option \<Rightarrow> search_box \<Rightarrow> search_box" where
  "queryInputChanged oldQuery st = (if oldQuery = None then st else st\<lparr>debounce := True\<rparr>)"

definition set_queryInput :: "string option \<Rightarrow> search_box \<Rightarrow> search_box" where
  "set_queryInput v st =
     (if v = queryInput st then st else queryInputChanged (queryInput st) (st\<lparr>queryInput := v\<rparr>))"

definition queryUpdated :: "string option \<Rightarrow> search_box \<Rightarrow> search_box" where
  "queryUpdated q st =
     (let st = set_queryInput q st
      in if \<not> truthy q then st\<lparr>structuredQuery := None\<rparr>
         else (case parseAndInterpretQuery (the q) of
                 Inr sq \<Rightarrow> st\<lparr>structuredQuery := Some sq\<rparr>
               | Inl e \<Rightarrow> st))"

definition set_query :: "string option \<Rightarrow> search_box \<Rightarrow> search_box" where
  "set_query v st = (if v = query st then st else queryUpdated v (st\<lparr>query := v\<rparr>))"

definition latchQuery :: "search_box \<Rightarrow> search_box" where
  "latchQuery st = set_query (Some (or_else (queryInput st) [])) st"

definition ready_search :: "search_box \<Rightarrow> search_box" where
  "ready_search st = set_queryInput (query st) st"

text \<open>The timer of \<open>queryInputChanged\<close> fires.\<close>

definition debounce_fires :: "search_box \<Rightarrow> search_box" where
  "debounce_fires st = (if debounce st then latchQuery (st\<lparr>debounce := False\<rparr>) else st)"

definition commitQuery :: "search_box \<Rightarrow> search_box" where
  "commitQuery st =
     (let st = set_query (queryInput st) st
      in st\<lparr>dispatched := Blur # Commit (query st) (structuredQuery st) # dispatched st\<rparr>)"

text \<open>\<open>handleKeyDown\<close> answers whether it prevents the default action.\<close>

definition handleKeyDown :: "nat \<Rightarrow> bool" where
  "handleKeyDown keyCode = (keyCode = 9)"

definition handleKeyUp :: "nat \<Rightarrow> search_box \<Rightarrow> search_box" where
  "handleKeyUp keyCode st = (if keyCode = 13 then commitQuery st else st)"

definition clear_search :: "search_box \<Rightarrow> search_box" where
  "clear_search st = set_queryInput (Some []) (set_query (Some []) st)"

text \<open>
  An option of the data list: its value, and for an atom the attribute \<^verbatim>\<open>atom\<close>.
  \<open>slice0 n xs\<close> is \<^verbatim>\<open>xs.slice(0, n)\<close>, which counts from the end when \<open>n\<close> is negative.
\<close>

type_synonym search_option = "string \<times> string option"

definition slice0 :: "int \<Rightarrow> 'a list \<Rightarrow> 'a list" where
  "slice0 n xs = (if n \<ge> 0 then take (nat n) xs else take (length xs - nat (- n)) xs)"

definition atomOptions :: "string option \<Rightarrow> search_option list" where
  "atomOptions q =
     concat (map (\<lambda>(atomPrefix, values).
       if \<not> truthy q \<or> starts_with atomPrefix (the q) then [(atomPrefix @ '':'', Some atomPrefix)]
       else map (\<lambda>v. (v, Some v))
              (filter (\<lambda>v. starts_with v (the q)) (map (\<lambda>v. atomPrefix @ '':'' @ v) values))) atoms)"

definition pathMatches :: "string option \<Rightarrow> string list \<Rightarrow> string list" where
  "pathMatches q paths =
     (if truthy q then
        sort_key (\<lambda>p. case index_of p (the q) of None \<Rightarrow> - 1 | Some i \<Rightarrow> int i)
          (filter (\<lambda>p. str_includes (to_lower p) (the q)) paths)
      else paths)"

definition updateDatalist :: "string option \<Rightarrow> string list option \<Rightarrow> search_option list" where
  "updateDatalist q paths =
     (let children = atomOptions q
      in children @
         (case paths of
            None \<Rightarrow> []
          | Some ps \<Rightarrow> map (\<lambda>p. (p, None)) (slice0 (10 - int (length children)) (pathMatches q ps))))"

definition handleChange :: "search_option list \<Rightarrow> string \<Rightarrow> search_box \<Rightarrow> search_box" where
  "handleChange opts path st =
     (if opts = [] then st
      else (case find (\<lambda>(v, a). str_includes (to_lower v) (to_lower path)) opts of
              None \<Rightarrow> st
            | Some (v, a) \<Rightarrow>
                if truthy a then st
                else if to_lower v = to_lower path
                  then st\<lparr>dispatched := Blur # Autocomplete v # dispatched st\<rparr>
                else st))"

text \<open>
  An invariant of the box: the structured query belongs to some earlier query, and when the
  current query parses it is its meaning.
\<close>

definition coherent :: "search_box \<Rightarrow> bool" where
  "coherent st =
     (case query st of
        None \<Rightarrow> structuredQuery st = None
      | Some q \<Rightarrow>
          if q = [] then structuredQuery st = None
          else (case parseAndInterpretQuery q of
                  Inr sq \<Rightarrow> structuredQuery st = Some sq
                | Inl e \<Rightarrow> True))"

lemma set_queryInput_keeps [simp]:
  "query (set_queryInput v st) = query st"
  "structuredQuery (set_queryInput v st) = structuredQuery st"
  "dispatched (set_queryInput v st) = dispatched st"
  "queryInput (set_queryInput v st) = v"
  by (simp_all add: set_queryInput_def queryInputChanged_def)

lemma set_query_query [simp]: "query (set_query v st) = v"
  by (simp add: set_query_def queryUpdated_def Let_def split: sum.split)

lemma set_query_coherent: "coherent st \<Longrightarrow> coherent (set_query v st)"
  by (auto simp: set_query_def queryUpdated_def coherent_def truthy_def Let_def
      split: sum.splits option.splits if_splits)

lemma coherent_set_queryInput [simp]: "coherent (set_queryInput v st) = coherent st"
  by (simp add: coherent_def split: option.split sum.split)

lemma coherent_updates [simp]:
  "coherent (st\<lparr>debounce := b\<rparr>) = coherent st" "coherent (st\<lparr>dispatched := d\<rparr>) = coherent st"
  by (simp_all add: coherent_def split: option.split sum.split)

text \<open>The steps that the user and the timer can make.\<close>

inductive search_step :: "search_box \<Rightarrow> search_box \<Rightarrow> bool" where
  types: "search_step st (set_queryInput (Some text_typed) st)"
| fires: "search_step st (debounce_fires st)"
| key_up: "search_step st (handleKeyUp k st)"
| changes: "search_step st (handleChange opts path st)"
| clears: "search_step st (clear_search st)"
| navigates: "search_step st (set_query q st)"
| becomes_ready: "search_step st (ready_search st)"

inductive search_reachable :: "search_box \<Rightarrow> bool" where
  initial: "search_reachable
     \<lparr>queryInput = None, query = None, structuredQuery = None, debounce = False, dispatched = []\<rparr>"
| step: "search_reachable st \<Longrightarrow> search_step st st' \<Longrightarrow> search_reachable st'"

lemma search_step_coherent: "search_step st st' \<Longrightarrow> coherent st \<Longrightarrow> coherent st'"
  by (induction rule: search_step.induct)
    (auto simp: debounce_fires_def latchQuery_def handleKeyUp_def commitQuery_def handleChange_def
      clear_search_def ready_search_def Let_def set_query_coherent split: option.splits)

lemma reachable_coherent: "search_reachable st \<Longrightarrow> coherent st"
  by (induction rule: search_reachable.induct) (auto simp: search_step_coherent, simp add: coherent_def)

end
