(* ===== verification/SearchLaws.thy ===== *)
theory SearchLaws
  imports TestSearch
begin

text \<open>
  What the search language makes of plain words: sequences of the characters that a pattern may
  have without quotes. The lemmas follow the rules of the grammar from the bottom up, over the
  recursive equations of the matcher (\<open>search.answer_unfold\<close>).
\<close>

abbreviation G :: "rule \<Rightarrow> string \<Rightarrow> rule answer" where
  "G \<equiv> answer body syntactic room"

abbreviation R :: "bool \<Rightarrow> rule pexp \<Rightarrow> string \<Rightarrow> rule answer" where
  "R \<equiv> run G syntactic"

text \<open>The characters of an unquoted name.\<close>

definition name_char :: "char \<Rightarrow> bool" where
  "name_char c = (ohm_letter c \<or> is_digit c \<or> c \<in> set ''/.-_?'')"

definition plain :: "string \<Rightarrow> bool" where
  "plain w = (w \<noteq> [] \<and> list_all name_char w)"

definition reserved_prefix :: "string \<Rightarrow> bool" where
  "reserved_prefix w = list_ex (starts_with_ci w) (AllBrowserNames @ reserved_words)"

text \<open>What may follow a word: nothing, or a space.\<close>

definition ends_word :: "string \<Rightarrow> bool" where
  "ends_word t = (t = [] \<or> hd t = CHR '' '')"

text \<open>The two kinds of rules, for the simplifier.\<close>

lemma lexical_rule [simp]:
    "\<not> syntactic r_or" "\<not> syntactic r_and" "\<not> syntactic r_not"
    "\<not> syntactic r_inequality" "\<not> syntactic r_statusExp"
    "\<not> syntactic r_statusExp_eq" "\<not> syntactic r_statusExp_neq"
    "\<not> syntactic r_statusExp_product_eq" "\<not> syntactic r_statusExp_product_neq"
    "\<not> syntactic r_subtestExp" "\<not> syntactic r_pathExp" "\<not> syntactic r_linkExp"
    "\<not> syntactic r_triagedExp" "\<not> syntactic r_labelExp"
    "\<not> syntactic r_webFeatureExp" "\<not> syntactic r_isExp" "\<not> syntactic r_patternExp"
    "\<not> syntactic r_productSpec" "\<not> syntactic r_browserName"
    "\<not> syntactic r_browserVersion" "\<not> syntactic r_statusLiteral"
    "\<not> syntactic r_metadataQualityLiteral" "\<not> syntactic r_reserved"
    "\<not> syntactic r_nameFragment" "\<not> syntactic r_nameFragment_basic"
    "\<not> syntactic r_nameFragment_quoted" "\<not> syntactic r_basicNameFragment"
    "\<not> syntactic r_complexNameFragment" "\<not> syntactic r_basicNameFragmentChar"
    "\<not> syntactic r_nameFragmentChar" "\<not> syntactic r_number"
    "\<not> syntactic r_quotemark"
  by (simp_all add: syntactic_def lexical_rules_def)

lemma syntactic_rule [simp]:
    "syntactic r_Root" "syntactic r_OrQ" "syntactic r_AndQ" "syntactic r_Q"
    "syntactic r_Q_parenRoot" "syntactic r_Q_not" "syntactic r_All" "syntactic r_None"
    "syntactic r_Sequential" "syntactic r_Count" "syntactic r_CountSpecifier"
    "syntactic r_CountSpecifier_countInequality" "syntactic r_CountSpecifier_countN"
    "syntactic r_CountSpecifier_count3" "syntactic r_CountSpecifier_count2"
    "syntactic r_CountSpecifier_count1" "syntactic r_Exists" "syntactic r_Exists_explicit"
    "syntactic r_Exists_implicit" "syntactic r_Exp" "syntactic r_OrPart" "syntactic r_AndPart"
    "syntactic r_AndPart_fragment" "syntactic r_NestedExp" "syntactic r_NestedExp_paren"
    "syntactic r_NestedExp_not" "syntactic r_Fragment" "syntactic r_Fragment_not"
    "syntactic r_ListOf_OrQ" "syntactic r_ListOf_Exp" "syntactic r_EmptyListOf"
    "syntactic r_NonemptyListOf_OrQ" "syntactic r_NonemptyListOf_AndQ"
    "syntactic r_NonemptyListOf_Q" "syntactic r_NonemptyListOf_Exp"
    "syntactic r_NonemptyListOf_OrPart" "syntactic r_NonemptyListOf_AndPart"
  by (simp_all add: syntactic_def lexical_rules_def)

section \<open>Characters and prefixes\<close>

lemma name_char_not:
  assumes "name_char c"
  shows "\<not> ohm_space c" "c \<notin> set ''()&|!:<>='' " "c \<noteq> CHR 0x22"
proof -
  have "(of_char c :: nat) \<in> {45, 46, 47, 63, 95} \<or> 48 \<le> (of_char c :: nat) \<and> (of_char c :: nat) \<le> 57
     \<or> 65 \<le> (of_char c :: nat) \<and> (of_char c :: nat) \<le> 90 \<or> 97 \<le> (of_char c :: nat) \<and> (of_char c :: nat) \<le> 122
     \<or> 170 \<le> (of_char c :: nat)"
    using assms by (auto simp: name_char_def ohm_letter_def is_letter_def is_digit_def Let_def)
  then show "\<not> ohm_space c" "c \<notin> set ''()&|!:<>='' " "c \<noteq> CHR 0x22"
    by (auto simp: ohm_space_def)
qed

lemma skip_plain: "plain w \<Longrightarrow> skip_if b (w @ t) = w @ t"
  using name_char_not(1) by (cases w) (auto simp: plain_def skip_if_def skip_spaces_def)

lemma starts_with_imp_ci: "starts_with s p \<Longrightarrow> starts_with_ci s p"
  by (induction s p rule: starts_with.induct) auto

lemma starts_with_ci_appendD: "starts_with_ci s (p @ q) \<Longrightarrow> starts_with_ci s p"
  by (induction s p rule: starts_with_ci.induct) (auto split: if_splits)

lemma starts_with_appendD: "starts_with s (p @ q) \<Longrightarrow> starts_with s p"
  by (induction s p rule: starts_with.induct) auto

lemma upper_space: "upper_char c = CHR '' '' \<Longrightarrow> c = CHR '' ''"
proof -
  have "(of_char (char_of n :: char) :: nat) = n" if "n < 256" for n :: nat using that by simp
  moreover assume "upper_char c = CHR '' ''"
  ultimately show ?thesis
    unfolding upper_char_def Let_def
    by (auto split: if_splits dest!: arg_cong [of _ _ "of_char :: char \<Rightarrow> nat"])
qed

lemma starts_with_ci_word:
  "starts_with_ci (w @ t) p \<Longrightarrow> ends_word t \<Longrightarrow> CHR '' '' \<notin> set p \<Longrightarrow> starts_with_ci w p"
proof (induction w arbitrary: p)
  case Nil
  then show ?case
  proof (cases p)
    case (Cons c q)
    with Nil obtain d t' where "t = d # t'" "upper_char d = upper_char c" "d = CHR '' ''"
      by (cases t) (auto simp: ends_word_def split: if_splits)
    then have "upper_char c = CHR '' ''" by (simp add: upper_char_def)
    with upper_space Nil.prems(3) Cons show ?thesis by auto
  qed simp
next
  case (Cons d w)
  then show ?case by (cases p) (auto split: if_splits)
qed

section \<open>Words that do not begin with a reserved word\<close>

definition free_word :: "string \<Rightarrow> string \<Rightarrow> bool" where
  "free_word w t = (plain w \<and> \<not> reserved_prefix w \<and> ends_word t)"

lemma no_space_in_reserved:
  "p \<in> set (AllBrowserNames @ reserved_words) \<Longrightarrow> CHR '' '' \<notin> set p"
  by (auto simp: AllBrowserNames_def reserved_words_def)

lemma free_word_ci:
  "free_word w t \<Longrightarrow> p \<in> set (AllBrowserNames @ reserved_words) \<Longrightarrow> \<not> starts_with_ci (w @ t) p"
  using starts_with_ci_word no_space_in_reserved
  by (auto simp: free_word_def reserved_prefix_def list_ex_iff simp del: set_append)

lemma free_word_browser: "free_word w t \<Longrightarrow> p \<in> set AllBrowserNames \<Longrightarrow> \<not> starts_with_ci (w @ t) p"
  using free_word_ci by simp

lemma free_word_keyword: "free_word w t \<Longrightarrow> p \<in> set reserved_words \<Longrightarrow> \<not> starts_with_ci (w @ t) p"
  using free_word_ci by simp

lemma free_word_terminal:
  "free_word w t \<Longrightarrow> p \<in> set reserved_words \<Longrightarrow> \<not> starts_with (w @ t) (p @ q)"
  using free_word_keyword starts_with_imp_ci starts_with_appendD by blast

lemma plain_symbol:
  "plain w \<Longrightarrow> c \<in> set ''()&|!:<>='' \<or> c = CHR 0x22 \<Longrightarrow> \<not> starts_with (w @ t) (c # p)"
  using name_char_not by (cases w) (auto simp: plain_def)

lemma skip_free: "free_word w t \<Longrightarrow> skip_if b (w @ t) = w @ t"
  by (simp add: free_word_def skip_plain)

text \<open>The keywords and symbols that begin the other alternatives do not match.\<close>

lemma free_word_fails:
  assumes "free_word w t"
  shows "\<not> starts_with (w @ t) ''all(''" "\<not> starts_with (w @ t) ''none(''"
    "\<not> starts_with (w @ t) ''seq(''" "\<not> starts_with (w @ t) ''exists(''"
    "\<not> starts_with (w @ t) ''count''" "\<not> starts_with (w @ t) ''count:''"
    "\<not> starts_with (w @ t) ''three''" "\<not> starts_with (w @ t) ''two''"
    "\<not> starts_with (w @ t) ''one''" "\<not> starts_with (w @ t) ''not''"
    "\<not> starts_with (w @ t) ''(''" "\<not> starts_with (w @ t) ''!''"
    "\<not> starts_with (w @ t) ''&''" "\<not> starts_with (w @ t) ''|''"
    "\<not> starts_with (w @ t) [CHR 0x22]"
  using free_word_terminal [OF assms, of "''all''" "''(''"]
    free_word_terminal [OF assms, of "''none''" "''(''"]
    free_word_terminal [OF assms, of "''seq''" "''(''"]
    free_word_terminal [OF assms, of "''exists''" "''(''"]
    free_word_terminal [OF assms, of "''count''" "[]"]
    free_word_terminal [OF assms, of "''count''" "'':''"]
    free_word_terminal [OF assms, of "''three''" "[]"]
    free_word_terminal [OF assms, of "''two''" "[]"]
    free_word_terminal [OF assms, of "''one''" "[]"]
    free_word_terminal [OF assms, of "''not''" "[]"]
    plain_symbol [of w] assms
  by (simp_all add: reserved_words_def free_word_def)

lemma alts_words_fail:
  "ws \<noteq> [] \<Longrightarrow> (\<And>p. p \<in> set ws \<Longrightarrow> \<not> starts_with_ci (skip_if ctx s) p) \<Longrightarrow>
     R ctx (alts (map CaseInsensitive ws)) s = Fail"
  by (induction ws rule: induct_list012) (auto simp: Let_def)

lemma AllBrowserNames_not_Nil: "AllBrowserNames \<noteq> []"
  by (simp add: AllBrowserNames_def)

lemma free_browserName [simp]: "free_word w t \<Longrightarrow> G r_browserName (w @ t) = Fail"
  unfolding search.answer_unfold [of r_browserName] body.simps
  by (subst alts_words_fail) (simp_all add: wrap_def skip_free free_word_browser AllBrowserNames_not_Nil)

lemma free_reserved [simp]: "free_word w t \<Longrightarrow> G r_reserved (w @ t) = Fail"
proof -
  assume f: "free_word w t"
  have "R False (alts (map CaseInsensitive reserved_words)) (w @ t) = Fail"
    by (rule alts_words_fail) (use f in \<open>auto simp: reserved_words_def skip_free free_word_keyword\<close>)
  with f show ?thesis
    by (simp add: search.answer_unfold [of r_reserved] wrap_def
        reserved_words_def skip_free)
qed

text \<open>The equations of a rule on a word.\<close>

lemmas G_simps = wrap_def Let_def skip_free free_word_fails

lemma free_fragments [simp]:
  assumes "free_word w t"
  shows "G r_not (w @ t) = Fail"
    "G r_linkExp (w @ t) = Fail" "G r_isExp (w @ t) = Fail" "G r_triagedExp (w @ t) = Fail"
    "G r_labelExp (w @ t) = Fail" "G r_webFeatureExp (w @ t) = Fail"
    "G r_subtestExp (w @ t) = Fail" "G r_pathExp (w @ t) = Fail"
  using assms
  by (simp_all add: search.answer_unfold [of r_not] search.answer_unfold [of r_linkExp]
      search.answer_unfold [of r_isExp] search.answer_unfold [of r_triagedExp]
      search.answer_unfold [of r_labelExp] search.answer_unfold [of r_webFeatureExp]
      search.answer_unfold [of r_subtestExp] search.answer_unfold [of r_pathExp]
      G_simps free_word_keyword reserved_words_def)

lemma free_productSpec [simp]: "free_word w t \<Longrightarrow> G r_productSpec (w @ t) = Fail"
  by (simp add: search.answer_unfold [of r_productSpec] G_simps)

lemma free_statusExp [simp]:
  assumes "free_word w t"
  shows "G r_statusExp (w @ t) = Fail"
  using assms
  by (simp add: search.answer_unfold [of r_statusExp] search.answer_unfold [of r_statusExp_eq]
      search.answer_unfold [of r_statusExp_neq] search.answer_unfold [of r_statusExp_product_eq]
      search.answer_unfold [of r_statusExp_product_neq] G_simps free_word_keyword
      reserved_words_def)

lemma free_Fragment_not [simp]: "free_word w t \<Longrightarrow> G r_Fragment_not (w @ t) = Fail"
  by (simp add: search.answer_unfold [of r_Fragment_not] G_simps)

section \<open>Names\<close>

lemma name_char_answer:
  "G r_basicNameFragmentChar s =
     (case s of
        [] \<Rightarrow> Fail
      | c # r \<Rightarrow> if name_char c then Match [Node r_basicNameFragmentChar [Tok [c]] [c]] r else Fail)"
  by (auto simp: search.answer_unfold [of r_basicNameFragmentChar] G_simps name_char_def skip_if_def
      split: list.split)

lemma iterate_name:
  "list_all name_char w \<Longrightarrow> t = [] \<or> \<not> name_char (hd t) \<Longrightarrow> length w < m \<Longrightarrow>
     iterate m (R False (App r_basicNameFragmentChar)) (w @ t) =
       Some (map (\<lambda>c. [Node r_basicNameFragmentChar [Tok [c]] [c]]) w, t)"
proof (induction w arbitrary: m)
  case Nil
  then obtain m' where "m = Suc m'" by (cases m) auto
  with Nil show ?case
    by (cases t) (auto simp: name_char_answer skip_if_def)
next
  case (Cons c w)
  then obtain m' where "m = Suc m'" by (cases m) auto
  with Cons show ?case
    by (auto simp: name_char_answer skip_if_def)
qed

lemma ends_word_char: "ends_word t \<Longrightarrow> t = [] \<or> \<not> name_char (hd t)"
  using name_char_not(1) [of "hd t"] by (auto simp: ends_word_def ohm_space_def)

lemma name_fragment:
  assumes "plain w" and "ends_word t"
  shows "\<exists>k. G r_nameFragment (w @ t) = Match [k] t \<and> eval k = Some (VStr w) \<and> source k = w"
proof -
  have w: "w \<noteq> []" "list_all name_char w" using assms(1) by (auto simp: plain_def)
  let ?rows = "map (\<lambda>c. [Node r_basicNameFragmentChar [Tok [c]] [c]]) w"
  have "iterate (Suc (length (w @ t))) (R False (App r_basicNameFragmentChar)) (w @ t) = Some (?rows, t)"
    using w(2) ends_word_char [OF assms(2)] by (intro iterate_name) auto
  then have "G r_basicNameFragment (w @ t) = Match [Node r_basicNameFragment (columns 1 ?rows) w] t"
    using w(1)
    by (simp add: search.answer_unfold [of r_basicNameFragment] wrap_def del: iterate.simps)
  then show ?thesis
    by (simp add: search.answer_unfold [of r_nameFragment] search.answer_unfold [of r_nameFragment_basic]
        G_simps skip_plain [OF assms(1)] action_def columns_def)
qed

section \<open>From words to queries\<close>

text \<open>\<open>yields n s q t\<close>: the rule \<open>n\<close> takes \<open>s\<close> up to \<open>t\<close>, with the meaning \<open>q\<close>.\<close>

definition yields :: "rule \<Rightarrow> string \<Rightarrow> query \<Rightarrow> string \<Rightarrow> bool" where
  "yields n s q t = (\<exists>k. G n s = Match [k] t \<and> eval k = Some (VQuery q))"

lemma yieldsI: "G n s = Match [k] t \<Longrightarrow> eval k = Some (VQuery q) \<Longrightarrow> yields n s q t"
  by (auto simp: yields_def)

text \<open>A rule that passes on what one alternative yields.\<close>

lemma yields_pass:
  assumes "yields m s q t"
    and "R (syntactic n) (body n) s = G m s"
    and "\<And>v srcs. action n [v] srcs = (case v of Some (VQuery p) \<Rightarrow> Some (VQuery (f p)) | _ \<Rightarrow> None)
           \<or> f = (\<lambda>p. p) \<and> action n [v] srcs = v"
  shows "yields n s (f q) t"
proof -
  obtain k where k: "G m s = Match [k] t" "eval k = Some (VQuery q)"
    using assms(1) by (auto simp: yields_def)
  have "G n s = Match [Node n [k] (take (length s - length t) s)] t"
    by (simp add: search.answer_unfold [of n] assms(2) k wrap_def)
  moreover have "eval (Node n [k] src) = Some (VQuery (f q))" for src
    using assms(3) [of "eval k" "[source k]"] k(2) by auto
  ultimately show ?thesis by (rule yieldsI)
qed

lemma free_pattern:
  assumes "free_word w t"
  shows "yields r_patternExp (w @ t) (QPattern w) t"
proof -
  obtain k where "G r_nameFragment (w @ t) = Match [k] t" "eval k = Some (VStr w)"
    using name_fragment [of w t] assms by (auto simp: free_word_def)
  with assms show ?thesis
    by (intro yieldsI [of _ _ "Node r_patternExp [k] w"])
      (simp_all add: search.answer_unfold [of r_patternExp] G_simps action_def)
qed

lemma free_Fragment: "free_word w t \<Longrightarrow> yields r_Fragment (w @ t) (QPattern w) t"
  by (rule yields_pass [OF free_pattern, where f = "\<lambda>p. p"])
    (auto simp: G_simps action_def yields_def dest!: free_pattern)

lemma free_NestedExp [simp]: "free_word w t \<Longrightarrow> G r_NestedExp (w @ t) = Fail"
  by (simp add: search.answer_unfold [of r_NestedExp] search.answer_unfold [of r_NestedExp_paren]
      search.answer_unfold [of r_NestedExp_not] G_simps)

lemma free_AndPart_fragment: "free_word w t \<Longrightarrow> yields r_AndPart_fragment (w @ t) (QPattern w) t"
  by (rule yields_pass [OF free_Fragment, where f = "\<lambda>p. p"]) (auto simp: G_simps action_def)

lemma free_AndPart: "free_word w t \<Longrightarrow> yields r_AndPart (w @ t) (QPattern w) t"
  by (rule yields_pass [OF free_AndPart_fragment, where f = "\<lambda>p. p"]) (auto simp: G_simps action_def)

lemma free_Exists_implicit:
  "free_word w t \<Longrightarrow> yields r_Exists_implicit (w @ t) (QExists [QPattern w]) t"
  by (rule yields_pass [OF free_AndPart, where f = "\<lambda>p. QExists [p]"])
    (auto simp: G_simps action_def on_query_def)

lemma free_Exists: "free_word w t \<Longrightarrow> yields r_Exists (w @ t) (QExists [QPattern w]) t"
  by (rule yields_pass [OF free_Exists_implicit, where f = "\<lambda>p. p"])
    (auto simp: G_simps action_def search.answer_unfold [of r_Exists_explicit])

lemma free_root_calls [simp]:
  assumes "free_word w t"
  shows "G r_All (w @ t) = Fail" "G r_None (w @ t) = Fail" "G r_Sequential (w @ t) = Fail"
    "G r_CountSpecifier (w @ t) = Fail" "G r_Count (w @ t) = Fail"
  using assms
  by (simp_all add: search.answer_unfold [of r_All] search.answer_unfold [of r_None]
      search.answer_unfold [of r_Sequential] search.answer_unfold [of r_Count]
      search.answer_unfold [of r_CountSpecifier]
      search.answer_unfold [of r_CountSpecifier_countInequality]
      search.answer_unfold [of r_CountSpecifier_countN]
      search.answer_unfold [of r_CountSpecifier_count3]
      search.answer_unfold [of r_CountSpecifier_count2]
      search.answer_unfold [of r_CountSpecifier_count1] G_simps)

lemma free_Q: "free_word w t \<Longrightarrow> yields r_Q (w @ t) (QExists [QPattern w]) t"
  by (rule yields_pass [OF free_Exists, where f = "\<lambda>p. p"])
    (auto simp: G_simps action_def yields_def dest!: free_Exists)

section \<open>Words one after the other\<close>

text \<open>\<open>after ws\<close>: the text of the words \<open>ws\<close> after another word, each after one space.\<close>

definition after :: "string list \<Rightarrow> string" where
  "after ws = concat (map (\<lambda>w. CHR '' '' # w) ws)"

fun free_words :: "string list \<Rightarrow> bool" where
  "free_words [] = True"
| "free_words (w # ws) = (plain w \<and> \<not> reserved_prefix w \<and> free_words ws)"

lemma after_simps [simp]: "after [] = []" "after (w # ws) = CHR '' '' # w @ after ws"
  by (simp_all add: after_def)

lemma ends_word_after [simp]: "ends_word (after ws)"
  by (cases ws) (auto simp: ends_word_def)

lemma free_words_Cons: "free_words (w # ws) \<Longrightarrow> free_word w (after ws)"
  by (simp add: free_word_def)

lemma skip_after:
  "free_words ws \<Longrightarrow> skip_spaces (after ws) = (case ws of [] \<Rightarrow> [] | w # vs \<Rightarrow> w @ after vs)"
  using skip_plain [of "hd ws" True] by (cases ws) (auto simp: skip_if_def skip_spaces_def ohm_space_def)

text \<open>No operator follows a word.\<close>

lemma no_operator:
  assumes "free_words ws"
  shows "R True (App r_and) (after ws) = Fail" "R True (App r_or) (after ws) = Fail"
proof -
  have "G r_and (skip_spaces (after ws)) = Fail \<and> G r_or (skip_spaces (after ws)) = Fail"
  proof (cases ws)
    case Nil
    then show ?thesis
      by (simp add: search.answer_unfold [of r_and] search.answer_unfold [of r_or] G_simps
          skip_after skip_if_def skip_spaces_def)
  next
    case (Cons w vs)
    with assms have f: "free_word w (after vs)" by (simp add: free_words_Cons)
    have s: "skip_spaces (after ws) = w @ after vs" using skip_after [OF assms] Cons by simp
    show ?thesis
      unfolding s using f
      by (simp add: search.answer_unfold [of r_and] search.answer_unfold [of r_or] G_simps
          free_word_keyword reserved_words_def)
  qed
  then show "R True (App r_and) (after ws) = Fail" "R True (App r_or) (after ws) = Fail"
    by (simp_all add: skip_if_def)
qed

lemma single_list:
  assumes w: "yields e (w @ after ws) q (after ws)" "free_word w (after ws)"
    and n: "n \<in> set nonempty_lists" "syntactic n" "syntactic e"
    and b: "body n = Seq (App e) (Star (Seq (App sep) (App e)))"
    and sep: "R True (App sep) (after ws) = Fail"
  shows "\<exists>k. G n (w @ after ws) = Match [k] (after ws) \<and> eval k = Some (VList [VQuery q])"
proof -
  obtain k where k: "G e (w @ after ws) = Match [k] (after ws)" "eval k = Some (VQuery q)"
    using w(1) by (auto simp: yields_def)
  have "iterate (Suc m) (R True (Seq (App sep) (App e))) (after ws) = Some ([], after ws)" for m
    using sep by simp
  then have "R True (Star (Seq (App sep) (App e))) (after ws) = Match (columns (arity (Seq (App sep) (App e))) []) (after ws)"
    by (simp del: iterate.simps)
  then have "G n (w @ after ws) = Match [Node n (k # columns 2 []) w] (after ws)"
    using k w(2) n by (simp add: search.answer_unfold [of n] b wrap_def skip_free numeral_2_eq_2
        del: run.simps(8))
  moreover have "eval (Node n (k # columns 2 []) w) = Some (VList [VQuery q])"
    using n(1) k(2) by (auto simp: columns_def upt_rec action_def nonempty_lists_def concatenated_def)
  ultimately show ?thesis by blast
qed

lemma yields_single:
  assumes l: "\<exists>k. G m s = Match [k] t \<and> eval k = Some (VList [VQuery q])"
    and b: "body n = App m" and s: "skip_if True s = s"
    and a: "\<And>v srcs. action n [v] srcs = on_queries f v" "f [q] = q"
  shows "yields n s q t"
proof -
  obtain k where k: "G m s = Match [k] t" "eval k = Some (VList [VQuery q])" using l by blast
  have "R c (App m) s = G m s" for c using s by (cases "c \<or> syntactic m") (simp_all add: skip_if_def)
  then have "G n s = Match [Node n [k] (take (length s - length t) s)] t"
    by (simp add: search.answer_unfold [of n] b k wrap_def del: run.simps)
  moreover have "eval (Node n [k] src) = Some (VQuery q)" for src
    using a k(2) on_simps(1) [of f "[q]"] by simp
  ultimately show ?thesis by (rule yieldsI)
qed

lemma free_OrQ:
  assumes "free_words (w # ws)"
  shows "yields r_OrQ (w @ after ws) (QExists [QPattern w]) (after ws)"
proof -
  have f: "free_word w (after ws)" using assms by (rule free_words_Cons)
  have sep: "R True (App r_and) (after ws) = Fail" "R True (App r_or) (after ws) = Fail"
    using no_operator assms by simp_all
  note s = skip_free [OF f, of True]
  have "yields r_AndQ (w @ after ws) (QExists [QPattern w]) (after ws)"
    by (rule yields_single [OF single_list [OF free_Q [OF f] f, of r_NonemptyListOf_Q r_and],
          where f = conjunction])
      (use sep s in \<open>simp_all add: nonempty_lists_def action_def conjunction_def del: run.simps\<close>)
  from single_list [OF this f, of r_NonemptyListOf_AndQ r_or] sep
  show ?thesis
    by (intro yields_single [of r_NonemptyListOf_AndQ _ _ _ _ disjunction])
      (use s in \<open>simp_all add: nonempty_lists_def action_def disjunction_def del: run.simps\<close>)
qed

lemma OrQ_empty: "G r_OrQ [] = Fail"
  by code_simp

text \<open>
  In a syntactic rule the separator \<open>space*\<close> of a list never takes anything: the spaces have
  been skipped before its first \<open>space\<close>.
\<close>

lemma spaces_sep_empty: "R True spaces_sep s = Match (columns 1 []) s"
proof (cases "skip_spaces s")
  case Nil
  then show ?thesis by (simp add: skip_if_def)
next
  case (Cons c r)
  then have "\<not> ohm_space c"
    unfolding skip_spaces_def using hd_dropWhile [of ohm_space s] by simp
  with Cons show ?thesis by (simp add: skip_if_def)
qed

lemma words_loop:
  "free_words ws \<Longrightarrow> length (after ws) < m \<Longrightarrow>
     \<exists>rows. iterate m (R True (Seq spaces_sep (App r_OrQ))) (after ws) = Some (rows, []) \<and>
       those (map eval (map (\<lambda>row. row ! 1) rows)) = Some (map (\<lambda>w. VQuery (QExists [QPattern w])) ws)"
proof (induction ws arbitrary: m)
  case Nil
  then obtain m' where "m = Suc m'" by (cases m) auto
  then show ?case
    using spaces_sep_empty [of "[]"] OrQ_empty
    by (simp add: skip_if_def skip_spaces_def del: run.simps(8))
next
  case (Cons w ws)
  then obtain m' where m: "m = Suc m'" by (cases m) auto
  obtain k where k: "G r_OrQ (w @ after ws) = Match [k] (after ws)"
    "eval k = Some (VQuery (QExists [QPattern w]))"
    using free_OrQ [OF Cons.prems(1)] by (auto simp: yields_def)
  have "free_words ws" "length (after ws) < m'" using Cons.prems m by simp_all
  then obtain rows where rows:
    "iterate m' (R True (Seq spaces_sep (App r_OrQ))) (after ws) = Some (rows, [])"
    "those (map eval (map (\<lambda>row. row ! 1) rows)) = Some (map (\<lambda>w. VQuery (QExists [QPattern w])) ws)"
    using Cons.IH by blast
  have "skip_if True (after (w # ws)) = w @ after ws"
    using skip_after [OF Cons.prems(1)] by (simp add: skip_if_def)
  then have "R True (Seq spaces_sep (App r_OrQ)) (after (w # ws)) =
      Match (columns 1 [] @ [k]) (after ws)"
    using spaces_sep_empty [of "after (w # ws)"] k by (simp del: run.simps(8) after_simps)
  then have "iterate m (R True (Seq spaces_sep (App r_OrQ))) (after (w # ws)) =
      Some ((columns 1 [] @ [k]) # rows, [])"
    using rows(1) by (simp add: m del: run.simps)
  moreover have "(columns 1 [] @ [k]) ! 1 = k" by (simp add: columns_def)
  then have "those (map eval (map (\<lambda>row. row ! 1) ((columns 1 [] @ [k]) # rows))) =
      Some (map (\<lambda>w. VQuery (QExists [QPattern w])) (w # ws))"
    using rows(2) k(2) by simp
  ultimately show ?case by blast
qed

lemma parse_words:
  assumes "free_words (w # ws)"
  shows "parseAndInterpretQuery (w @ after ws) = Inr (QExists (map QPattern (w # ws)))"
proof -
  have f: "free_word w (after ws)" using assms by (rule free_words_Cons)
  obtain k where k: "G r_OrQ (w @ after ws) = Match [k] (after ws)"
    "eval k = Some (VQuery (QExists [QPattern w]))"
    using free_OrQ [OF assms] by (auto simp: yields_def)
  obtain rows where rows:
    "iterate (Suc (length (after ws))) (R True (Seq spaces_sep (App r_OrQ))) (after ws) = Some (rows, [])"
    "those (map eval (map (\<lambda>row. row ! 1) rows)) = Some (map (\<lambda>w. VQuery (QExists [QPattern w])) ws)"
    using words_loop [of ws "Suc (length (after ws))"] assms by auto
  let ?l = "Node r_NonemptyListOf_OrQ (k # columns 2 rows) (w @ after ws)"
  have star: "R True (Star (Seq spaces_sep (App r_OrQ))) (after ws) = Match (columns 2 rows) []"
    using rows(1) by (simp add: numeral_2_eq_2 del: iterate.simps run.simps(7))
  have l: "G r_NonemptyListOf_OrQ (w @ after ws) = Match [?l] []"
    using k star f by (simp add: search.answer_unfold [of r_NonemptyListOf_OrQ] wrap_def skip_free
        del: run.simps(8))
  have "columns 2 rows = [Iter (map (\<lambda>row. row ! 0) rows), Iter (map (\<lambda>row. row ! 1) rows)]"
    by (simp add: columns_def upt_rec)
  then have "eval ?l = Some (VList (map VQuery (map (\<lambda>w. QExists [QPattern w]) (w # ws))))"
    using k(2) rows(2)
    by (simp add: action_def nonempty_lists_def concatenated_def comp_def del: eval.simps(2))
      (simp add: comp_def)
  then obtain qs where qs: "qs = map (\<lambda>w. QExists [QPattern w]) (w # ws)"
    and ev: "eval ?l = Some (VList (map VQuery qs))" by blast
  have "G r_Root (w @ after ws) =
      Match [Node r_Root [Node r_ListOf_OrQ [?l] (w @ after ws)] (w @ after ws)] []"
    using l f by (simp add: search.answer_unfold [of r_Root] search.answer_unfold [of r_ListOf_OrQ]
        wrap_def skip_free)
  then have "match_all body syntactic room r_Root (w @ after ws) =
      Some (Node r_Root [Node r_ListOf_OrQ [?l] (w @ after ws)] (w @ after ws))"
    using f by (simp add: match_all_def skip_free) (simp add: skip_if_def skip_spaces_def)
  moreover have "eval (Node r_Root [Node r_ListOf_OrQ [?l] s] s) =
      Some (VQuery (rootQuery qs))" for s
  proof -
    have "eval (Node r_ListOf_OrQ [?l] s) = eval ?l"
      by (simp add: action_def nonempty_lists_def)
    then show ?thesis
      unfolding eval.simps(3) [of r_Root] list.map(2) list.map(1)
      using on_simps(1) [of rootQuery qs] ev by (simp add: action_def del: eval.simps list.map)
  qed
  moreover have "rootQuery qs = QExists (map QPattern (w # ws))"
    by (simp add: qs rootQuery_def list_all_iff)
  ultimately show ?thesis by (simp add: parseAndInterpretQuery_def del: eval.simps list.map)
qed

section \<open>Words that begin with a reserved word\<close>

text \<open>
  A plain word alone that begins with a reserved word, other than \<open>not\<close>, is no query: each
  alternative needs a symbol that plain words do not contain.
\<close>

lemma answer_not_Deep: "G n s \<noteq> Deep"
  by (rule search.answer_settled)

lemma plain_suffix: "list_all name_char w \<Longrightarrow> suffix r w \<Longrightarrow> list_all name_char r"
  by (auto simp: list_all_iff dest: set_mono_suffix)

lemma skip_names: "list_all name_char w \<Longrightarrow> skip_if b w = w"
  using name_char_not(1) by (cases w) (auto simp: skip_if_def skip_spaces_def)

lemma names_symbol:
  "list_all name_char w \<Longrightarrow> c \<in> set ''()&|!:<>='' \<or> c = CHR 0x22 \<Longrightarrow> \<not> starts_with w (c # p)"
  using name_char_not by (cases w) auto

lemma run_names:
  assumes "list_all name_char w" and "R ctx e w = Match ks r"
  shows "list_all name_char r"
proof -
  have "suffix r w" using assms(2) by (rule run_suffix [rotated]) (rule answer_suffix)
  with assms(1) show ?thesis by (rule plain_suffix)
qed

text \<open>A sequence fails when its second part is a symbol.\<close>

lemma seq_symbol_fails:
  assumes "list_all name_char w" "R ctx e w \<noteq> Deep" "c \<in> set ''()&|!:<>=''"
  shows "R ctx (Seq e (Seq (Terminal (c # p)) e')) w = Fail"
proof (cases "R ctx e w")
  case (Match ks r)
  from run_names [OF assms(1) this] have "list_all name_char r" .
  with Match assms(3) show ?thesis
    by (simp add: skip_names names_symbol del: starts_with.simps)
qed (use assms(2) in auto)

lemma starts_with_set: "starts_with s p \<Longrightarrow> c \<in> set p \<Longrightarrow> c \<in> set s"
  by (auto simp: starts_with_prefix prefix_def)

lemma names_contain:
  "list_all name_char w \<Longrightarrow> c \<in> set p \<Longrightarrow> c \<in> set ''()&|!:<>='' \<Longrightarrow> \<not> starts_with w p"
  using starts_with_set [of w p c] name_char_not(2) [of c] by (auto simp: list_all_iff)

lemma names_fail:
  assumes "list_all name_char w"
  shows "\<not> starts_with w ''all(''" "\<not> starts_with w ''none(''" "\<not> starts_with w ''seq(''"
    "\<not> starts_with w ''exists(''" "\<not> starts_with w ''count:''" "\<not> starts_with w ''(''"
    "\<not> starts_with w ''!''" "\<not> starts_with w [CHR 0x22]"
  using names_contain [OF assms, of "CHR ''(''" "''all(''"]
    names_contain [OF assms, of "CHR ''(''" "''none(''"]
    names_contain [OF assms, of "CHR ''(''" "''seq(''"]
    names_contain [OF assms, of "CHR ''(''" "''exists(''"]
    names_contain [OF assms, of "CHR '':''" "''count:''"] names_symbol [OF assms]
  by simp_all

lemmas N_simps = wrap_def Let_def skip_names names_fail seq_symbol_fails answer_not_Deep

lemma names_lexical [simp]:
  assumes "list_all name_char w"
  shows "G r_linkExp w = Fail" "G r_isExp w = Fail" "G r_triagedExp w = Fail"
    "G r_labelExp w = Fail" "G r_webFeatureExp w = Fail" "G r_subtestExp w = Fail"
    "G r_pathExp w = Fail" "G r_statusExp w = Fail"
proof -
  note f = seq_symbol_fails [OF assms]
  have ci: "R ctx (CaseInsensitive t) w \<noteq> Deep" for ctx t by (simp add: Let_def)
  have app: "R ctx (App n) w \<noteq> Deep" for ctx n by (simp add: answer_not_Deep)
  show "G r_linkExp w = Fail" "G r_isExp w = Fail" "G r_triagedExp w = Fail"
    "G r_labelExp w = Fail" "G r_webFeatureExp w = Fail" "G r_subtestExp w = Fail"
    "G r_pathExp w = Fail" "G r_statusExp w = Fail"
    using assms
    by (simp_all add: search.answer_unfold [of r_linkExp] search.answer_unfold [of r_isExp]
        search.answer_unfold [of r_triagedExp] search.answer_unfold [of r_labelExp]
        search.answer_unfold [of r_webFeatureExp] search.answer_unfold [of r_subtestExp]
        search.answer_unfold [of r_pathExp] search.answer_unfold [of r_statusExp]
        search.answer_unfold [of r_statusExp_eq] search.answer_unfold [of r_statusExp_neq]
        search.answer_unfold [of r_statusExp_product_eq]
        search.answer_unfold [of r_statusExp_product_neq]
        f [OF ci] f [OF app] wrap_def skip_names
        del: run.simps(1,2,3,4,7,8,9,10,11))
qed

lemma reserved_matches:
  assumes "list_all name_char w" and "reserved_prefix w"
  shows "G r_reserved w \<noteq> Fail"
proof -
  have words: "R c (alts (map CaseInsensitive ws)) w = Fail \<longleftrightarrow> \<not> list_ex (starts_with_ci w) ws"
    if "ws \<noteq> []" for ws c
    using that
  proof (induction ws rule: induct_list012)
    case (3 x y zs)
    then show ?case using skip_names [OF assms(1)] by (auto simp: Let_def)
  qed (auto simp: Let_def skip_names [OF assms(1)])
  have b: "G r_browserName w = Fail \<longleftrightarrow> \<not> list_ex (starts_with_ci w) AllBrowserNames"
    using words [of AllBrowserNames False] AllBrowserNames_not_Nil
    by (auto simp: search.answer_unfold [of r_browserName] wrap_def split: answer.splits)
  have "R False (body r_reserved) w = Fail \<longleftrightarrow>
      G r_browserName w = Fail \<and> R False (alts (map CaseInsensitive reserved_words)) w = Fail"
    using skip_names [OF assms(1)] answer_not_Deep [of r_browserName w]
    by (cases "G r_browserName w") (auto simp: reserved_words_def)
  then have "R False (body r_reserved) w = Fail \<longleftrightarrow> \<not> reserved_prefix w"
    using b words [of reserved_words False] by (simp add: reserved_prefix_def reserved_words_def)
  with assms(2) show ?thesis
    unfolding search.answer_unfold [of r_reserved] by (auto simp: wrap_def split: answer.splits)
qed

definition rejected :: "string \<Rightarrow> bool" where
  "rejected w = (list_all name_char w \<and> reserved_prefix w \<and> \<not> starts_with w ''not'')"

lemma rejected_names: "rejected w \<Longrightarrow> list_all name_char w"
  by (simp add: rejected_def)

lemma rejected_not [simp]: "rejected w \<Longrightarrow> G r_not w = Fail"
  by (simp add: search.answer_unfold [of r_not] N_simps rejected_def)

lemma rejected_pattern [simp]: "rejected w \<Longrightarrow> G r_patternExp w = Fail"
  using reserved_matches [of w] answer_not_Deep [of r_reserved w]
  by (cases "G r_reserved w")
    (auto simp: search.answer_unfold [of r_patternExp] N_simps rejected_def)

lemma rejected_AndPart [simp]: "rejected w \<Longrightarrow> G r_AndPart w = Fail"
  by (simp add: rejected_names search.answer_unfold [of r_AndPart]
      search.answer_unfold [of r_NestedExp] search.answer_unfold [of r_NestedExp_paren]
      search.answer_unfold [of r_NestedExp_not] search.answer_unfold [of r_AndPart_fragment]
      search.answer_unfold [of r_Fragment] search.answer_unfold [of r_Fragment_not] N_simps)

lemma names_Count: "list_all name_char w \<Longrightarrow> G r_Count w = Fail"
  using seq_symbol_fails [of w True "App r_CountSpecifier" "CHR ''(''" "[]"]
  by (simp add: search.answer_unfold [of r_Count] wrap_def answer_not_Deep)

lemma rejected_Q [simp]: "rejected w \<Longrightarrow> G r_Q w = Fail"
  by (simp add: rejected_names names_Count search.answer_unfold [of r_Q]
      search.answer_unfold [of r_All] search.answer_unfold [of r_None]
      search.answer_unfold [of r_Sequential] search.answer_unfold [of r_Exists]
      search.answer_unfold [of r_Exists_explicit] search.answer_unfold [of r_Exists_implicit]
      search.answer_unfold [of r_Q_parenRoot] search.answer_unfold [of r_Q_not] N_simps)

lemma rejected_Root:
  assumes "rejected w"
  shows "\<exists>k. G r_Root w = Match [k] w"
  using assms rejected_names [OF assms]
  by (simp add: search.answer_unfold [of r_Root] search.answer_unfold [of r_ListOf_OrQ]
      search.answer_unfold [of r_NonemptyListOf_OrQ] search.answer_unfold [of r_OrQ]
      search.answer_unfold [of r_NonemptyListOf_AndQ] search.answer_unfold [of r_AndQ]
      search.answer_unfold [of r_NonemptyListOf_Q] search.answer_unfold [of r_EmptyListOf] N_simps)

lemma rejected_parse:
  assumes "rejected w" and "w \<noteq> []"
  shows "parseAndInterpretQuery w = Inl (''Failed to parse query: '' @ w)"
proof -
  obtain k where "G r_Root w = Match [k] w" using rejected_Root [OF assms(1)] by blast
  then have "match_all body syntactic room r_Root w = None"
    using assms(2) skip_names [OF rejected_names [OF assms(1)], of True]
    by (simp add: match_all_def)
  then show ?thesis by (simp add: parse_error_iff)
qed

section \<open>Properties\<close>

text \<open>
  C3: The matcher of the search grammar always gives an answer, on every rule and input, and its
  answers satisfy the recursive equations of the grammar.
\<close>

theorem search_total:
  "G n s \<noteq> Deep \<and> G n s = wrap n s (run G syntactic (syntactic n) (body n) s)"
  using search.answer_settled search.answer_unfold by blast

text \<open>
  C4: Interpreting a query fails only if the query does not match the grammar, with the message
  that quotes it: the semantic actions themselves never throw, whatever the query.
\<close>

theorem search_error:
  "parseAndInterpretQuery q = Inl e \<longleftrightarrow>
     match_all body syntactic room r_Root q = None \<and> e = ''Failed to parse query: '' @ q"
  by (rule parse_error_iff)

text \<open>
  Plain words separated by spaces, none of which begins with a reserved word, are a query
  for tests that match all the words as patterns, in order.
\<close>

lemma search_words:
  assumes "free_words ws" and "ws \<noteq> []"
  shows "parseAndInterpretQuery (join '' '' ws) = Inr (QExists (map QPattern ws))"
proof -
  obtain w vs where ws: "ws = w # vs" using assms(2) by (cases ws) auto
  have "join '' '' (w # vs) = w @ after vs" for w vs
    by (induction vs arbitrary: w) (auto simp: join_Cons)
  with parse_words assms(1) ws show ?thesis by metis
qed

lemma search_words_witness:
  "parseAndInterpretQuery ''cors/allow 2dcontext'' = Inr (QExists [QPattern ''cors/allow'', QPattern ''2dcontext''])"
proof -
  have "free_words [''cors/allow'', ''2dcontext'']" by code_simp
  from search_words [OF this] show ?thesis by simp
qed

text \<open>
  A plain word that does not begin with \<open>not\<close> is a query exactly when it begins with none
  of the reserved words, in any case: a word that only has a reserved word as a prefix is
  rejected too.
\<close>

lemma search_reserved:
  assumes "plain w" and "\<not> starts_with w ''not''"
  shows "parseAndInterpretQuery w =
     (if reserved_prefix w then Inl (''Failed to parse query: '' @ w) else Inr (QExists [QPattern w]))"
proof (cases "reserved_prefix w")
  case True
  with assms show ?thesis using rejected_parse [of w] by (simp add: rejected_def plain_def)
next
  case False
  with assms(1) show ?thesis using parse_words [of w "[]"] by simp
qed

lemma search_reserved_witness:
  "parseAndInterpretQuery ''orientation'' = Inl ''Failed to parse query: orientation''"
  using search_reserved [of "''orientation''"] by (simp add: plain_def name_char_def
      ohm_letter_def is_letter_def reserved_prefix_def reserved_words_def upper_char_def)

text \<open>
  C5: In every state that typing, the timer, keys, options, clearing and navigation can reach,
  the structured query is that of the current query, if there is one and it parses, and there
  is none for an empty query.
\<close>

theorem search_box_coherent:
  assumes "search_reachable st"
  shows "coherent st"
  using assms by (rule reachable_coherent)

lemma search_box_coherent_witness:
  "coherent (set_query (Some ''cors'')
     \<lparr>queryInput = None, query = None, structuredQuery = None, debounce = False, dispatched = []\<rparr>)"
  by (rule search_box_coherent, rule search_reachable.step [OF search_reachable.initial navigates])

text \<open>
  Without a query the data list holds an option for each of the 19 atoms, and then all the
  paths but the last nine, however many: the limit of ten options in all is not kept.
\<close>

lemma datalist_without_query:
  "length (updateDatalist None (Some paths)) = 19 + (length paths - 9)"
proof -
  have "length (atomOptions None) = 19"
    by (simp add: atomOptions_def truthy_def atoms_def AllBrowserNames_def)
  then show ?thesis
    by (simp add: updateDatalist_def Let_def pathMatches_def truthy_def slice0_def)
qed

end
