(* ===== verification/JsUrl.thy ===== *)
theory JsUrl
  imports JsPrelude
begin

text \<open>
  What the components use of the URL standard and of \<^verbatim>\<open>encodeURIComponent\<close>: percent-encoding
  of UTF-8, the serialisation of \<^verbatim>\<open>URLSearchParams\<close>, and path names.

  Code units are below 256, so UTF-8 takes one or two bytes. A decoded text that would leave
  this range is not represented: \<open>decodeURIComponent\<close> then answers \<open>None\<close>, as it does where
  the code throws, and the lossy decoder of \<^verbatim>\<open>URLSearchParams\<close> puts \<open>CHR 0x1A\<close>.
\<close>

section \<open>Percent-encoding\<close>

definition utf8 :: "char \<Rightarrow> nat list" where
  "utf8 c = (let n = of_char c in if n < 128 then [n] else [192 + n div 64, 128 + n mod 64])"

fun utf8_decode :: "nat list \<Rightarrow> string option" where
  "utf8_decode [] = Some []"
| "utf8_decode (b # bs) =
     (if b < 128 then map_option (\<lambda>s. char_of b # s) (utf8_decode bs)
      else (case bs of
              [] \<Rightarrow> None
            | c # cs \<Rightarrow>
                if (b = 194 \<or> b = 195) \<and> 128 \<le> c \<and> c < 192
                then map_option (\<lambda>s. char_of ((b - 192) * 64 + (c - 128)) # s) (utf8_decode cs)
                else None))"

definition hex_char :: "nat \<Rightarrow> char" where
  "hex_char n = (if n < 10 then char_of (48 + n) else char_of (55 + n))"

definition hex_val :: "char \<Rightarrow> nat option" where
  "hex_val c =
     (let n = of_char c in
      if 48 \<le> n \<and> n \<le> 57 then Some (n - 48)
      else if 65 \<le> n \<and> n \<le> 70 then Some (n - 55)
      else if 97 \<le> n \<and> n \<le> 102 then Some (n - 87)
      else None)"

definition percent_byte :: "nat \<Rightarrow> string" where
  "percent_byte b = [CHR ''%'', hex_char (b div 16), hex_char (b mod 16)]"

definition encode_char :: "(char \<Rightarrow> bool) \<Rightarrow> char \<Rightarrow> string" where
  "encode_char keep c = (if keep c then [c] else concat (map percent_byte (utf8 c)))"

definition percent_encode :: "(char \<Rightarrow> bool) \<Rightarrow> string \<Rightarrow> string" where
  "percent_encode keep s = concat (map (encode_char keep) s)"

text \<open>The bytes of a text; a percent sign that two hexadecimal digits do not follow is itself.\<close>

fun percent_bytes :: "string \<Rightarrow> nat list" where
  "percent_bytes [] = []"
| "percent_bytes (c # s) =
     (if c = CHR ''%'' then
        (case s of
           h # l # t \<Rightarrow>
             (case (hex_val h, hex_val l) of
                (Some a, Some b) \<Rightarrow> (16 * a + b) # percent_bytes t
              | _ \<Rightarrow> utf8 c @ percent_bytes s)
         | _ \<Rightarrow> utf8 c @ percent_bytes s)
      else utf8 c @ percent_bytes s)"

text \<open>\<open>decodeURIComponent\<close> throws on such a percent sign.\<close>

fun percent_ok :: "string \<Rightarrow> bool" where
  "percent_ok [] = True"
| "percent_ok (c # s) =
     (if c = CHR ''%'' then
        (case s of
           h # l # t \<Rightarrow> if hex_val h = None \<or> hex_val l = None then False else percent_ok t
         | _ \<Rightarrow> False)
      else percent_ok s)"

definition ascii_alnum :: "char \<Rightarrow> bool" where
  "ascii_alnum c = (is_letter c \<or> is_digit c)"

definition uri_keep :: "char \<Rightarrow> bool" where
  "uri_keep c = (ascii_alnum c \<or> c \<in> {CHR ''-'', CHR ''_'', CHR ''.'', CHR ''!'', CHR ''~'',
      CHR ''*'', CHR 0x27, CHR ''('', CHR '')''})"

definition encodeURIComponent :: "string \<Rightarrow> string" where
  "encodeURIComponent s = percent_encode uri_keep s"

definition decodeURIComponent :: "string \<Rightarrow> string option" where
  "decodeURIComponent s = (if percent_ok s then utf8_decode (percent_bytes s) else None)"

section \<open>URLSearchParams\<close>

definition form_keep :: "char \<Rightarrow> bool" where
  "form_keep c = (ascii_alnum c \<or> c \<in> {CHR ''*'', CHR ''-'', CHR ''.'', CHR ''_''})"

definition form_encode :: "string \<Rightarrow> string" where
  "form_encode s = concat (map (\<lambda>c. if c = CHR '' '' then ''+'' else encode_char form_keep c) s)"

definition form_decode :: "string \<Rightarrow> string" where
  "form_decode s =
     (case utf8_decode (percent_bytes (map (\<lambda>c. if c = CHR ''+'' then CHR '' '' else c) s)) of
        Some t \<Rightarrow> t
      | None \<Rightarrow> [CHR 0x1A])"

definition form_pair :: "string \<times> string \<Rightarrow> string" where
  "form_pair kv = form_encode (fst kv) @ ''='' @ form_encode (snd kv)"

definition form_serialize :: "(string \<times> string) list \<Rightarrow> string" where
  "form_serialize kvs = join ''&'' (map form_pair kvs)"

text \<open>The part before the first \<open>=\<close>, and the part after it (empty when there is none).\<close>

definition form_unpair :: "string \<Rightarrow> string \<times> string" where
  "form_unpair p =
     (case index_of p ''='' of
        None \<Rightarrow> (form_decode p, form_decode [])
      | Some i \<Rightarrow> (form_decode (take i p), form_decode (drop (i + 1) p)))"

definition form_parse :: "string \<Rightarrow> (string \<times> string) list" where
  "form_parse s =
     (let s = (if starts_with s ''?'' then drop 1 s else s)
      in map form_unpair (filter (\<lambda>p. p \<noteq> []) (split_on (CHR ''&'') s)))"

section \<open>Encoders whose output avoids a separator\<close>

text \<open>
  An encoder, its decoder, and a separator that encoded values do not contain: then a joined
  list of encoded values splits into them again.
\<close>

locale separated_codec =
  fixes valid :: "'a \<Rightarrow> bool" and enc :: "'a \<Rightarrow> string" and dec :: "string \<Rightarrow> 'b" and inj :: "'a \<Rightarrow> 'b"
    and sep :: char
  assumes dec_enc: "valid x \<Longrightarrow> dec (enc x) = inj x"
    and enc_sep: "valid x \<Longrightarrow> sep \<notin> set (enc x)"
begin

lemma split_joined:
  assumes "xs \<noteq> []" and "\<forall>x \<in> set xs. valid x"
  shows "split_on sep (join [sep] (map enc xs)) = map enc xs"
  using assms enc_sep by (intro split_on_join) auto

theorem decode_joined:
  assumes "xs \<noteq> []" and "\<forall>x \<in> set xs. valid x"
  shows "map dec (split_on sep (join [sep] (map enc xs))) = map inj xs"
  using assms dec_enc by (simp add: split_joined)

end

section \<open>Encoding then decoding\<close>

lemma char_bound: "(of_char (c :: char) :: nat) < 256"
proof -
  have "(of_char c :: nat) mod 256 < 256" by (rule mod_less_divisor) simp
  then show ?thesis by (simp only: of_char_mod_256)
qed

lemma hex_val_char: "n < 16 \<Longrightarrow> hex_val (hex_char n) = Some n"
  by (auto simp: hex_val_def hex_char_def Let_def)

lemma hex_char_alnum: "n < 16 \<Longrightarrow> ascii_alnum (hex_char n)"
  by (auto simp: hex_char_def ascii_alnum_def is_letter_def is_digit_def Let_def)

lemma utf8_bound: "b \<in> set (utf8 c) \<Longrightarrow> b < 256"
proof -
  assume b: "b \<in> set (utf8 c)"
  have "(of_char c :: nat) div 64 < 4" by (rule less_mult_imp_div_less) (use char_bound [of c] in simp)
  moreover have "(of_char c :: nat) mod 64 < 64" by simp
  ultimately show ?thesis using b by (auto simp: utf8_def Let_def split: if_splits)
qed

lemma percent_bytes_byte: "b < 256 \<Longrightarrow> percent_bytes (percent_byte b @ s) = b # percent_bytes s"
  by (simp add: percent_byte_def hex_val_char)

lemma percent_ok_byte: "b < 256 \<Longrightarrow> percent_ok (percent_byte b @ s) = percent_ok s"
  by (simp add: percent_byte_def hex_val_char)

lemma percent_bytes_list:
  "\<forall>b \<in> set bs. b < 256 \<Longrightarrow> percent_bytes (concat (map percent_byte bs) @ s) = bs @ percent_bytes s"
  by (induction bs) (simp_all add: percent_bytes_byte)

lemma percent_ok_list:
  "\<forall>b \<in> set bs. b < 256 \<Longrightarrow> percent_ok (concat (map percent_byte bs) @ s) = percent_ok s"
  by (induction bs) (simp_all add: percent_ok_byte)

lemma utf8_decode_utf8: "utf8_decode (utf8 c @ bs) = map_option (\<lambda>s. c # s) (utf8_decode bs)"
proof (cases "(of_char c :: nat) < 128")
  case True
  then show ?thesis by (simp add: utf8_def Let_def)
next
  case False
  define n :: nat where "n = of_char c"
  have n: "\<not> n < 128" "n < 256" "char_of n = c" using False char_bound [of c] by (simp_all add: n_def)
  define h l where "h = n div 64" and "l = n mod 64"
  have l: "l < 64" and hl: "h * 64 + l = n" by (simp_all add: h_def l_def)
  have h: "h = 2 \<or> h = 3" using hl l n(1,2) by linarith
  have u: "utf8 c = [192 + h, 128 + l]"
    using n(1) by (simp add: utf8_def Let_def n_def [symmetric] h_def l_def)
  have c: "char_of ((192 + h - 192) * 64 + (128 + l - 128)) = c" using n(3) hl by simp
  have "192 + h = 194 \<or> 192 + h = 195" using h by auto
  with l c show ?thesis unfolding u by simp
qed

lemma percent_bytes_encode_char:
  "keep c \<longrightarrow> c \<noteq> CHR ''%'' \<Longrightarrow>
     percent_bytes (encode_char keep c @ s) = utf8 c @ percent_bytes s"
  using percent_bytes_list [of "utf8 c" s] utf8_bound [of _ c] by (auto simp: encode_char_def)

lemma percent_ok_encode_char:
  "keep c \<longrightarrow> c \<noteq> CHR ''%'' \<Longrightarrow> percent_ok (encode_char keep c @ s) = percent_ok s"
  using percent_ok_list [of "utf8 c" s] utf8_bound [of _ c] by (auto simp: encode_char_def)

lemma percent_encode_decode:
  assumes "\<not> keep (CHR ''%'')"
  shows "utf8_decode (percent_bytes (percent_encode keep s)) = Some s"
    and "percent_ok (percent_encode keep s)"
proof (induction s)
  case Nil
  {
    case 1
    show ?case by (simp add: percent_encode_def)
  next
    case 2
    show ?case by (simp add: percent_encode_def)
  }
next
  case (Cons c s)
  have k: "keep c \<longrightarrow> c \<noteq> CHR ''%''" using assms by auto
  {
    case 1
    with Cons.IH(1) percent_bytes_encode_char [of keep c, OF k] utf8_decode_utf8 show ?case
      by (simp add: percent_encode_def)
  next
    case 2
    with Cons.IH(2) percent_ok_encode_char [of keep c, OF k] show ?case by (simp add: percent_encode_def)
  }
qed

lemma set_percent_encode:
  "x \<in> set (percent_encode keep s) \<Longrightarrow> keep x \<or> x = CHR ''%'' \<or> ascii_alnum x"
  using utf8_bound hex_char_alnum
  by (fastforce simp: percent_encode_def encode_char_def percent_byte_def split: if_splits)

lemma uri_keep_facts: "\<not> uri_keep (CHR ''%'')" "\<not> uri_keep (CHR ''/'')" "\<not> ascii_alnum (CHR ''/'')"
  by (simp_all add: uri_keep_def ascii_alnum_def is_letter_def is_digit_def)

lemma decode_encodeURIComponent [simp]: "decodeURIComponent (encodeURIComponent s) = Some s"
  using percent_encode_decode [of uri_keep, OF uri_keep_facts(1)]
  by (simp add: encodeURIComponent_def decodeURIComponent_def)

lemma encodeURIComponent_no_slash [simp]: "CHR ''/'' \<notin> set (encodeURIComponent s)"
  using set_percent_encode [of "CHR ''/''" uri_keep s] uri_keep_facts
  by (auto simp: encodeURIComponent_def)

interpretation uri: separated_codec "\<lambda>_. True" encodeURIComponent decodeURIComponent Some "CHR ''/''"
  by unfold_locales simp_all

lemma form_keep_facts:
  "\<not> form_keep (CHR ''%'')" "\<not> form_keep (CHR '' '')" "\<not> form_keep (CHR ''+'')" "\<not> form_keep (CHR ''&'')"
  "\<not> form_keep (CHR ''='')" "\<not> form_keep (CHR ''?'')" "\<not> form_keep (CHR '':'')"
  by (simp_all add: form_keep_def ascii_alnum_def is_letter_def is_digit_def)

lemma ascii_alnum_facts:
  "\<not> ascii_alnum (CHR ''&'')" "\<not> ascii_alnum (CHR ''='')" "\<not> ascii_alnum (CHR ''?'')"
  "\<not> ascii_alnum (CHR '':'')" "\<not> ascii_alnum (CHR ''+'')" "\<not> ascii_alnum (CHR ''%'')"
  by (simp_all add: ascii_alnum_def is_letter_def is_digit_def)

text \<open>\<open>form_text s\<close>: the encoding with \<open>%20\<close> for a space.\<close>

definition form_text :: "string \<Rightarrow> string" where
  "form_text s = percent_encode form_keep s"

lemma form_text_chars:
  "c \<in> {CHR ''&'', CHR ''='', CHR ''?'', CHR '':'', CHR ''+''} \<Longrightarrow> c \<notin> set (form_text s)"
  using set_percent_encode [of c form_keep s] form_keep_facts ascii_alnum_facts
  by (auto simp: form_text_def)

lemma set_form_encode: "set (form_encode s) \<subseteq> {CHR ''+''} \<union> set (form_text s)"
  by (induction s) (auto simp: form_encode_def form_text_def percent_encode_def)

lemma form_encode_chars:
  "c \<in> {CHR ''&'', CHR ''='', CHR ''?'', CHR '':''} \<Longrightarrow> c \<notin> set (form_encode s)"
  using set_form_encode [of s] form_text_chars [of c s] by auto

lemma replace_all_char:
  "replace_all [c] r s = concat (map (\<lambda>d. if d = c then r else [d]) s)"
  by (induction s) auto

lemma replace_all_char_append [simp]:
  "replace_all [c] r (s @ t) = replace_all [c] r s @ replace_all [c] r t"
  by (simp add: replace_all_char)

lemma replace_all_char_absent [simp]: "c \<notin> set s \<Longrightarrow> replace_all [c] r s = s"
  by (induction s) auto

lemma form_encode_plus: "replace_all ''+'' ''%20'' (form_encode s) = form_text s"
proof (induction s)
  case Nil
  show ?case by (simp add: form_encode_def form_text_def percent_encode_def)
next
  case (Cons c s)
  have "encode_char form_keep (CHR '' '') = ''%20''"
    by code_simp
  moreover have "CHR ''+'' \<notin> set (encode_char form_keep c)"
    using form_text_chars [of "CHR ''+''" "[c]"] by (simp add: form_text_def percent_encode_def)
  ultimately show ?case
    using Cons by (auto simp: form_encode_def form_text_def percent_encode_def)
qed

lemma form_decode_text [simp]: "form_decode (form_text s) = s"
proof -
  have "map (\<lambda>c. if c = CHR ''+'' then CHR '' '' else c) (form_text s) = form_text s"
    using form_text_chars [of "CHR ''+''" s] by (intro map_idI) auto
  then show ?thesis
    using percent_encode_decode(1) [of form_keep, OF form_keep_facts(1)]
    by (simp add: form_decode_def form_text_def)
qed

text \<open>A text without a percent sign is decoded character by character, which evaluation uses.\<close>

lemma decode_no_percent: "CHR ''%'' \<notin> set s \<Longrightarrow> utf8_decode (percent_bytes s) = Some s"
  by (induction s) (auto simp: utf8_decode_utf8)

lemma form_decode_code [code]:
  "form_decode s =
     (if list_all (\<lambda>c. c \<noteq> CHR ''%'') s then map (\<lambda>c. if c = CHR ''+'' then CHR '' '' else c) s
      else (case utf8_decode (percent_bytes (map (\<lambda>c. if c = CHR ''+'' then CHR '' '' else c) s)) of
              Some t \<Rightarrow> t
            | None \<Rightarrow> [CHR 0x1A]))"
proof (cases "list_all (\<lambda>c. c \<noteq> CHR ''%'') s")
  case True
  then have "CHR ''%'' \<notin> set (map (\<lambda>c. if c = CHR ''+'' then CHR '' '' else c) s)" by (auto simp: list_all_iff)
  then show ?thesis using True decode_no_percent by (simp add: form_decode_def)
qed (simp add: form_decode_def)

lemma form_decode_Nil [simp]: "form_decode [] = []"
  by (simp add: form_decode_def)

lemma form_text_Nil_iff [simp]: "form_text s = [] \<longleftrightarrow> s = []"
  by (cases s) (auto simp: form_text_def percent_encode_def encode_char_def utf8_def Let_def percent_byte_def)

lemma Nil_form_text_iff [simp]: "[] = form_text s \<longleftrightarrow> s = []"
  by (metis form_text_Nil_iff)

lemma starts_with_form_encode:
  "starts_with (form_encode v @ rest) p \<Longrightarrow> \<forall>c \<in> set p. is_letter c \<Longrightarrow> rest = [] \<or> hd rest = CHR ''&'' \<Longrightarrow>
     starts_with v p"
proof (induction v arbitrary: p)
  case Nil
  then show ?case
    by (cases p; cases rest) (auto simp: form_encode_def is_letter_def)
next
  case (Cons c v)
  show ?case
  proof (cases p)
    case (Cons d q)
    with Cons.prems(2) have d: "d \<noteq> CHR ''+''" "d \<noteq> CHR ''%''" by (auto simp: is_letter_def)
    then have "c = d \<and> starts_with (form_encode v @ rest) q"
      using Cons.prems(1) Cons
      by (auto simp: form_encode_def encode_char_def utf8_def percent_byte_def Let_def split: if_splits)
    with Cons.IH [of q] Cons.prems Cons show ?thesis by simp
  qed simp
qed

lemma form_encode_letters: "\<forall>c \<in> set s. is_letter c \<Longrightarrow> form_encode s = s"
  by (induction s) (auto simp: form_encode_def encode_char_def form_keep_def ascii_alnum_def is_letter_def)

text \<open>The pairs of a query text are one more joined list of encoded values.\<close>

definition form_text_pair :: "string \<times> string \<Rightarrow> string" where
  "form_text_pair kv = form_text (fst kv) @ ''='' @ form_text (snd kv)"

lemma form_unpair_text: "form_unpair (form_text_pair kv) = kv"
  using form_text_chars [of "CHR ''=''" "fst kv"] by (simp add: form_unpair_def form_text_pair_def)

lemma form_unpair_texts [simp]: "form_unpair (form_text a @ CHR ''='' # form_text b) = (a, b)"
  using form_unpair_text [of "(a, b)"] by (simp add: form_text_pair_def)

lemma form_unpair_key: "form_unpair (form_text k) = (k, [])"
  using form_text_chars [of "CHR ''=''" k] by (simp add: form_unpair_def)

end
