(* ===== verification/QueryParams.thy ===== *)
theory QueryParams
  imports JsUrl ProductInfo
begin

text \<open>
  \<^verbatim>\<open>webapp/components/results-navigation.js\<close> (QueryBuilder) and
  \<^verbatim>\<open>webapp/components/test-runs-query.js\<close> (TestRunsQuery, TestRunsUIQuery): the query string of
  the pages, the query params it stands for, and the UI properties they are computed from.
  A \<open>Date\<close> is its ISO 8601 text.
\<close>

section \<open>QueryBuilder\<close>

text \<open>The value of a query param: a string, a number, a boolean or an array of strings.\<close>

datatype param = PStr string | PNum nat | PBool bool | PList "string list"

type_synonym params = "param obj"

definition param_values :: "param \<Rightarrow> string list" where
  "param_values v =
     (case v of
        PStr s \<Rightarrow> [s]
      | PNum n \<Rightarrow> [show_nat n]
      | PBool b \<Rightarrow> [if b then ''true'' else ''false'']
      | PList ss \<Rightarrow> ss)"

text \<open>
  The \<open>searchParams\<close> that the loop of \<open>computeQuery\<close> fills: \<open>set\<close> is \<open>append\<close>, as the keys of an
  object are distinct.
\<close>

definition param_pairs :: "params \<Rightarrow> (string \<times> string) list" where
  "param_pairs params = concat (map (\<lambda>(k, v). map (Pair k) (param_values v)) params)"

text \<open>\<open>url.search\<close>\<close>

definition url_search :: "(string \<times> string) list \<Rightarrow> string" where
  "url_search kvs = (if kvs = [] then [] else ''?'' @ form_serialize kvs)"

text \<open>\<open>.replace(/:00.000Z/g, '')\<close>, where the dot matches any character but a line break.\<close>

function drop_zero_seconds :: "string \<Rightarrow> string" where
  "drop_zero_seconds [] = []"
| "drop_zero_seconds (c # s) =
     (if starts_with (c # s) '':00'' \<and> starts_with (drop 4 (c # s)) ''000Z'' \<and> (c # s) ! 3 \<notin> {CHR 0x0A, CHR 0x0D}
      then drop_zero_seconds (drop 8 (c # s))
      else c # drop_zero_seconds s)"
  by pat_completeness auto
termination
  by (relation "measure length") auto

definition computeQuery :: "params \<Rightarrow> string option" where
  "computeQuery params =
     (if params = [] then Some []
      else
        (let search = url_search (param_pairs params);
             afterQ = split_on (CHR ''?'')
                        (replace_all ''+'' ''%20'' (drop_zero_seconds (replace_all ''=true'' [] search)))
         in elem_at afterQ 1))"

text \<open>\<open>parseQuery\<close> of \<open>QueryBuilder\<close>.\<close>

definition parseParams :: "string \<Rightarrow> params" where
  "parseParams q =
     (let kvs = form_parse q
      in map (\<lambda>k. (k, let vs = map snd (filter (\<lambda>kv. fst kv = k) kvs)
                       in if length vs > 1 then PList vs else PStr (hd vs)))
             (nub (map fst kvs)))"

text \<open>What a param value becomes when it is written and read again.\<close>

definition reread :: "param \<Rightarrow> param" where
  "reread v =
     (case v of
        PStr s \<Rightarrow> PStr s
      | PNum n \<Rightarrow> PStr (show_nat n)
      | PBool b \<Rightarrow> PStr (if b then [] else ''false'')
      | PList [s] \<Rightarrow> PStr s
      | PList ss \<Rightarrow> PList ss)"

definition writable_value :: "param \<Rightarrow> bool" where
  "writable_value v =
     (case v of
        PStr s \<Rightarrow> \<not> starts_with s ''true''
      | PNum n \<Rightarrow> True
      | PBool b \<Rightarrow> True
      | PList ss \<Rightarrow> ss \<noteq> [] \<and> list_all (\<lambda>s. \<not> starts_with s ''true'') ss)"

definition writable :: "params \<Rightarrow> bool" where
  "writable params =
     (params \<noteq> [] \<and> distinct (obj_keys params) \<and>
      list_all (\<lambda>(k, v). k \<noteq> [] \<and> writable_value v) params)"

section \<open>TestRunsQuery\<close>

definition truthy_param :: "param option \<Rightarrow> bool" where
  "truthy_param v =
     (case v of
        None \<Rightarrow> False
      | Some (PStr s) \<Rightarrow> s \<noteq> []
      | Some (PNum n) \<Rightarrow> n \<noteq> 0
      | Some (PBool b) \<Rightarrow> b
      | Some (PList ss) \<Rightarrow> True)"

definition shas_latest :: "string list option \<Rightarrow> bool" where
  "shas_latest s = computeIsLatest (case s of None \<Rightarrow> NoSha | Some l \<Rightarrow> Shas (map Sha l))"

definition computeIsDefaultProducts :: "string list option \<Rightarrow> bool" where
  "computeIsDefaultProducts specs =
     (case specs of
        None \<Rightarrow> True
      | Some ss \<Rightarrow> ss = [] \<or> join '','' DefaultProductSpecs = join '','' ss)"

definition product_labels :: "product \<Rightarrow> string list" where
  "product_labels p = (case labels p of None \<Rightarrow> [] | Some ls \<Rightarrow> ls)"

definition is_channel :: "string \<Rightarrow> bool" where
  "is_channel l = (l \<in> set Channels)"

text \<open>
  Collapsing a globally shared channel into a single label: the specs, and the channel if all
  products have it. A channel that is \<open>undefined\<close> is found in no product.
\<close>

definition collapse_channel :: "product list \<Rightarrow> string list \<times> string option" where
  "collapse_channel products =
     (let channel = find is_channel (product_labels (hd products));
          allChannelsSame = list_all (\<lambda>p. find (\<lambda>l. Some l = channel) (product_labels p) \<noteq> None) products
      in if allChannelsSame
         then (map (\<lambda>p. getSpec True (p\<lparr>labels := Some (filter (\<lambda>l. \<not> is_channel l) (product_labels p))\<rparr>))
                 products, channel)
         else (map (getSpec True) products, None))"

text \<open>The UI properties of a query for test runs, and those of its UI variant.\<close>

record runs_query =
  shas :: "string list option"
  aligned :: bool
  master :: bool
  label_list :: "string list option"
  productSpecs :: "string list option"
  to_date :: "string option"
  from_date :: "string option"
  maxCount :: "param option"
  offset :: "param option"
  view :: "string option"

definition set_if :: "bool \<Rightarrow> string \<Rightarrow> param \<Rightarrow> params \<Rightarrow> params" where
  "set_if b k v ps = (if b then obj_set k v ps else ps)"

definition all_labels :: "bool \<Rightarrow> string list option \<Rightarrow> string list" where
  "all_labels is_master ls =
     (let l = (case ls of None \<Rightarrow> [] | Some l \<Rightarrow> l)
      in if is_master \<and> ''master'' \<notin> set l then l @ [''master''] else l)"

definition computeTestRunQueryParams :: "param option \<Rightarrow> runs_query \<Rightarrow> string + params" where
  "computeTestRunQueryParams defaultMaxCount q =
     (let latest = shas_latest (shas q);
          ls = all_labels (master q) (label_list q);
          max_count = (if truthy_param (maxCount q) then maxCount q else defaultMaxCount);
          ps = set_if (\<not> latest) ''sha'' (PList (the (shas q))) [];
          ps = set_if (ls \<noteq> []) ''label'' (PList ls) ps;
          ps = set_if (truthy_param max_count) ''max-count'' (the max_count) ps;
          ps = set_if (truthy_param (offset q)) ''offset'' (the (offset q)) ps;
          ps = set_if (from_date q \<noteq> None) ''from'' (PStr (the (from_date q))) ps;
          ps = set_if (to_date q \<noteq> None) ''to'' (PStr (the (to_date q))) ps;
          with_products =
            (case productSpecs q of
               None \<Rightarrow> Inr ps
             | Some [] \<Rightarrow> Inr ps
             | Some specs \<Rightarrow>
                 (case map_throw parseProductSpec specs of
                    Inl e \<Rightarrow> Inl e
                  | Inr products \<Rightarrow>
                      (case collapse_channel products of (specs', channel) \<Rightarrow>
                        Inr (set_if (\<not> computeIsDefaultProducts (Some specs')) ''product'' (PList specs')
                              (set_if (channel \<noteq> None \<and> the channel \<notin> set ls) ''label''
                                (PList (ls @ [the channel])) ps)))))
      in case with_products of
           Inl e \<Rightarrow> Inl e
         | Inr ps \<Rightarrow>
             Inr (set_if (truthy (view q)) ''view'' (PStr (the (view q)))
                   (set_if (aligned q \<and> latest) ''aligned'' (PBool True) ps)))"

definition showDefaultView :: "param option \<Rightarrow> param option \<Rightarrow> bool" where
  "showDefaultView v q =
     (\<not> truthy_param v \<or> \<not> truthy_param q \<or>
      \<not> (case q of
            Some (PStr s) \<Rightarrow> str_includes s ''interop-202''
          | Some (PList ss) \<Rightarrow> ''interop-202'' \<in> set ss
          | _ \<Rightarrow> False))"

text \<open>\<open>parsed[k] = [parsed[k]]\<close> for a repeatable param that is present and not an array.\<close>

definition as_array :: "params \<Rightarrow> string \<Rightarrow> params" where
  "as_array parsed k =
     (case obj_get parsed k of
        Some (PStr s) \<Rightarrow> obj_set k (PList [s]) parsed
      | _ \<Rightarrow> parsed)"

definition as_flag :: "params \<Rightarrow> string \<Rightarrow> params" where
  "as_flag parsed k = (if has_key parsed k then obj_set k (PBool True) parsed else parsed)"

definition parseRunsQuery :: "string \<Rightarrow> params" where
  "parseRunsQuery q =
     (let parsed = parseParams q;
          parsed = obj_set ''canViewInteropScores''
                     (PBool (\<not> showDefaultView (obj_get parsed ''view'') (obj_get parsed ''q''))) parsed;
          parsed = foldl as_array parsed [''label'', ''product'', ''sha'']
      in foldl as_flag parsed [''aligned'', ''master''])"

text \<open>
  The properties that \<open>_getBatchUpdate\<close> sets. \<open>None\<close> in an outer option is a property that the
  update leaves out.
\<close>

record batch_update =
  b_productSpecs :: "string list"
  b_labels :: "string list"
  b_shas :: "string list"
  b_products :: "product list"
  b_maxCount :: "param option"
  b_offset :: "param option"
  b_from :: "param option"
  b_to :: "param option"
  b_aligned :: "param option"
  b_view :: "param option"
  b_canViewInteropScores :: "param option"
  b_master :: bool

text \<open>An array param (\<open>parseQuery\<close> has turned the repeatable params into arrays).\<close>

definition param_array :: "params \<Rightarrow> string \<Rightarrow> string list option" where
  "param_array ps k = (case obj_get ps k of Some (PList ss) \<Rightarrow> Some ss | Some (PStr s) \<Rightarrow> Some [s] | _ \<Rightarrow> None)"

definition with_channel :: "string \<Rightarrow> string \<Rightarrow> string + string" where
  "with_channel sharedChannel spec =
     (case parseProductSpec spec of
        Inl e \<Rightarrow> Inl e
      | Inr p \<Rightarrow>
          (let ls = filter (\<lambda>l. \<not> is_channel l \<or> l = sharedChannel) (product_labels p);
               ls = (if sharedChannel \<in> set (product_labels p) then ls else ls @ [sharedChannel])
           in Inr (getSpec True (p\<lparr>labels := Some ls\<rparr>))))"

definition getBatchUpdate :: "params \<Rightarrow> string + batch_update" where
  "getBatchUpdate ps =
     (let new_shas = (if shas_latest (param_array ps ''sha'') then [] else the (param_array ps ''sha''));
          specs = (case param_array ps ''product'' of Some ss \<Rightarrow> ss | None \<Rightarrow> DefaultProductSpecs);
          sharedChannel = (case param_array ps ''label'' of None \<Rightarrow> None | Some ls \<Rightarrow> find is_channel ls);
          ls = (case param_array ps ''label'' of None \<Rightarrow> [] | Some ls \<Rightarrow> filter (\<lambda>l. \<not> is_channel l) ls)
      in case (case sharedChannel of None \<Rightarrow> Inr specs | Some c \<Rightarrow> map_throw (with_channel c) specs) of
           Inl e \<Rightarrow> Inl e
         | Inr specs' \<Rightarrow>
             (case map_throw parseProductSpec specs' of
                Inl e \<Rightarrow> Inl e
              | Inr products \<Rightarrow>
                  Inr \<lparr>b_productSpecs = specs',
                       b_labels = (if ''master'' \<in> set ls then filter (\<lambda>l. l \<noteq> ''master'') ls else ls),
                       b_shas = new_shas, b_products = products,
                       b_maxCount = obj_get ps ''max-count'', b_offset = obj_get ps ''offset'',
                       b_from = obj_get ps ''from'', b_to = obj_get ps ''to'',
                       b_aligned = obj_get ps ''aligned'', b_view = obj_get ps ''view'',
                       b_canViewInteropScores = obj_get ps ''canViewInteropScores'',
                       b_master = (''master'' \<in> set ls)\<rparr>))"

text \<open>The UI variant: diffs, search, pull requests and run ids.\<close>

record ui_query = runs_query +
  search_text :: string
  diff :: bool
  diffFilter :: "string option"
  pr :: "param option"
  runIds :: "string list option"

text \<open>\<open>this_diff\<close> and \<open>this_runIds\<close> are the properties of the element, which the method reads too.\<close>

definition computeTestRunUIQueryParams ::
  "param option \<Rightarrow> bool \<Rightarrow> string list \<Rightarrow> ui_query \<Rightarrow> string + params" where
  "computeTestRunUIQueryParams defaultMaxCount this_diff this_runIds q =
     (case computeTestRunQueryParams defaultMaxCount (runs_query.truncate q) of
        Inl e \<Rightarrow> Inl e
      | Inr ps \<Rightarrow>
          (let ps = set_if (diff q \<or> this_diff) ''diff'' (PBool True) ps;
               ps = set_if ((diff q \<or> this_diff) \<and> truthy (diffFilter q)) ''filter''
                      (PStr (the (diffFilter q))) ps;
               ps = set_if (search_text q \<noteq> []) ''q'' (PStr (search_text q)) ps;
               ps = set_if (truthy_param (pr q)) ''pr'' (the (pr q)) ps;
               ps = set_if (runIds q \<noteq> None) ''run_id'' (PList this_runIds) ps
           in Inr ps))"

definition parseUIQuery :: "string \<Rightarrow> params" where
  "parseUIQuery q = as_flag (as_array (parseRunsQuery q) ''run_id'') ''diff''"

text \<open>The update of the UI variant; \<open>search\<close>, \<open>pr\<close> and \<open>diffFilter\<close> are taken as they are.\<close>

record ui_update = batch_update +
  b_pr :: "param option"
  b_search :: "param option"
  b_diff :: bool
  b_diffFilter :: "param option"
  b_runIds :: "string list option"

definition getUIBatchUpdate :: "params \<Rightarrow> string + ui_update" where
  "getUIBatchUpdate ps =
     (case getBatchUpdate ps of
        Inl e \<Rightarrow> Inl e
      | Inr u \<Rightarrow>
          (let d = truthy_param (obj_get ps ''diff'')
           in Inr (batch_update.extend u
                \<lparr>b_pr = obj_get ps ''pr'', b_search = obj_get ps ''q'', b_diff = d,
                 b_diffFilter = (if d then obj_get ps ''filter'' else None),
                 b_runIds = param_array ps ''run_id''\<rparr>)))"

section \<open>Writing and reading params\<close>

text \<open>The query text of one pair, once \<open>=true\<close> is dropped and \<open>+\<close> is \<open>%20\<close>.\<close>

definition pair_text :: "string \<times> string \<Rightarrow> string" where
  "pair_text kv = (if snd kv = ''true'' then form_text (fst kv) else form_text_pair kv)"

lemma replace_all_skip:
  "c \<notin> set a \<Longrightarrow> replace_all (c # p) r (a @ s) = a @ replace_all (c # p) r s"
  by (induction a) auto

lemma replace_true_pair:
  assumes "v = ''true'' \<or> \<not> starts_with v ''true''" and "rest = [] \<or> hd rest = CHR ''&''"
  shows "replace_all ''=true'' [] (form_pair (k, v) @ rest) =
     (if v = ''true'' then form_encode k else form_pair (k, v)) @ replace_all ''=true'' [] rest"
proof -
  have k: "CHR ''='' \<notin> set (form_encode k)" and v: "CHR ''='' \<notin> set (form_encode v)"
    using form_encode_chars by simp_all
  show ?thesis
  proof (cases "v = ''true''")
    case True
    have "form_encode ''true'' = ''true''" by (intro form_encode_letters) (simp add: is_letter_def)
    with True k show ?thesis by (simp add: form_pair_def replace_all_skip)
  next
    case False
    with assms(1) have "\<not> starts_with (form_encode v @ rest) ''true''"
      using starts_with_form_encode [of v rest "''true''"] assms(2) by (auto simp: is_letter_def)
    with False k v show ?thesis by (simp add: form_pair_def replace_all_skip)
  qed
qed

lemma replace_true_pairs:
  assumes "\<forall>(k, v) \<in> set kvs. v = ''true'' \<or> \<not> starts_with v ''true''"
  shows "replace_all ''=true'' [] (join ''&'' (map form_pair kvs)) =
     join ''&'' (map (\<lambda>(k, v). if v = ''true'' then form_encode k else form_pair (k, v)) kvs)"
  using assms
proof (induction kvs)
  case Nil
  then show ?case by simp
next
  case (Cons kv kvs)
  obtain k v where kv: "kv = (k, v)" by (cases kv)
  show ?case
  proof (cases kvs)
    case Nil
    with replace_true_pair [of v "[]" k] Cons.prems kv show ?thesis by simp
  next
    case (Cons kv' kvs')
    then have "replace_all ''=true'' [] (''&'' @ s) = ''&'' @ replace_all ''=true'' [] s" for s
      by (intro replace_all_skip) simp
    with replace_true_pair [of v "''&'' @ join ''&'' (map form_pair kvs)" k] Cons.IH Cons.prems Cons kv
    show ?thesis by (simp add: join_Cons)
  qed
qed

lemma replace_plus_join:
  "replace_all ''+'' r (join ''&'' ws) = join ''&'' (map (replace_all ''+'' r) ws)"
  by (induction ws rule: induct_list012) auto

lemma replace_plus_pair:
  "replace_all ''+'' ''%20'' (if v = ''true'' then form_encode k else form_pair (k, v)) = pair_text (k, v)"
  by (simp add: pair_text_def form_pair_def form_text_pair_def form_encode_plus)

lemma drop_zero_seconds_absent: "CHR '':'' \<notin> set s \<Longrightarrow> drop_zero_seconds s = s"
  by (induction s) auto

lemma pair_text_chars: "c \<in> {CHR ''&'', CHR ''?'', CHR ''+''} \<Longrightarrow> c \<notin> set (pair_text kv)"
  using form_text_chars [of c] by (auto simp: pair_text_def form_text_pair_def)

lemma join_absent: "c \<notin> set sep \<Longrightarrow> \<forall>w \<in> set ws. c \<notin> set w \<Longrightarrow> c \<notin> set (join sep ws)"
  using set_join_subset [of sep ws] by blast

lemma query_text:
  assumes "kvs \<noteq> []" and "\<forall>(k, v) \<in> set kvs. v = ''true'' \<or> \<not> starts_with v ''true''"
  shows "elem_at (split_on (CHR ''?'') (replace_all ''+'' ''%20'' (drop_zero_seconds
           (replace_all ''=true'' [] (url_search kvs))))) 1 = Some (join ''&'' (map pair_text kvs))"
proof -
  let ?ws = "map (\<lambda>(k, v). if v = ''true'' then form_encode k else form_pair (k, v)) kvs"
  have "replace_all ''=true'' [] (url_search kvs) = ''?'' @ join ''&'' ?ws"
    using assms replace_all_skip [of "CHR ''=''" "''?''"] replace_true_pairs [OF assms(2)]
    by (simp add: url_search_def form_serialize_def)
  moreover have "CHR '':'' \<notin> set (''?'' @ join ''&'' ?ws)"
    using form_encode_chars [of "CHR '':''"] by (auto simp: form_pair_def split: if_splits dest!: set_mp [OF set_join_subset])
  moreover have "replace_all ''+'' ''%20'' (''?'' @ join ''&'' ?ws) = ''?'' @ join ''&'' (map pair_text kvs)"
    by (simp add: replace_plus_join comp_def case_prod_unfold replace_plus_pair [simplified])
  moreover have "CHR ''?'' \<notin> set (join ''&'' (map pair_text kvs))"
    using pair_text_chars by (intro join_absent) auto
  ultimately show ?thesis by (simp add: drop_zero_seconds_absent elem_at_def)
qed

text \<open>Pairs as encoded values, separated by \<open>&\<close>.\<close>

definition reread_pair :: "string \<times> string \<Rightarrow> string \<times> string" where
  "reread_pair kv = (fst kv, if snd kv = ''true'' then [] else snd kv)"

interpretation query_pair: separated_codec "\<lambda>_. True" pair_text form_unpair reread_pair "CHR ''&''"
  by unfold_locales
    (auto simp: pair_text_def reread_pair_def form_unpair_key form_unpair_text form_text_pair_def
      form_text_chars)

lemma form_parse_text:
  assumes "kvs \<noteq> []" and "\<forall>(k, v) \<in> set kvs. k \<noteq> []"
  shows "form_parse (join ''&'' (map pair_text kvs)) = map reread_pair kvs"
proof -
  have ne: "\<forall>w \<in> set (map pair_text kvs). w \<noteq> []"
    using assms(2) by (fastforce simp: pair_text_def form_text_pair_def)
  have q: "\<not> starts_with (join ''&'' (map pair_text kvs)) ''?''"
  proof -
    have "CHR ''?'' \<notin> set (join ''&'' (map pair_text kvs))"
      using pair_text_chars by (intro join_absent) auto
    then show ?thesis by (cases "join ''&'' (map pair_text kvs)") auto
  qed
  have "filter (\<lambda>p. p \<noteq> []) (split_on (CHR ''&'') (join ''&'' (map pair_text kvs))) = map pair_text kvs"
    using query_pair.split_joined [of kvs] assms(1) ne by (simp add: filter_id_conv)
  with q show ?thesis
    using query_pair.decode_joined [of kvs] query_pair.split_joined [of kvs] assms(1)
    by (simp add: form_parse_def)
qed

text \<open>Grouping pairs by key undoes spreading the values of each key.\<close>

lemma nub_from_same: "k \<in> set seen \<Longrightarrow> nub_from seen (map (\<lambda>_. k) vs @ rest) = nub_from seen rest"
  by (induction vs) auto

lemma nub_from_keys:
  "distinct (obj_keys items) \<Longrightarrow> set (obj_keys items) \<inter> set seen = {} \<Longrightarrow>
   \<forall>(k, vs) \<in> set items. vs \<noteq> [] \<Longrightarrow>
     nub_from seen (map fst (concat (map (\<lambda>(k, vs). map (Pair k) vs) items))) = obj_keys items"
proof (induction items arbitrary: seen)
  case Nil
  then show ?case by simp
next
  case (Cons item items)
  obtain k v vs where item: "item = (k, v # vs)"
    using Cons.prems(3) by (cases item) (auto simp: neq_Nil_conv)
  have k: "k \<notin> set seen" using Cons.prems(2) item by auto
  have "map fst (map (Pair k) vs) = map (\<lambda>_. k) vs" by (simp add: comp_def)
  with nub_from_same [of k "k # seen" vs] Cons.IH [of "k # seen"] Cons.prems item k
  show ?case by (simp add: comp_def)
qed

lemma filter_keys:
  fixes items :: "(string \<times> string list) list"
  shows "distinct (obj_keys items) \<Longrightarrow> (k, vs) \<in> set items \<Longrightarrow>
     map snd (filter (\<lambda>kv. fst kv = k) (concat (map (\<lambda>(k, vs). map (Pair k) vs) items))) = vs"
proof (induction items)
  case Nil
  then show ?case by simp
next
  case (Cons item items)
  have other: "filter (\<lambda>kv. fst kv = k) (concat (map (\<lambda>(k, vs). map (Pair k) vs) xs)) = []"
    if "k \<notin> fst ` set xs" for xs :: "(string \<times> string list) list"
    using that by (induction xs) (auto simp: filter_empty_conv)
  obtain k' vs' where item: "item = (k', vs')" by (cases item)
  show ?case
  proof (cases "k' = k")
    case True
    with Cons.prems item have "vs' = vs" "k \<notin> fst ` set items" by (force, force)
    with True item other show ?thesis by (simp add: comp_def filter_True)
  next
    case False
    with Cons item have "filter (\<lambda>kv. fst kv = k) (map (Pair k') vs') = []"
      by (auto simp: filter_empty_conv)
    with False Cons item show ?thesis by auto
  qed
qed

definition un_true :: "string \<Rightarrow> string" where
  "un_true s = (if s = ''true'' then [] else s)"

definition spread :: "params \<Rightarrow> (string \<times> string list) list" where
  "spread params = map (\<lambda>(k, v). (k, map un_true (param_values v))) params"

lemma reread_pairs:
  "map reread_pair (param_pairs params) = concat (map (\<lambda>(k, vs). map (Pair k) vs) (spread params))"
  by (induction params) (auto simp: param_pairs_def spread_def reread_pair_def un_true_def)

lemma show_nat_not_true: "\<not> starts_with (show_nat n) ''true''"
proof (cases "show_nat n")
  case (Cons c s)
  then have "is_digit c" using show_nat_digits [of c n] by simp
  with Cons show ?thesis by (auto simp: is_digit_def)
qed simp

lemma un_true_values:
  "writable_value v \<Longrightarrow>
     (let vs = map un_true (param_values v) in if length vs > 1 then PList vs else PStr (hd vs)) = reread v"
proof (cases v)
  case (PList ss)
  assume "writable_value v"
  with PList have ss: "ss \<noteq> []" "\<forall>s \<in> set ss. \<not> starts_with s ''true''"
    by (auto simp: writable_value_def list_all_iff)
  then have "map un_true ss = ss" by (intro map_idI) (auto simp: un_true_def)
  with ss(1) PList show ?thesis by (cases ss; cases "tl ss") (auto simp: reread_def param_values_def)
qed (auto simp: writable_value_def param_values_def reread_def un_true_def show_nat_not_true
    dest: arg_cong [of _ _ "\<lambda>s. starts_with s ''true''"])

lemma query_roundtrip:
  assumes "writable params"
  shows "\<exists>q. computeQuery params = Some q \<and> parseParams q = map (\<lambda>(k, v). (k, reread v)) params"
proof -
  have d: "distinct (obj_keys params)" and ne: "params \<noteq> []"
    and w: "\<And>k v. (k, v) \<in> set params \<Longrightarrow> k \<noteq> [] \<and> writable_value v"
    using assms by (auto simp: writable_def list_all_iff)
  let ?kvs = "param_pairs params"
  have vals: "param_values v \<noteq> [] \<and> (\<forall>s \<in> set (param_values v). s = ''true'' \<or> \<not> starts_with s ''true'')"
    if "writable_value v" for v
    using that show_nat_not_true
    by (auto simp: writable_value_def param_values_def list_all_iff split: param.splits)
  have k: "?kvs \<noteq> []" using ne w vals by (cases params) (auto simp: param_pairs_def)
  have "\<forall>(k, v) \<in> set ?kvs. v = ''true'' \<or> \<not> starts_with v ''true''"
    using w vals by (fastforce simp: param_pairs_def)
  from query_text [OF k this]
  have q: "computeQuery params = Some (join ''&'' (map pair_text ?kvs))"
    using ne by (simp add: computeQuery_def Let_def)
  have "\<forall>(k, v) \<in> set ?kvs. k \<noteq> []" using w by (auto simp: param_pairs_def)
  from form_parse_text [OF k this]
  have parse: "form_parse (join ''&'' (map pair_text ?kvs)) =
      concat (map (\<lambda>(k, vs). map (Pair k) vs) (spread params))"
    by (simp add: reread_pairs)
  have keys: "obj_keys (spread params) = obj_keys params" by (auto simp: spread_def)
  have sne: "\<forall>(k, vs) \<in> set (spread params). vs \<noteq> []"
    using w vals by (fastforce simp: spread_def)
  have "nub (map fst (concat (map (\<lambda>(k, vs). map (Pair k) vs) (spread params)))) = obj_keys params"
    unfolding nub_def using nub_from_keys [of "spread params" "[]"] keys d sne by simp
  moreover define g where "g k = (let vs = map snd (filter (\<lambda>kv. fst kv = k)
         (concat (map (\<lambda>(k, vs). map (Pair k) vs) (spread params))))
       in if length vs > 1 then PList vs else PStr (hd vs))" for k
  moreover have "g k = reread v" if "(k, v) \<in> set params" for k v
  proof -
    have "(k, map un_true (param_values v)) \<in> set (spread params)"
      using that by (force simp: spread_def)
    from filter_keys [OF _ this] keys d
    show ?thesis unfolding g_def using un_true_values [of v] w [OF that] by simp
  qed
  ultimately have "parseParams (join ''&'' (map pair_text ?kvs)) = map (\<lambda>k. (k, g k)) (obj_keys params)"
    by (simp add: parseParams_def parse Let_def)
  also have "\<dots> = map (\<lambda>(k, v). (k, reread v)) params"
    using \<open>\<And>v k. (k, v) \<in> set params \<Longrightarrow> g k = reread v\<close> by auto
  finally have "parseParams (join ''&'' (map pair_text ?kvs)) = map (\<lambda>(k, v). (k, reread v)) params" .
  with q show ?thesis by blast
qed

section \<open>A shared channel\<close>

text \<open>
  \<open>channelled c p\<close>: a canonical product that a spec can denote, with \<open>c\<close> as its only channel
  and last label.
\<close>

definition channelled :: "string \<Rightarrow> product \<Rightarrow> bool" where
  "channelled c p =
     (specifiable p \<and> canonical p = p \<and> CHR '','' \<notin> set (browser_name p) \<and>
      (\<exists>ls. labels p = Some (ls @ [c]) \<and> (\<forall>l \<in> set ls. \<not> is_channel l)))"

definition without_channels :: "product \<Rightarrow> product" where
  "without_channels p = p\<lparr>labels := Some (filter (\<lambda>l. \<not> is_channel l) (product_labels p))\<rparr>"

lemma find_last: "\<forall>x \<in> set xs. \<not> P x \<Longrightarrow> P y \<Longrightarrow> find P (xs @ [y]) = Some y"
  by (induction xs) auto

lemma channelled_labels:
  assumes "channelled c p" and "is_channel c"
  obtains ls where "labels p = Some (ls @ [c])" "product_labels p = ls @ [c]"
    "\<forall>l \<in> set ls. \<not> is_channel l" "c \<notin> set ls"
    "without_channels p = p\<lparr>labels := Some ls\<rparr>"
proof -
  obtain ls where ls: "labels p = Some (ls @ [c])" "\<forall>l \<in> set ls. \<not> is_channel l"
    using assms(1) by (auto simp: channelled_def)
  moreover have "filter (\<lambda>l. \<not> is_channel l) ls = ls" using ls(2) by (simp add: filter_id_conv)
  ultimately show thesis
    using assms(2) that [of ls] by (auto simp: without_channels_def product_labels_def)
qed

lemma without_channels_specifiable:
  assumes "channelled c p" and "is_channel c"
  shows "specifiable (without_channels p)" "canonical (without_channels p) = without_channels p"
proof -
  obtain ls where ls: "labels p = Some (ls @ [c])" "without_channels p = p\<lparr>labels := Some ls\<rparr>"
    using channelled_labels [OF assms] by blast
  show "specifiable (without_channels p)"
    using assms(1) ls by (auto simp: channelled_def specifiable_def)
  show "canonical (without_channels p) = without_channels p"
    using assms(1) ls by (cases p) (auto simp: channelled_def canonical_def)
qed

lemma collapse_channelled:
  assumes "\<forall>p \<in> set ps. channelled c p" and "ps \<noteq> []" and "is_channel c"
  shows "collapse_channel ps = (map (\<lambda>p. getSpec True (without_channels p)) ps, Some c)"
proof -
  have f: "find is_channel (product_labels p) = Some c" "find (\<lambda>l. Some l = Some c) (product_labels p) = Some c"
    if "p \<in> set ps" for p
  proof -
    have cp: "channelled c p" using assms(1) that by blast
    obtain ls where "labels p = Some (ls @ [c])" "product_labels p = ls @ [c]"
      "\<forall>l \<in> set ls. \<not> is_channel l" "c \<notin> set ls" "without_channels p = p\<lparr>labels := Some ls\<rparr>"
      by (rule channelled_labels [OF cp assms(3)])
    then show "find is_channel (product_labels p) = Some c"
      "find (\<lambda>l. Some l = Some c) (product_labels p) = Some c"
      using assms(3) find_last [of ls is_channel c] find_last [of ls "\<lambda>l. Some l = Some c" c] by auto
  qed
  then have "list_all (\<lambda>p. find (\<lambda>l. Some l = Some c) (product_labels p) \<noteq> None) ps"
    by (simp add: list_all_iff)
  moreover have "find is_channel (product_labels (hd ps)) = Some c" using f(1) assms(2) by simp
  ultimately show ?thesis by (simp add: collapse_channel_def without_channels_def)
qed

lemma with_channel_restores:
  assumes "channelled c p" and "is_channel c"
  shows "with_channel c (getSpec True (without_channels p)) = Inr (getSpec True p)"
proof -
  obtain ls where ls: "labels p = Some (ls @ [c])" "\<forall>l \<in> set ls. \<not> is_channel l" "c \<notin> set ls"
    "without_channels p = p\<lparr>labels := Some ls\<rparr>"
    by (rule channelled_labels [OF assms])
  have "filter (\<lambda>l. \<not> is_channel l \<or> l = c) ls = ls" using ls(2) by (simp add: filter_id_conv)
  moreover have "getSpec True (p\<lparr>labels := Some (ls @ [c])\<rparr>) = getSpec True p"
    using ls(1) by (simp add: getSpec_parts)
  ultimately show ?thesis
    using ls specs.parse_print [OF without_channels_specifiable(1) [OF assms]]
      without_channels_specifiable(2) [OF assms]
    by (simp add: with_channel_def product_labels_def)
qed

lemma map_throw_Inr: "(\<And>x. x \<in> set xs \<Longrightarrow> f x = Inr (g x)) \<Longrightarrow> map_throw f xs = Inr (map g xs)"
  by (induction xs) auto

text \<open>If the collapsed specs read like the default products then they are these.\<close>

lemma default_specs_unique:
  assumes "\<forall>p \<in> set ps. CHR '','' \<notin> set (browser_name p)" and "ps \<noteq> []"
    and "computeIsDefaultProducts (Some (map (getSpec True) ps))"
  shows "map (getSpec True) ps = DefaultProductSpecs"
proof -
  let ?specs = "map (getSpec True) ps"
  have j: "join '','' ?specs = ''chrome,edge,firefox,safari''"
    using assms(2,3) by (simp add: computeIsDefaultProducts_def DefaultProductSpecs_def DefaultBrowserNames_def)
  have "CHR '','' \<notin> set (getSpec True p)" if p: "p \<in> set ps" for p
  proof -
    have "c \<notin> set (getSpec True p)" if "c \<notin> set ''chrome,edge,firefox,safari''" for c
    proof -
      have "getSpec True p \<in> set ?specs" using p by simp
      from in_join_subset [OF this, of "'',''"]
      have "set (getSpec True p) \<subseteq> set ''chrome,edge,firefox,safari''" unfolding j .
      with that show ?thesis by blast
    qed
    then have "CHR ''-'' \<notin> set (getSpec True p)" "CHR ''['' \<notin> set (getSpec True p)"
      "CHR ''@'' \<notin> set (getSpec True p)" by simp_all
    then have "version_part (browser_version p) = []"
      "labels_part (case labels p of None \<Rightarrow> [] | Some ls \<Rightarrow> ls) = []" "revision_part (revision p) = []"
      unfolding getSpec_parts version_part_def labels_part_def revision_part_def
      by (simp_all split: if_splits)
    then show ?thesis using assms(1) p by (simp add: getSpec_parts)
  qed
  then have "split_on (CHR '','') (join '','' ?specs) = ?specs"
    using assms(2) by (intro split_on_join) auto
  moreover have "split_on (CHR '','') ''chrome,edge,firefox,safari'' = DefaultProductSpecs"
    by code_simp
  ultimately show ?thesis by (simp only: j)
qed

lemma map_throw_map: "map_throw f (map g xs) = map_throw (\<lambda>x. f (g x)) xs"
  by (induction xs) (auto split: sum.split)

lemma set_if_get: "obj_get (set_if b k v ps) k' = (if b \<and> k' = k then Some v else obj_get ps k')"
  by (simp add: set_if_def obj_get_set)

lemma map_throw_parse_channelled:
  "\<forall>p \<in> set ps. channelled c p \<Longrightarrow> map_throw parseProductSpec (map (getSpec True) ps) = Inr ps"
  using specs.parse_all [of ps] by (simp add: channelled_def map_idI)

lemma channel_restored:
  assumes ch: "\<forall>p \<in> set ps. channelled c p" "ps \<noteq> []" "is_channel c"
    and specs: "productSpecs q = Some (map (getSpec True) ps)"
    and lbls: "\<forall>l \<in> set (case label_list q of None \<Rightarrow> [] | Some l \<Rightarrow> l). \<not> is_channel l"
  shows "\<exists>params u. computeTestRunQueryParams d q = Inr params \<and> getBatchUpdate params = Inr u \<and>
    b_productSpecs u = map (getSpec True) ps \<and> b_products u = ps \<and>
    b_labels u = filter (\<lambda>l. l \<noteq> ''master'') (all_labels (master q) (label_list q)) \<and>
    (b_master u \<longleftrightarrow> ''master'' \<in> set (all_labels (master q) (label_list q)))"
proof -
  let ?ls = "all_labels (master q) (label_list q)"
  let ?specs = "map (\<lambda>p. getSpec True (without_channels p)) ps"
  have ls: "\<forall>l \<in> set ?ls. \<not> is_channel l"
    using lbls by (auto simp: all_labels_def Let_def is_channel_def Channels_def split: option.splits if_splits)
  then have c: "c \<notin> set ?ls" using ch(3) by auto
  obtain p0 ps' where ps: "ps = p0 # ps'" using ch(2) by (cases ps) auto
  have parse: "map_throw parseProductSpec (map (getSpec True) ps) = Inr ps"
    using ch(1) by (rule map_throw_parse_channelled)
  obtain params where params: "computeTestRunQueryParams d q = Inr params"
    and lab: "obj_get params ''label'' = Some (PList (?ls @ [c]))"
    and prod: "obj_get params ''product'' =
       (if computeIsDefaultProducts (Some ?specs) then None else Some (PList ?specs))"
    using c specs parse collapse_channelled [OF ch]
    by (auto simp: computeTestRunQueryParams_def Let_def ps set_if_get)
  define ls' lab' where "ls' = ?ls" and "lab' = ls' @ [c]"
  have find: "find is_channel lab' = Some c"
    unfolding lab'_def ls'_def by (rule find_last [OF ls ch(3)])
  have filter: "filter (\<lambda>l. \<not> is_channel l) lab' = ls'"
    using ls ch(3) by (simp add: filter_id_conv lab'_def ls'_def)
  have master: "(if ''master'' \<in> set ls' then filter (\<lambda>l. l \<noteq> ''master'') ls' else ls') =
      filter (\<lambda>l. l \<noteq> ''master'') ls'"
    by (auto intro!: filter_True [symmetric])
  have label: "param_array params ''label'' = Some lab'"
    using lab by (simp add: param_array_def lab'_def ls'_def)
  have default: "DefaultProductSpecs = ?specs" if "computeIsDefaultProducts (Some ?specs)"
  proof -
    have "\<forall>p \<in> set (map without_channels ps). CHR '','' \<notin> set (browser_name p)"
      using ch(1) by (auto simp: channelled_def without_channels_def)
    with that default_specs_unique [of "map without_channels ps"] ch(2) show ?thesis
      by (simp add: comp_def)
  qed
  then have "(case param_array params ''product'' of Some ss \<Rightarrow> ss | None \<Rightarrow> DefaultProductSpecs) = ?specs"
    using prod by (simp add: param_array_def)
  moreover have "map_throw (with_channel c) ?specs = Inr (map (getSpec True) ps)"
    unfolding map_throw_map using with_channel_restores ch(1,3) by (intro map_throw_Inr) blast
  ultimately obtain u where "getBatchUpdate params = Inr u"
    "b_productSpecs u = map (getSpec True) ps" "b_products u = ps"
    "b_labels u = filter (\<lambda>l. l \<noteq> ''master'') ls'" "b_master u \<longleftrightarrow> ''master'' \<in> set ls'"
    using find label parse by (auto simp: getBatchUpdate_def Let_def filter master)
  with params show ?thesis unfolding ls'_def by blast
qed

text \<open>What dropping \<open>=true\<close> does to a value that only begins with \<open>true\<close>.\<close>

lemma form_text_append: "form_text (a @ b) = form_text a @ form_text b"
  by (simp add: form_text_def percent_encode_def)

lemma true_prefix_query: "computeQuery [(k, PStr (''true'' @ v))] = Some (form_text (k @ v))"
proof -
  have "form_encode (''true'' @ v) = ''true'' @ form_encode v"
    using form_encode_letters [of "''true''"] by (simp add: form_encode_def is_letter_def)
  then have "url_search (param_pairs [(k, PStr (''true'' @ v))]) =
      (''?'' @ form_encode k) @ ''=true'' @ form_encode v"
    by (simp add: url_search_def param_pairs_def param_values_def form_serialize_def form_pair_def)
  moreover have "replace_all ''=true'' [] ((''?'' @ form_encode k) @ ''=true'' @ form_encode v) =
      ''?'' @ form_encode k @ form_encode v"
    using form_encode_chars [of "CHR ''=''"] replace_all_skip [of "CHR ''=''" "form_encode v" _ _ "[]"]
    by (subst replace_all_skip) simp_all
  moreover have "drop_zero_seconds (''?'' @ form_encode k @ form_encode v) = ''?'' @ form_encode k @ form_encode v"
    using form_encode_chars [of "CHR '':''"] by (intro drop_zero_seconds_absent) simp
  moreover have "replace_all ''+'' ''%20'' (''?'' @ form_encode k @ form_encode v) = ''?'' @ form_text (k @ v)"
    by (simp add: form_encode_plus form_text_append)
  moreover have "split_on (CHR ''?'') (''?'' @ form_text (k @ v)) = [[], form_text (k @ v)]"
    using form_text_chars [of "CHR ''?''" "k @ v"] by simp
  ultimately show ?thesis by (simp add: computeQuery_def Let_def elem_at_def)
qed

lemma parse_key:
  assumes "k \<noteq> []"
  shows "parseParams (form_text k) = [(k, PStr [])]"
proof -
  have "form_parse (join ''&'' (map pair_text [(k, ''true'')])) = map reread_pair [(k, ''true'')]"
    by (rule form_parse_text) (use assms in auto)
  then have "form_parse (form_text k) = [(k, [])]" by (simp add: pair_text_def reread_pair_def)
  then show ?thesis by (simp add: parseParams_def nub_def)
qed

section \<open>Properties\<close>



text \<open>
  A value that begins with \<open>true\<close> is corrupted: the rest of it ends up in the key.
\<close>

lemma query_params_true_prefix:
  assumes "k \<noteq> []"
  shows "\<exists>q. computeQuery [(k, PStr (''true'' @ v))] = Some q \<and> parseParams q = [(k @ v, PStr [])]"
  using true_prefix_query [of k v] parse_key [of "k @ v"] assms by simp

lemma query_params_true_prefix_witness:
  "\<exists>q. computeQuery [(''q'', PStr ''truetype'')] = Some q \<and> parseParams q = [(''qtype'', PStr [])]"
  using query_params_true_prefix [of "''q''" "''type''"] by simp

text \<open>
  A channel that all products share is collapsed into a label of the query, and updating
  the UI from these params restores the very same product specs and products, and the labels
  and the \<open>master\<close> flag.
\<close>

lemma shared_channel_restored:
  assumes "\<forall>p \<in> set ps. channelled c p" "ps \<noteq> []" "is_channel c"
    and "productSpecs q = Some (map (getSpec True) ps)"
    and "\<forall>l \<in> set (case label_list q of None \<Rightarrow> [] | Some l \<Rightarrow> l). \<not> is_channel l"
  shows "\<exists>params u. computeTestRunQueryParams d q = Inr params \<and> getBatchUpdate params = Inr u \<and>
    b_productSpecs u = map (getSpec True) ps \<and> b_products u = ps \<and>
    b_labels u = filter (\<lambda>l. l \<noteq> ''master'') (all_labels (master q) (label_list q)) \<and>
    (b_master u \<longleftrightarrow> ''master'' \<in> set (all_labels (master q) (label_list q)))"
  using assms by (rule channel_restored)

lemma shared_channel_restored_witness:
  "let p = \<lparr>browser_name = ''chrome'', browser_version = Some ''99'', labels = Some [''a'', ''beta''], revision = Some []\<rparr>;
       q = \<lparr>shas = None, aligned = True, master = True, label_list = Some [''x''],
            productSpecs = Some [getSpec True p], to_date = None, from_date = None,
            maxCount = None, offset = None, view = None\<rparr>
   in \<exists>params u. computeTestRunQueryParams None q = Inr params \<and> getBatchUpdate params = Inr u \<and>
        b_productSpecs u = [getSpec True p] \<and> b_labels u = [''x''] \<and> b_master u"
  using shared_channel_restored
    [of "[\<lparr>browser_name = ''chrome'', browser_version = Some ''99'', labels = Some [''a'', ''beta''], revision = Some []\<rparr>]"
      "''beta''"
      "\<lparr>shas = None, aligned = True, master = True, label_list = Some [''x''],
        productSpecs = Some [getSpec True \<lparr>browser_name = ''chrome'', browser_version = Some ''99'',
          labels = Some [''a'', ''beta''], revision = Some []\<rparr>],
        to_date = None, from_date = None, maxCount = None, offset = None, view = None\<rparr>" None]
  by (simp add: channelled_def specifiable_def canonical_def truthy_def is_channel_def Channels_def
      all_labels_def Let_def) blast

end
