(* ===== verification/PathNav.thy ===== *)
theory PathNav
  imports JsRegex QueryParams
begin

text \<open>
  \<^verbatim>\<open>webapp/components/path.js\<close> (PathInfo, PathPart) and \<^verbatim>\<open>webapp/components/self-navigator.js\<close>
  (SelfNavigation): paths of tests and folders, their encoding in URLs, and navigation between
  them with the history of the browser. \<open>None\<close> stands for an exception of
  \<^verbatim>\<open>decodeURIComponent\<close>.
\<close>

section \<open>Path names of URLs\<close>

text \<open>
  \<open>url_pathname base path\<close> is \<^verbatim>\<open>new URL(path, location).pathname\<close> for a location whose path is
  \<open>base\<close>, of a scheme with slashes: white space at the ends, tabs and line breaks go, query and
  fragment are cut, dot segments are resolved, and the characters of the path percent-encode
  set are encoded. Paths that begin with a scheme of their own are outside the model.
\<close>

definition strip_url :: "string \<Rightarrow> string" where
  "strip_url s =
     filter (\<lambda>c. c \<notin> {CHR 0x09, CHR 0x0A, CHR 0x0D})
       (rev (dropWhile (\<lambda>c. (of_char c :: nat) \<le> 32)
              (rev (dropWhile (\<lambda>c. (of_char c :: nat) \<le> 32) s))))"

definition path_keep :: "char \<Rightarrow> bool" where
  "path_keep c =
     (let n = of_char c :: nat
      in 33 \<le> n \<and> n \<le> 126 \<and> c \<notin> {CHR 0x22, CHR ''#'', CHR ''<'', CHR ''>'', CHR ''?'', CHR 0x60, CHR ''{'', CHR ''}''})"

definition dot_segment :: "string \<Rightarrow> bool" where
  "dot_segment s = (to_lower s \<in> {''.'', ''%2e''})"

definition double_dot_segment :: "string \<Rightarrow> bool" where
  "double_dot_segment s = (to_lower s \<in> {''..'', ''.%2e'', ''%2e.'', ''%2e%2e''})"

text \<open>The segments read so far, reversed, and the segments to come.\<close>

fun resolve_segments :: "string list \<Rightarrow> string list \<Rightarrow> string list" where
  "resolve_segments acc [] = rev acc"
| "resolve_segments acc (s # ss) =
     (let acc' = (if double_dot_segment s then drop 1 acc
                  else if dot_segment s then acc else percent_encode (\<lambda>c. path_keep c) s # acc)
      in if (double_dot_segment s \<or> dot_segment s) \<and> ss = [] then rev ([] # acc')
         else resolve_segments acc' ss)"

definition url_pathname :: "string \<Rightarrow> string \<Rightarrow> string" where
  "url_pathname base path =
     (let s = map (\<lambda>c. if c = CHR 0x5C then CHR ''/'' else c)
                (takeWhile (\<lambda>c. c \<notin> {CHR ''?'', CHR ''#''}) (strip_url path));
          segments =
            (if s = [] then drop 1 (split_on (CHR ''/'') base)
             else if starts_with s ''//'' then
               drop 1 (split_on (CHR ''/'') (drop 2 s))
             else if starts_with s ''/'' then drop 1 (split_on (CHR ''/'') s)
             else butlast (drop 1 (split_on (CHR ''/'') base)) @ split_on (CHR ''/'') s)
      in if s = [] then base
         else CHR ''/'' # join ''/'' (resolve_segments [] segments))"

section \<open>PathInfo\<close>

definition encodeTestPath :: "string \<Rightarrow> string option \<Rightarrow> string" where
  "encodeTestPath base path0 =
     (let path = or_else path0 ''/'';
          parts = butlast (split_on (CHR ''/'') (url_pathname base path));
          lastPart = drop (length (join ''/'' parts) + 1) path
      in join ''/'' (parts @ [encodeURIComponent lastPart]))"

definition computeTestScheme :: "string option \<Rightarrow> string" where
  "computeTestScheme path =
     (if list_ex (\<lambda>x. str_includes (or_else path []) x) [''.https.'', ''.serviceworker.'']
      then ''https'' else ''http'')"

definition testFilePattern :: regex where
  "testFilePattern = \<lparr>ignore_case = False, pattern_of = RGroup 1 (rseq
     [RChr (CHR ''.''),
      RGroup 2 (ralt (map rstr [''html'', ''htm'', ''py'', ''svg'', ''xhtml'', ''xht'', ''xml''])),
      ROpt (RGroup 3 (RSeq (RChr (CHR ''?'')) (RStar (rnset [CHR 0x0A, CHR 0x0D])))),
      REnd])\<rparr>"

definition computePathIsATestFile :: "string \<Rightarrow> string option \<Rightarrow> bool" where
  "computePathIsATestFile base path = test testFilePattern (url_pathname base (or_else path []))"

definition computePathIsASubfolder :: "string \<Rightarrow> string option \<Rightarrow> bool" where
  "computePathIsASubfolder base path =
     (if \<not> truthy path \<or> computePathIsATestFile base path then False
      else length (filter (\<lambda>p. p \<noteq> []) (split_on (CHR ''/'') (url_pathname base (the path)))) > 0)"

definition computePathIsRootDir :: "string option \<Rightarrow> bool" where
  "computePathIsRootDir path = (truthy path \<and> path = Some ''/'')"

definition isParentDir :: "string \<Rightarrow> string \<Rightarrow> bool" where
  "isParentDir path dir =
     (if starts_with dir path
      then length (filter (\<lambda>p. p \<noteq> []) (split_on (CHR ''/'') (drop (length path) dir))) = 1
      else False)"

text \<open>\<open>substring(0, -1)\<close> is empty.\<close>

definition getDirname :: "string option \<Rightarrow> string" where
  "getDirname path0 =
     (let path = or_else path0 ''/''
      in case last_index_of path ''/'' of None \<Rightarrow> [] | Some i \<Rightarrow> take i path)"

text \<open>A linked part: its name and its path. The paths grow from left to right.\<close>

fun linked_parts :: "string \<Rightarrow> string list \<Rightarrow> (string \<times> string) list" where
  "linked_parts path [] = []"
| "linked_parts path (part # parts) =
     (let path' = path @ ''/'' @ part in (part, path') # linked_parts path' parts)"

definition splitPathIntoLinkedParts :: "string \<Rightarrow> string option \<Rightarrow> (string \<times> string) list option" where
  "splitPathIntoLinkedParts base inputPath =
     (let encoded = drop 1 (encodeTestPath base inputPath)
      in if encoded = [] then Some []
         else
           (let parts = linked_parts [] (split_on (CHR ''/'') encoded);
                (nm, path) = last parts
            in map_option (\<lambda>decoded. butlast parts @ [(decoded, path)]) (decodeURIComponent nm)))"

section \<open>PathPart\<close>

text \<open>A location: path name and search.\<close>

record location =
  pathname :: string
  search :: string

datatype href = NoLink | Href location

definition computeHref :: "location \<Rightarrow> string option \<Rightarrow> string option \<Rightarrow> string option \<Rightarrow> bool \<Rightarrow> bool \<Rightarrow> href" where
  "computeHref window pre path q isTriageMode pathIsATestFile =
     (if isTriageMode \<and> pathIsATestFile then NoLink
      else
        (let encodedPath = encodeTestPath (pathname window) path;
             h = window\<lparr>pathname := url_pathname (pathname window) (or_else pre [] @ encodedPath)\<rparr>
         in Href (if truthy q then h\<lparr>search := ''?'' @ the q\<rparr> else h)))"

definition computePathClass :: "bool \<Rightarrow> string" where
  "computePathClass isDir = (if isDir then ''dir-path'' else ''file-path'')"

text \<open>The displayed name of a file.\<close>

definition displayableFileName :: "string \<Rightarrow> string option \<Rightarrow> string option" where
  "displayableFileName base path =
     (let p = encodeTestPath base (Some (or_else path []))
      in decodeURIComponent (case last_index_of p ''/'' of None \<Rightarrow> p | Some i \<Rightarrow> drop (i + 1) p))"

text \<open>
  The displayed name of a folder: its path without that of the page, which is made a pattern as it is. A dot
  stands for any character; \<open>None\<close>: the pattern has characters with another meaning, which are not modelled.
\<close>

definition path_pattern :: "string \<Rightarrow> re option" where
  "path_pattern s =
     map_option rseq
       (those (map (\<lambda>c. if c = CHR ''.'' then Some (rnset [CHR 0x0A, CHR 0x0D])
                      else if c \<in> set ''^$*+?()[]{}|'' \<or> c = CHR 0x5C then None else Some (RChr c)) s))"

definition displayableDirName :: "location \<Rightarrow> string option \<Rightarrow> string \<Rightarrow> string option" where
  "displayableDirName window pre path =
     (let windowPath = replace_first (or_else pre []) [] (pathname window)
      in map_option
           (\<lambda>pat. replace_match \<lparr>ignore_case = False, pattern_of = RSeq RBegin pat\<rparr> (\<lambda>_. []) path @ ''/'')
           (path_pattern (windowPath @ (if ends_with windowPath ''/'' then [] else ''/''))))"

definition computeDisplayableRelativePath :: "location \<Rightarrow> string option \<Rightarrow> bool \<Rightarrow> string option \<Rightarrow> string option" where
  "computeDisplayableRelativePath window pre isDir path =
     (if \<not> isDir then displayableFileName (pathname window) path
      else displayableDirName window pre (or_else path []))"

section \<open>SelfNavigation\<close>

text \<open>\<open>parts.pop()\<close> of an empty array is \<open>undefined\<close>, which the encoder and decoder print.\<close>

definition popped :: "string list \<Rightarrow> string" where
  "popped parts = (if parts = [] then ''undefined'' else last parts)"

definition encodePath :: "string \<Rightarrow> string" where
  "encodePath path =
     (let parts = drop 1 (split_on (CHR ''/'') path)
      in ''/'' @ join ''/'' (butlast parts @ [encodeURIComponent (popped parts)]))"

definition decodePath :: "string \<Rightarrow> string option" where
  "decodePath path =
     (let parts = drop 1 (split_on (CHR ''/'') path)
      in map_option (\<lambda>d. ''/'' @ join ''/'' (butlast parts @ [d])) (decodeURIComponent (popped parts)))"

definition trailingSlash :: regex where
  "trailingSlash = \<lparr>ignore_case = False, pattern_of = rseq
     [RPlus (rnset [CHR 0x0A, CHR 0x0D]), RChr (CHR ''/''), REnd]\<rparr>"

text \<open>The path prefix of a page is a literal, without characters special to patterns.\<close>

definition strip_prefix :: "string \<Rightarrow> string \<Rightarrow> string" where
  "strip_prefix pre path =
     (if pre \<noteq> [] \<and> starts_with path (pre @ ''/'') then ''/'' @ drop (length pre + 1) path
      else path)"

definition urlToPath :: "string \<Rightarrow> location \<Rightarrow> string option" where
  "urlToPath pre loc =
     decodePath (replace_match trailingSlash (\<lambda>_. []) (strip_prefix pre (pathname loc)))"

text \<open>
  The navigator: its path, its query params, and the history stack, the current entry first. An
  entry is the state that was pushed and the location. The calls of \<open>onLocationUpdated\<close> are
  recorded, the latest first.
\<close>

record navigator =
  nav_path :: string
  nav_params :: "params option"
  nav_history :: "(params option \<times> location) list"
  nav_updates :: "(string \<times> params option) list"

definition nav_location :: "navigator \<Rightarrow> location" where
  "nav_location st = snd (hd (nav_history st))"

definition pathUpdated :: "navigator \<Rightarrow> navigator" where
  "pathUpdated st =
     (let state = fst (hd (nav_history st))
      in st\<lparr>nav_updates := (nav_path st, if state = None then nav_params st else state) # nav_updates st\<rparr>)"

definition set_path :: "string \<Rightarrow> navigator \<Rightarrow> navigator" where
  "set_path p st = (if p = nav_path st then st else pathUpdated (st\<lparr>nav_path := p\<rparr>))"

definition strip_search :: "string \<Rightarrow> string" where
  "strip_search s = replace_all ''%3A00.000Z'' [] (replace_all ''=true'' [] s)"

definition getLocation :: "params option \<Rightarrow> location \<Rightarrow> location" where
  "getLocation ps loc =
     loc\<lparr>search := strip_search (url_search (case ps of None \<Rightarrow> [] | Some ps \<Rightarrow> param_pairs ps))\<rparr>"

text \<open>\<open>None\<close>: the path of the location does not decode, and the handler throws.\<close>

definition navigateToLocation :: "string \<Rightarrow> location \<Rightarrow> navigator \<Rightarrow> navigator option" where
  "navigateToLocation pre loc st =
     (let ps = nav_params st;
          url = getLocation ps loc
      in if url = nav_location st then Some st
         else
           (case urlToPath pre loc of
              None \<Rightarrow> None
            | Some path \<Rightarrow>
                (let st = set_path path st;
                     url = url\<lparr>search := strip_search (search url)\<rparr>
                 in Some (st\<lparr>nav_history := (ps, url) # nav_history st\<rparr>))))"

definition navigateToPath :: "string \<Rightarrow> string \<Rightarrow> navigator \<Rightarrow> navigator option" where
  "navigateToPath pre testPath st =
     (let w = nav_location st
      in navigateToLocation pre
           (w\<lparr>pathname := url_pathname (pathname w) (pre @ testPath)\<rparr>) st)"

text \<open>A click on a link: left to the browser with Ctrl or Meta.\<close>

definition navigate :: "string \<Rightarrow> bool \<Rightarrow> bool \<Rightarrow> location \<Rightarrow> navigator \<Rightarrow> navigator option" where
  "navigate pre ctrlKey metaKey target st =
     (if ctrlKey \<or> metaKey then Some st else navigateToLocation pre target st)"

text \<open>
  The browser goes back one entry and \<open>onpopstate\<close> runs. The flag says that the handler asks to
  go back once more, which it does on an entry without state (the page as it was loaded).
\<close>

definition popstate :: "string \<Rightarrow> navigator \<Rightarrow> (navigator \<times> bool) option" where
  "popstate pre st =
     (case nav_history st of
        e # (ps, loc) # h \<Rightarrow>
          (case urlToPath pre loc of
             None \<Rightarrow> None
           | Some path \<Rightarrow>
               (let st = set_path path (st\<lparr>nav_history := (ps, loc) # h\<rparr>)
                in Some (st\<lparr>nav_updates := (nav_path st, ps) # nav_updates st\<rparr>, ps = None)))
      | _ \<Rightarrow> Some (st, False))"

text \<open>\<open>ready\<close>: the path of the location, and the initial state pushed on the stack.\<close>

definition ready_navigator :: "string \<Rightarrow> navigator \<Rightarrow> navigator option" where
  "ready_navigator pre st =
     (let push = (\<lambda>st. st\<lparr>nav_history := (nav_params st, getLocation (nav_params st) (nav_location st))
                             # nav_history st\<rparr>)
      in if nav_path st = ''/'' then
           map_option (\<lambda>p. push (set_path p st)) (urlToPath pre (nav_location st))
         else Some (push st))"


section \<open>Stripping the trailing slash\<close>

text \<open>
  A repeated class that must be followed by one last character: the loop takes all of the text
  and gives the last character back.
\<close>

lemma star_class_last:
  assumes k: "\<And>b a c. k (b, a, c) = (if a = [e] then Some (e # b, [], c) else None)"
  shows "list_all (in_class icase negated P) a \<Longrightarrow> length a < n \<Longrightarrow>
   star_loop n (rmatch icase (RClass negated P)) [] k (b, a, c) =
     (if a \<noteq> [] \<and> last a = e then Some (rev a @ b, [], c) else None)"
proof (induction n arbitrary: a b)
  case (Suc n)
  show ?case
  proof (cases a)
    case Nil
    with Suc.prems k show ?thesis by simp
  next
    case (Cons d ds)
    with Suc.prems Suc.IH [of ds "d # b"] k [of b a c]
    show ?thesis by (cases ds) (auto simp: in_class_def)
  qed
qed simp

definition no_line_break :: "string \<Rightarrow> bool" where
  "no_line_break s = (CHR 0x0A \<notin> set s \<and> CHR 0x0D \<notin> set s)"

lemma no_line_break_simps [simp]:
  "no_line_break []"
  "no_line_break (c # s) \<longleftrightarrow> c \<noteq> CHR 0x0A \<and> c \<noteq> CHR 0x0D \<and> no_line_break s"
  "no_line_break (s @ t) \<longleftrightarrow> no_line_break s \<and> no_line_break t"
  by (auto simp: no_line_break_def)

lemma rmatch_trailingSlash:
  assumes "no_line_break a"
  shows "rmatch False (pattern_of trailingSlash) Some (b, a, c) =
    (if length a > 1 \<and> last a = CHR ''/'' then Some (rev a @ b, [], c) else None)"
proof (cases a)
  case Nil
  then show ?thesis by (simp add: trailingSlash_def rnset_def)
next
  case (Cons d ds)
  define k where "k = rmatch False (RSeq (RChr (CHR ''/'')) REnd) Some"
  have k: "k (b', a', c') = (if a' = [CHR ''/''] then Some (CHR ''/'' # b', [], c') else None)"
    for b' a' c'
    by (cases a') (auto simp: chr_eq_def k_def)
  have start: "rmatch False (pattern_of trailingSlash) Some (b, a, c) =
      rmatch False (RPlus (rnset [CHR 0x0A, CHR 0x0D])) k (b, d # ds, c)"
    by (simp add: trailingSlash_def k_def Cons del: rmatch.simps(8))
  have "list_all (in_class False True (\<lambda>c. c \<in> set [CHR 0x0A, CHR 0x0D])) ds"
    using assms Cons by (auto simp: list_all_iff in_class_def class_member_def no_line_break_def)
  from star_class_last [OF k this, of "Suc (length ds)" "d # b" c]
  show ?thesis
    unfolding start
    using assms Cons
    by (auto simp: rnset_def class_member_def simp del: star_loop.simps)
qed

lemma search_trailingSlash_None:
  "no_line_break a \<Longrightarrow> \<not> (length a > 1 \<and> last a = CHR ''/'') \<Longrightarrow>
     search_from False (pattern_of trailingSlash) b a = None"
proof (induction a arbitrary: b)
  case Nil
  then show ?case by (simp add: search_from.simps rmatch_trailingSlash)
next
  case (Cons d ds)
  have "\<not> (length ds > 1 \<and> last ds = CHR ''/'')" using Cons.prems(2) by (cases ds) auto
  with Cons.IH [of "d # b"] Cons.prems show ?case
    by (simp add: search_from.simps [of False _ b "d # ds"] rmatch_trailingSlash)
qed

lemma replace_trailingSlash:
  assumes "no_line_break s"
  shows "replace_match trailingSlash (\<lambda>_. []) s =
           (if length s > 1 \<and> last s = CHR ''/'' then [] else s)"
proof (cases "length s > 1 \<and> last s = CHR ''/''")
  case True
  then have "exec trailingSlash s = Some \<lparr>m_before = [], m_text = s, m_after = [], m_groups = []\<rparr>"
    using rmatch_trailingSlash [OF assms, of "[]" "[]"]
    by (simp add: exec_def search_from.simps [of _ _ "[]"]) (simp add: trailingSlash_def)
  with True show ?thesis by (simp add: replace_match_def)
next
  case False
  then have "exec trailingSlash s = None"
    using search_trailingSlash_None [OF assms, of "[]"]
    by (simp add: exec_def) (simp add: trailingSlash_def)
  with False show ?thesis by (auto simp: replace_match_def)
qed

lemma strip_prefix_prefixed [simp]: "strip_prefix pre (pre @ CHR ''/'' # s) = CHR ''/'' # s"
  by (simp add: strip_prefix_def js_simps)

lemma drop_split_slash: "drop 1 (split_on (CHR ''/'') (CHR ''/'' # s)) = split_on (CHR ''/'') s"
  using split_on_append [of "CHR ''/''" "[]" s] by simp

section \<open>Paths and URLs\<close>

lemma slash_join:
  "segs \<noteq> [] \<Longrightarrow> \<forall>w \<in> set segs. CHR ''/'' \<notin> set w \<Longrightarrow>
     drop 1 (split_on (CHR ''/'') (CHR ''/'' # join ''/'' segs)) = segs"
  by (simp add: drop_split_slash split_on_join)

lemma encodePath_join:
  "\<forall>w \<in> set dirs. CHR ''/'' \<notin> set w \<Longrightarrow> CHR ''/'' \<notin> set name \<Longrightarrow>
     encodePath (''/'' @ join ''/'' (dirs @ [name])) =
       ''/'' @ join ''/'' (dirs @ [encodeURIComponent name])"
  by (simp add: encodePath_def drop_split_slash split_on_join popped_def Let_def ball_Un)

lemma decodePath_join:
  "\<forall>w \<in> set dirs. CHR ''/'' \<notin> set w \<Longrightarrow> CHR ''/'' \<notin> set name \<Longrightarrow>
     decodePath (''/'' @ join ''/'' (dirs @ [name])) =
       map_option (\<lambda>d. ''/'' @ join ''/'' (dirs @ [d])) (decodeURIComponent name)"
  by (simp add: decodePath_def drop_split_slash split_on_join popped_def Let_def ball_Un)

lemma path_segments:
  obtains dirs name where "p = join ''/'' (dirs @ [name])"
    "\<forall>w \<in> set dirs. CHR ''/'' \<notin> set w" "CHR ''/'' \<notin> set name"
proof -
  let ?ws = "split_on (CHR ''/'') p"
  have "p = join ''/'' (butlast ?ws @ [last ?ws])" by (simp add: join_split_on)
  then show thesis
    using that [of "butlast ?ws" "last ?ws"]
    by (meson in_set_butlastD last_in_set split_on_no_sep split_on_not_Nil)
qed

lemma decode_encodePath: "decodePath (encodePath (''/'' @ p)) = Some (''/'' @ p)"
proof -
  obtain dirs name where p: "p = join ''/'' (dirs @ [name])"
    "\<forall>w \<in> set dirs. CHR ''/'' \<notin> set w" "CHR ''/'' \<notin> set name"
    by (rule path_segments)
  show ?thesis
    unfolding p(1) using p(2,3) by (simp only: encodePath_join decodePath_join
      encodeURIComponent_no_slash decode_encodeURIComponent option.map not_False_eq_True)
qed

lemma no_line_break_join:
  "no_line_break (join sep ws) \<longleftrightarrow>
     (\<forall>w \<in> set ws. no_line_break w) \<and> (length ws > 1 \<longrightarrow> no_line_break sep)"
  by (induction sep ws rule: join.induct) auto

lemma encodeURIComponent_no_line_break [simp]: "no_line_break (encodeURIComponent s)"
proof -
  have "\<not> uri_keep (CHR 0x0A)" "\<not> uri_keep (CHR 0x0D)"
       "\<not> ascii_alnum (CHR 0x0A)" "\<not> ascii_alnum (CHR 0x0D)"
    by (simp_all add: uri_keep_def ascii_alnum_def is_letter_def is_digit_def)
  then show ?thesis
    using set_percent_encode [of "CHR 0x0A" uri_keep s] set_percent_encode [of "CHR 0x0D" uri_keep s]
    by (auto simp: no_line_break_def encodeURIComponent_def)
qed

lemma last_in_ne: "s \<noteq> [] \<Longrightarrow> c \<notin> set s \<Longrightarrow> last s \<noteq> c"
  using last_in_set by fastforce

lemma join_snoc:
  "join sep (dirs @ [name]) = (if dirs = [] then name else join sep dirs @ sep @ name)"
proof (induction dirs)
  case (Cons d dirs)
  then show ?case by (cases "dirs = []") (simp_all add: join_Cons)
qed simp

lemma encodeURIComponent_Nil: "encodeURIComponent [] = []"
  by (simp add: encodeURIComponent_def percent_encode_def)

text \<open>The encoded path has no line break and, if it is not the root, does not end in a slash.\<close>

lemma encodePath_shape:
  assumes "no_line_break p" and "p = [] \<or> last p \<noteq> CHR ''/''"
  obtains s where "encodePath (''/'' @ p) = CHR ''/'' # s" "no_line_break s"
    "s = [] \<or> last s \<noteq> CHR ''/''"
proof -
  obtain dirs name where p: "p = join ''/'' (dirs @ [name])"
    "\<forall>w \<in> set dirs. CHR ''/'' \<notin> set w" "CHR ''/'' \<notin> set name"
    by (rule path_segments)
  let ?s = "join ''/'' (dirs @ [encodeURIComponent name])"
  have "encodePath (''/'' @ p) = CHR ''/'' # ?s"
    unfolding p(1) encodePath_join [OF p(2,3)] by simp
  moreover have "no_line_break ?s"
    using assms(1) unfolding p(1) no_line_break_join by auto
  moreover have "?s = [] \<or> last ?s \<noteq> CHR ''/''"
  proof (cases "name = []")
    case True
    then have "dirs = []" using assms(2) by (auto simp: p(1) join_snoc split: if_splits)
    with True show ?thesis by (simp add: encodeURIComponent_Nil)
  next
    case False
    then have "encodeURIComponent name \<noteq> []"
      by (metis encodeURIComponent_Nil decode_encodeURIComponent option.inject)
    then show ?thesis
      by (simp add: join_snoc last_in_ne)
  qed
  ultimately show thesis by (rule that)
qed

section \<open>Properties\<close>

text \<open>
  The names of folders. A folder in the one that is shown has its own name, but below a folder whose name
  is encoded in the address, as one with a space, every folder is shown with its whole path.
\<close>

lemma folder_names:
  "computeDisplayableRelativePath \<lparr>pathname = ''/results/css'', search = []\<rparr> (Some ''/results'') True (Some ''/css/grid'') =
     Some ''grid/''"
  "computeDisplayableRelativePath \<lparr>pathname = ''/results/a%20b'', search = []\<rparr> (Some ''/results'') True (Some ''/a b/grid'') =
     Some ''/a b/grid/''"
  by code_simp+



text \<open>
  The path of a location that ends in a slash is lost. The pattern that is to strip the
  trailing slash matches all of the path before it too, so that nothing is left to decode, and
  the page navigates to a path named "/undefined".
\<close>

lemma url_trailing_slash:
  assumes "no_line_break s" and "s \<noteq> []"
  shows "urlToPath pre \<lparr>pathname = pre @ ''/'' @ s @ ''/'', search = q\<rparr> = Some ''/undefined''"
proof -
  have "replace_match trailingSlash (\<lambda>_. []) (CHR ''/'' # s @ ''/'') = []"
    using assms by (simp add: replace_trailingSlash)
  then show ?thesis
    by (simp add: urlToPath_def) code_simp
qed

theorem url_trailing_slash_witness:
  "urlToPath ''/results'' \<lparr>pathname = ''/results/css/'', search = []\<rparr> = Some ''/undefined''"
  using url_trailing_slash [of "''css''" "''/results''" "[]"] by simp

text \<open>
  C8: Going back undoes a navigation. If the current history entry has a state and its location
  stands for the current path, then a navigation that pushed an entry, followed by the back
  button, restores the path and the history, reports the old path to the page, and does not go
  back any further.
\<close>

theorem navigate_back:
  assumes "nav_history st = (Some ps, loc) # h" and "urlToPath pre loc = Some (nav_path st)"
    and "navigateToLocation pre target st = Some st'" and "st' \<noteq> st"
  shows "\<exists>st''. popstate pre st' = Some (st'', False) \<and> nav_path st'' = nav_path st \<and>
           nav_history st'' = nav_history st \<and> nav_params st'' = nav_params st \<and>
           hd (nav_updates st'') = (nav_path st, Some ps)"
proof -
  obtain p where p: "urlToPath pre target = Some p"
    using assms(3,4) by (auto simp: navigateToLocation_def Let_def split: if_splits option.splits)
  with assms(3,4) have "nav_history st' = (nav_params st, snd (hd (nav_history st'))) # nav_history st"
    and params: "nav_params st' = nav_params st"
    by (auto simp: navigateToLocation_def set_path_def pathUpdated_def Let_def split: if_splits)
  then obtain e where st': "nav_history st' = e # (Some ps, loc) # h"
    using assms(1) by metis
  have "popstate pre st' =
      (let st2 = set_path (nav_path st) (st'\<lparr>nav_history := (Some ps, loc) # h\<rparr>)
       in Some (st2\<lparr>nav_updates := (nav_path st2, Some ps) # nav_updates st2\<rparr>, False))"
    by (simp add: popstate_def st' assms(2) Let_def)
  with params assms(1) show ?thesis
    by (simp add: set_path_def pathUpdated_def Let_def)
qed

definition sample_navigator :: navigator where
  "sample_navigator = \<lparr>nav_path = ''/runs'', nav_params = Some [],
     nav_history = [(Some [], \<lparr>pathname = ''/runs'', search = []\<rparr>)], nav_updates = []\<rparr>"

theorem navigate_back_witness:
  "\<exists>st' st''. navigateToLocation [] \<lparr>pathname = ''/css'', search = []\<rparr> sample_navigator = Some st' \<and>
     popstate [] st' = Some (st'', False) \<and> nav_path st'' = ''/runs''"
proof -
  let ?t = "\<lparr>pathname = ''/css'', search = []\<rparr>"
  have path: "urlToPath [] \<lparr>pathname = ''/runs'', search = []\<rparr> = Some (nav_path sample_navigator)"
    by code_simp
  have "case navigateToLocation [] ?t sample_navigator of None \<Rightarrow> False | Some s \<Rightarrow> nav_path s = ''/css''"
    by code_simp
  then obtain st' where nav: "navigateToLocation [] ?t sample_navigator = Some st'" "nav_path st' = ''/css''"
    by (auto split: option.splits)
  then have "st' \<noteq> sample_navigator" by (auto simp: sample_navigator_def)
  from navigate_back [OF _ path nav(1) this, of "[]" "[]"] nav(1) show ?thesis
    by (auto simp: sample_navigator_def)
qed
end
