(* ===== verification/JsNumber.thy ===== *)
theory JsNumber
  imports Complex_Main JsPrelude
begin

text \<open>
  Numbers of the views. Counts, scores and percentages are exact rational numbers: the rounding of
  binary floating point is not modelled, and a division by zero (\<open>NaN\<close> or an infinity) is left
  out by the guards of the code or modelled where it can happen. This theory has the functions
  that round and print them.
\<close>

text \<open>\<open>Math.round\<close> rounds halves up; \<open>Math.floor\<close> is \<open>floor\<close>.\<close>

definition math_round :: "rat \<Rightarrow> int" where
  "math_round q = \<lfloor>q + 1 / 2\<rfloor>"

text \<open>\<open>parseFloat(q.toFixed(d))\<close>.\<close>

definition to_fixed :: "nat \<Rightarrow> rat \<Rightarrow> rat" where
  "to_fixed d q =
     (if q < 0 then - (of_int (math_round (- q * 10 ^ d)) / 10 ^ d)
      else of_int (math_round (q * 10 ^ d)) / 10 ^ d)"

text \<open>
  The decimals of a number below one, at most \<open>n\<close> of them. Every number the views print has at
  most three decimals.
\<close>

primrec decimals :: "nat \<Rightarrow> rat \<Rightarrow> string" where
  "decimals 0 q = []"
| "decimals (Suc n) q =
     (if q = 0 then []
      else (let d = \<lfloor>10 * q\<rfloor> in char_of (48 + nat d) # decimals n (10 * q - of_int d)))"

definition show_num :: "rat \<Rightarrow> string" where
  "show_num q =
     (let a = \<bar>q\<bar>; i = \<lfloor>a\<rfloor>; ds = decimals 17 (a - of_int i)
      in (if q < 0 then ''-'' else []) @ show_nat (nat i) @ (if ds = [] then [] else CHR ''.'' # ds))"

text \<open>
  A number that may be missing: a property that was never set, and what additions make of it.
  Only \<open>NaN\<close> differs from itself.
\<close>

datatype jsnum = Num rat | NaN | Undefined

fun js_add :: "jsnum \<Rightarrow> rat \<Rightarrow> jsnum" where
  "js_add (Num a) b = Num (a + b)"
| "js_add NaN b = NaN"
| "js_add Undefined b = NaN"

fun js_same :: "jsnum \<Rightarrow> jsnum \<Rightarrow> bool" where
  "js_same (Num a) (Num b) = (a = b)"
| "js_same Undefined Undefined = True"
| "js_same _ _ = False"

fun show_js :: "jsnum \<Rightarrow> string" where
  "show_js (Num q) = show_num q"
| "show_js NaN = ''NaN''"
| "show_js Undefined = ''undefined''"

text \<open>What a number contributes to a sum.\<close>

fun amount :: "jsnum \<Rightarrow> rat" where
  "amount (Num q) = q"
| "amount NaN = 0"
| "amount Undefined = 0"

section \<open>Lemmas\<close>

lemma math_round_of_int [simp]: "math_round (of_int i) = i"
  unfolding math_round_def by (rule floor_unique) simp_all

lemma math_round_mono: "p \<le> q \<Longrightarrow> math_round p \<le> math_round q"
  unfolding math_round_def by (rule floor_mono) simp

lemma math_round_near: "\<bar>of_int (math_round q) - q\<bar> \<le> 1 / 2"
proof -
  have "of_int \<lfloor>q + 1 / 2\<rfloor> \<le> q + 1 / 2" "q + 1 / 2 < of_int \<lfloor>q + 1 / 2\<rfloor> + 1"
    by linarith+
  then show ?thesis unfolding math_round_def by linarith
qed

lemma math_round_bounds: "of_int a \<le> q \<Longrightarrow> q \<le> of_int b \<Longrightarrow> a \<le> math_round q \<and> math_round q \<le> b"
  using math_round_mono [of "of_int a" q] math_round_mono [of q "of_int b"] by simp

lemma decimals_zero [simp]: "decimals n 0 = []"
  by (cases n) simp_all

lemma show_num_of_nat [simp]: "show_num (of_nat n) = show_nat n"
  by (simp add: show_num_def Let_def)

end
