(* ===== verification/ResultColors.thy ===== *)
theory ResultColors
  imports JsNumber
begin

text \<open>
  \<^verbatim>\<open>webapp/components/wpt-colors.js\<close>, the colours of pass rates, and
  \<^verbatim>\<open>webapp/components/utils.js\<close>, elapsed times and the colours of scores.
\<close>

section \<open>Pass rates\<close>

record pass_color =
  color_class :: string
  colorVar :: string
  rgb :: "nat list"

definition wpt_colors :: "pass_color list" where
  "wpt_colors =
     [\<lparr>color_class = ''passes-none'', colorVar = ''--paper-red-300'', rgb = [229, 115, 115]\<rparr>,
      \<lparr>color_class = ''passes-hardly'', colorVar = ''--paper-orange-300'', rgb = [255, 183, 77]\<rparr>,
      \<lparr>color_class = ''passes-a-few'', colorVar = ''--paper-amber-300'', rgb = [255, 213, 79]\<rparr>,
      \<lparr>color_class = ''passes-half'', colorVar = ''--paper-yellow-300'', rgb = [255, 241, 118]\<rparr>,
      \<lparr>color_class = ''passes-lots'', colorVar = ''--paper-lime-300'', rgb = [220, 231, 117]\<rparr>,
      \<lparr>color_class = ''passes-most'', colorVar = ''--paper-light-green-300'', rgb = [174, 213, 129]\<rparr>,
      \<lparr>color_class = ''passes-all'', colorVar = ''--paper-green-300'', rgb = [129, 199, 132]\<rparr>]"

text \<open>\<open>None\<close>: the index is out of range and the colour undefined.\<close>

definition getColor :: "rat \<Rightarrow> rat \<Rightarrow> pass_color option" where
  "getColor passes tot =
     (if passes = 0 \<or> tot = 0 then Some (wpt_colors ! 0)
      else if passes \<ge> tot then Some (wpt_colors ! (length wpt_colors - 1))
      else
        (let parts = of_nat (length wpt_colors - 2) :: rat;
             part = \<lfloor>parts * passes / tot\<rfloor>
         in if part + 1 < 0 then None else elem_at wpt_colors (nat (part + 1))))"

text \<open>\<open>None\<close>: reading a property of an undefined colour throws.\<close>

definition passRateClass :: "rat \<Rightarrow> rat \<Rightarrow> string option" where
  "passRateClass passes tot = map_option color_class (getColor passes tot)"

definition passRateColorVar :: "rat \<Rightarrow> rat \<Rightarrow> string option" where
  "passRateColorVar passes tot = map_option colorVar (getColor passes tot)"

definition passRateColorRGBA :: "rat \<Rightarrow> rat \<Rightarrow> rat \<Rightarrow> string option" where
  "passRateColorRGBA passes tot alpha =
     map_option (\<lambda>c. ''rgba('' @ join '', '' (map show_nat (rgb c)) @ '', '' @ show_num alpha @ '')'')
       (getColor passes tot)"

section \<open>Elapsed time\<close>

definition time_units :: "(rat \<times> string) list" where
  "time_units =
     [(60 * 60 * 24 * 365, ''years''), (60 * 60 * 24 * 28, ''months''), (60 * 60 * 24 * 7, ''weeks''),
      (60 * 60 * 24, ''days''), (60 * 60, ''hours''), (60, ''minutes'')]"

fun first_unit :: "rat \<Rightarrow> (rat \<times> string) list \<Rightarrow> (int \<times> rat \<times> string) option" where
  "first_unit s [] = None"
| "first_unit s (u # us) =
     (let scalar = \<lfloor>s / fst u\<rfloor>
      in if scalar > 1 then Some (scalar, u) else first_unit s us)"

text \<open>The argument is \<open>None\<close> for \<open>undefined\<close> or \<open>null\<close>.\<close>

definition timeTaken :: "rat option \<Rightarrow> string" where
  "timeTaken millis =
     (case millis of
        None \<Rightarrow> ''N/A''
      | Some ms \<Rightarrow>
          if ms = 0 then ''N/A''
          else (case first_unit (ms / 1000) time_units of
                  Some (scalar, u) \<Rightarrow> show_int scalar @ '' '' @ snd u
                | None \<Rightarrow> show_num (ms / 1000) @ '' seconds''))"

section \<open>Scores\<close>

definition gradient :: "(rat \<times> rat list) list" where
  "gradient =
     [(0, [250, 0, 0]), (3333 / 100, [250, 125, 0]), (6667 / 100, [220, 220, 0]), (100, [0, 160, 0])]"

text \<open>The first pair of neighbours whose second scale the score does not exceed.\<close>

fun gradient_step :: "rat \<Rightarrow> (rat \<times> rat list) list \<Rightarrow> ((rat \<times> rat list) \<times> (rat \<times> rat list)) option" where
  "gradient_step score (a # b # cs) =
     (if score \<le> fst b then Some (a, b) else gradient_step score (b # cs))"
| "gradient_step score _ = None"

definition mix :: "rat \<Rightarrow> rat \<Rightarrow> rat \<Rightarrow> int" where
  "mix w a b = math_round (a * (1 - w) + b * w)"

text \<open>The three channels; \<open>None\<close>: a score above 100 finds no colour and throws.\<close>

definition score_color :: "rat \<Rightarrow> (int \<times> int \<times> int) option" where
  "score_color score =
     (case gradient_step score gradient of
        None \<Rightarrow> None
      | Some ((s1, c1), (s2, c2)) \<Rightarrow>
          (let w = (score - s1) / (s2 - s1)
           in Some (mix w (c1 ! 0) (c2 ! 0), mix w (c1 ! 1) (c2 ! 1), mix w (c1 ! 2) (c2 ! 2))))"

definition calculateColor :: "rat \<Rightarrow> (string \<times> string) option" where
  "calculateColor score =
     map_option
       (\<lambda>(r, g, b). let cs = join '', '' (map show_int [r, g, b])
          in (''rgb('' @ cs @ '')'', ''rgba('' @ cs @ '', 0.15)''))
       (score_color score)"

section \<open>Lemmas\<close>

text \<open>The rank of the colour of a pass rate, from 0 (none) to 6 (all).\<close>

definition color_rank :: "rat \<Rightarrow> rat \<Rightarrow> int" where
  "color_rank passes tot =
     (if passes = 0 \<or> tot = 0 then 0
      else if passes \<ge> tot then 6 else \<lfloor>5 * passes / tot\<rfloor> + 1)"

lemma color_rank_between:
  assumes "0 \<le> p" "0 \<le> t" "\<not> (p = 0 \<or> t = 0 \<or> t \<le> p)"
  shows "color_rank p t = \<lfloor>5 * p / t\<rfloor> + 1" "1 \<le> color_rank p t" "color_rank p t \<le> 5"
proof -
  define f where "f = \<lfloor>5 * p / t\<rfloor>"
  from assms have "0 \<le> 5 * p / t" "5 * p / t < 5" by (simp_all add: divide_simps)
  then have "0 \<le> f" "f < 5" unfolding f_def by linarith+
  moreover have "color_rank p t = f + 1" using assms by (simp add: color_rank_def f_def)
  ultimately show "color_rank p t = \<lfloor>5 * p / t\<rfloor> + 1" "1 \<le> color_rank p t" "color_rank p t \<le> 5"
    by (simp_all add: f_def)
qed

lemma color_rank_end:
  "p = 0 \<or> t = 0 \<or> t \<le> p \<Longrightarrow> color_rank p t = (if p = 0 \<or> t = 0 then 0 else 6)"
  by (auto simp: color_rank_def)

lemma color_rank_0: "0 \<le> p \<Longrightarrow> 0 \<le> t \<Longrightarrow> color_rank p t = 0 \<longleftrightarrow> p = 0 \<or> t = 0"
  using color_rank_between(2) [of p t] color_rank_end [of p t]
  by (cases "p = 0 \<or> t = 0 \<or> t \<le> p") auto

lemma color_rank_6:
  "0 \<le> p \<Longrightarrow> 0 \<le> t \<Longrightarrow> color_rank p t = 6 \<longleftrightarrow> p \<noteq> 0 \<and> t \<noteq> 0 \<and> t \<le> p"
  using color_rank_between(3) [of p t] color_rank_end [of p t]
  by (cases "p = 0 \<or> t = 0 \<or> t \<le> p") auto

lemma color_rank_range: "0 \<le> p \<Longrightarrow> 0 \<le> t \<Longrightarrow> 0 \<le> color_rank p t \<and> color_rank p t \<le> 6"
  using color_rank_between(2,3) [of p t] color_rank_end [of p t]
  by (cases "p = 0 \<or> t = 0 \<or> t \<le> p") auto

lemma getColor_rank:
  assumes "0 \<le> p" "0 \<le> t"
  shows "getColor p t = Some (wpt_colors ! nat (color_rank p t))"
proof (cases "p = 0 \<or> t = 0 \<or> p \<ge> t")
  case True
  then show ?thesis by (auto simp: color_rank_def getColor_def wpt_colors_def)
next
  case False
  with color_rank_between [of p t] assms
  have "\<not> \<lfloor>5 * p / t\<rfloor> + 1 < 0" "nat (\<lfloor>5 * p / t\<rfloor> + 1) < 7" "color_rank p t = \<lfloor>5 * p / t\<rfloor> + 1"
    by linarith+
  moreover from this have "elem_at wpt_colors (nat (\<lfloor>5 * p / t\<rfloor> + 1)) = Some (wpt_colors ! nat (\<lfloor>5 * p / t\<rfloor> + 1))"
    by (simp only: elem_at_def) (simp add: wpt_colors_def)
  ultimately show ?thesis
    using False by (simp add: getColor_def Let_def) (simp add: wpt_colors_def)
qed

lemma color_rank_mono:
  assumes "0 \<le> p" "p \<le> q" "0 \<le> tot"
  shows "color_rank p tot \<le> color_rank q tot"
proof (cases "p = 0 \<or> tot = 0 \<or> q \<ge> tot")
  case True
  then show ?thesis
    using assms color_rank_range [of p tot] color_rank_range [of q tot]
    by (auto simp: color_rank_def)
next
  case False
  with assms have "5 * p / tot \<le> 5 * q / tot" by (simp add: divide_simps)
  then have "\<lfloor>5 * p / tot\<rfloor> \<le> \<lfloor>5 * q / tot\<rfloor>" by (rule floor_mono)
  with False assms show ?thesis by (simp add: color_rank_def)
qed

lemma wpt_colors_class:
  assumes "0 \<le> i" "i \<le> 6"
  shows "color_class (wpt_colors ! nat i) = ''passes-none'' \<longleftrightarrow> i = 0"
    and "color_class (wpt_colors ! nat i) = ''passes-all'' \<longleftrightarrow> i = 6"
proof -
  from assms have "i \<in> {0, 1, 2, 3, 4, 5, 6}" by (simp, linarith)
  then show "color_class (wpt_colors ! nat i) = ''passes-none'' \<longleftrightarrow> i = 0"
    and "color_class (wpt_colors ! nat i) = ''passes-all'' \<longleftrightarrow> i = 6"
    by (auto simp: wpt_colors_def)
qed

text \<open>What \<open>first_unit\<close> finds: the first unit of which there are at least two.\<close>

lemma first_unit_Some:
  "first_unit s us = Some (n, u) \<Longrightarrow>
     \<exists>a b. us = a @ u # b \<and> n = \<lfloor>s / fst u\<rfloor> \<and> 1 < n \<and>
       (\<forall>v \<in> set a. \<lfloor>s / fst v\<rfloor> \<le> 1)"
proof (induction us)
  case (Cons v us)
  show ?case
  proof (cases "1 < \<lfloor>s / fst v\<rfloor>")
    case True
    with Cons.prems show ?thesis
      by (intro exI [of _ "[]"] exI [of _ us]) (auto simp: Let_def)
  next
    case False
    with Cons obtain a b where "us = a @ u # b" "n = \<lfloor>s / fst u\<rfloor>" "1 < n"
      "\<forall>v \<in> set a. \<lfloor>s / fst v\<rfloor> \<le> 1"
      by (auto simp: Let_def)
    with False show ?thesis by (intro exI [of _ "v # a"] exI [of _ b]) auto
  qed
qed simp

lemma first_unit_None: "first_unit s us = None \<Longrightarrow> \<forall>v \<in> set us. \<lfloor>s / fst v\<rfloor> \<le> 1"
  by (induction us) (auto simp: Let_def split: if_splits)

lemma floor_times:
  assumes "0 < u" and "n = \<lfloor>s / u\<rfloor>"
  shows "of_int n * u \<le> (s :: rat)" and "s < of_int (n + 1) * u"
proof -
  have "of_int n \<le> s / u" "s / u < of_int n + 1" unfolding assms(2) by linarith+
  with assms(1) show "of_int n * u \<le> s" and "s < of_int (n + 1) * u"
    by (simp_all add: divide_simps algebra_simps)
qed

text \<open>A weighted mean of channels stays between them.\<close>

lemma mix_bounds:
  assumes "0 \<le> w" "w \<le> 1" "of_int lo \<le> a" "a \<le> of_int hi" "of_int lo \<le> b" "b \<le> of_int hi"
  shows "lo \<le> mix w a b \<and> mix w a b \<le> hi"
proof -
  have "of_int lo * (1 - w) + of_int lo * w \<le> a * (1 - w) + b * w"
    using assms by (intro add_mono mult_right_mono) auto
  moreover have "a * (1 - w) + b * w \<le> of_int hi * (1 - w) + of_int hi * w"
    using assms by (intro add_mono mult_right_mono) auto
  ultimately show ?thesis
    unfolding mix_def by (intro math_round_bounds) (simp_all add: algebra_simps)
qed

section \<open>Properties\<close>

text \<open>
  Colours of pass rates. For counts that are not negative there is always a colour; it is the
  one for "none" exactly when nothing passes or there is nothing to pass, the one for "all"
  exactly when everything passes, and more passes of the same total never give a colour further
  from "all".
\<close>

lemma pass_colors:
  assumes "0 \<le> p" and "p \<le> q" and "0 \<le> t"
  shows "\<exists>i j. getColor p t = Some (wpt_colors ! i) \<and> getColor q t = Some (wpt_colors ! j) \<and>
           i \<le> j \<and> j < length wpt_colors \<and>
           (color_class (wpt_colors ! i) = ''passes-none'' \<longleftrightarrow> p = 0 \<or> t = 0) \<and>
           (color_class (wpt_colors ! i) = ''passes-all'' \<longleftrightarrow> p \<noteq> 0 \<and> t \<noteq> 0 \<and> t \<le> p)"
proof -
  have q: "0 \<le> q" using assms by simp
  have p': "0 \<le> color_rank p t" "color_rank p t \<le> 6" and q': "color_rank q t \<le> 6"
    using color_rank_range [OF assms(1,3)] color_rank_range [OF q assms(3)] by simp_all
  have "nat (color_rank p t) \<le> nat (color_rank q t)"
    using color_rank_mono [OF assms] by simp
  moreover have "nat (color_rank q t) < length wpt_colors"
    using q' by (simp add: wpt_colors_def)
  ultimately show ?thesis
    using getColor_rank [OF assms(1,3)] getColor_rank [OF q assms(3)] wpt_colors_class [OF p']
      color_rank_0 [OF assms(1,3)] color_rank_6 [OF assms(1,3)]
    by blast
qed

theorem pass_colors_witness:
  "\<exists>i j. getColor 1 3 = Some (wpt_colors ! i) \<and> getColor 2 3 = Some (wpt_colors ! j) \<and> i \<le> j"
  using pass_colors [of 1 2 3] by auto

text \<open>
  The unit of an elapsed time. The text names whole units, at least two of them, that fit
  into the time while one more would not, and every larger unit fits less than twice; a time of
  less than two minutes is given in seconds.
\<close>

lemma time_taken_unit:
  assumes "ms \<noteq> 0"
  shows "(\<exists>n u a b. time_units = a @ u # b \<and> timeTaken (Some ms) = show_int n @ '' '' @ snd u \<and>
            2 \<le> n \<and> of_int n * fst u \<le> ms / 1000 \<and>
            ms / 1000 < of_int (n + 1) * fst u \<and>
            (\<forall>v \<in> set a. ms / 1000 < 2 * fst v)) \<or>
         (timeTaken (Some ms) = show_num (ms / 1000) @ '' seconds'' \<and> ms / 1000 < 120)"
proof -
  have small: "s < 2 * fst v"
    if "\<lfloor>s / fst v\<rfloor> \<le> 1" "v \<in> set time_units" for s :: rat and v
  proof -
    have "s / fst v < 2" using that(1) by linarith
    moreover have "0 < fst v" using that(2) by (auto simp: time_units_def)
    ultimately show ?thesis by (simp add: divide_simps)
  qed
  show ?thesis
  proof (cases "first_unit (ms / 1000) time_units")
    case None
    then have "ms / 1000 < 2 * (fst (60 :: rat, ''minutes''))"
      using first_unit_None [OF None] by (intro small) (auto simp: time_units_def)
    with None assms show ?thesis by (simp add: timeTaken_def)
  next
    case (Some r)
    obtain n u where r: "r = (n, u)" by (cases r)
    from first_unit_Some [OF Some [unfolded r]] obtain a b where ab: "time_units = a @ u # b"
      "n = \<lfloor>ms / 1000 / fst u\<rfloor>" "1 < n" "\<forall>v \<in> set a. \<lfloor>ms / 1000 / fst v\<rfloor> \<le> 1"
      by blast
    have "u \<in> set time_units" unfolding ab(1) by simp
    then have u: "0 < fst u" by (auto simp: time_units_def)
    have "set a \<subseteq> set time_units" unfolding ab(1) by auto
    with ab(4) have "\<forall>v \<in> set a. ms / 1000 < 2 * fst v" by (blast intro: small)
    moreover have "timeTaken (Some ms) = show_int n @ '' '' @ snd u"
      using Some r assms by (simp add: timeTaken_def)
    moreover have "2 \<le> n" using ab(3) by simp
    ultimately show ?thesis
      by (intro disjI1 exI [of _ n] exI [of _ u] exI [of _ a] exI [of _ b] conjI)
        (assumption | rule ab(1) floor_times [OF u ab(2)])+
  qed
qed

lemma time_taken_unit_sample:
  "(\<exists>n u a b. time_units = a @ u # b \<and> ''25 hours'' = show_int n @ '' '' @ snd u \<and>
            2 \<le> n \<and> of_int n * fst u \<le> 90000000 / (1000 :: rat) \<and>
            90000000 / (1000 :: rat) < of_int (n + 1) * fst u \<and>
            (\<forall>v \<in> set a. 90000000 / (1000 :: rat) < 2 * fst v)) \<or>
         (''25 hours'' = show_num (90000000 / 1000) @ '' seconds'' \<and> 90000000 / 1000 < (120 :: rat))"
proof -
  have shown: "timeTaken (Some 90000000) = ''25 hours''" by code_simp
  show ?thesis by (rule time_taken_unit [of 90000000, unfolded shown]) simp
qed

text \<open>
  The colour of a score. A score above 100 has no colour (the computation throws); every
  score from 0 to 100 has one, with red at most 250, green at most 220 and no blue.
\<close>

lemma score_color_range:
  assumes "0 \<le> s"
  shows "case score_color s of
           None \<Rightarrow> 100 < s
         | Some (r, g, b) \<Rightarrow> s \<le> 100 \<and> 0 \<le> r \<and> r \<le> 250 \<and> 0 \<le> g \<and> g \<le> 220 \<and> b = 0"
proof -
  have m: "0 \<le> mix w a b \<and> mix w a b \<le> hi"
    if "0 \<le> w" "w \<le> 1" "0 \<le> a" "a \<le> of_int hi" "0 \<le> b" "b \<le> of_int hi" for w a b hi
    using mix_bounds [of w 0 a hi b] that by simp
  have z: "mix w 0 0 = 0" for w using m [of 0 0 0 0] by (simp add: mix_def)
  consider "s \<le> 3333 / 100" | "3333 / 100 < s" "s \<le> 6667 / 100" | "6667 / 100 < s" "s \<le> 100" | "100 < s"
    by linarith
  then show ?thesis
  proof cases
    case 1
    let ?w = "(s - 0) / (3333 / 100 - 0)"
    have "0 \<le> ?w" "?w \<le> 1" using assms 1 by (simp_all add: divide_simps)
    with m [of ?w 250 250 250] m [of ?w 0 220 125] 1 show ?thesis
      by (simp add: score_color_def gradient_def z Let_def)
  next
    case 2
    let ?w = "(s - 3333 / 100) / (6667 / 100 - 3333 / 100)"
    have "0 \<le> ?w" "?w \<le> 1" using 2 by (simp_all add: divide_simps)
    with m [of ?w 250 250 220] m [of ?w 125 220 220] 2 show ?thesis
      by (simp add: score_color_def gradient_def z Let_def)
  next
    case 3
    let ?w = "(s - 6667 / 100) / (100 - 6667 / 100)"
    have "0 \<le> ?w" "?w \<le> 1" using 3 by (simp_all add: divide_simps)
    with m [of ?w 220 250 0] m [of ?w 220 220 160] 3 show ?thesis
      by (simp add: score_color_def gradient_def z Let_def)
  next
    case 4
    then show ?thesis by (simp add: score_color_def gradient_def)
  qed
qed

lemma score_color_range_sample:
  "case score_color 50 of
     None \<Rightarrow> 100 < (50 :: rat)
   | Some (r, g, b) \<Rightarrow> (50 :: rat) \<le> 100 \<and> 0 \<le> r \<and> r \<le> 250 \<and> 0 \<le> g \<and> g \<le> 220 \<and> b = 0"
  by (rule score_color_range) simp
end
