(* ===== verification/LoadingState.thy ===== *)
theory LoadingState
  imports Main JsPrelude
begin

text \<open>
  \<^verbatim>\<open>webapp/components/loading-state.js\<close>: the mixin that counts the loads in flight and calls
  \<open>onLoadingComplete\<close> when the last one settles, and the retrying of a fallible operation.
\<close>

section \<open>Counting loads\<close>

text \<open>
  A component with the mixin: the count, whether there is a callback \<open>onLoadingComplete\<close>, the
  promises in flight, each with a flag that says if its load has an error handler, and the calls
  that were made, the latest last. A promise is named by a number.
\<close>

datatype 'e load_call = ErrHandler nat 'e | Complete

record 'e loader =
  loadingCount :: int
  has_callback :: bool
  in_flight :: "(nat \<times> bool) list"
  calls :: "'e load_call list"

definition computeIsLoading :: "int \<Rightarrow> bool" where
  "computeIsLoading n = (n > 0)"

definition loadingCountChanged :: "int \<Rightarrow> int \<Rightarrow> 'e loader \<Rightarrow> 'e loader" where
  "loadingCountChanged now old st =
     (if now = 0 \<and> old > 0 \<and> has_callback st then st\<lparr>calls := calls st @ [Complete]\<rparr> else st)"

text \<open>An assignment to the observed property.\<close>

definition set_loadingCount :: "int \<Rightarrow> 'e loader \<Rightarrow> 'e loader" where
  "set_loadingCount n st =
     (let old = loadingCount st
      in if n = old then st else loadingCountChanged n old (st\<lparr>loadingCount := n\<rparr>))"

text \<open>\<open>load\<close> up to its \<open>await\<close>, and from there on, when the promise has settled.\<close>

definition load_start :: "nat \<Rightarrow> bool \<Rightarrow> 'e loader \<Rightarrow> 'e loader" where
  "load_start p handler st =
     (set_loadingCount (loadingCount st + 1) st)\<lparr>in_flight := (p, handler) # in_flight st\<rparr>"

definition load_settle :: "nat \<Rightarrow> 'e option \<Rightarrow> 'e loader \<Rightarrow> 'e loader" where
  "load_settle p rejection st =
     (case map_of (in_flight st) p of
        None \<Rightarrow> st
      | Some handler \<Rightarrow>
          (let st1 = st\<lparr>in_flight := remove1 (p, handler) (in_flight st)\<rparr>;
               st2 = (case rejection of
                        Some e \<Rightarrow> if handler then st1\<lparr>calls := calls st1 @ [ErrHandler p e]\<rparr> else st1
                      | None \<Rightarrow> st1)
           in set_loadingCount (loadingCount st2 - 1) st2))"

text \<open>Loads start with fresh promises and settle in any order.\<close>

inductive load_step :: "'e loader \<Rightarrow> 'e loader \<Rightarrow> bool" where
  start: "p \<notin> fst ` set (in_flight st) \<Longrightarrow> load_step st (load_start p handler st)"
| settle: "p \<in> fst ` set (in_flight st) \<Longrightarrow> load_step st (load_settle p rejection st)"

inductive load_reachable :: "bool \<Rightarrow> 'e loader \<Rightarrow> bool" for cb where
  init: "load_reachable cb \<lparr>loadingCount = 0, has_callback = cb, in_flight = [], calls = []\<rparr>"
| step: "load_reachable cb st \<Longrightarrow> load_step st st' \<Longrightarrow> load_reachable cb st'"

inductive_cases load_stepE: "load_step st st'"

text \<open>The count is the number of loads in flight, and nothing is left to report when it is zero.\<close>

definition load_inv :: "bool \<Rightarrow> 'e loader \<Rightarrow> bool" where
  "load_inv cb st \<longleftrightarrow>
     loadingCount st = int (length (in_flight st)) \<and> has_callback st = cb \<and>
     distinct (map fst (in_flight st)) \<and>
     (cb \<longrightarrow> in_flight st = [] \<longrightarrow> calls st = [] \<or> last (calls st) = Complete)"

lemma load_start_inv:
  assumes "load_inv cb st" and "p \<notin> fst ` set (in_flight st)"
  shows "load_inv cb (load_start p handler st)"
  using assms
  by (auto simp: load_inv_def load_start_def set_loadingCount_def loadingCountChanged_def Let_def)

lemma map_of_remove1:
  "map_of xs p = Some v \<Longrightarrow> length xs = Suc (length (remove1 (p, v) xs))"
  by (induction xs) (auto split: if_splits)

lemma distinct_fst_remove1: "distinct (map fst xs) \<Longrightarrow> distinct (map fst (remove1 x xs))"
  by (induction xs) (auto dest: notin_set_remove1 in_set_remove1 [THEN iffD1] simp: image_iff)

lemma load_settle_inv:
  assumes inv: "load_inv cb st" and p: "p \<in> fst ` set (in_flight st)"
  shows "load_inv cb (load_settle p r st)"
proof -
  from p obtain handler where h: "map_of (in_flight st) p = Some handler"
    by (metis map_of_eq_None_iff option.exhaust)
  have "length (in_flight st) = Suc (length (remove1 (p, handler) (in_flight st)))"
    using map_of_remove1 [OF h] .
  moreover have "distinct (map fst (remove1 (p, handler) (in_flight st)))"
    using inv by (intro distinct_fst_remove1) (simp add: load_inv_def)
  ultimately show ?thesis
    using inv h
    by (auto simp: load_inv_def load_settle_def set_loadingCount_def loadingCountChanged_def Let_def
      split: option.split)
qed

lemma load_reachable_inv: "load_reachable cb st \<Longrightarrow> load_inv cb st"
proof (induction rule: load_reachable.induct)
  case init
  show ?case by (simp add: load_inv_def)
next
  case (step st st')
  from step.hyps(2) step.IH show ?case
    by (cases rule: load_step.cases) (simp_all add: load_start_inv load_settle_inv)
qed

section \<open>Promises and what they are for\<close>

text \<open>
  A component that gives its promises the numbers from 0 on and keeps a list of those that are pending, each with
  the request that it is for.
\<close>

definition tracks :: "'e loader \<Rightarrow> (nat \<times> 'r) list \<Rightarrow> nat \<Rightarrow> bool" where
  "tracks st ps n \<longleftrightarrow>
     load_inv True st \<and> map fst (in_flight st) = map fst ps \<and> (\<forall>kr \<in> set ps. fst kr < n)"

lemma tracks_start:
  assumes "tracks st ps n"
  shows "tracks (load_start n h st) ((n, r) # ps) (Suc n)"
proof -
  have "n \<notin> fst ` set ps" using assms by (auto simp: tracks_def)
  moreover have "fst ` set (in_flight st) = fst ` set ps" using assms by (metis list.set_map tracks_def)
  ultimately have "load_inv True (load_start n h st)" using assms by (intro load_start_inv) (simp_all add: tracks_def)
  moreover have "in_flight (load_start n h st) = (n, h) # in_flight st"
    by (simp add: load_start_def set_loadingCount_def loadingCountChanged_def Let_def)
  ultimately show ?thesis using assms by (auto simp: tracks_def)
qed

lemma new_calls:
  assumes "load_inv True st" and "map_of (in_flight st) k = Some h"
  shows "drop (length (calls st)) (calls (load_settle k r st)) =
    (case r of Some e \<Rightarrow> if h then [ErrHandler k e] else [] | None \<Rightarrow> []) @ (if length (in_flight st) = 1 then [Complete] else [])"
  using assms
  by (auto simp: load_inv_def load_settle_def set_loadingCount_def loadingCountChanged_def Let_def split: option.split)

lemma remove_named:
  "distinct (map fst xs) \<Longrightarrow> map_of xs k = Some v \<Longrightarrow> map fst (remove1 (k, v) xs) = filter (\<lambda>j. j \<noteq> k) (map fst xs)"
proof (induction xs)
  case (Cons x xs)
  show ?case
  proof (cases "fst x = k")
    case True
    then have "x = (k, v)" using Cons.prems(2) by (cases x) simp
    moreover have "filter (\<lambda>j. j \<noteq> k) (map fst xs) = map fst xs"
      using Cons.prems(1) True by (intro filter_True ballI) (metis distinct.simps(2) list.map(2))
    ultimately show ?thesis by simp
  next
    case False
    then have "x \<noteq> (k, v)" by auto
    with False Cons show ?thesis by (cases x) (simp split: if_splits)
  qed
qed simp

lemma names_filter: "map fst (filter (\<lambda>x. fst x \<noteq> k) xs) = filter (\<lambda>j. j \<noteq> k) (map fst xs)"
  by (induction xs) auto

lemma in_flight_settle: "map_of (in_flight st) k = Some h \<Longrightarrow> in_flight (load_settle k r st) = remove1 (k, h) (in_flight st)"
  by (simp add: load_settle_def set_loadingCount_def loadingCountChanged_def Let_def split: option.split)

lemma settled_in_flight:
  assumes "load_inv True st" and "map_of (in_flight st) k = Some h"
  shows "map fst (in_flight (load_settle k r st)) = filter (\<lambda>j. j \<noteq> k) (map fst (in_flight st))"
  using remove_named [OF _ assms(2)] assms(1) by (simp add: in_flight_settle [OF assms(2)] load_inv_def)

lemma tracks_new: "tracks \<lparr>loadingCount = 0, has_callback = True, in_flight = [], calls = []\<rparr> [] 0"
  by (simp add: tracks_def load_inv_def)

lemma tracks_loading: "tracks st ps n \<Longrightarrow> computeIsLoading (loadingCount st) \<longleftrightarrow> ps \<noteq> []"
  using arg_cong [of "map fst (in_flight st)" "map fst ps" length]
  by (auto simp: tracks_def load_inv_def computeIsLoading_def)

lemma tracks_pending: "tracks st ps n \<Longrightarrow> map_of ps k = Some r \<Longrightarrow> k < n"
  by (fastforce simp: tracks_def dest: map_of_SomeD)

text \<open>A promise that settles is forgotten; if it was the last one, completion is reported at the end.\<close>

lemma tracks_settle:
  assumes t: "tracks st ps n" and k: "map_of ps k = Some rq"
  shows "tracks (load_settle k r st) (filter (\<lambda>kr. fst kr \<noteq> k) ps) n"
    and "\<exists>h. drop (length (calls st)) (calls (load_settle k r st)) =
      (case r of Some e \<Rightarrow> if h then [ErrHandler k e] else [] | None \<Rightarrow> []) @
      (if filter (\<lambda>kr. fst kr \<noteq> k) ps = [] then [Complete] else [])"
proof -
  have inv: "load_inv True st" and names: "map fst (in_flight st) = map fst ps" using t by (simp_all add: tracks_def)
  have mem: "k \<in> fst ` set (in_flight st)"
    using names map_of_SomeD [OF k] by (metis fst_conv image_eqI list.set_map)
  then obtain h where h: "map_of (in_flight st) k = Some h" by (metis map_of_eq_None_iff option.exhaust)
  have fl: "map fst (in_flight (load_settle k r st)) = map fst (filter (\<lambda>kr. fst kr \<noteq> k) ps)"
    using settled_in_flight [OF inv h] names by (simp add: names_filter)
  then show "tracks (load_settle k r st) (filter (\<lambda>kr. fst kr \<noteq> k) ps) n"
    using t load_settle_inv [OF inv mem] by (simp add: tracks_def)
  have "length (in_flight (load_settle k r st)) + 1 = length (in_flight st)"
    using map_of_remove1 [OF h] by (simp add: in_flight_settle [OF h])
  moreover have "length (in_flight (load_settle k r st)) = length (filter (\<lambda>kr. fst kr \<noteq> k) ps)"
    using fl by (metis length_map)
  ultimately have "length (in_flight st) = 1 \<longleftrightarrow> filter (\<lambda>kr. fst kr \<noteq> k) ps = []" by auto
  then show "\<exists>h. drop (length (calls st)) (calls (load_settle k r st)) =
      (case r of Some e \<Rightarrow> if h then [ErrHandler k e] else [] | None \<Rightarrow> []) @
      (if filter (\<lambda>kr. fst kr \<noteq> k) ps = [] then [Complete] else [])"
    using new_calls [OF inv h] by (intro exI [of _ h]) simp
qed

section \<open>Retrying\<close>

text \<open>
  \<open>f n\<close> is the outcome of the \<open>n\<close>-th attempt, from 1 on: an error or a result. The answer is the
  last outcome, the number of attempts, and the waits between them.
\<close>

function retry_from ::
  "(nat \<Rightarrow> 'e + 'a) \<Rightarrow> ('e \<Rightarrow> bool) \<Rightarrow> nat \<Rightarrow> nat \<Rightarrow> nat \<Rightarrow> ('e + 'a) \<times> nat \<times> nat list" where
  "retry_from f shouldRetry num wait count =
     (let count = count + 1
      in case f count of
           Inr r \<Rightarrow> (Inr r, count, [])
         | Inl err \<Rightarrow>
             if count \<ge> num \<or> \<not> shouldRetry err then (Inl err, count, [])
             else (let (r, n, ws) = retry_from f shouldRetry num wait count in (r, n, wait # ws)))"
  by pat_completeness auto
termination
  by (relation "measure (\<lambda>(f, sr, num, wait, count). num - count)") auto

declare retry_from.simps [simp del]

definition retry :: "(nat \<Rightarrow> 'e + 'a) \<Rightarrow> ('e \<Rightarrow> bool) \<Rightarrow> nat \<Rightarrow> nat \<Rightarrow> ('e + 'a) \<times> nat \<times> nat list" where
  "retry f shouldRetry num wait = retry_from f shouldRetry num wait 0"

text \<open>An outcome after which the operation is tried again.\<close>

definition retried :: "('e \<Rightarrow> bool) \<Rightarrow> 'e + 'a \<Rightarrow> bool" where
  "retried shouldRetry r = (case r of Inl e \<Rightarrow> shouldRetry e | Inr _ \<Rightarrow> False)"

lemma retry_from_laws:
  "retry_from f sr num wait count = (r, n, ws) \<Longrightarrow>
     count < n \<and> n \<le> max num (count + 1) \<and> r = f n \<and> ws = replicate (n - count - 1) wait \<and>
     (\<forall>i. count < i \<and> i < n \<longrightarrow> retried sr (f i)) \<and> (retried sr r \<longrightarrow> num \<le> n)"
proof (induction f sr num wait count arbitrary: r n ws rule: retry_from.induct)
  case (1 f sr num wait count)
  show ?case
  proof (cases "retried sr (f (count + 1)) \<and> count + 1 < num")
    case False
    with "1.prems" show ?thesis
      by (auto simp: retry_from.simps [of f sr num wait count] retried_def split: sum.splits if_splits)
  next
    case True
    then obtain e where e: "f (count + 1) = Inl e" "sr e"
      by (auto simp: retried_def split: sum.splits)
    obtain r' n' ws' where rec: "retry_from f sr num wait (count + 1) = (r', n', ws')"
      by (cases "retry_from f sr num wait (count + 1)")
    with True e "1.prems" have eq: "r = r'" "n = n'" "ws = wait # ws'"
      by (simp_all add: retry_from.simps [of f sr num wait count])
    have IH: "count + 1 < n \<and> n \<le> max num (count + 2) \<and> r = f n \<and> ws' = replicate (n - (count + 1) - 1) wait \<and>
        (\<forall>i. count + 1 < i \<and> i < n \<longrightarrow> retried sr (f i)) \<and> (retried sr r \<longrightarrow> num \<le> n)"
      using "1.IH" [OF refl e(1) _ rec] True e eq by simp
    have "retried sr (f i)" if "count < i" "i < n" for i
      using that IH True by (cases "i = count + 1") auto
    moreover have "ws = replicate (n - count - 1) wait"
      using IH eq by (cases "n - count - 1") (auto simp: Suc_diff_Suc)
    ultimately show ?thesis using IH True by auto
  qed
qed

section \<open>Properties\<close>

text \<open>
  C9: Loading is counted exactly. In every reachable state the count is the number of loads in
  flight, so the component is loading exactly while one of them is pending; and once something
  was reported and nothing is pending any more, the last thing reported was the completion.
\<close>

theorem loading_exact:
  assumes "load_reachable cb st"
  shows "loadingCount st = int (length (in_flight st)) \<and>
         (computeIsLoading (loadingCount st) \<longleftrightarrow> in_flight st \<noteq> []) \<and>
         (cb \<and> calls st \<noteq> [] \<and> \<not> computeIsLoading (loadingCount st) \<longrightarrow> last (calls st) = Complete)"
  using load_reachable_inv [OF assms] by (auto simp: load_inv_def computeIsLoading_def)

theorem loading_exact_witness:
  "let st = load_settle 1 (Some ''x'') (load_start 1 True
       \<lparr>loadingCount = 0, has_callback = True, in_flight = [], calls = []\<rparr>)
   in calls st = [ErrHandler 1 ''x'', Complete] \<and> \<not> computeIsLoading (loadingCount st) \<and>
      last (calls st) = Complete"
proof -
  let ?i = "\<lparr>loadingCount = 0, has_callback = True, in_flight = [], calls = []\<rparr> :: string loader"
  let ?st = "load_settle 1 (Some ''x'') (load_start 1 True ?i)"
  have r1: "load_reachable True (load_start 1 True ?i)"
    by (rule load_reachable.step [OF load_reachable.init load_step.start]) simp
  have "load_reachable True ?st"
    by (rule load_reachable.step [OF r1 load_step.settle]) (simp add: load_start_def)
  from loading_exact [OF this] show ?thesis
    by (simp add: load_settle_def load_start_def set_loadingCount_def loadingCountChanged_def
      computeIsLoading_def)
qed

text \<open>
  Retrying. The operation is attempted at least once and, for a positive limit, at most that
  many times; every attempt but the last failed with an error that is worth retrying; the answer
  is the outcome of the last attempt; an error that is worth retrying is only given up at the
  limit; and all waits are equal, one before each further attempt.
\<close>

lemma retry_laws:
  "\<exists>n. retry f sr num wait = (f n, n, replicate (n - 1) wait) \<and> 1 \<le> n \<and> n \<le> max num 1 \<and>
       {i. 1 \<le> i \<and> i < n} \<subseteq> {i. retried sr (f i)} \<and> \<not> (retried sr (f n) \<and> n < num)"
proof -
  obtain r n ws where eq: "retry_from f sr num wait 0 = (r, n, ws)"
    by (cases "retry_from f sr num wait 0")
  from retry_from_laws [OF eq] eq show ?thesis
    by (intro exI [of _ n]) (auto simp: retry_def)
qed

end
