(* ===== verification/TestRunsLoader.thy ===== *)
theory TestRunsLoader
  imports ProductInfo
begin

text \<open>
  \<^verbatim>\<open>webapp/components/test-runs.js\<close>: loading the runs of a query, and further pages of them.
  What the server answers is an argument of the operations.
\<close>

text \<open>
  The body of an answer: an array of runs, a single run, or nothing (a body that is falsy). A
  request fails, is answered with an error status, or with a body and perhaps a token for the
  next page.
\<close>

datatype runs_body = RunArray "test_run list" | OneRun test_run | NoRuns

datatype runs_answer = NetworkError | NotOk | RunsOk runs_body "string option"

record runs_loader =
  testRuns :: "test_run list option"
  nextPageToken :: "string option"
  displayedProducts :: "product list"
  pages_in_flight :: "string list"
  load_events :: "test_run list list"

definition fireTestRunsLoadEvent :: "runs_loader \<Rightarrow> runs_loader" where
  "fireTestRunsLoadEvent st =
     st\<lparr>load_events := load_events st @ [case testRuns st of None \<Rightarrow> [] | Some rs \<Rightarrow> rs]\<rparr>"

definition body_runs :: "runs_body \<Rightarrow> test_run list" where
  "body_runs b = (case b of RunArray rs \<Rightarrow> rs | OneRun r \<Rightarrow> [r] | NoRuns \<Rightarrow> [])"

text \<open>
  \<open>loadRuns\<close>. The flag says that there is something to fetch (product specs or run ids). The
  preloaded runs come first. \<open>None\<close>: the request failed and the promise is rejected.
\<close>

definition loadRuns :: "bool \<Rightarrow> runs_answer \<Rightarrow> runs_loader \<Rightarrow> (runs_loader \<times> test_run list) option" where
  "loadRuns has_query ans st =
     (let preloaded = (case testRuns st of None \<Rightarrow> [] | Some rs \<Rightarrow> rs);
          finish = (\<lambda>st fetched.
            (let flattened = preloaded @ fetched;
                 st = st\<lparr>testRuns := Some flattened,
                         displayedProducts := map productFromRun flattened\<rparr>
             in Some (fireTestRunsLoadEvent st, flattened)))
      in if \<not> has_query then finish st []
         else (case ans of
                 NetworkError \<Rightarrow> None
               | NotOk \<Rightarrow> finish st []
               | RunsOk b token \<Rightarrow> finish (st\<lparr>nextPageToken := token\<rparr>) (body_runs b)))"

text \<open>\<open>loadMoreRuns\<close> up to its first \<open>await\<close>: the token is taken and the page requested.\<close>

definition loadMoreRuns_start :: "runs_loader \<Rightarrow> runs_loader" where
  "loadMoreRuns_start st =
     (if \<not> truthy (nextPageToken st) then st
      else st\<lparr>nextPageToken := None, pages_in_flight := the (nextPageToken st) # pages_in_flight st\<rparr>)"

text \<open>
  \<open>splice('testRuns', start, 0, ...runs)\<close>: a negative start counts from the end and is cut off
  at the beginning.
\<close>

definition splice_at :: "int \<Rightarrow> 'a list \<Rightarrow> 'a list \<Rightarrow> 'a list" where
  "splice_at start new xs =
     splice_in (nat (if start < 0 then max 0 (int (length xs) + start) else start)) new xs"

text \<open>\<open>loadMoreRuns\<close> from its first \<open>await\<close> on, when the page with this token is answered.\<close>

definition loadMoreRuns_answer ::
  "string \<Rightarrow> (test_run list \<times> string option) option \<Rightarrow> runs_loader \<Rightarrow> runs_loader" where
  "loadMoreRuns_answer token ans st =
     (let st = st\<lparr>pages_in_flight := remove1 token (pages_in_flight st)\<rparr>
      in case ans of
           None \<Rightarrow> st
         | Some (runs, next_token) \<Rightarrow>
             (let old = (case testRuns st of None \<Rightarrow> [] | Some rs \<Rightarrow> rs);
                  st = st\<lparr>testRuns := Some (splice_at (int (length old) - 1) runs old)\<rparr>
              in (fireTestRunsLoadEvent st)\<lparr>nextPageToken := next_token\<rparr>))"

section \<open>Paging as a step relation\<close>

text \<open>
  After the first load, the user scrolls (and asks for a page) and pages are answered, in any
  order. Each answer brings runs and a token; \<open>None\<close> is an error status.
\<close>

inductive page_step :: "runs_loader \<Rightarrow> runs_loader \<Rightarrow> bool" where
  scroll: "page_step st (loadMoreRuns_start st)"
| answered: "t \<in> set (pages_in_flight st) \<Longrightarrow> page_step st (loadMoreRuns_answer t ans st)"

inductive paged :: "runs_loader \<Rightarrow> runs_loader \<Rightarrow> bool" for st0 where
  refl: "paged st0 st0"
| step: "paged st0 st \<Longrightarrow> page_step st st' \<Longrightarrow> paged st0 st'"

inductive_cases page_stepE: "page_step st st'"

definition one_page :: "runs_loader \<Rightarrow> bool" where
  "one_page st \<longleftrightarrow>
     pages_in_flight st = [] \<or> (\<exists>t. pages_in_flight st = [t] \<and> nextPageToken st = None)"

lemma one_page_start: "one_page st \<Longrightarrow> one_page (loadMoreRuns_start st)"
  by (auto simp: one_page_def loadMoreRuns_start_def truthy_def)

lemma one_page_answer: "one_page st \<Longrightarrow> t \<in> set (pages_in_flight st) \<Longrightarrow> one_page (loadMoreRuns_answer t ans st)"
  by (auto simp: one_page_def loadMoreRuns_answer_def fireTestRunsLoadEvent_def Let_def
    split: option.splits)

lemma one_page_paged: "paged st0 st \<Longrightarrow> one_page st0 \<Longrightarrow> one_page st"
  by (induction rule: paged.induct) (auto elim!: page_stepE intro: one_page_start one_page_answer)

text \<open>The runs of a loader, and the effect of a page on them.\<close>

abbreviation runs_of :: "runs_loader \<Rightarrow> test_run list" where
  "runs_of st \<equiv> (case testRuns st of None \<Rightarrow> [] | Some rs \<Rightarrow> rs)"

lemma splice_before_last:
  "splice_at (int (length xs) - 1) new xs = (if xs = [] then new else butlast xs @ new @ [last xs])"
proof (cases xs rule: rev_cases)
  case Nil
  then show ?thesis by (simp add: splice_at_def splice_in_def)
next
  case (snoc ys y)
  then show ?thesis by (simp add: splice_at_def splice_in_def nat_add_distrib)
qed

lemma runs_of_answer:
  "runs_of (loadMoreRuns_answer t (Some (runs, tok)) st) =
     splice_at (int (length (runs_of st)) - 1) runs (runs_of st)"
  by (simp add: loadMoreRuns_answer_def fireTestRunsLoadEvent_def Let_def)

section \<open>Properties\<close>

text \<open>
  One page at a time. After a load that left no page in flight, however often the user
  scrolls and in whatever way pages are answered, at most one page is in flight, and while one
  is, the token is gone, so that no page is requested a second time.
\<close>

lemma one_page_in_flight:
  assumes "paged st0 st" and "pages_in_flight st0 = []"
  shows "length (pages_in_flight st) \<le> 1 \<and>
    (pages_in_flight st \<noteq> [] \<longrightarrow> nextPageToken st = None \<and> loadMoreRuns_start st = st)"
proof -
  have "one_page st" using one_page_paged [OF assms(1)] assms(2) by (simp add: one_page_def)
  then show ?thesis by (auto simp: one_page_def loadMoreRuns_start_def truthy_def)
qed

definition empty_loader :: runs_loader where
  "empty_loader = \<lparr>testRuns = Some [], nextPageToken = Some ''t'', displayedProducts = [],
     pages_in_flight = [], load_events = []\<rparr>"

theorem one_page_in_flight_witness:
  "pages_in_flight (loadMoreRuns_start empty_loader) = [''t''] \<and>
   loadMoreRuns_start (loadMoreRuns_start empty_loader) = loadMoreRuns_start empty_loader"
proof -
  have "paged empty_loader (loadMoreRuns_start empty_loader)"
    by (rule paged.step [OF paged.refl page_step.scroll])
  from one_page_in_flight [OF this] show ?thesis
    by (simp add: empty_loader_def loadMoreRuns_start_def truthy_def)
qed

text \<open>
  A further page is put before the last of the runs that are loaded, not after it: the last
  run of the first page stays the last one for ever, and the runs of later pages come before it.
  No run is lost, and the products that are displayed are not updated.
\<close>

lemma more_runs_before_last:
  assumes "runs_of st \<noteq> []"
  shows "runs_of (loadMoreRuns_answer t (Some (runs, tok)) st) =
           butlast (runs_of st) @ runs @ [last (runs_of st)] \<and>
         displayedProducts (loadMoreRuns_answer t (Some (runs, tok)) st) = displayedProducts st"
  using assms
  by (simp only: runs_of_answer splice_before_last)
    (simp add: loadMoreRuns_answer_def fireTestRunsLoadEvent_def Let_def)

definition sample_run :: "nat \<Rightarrow> test_run" where
  "sample_run n = \<lparr>browser_name = ''chrome'', browser_version = None, labels = None, revision = None,
     run_id = n, os_name = [], os_version = [], full_revision_hash = [], results_url = [], time_start = [], time_end = []\<rparr>"

theorem more_runs_before_last_witness:
  "runs_of (loadMoreRuns_answer ''t'' (Some ([sample_run 3], None))
     (empty_loader\<lparr>testRuns := Some [sample_run 1, sample_run 2]\<rparr>)) =
   [sample_run 1, sample_run 3, sample_run 2]"
  using more_runs_before_last [of "empty_loader\<lparr>testRuns := Some [sample_run 1, sample_run 2]\<rparr>"
    "''t''" "[sample_run 3]" None]
  by (simp add: empty_loader_def)

end
