(* ===== verification/WptResults.thy ===== *)
theory WptResults
  imports JsNumber
begin

text \<open>
  \<^verbatim>\<open>webapp/views/wpt-results.js\<close>, first part: the aggregation of search results into the rows of
  a folder and the totals below them, and the differences of two runs. \<open>None\<close> stands for an
  exception.
\<close>

section \<open>Results of the search\<close>

text \<open>One entry of \<open>legacy_status\<close>: the summary of one test in one run.\<close>

record run_result =
  rs_passes :: int
  rs_total :: int
  rs_status :: "string option"
  newAggProcess :: bool

text \<open>A difference: passes, regressions, total.\<close>

type_synonym diff = "int \<times> int \<times> int"

record search_result =
  sr_test :: string
  legacy_status :: "run_result list option"
  sr_diff :: "diff option"

record diff_results =
  renames :: "string obj option"
  diff_of :: "diff obj"

definition PASSING_STATUSES :: "string list" where
  "PASSING_STATUSES = [''O'', ''P'']"

definition isTestMissing :: "jsnum \<Rightarrow> string option \<Rightarrow> bool" where
  "isTestMissing tot status = (status = Some [] \<and> js_same tot (Num 0))"

definition passing :: "string option \<Rightarrow> bool" where
  "passing status = (case status of None \<Rightarrow> False | Some s \<Rightarrow> s \<in> set PASSING_STATUSES)"

definition isViewTestPass :: "jsnum \<Rightarrow> jsnum \<Rightarrow> string option \<Rightarrow> bool" where
  "isViewTestPass tot passes status =
     (js_same passes tot \<and> \<not> isTestMissing tot status \<and>
       (status = None \<or> status = Some [] \<or> passing status))"

section \<open>Rows and totals\<close>

text \<open>The counts of a cell or of a column of the totals, an object with these properties.\<close>

datatype field = Passes | Total | SubtestPasses | SubtestTotal | TestViewPasses | TestViewTotal

type_synonym counts = "field \<Rightarrow> jsnum"

record cell =
  cell_counts :: counts
  singleSubtest :: bool
  cell_status :: "string option"

record diff_counts =
  d_passes :: int
  d_regressions :: int
  d_total :: int

record row =
  row_path :: string
  isDir :: bool
  row_results :: "cell list"
  row_diff :: "diff_counts option"

text \<open>
  The object that the reduction accumulates: rows by name, and under the name \<open>totals\<close> the
  array of the totals, unless a file or folder of this name was there first.
\<close>

datatype node = Row row | Totals "counts list"

type_synonym nodes = "node obj"

definition bump :: "field \<Rightarrow> rat \<Rightarrow> counts \<Rightarrow> counts" where
  "bump f v c = c(f := js_add (c f) v)"

section \<open>Aggregation\<close>

definition aggregateTotalsBySubtest :: "bool \<Rightarrow> run_result \<Rightarrow> rat \<times> rat" where
  "aggregateTotalsBySubtest diffRun r =
     (let passes = rs_passes r; tot = rs_total r; status = rs_status r
      in if truthy status then
           (if diffRun then (of_int (if status = Some ''O'' then passes + 1 else passes), of_int (tot + 1))
            else if rs_total r = 0 then
              (of_int (if status = Some ''P'' then passes + 1 else passes), of_int (tot + 1))
            else (of_int passes, of_int tot))
         else (of_int passes, of_int tot))"

definition aggregateTotalsByTest :: "run_result \<Rightarrow> rat \<times> rat" where
  "aggregateTotalsByTest r =
     (let passingStatus = passing (rs_status r)
      in if \<not> newAggProcess r then
           (if rs_total r = 0 then (0, 0) else (of_int (rs_passes r) / of_int (rs_total r), 1))
         else if passingStatus \<and> rs_total r = 0 then (1, 1)
         else if rs_total r > 0 then (of_int (rs_passes r) / of_int (rs_total r), 1)
         else (0, 1))"

definition start_subtests :: "counts \<Rightarrow> counts" where
  "start_subtests c =
     (if c SubtestTotal = Undefined then
        c(SubtestPasses := Num 0, SubtestTotal := Num 0, TestViewPasses := Num 0, TestViewTotal := Num 0)
      else c)"

text \<open>What one result adds to the counts of its cell and of the totals.\<close>

definition contribution :: "bool \<Rightarrow> run_result \<Rightarrow> field \<Rightarrow> rat" where
  "contribution diffRun r f =
     (let (test_passes, test_total) = aggregateTotalsByTest r;
          (passes, tot) = aggregateTotalsBySubtest diffRun r
      in case f of
           Passes \<Rightarrow> test_passes
         | Total \<Rightarrow> test_total
         | SubtestPasses \<Rightarrow> passes
         | SubtestTotal \<Rightarrow> tot
         | TestViewPasses \<Rightarrow> if isViewTestPass (Num tot) (Num passes) (rs_status r) then 1 else 0
         | TestViewTotal \<Rightarrow> 1)"

definition add_tests :: "(field \<Rightarrow> rat) \<Rightarrow> counts \<Rightarrow> counts" where
  "add_tests k c = bump Total (k Total) (bump Passes (k Passes) c)"

definition add_subtests :: "(field \<Rightarrow> rat) \<Rightarrow> counts \<Rightarrow> counts" where
  "add_subtests k c =
     bump TestViewTotal (k TestViewTotal) (bump TestViewPasses (k TestViewPasses)
       (bump SubtestTotal (k SubtestTotal) (bump SubtestPasses (k SubtestPasses) c)))"

definition aggregate_cell :: "bool \<Rightarrow> run_result \<Rightarrow> cell \<Rightarrow> cell" where
  "aggregate_cell diffRun r c =
     (let status = rs_status r;
          isMissing = isTestMissing (Num (of_int (rs_total r))) status;
          k = contribution diffRun r
      in c\<lparr>singleSubtest := (rs_total r = 0 \<and> truthy status \<and> status \<noteq> Some ''O'') \<or> isMissing,
           cell_status := status,
           cell_counts := add_subtests k (start_subtests (add_tests k (cell_counts c)))\<rparr>)"

definition aggregate_totals :: "bool \<Rightarrow> run_result \<Rightarrow> counts \<Rightarrow> counts" where
  "aggregate_totals diffRun r c =
     (let k = contribution diffRun r in add_subtests k (add_tests k c))"

text \<open>The loop over the runs; a run without a cell or without totals throws.\<close>

fun aggregateTestTotals ::
  "bool \<Rightarrow> run_result list \<Rightarrow> cell list \<Rightarrow> counts list \<Rightarrow> (cell list \<times> counts list) option" where
  "aggregateTestTotals diffRun [] cells tots = Some (cells, tots)"
| "aggregateTestTotals diffRun (r # rs) (c # cells) (t # tots) =
     map_option
       (\<lambda>(cells', tots'). (aggregate_cell diffRun r c # cells', aggregate_totals diffRun r t # tots'))
       (aggregateTestTotals diffRun rs cells tots)"
| "aggregateTestTotals diffRun (r # rs) _ _ = None"

section \<open>Differences\<close>

text \<open>The answer \<open>None\<close> is \<open>undefined\<close>: the filter hides the difference.\<close>

definition computeDifferences :: "string \<Rightarrow> run_result \<Rightarrow> run_result \<Rightarrow> diff option" where
  "computeDifferences diffFilter before after =
     (let with_status = (\<lambda>r. if truthy (rs_status r)
            then (rs_passes r + (if passing (rs_status r) then 1 else 0), rs_total r + 1)
            else (rs_passes r, rs_total r));
          (beforePasses, beforeTotal) = with_status before;
          (afterPasses, afterTotal) = with_status after;
          deleted = (beforeTotal > 0 \<and> afterTotal = 0);
          added = (afterTotal > 0 \<and> beforeTotal = 0);
          has = (\<lambda>c. c \<in> set diffFilter)
      in if (deleted \<and> \<not> has (CHR ''D'')) \<or> (added \<and> \<not> has (CHR ''A'')) then None
         else
           (let failingBefore = beforeTotal - beforePasses;
                failingAfter = afterTotal - afterPasses;
                d = (max (afterPasses - beforePasses) 0, max (failingAfter - failingBefore) 0,
                     afterTotal - beforeTotal);
                hasChanges = (d \<noteq> (0, 0, 0))
            in if (has (CHR ''A'') \<and> added) \<or> (has (CHR ''D'') \<and> deleted) \<or>
                  (has (CHR ''C'') \<and> hasChanges) \<or> (has (CHR ''U'') \<and> \<not> hasChanges)
               then Some d else None))"

section \<open>The view\<close>

text \<open>What the aggregation reads of the view, and what it sets.\<close>

record results_view =
  view_path :: string
  searchResults :: "search_result list"
  run_count :: "nat option" \<comment> \<open>\<open>testRuns.length\<close>; \<open>None\<close>: \<open>testRuns\<close> is undefined\<close>
  diff_shown :: bool
  diffRun :: bool
  diffResults :: "diff_results option"
  diffFilter :: string
  onlyShowDifferences :: bool
  displayedNodes :: "row list"
  displayedTotals :: "node option"

definition path_prefix :: "results_view \<Rightarrow> string" where
  "path_prefix v = (if view_path v = ''/'' then ''/'' else view_path v @ ''/'')"

definition empty_cell :: cell where
  "empty_cell = \<lparr>cell_counts = (\<lambda>_. Undefined)(Passes := Num 0, Total := Num 0),
     singleSubtest = False, cell_status = None\<rparr>"

definition zero_counts :: counts where
  "zero_counts = (\<lambda>_. Num 0)"

text \<open>The name of the row for a test, and whether it is a folder.\<close>

definition row_name :: "string \<Rightarrow> string \<Rightarrow> string \<times> bool" where
  "row_name pre testPath =
     (let suffix = drop (length pre) testPath
      in case index_of (hd (split_on (CHR ''?'') suffix)) ''/'' of
           None \<Rightarrow> (suffix, False)
         | Some i \<Rightarrow> (take i suffix, True))"

definition collapsePathOnto :: "string \<Rightarrow> nat option \<Rightarrow> string \<Rightarrow> nodes \<Rightarrow> (string \<times> nodes) option" where
  "collapsePathOnto pre runs testPath ns =
     (let (nm, dir) = row_name pre testPath
      in if has_key ns nm then Some (nm, ns)
         else map_option
           (\<lambda>n. (nm, obj_set nm (Row \<lparr>row_path = pre @ nm, isDir = dir,
                      row_results = replicate n empty_cell, row_diff = None\<rparr>) ns)) runs)"

text \<open>The old path of a renamed test, where it has one.\<close>

definition previous_path :: "string obj \<Rightarrow> string \<Rightarrow> string option" where
  "previous_path rn testPath =
     map_option fst (find (\<lambda>e. snd e = testPath) (own_order rn))"

text \<open>The subtests of the test under its old name are added to the first run.\<close>

definition add_previous :: "run_result \<Rightarrow> row \<Rightarrow> row option" where
  "add_previous prev rw =
     (case row_results rw of
        [] \<Rightarrow> None
      | c # cs \<Rightarrow> Some (rw\<lparr>row_results :=
          c\<lparr>cell_counts := bump SubtestTotal (of_int (rs_total prev))
                (bump SubtestPasses (of_int (rs_passes prev)) (cell_counts c))\<rparr> # cs\<rparr>))"

definition merge_previous :: "results_view \<Rightarrow> string option \<Rightarrow> row \<Rightarrow> row option" where
  "merge_previous v previousTestPath rw =
     (if \<not> truthy previousTestPath then Some rw
      else (case find (\<lambda>r. sr_test r = the previousTestPath) (searchResults v) of
              None \<Rightarrow> Some rw
            | Some p \<Rightarrow>
                (case legacy_status p of Some (prev # _) \<Rightarrow> add_previous prev rw | _ \<Rightarrow> None)))"

definition result_diff :: "results_view \<Rightarrow> search_result \<Rightarrow> run_result \<Rightarrow> run_result \<Rightarrow> diff option" where
  "result_diff v r before after =
     (case diffResults v of
        Some dr \<Rightarrow> obj_get (diff_of dr) (sr_test r)
      | None \<Rightarrow>
          (case sr_diff r of
             Some d \<Rightarrow> Some d
           | None \<Rightarrow> computeDifferences (diffFilter v) before after))"

definition add_diff :: "diff option \<Rightarrow> row \<Rightarrow> row" where
  "add_diff d rw =
     (case d of
        None \<Rightarrow> rw
      | Some (p, g, t) \<Rightarrow>
          (let old = (case row_diff rw of
                        None \<Rightarrow> \<lparr>d_passes = 0, d_regressions = 0, d_total = 0\<rparr> | Some o1 \<Rightarrow> o1)
           in rw\<lparr>row_diff := Some \<lparr>d_passes = d_passes old + p,
                   d_regressions = d_regressions old + g, d_total = d_total old + t\<rparr>\<rparr>))"

definition merge_diff :: "results_view \<Rightarrow> search_result \<Rightarrow> run_result list \<Rightarrow> row \<Rightarrow> row" where
  "merge_diff v r rs rw =
     (case rs of
        [before, after] \<Rightarrow> if diff_shown v then add_diff (result_diff v r before after) rw else rw
      | _ \<Rightarrow> rw)"

text \<open>
  A result with a summary: the totals are created where they are missing, then row and totals
  are updated. If \<open>nodes[name]\<close> is not a row or \<open>nodes.totals\<close> not an array, then a nonempty
  summary throws; an empty one leaves everything as it is, except that the old name of a
  renamed test is looked up, which throws if the row is not a row.
\<close>

definition accumulate_status ::
  "results_view \<Rightarrow> search_result \<Rightarrow> string option \<Rightarrow> string \<Rightarrow> run_result list \<Rightarrow> nat \<Rightarrow> nodes \<Rightarrow> nodes option" where
  "accumulate_status v r previous nm rs n ns0 =
     (let ns = (if has_key ns0 ''totals'' then ns0
                else obj_set ''totals'' (Totals (replicate n zero_counts)) ns0)
      in case (obj_get ns nm, obj_get ns ''totals'') of
           (Some (Row rw), Some (Totals ts)) \<Rightarrow>
             (case aggregateTestTotals (diffRun v) rs (row_results rw) ts of
                None \<Rightarrow> None
              | Some (cells, ts') \<Rightarrow>
                  map_option
                    (\<lambda>rw'. obj_set nm (Row (merge_diff v r rs rw')) (obj_set ''totals'' (Totals ts') ns))
                    (merge_previous v previous (rw\<lparr>row_results := cells\<rparr>)))
         | (Some (Row rw), _) \<Rightarrow>
             if rs \<noteq> [] then None
             else map_option (\<lambda>rw'. obj_set nm (Row rw') ns) (merge_previous v previous rw)
         | _ \<Rightarrow>
             if rs \<noteq> [] \<or> (truthy previous \<and>
                  find (\<lambda>r. sr_test r = the previous) (searchResults v) \<noteq> None)
             then None else Some ns)"

definition accumulate_result :: "results_view \<Rightarrow> nodes \<Rightarrow> search_result \<Rightarrow> nodes option" where
  "accumulate_result v ns r =
     (let testPath = sr_test r;
          rn = (case diffResults v of None \<Rightarrow> None | Some dr \<Rightarrow> renames dr)
      in if (case rn of None \<Rightarrow> False | Some rn \<Rightarrow> has_key rn testPath) then Some ns
         else
           (case collapsePathOnto (path_prefix v) (run_count v) testPath ns of
              None \<Rightarrow> None
            | Some (nm, ns) \<Rightarrow>
                (case (legacy_status r, run_count v) of
                   (None, _) \<Rightarrow> Some ns
                 | (Some rs, None) \<Rightarrow> None
                 | (Some rs, Some n) \<Rightarrow>
                     accumulate_status v r (case rn of None \<Rightarrow> None | Some rn \<Rightarrow> previous_path rn testPath)
                       nm rs n ns)))"

fun accumulate :: "results_view \<Rightarrow> nodes \<Rightarrow> search_result list \<Rightarrow> nodes option" where
  "accumulate v ns [] = Some ns"
| "accumulate v ns (r # rs) =
     (case accumulate_result v ns r of None \<Rightarrow> None | Some ns' \<Rightarrow> accumulate v ns' rs)"

definition shown_row :: "results_view \<Rightarrow> node \<Rightarrow> row list" where
  "shown_row v nd =
     (case nd of
        Row rw \<Rightarrow> if onlyShowDifferences v \<and> row_diff rw = None then [] else [rw]
      | Totals _ \<Rightarrow> [])"

definition refreshDisplayedNodes :: "results_view \<Rightarrow> results_view option" where
  "refreshDisplayedNodes v =
     (if searchResults v = [] then Some (v\<lparr>displayedNodes := []\<rparr>)
      else
        map_option
          (\<lambda>ns. v\<lparr>displayedTotals := obj_get ns ''totals'',
                  displayedNodes :=
                    concat (map (\<lambda>kv. shown_row v (snd kv)) (own_order (obj_delete ''totals'' ns)))\<rparr>)
          (accumulate v [] (filter (\<lambda>r. starts_with (sr_test r) (path_prefix v)) (searchResults v))))"


section \<open>What the aggregation adds\<close>

text \<open>
  The reference: the summary of a result, the name of its row, what it adds at a run, and the sums
  over a list of results, of one row and of all.
\<close>

definition statuses_of :: "search_result \<Rightarrow> run_result list" where
  "statuses_of r = (case legacy_status r of None \<Rightarrow> [] | Some rs \<Rightarrow> rs)"

definition name_of :: "results_view \<Rightarrow> search_result \<Rightarrow> string" where
  "name_of v r = fst (row_name (path_prefix v) (sr_test r))"

definition adds_at :: "results_view \<Rightarrow> nat \<Rightarrow> field \<Rightarrow> search_result \<Rightarrow> rat" where
  "adds_at v i f r =
     (if i < length (statuses_of r) then contribution (diffRun v) (statuses_of r ! i) f else 0)"

definition row_sum :: "results_view \<Rightarrow> search_result list \<Rightarrow> string \<Rightarrow> nat \<Rightarrow> field \<Rightarrow> rat" where
  "row_sum v rs nm i f = sum_list (map (\<lambda>r. if name_of v r = nm then adds_at v i f r else 0) rs)"

definition all_sum :: "results_view \<Rightarrow> search_result list \<Rightarrow> nat \<Rightarrow> field \<Rightarrow> rat" where
  "all_sum v rs i f = sum_list (map (adds_at v i f) rs)"

lemma row_sum_snoc [simp]:
  "row_sum v (rs @ [r]) nm i f = row_sum v rs nm i f + (if name_of v r = nm then adds_at v i f r else 0)"
  by (simp add: row_sum_def)

lemma all_sum_snoc [simp]: "all_sum v (rs @ [r]) i f = all_sum v rs i f + adds_at v i f r"
  by (simp add: all_sum_def)

lemma row_sum_absent: "nm \<notin> name_of v ` set rs \<Longrightarrow> row_sum v rs nm i f = 0"
  unfolding row_sum_def by (induction rs) auto

text \<open>The counts of a cell: those of tests are numbers, those of subtests all or none.\<close>

definition is_num :: "jsnum \<Rightarrow> bool" where
  "is_num x = (x = Num (amount x))"

lemma is_num_simps [simp]: "is_num (Num q)" "\<not> is_num NaN" "\<not> is_num Undefined"
  by (simp_all add: is_num_def)

lemma js_add_num [simp]: "is_num x \<Longrightarrow> js_add x v = Num (amount x + v)"
  by (cases x) simp_all

definition counts_ok :: "counts \<Rightarrow> bool" where
  "counts_ok c \<longleftrightarrow> is_num (c Passes) \<and> is_num (c Total) \<and>
     ((\<forall>f. is_num (c f)) \<or> (\<forall>f. f \<notin> {Passes, Total} \<longrightarrow> c f = Undefined))"

definition counts_num :: "counts \<Rightarrow> bool" where
  "counts_num c \<longleftrightarrow> (\<forall>f. is_num (c f))"

lemma counts_num_ok [intro]: "counts_num c \<Longrightarrow> counts_ok c"
  by (simp add: counts_num_def counts_ok_def)

lemma all_fields: "(\<forall>f. P f) \<longleftrightarrow>
    P Passes \<and> P Total \<and> P SubtestPasses \<and> P SubtestTotal \<and> P TestViewPasses \<and> P TestViewTotal"
  by (metis field.exhaust)

lemma add_all:
  assumes "counts_num c"
  shows "add_subtests k (add_tests k c) = (\<lambda>f. Num (amount (c f) + k f))"
proof
  fix f
  from assms show "add_subtests k (add_tests k c) f = Num (amount (c f) + k f)"
    by (cases f) (simp_all add: add_subtests_def add_tests_def bump_def counts_num_def)
qed

lemma add_all_started:
  assumes "counts_ok c"
  shows "add_subtests k (start_subtests (add_tests k c)) = (\<lambda>f. Num (amount (c f) + k f))"
proof (cases "counts_num c")
  case True
  then have "start_subtests (add_tests k c) = add_tests k c"
    by (auto simp: start_subtests_def add_tests_def bump_def counts_num_def all_fields)
  with add_all [OF True] show ?thesis by simp
next
  case False
  with assms have "c f = Undefined" if "f \<notin> {Passes, Total}" for f
    using that by (auto simp: counts_ok_def counts_num_def)
  then have u: "c SubtestPasses = Undefined" "c SubtestTotal = Undefined"
    "c TestViewPasses = Undefined" "c TestViewTotal = Undefined" by simp_all
  show ?thesis
  proof
    fix f
    from u assms show "add_subtests k (start_subtests (add_tests k c)) f = Num (amount (c f) + k f)"
      by (cases f) (simp_all add: add_subtests_def start_subtests_def add_tests_def bump_def counts_ok_def)
  qed
qed

lemma aggregateTestTotals_spec:
  "aggregateTestTotals d rs cells ts = Some (cells', ts') \<Longrightarrow>
     list_all (\<lambda>c. counts_ok (cell_counts c)) cells \<Longrightarrow> list_all counts_num ts \<Longrightarrow>
     length cells' = length cells \<and> length ts' = length ts \<and>
     list_all (\<lambda>c. counts_ok (cell_counts c)) cells' \<and> list_all counts_num ts' \<and>
     (\<forall>i f. i < length cells \<longrightarrow> amount (cell_counts (cells' ! i) f) =
        amount (cell_counts (cells ! i) f) + (if i < length rs then contribution d (rs ! i) f else 0)) \<and>
     (\<forall>i f. i < length ts \<longrightarrow> amount ((ts' ! i) f) =
        amount ((ts ! i) f) + (if i < length rs then contribution d (rs ! i) f else 0))"
proof (induction d rs cells ts arbitrary: cells' ts' rule: aggregateTestTotals.induct)
  case (1 d cells ts)
  then show ?case by simp
next
  case (2 d r rs c cells t ts)
  from "2.prems"(1) obtain cs us where rec: "aggregateTestTotals d rs cells ts = Some (cs, us)"
    and eq: "cells' = aggregate_cell d r c # cs" "ts' = aggregate_totals d r t # us"
    by (auto split: option.splits)
  have IH: "length cs = length cells" "length us = length ts"
    "list_all (\<lambda>c. counts_ok (cell_counts c)) cs" "list_all counts_num us"
    "\<forall>i f. i < length cells \<longrightarrow> amount (cell_counts (cs ! i) f) =
        amount (cell_counts (cells ! i) f) + (if i < length rs then contribution d (rs ! i) f else 0)"
    "\<forall>i f. i < length ts \<longrightarrow> amount ((us ! i) f) =
        amount ((ts ! i) f) + (if i < length rs then contribution d (rs ! i) f else 0)"
    using "2.IH" [OF rec] "2.prems"(2,3) by simp_all
  have c: "cell_counts (aggregate_cell d r c) = (\<lambda>f. Num (amount (cell_counts c f) + contribution d r f))"
    using "2.prems"(2) by (simp add: aggregate_cell_def Let_def add_all_started)
  have t: "aggregate_totals d r t = (\<lambda>f. Num (amount (t f) + contribution d r f))"
    using "2.prems"(3) by (simp add: aggregate_totals_def Let_def add_all)
  have "counts_ok (cell_counts (aggregate_cell d r c))" "counts_num (aggregate_totals d r t)"
    unfolding c t by (auto simp: counts_num_def)
  then show ?case
    using IH by (auto simp: eq c t nth_Cons split: nat.split)
qed simp_all


section \<open>The invariant of the aggregation\<close>

text \<open>
  After the results in \<open>done\<close>: every row holds the sums of its results, the totals the sums of all
  of them. A result whose row would be named like the totals has an empty summary, or else the
  aggregation would have thrown.
\<close>

definition node_ok :: "results_view \<Rightarrow> nat \<Rightarrow> search_result list \<Rightarrow> string \<Rightarrow> node \<Rightarrow> bool" where
  "node_ok v n don k nd =
     (case nd of
        Row rw \<Rightarrow> row_path rw = path_prefix v @ k \<and> length (row_results rw) = n \<and>
          list_all (\<lambda>c. counts_ok (cell_counts c)) (row_results rw) \<and>
          (\<forall>i f. i < n \<longrightarrow> amount (cell_counts (row_results rw ! i) f) = row_sum v don k i f)
      | Totals ts \<Rightarrow> k = ''totals'' \<and> length ts = n \<and> list_all counts_num ts \<and>
          (\<forall>i f. i < n \<longrightarrow> amount ((ts ! i) f) = all_sum v don i f))"

definition nodes_ok :: "results_view \<Rightarrow> nat \<Rightarrow> search_result list \<Rightarrow> nodes \<Rightarrow> bool" where
  "nodes_ok v n don ns \<longleftrightarrow>
     distinct (obj_keys ns) \<and>
     name_of v ` set don \<subseteq> set (obj_keys ns) \<and>
     set (obj_keys ns) \<subseteq> insert ''totals'' (name_of v ` set don) \<and>
     (\<forall>r \<in> set don. name_of v r = ''totals'' \<longrightarrow> statuses_of r = []) \<and>
     (\<not> has_key ns ''totals'' \<longrightarrow> (\<forall>r \<in> set don. statuses_of r = [])) \<and>
     (\<forall>k nd. obj_get ns k = Some nd \<longrightarrow> node_ok v n don k nd)"

definition no_renames :: "results_view \<Rightarrow> bool" where
  "no_renames v = (case diffResults v of None \<Rightarrow> True | Some dr \<Rightarrow> renames dr = None)"

lemma has_key_in_keys: "has_key ns k \<longleftrightarrow> k \<in> set (obj_keys ns)"
  by (simp add: has_key_iff)

lemma keys_set: "set (obj_keys (obj_set k x ns)) = insert k (set (obj_keys ns))"
  by (induction ns) auto

lemma obj_get_set': "obj_get (obj_set k x ns) k' = (if k' = k then Some x else obj_get ns k')"
  by (rule obj_get_set)

lemma adds_at_empty [simp]: "statuses_of r = [] \<Longrightarrow> adds_at v i f r = 0"
  by (simp add: adds_at_def)

lemma all_sum_empty: "\<forall>r \<in> set don. statuses_of r = [] \<Longrightarrow> all_sum v don i f = 0"
  unfolding all_sum_def by (induction don) auto

text \<open>A result with an empty summary leaves the nodes in order once its name is among them.\<close>

lemma node_ok_empty:
  "statuses_of r = [] \<Longrightarrow> node_ok v n (don @ [r]) k nd = node_ok v n don k nd"
  by (simp add: node_ok_def split: node.split)

lemma collapse_ok:
  assumes ok: "nodes_ok v n don ns" and runs: "run_count v = Some n"
    and c: "collapsePathOnto (path_prefix v) (run_count v) (sr_test r) ns = Some (nm, ns1)"
  shows "nm = name_of v r" "has_key ns1 nm" "distinct (obj_keys ns1)"
    "set (obj_keys ns1) = insert nm (set (obj_keys ns))"
    "obj_get ns1 k = Some nd \<Longrightarrow> node_ok v n don k nd"
proof -
  obtain d where rn: "row_name (path_prefix v) (sr_test r) = (name_of v r, d)"
    by (metis name_of_def prod.collapse)
  let ?new = "Row \<lparr>row_path = path_prefix v @ nm, isDir = d,
                row_results = replicate n empty_cell, row_diff = None\<rparr>"
  from c rn runs have nm: "nm = name_of v r"
    and ns1: "ns1 = (if has_key ns nm then ns else obj_set nm ?new ns)"
    by (auto simp: collapsePathOnto_def Let_def split: if_splits)
  from nm show "nm = name_of v r" .
  from ns1 show "has_key ns1 nm" by simp
  from ns1 ok show "distinct (obj_keys ns1)" by (simp add: nodes_ok_def distinct_keys_set)
  from ns1 show "set (obj_keys ns1) = insert nm (set (obj_keys ns))"
    by (auto simp: keys_set has_key_in_keys simp del: set_map)
  show "node_ok v n don k nd" if "obj_get ns1 k = Some nd"
  proof (cases "has_key ns nm \<or> k \<noteq> nm")
    case True
    with that ns1 have "obj_get ns k = Some nd" by (auto simp: obj_get_set' split: if_splits)
    with ok show ?thesis by (simp add: nodes_ok_def)
  next
    case False
    with that ns1 have nd: "k = nm" "nd = ?new" by (auto simp: obj_get_set')
    have "nm \<notin> name_of v ` set don"
      using ok False by (auto simp: nodes_ok_def has_key_in_keys)
    then have z: "row_sum v don nm i f = 0" for i f by (rule row_sum_absent)
    have "amount (cell_counts empty_cell f) = 0" for f
      by (cases f) (simp_all add: empty_cell_def)
    moreover have "counts_ok (cell_counts empty_cell)"
      by (auto simp: counts_ok_def empty_cell_def)
    ultimately show ?thesis unfolding nd by (simp add: node_ok_def z list_all_length)
  qed
qed

lemma row_merge_diff [simp]:
  "row_path (merge_diff v r rs rw) = row_path rw" "row_results (merge_diff v r rs rw) = row_results rw"
  by (auto simp: merge_diff_def add_diff_def Let_def split: list.split option.split)

text \<open>The update of a row and of the totals.\<close>

lemma status_ok:
  assumes get: "obj_get ns nm = Some (Row rw)" "obj_get ns ''totals'' = Some (Totals ts)"
    and node: "\<And>k nd. obj_get ns k = Some nd \<Longrightarrow> node_ok v n don k nd"
    and agg: "aggregateTestTotals (diffRun v) (statuses_of r) (row_results rw) ts = Some (cells, ts')"
    and nm: "nm = name_of v r" and path: "row_path rw' = row_path rw" "row_results rw' = cells"
    and get': "obj_get (obj_set nm (Row rw') (obj_set ''totals'' (Totals ts') ns)) k = Some nd"
  shows "node_ok v n (don @ [r]) k nd"
proof -
  from node [OF get(1)] have row: "row_path rw = path_prefix v @ nm" "length (row_results rw) = n"
    "list_all (\<lambda>c. counts_ok (cell_counts c)) (row_results rw)"
    "\<forall>i f. i < n \<longrightarrow> amount (cell_counts (row_results rw ! i) f) = row_sum v don nm i f"
    by (simp_all add: node_ok_def)
  from node [OF get(2)] have tot: "length ts = n" "list_all counts_num ts"
    "\<forall>i f. i < n \<longrightarrow> amount ((ts ! i) f) = all_sum v don i f"
    by (simp_all add: node_ok_def)
  note spec = aggregateTestTotals_spec [OF agg row(3) tot(2)]
  have ne: "nm \<noteq> ''totals''" using get by auto
  consider "k = nm" | "k = ''totals''" | "k \<noteq> nm" "k \<noteq> ''totals''" by blast
  then show ?thesis
  proof cases
    case 1
    with get' have "nd = Row rw'" by (simp add: obj_get_set')
    with 1 row spec path nm show ?thesis by (simp add: node_ok_def adds_at_def)
  next
    case 2
    with get' ne have "nd = Totals ts'" by (simp add: obj_get_set')
    with 2 tot spec show ?thesis by (simp add: node_ok_def adds_at_def)
  next
    case 3
    with get' have "obj_get ns k = Some nd" by (simp add: obj_get_set')
    from node [OF this] 3 nm show ?thesis
      by (cases nd) (auto simp: node_ok_def)
  qed
qed

definition with_totals :: "nat \<Rightarrow> nodes \<Rightarrow> nodes" where
  "with_totals n ns =
     (if has_key ns ''totals'' then ns else obj_set ''totals'' (Totals (replicate n zero_counts)) ns)"

lemma merge_previous_None [simp]: "merge_previous v None rw = Some rw"
  by (simp add: merge_previous_def truthy_def)

lemma merge_diff_empty [simp]: "merge_diff v r [] rw = rw"
  by (simp add: merge_diff_def)

lemma obj_set_same: "obj_get ns k = Some x \<Longrightarrow> obj_set k x ns = ns"
  by (induction ns) (auto split: if_splits)

lemma status_empty:
  assumes "accumulate_status v r None nm [] n ns = Some ns'"
  shows "ns' = with_totals n ns"
  using assms unfolding accumulate_status_def Let_def with_totals_def [symmetric]
  by (cases "obj_get (with_totals n ns) nm"; cases "obj_get (with_totals n ns) ''totals''")
    (auto simp: truthy_def obj_set_same split: node.splits)

lemma status_full:
  assumes "accumulate_status v r None nm rs n ns = Some ns'" and "rs \<noteq> []"
  obtains rw ts cells ts' where "obj_get (with_totals n ns) nm = Some (Row rw)"
    "obj_get (with_totals n ns) ''totals'' = Some (Totals ts)"
    "aggregateTestTotals (diffRun v) rs (row_results rw) ts = Some (cells, ts')"
    "ns' = obj_set nm (Row (merge_diff v r rs (rw\<lparr>row_results := cells\<rparr>)))
             (obj_set ''totals'' (Totals ts') (with_totals n ns))"
  using assms unfolding accumulate_status_def Let_def with_totals_def [symmetric]
  by (cases "obj_get (with_totals n ns) nm"; cases "obj_get (with_totals n ns) ''totals''")
    (auto split: node.splits option.splits)

lemma accumulate_result_ok:
  assumes ok: "nodes_ok v n don ns" and runs: "run_count v = Some n" and nr: "no_renames v"
    and acc: "accumulate_result v ns r = Some ns'"
  shows "nodes_ok v n (don @ [r]) ns'"
proof -
  have rn: "(case diffResults v of None \<Rightarrow> None | Some dr \<Rightarrow> renames dr) = None"
    using nr by (auto simp: no_renames_def split: option.splits)
  with acc obtain nm ns1 where
    c: "collapsePathOnto (path_prefix v) (run_count v) (sr_test r) ns = Some (nm, ns1)"
    by (auto simp: accumulate_result_def Let_def split: option.splits)
  note C = collapse_ok [OF ok runs c]
  have keys1: "name_of v ` set (don @ [r]) \<subseteq> set (obj_keys ns1)"
    "set (obj_keys ns1) \<subseteq> insert ''totals'' (name_of v ` set (don @ [r]))"
    using ok C(1,4) by (auto simp: nodes_ok_def simp del: set_map)
  show ?thesis
  proof (cases "legacy_status r")
    case None
    with acc rn c runs have "ns' = ns1" by (simp add: accumulate_result_def Let_def)
    moreover have "statuses_of r = []" using None by (simp add: statuses_of_def)
    moreover have "\<not> has_key ns1 ''totals'' \<Longrightarrow> \<not> has_key ns ''totals''"
      using C(4) by (auto simp: has_key_in_keys simp del: set_map)
    ultimately show ?thesis
      using ok C(3,5) keys1 by (auto simp: nodes_ok_def node_ok_empty)
  next
    case (Some rs)
    then have rs: "statuses_of r = rs" by (simp add: statuses_of_def)
    define ns2 where "ns2 = with_totals n ns1"
    have acc2: "accumulate_status v r None nm rs n ns1 = Some ns'"
      using acc rn c runs Some by (simp add: accumulate_result_def Let_def)
    have t2: "has_key ns2 ''totals''" by (simp add: ns2_def with_totals_def)
    have d2: "distinct (obj_keys ns2)" using C(3) by (simp add: ns2_def with_totals_def distinct_keys_set)
    have k2: "set (obj_keys ns2) = insert ''totals'' (set (obj_keys ns1))"
      by (auto simp: ns2_def with_totals_def keys_set has_key_in_keys simp del: set_map)
    have node2: "node_ok v n don k nd" if g: "obj_get ns2 k = Some nd" for k nd
    proof (cases "has_key ns1 ''totals'' \<or> k \<noteq> ''totals''")
      case True
      with g have "obj_get ns1 k = Some nd" by (auto simp: ns2_def with_totals_def obj_get_set' split: if_splits)
      then show ?thesis by (rule C(5))
    next
      case False
      with g have nd: "k = ''totals''" "nd = Totals (replicate n zero_counts)"
        by (auto simp: ns2_def with_totals_def obj_get_set')
      have "\<not> has_key ns ''totals''"
        using False C(4) by (auto simp: has_key_in_keys simp del: set_map)
      with ok have "all_sum v don i f = 0" for i f by (simp add: nodes_ok_def all_sum_empty)
      then show ?thesis
        unfolding nd by (simp add: node_ok_def zero_counts_def counts_num_def list_all_length)
    qed
    show ?thesis
    proof (cases "rs = []")
      case True
      with acc2 have "ns' = ns2" by (simp add: ns2_def status_empty)
      then show ?thesis
        using ok node2 keys1 k2 t2 d2 rs True
        by (auto simp: nodes_ok_def node_ok_empty simp del: set_map)
    next
      case False
      from status_full [OF acc2 False] obtain rw ts cells ts' where g:
        "obj_get ns2 nm = Some (Row rw)" "obj_get ns2 ''totals'' = Some (Totals ts)"
        "aggregateTestTotals (diffRun v) rs (row_results rw) ts = Some (cells, ts')"
        and ns': "ns' = obj_set nm (Row (merge_diff v r rs (rw\<lparr>row_results := cells\<rparr>)))
             (obj_set ''totals'' (Totals ts') ns2)"
        unfolding ns2_def by blast
      have "node_ok v n (don @ [r]) k nd" if "obj_get ns' k = Some nd" for k nd
        using status_ok [OF g(1,2) node2 g(3) [folded rs] C(1) _ _ that [unfolded ns' rs [symmetric]]]
        by simp
      moreover have "nm \<noteq> ''totals''" using g(1,2) by auto
      moreover have "has_key ns' ''totals''" by (simp add: ns')
      moreover have "distinct (obj_keys ns')" using d2 by (simp add: ns' distinct_keys_set)
      moreover have "set (obj_keys ns') = set (obj_keys ns2)"
        using k2 keys1(1) C(1) by (auto simp: ns' keys_set simp del: set_map)
      ultimately show ?thesis
        using ok keys1 k2 C(1) by (auto simp: nodes_ok_def simp del: set_map)
    qed
  qed
qed

lemma accumulate_ok:
  "nodes_ok v n don ns \<Longrightarrow> run_count v = Some n \<Longrightarrow> no_renames v \<Longrightarrow>
     accumulate v ns rs = Some ns' \<Longrightarrow> nodes_ok v n (don @ rs) ns'"
proof (induction rs arbitrary: don ns)
  case (Cons r rs)
  from Cons.prems(4) obtain ns1 where "accumulate_result v ns r = Some ns1" "accumulate v ns1 rs = Some ns'"
    by (auto split: option.splits)
  with Cons.IH [of "don @ [r]" ns1] accumulate_result_ok [OF Cons.prems(1-3)] Cons.prems(2,3)
  show ?case by simp
qed simp


section \<open>The displayed rows\<close>

definition matching :: "results_view \<Rightarrow> search_result list" where
  "matching v = filter (\<lambda>r. starts_with (sr_test r) (path_prefix v)) (searchResults v)"

lemma refreshed:
  assumes "refreshDisplayedNodes v = Some v'" "searchResults v \<noteq> []" "run_count v = Some n" "no_renames v"
  obtains ns where "nodes_ok v n (matching v) ns" "displayedTotals v' = obj_get ns ''totals''"
    "displayedNodes v' = concat (map (\<lambda>kv. shown_row v (snd kv)) (own_order (obj_delete ''totals'' ns)))"
proof -
  from assms(1,2) obtain ns where ns: "accumulate v [] (matching v) = Some ns"
    "displayedTotals v' = obj_get ns ''totals''"
    "displayedNodes v' = concat (map (\<lambda>kv. shown_row v (snd kv)) (own_order (obj_delete ''totals'' ns)))"
    by (auto simp: refreshDisplayedNodes_def matching_def)
  have "nodes_ok v n [] []" by (simp add: nodes_ok_def has_key_def)
  from accumulate_ok [OF this assms(3,4) ns(1)] ns(2,3) show thesis by (intro that) simp_all
qed

lemma map_of_deleted:
  "distinct (obj_keys ns) \<Longrightarrow> (k, nd) \<in> set (obj_delete t ns) \<Longrightarrow> obj_get ns k = Some nd \<and> k \<noteq> t"
  by (auto simp: AList.delete_eq)

lemma row_sum_filter:
  "row_sum v rs nm i f = sum_list (map (adds_at v i f) (filter (\<lambda>r. name_of v r = nm) rs))"
  unfolding row_sum_def by (induction rs) auto

lemma shown_sum:
  "\<not> onlyShowDifferences v \<Longrightarrow>
   sum_list (map g (concat (map (\<lambda>kv. shown_row v (snd kv)) kvs))) =
   (\<Sum>kv\<leftarrow>kvs. case snd kv of Row rw \<Rightarrow> g rw | Totals _ \<Rightarrow> (0 :: rat))"
  by (induction kvs) (auto simp: shown_row_def split: node.split)

lemma sum_one_name:
  "distinct ks \<Longrightarrow> (\<Sum>k\<leftarrow>ks. if x = k then c else (0 :: rat)) = (if x \<in> set ks then c else 0)"
  by (induction ks) auto

lemma sum_of_row_sums:
  assumes "distinct ks" and "\<forall>r \<in> set rs. name_of v r \<in> set ks \<or> statuses_of r = []"
  shows "(\<Sum>k\<leftarrow>ks. row_sum v rs k i f) = all_sum v rs i f"
  using assms(2)
proof (induction rs)
  case Nil
  show ?case by (simp add: row_sum_def all_sum_def)
next
  case (Cons r rs)
  have "(\<Sum>k\<leftarrow>ks. row_sum v (r # rs) k i f) =
      (\<Sum>k\<leftarrow>ks. if name_of v r = k then adds_at v i f r else 0) + (\<Sum>k\<leftarrow>ks. row_sum v rs k i f)"
    by (simp add: row_sum_def sum_list_addf)
  with Cons assms(1) show ?case by (auto simp: sum_one_name all_sum_def)
qed

lemma distinct_shown_paths:
  assumes "distinct (obj_keys kvs)"
    and "\<And>k nd. (k, nd) \<in> set kvs \<Longrightarrow> node_ok v n rs k nd"
  shows "distinct (map row_path (concat (map (\<lambda>kv. shown_row v (snd kv)) kvs)))"
  using assms
proof (induction kvs)
  case (Cons kv kvs)
  obtain k nd where kv: "kv = (k, nd)" by (cases kv)
  have path: "\<exists>k' nd'. (k', nd') \<in> set kvs \<and> row_path rw = path_prefix v @ k'"
    if rw: "rw \<in> set (concat (map (\<lambda>kv. shown_row v (snd kv)) kvs))" for rw
  proof -
    from rw obtain k' nd' where "(k', nd') \<in> set kvs" "rw \<in> set (shown_row v nd')" by auto
    moreover from this Cons.prems(2) have "node_ok v n rs k' nd'" by simp
    ultimately show ?thesis by (auto simp: shown_row_def node_ok_def split: node.splits if_splits)
  qed
  have k: "k \<notin> fst ` set kvs" using Cons.prems(1) kv by simp
  have "row_path rw \<noteq> path_prefix v @ k"
    if "rw \<in> set (concat (map (\<lambda>kv. shown_row v (snd kv)) kvs))" for rw
    using path [OF that] k by force
  then have new: "path_prefix v @ k \<notin> row_path ` set (concat (map (\<lambda>kv. shown_row v (snd kv)) kvs))"
    by (metis imageE)
  moreover have "shown_row v nd = [] \<or> (\<exists>rw. shown_row v nd = [rw] \<and> row_path rw = path_prefix v @ k)"
    using Cons.prems(2) [of k nd] kv by (auto simp: shown_row_def node_ok_def split: node.split)
  moreover have "distinct (map row_path (concat (map (\<lambda>kv. shown_row v (snd kv)) kvs)))"
    using Cons by simp
  ultimately show ?case
    by (elim disjE exE conjE) (simp_all add: kv del: set_concat)
qed simp

lemma distinct_own_order:
  fixes o1 :: "'v obj"
  assumes d: "distinct (obj_keys o1)"
  shows "distinct (obj_keys (own_order o1))"
proof -
  have "distinct (obj_keys (sort_key k xs))" if "distinct (obj_keys xs)" for k :: "_ \<Rightarrow> nat" and xs :: "'v obj"
    using that by (simp add: distinct_map)
  moreover have "distinct (obj_keys (filter P o1))" for P using d by (simp add: distinct_map_filter)
  moreover have "fst ` set (filter P o1) \<inter> fst ` set (filter (\<lambda>x. \<not> P x) o1) = {}" for P
    using d by (auto simp: distinct_map inj_on_def)
  ultimately show ?thesis by (simp add: own_order_def)
qed

text \<open>A row shows the sums of the results below it.\<close>

lemma row_is_sum:
  assumes "refreshDisplayedNodes v = Some v'" "searchResults v \<noteq> []" "run_count v = Some n" "no_renames v"
    and "rw \<in> set (displayedNodes v')"
  obtains nm where "row_path rw = path_prefix v @ nm" "nm \<in> name_of v ` set (matching v)"
    "length (row_results rw) = n" "\<And>i. i < n \<Longrightarrow> counts_ok (cell_counts (row_results rw ! i))"
    "\<And>i f. i < n \<Longrightarrow> amount (cell_counts (row_results rw ! i) f) = row_sum v (matching v) nm i f"
proof -
  obtain ns where ns: "nodes_ok v n (matching v) ns" "displayedNodes v' =
     concat (map (\<lambda>kv. shown_row v (snd kv)) (own_order (obj_delete ''totals'' ns)))"
    by (rule refreshed [OF assms(1-4)])
  from assms(5) ns(2) obtain k nd where k: "(k, nd) \<in> set (obj_delete ''totals'' ns)" "rw \<in> set (shown_row v nd)"
    by auto
  then have rw: "nd = Row rw" by (auto simp: shown_row_def split: node.splits if_splits)
  have "distinct (obj_keys ns)" using ns(1) by (simp add: nodes_ok_def)
  from map_of_deleted [OF this k(1)] have get: "obj_get ns k = Some nd" "k \<noteq> ''totals''" by simp_all
  then have "node_ok v n (matching v) k (Row rw)" using ns(1) rw by (simp add: nodes_ok_def)
  moreover have "k \<in> name_of v ` set (matching v)"
  proof -
    have "k \<in> set (obj_keys ns)" using map_of_SomeD [OF get(1)] by (metis fst_conv image_eqI list.set_map)
    moreover have "set (obj_keys ns) \<subseteq> insert ''totals'' (name_of v ` set (matching v))"
      using ns(1) unfolding nodes_ok_def by blast
    ultimately show ?thesis using get(2) by blast
  qed
  ultimately show thesis
    by (intro that [of k]) (auto simp: node_ok_def list_all_length)
qed


text \<open>The columns of the displayed rows.\<close>

lemma column_sum:
  assumes v: "refreshDisplayedNodes v = Some v'" "searchResults v \<noteq> []" "run_count v = Some n" "no_renames v"
    and all: "\<not> onlyShowDifferences v" and i: "i < n"
    and ts: "displayedTotals v' = Some (Totals ts)"
  shows "length ts = n" "(ts ! i) f = Num (all_sum v (matching v) i f)"
    "(\<Sum>rw\<leftarrow>displayedNodes v'. amount (cell_counts (row_results rw ! i) f)) = all_sum v (matching v) i f"
    "distinct (map row_path (displayedNodes v'))"
proof -
  obtain ns where ns: "nodes_ok v n (matching v) ns" "displayedTotals v' = obj_get ns ''totals''"
    "displayedNodes v' = concat (map (\<lambda>kv. shown_row v (snd kv)) (own_order (obj_delete ''totals'' ns)))"
    by (rule refreshed [OF v])
  let ?del = "obj_delete ''totals'' ns"
  have d: "distinct (obj_keys ns)" using ns(1) unfolding nodes_ok_def by blast
  then have dd: "distinct (obj_keys ?del)" by (rule distinct_delete)
  have node: "node_ok v n (matching v) k nd" if "(k, nd) \<in> set ?del" for k nd
    using ns(1) map_of_deleted [OF d that] unfolding nodes_ok_def by blast
  have "node_ok v n (matching v) ''totals'' (Totals ts)"
    using ns(1,2) ts unfolding nodes_ok_def by simp
  then have t: "length ts = n" "list_all counts_num ts"
    "\<forall>i f. i < n \<longrightarrow> amount ((ts ! i) f) = all_sum v (matching v) i f"
    by (simp_all add: node_ok_def)
  then show "length ts = n" by simp
  have "is_num ((ts ! i) f)" using t(1,2) i by (simp add: list_all_length counts_num_def)
  with t(3) i show "(ts ! i) f = Num (all_sum v (matching v) i f)" by (simp add: is_num_def)
  show "distinct (map row_path (displayedNodes v'))"
    unfolding ns(3)
    by (rule distinct_shown_paths [OF distinct_own_order [OF dd], where n = n and rs = "matching v"])
      (simp add: node)
  have "(\<Sum>rw\<leftarrow>displayedNodes v'. amount (cell_counts (row_results rw ! i) f)) =
      (\<Sum>kv\<leftarrow>?del. case snd kv of Row rw \<Rightarrow> amount (cell_counts (row_results rw ! i) f) | Totals _ \<Rightarrow> 0)"
    unfolding ns(3) shown_sum [OF all] by (rule sum_list_own_order)
  also have "\<dots> = (\<Sum>kv\<leftarrow>?del. row_sum v (matching v) (fst kv) i f)"
  proof (intro arg_cong [where f = sum_list] map_cong refl)
    fix kv assume "kv \<in> set ?del"
    then have "node_ok v n (matching v) (fst kv) (snd kv)" "fst kv \<noteq> ''totals''"
      using node map_of_deleted [OF d] by (metis prod.collapse)+
    then show "(case snd kv of Row rw \<Rightarrow> amount (cell_counts (row_results rw ! i) f) | Totals _ \<Rightarrow> 0) =
        row_sum v (matching v) (fst kv) i f"
      using i by (simp add: node_ok_def split: node.splits)
  qed
  also have "\<dots> = (\<Sum>k\<leftarrow>obj_keys ?del. row_sum v (matching v) k i f)" by (simp add: comp_def)
  also have "\<dots> = all_sum v (matching v) i f"
  proof (rule sum_of_row_sums [OF dd], rule ballI)
    fix r assume r: "r \<in> set (matching v)"
    have "name_of v r \<in> set (obj_keys ns)" using ns(1) r unfolding nodes_ok_def by blast
    moreover have "name_of v r = ''totals'' \<Longrightarrow> statuses_of r = []"
      using ns(1) r unfolding nodes_ok_def by blast
    moreover have "set (obj_keys ?del) = set (obj_keys ns) - {''totals''}"
      using delete_keys [of "''totals''" ns] by auto
    ultimately show "name_of v r \<in> set (obj_keys ?del) \<or> statuses_of r = []" by blast
  qed
  finally show "(\<Sum>rw\<leftarrow>displayedNodes v'. amount (cell_counts (row_results rw ! i) f)) = all_sum v (matching v) i f" .
qed

text \<open>Summaries with sound counts add sound counts.\<close>

definition sound_result :: "run_result \<Rightarrow> bool" where
  "sound_result r = (0 \<le> rs_passes r \<and> rs_passes r \<le> rs_total r)"

lemma contribution_sound:
  assumes "sound_result r"
  shows "0 \<le> contribution d r Passes \<and> contribution d r Passes \<le> contribution d r Total"
    and "0 \<le> contribution d r SubtestPasses \<and> contribution d r SubtestPasses \<le> contribution d r SubtestTotal"
    and "0 \<le> contribution d r TestViewPasses \<and> contribution d r TestViewPasses \<le> contribution d r TestViewTotal"
proof -
  have ratio: "0 \<le> of_int p / (of_int t :: rat)" "of_int p / (of_int t :: rat) \<le> 1"
    if "0 \<le> p" "p \<le> t" for p t :: int
    using that by (cases "t = 0"; simp add: divide_simps)+
  show "0 \<le> contribution d r Passes \<and> contribution d r Passes \<le> contribution d r Total"
    using assms ratio [of "rs_passes r" "rs_total r"]
    by (simp add: contribution_def aggregateTotalsByTest_def sound_result_def Let_def split: prod.split)
  show "0 \<le> contribution d r SubtestPasses \<and> contribution d r SubtestPasses \<le> contribution d r SubtestTotal"
    using assms
    by (simp add: contribution_def aggregateTotalsBySubtest_def sound_result_def Let_def split: prod.split)
  show "0 \<le> contribution d r TestViewPasses \<and> contribution d r TestViewPasses \<le> contribution d r TestViewTotal"
    by (simp add: contribution_def split: prod.split)
qed

lemma row_sum_sound:
  assumes "\<And>r. r \<in> set rs \<Longrightarrow> list_all sound_result (statuses_of r)"
    and "\<And>s. sound_result s \<Longrightarrow> 0 \<le> contribution (diffRun v) s f \<and> contribution (diffRun v) s f \<le> contribution (diffRun v) s g"
  shows "0 \<le> row_sum v rs nm i f \<and> row_sum v rs nm i f \<le> row_sum v rs nm i g"
  using assms(1)
proof (induction rs)
  case Nil
  show ?case by (simp add: row_sum_def)
next
  case (Cons r rs)
  have "0 \<le> adds_at v i f r \<and> adds_at v i f r \<le> adds_at v i g r"
    using Cons.prems [of r] assms(2) by (simp add: adds_at_def list_all_length)
  moreover have "row_sum v (r # rs) nm i h = (if name_of v r = nm then adds_at v i h r else 0) + row_sum v rs nm i h" for h
    by (simp add: row_sum_def)
  ultimately show ?case using Cons by (auto intro: add_mono)
qed

section \<open>A name that collides with the totals\<close>

lemma status_totals_throws:
  assumes "rs \<noteq> []"
  shows "accumulate_status v r previous ''totals'' rs n ns = None"
  using assms unfolding accumulate_status_def Let_def with_totals_def [symmetric]
  by (auto split: option.split node.split)

lemma accumulate_throws:
  "r \<in> set rs \<Longrightarrow> (\<And>ns. accumulate_result v ns r = None) \<Longrightarrow> accumulate v ns rs = None"
  by (induction rs arbitrary: ns) (auto split: option.split)

lemma accumulate_result_totals:
  assumes "no_renames v" "name_of v r = ''totals''" "statuses_of r \<noteq> []"
  shows "accumulate_result v ns r = None"
proof -
  obtain d where rn: "row_name (path_prefix v) (sr_test r) = (''totals'', d)"
    using assms(2) by (metis name_of_def prod.collapse)
  obtain rs where "legacy_status r = Some rs" "rs \<noteq> []"
    using assms(3) by (auto simp: statuses_of_def split: option.splits)
  moreover have "(case diffResults v of None \<Rightarrow> None | Some dr \<Rightarrow> renames dr) = None"
    using assms(1) by (auto simp: no_renames_def split: option.splits)
  ultimately show ?thesis
    by (simp add: accumulate_result_def collapsePathOnto_def rn Let_def status_totals_throws
      split: option.split)
qed


section \<open>Properties\<close>


text \<open>A folder with a folder below it and a file, in two runs.\<close>

definition sample_result :: "string \<Rightarrow> (int \<times> int) list \<Rightarrow> search_result" where
  "sample_result t cs = \<lparr>sr_test = t,
     legacy_status = Some (map (\<lambda>(p, n). \<lparr>rs_passes = p, rs_total = n, rs_status = Some ''O'',
                                  newAggProcess = True\<rparr>) cs), sr_diff = None\<rparr>"

definition sample_view :: results_view where
  "sample_view = \<lparr>view_path = ''/css'',
     searchResults = [sample_result ''/css/a/1.html'' [(1, 2), (2, 2)],
                      sample_result ''/css/a/2.html'' [(0, 4), (4, 4)],
                      sample_result ''/css/b.html'' [(3, 3), (1, 3)],
                      sample_result ''/dom/c.html'' [(1, 1), (1, 1)]],
     run_count = Some 2, diff_shown = False, diffRun = False, diffResults = None, diffFilter = ''ADC'',
     onlyShowDifferences = False, displayedNodes = [], displayedTotals = None\<rparr>"

definition sample_column :: "field \<Rightarrow> (rat list \<times> rat) option" where
  "sample_column f =
     (case refreshDisplayedNodes sample_view of
        Some v' \<Rightarrow>
          (case displayedTotals v' of
             Some (Totals ts) \<Rightarrow>
               Some (map (\<lambda>rw. amount (cell_counts (row_results rw ! 0) f)) (displayedNodes v'),
                     amount ((ts ! 0) f))
           | _ \<Rightarrow> None)
      | None \<Rightarrow> None)"

lemma sample_column_subtests: "sample_column SubtestPasses = Some ([1, 3], 4)"
  by code_simp




text \<open>
  The name "totals" is not free. If a test or folder of the displayed folder is called
  "totals" and has results, the aggregation throws, because its row and the array of the totals
  are kept under the same key of one object; nothing is displayed.
\<close>

lemma totals_name_throws:
  assumes "no_renames v" and "r \<in> set (searchResults v)"
    and "starts_with (sr_test r) (path_prefix v)" and "name_of v r = ''totals''" and "statuses_of r \<noteq> []"
  shows "refreshDisplayedNodes v = None"
proof -
  have "accumulate v [] (matching v) = None"
    by (rule accumulate_throws [of r])
      (use assms in \<open>auto simp: matching_def accumulate_result_totals\<close>)
  with assms(2) show ?thesis by (auto simp: refreshDisplayedNodes_def matching_def)
qed

theorem totals_name_throws_witness:
  "refreshDisplayedNodes (sample_view\<lparr>searchResults := [sample_result ''/css/totals/x.html'' [(1, 1), (1, 1)]]\<rparr>)
     = None"
proof (rule totals_name_throws [where r = "sample_result ''/css/totals/x.html'' [(1, 1), (1, 1)]"])
  show "name_of (sample_view\<lparr>searchResults := [sample_result ''/css/totals/x.html'' [(1, 1), (1, 1)]]\<rparr>)
      (sample_result ''/css/totals/x.html'' [(1, 1), (1, 1)]) = ''totals''" by code_simp
qed (simp_all add: no_renames_def sample_view_def sample_result_def path_prefix_def statuses_of_def)

end
