(* ===== verification/JsSort.thy ===== *)
theory JsSort
  imports JsNumber "HOL-Library.Multiset"
begin

text \<open>
  \<^verbatim>\<open>Array.prototype.sort\<close> with a comparator, which is stable, and the comparison of strings by
  \<open><\<close>. What is sorted is specified in the locale of comparators that are consistent; the
  comparators of the components are interpretations of it.
\<close>

text \<open>
  The result of a comparator is a number whose sign counts (\<open>NaN\<close> is read as zero). Elements that
  compare as equal keep their order.
\<close>

fun js_insert :: "('a \<Rightarrow> 'a \<Rightarrow> rat) \<Rightarrow> 'a \<Rightarrow> 'a list \<Rightarrow> 'a list" where
  "js_insert cmp x [] = [x]"
| "js_insert cmp x (y # ys) = (if cmp y x < 0 then y # js_insert cmp x ys else x # y # ys)"

definition js_sort :: "('a \<Rightarrow> 'a \<Rightarrow> rat) \<Rightarrow> 'a list \<Rightarrow> 'a list" where
  "js_sort cmp xs = foldr (js_insert cmp) xs []"

text \<open>\<open>a < b\<close> for strings: the first difference decides, a proper prefix is smaller.\<close>

fun str_less :: "string \<Rightarrow> string \<Rightarrow> bool" where
  "str_less _ [] = False"
| "str_less [] (_ # _) = True"
| "str_less (a # as) (b # bs) =
     (if a = b then str_less as bs else (of_char a :: nat) < of_char b)"

definition compare_strings :: "string \<Rightarrow> string \<Rightarrow> rat" where
  "compare_strings a b = (if str_less a b then -1 else if str_less b a then 1 else 0)"

lemma js_sort_Nil [simp]: "js_sort cmp [] = []"
  by (simp add: js_sort_def)

lemma js_sort_Cons [simp]: "js_sort cmp (x # xs) = js_insert cmp x (js_sort cmp xs)"
  by (simp add: js_sort_def)

lemma mset_js_insert [simp]: "mset (js_insert cmp x xs) = add_mset x (mset xs)"
  by (induction xs) auto

lemma mset_js_sort [simp]: "mset (js_sort cmp xs) = mset xs"
  by (induction xs) auto

lemma set_js_sort [simp]: "set (js_sort cmp xs) = set xs"
  by (metis mset_js_sort set_mset_mset)

lemma length_js_sort [simp]: "length (js_sort cmp xs) = length xs"
  by (metis mset_js_sort size_mset)

text \<open>A sort only depends on how the comparator compares the elements.\<close>

lemma js_insert_cong:
  "(\<And>y. y \<in> set xs \<Longrightarrow> cmp y x < 0 \<longleftrightarrow> cmp' y x < 0) \<Longrightarrow> js_insert cmp x xs = js_insert cmp' x xs"
  by (induction xs) auto

section \<open>Consistent comparators\<close>

text \<open>On the elements that satisfy \<open>ok\<close>, the comparator is a total preorder.\<close>

locale comparator =
  fixes ok :: "'a \<Rightarrow> bool" and cmp :: "'a \<Rightarrow> 'a \<Rightarrow> rat"
  assumes flip: "ok a \<Longrightarrow> ok b \<Longrightarrow> cmp a b < 0 \<longleftrightarrow> cmp b a > 0"
    and trans: "ok a \<Longrightarrow> ok b \<Longrightarrow> ok c \<Longrightarrow> cmp a b \<le> 0 \<Longrightarrow> cmp b c \<le> 0 \<Longrightarrow> cmp a c \<le> 0"
begin

lemma total_le: "ok a \<Longrightarrow> ok b \<Longrightarrow> \<not> cmp a b < 0 \<Longrightarrow> cmp b a \<le> 0"
  using flip [of a b] flip [of b a] by force

lemma sorted_insert:
  "ok x \<Longrightarrow> list_all ok xs \<Longrightarrow> sorted_wrt (\<lambda>a b. cmp a b \<le> 0) xs \<Longrightarrow>
     sorted_wrt (\<lambda>a b. cmp a b \<le> 0) (js_insert cmp x xs)"
proof (induction xs)
  case (Cons y ys)
  have set: "set (js_insert cmp x ys) = insert x (set ys)"
    by (metis mset_js_insert set_mset_add_mset_insert set_mset_mset)
  show ?case
  proof (cases "cmp y x < 0")
    case True
    with Cons set show ?thesis by auto
  next
    case False
    then have xy: "cmp x y \<le> 0" using total_le Cons.prems by simp
    have "cmp x z \<le> 0" if "z \<in> set ys" for z
      using trans [OF _ _ _ xy] Cons.prems that by (auto simp: list_all_iff)
    with False xy Cons.prems show ?thesis by simp
  qed
qed simp

theorem sorted_sort: "list_all ok xs \<Longrightarrow> sorted_wrt (\<lambda>a b. cmp a b \<le> 0) (js_sort cmp xs)"
proof (induction xs)
  case (Cons x xs)
  then have "list_all ok (js_sort cmp xs)" by (simp add: list_all_iff)
  with Cons show ?case by (simp add: sorted_insert)
qed simp

text \<open>Sorting a sorted list changes nothing: the sort is stable.\<close>

lemma insert_first:
  "ok x \<Longrightarrow> list_all ok xs \<Longrightarrow> (\<And>y. y \<in> set xs \<Longrightarrow> cmp x y \<le> 0) \<Longrightarrow> js_insert cmp x xs = x # xs"
  using flip by (cases xs) force+

lemma sort_sorted:
  "list_all ok xs \<Longrightarrow> sorted_wrt (\<lambda>a b. cmp a b \<le> 0) xs \<Longrightarrow> js_sort cmp xs = xs"
  by (induction xs) (simp_all add: insert_first)

theorem sort_again: "list_all ok xs \<Longrightarrow> js_sort cmp (js_sort cmp xs) = js_sort cmp xs"
  by (rule sort_sorted) (simp_all add: sorted_sort list_all_iff)

text \<open>Elements that compare as equal with each other and are all kept in order.\<close>

lemma insert_filter:
  "ok x \<Longrightarrow> list_all ok xs \<Longrightarrow> ok z \<Longrightarrow> sorted_wrt (\<lambda>a b. cmp a b \<le> 0) xs \<Longrightarrow>
     filter (\<lambda>y. cmp z y = 0) (js_insert cmp x xs) =
       (if cmp z x = 0 then x # filter (\<lambda>y. cmp z y = 0) xs else filter (\<lambda>y. cmp z y = 0) xs)"
proof (induction xs)
  case (Cons y ys)
  show ?case
  proof (cases "cmp y x < 0 \<and> cmp z x = 0")
    case True
    have "cmp z y \<noteq> 0"
    proof
      assume zy: "cmp z y = 0"
      have ok: "ok x" "ok y" "ok z" using Cons.prems by simp_all
      have "cmp x z \<le> 0" using total_le [OF ok(3,1)] True by simp
      with zy have "cmp x y \<le> 0" using trans [OF ok(1,3,2)] by simp
      with True flip [OF ok(2,1)] show False by simp
    qed
    with True Cons show ?thesis by auto
  next
    case False
    with Cons show ?thesis by auto
  qed
qed auto

theorem stable:
  "list_all ok xs \<Longrightarrow> ok z \<Longrightarrow>
     filter (\<lambda>y. cmp z y = 0) (js_sort cmp xs) = filter (\<lambda>y. cmp z y = 0) xs"
proof (induction xs)
  case (Cons x xs)
  then have "list_all ok (js_sort cmp xs)" "sorted_wrt (\<lambda>a b. cmp a b \<le> 0) (js_sort cmp xs)"
    by (simp_all add: list_all_iff sorted_sort)
  with Cons show ?case by (simp add: insert_filter)
qed simp

text \<open>Two sorted permutations without ties are the same list.\<close>

lemma sorted_unique:
  "list_all ok xs \<Longrightarrow> (\<And>a b. a \<in> set xs \<Longrightarrow> b \<in> set xs \<Longrightarrow> cmp a b = 0 \<Longrightarrow> a = b) \<Longrightarrow>
     mset xs = mset ys \<Longrightarrow> sorted_wrt (\<lambda>a b. cmp a b \<le> 0) xs \<Longrightarrow>
     sorted_wrt (\<lambda>a b. cmp a b \<le> 0) ys \<Longrightarrow> xs = ys"
proof (induction xs arbitrary: ys)
  case (Cons x xs)
  from Cons.prems(3) obtain y ys' where ys: "ys = y # ys'" by (cases ys) auto
  have set: "set ys = set (x # xs)" using Cons.prems(3) by (metis set_mset_mset)
  then have xy: "x \<in> set ys" "y \<in> set (x # xs)" using ys by auto
  have ok: "ok x" "ok y" using Cons.prems(1) xy(2) by (auto simp: list_all_iff)
  have "cmp x y \<le> 0 \<or> x = y" using Cons.prems(4) xy(2) by auto
  moreover have "cmp y x \<le> 0 \<or> x = y" using Cons.prems(5) xy(1) ys by auto
  ultimately have "x = y"
    using Cons.prems(2) [of x y] xy flip [OF ok] flip [OF ok(2,1)]
    by (metis antisym_conv2 less_le_not_le list.set_intros(1) not_less)
  with Cons.prems ys show ?case by (auto intro!: Cons.IH)
qed simp

end

section \<open>Comparing strings\<close>

lemma str_less_irrefl [simp]: "\<not> str_less a a"
  by (induction a) auto

lemma str_less_asym: "str_less a b \<Longrightarrow> \<not> str_less b a"
  by (induction a b rule: str_less.induct) (auto split: if_splits)

lemma str_less_linear: "str_less a b \<or> a = b \<or> str_less b a"
proof (induction a b rule: str_less.induct)
  case (3 a as b bs)
  show ?case using linorder_less_linear [of "of_char a :: nat" "of_char b"] 3 by auto
qed (auto, metis list.exhaust str_less.simps(2))

lemma str_less_trans: "str_less a b \<Longrightarrow> str_less b c \<Longrightarrow> str_less a c"
proof (induction a b arbitrary: c rule: str_less.induct)
  case (3 a as b bs)
  then show ?case by (cases c) (auto split: if_splits)
next
  case (2 x xs)
  then show ?case by (cases c) auto
qed simp

interpretation string_order: comparator "\<lambda>_. True" compare_strings
proof
  show "compare_strings a b < 0 \<longleftrightarrow> compare_strings b a > 0" for a b
    using str_less_asym [of a b] by (auto simp: compare_strings_def)
  show "compare_strings a c \<le> 0" if "compare_strings a b \<le> 0" "compare_strings b c \<le> 0" for a b c
    using that str_less_linear [of a b] str_less_linear [of b c] str_less_trans [of a b c]
    by (auto simp: compare_strings_def split: if_splits dest: str_less_asym)
qed

lemma compare_strings_0: "compare_strings a b = 0 \<longleftrightarrow> a = b"
  using str_less_linear [of a b] by (auto simp: compare_strings_def)

text \<open>A comparator on keys, and the reverse of a comparator.\<close>

lemma comparator_key:
  assumes "comparator (\<lambda>_. True) cmp"
  shows "comparator (\<lambda>_. True) (\<lambda>a b. cmp (f a) (f b))"
  using assms unfolding comparator_def by blast

lemma comparator_reverse:
  assumes "comparator ok cmp"
  shows "comparator ok (\<lambda>a b. cmp b a)"
  using assms unfolding comparator_def by blast

section \<open>The order of enumeration\<close>

lemma mset_own_order [simp]: "mset (own_order o1) = mset o1"
proof -
  have "mset (filter P o1) + mset (filter (\<lambda>x. \<not> P x) o1) = mset o1" for P :: "_ \<Rightarrow> bool"
    by (induction o1) auto
  then show ?thesis by (simp add: own_order_def)
qed

lemma distinct_map_own_order [simp]: "distinct (map f (own_order o1)) = distinct (map f o1)"
  by (metis mset_own_order mset_map mset_eq_imp_distinct_iff)

end
