(* ===== verification/ResultsDisplay.thy ===== *)
theory ResultsDisplay
  imports JsSort PathNav ResultColors WptResults LoadingState
begin

text \<open>
  \<^verbatim>\<open>webapp/views/wpt-results.js\<close>, second part: what the cells of the table show in the three views,
  sorting, moving between tests, the labels and metadata of a row, and fetching the results.
  Where a function answers an option, \<open>None\<close> stands for an exception unless noted.
\<close>

section \<open>The state of the table\<close>

record table_view = results_view +
  view :: "string option"
  colorHomepage :: bool
  isTriageMode :: bool
  isPathSorted :: bool
  sortCol :: "bool list"
  showHistory :: bool
  resultsLoadFailed :: bool
  noResults :: bool
  fetchedQuery :: "string option"

definition isInteropView :: "('a table_view_scheme) \<Rightarrow> bool" where
  "isInteropView v = (view v = Some ''interop'')"

definition isTestView :: "('a table_view_scheme) \<Rightarrow> bool" where
  "isTestView v = (view v = Some ''test'')"

definition isDefaultView :: "('a table_view_scheme) \<Rightarrow> bool" where
  "isDefaultView v = (\<not> isInteropView v \<and> \<not> isTestView v)"

definition clickInterop :: "table_view \<Rightarrow> table_view" where
  "clickInterop v = (if isInteropView v then v else v\<lparr>view := Some ''interop''\<rparr>)"

definition clickDefault :: "table_view \<Rightarrow> table_view" where
  "clickDefault v = (if isDefaultView v then v else v\<lparr>view := Some ''subtest''\<rparr>)"

definition interopButtonClass :: "string option \<Rightarrow> string" where
  "interopButtonClass vw = (if vw = Some ''interop'' then ''selected'' else ''unselected'')"

definition defaultButtonClass :: "string option \<Rightarrow> string" where
  "defaultButtonClass vw =
     (if vw \<noteq> Some ''interop'' \<and> vw \<noteq> Some ''test'' then ''selected'' else ''unselected'')"

definition shouldDisplayToggle :: "bool \<Rightarrow> bool \<Rightarrow> bool" where
  "shouldDisplayToggle canViewInteropScores pathIsATestFile = (canViewInteropScores \<and> \<not> pathIsATestFile)"

text \<open>
  \<open>changeView\<close>: the new query string, without the question mark, from the old search with it.
\<close>

definition changeView :: "string \<Rightarrow> string \<Rightarrow> string" where
  "changeView vw s0 =
     (let query = (if s0 = [] then [] else drop 1 s0);
          viewStr = ''view='' @ vw;
          params = split_on (CHR ''&'') query;
          viewFound = list_ex (\<lambda>p. str_includes p ''view='') params;
          params' = map (\<lambda>p. if str_includes p ''view='' then viewStr else p) params
      in join ''&'' (if viewFound then params' else params' @ [viewStr]))"

section \<open>Data of a cell\<close>

text \<open>The properties that are read by name, from a cell or from the difference of a row.\<close>

datatype result_prop = Count field | Status | Regressions

datatype prop_value = VNum jsnum | VStatus "string option" | VText string

definition isDiff :: "test_run option \<Rightarrow> bool" where
  "isDiff testRun = (case testRun of None \<Rightarrow> False | Some r \<Rightarrow> revision r = Some ''diff'')"

fun js_neg :: "jsnum \<Rightarrow> jsnum" where
  "js_neg (Num q) = Num (- q)"
| "js_neg _ = NaN"

text \<open>Without a property, the sum of absolute values is lost: \<open>forEach\<close> answers \<open>undefined\<close>.\<close>

definition getDiffDelta :: "row \<Rightarrow> result_prop option \<Rightarrow> jsnum option" where
  "getDiffDelta node prop =
     (case row_diff node of
        None \<Rightarrow> None
      | Some d \<Rightarrow> Some
          (case prop of
             None \<Rightarrow> Undefined
           | Some (Count Passes) \<Rightarrow> Num (of_int (d_passes d))
           | Some (Count Total) \<Rightarrow> Num (of_int (d_total d))
           | Some Regressions \<Rightarrow> js_neg (Num (of_int (d_regressions d)))
           | Some _ \<Rightarrow> Undefined))"

definition positive :: "jsnum \<Rightarrow> bool" where
  "positive x = (case x of Num q \<Rightarrow> q > 0 | _ \<Rightarrow> False)"

definition getDiffDeltaStr :: "row \<Rightarrow> result_prop option \<Rightarrow> string option" where
  "getDiffDeltaStr node prop =
     map_option
       (\<lambda>delta. if js_same delta (Num 0) then ''0''
                else (if positive delta then ''+'' else []) @ show_js delta)
       (getDiffDelta node prop)"

definition cell_prop :: "cell \<Rightarrow> result_prop \<Rightarrow> prop_value" where
  "cell_prop c prop =
     (case prop of Count f \<Rightarrow> VNum (cell_counts c f) | Status \<Rightarrow> VStatus (cell_status c) | Regressions \<Rightarrow> VNum Undefined)"

definition getNodeResultDataByPropertyName ::
  "row \<Rightarrow> int \<Rightarrow> test_run option \<Rightarrow> result_prop \<Rightarrow> prop_value option" where
  "getNodeResultDataByPropertyName node index testRun prop =
     (if isDiff testRun then map_option VText (getDiffDeltaStr node (Some prop))
      else if index \<ge> 0 \<and> index < int (length (row_results node)) then
        Some (cell_prop (row_results node ! nat index) prop)
      else Some (VNum Undefined))"

text \<open>
  Amending metadata: without an index for a test itself, else for a run in which it fails. The
  run is not the difference of two runs, whose column has no triage.
\<close>

definition canAmendMetadata :: "table_view \<Rightarrow> row \<Rightarrow> nat option \<Rightarrow> bool" where
  "canAmendMetadata v node index =
     (case index of
        None \<Rightarrow> \<not> isDir node \<and> isTriageMode v
      | Some i \<Rightarrow>
          if i < length (row_results node) then
            (let c = row_results node ! i;
                 failStatus = (truthy (cell_status c) \<and> \<not> passing (cell_status c));
                 failing = (case (cell_counts c Total, cell_counts c Passes) of
                              (Num t, Num p) \<Rightarrow> t - p > 0 | _ \<Rightarrow> False)
             in (failing \<or> failStatus) \<and> isTriageMode v)
          else False)"

section \<open>Classes of cells\<close>

text \<open>The class of a pass rate whose numbers may be missing, which throws.\<close>

definition rate_class :: "jsnum \<Rightarrow> jsnum \<Rightarrow> string option" where
  "rate_class p t =
     (case (p, t) of
        (Num p, Num t) \<Rightarrow> passRateClass p t
      | (Num p, _) \<Rightarrow> if p = 0 then passRateClass 0 1 else None
      | (_, Num t) \<Rightarrow> if t = 0 then passRateClass 1 0 else None
      | _ \<Rightarrow> None)"

definition view_props :: "('a table_view_scheme) \<Rightarrow> field \<times> field" where
  "view_props v =
     (if isDefaultView v then (SubtestPasses, SubtestTotal)
      else if isTestView v then (TestViewPasses, TestViewTotal) else (Passes, Total))"

definition testResultClass ::
  "table_view \<Rightarrow> row option \<Rightarrow> int \<Rightarrow> test_run option \<Rightarrow> result_prop \<Rightarrow> string option" where
  "testResultClass v node0 index testRun prop =
     (case node0 of
        None \<Rightarrow> Some ''none''
      | Some node \<Rightarrow>
          if testRun = None then Some ''none''
          else if isDiff testRun then
            (if row_diff node = None then Some ''none''
             else map_option
               (\<lambda>delta. if js_same delta (Num 0) then ''delta''
                        else ''delta '' @ (if positive delta then ''positive'' else ''negative''))
               (getDiffDelta node (Some prop)))
          else
            (let result = (if index \<ge> 0 then elem_at (row_results node) (nat index) else None);
                 (pp, tp) = view_props v
             in if result = None \<and> prop = Count Total then Some ''none''
                else if view_path v = ''/'' \<and> \<not> colorHomepage v \<and> \<not> isInteropView v then Some ''top''
                else (case result of
                        None \<Rightarrow> None
                      | Some c \<Rightarrow>
                          if js_same (cell_counts c pp) (Num 0) \<and> js_same (cell_counts c tp) (Num 0)
                          then Some ''top''
                          else rate_class (cell_counts c pp) (cell_counts c tp))))"

definition getTotalsClass :: "table_view \<Rightarrow> counts \<Rightarrow> string option" where
  "getTotalsClass v totalInfo =
     (if (view_path v = ''/'' \<and> \<not> colorHomepage v \<and> isDefaultView v) \<or>
         js_same (totalInfo SubtestTotal) (Num 0) then Some ''top''
      else if isTestView v then rate_class (totalInfo TestViewPasses) (totalInfo TestViewTotal)
      else if \<not> isDefaultView v then rate_class (totalInfo Passes) (totalInfo Total)
      else rate_class (totalInfo SubtestPasses) (totalInfo SubtestTotal))"

definition shouldDisplayHarnessWarning :: "row \<Rightarrow> nat \<Rightarrow> bool option" where
  "shouldDisplayHarnessWarning node index =
     map_option
       (\<lambda>c. \<not> isDir node \<and> truthy (cell_status c) \<and> \<not> passing (cell_status c) \<and>
            \<not> list_all singleSubtest (row_results node))
       (elem_at (row_results node) index)"

definition STATUS_ABBREVIATIONS :: "string obj" where
  "STATUS_ABBREVIATIONS =
     [(''P'', ''PASS''), (''O'', ''OK''), (''F'', ''FAIL''), (''S'', ''SKIP''), (''E'', ''ERROR''),
      (''N'', ''NOTRUN''), (''C'', ''CRASH''), (''T'', ''TIMEOUT''), (''PF'', ''PRECONDITION_FAILED'')]"

definition expand_status :: "string \<Rightarrow> string" where
  "expand_status s = (case obj_get STATUS_ABBREVIATIONS s of None \<Rightarrow> s | Some l \<Rightarrow> l)"

definition getStatusDisplay :: "row \<Rightarrow> nat \<Rightarrow> string option option" where
  "getStatusDisplay node index =
     map_option (\<lambda>c. map_option expand_status (cell_status c)) (elem_at (row_results node) index)"

section \<open>Numbers in cells\<close>

text \<open>\<open>toFixed\<close> of an undefined number throws; \<open>NaN\<close> stays \<open>NaN\<close>.\<close>

definition getTestNumbersDisplay :: "jsnum \<Rightarrow> jsnum \<Rightarrow> bool \<Rightarrow> string option" where
  "getTestNumbersDisplay passes tot dir =
     (let separator = (if dir then '' / '' else '' of '')
      in case passes of
           Undefined \<Rightarrow> None
         | NaN \<Rightarrow> Some (''NaN'' @ separator @ show_js tot)
         | Num p \<Rightarrow>
             (let formatPasses = to_fixed 2 p
              in Some
                (if p = 0 then ''0'' @ separator @ show_js tot
                 else if js_same passes tot then show_js tot @ separator @ show_js tot
                 else if formatPasses < 1 / 100 then ''0.01'' @ separator @ show_js tot
                 else if js_same (Num formatPasses) tot then show_num (formatPasses - 1 / 100)
                 else show_num formatPasses @ separator @ show_js tot)))"

text \<open>A percentage: one decimal, rounded down. Without a total it is infinite.\<close>

definition percent_display :: "jsnum \<Rightarrow> jsnum \<Rightarrow> string" where
  "percent_display passes tot =
     (if js_same passes (Num 0) then ''0''
      else if js_same passes tot then ''100''
      else (case (passes, tot) of
              (Num p, Num t) \<Rightarrow>
                if t = 0 then (if p > 0 then ''Infinity'' else ''-Infinity'')
                else (let formatPercent = of_int \<lfloor>p / t * 1000\<rfloor> / 10 :: rat
                      in if formatPercent = 0 then ''0.1''
                         else if formatPercent = 100 then ''99.9''
                         else show_num formatPercent)
            | _ \<Rightarrow> ''NaN''))"

definition formatCellDisplayInterop :: "jsnum \<Rightarrow> jsnum \<Rightarrow> bool \<Rightarrow> string option" where
  "formatCellDisplayInterop passes tot dir =
     map_option
       (\<lambda>s. if dir then s @ '' ('' @ percent_display passes tot @ ''%)'' else s @ '' subtests'')
       (getTestNumbersDisplay passes tot dir)"

definition formatCellDisplayTestView :: "jsnum \<Rightarrow> jsnum \<Rightarrow> string option \<Rightarrow> bool \<Rightarrow> string option" where
  "formatCellDisplayTestView passes tot status dir =
     (if dir then getTestNumbersDisplay passes tot dir
      else if isViewTestPass tot passes status then Some ''PASS''
      else if status = None \<or> status = Some ''O'' then Some ''FAIL''
      else (case obj_get STATUS_ABBREVIATIONS (the status) of
              Some l \<Rightarrow> Some l
            | None \<Rightarrow> Some ''FAIL''))"

definition formatCellDisplay :: "('a table_view_scheme) \<Rightarrow> jsnum \<Rightarrow> jsnum \<Rightarrow> string option \<Rightarrow> bool \<Rightarrow> string option" where
  "formatCellDisplay v passes tot status dir =
     (if js_same tot (Num 0) \<and> \<not> truthy status then Some ''Missing''
      else if isInteropView v then formatCellDisplayInterop passes tot dir
      else if isTestView v then formatCellDisplayTestView passes tot status dir
      else if js_same tot (Num 0) then
        Some ((if status = Some ''P'' then show_js (js_add passes 1) else show_js passes) @ '' / '' @
              show_js (js_add tot 1))
      else Some (show_js passes @ '' / '' @ show_js tot))"

definition isSubtestView :: "('a table_view_scheme) \<Rightarrow> row \<Rightarrow> bool" where
  "isSubtestView v node = (isDefaultView v \<or> \<not> isDir node)"

definition getNodeTotalProp :: "('a table_view_scheme) \<Rightarrow> row \<Rightarrow> field" where
  "getNodeTotalProp v node =
     (if isTestView v then TestViewTotal else if isSubtestView v node then SubtestTotal else Total)"

definition getNodePassProp :: "('a table_view_scheme) \<Rightarrow> row \<Rightarrow> field" where
  "getNodePassProp v node =
     (if isTestView v then TestViewPasses else if isSubtestView v node then SubtestPasses else Passes)"

definition getNodeResult :: "('a table_view_scheme) \<Rightarrow> row \<Rightarrow> nat \<Rightarrow> string option" where
  "getNodeResult v node index =
     (case elem_at (row_results node) index of
        None \<Rightarrow> None
      | Some c \<Rightarrow>
          formatCellDisplay v (cell_counts c (getNodePassProp v node)) (cell_counts c (getNodeTotalProp v node))
            (cell_status c) (isDir node))"

definition getTotalDisplay :: "('a table_view_scheme) \<Rightarrow> counts \<Rightarrow> string option" where
  "getTotalDisplay v totalInfo =
     (let (p, t) = (if isTestView v then (TestViewPasses, TestViewTotal)
                    else if isInteropView v then (Passes, Total) else (SubtestPasses, SubtestTotal))
      in formatCellDisplay v (totalInfo p) (totalInfo t) None True)"

definition getTotalText :: "('a table_view_scheme) \<Rightarrow> string" where
  "getTotalText v = (if isDefaultView v then ''Subtest Total'' else ''Test Total'')"

definition shouldDisplayTotals :: "counts list option \<Rightarrow> bool \<Rightarrow> bool" where
  "shouldDisplayTotals tots diffRn =
     (\<not> diffRn \<and> (case tots of None \<Rightarrow> False | Some ts \<Rightarrow> length ts > 0))"


section \<open>Sorting\<close>

definition compareTestNameDefaultOrder :: "row \<Rightarrow> row \<Rightarrow> rat" where
  "compareTestNameDefaultOrder a b = compare_strings (to_lower (row_path a)) (to_lower (row_path b))"

definition compareTestName :: "bool \<Rightarrow> row \<Rightarrow> row \<Rightarrow> rat" where
  "compareTestName asc a b =
     (if asc then compareTestNameDefaultOrder a b else compareTestNameDefaultOrder b a)"

definition runs_of_view :: "('a results_view_scheme) \<Rightarrow> nat" where
  "runs_of_view v = (case run_count v of None \<Rightarrow> 0 | Some n \<Rightarrow> n)"

definition sortTestName :: "table_view \<Rightarrow> table_view option" where
  "sortTestName v =
     (if run_count v = None then None
      else
        (let v = v\<lparr>isPathSorted := \<not> isPathSorted v, sortCol := replicate (runs_of_view v) False\<rparr>
         in Some (v\<lparr>displayedNodes := js_sort (compareTestName (isPathSorted v)) (displayedNodes v)\<rparr>)))"

text \<open>The counts of a cell that a column is sorted by; a missing cell throws.\<close>

definition column :: "field \<times> field \<Rightarrow> nat \<Rightarrow> row \<Rightarrow> jsnum \<times> jsnum" where
  "column props index rw =
     (let c = cell_counts (row_results rw ! index) in (c (fst props), c (snd props)))"

definition js_num :: "jsnum \<Rightarrow> rat option" where
  "js_num x = (case x of Num q \<Rightarrow> Some q | _ \<Rightarrow> None)"

text \<open>A difference or quotient with a number that is missing is \<open>NaN\<close>, read as zero.\<close>

definition compareResults :: "field \<times> field \<Rightarrow> nat \<Rightarrow> row \<Rightarrow> row \<Rightarrow> rat" where
  "compareResults props index a b =
     (let (pa, ta) = column props index a; (pb, tb) = column props index b;
          zeroA = js_same ta (Num 0); zeroB = js_same tb (Num 0)
      in if zeroA \<and> zeroB then compareTestNameDefaultOrder a b
         else if zeroA \<or> zeroB then
           (case (ta, tb) of (Num x, Num y) \<Rightarrow> x - y | _ \<Rightarrow> 0)
         else
           (case (pa, ta, pb, tb) of
              (Num x, Num m, Num y, Num n) \<Rightarrow>
                if x / m = y / n then compareTestNameDefaultOrder a b else x / m - y / n
            | _ \<Rightarrow> 0))"

definition sortTestResults :: "nat \<Rightarrow> table_view \<Rightarrow> table_view option" where
  "sortTestResults index v =
     (if \<not> list_all (\<lambda>rw. index < length (row_results rw)) (displayedNodes v) \<and>
         length (displayedNodes v) > 1 then None
      else
        (let down = (case elem_at (sortCol v) index of None \<Rightarrow> False | Some d \<Rightarrow> d);
             cmp = compareResults (view_props v) index
         in Some (v\<lparr>displayedNodes :=
                     js_sort (if down then (\<lambda>a b. cmp b a) else cmp) (displayedNodes v),
                   sortCol := (replicate (length (sortCol v)) False)[index := \<not> down],
                   isPathSorted := False\<rparr>)))"

definition getSortIcon :: "bool \<Rightarrow> string" where
  "getSortIcon isSorted = (if isSorted then ''/static/expand_more.svg'' else ''/static/expand_less.svg'')"

section \<open>Moving between tests\<close>

text \<open>
  Setting the path runs its observer, which aggregates anew and resets the sorting and the
  history. \<open>None\<close>: the aggregation throws.
\<close>

definition view_path_updated :: "table_view \<Rightarrow> table_view option" where
  "view_path_updated v =
     (case refreshDisplayedNodes (results_view.truncate v) of
        None \<Rightarrow> None
      | Some r \<Rightarrow>
          (let v = v\<lparr>displayedNodes := displayedNodes r, displayedTotals := displayedTotals r\<rparr>;
               v = (if run_count v = None then v
                    else v\<lparr>sortCol := replicate (runs_of_view v) False, isPathSorted := False\<rparr>)
           in Some (v\<lparr>showHistory := False\<rparr>)))"

definition set_view_path :: "string \<Rightarrow> table_view \<Rightarrow> table_view option" where
  "set_view_path p v = (if p = view_path v then Some v else view_path_updated (v\<lparr>view_path := p\<rparr>))"

text \<open>The index that \<open>_move\<close> moves to; the remainder is taken of a number that is not negative.\<close>

definition next_index :: "bool \<Rightarrow> search_result list \<Rightarrow> string \<Rightarrow> nat" where
  "next_index forward rs path =
     (let n = int (length rs);
          nxt = (case find_index (\<lambda>r. starts_with (sr_test r) path) rs of
                   None \<Rightarrow> if forward then 0 else -1
                 | Some i \<Rightarrow> if sr_test (rs ! i) = path then int i + (if forward then 1 else -1) else int i)
      in nat ((n + nxt) mod n))"

definition move :: "bool \<Rightarrow> table_view \<Rightarrow> table_view option" where
  "move forward v =
     (if searchResults v = [] then Some v
      else set_view_path (sr_test (searchResults v ! next_index forward (searchResults v) (view_path v))) v)"

section \<open>Labels and metadata of a row\<close>

definition folder_name :: "string \<Rightarrow> string \<Rightarrow> string" where
  "folder_name base testname =
     (if computePathIsASubfolder base (Some testname) then testname @ ''/*'' else testname)"

definition getTestLabel :: "string \<Rightarrow> string \<Rightarrow> string obj option \<Rightarrow> string" where
  "getTestLabel base testname labelMap =
     (case labelMap of
        None \<Rightarrow> []
      | Some m \<Rightarrow> (case obj_get m (folder_name base testname) of None \<Rightarrow> [] | Some l \<Rightarrow> l))"

definition shouldDisplayTestLabel :: "string \<Rightarrow> string \<Rightarrow> string obj option \<Rightarrow> bool" where
  "shouldDisplayTestLabel base testname labelMap = (getTestLabel base testname labelMap \<noteq> [])"

definition getTestLabelTitle :: "string \<Rightarrow> string \<Rightarrow> string obj option \<Rightarrow> string" where
  "getTestLabelTitle base testname labelMap =
     (let labels = getTestLabel base testname labelMap
      in if str_includes labels '','' then ''labels: '' @ labels else ''label: '' @ labels)"

text \<open>
  The link of a row: of the test, or else the first of a subtest. The outer option is an exception
  (the product of the index is missing), the inner one \<open>undefined\<close> (no link under the key).
\<close>

definition getMetadataUrl ::
  "string \<Rightarrow> product list \<Rightarrow> nat option \<Rightarrow> string \<Rightarrow> string obj obj option \<Rightarrow> string option option" where
  "getMetadataUrl base products index testname metadataMap =
     (case metadataMap of
        None \<Rightarrow> Some (Some [])
      | Some m \<Rightarrow>
          (case (case index of None \<Rightarrow> Some [] | Some i \<Rightarrow> map_option browser_name (elem_at products i)) of
             None \<Rightarrow> None
           | Some browserName \<Rightarrow>
               (case obj_get m (folder_name base testname @ browserName) of
                  None \<Rightarrow> Some (Some [])
                | Some subtests \<Rightarrow>
                    (case obj_get subtests ''/'' of
                       Some url \<Rightarrow> Some (Some url)
                     | None \<Rightarrow> Some (case own_order subtests of [] \<Rightarrow> None | kv # _ \<Rightarrow> Some (snd kv))))))"

definition shouldDisplayMetadata ::
  "string \<Rightarrow> bool \<Rightarrow> product list \<Rightarrow> nat option \<Rightarrow> string \<Rightarrow> string obj obj option \<Rightarrow> bool option" where
  "shouldDisplayMetadata base pathIsRootDir products index testname metadataMap =
     (if pathIsRootDir then Some False
      else map_option (\<lambda>u. u \<noteq> Some []) (getMetadataUrl base products index testname metadataMap))"

section \<open>Small parts\<close>

definition isInvalidDiffUse :: "bool \<Rightarrow> nat option \<Rightarrow> bool" where
  "isInvalidDiffUse wanted runs = (wanted \<and> (case runs of None \<Rightarrow> False | Some n \<Rightarrow> n \<noteq> 2))"

definition computePathIsASubfolderOrFile :: "bool \<Rightarrow> bool \<Rightarrow> bool" where
  "computePathIsASubfolderOrFile isSubfolder isFile = (isSubfolder \<or> isFile)"

definition computeTestPaths :: "search_result list option \<Rightarrow> string list" where
  "computeTestPaths rs = nub (case rs of None \<Rightarrow> [] | Some rs \<Rightarrow> map sr_test rs)"

definition computeDisplayedTests :: "string \<Rightarrow> search_result list option \<Rightarrow> string list" where
  "computeDisplayedTests path rs =
     (case rs of None \<Rightarrow> [] | Some rs \<Rightarrow> filter (\<lambda>t. starts_with t path) (map sr_test rs))"

definition platformID :: "test_run \<Rightarrow> string" where
  "platformID r =
     browser_name r @ ''-'' @ (case browser_version r of None \<Rightarrow> ''undefined'' | Some b \<Rightarrow> b) @ ''-'' @
       os_name r @ ''-'' @ os_version r"

text \<open>The query of the diff request; the URL is \<open>/api/diff\<close>.\<close>

definition computeDiffURL :: "nat list option \<Rightarrow> string \<Rightarrow> string option" where
  "computeDiffURL ids flt =
     (case ids of
        Some [a, b] \<Rightarrow>
          Some (form_serialize [(''run_id'', show_nat a), (''run_id'', show_nat b), (''filter'', flt)])
      | _ \<Rightarrow> None)"

text \<open>The names of the subtests, from the names of the rows of a test.\<close>

definition subtest_names :: "string list \<Rightarrow> string list" where
  "subtest_names rows =
     filter (\<lambda>n. n \<noteq> ''Duration'')
       (map (\<lambda>n. if n = ''Harness status'' \<or> n = ''Test status'' then []
                 else map (\<lambda>c. if is_space c then CHR '' '' else c) n) rows)"


section \<open>Fetching the results\<close>

text \<open>What the server answers to one request, and what the request becomes: an error or results.\<close>

datatype search_answer = AnswerOk "search_result list" | AnswerStatus nat | NoAnswer

datatype search_error = HttpStatus nat | Failed

definition search_outcome :: "search_answer \<Rightarrow> search_error + search_result list" where
  "search_outcome a =
     (case a of
        AnswerOk rs \<Rightarrow> Inr rs
      | AnswerStatus n \<Rightarrow> if n = 422 then Inl (HttpStatus n) else Inl Failed
      | NoAnswer \<Rightarrow> Inl Failed)"

text \<open>The query of the request URL and the body: the ids of the runs and the query.\<close>

record search_request =
  url_query :: "(string \<times> string) list"
  run_ids :: "nat list"
  body_query :: "string option"

definition searchRequest :: "table_view \<Rightarrow> nat list \<Rightarrow> string option \<Rightarrow> search_request" where
  "searchRequest v ids q =
     \<lparr>url_query = (if diff_shown v then [(''diff'', ''true''), (''filter'', diffFilter v)] else []),
      run_ids = ids, body_query = (if truthy q then q else None)\<rparr>"

text \<open>
  \<open>fetchResults\<close>: five attempts as long as the server answers 422, which says that data is
  missing and being read; the results are sorted by the names of the tests, whose order
  (\<open>localeCompare\<close>) is an argument. An exception of the aggregation leaves the rows as they are.
\<close>

definition results_arrived ::
  "(search_result \<Rightarrow> search_result \<Rightarrow> rat) \<Rightarrow> search_result list \<Rightarrow> table_view \<Rightarrow> table_view" where
  "results_arrived localeCompare rs v =
     (let v = v\<lparr>searchResults := js_sort localeCompare rs\<rparr>
      in case refreshDisplayedNodes (results_view.truncate v) of
           None \<Rightarrow> v
         | Some r \<Rightarrow> v\<lparr>displayedNodes := displayedNodes r, displayedTotals := displayedTotals r\<rparr>)"

definition fetchResults ::
  "(search_result \<Rightarrow> search_result \<Rightarrow> rat) \<Rightarrow> (nat \<Rightarrow> search_answer) \<Rightarrow> table_view \<Rightarrow> table_view \<times> nat" where
  "fetchResults localeCompare answers v =
     (if runs_of_view v = 0 then (v, 0)
      else
        (let v = v\<lparr>sortCol := replicate (runs_of_view v) False\<rparr>
         in case retry (\<lambda>n. search_outcome (answers n)) (\<lambda>e. e = HttpStatus 422) 5 5000 of
              (Inr rs, n, _) \<Rightarrow> (results_arrived localeCompare rs v, n)
            | (Inl e, n, _) \<Rightarrow> (v\<lparr>resultsLoadFailed := True\<rparr>, n)))"

definition onLoadingComplete :: "table_view \<Rightarrow> table_view" where
  "onLoadingComplete v = v\<lparr>noResults := \<not> resultsLoadFailed v \<and> searchResults v = []\<rparr>"

text \<open>\<open>reloadData\<close> before the loading, and the observer of the query, which debounces.\<close>

definition reloadData :: "table_view \<Rightarrow> table_view" where
  "reloadData v =
     v\<lparr>diffRun := (if diff_shown v then diffRun v else False), run_count := Some 0, sortCol := [],
       searchResults := [], displayedTotals := Some (Totals []), displayedNodes := [],
       resultsLoadFailed := False\<rparr>"

definition queryChanged :: "string \<Rightarrow> table_view \<Rightarrow> table_view" where
  "queryChanged query v =
     (if str_includes query ''view'' \<and> length (split_on (CHR ''='') query) = 2 then v
      else if fetchedQuery v = Some query then v
      else reloadData (v\<lparr>fetchedQuery := Some query\<rparr>))"

definition toggleDiffFilter :: "table_view \<Rightarrow> table_view option" where
  "toggleDiffFilter v =
     (let v = v\<lparr>onlyShowDifferences := \<not> onlyShowDifferences v\<rparr>
      in map_option (\<lambda>r. v\<lparr>displayedNodes := displayedNodes r, displayedTotals := displayedTotals r\<rparr>)
           (refreshDisplayedNodes (results_view.truncate v)))"

section \<open>The comparators of the table\<close>

lemma name_comparator: "comparator (\<lambda>_. True) compareTestNameDefaultOrder"
  unfolding compareTestNameDefaultOrder_def
  using comparator_key [OF string_order.comparator_axioms, of "\<lambda>a. to_lower (row_path a)"] by simp

interpretation name_order: comparator "\<lambda>_. True" "compareTestName asc" for asc
proof (cases asc)
  case True
  then show "comparator (\<lambda>_. True) (compareTestName asc)"
    using name_comparator by (simp add: compareTestName_def [abs_def])
next
  case False
  then show "comparator (\<lambda>_. True) (compareTestName asc)"
    using comparator_reverse [OF name_comparator] by (simp add: compareTestName_def [abs_def])
qed

text \<open>The cells of a column that have counts, with a total that is not negative.\<close>

definition counted :: "field \<times> field \<Rightarrow> nat \<Rightarrow> row \<Rightarrow> bool" where
  "counted props index rw =
     (case column props index rw of (Num p, Num t) \<Rightarrow> 0 \<le> t | _ \<Rightarrow> False)"

definition col_rate :: "field \<times> field \<Rightarrow> nat \<Rightarrow> row \<Rightarrow> rat" where
  "col_rate props index rw =
     (case column props index rw of (Num p, Num t) \<Rightarrow> if t = 0 then -1 else p / t | _ \<Rightarrow> 0)"

definition col_zero :: "field \<times> field \<Rightarrow> nat \<Rightarrow> row \<Rightarrow> bool" where
  "col_zero props index rw = js_same (snd (column props index rw)) (Num 0)"

lemma compareResults_counted:
  assumes "counted props i a" "counted props i b"
  shows "compareResults props i a b < 0 \<longleftrightarrow>
      (if col_zero props i a \<noteq> col_zero props i b then col_zero props i a
       else if \<not> col_zero props i a \<and> col_rate props i a \<noteq> col_rate props i b
       then col_rate props i a < col_rate props i b else compareTestNameDefaultOrder a b < 0)"
    and "compareResults props i a b > 0 \<longleftrightarrow>
      (if col_zero props i a \<noteq> col_zero props i b then col_zero props i b
       else if \<not> col_zero props i a \<and> col_rate props i a \<noteq> col_rate props i b
       then col_rate props i b < col_rate props i a else compareTestNameDefaultOrder a b > 0)"
  using assms
  by (auto simp: compareResults_def counted_def col_zero_def col_rate_def Let_def
    split: prod.splits jsnum.splits if_splits)

interpretation result_order: comparator "counted props i" "compareResults props i" for props i
proof
  note N = name_order.flip [where asc = True] name_order.trans [where asc = True]
  note C = compareResults_counted [of props i]
  show "compareResults props i a b < 0 \<longleftrightarrow> compareResults props i b a > 0"
    if "counted props i a" "counted props i b" for a b
    using that N(1) [of a b] by (auto simp: C compareTestName_def)
  show "compareResults props i a c \<le> 0"
    if ok: "counted props i a" "counted props i b" "counted props i c"
      and le: "compareResults props i a b \<le> 0" "compareResults props i b c \<le> 0" for a b c
    using le N(2) [of a b c]
    by (auto simp: not_less [symmetric] C [OF ok(1,2)] C [OF ok(2,3)] C [OF ok(1,3)] compareTestName_def
      split: if_splits)
qed


section \<open>Lemmas\<close>

text \<open>Sorting a sorted list without ties the other way round reverses it.\<close>

lemma sort_reversed:
  assumes cmp: "comparator ok cmp" and xs: "list_all ok xs" "sorted_wrt (\<lambda>a b. cmp a b \<le> 0) xs"
    and ties: "\<And>a b. a \<in> set xs \<Longrightarrow> b \<in> set xs \<Longrightarrow> cmp a b = 0 \<Longrightarrow> a = b"
  shows "js_sort (\<lambda>a b. cmp b a) xs = rev xs"
proof (rule comparator.sorted_unique [OF comparator_reverse [OF cmp]])
  show "sorted_wrt (\<lambda>a b. cmp b a \<le> 0) (js_sort (\<lambda>a b. cmp b a) xs)"
    by (rule comparator.sorted_sort [OF comparator_reverse [OF cmp] xs(1)])
  show "sorted_wrt (\<lambda>a b. cmp b a \<le> 0) (rev xs)" using xs(2) by (simp add: sorted_wrt_rev)
  show "a = b" if "a \<in> set (js_sort (\<lambda>a b. cmp b a) xs)" "b \<in> set (js_sort (\<lambda>a b. cmp b a) xs)"
    "cmp b a = 0" for a b
    using ties [of b a] that by simp
qed (use xs(1) in \<open>simp_all add: list_all_iff\<close>)

lemma compareTestName_flip: "(\<lambda>a b. compareTestName asc b a) = compareTestName (\<not> asc)"
  by (auto simp: compareTestName_def fun_eq_iff)

lemma compareTestName_0:
  "compareTestName asc a b = 0 \<Longrightarrow> to_lower (row_path a) = to_lower (row_path b)"
  by (auto simp: compareTestName_def compareTestNameDefaultOrder_def compare_strings_0 split: if_splits)

lemma find_index_first:
  "i < length xs \<Longrightarrow> P (xs ! i) \<Longrightarrow> (\<And>j. j < i \<Longrightarrow> \<not> P (xs ! j)) \<Longrightarrow> find_index P xs = Some i"
proof (induction xs arbitrary: i)
  case (Cons x xs)
  show ?case
  proof (cases i)
    case 0
    with Cons.prems show ?thesis by simp
  next
    case (Suc k)
    have "\<not> P x" using Cons.prems(3) [of 0] Suc by simp
    moreover have "find_index P xs = Some k"
    proof (rule Cons.IH)
      show "\<not> P (xs ! j)" if "j < k" for j using Cons.prems(3) [of "Suc j"] Suc that by simp
    qed (use Cons.prems Suc in simp_all)
    ultimately show ?thesis using Suc by simp
  qed
qed simp

lemma next_index_exact:
  assumes "i < length rs"
    and "\<And>j. j < i \<Longrightarrow> \<not> starts_with (sr_test (rs ! j)) (sr_test (rs ! i))"
  shows "next_index True rs (sr_test (rs ! i)) = (i + 1) mod length rs"
    and "next_index False rs (sr_test (rs ! i)) = (length rs + i - 1) mod length rs"
proof -
  have "find_index (\<lambda>r. starts_with (sr_test r) (sr_test (rs ! i))) rs = Some i"
    using assms by (intro find_index_first) (auto simp: js_simps)
  then have "next_index f rs (sr_test (rs ! i)) =
      nat ((int (length rs) + (int i + (if f then 1 else -1))) mod int (length rs))" for f
    by (simp add: next_index_def Let_def)
  moreover have "int (length rs) + (int i + 1) = int (length rs + (i + 1))"
    "int (length rs) + (int i + -1) = int (length rs + i - 1)"
    using assms(1) by auto
  moreover have "nat (int a mod int b) = a mod b" for a b by (metis nat_int zmod_int)
  ultimately have "next_index True rs (sr_test (rs ! i)) = (length rs + (i + 1)) mod length rs"
    "next_index False rs (sr_test (rs ! i)) = (length rs + i - 1) mod length rs"
    by (metis (full_types))+
  then show "next_index True rs (sr_test (rs ! i)) = (i + 1) mod length rs"
    and "next_index False rs (sr_test (rs ! i)) = (length rs + i - 1) mod length rs"
    by (simp_all only: mod_add_self1)
qed

text \<open>A cell in which every result has a summary has all of its counts.\<close>

lemma row_full:
  assumes v: "refreshDisplayedNodes v = Some v'" "searchResults v \<noteq> []" "run_count v = Some n" "no_renames v"
    and rw: "rw \<in> set (displayedNodes v')" and i: "i < n"
    and full: "\<And>r. r \<in> set (matching v) \<Longrightarrow> length (statuses_of r) = n \<and> list_all sound_result (statuses_of r)"
  shows "length (row_results rw) = n"
    "\<exists>q. cell_counts (row_results rw ! i) f = Num q \<and> 0 \<le> q"
proof -
  obtain nm where nm: "nm \<in> name_of v ` set (matching v)" "length (row_results rw) = n"
    "counts_ok (cell_counts (row_results rw ! i))"
    "\<And>f. amount (cell_counts (row_results rw ! i) f) = row_sum v (matching v) nm i f"
    using row_is_sum [OF v rw] i by metis
  from nm(2) show "length (row_results rw) = n" .
  have nonneg: "0 \<le> row_sum v rs nm i f" if "set rs \<subseteq> set (matching v)" for rs f
  proof -
    have "0 \<le> contribution (diffRun v) s f" if "sound_result s" for s
      using contribution_sound [OF that, of "diffRun v"] by (cases f) auto
    then have "0 \<le> adds_at v i f r" if "r \<in> set rs" for r
      using full that \<open>set rs \<subseteq> set (matching v)\<close>
      by (force simp: adds_at_def list_all_length)
    then show ?thesis by (auto simp: row_sum_def intro!: sum_list_nonneg)
  qed
  from nm(1) obtain r where r: "r \<in> set (matching v)" "name_of v r = nm" by auto
  then obtain xs ys where xs: "matching v = xs @ r # ys" by (meson split_list)
  have "row_sum v (matching v) nm i TestViewTotal =
      row_sum v xs nm i TestViewTotal + 1 + row_sum v ys nm i TestViewTotal"
    using r full [OF r(1)] i by (simp add: xs row_sum_def adds_at_def contribution_def split: prod.split)
  moreover have "0 \<le> row_sum v xs nm i TestViewTotal" "0 \<le> row_sum v ys nm i TestViewTotal"
    using nonneg xs by auto
  ultimately have "amount (cell_counts (row_results rw ! i) TestViewTotal) > 0"
    unfolding nm(4) by simp
  then have "is_num (cell_counts (row_results rw ! i) f)"
    using nm(3) by (auto simp: counts_ok_def)
  moreover have "0 \<le> amount (cell_counts (row_results rw ! i) f)"
    unfolding nm(4) by (rule nonneg) simp
  ultimately show "\<exists>q. cell_counts (row_results rw ! i) f = Num q \<and> 0 \<le> q"
    by (auto simp: is_num_def)
qed

lemma rate_class_num: "0 \<le> p \<Longrightarrow> 0 \<le> t \<Longrightarrow> rate_class (Num p) (Num t) \<noteq> None"
  by (simp add: rate_class_def passRateClass_def getColor_rank)

lemma format_num: "formatCellDisplay v (Num p) (Num t) status dir \<noteq> None"
  by (auto simp: formatCellDisplay_def formatCellDisplayInterop_def formatCellDisplayTestView_def
    getTestNumbersDisplay_def Let_def split: option.split)


section \<open>Properties\<close>

text \<open>
  Sorting by name. The rows are permuted into ascending order of their paths in lower case, or
  descending order if they were sorted by name before; and if no two paths differ in case only,
  sorting once more reverses the table.
\<close>

lemma sort_names:
  assumes "sortTestName v = Some v'"
    and "\<And>a b. a \<in> set (displayedNodes v) \<Longrightarrow> b \<in> set (displayedNodes v) \<Longrightarrow>
           to_lower (row_path a) = to_lower (row_path b) \<Longrightarrow> a = b"
  shows "mset (displayedNodes v') = mset (displayedNodes v) \<and>
         isPathSorted v' = (\<not> isPathSorted v) \<and>
         sorted_wrt (\<lambda>a b. compareTestName (isPathSorted v') a b \<le> 0) (displayedNodes v') \<and>
         (\<exists>v''. sortTestName v' = Some v'' \<and> displayedNodes v'' = rev (displayedNodes v'))"
proof -
  let ?asc = "\<not> isPathSorted v"
  have v': "displayedNodes v' = js_sort (compareTestName ?asc) (displayedNodes v)"
    "isPathSorted v' = ?asc" "run_count v' \<noteq> None"
    using assms(1) by (auto simp: sortTestName_def Let_def split: if_splits)
  have sorted: "sorted_wrt (\<lambda>a b. compareTestName ?asc a b \<le> 0) (displayedNodes v')"
    unfolding v' by (rule name_order.sorted_sort) (simp add: list_all_iff)
  have "js_sort (\<lambda>a b. compareTestName ?asc b a) (displayedNodes v') = rev (displayedNodes v')"
  proof (rule sort_reversed [OF name_order.comparator_axioms _ sorted])
    show "a = b" if "a \<in> set (displayedNodes v')" "b \<in> set (displayedNodes v')"
      "compareTestName ?asc a b = 0" for a b
      using assms(2) that compareTestName_0 by (auto simp: v'(1))
  qed (simp add: list_all_iff)
  then have "\<exists>v''. sortTestName v' = Some v'' \<and> displayedNodes v'' = rev (displayedNodes v')"
    using v'(2,3) by (simp add: compareTestName_flip sortTestName_def Let_def)
  with v' sorted show ?thesis by simp
qed

definition plain_row :: "string \<Rightarrow> int \<Rightarrow> int \<Rightarrow> row" where
  "plain_row p n t = \<lparr>row_path = p, isDir = True,
     row_results = [\<lparr>cell_counts = (\<lambda>f. if f \<in> {Passes, SubtestPasses, TestViewPasses} then Num (of_int n) else Num (of_int t)),
                    singleSubtest = False, cell_status = None\<rparr>], row_diff = None\<rparr>"

definition sample_table :: table_view where
  "sample_table = \<lparr>view_path = ''/'', searchResults = [], run_count = Some 1, diff_shown = False,
     diffRun = False, diffResults = None, diffFilter = ''ADC'', onlyShowDifferences = False,
     displayedNodes = [plain_row ''/css'' 1 2, plain_row ''/Dom'' 0 0, plain_row ''/apis'' 1 4],
     displayedTotals = None, view = None, colorHomepage = False, isTriageMode = False,
     isPathSorted = False, sortCol = [False], showHistory = False, resultsLoadFailed = False,
     noResults = False, fetchedQuery = None\<rparr>"

theorem sort_names_witness:
  "\<exists>v'. sortTestName sample_table = Some v' \<and>
     map row_path (displayedNodes v') = [''/apis'', ''/css'', ''/Dom''] \<and>
     (\<exists>v''. sortTestName v' = Some v'' \<and> displayedNodes v'' = rev (displayedNodes v'))"
proof -
  have paths: "map_option (\<lambda>v. map row_path (displayedNodes v)) (sortTestName sample_table) =
      Some [''/apis'', ''/css'', ''/Dom'']"
    by code_simp
  then obtain v' where v': "sortTestName sample_table = Some v'"
    "map row_path (displayedNodes v') = [''/apis'', ''/css'', ''/Dom'']" by auto
  have "inj_on (\<lambda>a. to_lower (row_path a)) (set (displayedNodes sample_table))"
  proof -
    have "distinct (map (\<lambda>a. to_lower (row_path a)) (displayedNodes sample_table))" by code_simp
    then show ?thesis by (simp add: distinct_map)
  qed
  with sort_names [OF v'(1)] v' show ?thesis by (auto dest: inj_onD)
qed

text \<open>
  C12: Sorting by a column. If every cell of the column has counts, the rows are permuted so that
  those without tests come first and the pass rates ascend, or the other way round if the column
  was sorted before; the column remembers this, all other columns forget theirs; and rows that
  compare as equal keep their order.
\<close>

theorem sort_results:
  assumes "sortTestResults i v = Some v'" and "i < length (sortCol v)"
    and "\<And>a. a \<in> set (displayedNodes v) \<Longrightarrow> counted (view_props v) i a \<and> 0 \<le> col_rate (view_props v) i a + 1"
  shows "mset (displayedNodes v') = mset (displayedNodes v) \<and>
         sorted_wrt (\<lambda>a b. if sortCol v ! i then col_rate (view_props v) i b \<le> col_rate (view_props v) i a
                           else col_rate (view_props v) i a \<le> col_rate (view_props v) i b) (displayedNodes v') \<and>
         sortCol v' = (replicate (length (sortCol v)) False)[i := \<not> sortCol v ! i] \<and> \<not> isPathSorted v' \<and>
         (z \<in> set (displayedNodes v) \<longrightarrow>
           filter (\<lambda>y. compareResults (view_props v) i z y = 0) (displayedNodes v') =
           filter (\<lambda>y. compareResults (view_props v) i z y = 0) (displayedNodes v))"
proof -
  let ?cmp = "compareResults (view_props v) i" and ?down = "sortCol v ! i"
  let ?c = "if ?down then (\<lambda>a b. ?cmp b a) else ?cmp"
  have v': "displayedNodes v' = js_sort ?c (displayedNodes v)" "\<not> isPathSorted v'"
    "sortCol v' = (replicate (length (sortCol v)) False)[i := \<not> ?down]"
    using assms(1,2) by (auto simp: sortTestResults_def elem_at_def Let_def split: if_splits)
  have ok: "list_all (counted (view_props v) i) (displayedNodes v)"
    using assms(3) by (simp add: list_all_iff)
  have cmp: "comparator (counted (view_props v) i) ?c"
    using result_order.comparator_axioms comparator_reverse [OF result_order.comparator_axioms] by simp
  have rate: "col_rate (view_props v) i a \<le> col_rate (view_props v) i b"
    if "?cmp a b \<le> 0" "a \<in> set (displayedNodes v)" "b \<in> set (displayedNodes v)" for a b
    using that assms(3) [of a] assms(3) [of b] compareResults_counted(2) [of "view_props v" i a b]
    by (auto simp: not_less [symmetric] col_zero_def col_rate_def counted_def
      split: if_splits prod.splits jsnum.splits)
  have "sorted_wrt (\<lambda>a b. ?c a b \<le> 0) (displayedNodes v')"
    unfolding v'(1) by (rule comparator.sorted_sort [OF cmp ok])
  then have "sorted_wrt (\<lambda>a b. if ?down then col_rate (view_props v) i b \<le> col_rate (view_props v) i a
                           else col_rate (view_props v) i a \<le> col_rate (view_props v) i b) (displayedNodes v')"
    by (rule sorted_wrt_mono_rel [rotated]) (use rate v'(1) in \<open>auto split: if_splits\<close>)
  moreover have "filter (\<lambda>y. ?cmp z y = 0) (displayedNodes v') = filter (\<lambda>y. ?cmp z y = 0) (displayedNodes v)"
    if z: "z \<in> set (displayedNodes v)"
  proof -
    have "?c z y = 0 \<longleftrightarrow> ?cmp z y = 0" if "y \<in> set (displayedNodes v)" for y
      using ok z that result_order.flip [of "view_props v" i z y] result_order.flip [of "view_props v" i y z]
      by (auto simp: list_all_iff linorder_neq_iff)
    then have "filter (\<lambda>y. ?cmp z y = 0) ys = filter (\<lambda>y. ?c z y = 0) ys"
      if "set ys \<subseteq> set (displayedNodes v)" for ys
      using that by (intro filter_cong) auto
    moreover have "filter (\<lambda>y. ?c z y = 0) (displayedNodes v') = filter (\<lambda>y. ?c z y = 0) (displayedNodes v)"
      unfolding v'(1) using z ok by (intro comparator.stable [OF cmp ok]) (simp add: list_all_iff)
    ultimately show ?thesis by (simp add: v'(1))
  qed
  ultimately show ?thesis using v' by simp
qed

theorem sort_results_witness:
  "\<exists>v'. sortTestResults 0 sample_table = Some v' \<and> sortCol v' = [True] \<and>
     map row_path (displayedNodes v') = [''/Dom'', ''/apis'', ''/css'']"
proof -
  have paths: "map_option (\<lambda>v. map row_path (displayedNodes v)) (sortTestResults 0 sample_table) =
      Some [''/Dom'', ''/apis'', ''/css'']"
    by code_simp
  then obtain v' where v': "sortTestResults 0 sample_table = Some v'"
    "map row_path (displayedNodes v') = [''/Dom'', ''/apis'', ''/css'']" by auto
  have rows: "list_all (\<lambda>a. counted (view_props sample_table) 0 a \<and> 0 \<le> col_rate (view_props sample_table) 0 a + 1)
      (displayedNodes sample_table)"
    by code_simp
  have "sortCol sample_table = [False]" by (simp add: sample_table_def)
  with sort_results [OF v'(1)] rows v' show ?thesis by (auto simp: list_all_iff)
qed


text \<open>
  Moving between tests. In a list of tests in which no test begins with the name of a later
  one (which holds when the list is sorted), the next test of the test at a position is the one
  after it, the previous test of that one is the first again, and both wrap around at the ends.
\<close>

lemma move_cycles:
  assumes "i < length rs"
    and "\<And>j k. j < k \<Longrightarrow> k < length rs \<Longrightarrow> \<not> starts_with (sr_test (rs ! j)) (sr_test (rs ! k))"
  shows "next_index True rs (sr_test (rs ! i)) = (i + 1) mod length rs \<and>
         next_index False rs (sr_test (rs ! ((i + 1) mod length rs))) = i"
proof -
  let ?k = "(i + 1) mod length rs"
  have k: "?k < length rs" by (rule mod_less_divisor) (use assms(1) in linarith)
  have "(length rs + ?k - 1) mod length rs = i"
    using assms(1) by (cases "i + 1 = length rs") simp_all
  then show ?thesis
    using next_index_exact(1) [OF assms(1)] next_index_exact(2) [OF k] assms(1,2) k by simp
qed

theorem move_cycles_witness:
  "next_index False (map (\<lambda>t. sample_result t []) [''/a.html'', ''/a.html?b'', ''/c.html'']) ''/a.html'' = 2"
proof -
  let ?rs = "map (\<lambda>t. sample_result t []) [''/a.html'', ''/a.html?b'', ''/c.html'']"
  have "\<not> starts_with (sr_test (?rs ! j)) (sr_test (?rs ! k))" if "j < k" "k < length ?rs" for j k
  proof -
    have "(j, k) \<in> {(0, 1), (0, 2), (1, 2)}" using that by auto
    then show ?thesis by (auto simp: sample_result_def)
  qed
  from move_cycles [of 2 ?rs, OF _ this] show ?thesis by (simp add: sample_result_def)
qed

text \<open>
  Fetching. Of a view with runs, results are requested at least once and at most five times,
  and again only after the answer 422; when the last answer has results they are sorted and
  aggregated, otherwise the view reports the failure, and it never gives up on a 422 before the
  fifth attempt.
\<close>

lemma fetch_retries:
  assumes "fetchResults lc answers v = (v', n)" and "runs_of_view v \<noteq> 0"
  shows "1 \<le> n \<and> n \<le> 5 \<and> (\<forall>i. 1 \<le> i \<and> i < n \<longrightarrow> answers i = AnswerStatus 422) \<and>
         (case answers n of
            AnswerOk rs \<Rightarrow> v' = results_arrived lc rs (v\<lparr>sortCol := replicate (runs_of_view v) False\<rparr>)
          | AnswerStatus s \<Rightarrow> resultsLoadFailed v' \<and> (s = 422 \<longrightarrow> n = 5)
          | NoAnswer \<Rightarrow> resultsLoadFailed v')"
proof -
  let ?f = "\<lambda>n. search_outcome (answers n)" and ?sr = "\<lambda>e. e = HttpStatus 422"
  obtain r m ws where rt: "retry_from ?f ?sr 5 5000 0 = (r, m, ws)"
    by (cases "retry_from ?f ?sr 5 5000 0")
  let ?w = "v\<lparr>sortCol := replicate (runs_of_view v) False\<rparr>"
  have eq: "(v', n) = (case r of Inr rs \<Rightarrow> (results_arrived lc rs ?w, m)
                               | Inl e \<Rightarrow> (?w\<lparr>resultsLoadFailed := True\<rparr>, m))"
    using assms rt by (cases r) (simp_all add: fetchResults_def retry_def Let_def)
  then have m: "m = n" by (simp split: sum.splits)
  have laws: "0 < n" "n \<le> 5" "r = ?f n" "\<forall>i. 0 < i \<and> i < n \<longrightarrow> retried ?sr (?f i)"
    "retried ?sr r \<longrightarrow> 5 \<le> n"
    using retry_from_laws [OF rt] m by auto
  have "answers i = AnswerStatus 422" if "retried ?sr (?f i)" for i
    using that by (auto simp: retried_def search_outcome_def split: search_answer.splits if_splits)
  with laws(4) have again: "\<forall>i. 1 \<le> i \<and> i < n \<longrightarrow> answers i = AnswerStatus 422" by simp
  have "case answers n of
            AnswerOk rs \<Rightarrow> v' = results_arrived lc rs ?w
          | AnswerStatus s \<Rightarrow> resultsLoadFailed v' \<and> (s = 422 \<longrightarrow> n = 5)
          | NoAnswer \<Rightarrow> resultsLoadFailed v'"
    using eq laws(2,3,5) by (cases "answers n") (auto simp: search_outcome_def retried_def split: if_splits)
  with laws(1,2) again show ?thesis by simp
qed

theorem fetch_retries_witness:
  "\<exists>v'. fetchResults (\<lambda>a b. 0) (\<lambda>n. if n \<le> 2 then AnswerStatus 422 else AnswerOk []) sample_table = (v', 3) \<and>
     searchResults v' = []"
proof -
  let ?a = "\<lambda>n. if n \<le> 2 then AnswerStatus 422 else AnswerOk ([] :: search_result list)"
  obtain v' n where f: "fetchResults (\<lambda>a b. 0) ?a sample_table = (v', n)"
    by (cases "fetchResults (\<lambda>a b. 0) ?a sample_table")
  have "n = 3"
  proof -
    have "snd (fetchResults (\<lambda>a b. 0) ?a sample_table) = 3" by code_simp
    with f show ?thesis by simp
  qed
  moreover have "runs_of_view sample_table \<noteq> 0" by (simp add: runs_of_view_def sample_table_def)
  ultimately show ?thesis
    using fetch_retries [OF f] f
    by (auto simp: results_arrived_def refreshDisplayedNodes_def results_view.defs Let_def)
qed

text \<open>
  The table never throws. When every result of the folder has a sound summary for every run,
  then after the aggregation each cell of each row has a text and a class, in all three views.
\<close>

lemma table_never_throws:
  assumes "refreshDisplayedNodes (results_view.truncate v) = Some r" and "searchResults v \<noteq> []"
    and "run_count v = Some n" and "no_renames (results_view.truncate v)"
    and "rw \<in> set (displayedNodes r)" and "i < n" and "revision run \<noteq> Some ''diff''"
    and "\<And>s. s \<in> set (matching (results_view.truncate v)) \<Longrightarrow>
           length (statuses_of s) = n \<and> list_all sound_result (statuses_of s)"
  shows "getNodeResult v rw i \<noteq> None \<and>
         testResultClass v (Some rw) (int i) (Some run) (Count Passes) \<noteq> None"
proof -
  let ?v = "results_view.truncate v"
  have v: "searchResults ?v \<noteq> []" "run_count ?v = Some n"
    using assms(2,3) by (simp_all add: results_view.truncate_def)
  note full = row_full [OF assms(1) v assms(4,5,6) assms(8)]
  let ?c = "cell_counts (row_results rw ! i)"
  have num: "\<exists>q. ?c f = Num q \<and> 0 \<le> q" for f using full(2) by simp
  have i: "i < length (row_results rw)" using full(1) assms(6) by simp
  obtain p t where pt: "?c (getNodePassProp v rw) = Num p" "?c (getNodeTotalProp v rw) = Num t"
    using num by metis
  have "getNodeResult v rw i \<noteq> None"
    using i format_num [of v p t] by (simp add: getNodeResult_def elem_at_def pt)
  moreover obtain p' t' where pt': "?c (fst (view_props v)) = Num p'" "0 \<le> p'"
    "?c (snd (view_props v)) = Num t'" "0 \<le> t'"
    using num by metis
  have "testResultClass v (Some rw) (int i) (Some run) (Count Passes) \<noteq> None"
    using i assms(7) rate_class_num [OF pt'(2,4)] pt'(1,3)
    by (auto simp: testResultClass_def isDiff_def elem_at_def Let_def split: prod.split)
  ultimately show ?thesis by blast
qed

definition some_run :: test_run where
  "some_run = \<lparr>browser_name = ''chrome'', browser_version = None, labels = None, revision = None,
     run_id = 1, os_name = [], os_version = [], full_revision_hash = [], results_url = [], time_start = [],
     time_end = []\<rparr>"

definition sample_results_table :: table_view where
  "sample_results_table = sample_table\<lparr>view_path := ''/css'', searchResults := searchResults sample_view,
     run_count := Some 2\<rparr>"

theorem table_never_throws_witness:
  "\<exists>r. refreshDisplayedNodes (results_view.truncate sample_results_table) = Some r \<and> displayedNodes r \<noteq> [] \<and>
     (\<forall>rw \<in> set (displayedNodes r). getNodeResult sample_results_table rw 1 \<noteq> None)"
proof -
  let ?v = "results_view.truncate sample_results_table"
  have "map_option (\<lambda>r. displayedNodes r = []) (refreshDisplayedNodes ?v) = Some False" by code_simp
  then obtain r where r: "refreshDisplayedNodes ?v = Some r" "displayedNodes r \<noteq> []" by auto
  have s: "\<forall>s \<in> set (matching ?v). length (statuses_of s) = 2 \<and> list_all sound_result (statuses_of s)"
    by code_simp
  have "getNodeResult sample_results_table rw 1 \<noteq> None" if "rw \<in> set (displayedNodes r)" for rw
    using table_never_throws [OF r(1) _ _ _ that, of 2 1 some_run] s
    by (auto simp: sample_results_table_def sample_table_def sample_view_def no_renames_def
      results_view.truncate_def some_run_def)
  with r show ?thesis by blast
qed

text \<open>
  Rounding up loses the total. A cell in which not everything passes, but so much that the
  passes round to the total, shows the total less a hundredth and nothing else; every other cell
  with passes shows both numbers.
\<close>

lemma rounded_up_cell:
  assumes "0 < p" and "p < t" and "to_fixed 2 p = t"
  shows "getTestNumbersDisplay (Num p) (Num t) dir = Some (show_num (t - 1 / 100))"
proof -
  have "\<not> t < 1 / 100"
  proof
    assume "t < 1 / 100"
    then have "to_fixed 2 p * 100 < 1" using assms(3) by simp
    moreover have "to_fixed 2 p * 100 = of_int (math_round (p * 10 ^ 2))"
      using assms(1) by (simp add: to_fixed_def)
    ultimately have "math_round (p * 10 ^ 2) < 1" by simp
    then have "to_fixed 2 p \<le> 0" using assms(1) by (simp add: to_fixed_def)
    with assms show False by simp
  qed
  then show ?thesis using assms by (simp add: getTestNumbersDisplay_def Let_def)
qed

theorem rounded_up_cell_witness: "getTestNumbersDisplay (Num (2999 / 1000)) (Num 3) True = Some ''2.99''"
proof -
  have "to_fixed 2 (2999 / 1000) = 3" "show_num (3 - 1 / 100) = ''2.99''" by code_simp+
  with rounded_up_cell [of "2999 / 1000" 3 True] show ?thesis by simp
qed

end
