(* ===== verification/TestFileResults.thy ===== *)
theory TestFileResults
  imports JsRegex JsUrl PathNav TestSearch ResultColors LoadingState
begin

text \<open>
  \<^verbatim>\<open>webapp/components/test-file-results.js\<close> and \<^verbatim>\<open>test-file-results-table.js\<close>: the table of the
  subtests of one test, merged from the result files of several runs. Where a function answers
  an option, \<open>None\<close> stands for an exception unless noted.
\<close>

section \<open>Result files and rows\<close>

record subtest =
  sub_name :: string
  sub_status :: "string option"
  sub_message :: "string option"

text \<open>A result file; screenshots map paths to hashes.\<close>

record run_file =
  file_status :: "string option"
  file_message :: "string option"
  file_duration :: "rat option"
  file_screenshots :: "string obj option"
  file_subtests :: "subtest list option"

text \<open>A cell of the table; \<open>undefined\<close> and \<open>null\<close> are not told apart.\<close>

record result_cell =
  result_status :: "string option"
  result_message :: "string option"
  result_screenshots :: "string obj option"

record table_row =
  tr_name :: string
  tr_results :: "result_cell list"

definition no_result :: result_cell where
  "no_result = \<lparr>result_status = None, result_message = None, result_screenshots = None\<rparr>"

section \<open>Building the table\<close>

text \<open>The test itself comes first, as the analyzer of reftests expects.\<close>

definition shuffleScreenshots :: "string \<Rightarrow> string obj \<Rightarrow> string obj" where
  "shuffleScreenshots path raw =
     (case obj_get raw path of
        Some shot \<Rightarrow> (path, shot) # own_order (obj_delete path raw)
      | None \<Rightarrow> own_order raw)"

definition resultsTableHeaders :: "string \<Rightarrow> run_file option list \<Rightarrow> table_row list" where
  "resultsTableHeaders path files =
     [\<lparr>tr_name = [], tr_results = map (\<lambda>d. case d of
          None \<Rightarrow> no_result
        | Some f \<Rightarrow> \<lparr>result_status = file_status f, result_message = file_message f,
             result_screenshots = map_option (shuffleScreenshots path) (file_screenshots f)\<rparr>) files\<rparr>,
      \<lparr>tr_name = ''Duration'', tr_results = map (\<lambda>d. case d of
          None \<Rightarrow> no_result
        | Some f \<Rightarrow> no_result\<lparr>result_status := Some (timeTaken (file_duration f))\<rparr>) files\<rparr>]"

text \<open>
  \<open>mergeNamesInto\<close>: every name of a run that is new is inserted after the last name that was
  matched, at the distance it has in the run. The state of the loop is the position in the run,
  the place and position of the last match, and the names so far.
\<close>

fun merge_from :: "nat \<Rightarrow> nat \<Rightarrow> nat \<Rightarrow> string list \<Rightarrow> string list \<Rightarrow> string list" where
  "merge_from i lastOffset lastMatch [] allNames = allNames"
| "merge_from i lastOffset lastMatch (nm # names) allNames =
     (case (if i = lastMatch + 1 \<and> elem_at allNames (lastOffset + 1) = Some nm
            then Some (lastOffset + 1) else find_index (\<lambda>n. n = nm) allNames) of
        Some off \<Rightarrow> merge_from (i + 1) off i names allNames
      | None \<Rightarrow>
          merge_from (i + 1) lastOffset lastMatch names
            (splice_in (lastOffset + i - lastMatch) [nm] allNames))"

definition mergeNamesInto :: "string list \<Rightarrow> string list \<Rightarrow> string list" where
  "mergeNamesInto names allNames =
     (if allNames = [] then names else merge_from 0 0 0 names allNames)"

definition file_names :: "run_file option \<Rightarrow> string list" where
  "file_names d = (case d of None \<Rightarrow> [] | Some f \<Rightarrow> (case file_subtests f of None \<Rightarrow> [] | Some ss \<Rightarrow> map sub_name ss))"

definition has_subtests :: "run_file option \<Rightarrow> bool" where
  "has_subtests d = (case d of None \<Rightarrow> False | Some f \<Rightarrow> file_subtests f \<noteq> None)"

definition all_names :: "run_file option list \<Rightarrow> string list" where
  "all_names files =
     foldl (\<lambda>acc d. if has_subtests d then mergeNamesInto (file_names d) acc else acc) [] files"

definition subtest_cell :: "string \<Rightarrow> run_file option \<Rightarrow> result_cell" where
  "subtest_cell nm d =
     (case (case d of None \<Rightarrow> None
            | Some f \<Rightarrow> (case file_subtests f of None \<Rightarrow> None | Some ss \<Rightarrow> find (\<lambda>s. sub_name s = nm) ss)) of
        Some s \<Rightarrow> no_result\<lparr>result_status := sub_status s, result_message := sub_message s\<rparr>
      | None \<Rightarrow> no_result)"

definition statusName :: "nat \<Rightarrow> string" where
  "statusName numSubtests = (if numSubtests > 0 then ''Harness status'' else ''Test status'')"

text \<open>The table of a test from the files of the runs, in their order.\<close>

definition file_table :: "string \<Rightarrow> run_file option list \<Rightarrow> table_row list" where
  "file_table path files =
     (let rows = resultsTableHeaders path files @
            map (\<lambda>nm. \<lparr>tr_name = nm, tr_results = map (subtest_cell nm) files\<rparr>) (all_names files)
      in (hd rows)\<lparr>tr_name := statusName (length rows - 2)\<rparr> # tl rows)"

text \<open>\<open>fetchTestFile\<close>: \<open>None\<close> is \<open>undefined\<close>.\<close>

definition fetchTestFile :: "string option \<Rightarrow> run_file option list option \<Rightarrow> table_row list option" where
  "fetchTestFile path files =
     (if truthy path then map_option (file_table (the path)) files else None)"

text \<open>The URL of a result file; \<open>slice(0, -1)\<close> drops the last character.\<close>

definition resultsURL :: "string \<Rightarrow> string \<Rightarrow> string option \<Rightarrow> string" where
  "resultsURL base url path =
     (let suffix = (if str_includes url ''-summary.json.gz'' then ''-summary.json.gz'' else ''-summary_v2.json.gz'')
      in (case last_index_of url suffix of None \<Rightarrow> butlast url | Some i \<Rightarrow> take i url) @
         encodeTestPath base path)"

text \<open>\<open>loadResultFile\<close>: an answer that is not ok gives no file; the body is parsed elsewhere.\<close>

definition loadResultFile :: "bool \<Rightarrow> run_file \<Rightarrow> run_file option" where
  "loadResultFile ok parsed = (if ok then Some parsed else None)"

section \<open>Searching and filtering\<close>

text \<open>One entry of the search results with subtests.\<close>

record subtest_result =
  st_test :: string
  st_subtests :: "string list"

definition file_query :: "string \<Rightarrow> query \<Rightarrow> query" where
  "file_query path structuredSearch = QAnd [QPattern path, structuredSearch]"

text \<open>
  \<open>fetchSearchResults\<close>: nothing to search without runs or a query; else as many attempts as there
  are runs, and one more. The first component tells \<open>undefined\<close>.
\<close>

definition fetchSearchResults ::
  "nat \<Rightarrow> query option \<Rightarrow> (nat \<Rightarrow> nat + 'r) \<Rightarrow> (nat + 'r) option" where
  "fetchSearchResults runs structuredSearch answers =
     (if runs = 0 \<or> structuredSearch = None then None
      else Some (fst (retry answers (\<lambda>err. err = 422) (runs + 1) 5000)))"

definition filterResultsTableBySearch ::
  "string \<Rightarrow> table_row list option \<Rightarrow> subtest_result list option \<Rightarrow> table_row list option" where
  "filterResultsTableBySearch path resultsTable searchResults =
     (case (resultsTable, searchResults) of
        (Some rows, Some rs) \<Rightarrow>
          (case find (\<lambda>r. st_test r = path) rs of
             None \<Rightarrow> Some rows
           | Some t \<Rightarrow> Some (take 2 rows @ filter (\<lambda>r. tr_name r \<in> set (st_subtests t)) (drop 2 rows)))
      | _ \<Rightarrow> resultsTable)"

definition status_at :: "table_row \<Rightarrow> nat \<Rightarrow> string option option" where
  "status_at r i = map_option result_status (elem_at (tr_results r) i)"

fun filter_throw :: "('a \<Rightarrow> bool option) \<Rightarrow> 'a list \<Rightarrow> 'a list option" where
  "filter_throw f [] = Some []"
| "filter_throw f (x # xs) =
     (case f x of None \<Rightarrow> None
      | Some b \<Rightarrow> map_option (\<lambda>ys. if b then x # ys else ys) (filter_throw f xs))"

text \<open>The rows to show and the number of subtests for the banner.\<close>

definition computeRows :: "table_row list option \<Rightarrow> bool \<Rightarrow> (table_row list \<times> nat) option" where
  "computeRows resultsTable onlyShowDifferences =
     (case resultsTable of
        None \<Rightarrow> None
      | Some tb \<Rightarrow>
          map_option
            (\<lambda>rows. (rows, if length rows > 2 \<and> tr_name (rows ! 1) = ''Duration'' then length rows - 2 else 0))
            (if tb \<noteq> [] \<and> onlyShowDifferences then
               map_option (\<lambda>others. hd tb # others)
                 (filter_throw
                   (\<lambda>r. case (status_at r 0, status_at r 1) of (Some a, Some b) \<Rightarrow> Some (a \<noteq> b) | _ \<Rightarrow> None)
                   (tl tb))
             else Some tb))"

section \<open>The table component\<close>

definition any_char :: re where
  "any_char = rnset [CHR 0x0A, CHR 0x0D]"

text \<open>A quoted string with escaped quotes, as a group.\<close>

definition quoted :: "nat \<Rightarrow> re" where
  "quoted g = rseq [RChr (CHR 0x22),
     RStar (RGroup g (RAlt (rstr [CHR 0x5C, CHR 0x22]) (rnset [CHR 0x22]))), RChr (CHR 0x22)]"

definition whole :: "re list \<Rightarrow> regex" where
  "whole rs = \<lparr>ignore_case = False, pattern_of = rseq (RBegin # rs @ [REnd])\<rparr>"

definition operand :: "nat \<Rightarrow> re" where
  "operand g = RGroup g (RAlt (quoted (g + 1)) (RStar (rnset '' '')))"

definition approx_operand :: "nat \<Rightarrow> re" where
  "approx_operand g = RGroup g (ralt [quoted (g + 1), rstr '' +/- '', RStar (rnset '':'')])"

definition group_text :: "match_result \<Rightarrow> nat \<Rightarrow> string" where
  "group_text m i = (case group m i of None \<Rightarrow> ''undefined'' | Some t \<Rightarrow> t)"

definition spaces_to_underscores :: "string \<Rightarrow> string" where
  "spaces_to_underscores s = map (\<lambda>c. if is_space c then CHR ''_'' else c) s"

definition is_alnum_space :: "char \<Rightarrow> bool" where
  "is_alnum_space c = (is_letter c \<or> is_digit c \<or> c = CHR '' '')"

definition matchers :: "(regex \<times> (match_result \<Rightarrow> string)) list" where
  "matchers =
     [(whole [rstr ''assert_equals:'', RStar any_char, rstr '' expected '', operand 1, rstr '' but got '', operand 3],
       \<lambda>m. ''!EQ('' @ group_text m 1 @ '', '' @ group_text m 3 @ '')''),
      (whole [rstr ''assert_approx_equals:'', RStar any_char, rstr '' expected '', approx_operand 1,
              rstr '' but got '', approx_operand 3, rstr '':'', RStar any_char],
       \<lambda>m. ''!~EQ('' @ group_text m 1 @ '', '' @ group_text m 3 @ '')''),
      (whole [rstr ''assert '', operand 1, rstr '' == '', operand 3],
       \<lambda>m. ''!EQ('' @ group_text m 1 @ '', '' @ group_text m 3 @ '')''),
      (whole [rstr ''assert_array_equals:'', RStar any_char], \<lambda>m. ''!ARRAY_EQ(a, b)''),
      (whole [rstr ''Uncaught '', RStar (rnset '' ''), rstr ''Error:'', RStar any_char], \<lambda>m. ''UNCAUGHT_ERROR''),
      (whole [RGroup 1 (RStar (rnset '' '')), rstr '' is not '', RGroup 2 (RStar (RClass False is_alnum_space))],
       \<lambda>m. ''NOT_'' @ spaces_to_underscores (to_upper (group_text m 2)) @ ''('' @ group_text m 1 @ '')''),
      (whole [rstr ''promise_test: Unhandled rejection with value: '', RGroup 1 (RStar any_char)],
       \<lambda>m. ''PROMISE_REJECT('' @ group_text m 1 @ '')''),
      (whole [rstr ''assert_true: '', RStar any_char], \<lambda>m. ''!TRUE''),
      (whole [rstr ''assert_own_property: '', RStar (rnset [CHR 0x22]), RChr (CHR 0x22),
              RGroup 1 (RStar (rnset [CHR 0x22])), RChr (CHR 0x22), RStar any_char],
       \<lambda>m. ''!OWN_PROPERTY('' @ group_text m 1 @ '')''),
      (whole [rstr ''assert_inherits: '', RStar (rnset [CHR 0x22]), RChr (CHR 0x22),
              RGroup 1 (RStar (rnset [CHR 0x22])), RChr (CHR 0x22), RStar any_char],
       \<lambda>m. ''!INHERITS('' @ group_text m 1 @ '')'')]"

fun first_match :: "(regex \<times> (match_result \<Rightarrow> string)) list \<Rightarrow> string \<Rightarrow> string option" where
  "first_match [] msg = None"
| "first_match ((rx, get) # ms) msg =
     (case exec rx msg of Some m \<Rightarrow> Some (get m) | None \<Rightarrow> first_match ms msg)"

definition parseFailureMessage :: "string \<Rightarrow> string \<Rightarrow> string" where
  "parseFailureMessage status msg = or_else (first_match matchers msg) status"

definition statusesAsMessage :: "string list" where
  "statusesAsMessage = [''OK'', ''PASS'', ''TIMEOUT'']"

definition subtestMessage :: "result_cell \<Rightarrow> bool \<Rightarrow> string" where
  "subtestMessage result verbose =
     (if truthy (result_status result) \<and>
         (\<not> truthy (result_message result) \<or> the (result_status result) \<in> set statusesAsMessage)
      then the (result_status result)
      else if \<not> truthy (result_status result) then ''MISSING''
      else
        (let status = the (result_status result); msg = the (result_message result)
         in if verbose then status @ '' message: '' @ msg
            else if status = ''ERROR'' then ''ERROR''
            else parseFailureMessage status msg))"

text \<open>The query of the analyzer's URL; without screenshots it throws.\<close>

definition computeAnalyzerURL :: "string obj option \<Rightarrow> string option" where
  "computeAnalyzerURL shots =
     map_option (\<lambda>ss. form_serialize (map (\<lambda>kv. (''screenshot'', snd kv)) ss)) shots"

definition testScreenshot :: "string \<Rightarrow> string obj option \<Rightarrow> string option" where
  "testScreenshot path shots =
     map_option
       (\<lambda>ss. ''/api/screenshot/'' @ (case obj_get ss path of Some s \<Rightarrow> s | None \<Rightarrow> ''undefined'')) shots"

definition anyScreenshots :: "table_row \<Rightarrow> bool" where
  "anyScreenshots row = list_ex (\<lambda>r. result_screenshots r \<noteq> None) (tr_results row)"

definition th_width :: "rat \<Rightarrow> nat \<Rightarrow> bool \<Rightarrow> rat" where
  "th_width w runs diffRun = w / (of_nat runs + 2 + (if diffRun then 1 else 0))"

definition tally :: "result_cell \<Rightarrow> nat \<times> nat \<Rightarrow> nat \<times> nat" where
  "tally r c =
     (if result_status r = Some ''PASS'' then fst c + 1 else fst c,
      if truthy (result_status r) then snd c + 1 else snd c)"

text \<open>A row with more results than the first one throws.\<close>

fun tally_row :: "result_cell list \<Rightarrow> (nat \<times> nat) list \<Rightarrow> (nat \<times> nat) list option" where
  "tally_row [] cs = Some cs"
| "tally_row (r # rs) [] =
     (if result_status r = Some ''PASS'' \<or> truthy (result_status r) then None else tally_row rs [])"
| "tally_row (r # rs) (c # cs) = map_option (\<lambda>cs'. tally r c # cs') (tally_row rs cs)"

fun tally_rows :: "table_row list \<Rightarrow> (nat \<times> nat) list \<Rightarrow> (nat \<times> nat) list option" where
  "tally_rows [] cs = Some cs"
| "tally_rows (r # rs) cs =
     (case tally_row (tr_results r) cs of None \<Rightarrow> None | Some cs' \<Rightarrow> tally_rows rs cs')"

definition computeTotals :: "table_row list \<Rightarrow> (nat \<times> nat) list option" where
  "computeTotals rows =
     (if length rows \<le> 2 then Some []
      else tally_rows (drop 2 rows) (replicate (length (tr_results (hd rows))) (0, 0)))"

definition colorClass :: "string option \<Rightarrow> string option" where
  "colorClass status =
     (if status = Some ''PASS'' then passRateClass 1 1
      else if status \<in> {Some ''FAIL'', Some ''ERROR'', Some ''TIMEOUT'', Some ''NOTRUN'', Some ''CRASH''}
      then passRateClass 0 1
      else Some ''result'')"

definition totalsColorClass :: "nat \<Rightarrow> nat \<Rightarrow> string option" where
  "totalsColorClass passes tot =
     (if tot = 0 then Some ''result'' else passRateClass (of_nat passes) (of_nat tot))"

definition cell_passed :: "result_cell \<Rightarrow> bool" where
  "cell_passed r = (result_status r \<in> {Some ''OK'', Some ''PASS''})"

text \<open>The answers of the next two are \<open>undefined\<close> (the inner \<open>None\<close>) where nothing changed.\<close>

definition diffDisplay :: "result_cell list \<Rightarrow> string option option" where
  "diffDisplay results =
     (case results of
        a # b # _ \<Rightarrow> Some
          (if result_status a \<noteq> result_status b then
             (if cell_passed a \<and> \<not> cell_passed b then Some ''-1''
              else if cell_passed b \<and> \<not> cell_passed a then Some ''+1'' else Some ''0'')
           else None)
      | _ \<Rightarrow> None)"

definition passed_at :: "result_cell list \<Rightarrow> nat \<Rightarrow> bool" where
  "passed_at rs i = (case elem_at rs i of None \<Rightarrow> False | Some r \<Rightarrow> cell_passed r)"

definition diffClass :: "result_cell list \<Rightarrow> string option" where
  "diffClass results =
     (if passed_at results 0 \<and> \<not> passed_at results 1 then passRateClass 0 1
      else if passed_at results 1 \<and> \<not> passed_at results 0 then passRateClass 1 1 else None)"

definition hasFailed :: "string option \<Rightarrow> bool" where
  "hasFailed status = (status \<in> {Some ''FAIL'', Some ''ERROR'', Some ''TIMEOUT''})"

definition canAmendSubtest :: "string option \<Rightarrow> bool \<Rightarrow> bool" where
  "canAmendSubtest status isTriageMode = (hasFailed status \<and> isTriageMode)"

text \<open>\<open>None\<close>: there is no product for the index.\<close>

definition getMetadataUrlForSubtest ::
  "string \<Rightarrow> product list \<Rightarrow> nat \<Rightarrow> string \<Rightarrow> string obj obj \<Rightarrow> string option" where
  "getMetadataUrlForSubtest path products index subtestname m =
     (if subtestname = ''Duration'' then Some []
      else map_option
        (\<lambda>p. case obj_get m (path @ browser_name p) of
               None \<Rightarrow> []
             | Some links \<Rightarrow>
                 (case obj_get links subtestname of
                    Some url \<Rightarrow> url
                  | None \<Rightarrow> (case obj_get links ''/'' of Some url \<Rightarrow> url | None \<Rightarrow> [])))
        (elem_at products index))"

definition shouldDisplaySubtestMetadata ::
  "string \<Rightarrow> product list \<Rightarrow> nat \<Rightarrow> string \<Rightarrow> string obj obj option \<Rightarrow> string option \<Rightarrow> bool \<Rightarrow> bool option" where
  "shouldDisplaySubtestMetadata path products index subtestname m status isTriageMode =
     (case m of
        None \<Rightarrow> Some False
      | Some m \<Rightarrow>
          if \<not> hasFailed status \<and> \<not> isTriageMode then Some False
          else map_option (\<lambda>u. u \<noteq> []) (getMetadataUrlForSubtest path products index subtestname m))"

definition shouldShowTotals :: "(nat \<times> nat) list option \<Rightarrow> bool" where
  "shouldShowTotals tots = (case tots of None \<Rightarrow> False | Some ts \<Rightarrow> length ts > 0)"


section \<open>Merging names\<close>

lemma set_splice_in [simp]: "set (splice_in i ys xs) = set ys \<union> set xs"
proof -
  have "set xs = set (take i xs) \<union> set (drop i xs)" by (metis append_take_drop_id set_append)
  then show ?thesis by (auto simp: splice_in_def)
qed

lemma subseq_splice_in: "subseq xs (splice_in i ys xs)"
proof -
  have "subseq (take i xs @ drop i xs) (take i xs @ ys @ drop i xs)"
    by (intro list_emb_append_mono list_emb_append2) simp_all
  then show ?thesis by (simp add: splice_in_def)
qed

lemma distinct_splice_in: "distinct xs \<Longrightarrow> x \<notin> set xs \<Longrightarrow> distinct (splice_in i [x] xs)"
  by (auto simp: splice_in_def dest: in_set_takeD in_set_dropD set_take_disj_set_drop_if_distinct [of xs i i])

lemma find_index_None_iff: "find_index P xs = None \<longleftrightarrow> (\<forall>x \<in> set xs. \<not> P x)"
  by (induction xs) auto

lemma elem_at_in: "elem_at xs i = Some x \<Longrightarrow> x \<in> set xs"
  by (auto simp: elem_at_def split: if_splits)

lemma merge_from_laws:
  "set (merge_from i lo lm names al) = set names \<union> set al \<and> subseq al (merge_from i lo lm names al) \<and>
   (distinct al \<longrightarrow> distinct (merge_from i lo lm names al))"
proof (induction i lo lm names al rule: merge_from.induct)
  case (1 i lo lm al)
  show ?case by simp
next
  case (2 i lo lm nm names al)
  let ?o = "if i = lm + 1 \<and> elem_at al (lo + 1) = Some nm then Some (lo + 1) else find_index (\<lambda>n. n = nm) al"
  show ?case
  proof (cases ?o)
    case None
    then have "nm \<notin> set al" by (auto simp: find_index_None_iff split: if_splits)
    then show ?thesis
      using "2.IH"(1) [OF None] None subseq_splice_in [of al "lo + i - lm" "[nm]"]
        subseq_order.order_trans distinct_splice_in [of al nm "lo + i - lm"]
      by (auto split: if_splits)
  next
    case (Some k)
    then have "nm \<in> set al"
    proof (cases "i = lm + 1 \<and> elem_at al (lo + 1) = Some nm")
      case False
      with Some have "find_index (\<lambda>n. n = nm) al = Some k" by (simp split: if_splits)
      then have "find_index (\<lambda>n. n = nm) al \<noteq> None" by simp
      then show ?thesis by (simp add: find_index_None_iff)
    qed (auto dest: elem_at_in)
    then show ?thesis using "2.IH"(2) [OF Some] Some by auto
  qed
qed

lemma merge_laws:
  "set (mergeNamesInto names al) = set names \<union> set al \<and> subseq al (mergeNamesInto names al) \<and>
   (distinct names \<and> distinct al \<longrightarrow> distinct (mergeNamesInto names al))"
  using merge_from_laws [of 0 0 0 names al] by (auto simp: mergeNamesInto_def)

lemma file_names_none: "\<not> has_subtests d \<Longrightarrow> file_names d = []"
  by (auto simp: has_subtests_def file_names_def split: option.splits)

lemma all_names_laws:
  "\<forall>d \<in> set files. distinct (file_names d) \<Longrightarrow>
     distinct (all_names files) \<and> set (all_names files) = (\<Union>d \<in> set files. set (file_names d))"
proof (induction files rule: rev_induct)
  case Nil
  show ?case by (simp add: all_names_def)
next
  case (snoc d files)
  have "all_names (files @ [d]) =
      (if has_subtests d then mergeNamesInto (file_names d) (all_names files) else all_names files)"
    by (simp add: all_names_def)
  with snoc merge_laws [of "file_names d" "all_names files"] file_names_none [of d] show ?case by auto
qed

lemma file_table_rows:
  "file_table path files =
     \<lparr>tr_name = statusName (length (all_names files)), tr_results = tr_results (resultsTableHeaders path files ! 0)\<rparr> #
     (resultsTableHeaders path files ! 1) #
     map (\<lambda>nm. \<lparr>tr_name = nm, tr_results = map (subtest_cell nm) files\<rparr>) (all_names files)"
  by (simp add: file_table_def resultsTableHeaders_def Let_def)

lemma find_named:
  "distinct (map f xs) \<Longrightarrow> x \<in> set xs \<Longrightarrow> find (\<lambda>y. f y = f x) xs = Some x"
  by (induction xs) (auto simp: image_iff)

section \<open>Totals\<close>

lemma tally_row_bounds:
  "tally_row rs cs = Some cs' \<Longrightarrow> length cs' = length cs \<and>
     (\<forall>i < length cs. fst (cs ! i) \<le> fst (cs' ! i) \<and> fst (cs' ! i) - fst (cs ! i) \<le> snd (cs' ! i) - snd (cs ! i) \<and>
        snd (cs ! i) \<le> snd (cs' ! i) \<and> snd (cs' ! i) \<le> snd (cs ! i) + 1)"
proof (induction rs cs arbitrary: cs' rule: tally_row.induct)
  case (3 r rs c cs)
  then show ?case
    by (auto simp: tally_def nth_Cons truthy_def split: nat.split option.splits)
qed (auto split: if_splits)

lemma tally_rows_bounds:
  "tally_rows rows cs = Some cs' \<Longrightarrow> length cs' = length cs \<and>
     (\<forall>i < length cs. fst (cs ! i) \<le> snd (cs ! i) \<longrightarrow>
        fst (cs' ! i) \<le> snd (cs' ! i) \<and> snd (cs' ! i) \<le> snd (cs ! i) + length rows)"
proof (induction rows arbitrary: cs)
  case (Cons r rows)
  then obtain cs1 where "tally_row (tr_results r) cs = Some cs1" "tally_rows rows cs1 = Some cs'"
    by (auto split: option.splits)
  with Cons.IH [of cs1] tally_row_bounds [of "tr_results r" cs cs1] show ?case by fastforce
qed simp


section \<open>Properties\<close>


definition sample_file :: "(string \<times> string) list \<Rightarrow> run_file option" where
  "sample_file ss = Some \<lparr>file_status = Some ''OK'', file_message = None, file_duration = Some 1000,
     file_screenshots = None,
     file_subtests = Some (map (\<lambda>(n, s). \<lparr>sub_name = n, sub_status = Some s, sub_message = None\<rparr>) ss)\<rparr>"


text \<open>
  Merging keeps order. The names of a further run are added to the names so far without
  changing their order, every name once, and none else.
\<close>

lemma merge_keeps_order:
  "subseq al (mergeNamesInto names al) \<and> set (mergeNamesInto names al) = set names \<union> set al \<and>
   \<not> (distinct names \<and> distinct al \<and> \<not> distinct (mergeNamesInto names al))"
  using merge_laws [of names al] by blast

text \<open>
  Totals of subtests. Where the totals are computed there is one for every run of the first
  row, and none counts more passes than subtests, nor more subtests than there are rows after
  the status and the duration.
\<close>

lemma subtest_totals_bounds:
  assumes "computeTotals rows = Some ts" and "i < length ts"
  shows "length ts = length (tr_results (hd rows)) \<and> fst (ts ! i) \<le> snd (ts ! i) \<and>
         snd (ts ! i) \<le> length rows - 2"
proof -
  from assms have "tally_rows (drop 2 rows) (replicate (length (tr_results (hd rows))) (0, 0)) = Some ts"
    by (auto simp: computeTotals_def split: if_splits)
  from tally_rows_bounds [OF this] assms(2) show ?thesis by auto
qed

theorem subtest_totals_bounds_witness:
  "computeTotals (file_table ''/a.html'' [sample_file [(''x'', ''PASS''), (''z'', ''FAIL'')], None]) =
     Some [(1, 2), (0, 0)] \<and> (1 :: nat) \<le> 2"
proof -
  let ?t = "file_table ''/a.html'' [sample_file [(''x'', ''PASS''), (''z'', ''FAIL'')], None]"
  have c: "computeTotals ?t = Some [(1, 2), (0, 0)]" by code_simp
  from subtest_totals_bounds [OF c, of 0] c show ?thesis by simp
qed

text \<open>
  A missing screenshot. If the test itself has no screenshot but others of its screenshots are
  there, the link goes to a screenshot called "undefined", because an iterator is indexed.
\<close>

lemma screenshot_undefined:
  assumes "obj_get shots path = None"
  shows "testScreenshot path (Some shots) = Some ''/api/screenshot/undefined''"
  using assms by (simp add: testScreenshot_def)

lemma messages:
  "parseFailureMessage ''FAIL'' ''assert_equals: x expected 1 but got 2'' = ''!EQ(1, 2)''"
  "parseFailureMessage ''FAIL'' ''foo is not a function'' = ''NOT_A_FUNCTION(foo)''"
  "parseFailureMessage ''FAIL'' ''something else'' = ''FAIL''"
  by code_simp+

end
