(* ===== verification/WptMetadata.thy ===== *)
theory WptMetadata
  imports PathNav
begin

text \<open>
  \<^verbatim>\<open>webapp/components/wpt-metadata.js\<close>: the links to bugs and the labels of the tests below a
  path. What the server answers is an argument.
\<close>

section \<open>Metadata\<close>

text \<open>
  A link: product, URL, label, and the subtests it is about, where the answer names results
  (an entry may lack a subtest).
\<close>

record metadata_link =
  ml_product :: string
  ml_url :: string
  ml_label :: "string option"
  ml_results :: "string option list option"

type_synonym metadata = "metadata_link list obj"

text \<open>The request for the metadata of the products, and the merging with what is pending.\<close>

definition merged_query :: "string list option \<Rightarrow> (string \<times> string) list option" where
  "merged_query products =
     map_option (\<lambda>ps. [(''includeTestLevel'', ''true''), (''products'', join '','' ps)]) products"

definition computeMetadata :: "metadata option \<Rightarrow> metadata option \<Rightarrow> metadata option" where
  "computeMetadata merged pending =
     (case (merged, pending) of
        (Some m, Some p) \<Rightarrow>
          Some (foldl (\<lambda>acc kv.
                  case obj_get acc (fst kv) of
                    Some links \<Rightarrow> obj_set (fst kv) (links @ snd kv) acc
                  | None \<Rightarrow> obj_set (fst kv) (snd kv) acc) m (own_order p))
      | _ \<Rightarrow> None)"

section \<open>The tests of the results\<close>

lemma last_index_of_char_less: "last_index_of s [c] = Some i \<Longrightarrow> i < length s"
  by (induction s "[c]" arbitrary: i rule: last_index_of.induct) (auto split: option.splits if_splits)

text \<open>A test with all its ancestors, the innermost first.\<close>

function ancestors :: "string \<Rightarrow> string list" where
  "ancestors t = (if t = [] then [] else t # ancestors (getDirname (Some t)))"
  by pat_completeness auto
termination
  by (relation "measure length")
    (auto simp: getDirname_def or_else_def Let_def split: option.split dest: last_index_of_char_less)

declare ancestors.simps [simp del]

definition computeTestResultSet :: "string list option \<Rightarrow> string list option" where
  "computeTestResultSet tests =
     (case tests of
        None \<Rightarrow> None
      | Some ts \<Rightarrow> if ts = [] then None else Some (nub (concat (map ancestors ts))))"

section \<open>What is displayed\<close>

definition appendTestLabel :: "string \<Rightarrow> string option \<Rightarrow> string obj \<Rightarrow> string obj" where
  "appendTestLabel testname label labelMap =
     (if \<not> truthy label then labelMap
      else (case obj_get labelMap testname of
              None \<Rightarrow> obj_set testname (the label) labelMap
            | Some old \<Rightarrow> obj_set testname (old @ '','' @ the label) labelMap))"

definition getUrlHref :: "string \<Rightarrow> string" where
  "getUrlHref url =
     (if \<not> (starts_with url ''https://'' \<or> starts_with url ''http://'') then ''https://'' @ url else url)"

definition shouldShowMetadata :: "bool \<Rightarrow> string \<Rightarrow> string \<Rightarrow> string list \<Rightarrow> bool" where
  "shouldShowMetadata pathIsASubfolder metadataTestName path testResultSet =
     (let curPath = (if pathIsASubfolder then path @ ''/'' else path)
      in if ends_with metadataTestName ''/*'' then
           (let dirname = take (length metadataTestName - 1) metadataTestName;
                bare = take (length metadataTestName - 2) metadataTestName
            in starts_with curPath dirname \<or> (isParentDir curPath dirname \<and> bare \<in> set testResultSet))
         else starts_with metadataTestName curPath \<and> metadataTestName \<in> set testResultSet)"

record metadata_node =
  mn_test :: string
  mn_url :: string
  mn_product :: string

definition node_of :: "string \<Rightarrow> metadata_link \<Rightarrow> metadata_node" where
  "node_of tst l = \<lparr>mn_test = tst, mn_url = getUrlHref (ml_url l), mn_product = ml_product l\<rparr>"

definition serializedProductURL :: "metadata_link \<Rightarrow> string" where
  "serializedProductURL l = trim (ml_product l) @ ''_'' @ trim (ml_url l)"

definition subtestMap :: "metadata_link \<Rightarrow> string obj" where
  "subtestMap l =
     foldl (\<lambda>acc s. case s of None \<Rightarrow> acc | Some s \<Rightarrow> obj_set s (getUrlHref (ml_url l)) acc) []
       (case ml_results l of None \<Rightarrow> [] | Some rs \<Rightarrow> rs)"

text \<open>The maps and lists that the loops build.\<close>

record metadata_view =
  mv_map :: "string obj obj"
  mv_labels :: "string obj"
  mv_nodes :: "metadata_node list"

text \<open>One link of a test: the map of links, the labels, the keys seen and the nodes.\<close>

definition add_link :: "string \<Rightarrow> metadata_link \<Rightarrow> string list \<times> metadata_view \<Rightarrow> string list \<times> metadata_view" where
  "add_link tst l s =
     (let (seen, v) = s
      in if ml_url l = [] then
           (seen, if ml_product l = [] then v\<lparr>mv_labels := appendTestLabel tst (ml_label l) (mv_labels v)\<rparr> else v)
         else
           (let urlHref = getUrlHref (ml_url l);
                subs = subtestMap l;
                key = tst @ ml_product l;
                entry = (case obj_get (mv_map v) key of None \<Rightarrow> [] | Some e \<Rightarrow> e);
                v = (if subs = [] then
                       v\<lparr>mv_map := obj_set key (obj_set ''/'' urlHref entry) (mv_map v),
                         mv_labels := appendTestLabel tst (ml_label l) (mv_labels v)\<rparr>
                     else v\<lparr>mv_map := obj_set key (obj_assign entry (own_order subs)) (mv_map v)\<rparr>);
                serialized = serializedProductURL l
            in if serialized \<in> set seen then (seen, v)
               else (serialized # seen, v\<lparr>mv_nodes := mv_nodes v @ [node_of tst l]\<rparr>)))"

definition add_test :: "metadata_view \<Rightarrow> string \<times> metadata_link list \<Rightarrow> metadata_view" where
  "add_test v entry = snd (foldl (\<lambda>s l. add_link (fst entry) l s) ([], v) (snd entry))"

definition shown_tests :: "bool \<Rightarrow> string \<Rightarrow> metadata \<Rightarrow> string list \<Rightarrow> (string \<times> metadata_link list) list" where
  "shown_tests sub path m tests = filter (\<lambda>kv. shouldShowMetadata sub (fst kv) path tests) (own_order m)"

definition computeDisplayedMetadata ::
  "bool \<Rightarrow> string option \<Rightarrow> metadata option \<Rightarrow> string list option \<Rightarrow> metadata_view option" where
  "computeDisplayedMetadata sub path m tests =
     (case (m, tests) of
        (Some m, Some ts) \<Rightarrow>
          if truthy path then
            Some (foldl add_test \<lparr>mv_map = [], mv_labels = [], mv_nodes = []\<rparr> (shown_tests sub (the path) m ts))
          else None
      | _ \<Rightarrow> None)"

text \<open>The first three nodes, and the others if there are more; \<open>None\<close> is a value that is false.\<close>

definition computeFirstThree :: "metadata_node list option \<Rightarrow> metadata_node list option" where
  "computeFirstThree ns = (case ns of None \<Rightarrow> None | Some ns \<Rightarrow> if ns = [] then None else Some (take 3 ns))"

definition computeOthers :: "metadata_node list option \<Rightarrow> metadata_node list option" where
  "computeOthers ns = (case ns of None \<Rightarrow> None | Some ns \<Rightarrow> if length ns < 4 then None else Some (drop 3 ns))"

text \<open>The link to a test: its name in place of the path. A test name has no \<open>$\<close>.\<close>

definition computeTestHref :: "string \<Rightarrow> string \<Rightarrow> metadata_node \<Rightarrow> string" where
  "computeTestHref currentUrl path nd =
     (let testname = mn_test nd
      in replace_first path
           (if ends_with testname ''/*'' then take (length testname - 2) testname else testname) currentUrl)"

section \<open>Ancestors\<close>

lemma getDirname_append:
  "CHR ''/'' \<notin> set w \<Longrightarrow> getDirname (Some (p @ CHR ''/'' # w)) = p"
proof -
  assume w: "CHR ''/'' \<notin> set w"
  have none: "last_index_of w [CHR ''/''] = None"
    using w by (induction w) auto
  have "last_index_of (p @ CHR ''/'' # w) [CHR ''/''] = Some (length p)"
    by (induction p) (simp_all add: none)
  then show ?thesis by (simp add: getDirname_def or_else_def Let_def)
qed


lemma getDirname_plain: "CHR ''/'' \<notin> set w \<Longrightarrow> w \<noteq> [] \<Longrightarrow> getDirname (Some w) = []"
proof -
  assume w: "CHR ''/'' \<notin> set w" "w \<noteq> []"
  have "last_index_of w [CHR ''/''] = None" using w(1) by (induction w) auto
  with w(2) show ?thesis by (simp add: getDirname_def or_else_def Let_def)
qed

lemma last_slash: "CHR ''/'' \<in> set t \<Longrightarrow> \<exists>p w. t = p @ CHR ''/'' # w \<and> CHR ''/'' \<notin> set w"
  by (metis split_list_last)

lemma prefix_slash:
  assumes "CHR ''/'' \<notin> set w"
  shows "prefix (s @ ''/'') (p @ CHR ''/'' # w) \<longleftrightarrow> s = p \<or> prefix (s @ ''/'') p"
proof
  assume "prefix (s @ ''/'') (p @ CHR ''/'' # w)"
  then obtain z where z: "p @ CHR ''/'' # w = s @ CHR ''/'' # z" by (auto simp: prefix_def)
  show "s = p \<or> prefix (s @ ''/'') p"
  proof (cases "length s < length p")
    case True
    from z have "take (length s + 1) (p @ CHR ''/'' # w) = s @ ''/''" by simp
    with True have "take (length s + 1) p = s @ ''/''" by simp
    then show ?thesis by (metis take_is_prefix)
  next
    case False
    from z have "drop (length p) (p @ CHR ''/'' # w) = drop (length p) (s @ CHR ''/'' # z)" by simp
    then have "CHR ''/'' # w = drop (length p) s @ CHR ''/'' # z" using False by simp
    with assms have "drop (length p) s = []" by (cases "drop (length p) s") auto
    with False z show ?thesis by simp
  qed
next
  assume "s = p \<or> prefix (s @ ''/'') p"
  then show "prefix (s @ ''/'') (p @ CHR ''/'' # w)" by (auto simp: prefix_def)
qed

lemma set_ancestors: "s \<in> set (ancestors t) \<longleftrightarrow> s \<noteq> [] \<and> (s = t \<or> prefix (s @ ''/'') t)"
proof (induction t rule: ancestors.induct)
  case (1 t)
  show ?case
  proof (cases "t = []")
    case True
    then show ?thesis by (simp add: ancestors.simps)
  next
    case False
    have IH: "s \<in> set (ancestors (getDirname (Some t))) \<longleftrightarrow>
        s \<noteq> [] \<and> (s = getDirname (Some t) \<or> prefix (s @ ''/'') (getDirname (Some t)))"
      using 1 False by simp
    show ?thesis
    proof (cases "CHR ''/'' \<in> set t")
      case True
      then obtain p w where t: "t = p @ CHR ''/'' # w" "CHR ''/'' \<notin> set w" using last_slash by blast
      have dir: "getDirname (Some t) = p" unfolding t(1) by (rule getDirname_append [OF t(2)])
      have "ancestors t = t # ancestors p" by (subst ancestors.simps) (simp add: False dir)
      moreover have "prefix (s @ ''/'') t \<longleftrightarrow> s = p \<or> prefix (s @ ''/'') p"
        unfolding t(1) by (rule prefix_slash [OF t(2)])
      ultimately show ?thesis using IH [unfolded dir] False by auto
    next
      case no: False
      then have "\<not> prefix (s @ ''/'') t" by (auto simp: prefix_def)
      moreover have "ancestors t = [t]"
        by (subst ancestors.simps) (simp add: False getDirname_plain [OF no False] ancestors.simps [of "[]"])
      ultimately show ?thesis using False by auto
    qed
  qed
qed

section \<open>The displayed nodes\<close>

text \<open>The reference: of the links of a test that have a URL, the first with each product and URL.\<close>

fun first_by :: "('a \<Rightarrow> 'k) \<Rightarrow> 'k set \<Rightarrow> 'a list \<Rightarrow> 'a list" where
  "first_by key seen [] = []"
| "first_by key seen (x # xs) =
     (if key x \<in> seen then first_by key seen xs else x # first_by key (insert (key x) seen) xs)"

lemma first_by_laws:
  "distinct (map key (first_by key seen xs)) \<and> key ` set (first_by key seen xs) = key ` set xs - seen \<and>
   subseq (first_by key seen xs) xs"
  by (induction xs arbitrary: seen) (auto simp: subseq_Cons2')

definition links_shown :: "metadata_link list \<Rightarrow> metadata_link list" where
  "links_shown links = first_by serializedProductURL {} (filter (\<lambda>l. ml_url l \<noteq> []) links)"

lemma add_links_nodes:
  "mv_nodes (snd (foldl (\<lambda>s l. add_link tst l s) (seen, v) links)) =
     mv_nodes v @ map (node_of tst) (first_by serializedProductURL (set seen) (filter (\<lambda>l. ml_url l \<noteq> []) links))"
proof (induction links arbitrary: seen v)
  case (Cons l links)
  obtain seen' v' where a: "add_link tst l (seen, v) = (seen', v')" by (cases "add_link tst l (seen, v)")
  then have "ml_url l = [] \<Longrightarrow> seen' = seen \<and> mv_nodes v' = mv_nodes v"
    "ml_url l \<noteq> [] \<Longrightarrow> serializedProductURL l \<in> set seen \<Longrightarrow> seen' = seen \<and> mv_nodes v' = mv_nodes v"
    "ml_url l \<noteq> [] \<Longrightarrow> serializedProductURL l \<notin> set seen \<Longrightarrow>
       seen' = serializedProductURL l # seen \<and> mv_nodes v' = mv_nodes v @ [node_of tst l]"
    by (auto simp: add_link_def Let_def split: if_splits)
  with Cons.IH [of seen' v'] a show ?case by auto
qed simp

lemma add_tests_nodes:
  "mv_nodes (foldl add_test v kvs) =
     mv_nodes v @ concat (map (\<lambda>kv. map (node_of (fst kv)) (links_shown (snd kv))) kvs)"
  by (induction kvs arbitrary: v) (simp_all add: add_test_def add_links_nodes links_shown_def)

lemma getUrlHref_http: "starts_with (getUrlHref url) ''https://'' \<or> starts_with (getUrlHref url) ''http://''"
  by (simp add: getUrlHref_def)

section \<open>Properties\<close>

text \<open>
  The tests of the results with their folders. The set that the metadata is matched against
  holds exactly the tests of the results and the folders that contain one of them; the loop that
  walks up from a test ends.
\<close>

lemma result_set_ancestors:
  "\<exists>rs. computeTestResultSet (Some (t # ts)) = Some rs \<and> distinct rs \<and>
     set rs = {s. s \<noteq> [] \<and> (\<exists>u \<in> set (t # ts). s = u \<or> prefix (s @ ''/'') u)}"
proof -
  have "set (nub (concat (map ancestors (t # ts)))) =
      {s. s \<noteq> [] \<and> (\<exists>u \<in> set (t # ts). s = u \<or> prefix (s @ ''/'') u)}"
    by (auto simp: set_ancestors)
  moreover have "distinct (nub (concat (map ancestors (t # ts))))" by (rule distinct_nub)
  ultimately show ?thesis by (simp add: computeTestResultSet_def del: list.map list.set)
qed

text \<open>
  The links that are listed. For each test that is shown, in order, the list has the links that
  have a URL, without those whose product and URL, trimmed, are those of an earlier one; every
  link of the list leads to an HTTP or HTTPS URL.
\<close>

lemma displayed_links:
  assumes "computeDisplayedMetadata sub (Some path) (Some m) (Some ts) = Some v"
  shows "mv_nodes v = concat (map (\<lambda>kv. map (node_of (fst kv)) (links_shown (snd kv))) (shown_tests sub path m ts)) \<and>
         (\<forall>nd \<in> set (mv_nodes v). starts_with (mn_url nd) ''https://'' \<or> starts_with (mn_url nd) ''http://'') \<and>
         distinct (map serializedProductURL (links_shown links)) \<and>
         serializedProductURL ` set (links_shown links) = serializedProductURL ` {l \<in> set links. ml_url l \<noteq> []}"
proof -
  have "mv_nodes v = concat (map (\<lambda>kv. map (node_of (fst kv)) (links_shown (snd kv))) (shown_tests sub path m ts))"
    using assms by (auto simp: computeDisplayedMetadata_def add_tests_nodes split: if_splits)
  moreover from this have "\<forall>nd \<in> set (mv_nodes v). starts_with (mn_url nd) ''https://'' \<or> starts_with (mn_url nd) ''http://''"
    using getUrlHref_http by (auto simp: node_of_def)
  ultimately show ?thesis
    using first_by_laws [of serializedProductURL "{}" "filter (\<lambda>l. ml_url l \<noteq> []) links"]
    by (simp add: links_shown_def)
qed

definition sample_links :: "metadata_link list" where
  "sample_links =
     [\<lparr>ml_product = ''chrome'', ml_url = ''crbug.com/1'', ml_label = None, ml_results = None\<rparr>,
      \<lparr>ml_product = ''chrome'', ml_url = ''crbug.com/1 '', ml_label = None, ml_results = Some [Some ''s'']\<rparr>,
      \<lparr>ml_product = [], ml_url = [], ml_label = Some ''interop'', ml_results = None\<rparr>]"

theorem displayed_links_witness:
  "\<exists>v. computeDisplayedMetadata True (Some ''/css'') (Some [(''/css/a.html'', sample_links)]) (Some [''/css/a.html'']) = Some v \<and>
     mv_nodes v = [\<lparr>mn_test = ''/css/a.html'', mn_url = ''https://crbug.com/1'', mn_product = ''chrome''\<rparr>] \<and>
     mv_labels v = [(''/css/a.html'', ''interop'')]"
proof -
  let ?c = "computeDisplayedMetadata True (Some ''/css'') (Some [(''/css/a.html'', sample_links)]) (Some [''/css/a.html''])"
  have "map_option mv_labels ?c = Some [(''/css/a.html'', ''interop'')]" by code_simp
  then obtain v where v: "?c = Some v" "mv_labels v = [(''/css/a.html'', ''interop'')]" by auto
  have "concat (map (\<lambda>kv. map (node_of (fst kv)) (links_shown (snd kv)))
      (shown_tests True ''/css'' [(''/css/a.html'', sample_links)] [''/css/a.html''])) =
    [\<lparr>mn_test = ''/css/a.html'', mn_url = ''https://crbug.com/1'', mn_product = ''chrome''\<rparr>]"
    by code_simp
  with displayed_links [OF v(1), of "[]"] v show ?thesis by auto
qed

end
