(* ===== verification/JsHtml.thy ===== *)
theory JsHtml
  imports JsPrelude
begin

text \<open>
  What a template renders: elements with their attributes, the events that their handlers send, and
  their children; texts; and the elements of other components with the properties that they are
  given. A binding that throws stops the rendering, which is \<open>None\<close>.
\<close>

datatype ('c, 'e) html =
  Txt string
| Comp 'c
| Elem string "(string \<times> string) list" "(string \<times> 'e) list" "('c, 'e) html list"

text \<open>A template that is rendered if a condition holds, and one that is repeated for the items of an array.\<close>

definition dom_if :: "bool \<Rightarrow> 'h list option \<Rightarrow> 'h list option" where
  "dom_if c hs = (if c then hs else Some [])"

definition dom_repeat :: "(nat \<Rightarrow> 'a \<Rightarrow> 'h option) \<Rightarrow> 'a list \<Rightarrow> 'h list option" where
  "dom_repeat f xs = those (map (\<lambda>(i, x). f i x) (zip [0..<length xs] xs))"

text \<open>Parts one after another, and an element around them.\<close>

definition parts :: "'h list option list \<Rightarrow> 'h list option" where
  "parts hss = map_option concat (those hss)"

definition elem ::
  "string \<Rightarrow> (string \<times> string) list \<Rightarrow> (string \<times> 'e) list \<Rightarrow> ('c, 'e) html list option \<Rightarrow> ('c, 'e) html option" where
  "elem tag attrs handlers hs = map_option (Elem tag attrs handlers) hs"

definition just :: "'h option \<Rightarrow> 'h list option" where
  "just h = map_option (\<lambda>x. [x]) h"

text \<open>An attribute for a flag is there or not.\<close>

definition flag_attr :: "string \<Rightarrow> bool \<Rightarrow> (string \<times> string) list" where
  "flag_attr nm b = (if b then [(nm, [])] else [])"

fun html_children :: "('c, 'e) html \<Rightarrow> ('c, 'e) html list" where
  "html_children (Elem tag attrs handlers hs) = hs"
| "html_children _ = []"

fun html_tag :: "('c, 'e) html \<Rightarrow> string" where
  "html_tag (Elem tag attrs handlers hs) = tag"
| "html_tag _ = []"

fun html_attr :: "string \<Rightarrow> ('c, 'e) html \<Rightarrow> string option" where
  "html_attr k (Elem tag attrs handlers hs) = map_of attrs k"
| "html_attr k _ = None"

fun html_handler :: "string \<Rightarrow> ('c, 'e) html \<Rightarrow> 'e option" where
  "html_handler k (Elem tag attrs handlers hs) = map_of handlers k"
| "html_handler k _ = None"

text \<open>The text of an element, without that of other components.\<close>

fun html_text :: "('c, 'e) html \<Rightarrow> string" where
  "html_text (Txt s) = s"
| "html_text (Comp c) = []"
| "html_text (Elem tag attrs handlers hs) = concat (map html_text hs)"

text \<open>The rows of a table, from its head and its body, and the number of cells of a row.\<close>

definition table_rows :: "('c, 'e) html \<Rightarrow> ('c, 'e) html list" where
  "table_rows t = concat (map html_children (html_children t))"

definition row_cells :: "('c, 'e) html \<Rightarrow> ('c, 'e) html list" where
  "row_cells r = filter (\<lambda>h. html_tag h \<in> {''td'', ''th''}) (html_children r)"

section \<open>Lemmas\<close>

lemma those_Some_iff: "those xs = Some ys \<longleftrightarrow> xs = map Some ys"
proof (induction xs arbitrary: ys)
  case (Cons x xs)
  show ?case by (cases x; cases ys) (auto simp: Cons)
qed auto

lemma those_length: "those xs = Some ys \<Longrightarrow> length ys = length xs"
  by (simp add: those_Some_iff)

lemma those_defined: "(\<And>x. x \<in> set xs \<Longrightarrow> x \<noteq> None) \<Longrightarrow> those xs \<noteq> None"
  by (induction xs) (auto split: option.splits)

lemma dom_repeat_length: "dom_repeat f xs = Some hs \<Longrightarrow> length hs = length xs"
  by (auto simp: dom_repeat_def dest: those_length)

lemma dom_repeat_nth: "dom_repeat f xs = Some hs \<Longrightarrow> i < length xs \<Longrightarrow> f i (xs ! i) = Some (hs ! i)"
proof -
  assume "dom_repeat f xs = Some hs" and i: "i < length xs"
  then have eq: "map (\<lambda>(i, x). f i x) (zip [0..<length xs] xs) = map Some hs" by (simp add: dom_repeat_def those_Some_iff)
  have "map (\<lambda>(i, x). f i x) (zip [0..<length xs] xs) ! i = f i (xs ! i)" using i by simp
  moreover have "length hs = length xs" using arg_cong [OF eq, of length] by simp
  ultimately show ?thesis using i by (simp add: eq)
qed

lemma dom_repeat_in: "dom_repeat f xs = Some hs \<Longrightarrow> h \<in> set hs \<Longrightarrow> \<exists>i < length xs. f i (xs ! i) = Some h"
  by (metis dom_repeat_length dom_repeat_nth in_set_conv_nth)

lemma dom_repeat_defined: "(\<And>i. i < length xs \<Longrightarrow> f i (xs ! i) \<noteq> None) \<Longrightarrow> dom_repeat f xs \<noteq> None"
  unfolding dom_repeat_def by (rule those_defined) (auto simp: set_zip)

lemma dom_repeat_each: "dom_repeat (\<lambda>i x. Some (f x)) xs = Some (map f xs)"
  unfolding dom_repeat_def those_Some_iff by (rule nth_equalityI) simp_all

lemma dom_if_simps [simp]: "dom_if True hs = hs" "dom_if False hs = Some []"
  by (simp_all add: dom_if_def)

lemma dom_if_defined: "(c \<Longrightarrow> hs \<noteq> None) \<Longrightarrow> dom_if c hs \<noteq> None"
  by (simp add: dom_if_def)

lemma parts_simps [simp]:
  "parts [] = Some []"
  "parts (None # hss) = None"
  "parts (Some hs # hss) = map_option (append hs) (parts hss)"
  by (simp_all add: parts_def option.map_comp comp_def)

lemma parts_Cons: "parts (x # hss) = (case x of None \<Rightarrow> None | Some hs \<Rightarrow> map_option (append hs) (parts hss))"
  by (cases x) simp_all

lemma parts_two: "parts [x, y] = Some hs \<Longrightarrow> \<exists>a b. x = Some a \<and> y = Some b \<and> hs = a @ b"
  by (cases x; cases y) auto

lemma parts_defined: "(\<And>x. x \<in> set hss \<Longrightarrow> x \<noteq> None) \<Longrightarrow> parts hss \<noteq> None"
  using those_defined [of hss] by (simp add: parts_def)

lemma elem_Some: "elem tag as es hs = Some h \<longleftrightarrow> (\<exists>xs. hs = Some xs \<and> h = Elem tag as es xs)"
  by (auto simp: elem_def)

lemma elem_defined [simp]: "elem tag as es hs = None \<longleftrightarrow> hs = None"
  by (simp add: elem_def)

lemma just_simps [simp]: "just (Some h) = Some [h]" "just None = None" "just x = None \<longleftrightarrow> x = None"
  by (simp_all add: just_def)

lemma cells_all: "list_all (\<lambda>h. html_tag h \<in> {''td'', ''th''}) hs \<Longrightarrow> row_cells (Elem tag as es hs) = hs"
  by (simp add: row_cells_def list_all_iff)

end
