(* ===== verification/MetadataPage.thy ===== *)
theory MetadataPage
  imports WptMetadata ProductInfo JsHtml
begin

text \<open>
  The rest of \<^verbatim>\<open>webapp/components/wpt-metadata.js\<close>: the element below the table of results. It asks for the metadata of
  the products and for what is pending, computes what is listed whenever one of its inputs changes, and
  renders the list, of which all but three links are behind a button. The counting of its loads
  is in \<open>LoadingState\<close>; nothing here depends on it.
\<close>

section \<open>State\<close>

datatype metadata_request = MergedFor "(string \<times> string) list" | PendingNow

record metadata_page =
  mp_path :: "string option"
  mp_tests :: "string list option"
  mp_merged :: "metadata option"
  mp_pending :: "metadata option"
  mp_displayed :: "metadata_node list option"
  mp_metadataMap :: "string obj obj option"
  mp_labelMap :: "string obj option"
  mp_button_hidden :: bool
  mp_opened :: bool
  mp_notifier :: "bool option"
  mp_requests :: "(nat \<times> metadata_request) list"
  mp_next :: nat

text \<open>
  The observers run in the order of their declaration, so that the button and the list are reset if there
  were others before; there is nothing to reset if they have not been rendered yet.
\<close>

definition resetSelectors :: "metadata_page \<Rightarrow> metadata_page" where
  "resetSelectors p =
     (if computeOthers (mp_displayed p) \<noteq> None then p\<lparr>mp_button_hidden := False, mp_opened := False\<rparr> else p)"

definition metadata_changed :: "string \<Rightarrow> metadata_page \<Rightarrow> metadata_page" where
  "metadata_changed base p =
     (case computeDisplayedMetadata (computePathIsASubfolder base (mp_path p)) (mp_path p)
             (computeMetadata (mp_merged p) (mp_pending p)) (computeTestResultSet (mp_tests p)) of
        None \<Rightarrow> p\<lparr>mp_displayed := None\<rparr>
      | Some v \<Rightarrow>
          (resetSelectors (p\<lparr>mp_labelMap := Some (mv_labels v), mp_metadataMap := Some (mv_map v)\<rparr>))
            \<lparr>mp_displayed := Some (mv_nodes v)\<rparr>)"

section \<open>Requests\<close>

definition ask_metadata :: "metadata_request \<Rightarrow> metadata_page \<Rightarrow> metadata_page" where
  "ask_metadata r p = p\<lparr>mp_requests := (mp_next p, r) # mp_requests p, mp_next := mp_next p + 1\<rparr>"

definition loadMergedMetadata :: "string list option \<Rightarrow> metadata_page \<Rightarrow> metadata_page" where
  "loadMergedMetadata products p =
     (case merged_query products of None \<Rightarrow> p | Some q \<Rightarrow> ask_metadata (MergedFor q) p)"

definition loadPendingMetadata :: "metadata_page \<Rightarrow> metadata_page" where
  "loadPendingMetadata p = ask_metadata PendingNow p"

text \<open>A request that fails leaves what there is.\<close>

definition metadata_answered :: "string \<Rightarrow> nat \<Rightarrow> metadata option \<Rightarrow> metadata_page \<Rightarrow> metadata_page" where
  "metadata_answered base k ans p =
     (case map_of (mp_requests p) k of
        None \<Rightarrow> p
      | Some r \<Rightarrow>
          (let p = p\<lparr>mp_requests := filter (\<lambda>kr. fst kr \<noteq> k) (mp_requests p)\<rparr>
           in case ans of
                None \<Rightarrow> p
              | Some m \<Rightarrow>
                  metadata_changed base
                    (case r of MergedFor q \<Rightarrow> p\<lparr>mp_merged := Some m\<rparr> | PendingNow \<Rightarrow> p\<lparr>mp_pending := Some m\<rparr>)))"

section \<open>Inputs\<close>

definition set_metadata_path :: "string \<Rightarrow> string option \<Rightarrow> metadata_page \<Rightarrow> metadata_page" where
  "set_metadata_path base path p = (if path = mp_path p then p else metadata_changed base (p\<lparr>mp_path := path\<rparr>))"

definition set_search_tests :: "string \<Rightarrow> string list option \<Rightarrow> metadata_page \<Rightarrow> metadata_page" where
  "set_search_tests base tests p = metadata_changed base (p\<lparr>mp_tests := tests\<rparr>)"

definition set_notifier :: "bool \<Rightarrow> metadata_page \<Rightarrow> metadata_page" where
  "set_notifier b p = (if mp_notifier p = Some b then p else loadPendingMetadata (p\<lparr>mp_notifier := Some b\<rparr>))"

definition handleOpenCollapsible :: "metadata_page \<Rightarrow> metadata_page" where
  "handleOpenCollapsible p = p\<lparr>mp_button_hidden := True, mp_opened := True\<rparr>"

datatype metadata_event =
  MetadataProducts "string list option" | MetadataPath "string option" | MetadataTests "string list option"
| MetadataNotifier bool | MetadataAnswer nat "metadata option" | ShowMore

fun metadata_handle :: "string \<Rightarrow> metadata_event \<Rightarrow> metadata_page \<Rightarrow> metadata_page" where
  "metadata_handle base (MetadataProducts ps) p = loadMergedMetadata ps p"
| "metadata_handle base (MetadataPath path) p = set_metadata_path base path p"
| "metadata_handle base (MetadataTests ts) p = set_search_tests base ts p"
| "metadata_handle base (MetadataNotifier b) p = set_notifier b p"
| "metadata_handle base (MetadataAnswer k ans) p = metadata_answered base k ans p"
| "metadata_handle base ShowMore p =
     (if computeOthers (mp_displayed p) \<noteq> None \<and> \<not> mp_button_hidden p then handleOpenCollapsible p else p)"

text \<open>The constructor asks for what is pending.\<close>

definition new_metadata_page :: metadata_page where
  "new_metadata_page = loadPendingMetadata
     \<lparr>mp_path = None, mp_tests = None, mp_merged = None, mp_pending = None, mp_displayed = None, mp_metadataMap = None,
      mp_labelMap = None, mp_button_hidden = False, mp_opened = False, mp_notifier = None, mp_requests = [], mp_next = 0\<rparr>"

inductive metadata_session :: "string \<Rightarrow> metadata_page \<Rightarrow> bool" for base where
  opened: "metadata_session base new_metadata_page"
| event: "metadata_session base p \<Longrightarrow> metadata_session base (metadata_handle base e p)"

section \<open>The templates\<close>

datatype metadata_click = MetadataMore

type_synonym metadata_html = "(string, metadata_click) html"

text \<open>\<^verbatim>\<open>wpt-metadata-node\<close>; \<open>here\<close> is the address of the page.\<close>

definition metadata_node_html :: "string \<Rightarrow> string \<Rightarrow> metadata_node \<Rightarrow> metadata_html" where
  "metadata_node_html here path nd =
     Elem ''div'' [(''class'', ''metadataNode'')] []
       [Elem ''iron-icon'' [(''class'', ''bug''), (''icon'', ''bug-report'')] [] [],
        Elem ''div'' [] []
          [Elem ''a'' [(''href'', computeTestHref here path nd), (''target'', ''_blank'')] [] [Txt (mn_test nd)],
           Txt '' > '',
           Elem ''img'' ([(''class'', ''browser'')] @
             (case displayMetadataLogo (mn_product nd) of None \<Rightarrow> [] | Some src \<Rightarrow> [(''src'', src)])) [] [],
           Txt '' : '',
           Elem ''a'' [(''href'', mn_url nd), (''target'', ''_blank'')] [] [Txt (mn_url nd)],
           Elem ''br'' [] [] []]]"

definition more_nodes_html :: "string \<Rightarrow> metadata_page \<Rightarrow> metadata_html list" where
  "more_nodes_html here p =
     (case computeOthers (mp_displayed p) of
        None \<Rightarrow> []
      | Some nds \<Rightarrow>
          [Elem ''iron-collapse'' ((''id'', ''metadata-collapsible'') # flag_attr ''opened'' (mp_opened p)) []
             (map (metadata_node_html here (case mp_path p of None \<Rightarrow> [] | Some s \<Rightarrow> s)) nds),
           Elem ''paper-button'' ((''id'', ''metadata-toggle'') # flag_attr ''hidden'' (mp_button_hidden p))
             [(''click'', MetadataMore)] [Txt ''Show more'']])"

definition render_metadata :: "string \<Rightarrow> metadata_page \<Rightarrow> metadata_html list" where
  "render_metadata here p =
     (if computePathIsRootDir (mp_path p) then []
      else
        (let path = (case mp_path p of None \<Rightarrow> [] | Some s \<Rightarrow> s)
         in (case computeFirstThree (mp_displayed p) of
               None \<Rightarrow> []
             | Some nds \<Rightarrow>
                 Elem ''h4'' [] [] [Txt (''Relevant links for ''), Elem ''i'' [] [] [Txt path], Txt '' results''] #
                 map (metadata_node_html here path) nds) @
            more_nodes_html here p @ [Elem ''br'' [] [] []]))"

section \<open>Lemmas\<close>

text \<open>What is listed is what is computed from the inputs as they are.\<close>

definition listed :: "string \<Rightarrow> metadata_page \<Rightarrow> metadata_view option" where
  "listed base p =
     computeDisplayedMetadata (computePathIsASubfolder base (mp_path p)) (mp_path p)
       (computeMetadata (mp_merged p) (mp_pending p)) (computeTestResultSet (mp_tests p))"

definition metadata_ok :: "string \<Rightarrow> metadata_page \<Rightarrow> bool" where
  "metadata_ok base p \<longleftrightarrow>
     mp_displayed p = map_option mv_nodes (listed base p) \<and>
     (\<forall>v. listed base p = Some v \<longrightarrow> mp_metadataMap p = Some (mv_map v) \<and> mp_labelMap p = Some (mv_labels v))"

lemma listed_simps [simp]:
  "listed base (p\<lparr>mp_displayed := d\<rparr>) = listed base p" "listed base (p\<lparr>mp_labelMap := l\<rparr>) = listed base p"
  "listed base (p\<lparr>mp_metadataMap := m\<rparr>) = listed base p" "listed base (p\<lparr>mp_button_hidden := b\<rparr>) = listed base p"
  "listed base (p\<lparr>mp_opened := b\<rparr>) = listed base p" "listed base (p\<lparr>mp_notifier := nt\<rparr>) = listed base p"
  "listed base (p\<lparr>mp_requests := rs\<rparr>) = listed base p" "listed base (p\<lparr>mp_next := n\<rparr>) = listed base p"
  "listed base (resetSelectors p) = listed base p"
  by (simp_all add: listed_def resetSelectors_def)

lemma reset_simps [simp]:
  "mp_metadataMap (resetSelectors p) = mp_metadataMap p" "mp_labelMap (resetSelectors p) = mp_labelMap p"
  by (simp_all add: resetSelectors_def)

lemma changed_ok [simp]: "metadata_ok base (metadata_changed base p)"
  unfolding metadata_changed_def
  by (fold listed_def) (simp add: metadata_ok_def split: option.split)

lemma quiet_ok [simp]:
  "metadata_ok base (p\<lparr>mp_requests := rs\<rparr>) = metadata_ok base p"
  "metadata_ok base (p\<lparr>mp_requests := rs, mp_next := n\<rparr>) = metadata_ok base p"
  "metadata_ok base (p\<lparr>mp_notifier := nt\<rparr>) = metadata_ok base p"
  "metadata_ok base (p\<lparr>mp_button_hidden := b, mp_opened := b'\<rparr>) = metadata_ok base p"
  by (simp_all add: metadata_ok_def)

lemma session_listed: "metadata_session base p \<Longrightarrow> metadata_ok base p"
proof (induction rule: metadata_session.induct)
  case opened
  show ?case
    by (simp add: metadata_ok_def new_metadata_page_def loadPendingMetadata_def ask_metadata_def listed_def
      computeMetadata_def computeDisplayedMetadata_def)
next
  case (event p e)
  then show ?case
    by (cases e) (simp_all add: loadMergedMetadata_def loadPendingMetadata_def ask_metadata_def set_metadata_path_def
      set_search_tests_def set_notifier_def metadata_answered_def handleOpenCollapsible_def Let_def
      split: option.split metadata_request.split)
qed

text \<open>The nodes of a rendered list, outside the part that can be opened and inside.\<close>

definition node_links :: "metadata_html \<Rightarrow> (string \<times> string option) list" where
  "node_links h =
     (if html_attr ''class'' h = Some ''metadataNode''
      then (case html_children (html_children h ! 1) of
              t # _ # _ # _ # u # _ \<Rightarrow> [(html_text t, html_attr ''href'' u)] | _ \<Rightarrow> [])
      else [])"

lemma node_links_node [simp]: "node_links (metadata_node_html here path nd) = [(mn_test nd, Some (mn_url nd))]"
  by (simp add: node_links_def metadata_node_html_def)

lemma node_links_map [simp]: "concat (map (node_links \<circ> metadata_node_html here path) nds) = map (\<lambda>nd. (mn_test nd, Some (mn_url nd))) nds"
  by (induction nds) simp_all

definition all_links :: "metadata_html list \<Rightarrow> (string \<times> string option) list" where
  "all_links hs =
     concat (map (\<lambda>h. if html_tag h = ''iron-collapse'' then concat (map node_links (html_children h)) else node_links h) hs)"

lemma all_links_nodes: "all_links (map (metadata_node_html here path) nds) = map (\<lambda>nd. (mn_test nd, Some (mn_url nd))) nds"
  by (induction nds) (simp_all add: all_links_def, simp add: metadata_node_html_def)

lemma all_links_append: "all_links (xs @ ys) = all_links xs @ all_links ys"
  by (simp add: all_links_def)

lemma rendered_links:
  assumes "\<not> computePathIsRootDir (mp_path p)"
  shows "all_links (render_metadata here p) =
    map (\<lambda>nd. (mn_test nd, Some (mn_url nd))) (case mp_displayed p of None \<Rightarrow> [] | Some nds \<Rightarrow> nds)"
proof -
  have plain: "all_links (Elem ''h4'' [] [] hs # rest) = all_links rest" "all_links [Elem ''br'' [] [] []] = []" "all_links [] = []" for hs rest
    by (simp_all add: all_links_def node_links_def)
  have more: "all_links (more_nodes_html here p) =
      map (\<lambda>nd. (mn_test nd, Some (mn_url nd))) (case computeOthers (mp_displayed p) of None \<Rightarrow> [] | Some nds \<Rightarrow> nds)"
    by (simp add: more_nodes_html_def all_links_def node_links_def [of "Elem _ _ _ _"] flag_attr_def split: option.split)
  have "(case computeFirstThree (mp_displayed p) of None \<Rightarrow> [] | Some nds \<Rightarrow> nds) @
      (case computeOthers (mp_displayed p) of None \<Rightarrow> [] | Some nds \<Rightarrow> nds) =
      (case mp_displayed p of None \<Rightarrow> [] | Some nds \<Rightarrow> nds)"
    by (auto simp: computeFirstThree_def computeOthers_def split: option.split)
  moreover have "all_links (render_metadata here p) =
      map (\<lambda>nd. (mn_test nd, Some (mn_url nd)))
        ((case computeFirstThree (mp_displayed p) of None \<Rightarrow> [] | Some nds \<Rightarrow> nds) @
         (case computeOthers (mp_displayed p) of None \<Rightarrow> [] | Some nds \<Rightarrow> nds))"
    using assms by (simp add: render_metadata_def all_links_append plain all_links_nodes more Let_def split: option.split)
  ultimately show ?thesis by simp
qed

text \<open>
  The metadata of products that were asked for earlier, when it arrives last, replaces that of the products that
  are displayed.
\<close>

lemma overtaken_metadata:
  assumes "map_of (mp_requests p) k = Some (MergedFor q)"
  shows "mp_merged (metadata_answered base k (Some m) p) = Some m"
  using assms by (simp add: metadata_answered_def metadata_changed_def resetSelectors_def Let_def split: option.split)

text \<open>
  A list that was opened is closed when other links replace it, but not when it was taken away in between: then it
  comes back opened and without the button.
\<close>

lemma list_stays_open:
  assumes "mp_opened p" and "mp_button_hidden p"
    and "p' = set_search_tests base (Some (t # ts)) (set_search_tests base (Some []) p)"
  shows "mp_opened p' \<and> mp_button_hidden p'"
proof -
  let ?q = "set_search_tests base (Some []) p"
  have "?q = p\<lparr>mp_tests := Some [], mp_displayed := None\<rparr>"
    by (simp add: set_search_tests_def metadata_changed_def computeTestResultSet_def computeDisplayedMetadata_def split: option.split)
  with assms show ?thesis
    by (simp add: set_search_tests_def metadata_changed_def resetSelectors_def computeOthers_def split: option.split)
qed

section \<open>Properties\<close>


definition sample_metadata_page :: metadata_page where
  "sample_metadata_page =
     foldl (\<lambda>p e. metadata_handle ''http://wpt.fyi/results'' e p) new_metadata_page
       [MetadataProducts (Some [''chrome'']), MetadataPath (Some ''/css''), MetadataTests (Some [''/css/a.html'']),
        MetadataAnswer 1 (Some [(''/css/a.html'', sample_links)]), MetadataAnswer 0 (Some [])]"


end
