(* ===== verification/Pluralize.thy ===== *)
theory Pluralize
  imports JsRegex
begin

text \<open>
  \<^verbatim>\<open>webapp/components/pluralize.js\<close>: plural and singular of English words, by tables of irregular and
  uncountable words and of rules. \<open>None\<close> stands for an exception.
\<close>

section \<open>Tables\<close>

definition rx :: "re \<Rightarrow> regex" where
  "rx r = \<lparr>ignore_case = True, pattern_of = r\<rparr>"

definition is_ascii :: "char \<Rightarrow> bool" where
  "is_ascii c = ((of_char c :: nat) < 128)"

definition irregular_words :: "(string \<times> string) list" where
  "irregular_words =
     [(''I'', ''we''), (''me'', ''us''), (''he'', ''they''), (''she'', ''they''),
      (''them'', ''them''), (''myself'', ''ourselves''), (''yourself'', ''yourselves''), (''itself'',
        ''themselves''),
      (''herself'', ''themselves''), (''himself'', ''themselves''), (''themself'', ''themselves''), (''is'',
        ''are''),
      (''was'', ''were''), (''has'', ''have''), (''this'', ''these''), (''that'', ''those''),
      (''echo'', ''echoes''), (''dingo'', ''dingoes''), (''volcano'', ''volcanoes''), (''tornado'',
        ''tornadoes''),
      (''torpedo'', ''torpedoes''), (''genus'', ''genera''), (''viscus'', ''viscera''), (''stigma'',
        ''stigmata''),
      (''stoma'', ''stomata''), (''dogma'', ''dogmata''), (''lemma'', ''lemmata''), (''schema'',
        ''schemata''),
      (''anathema'', ''anathemata''), (''ox'', ''oxen''), (''axe'', ''axes''), (''die'', ''dice''),
      (''yes'', ''yeses''), (''foot'', ''feet''), (''eave'', ''eaves''), (''goose'', ''geese''),
      (''tooth'', ''teeth''), (''quiz'', ''quizzes''), (''human'', ''humans''), (''proof'', ''proofs''),
      (''carve'', ''carves''), (''valve'', ''valves''), (''looey'', ''looies''), (''thief'', ''thieves''),
      (''groove'', ''grooves''), (''pickaxe'', ''pickaxes''), (''whiskey'', ''whiskies'')]"

definition plural_table :: "(regex \<times> string) list" where
  "plural_table =
     [(rx (rseq [ROpt (rstr ''s''), REnd]), ''s''),
      (rx (rseq [RClass True is_ascii, REnd]), ''$0''),
      (rx (rseq [RGroup 1 (rseq [rnset ''aeiou'', rstr ''ese'']), REnd]), ''$1''),
      (rx (rseq [RGroup 1 (ralt (map rstr [''ax'', ''test''])), rstr ''is'', REnd]), ''$1es''),
      (rx (rseq [RGroup 1 (ralt [rstr ''alias'', rseq [rnset ''aou'', rstr ''us''], rstr ''tlas'',
        rstr ''gas'', rstr ''ris'']), REnd]), ''$1es''),
      (rx (rseq [RGroup 1 (rseq [rstr ''e'', rset ''mn'', rstr ''u'']), ROpt (rstr ''s''), REnd]), ''$1s''),
      (rx (rseq [RGroup 1 (ralt [rseq [rnset ''l'', rstr ''ias''], rseq [rset ''aeiou'', rstr ''las''],
        rseq [rset ''emjzr'', rstr ''as''], rseq [rset ''iu'', rstr ''am'']]), REnd]), ''$1''),
      (rx (rseq [RGroup 1 (ralt (map rstr [''alumn'', ''syllab'', ''octop'', ''vir'', ''radi'', ''nucle'',
        ''fung'', ''cact'', ''stimul'', ''termin'', ''bacill'', ''foc'', ''uter'', ''loc'', ''strat''])),
        ralt (map rstr [''us'', ''i'']), REnd]), ''$1i''),
      (rx (rseq [RGroup 1 (ralt (map rstr [''alumn'', ''alg'', ''vertebr''])), ralt (map rstr [''a'',
        ''ae'']), REnd]), ''$1ae''),
      (rx (rseq [RGroup 1 (ralt (map rstr [''seraph'', ''cherub''])), ROpt (rstr ''im''), REnd]), ''$1im''),
      (rx (rseq [RGroup 1 (ralt (map rstr [''her'', ''at'', ''gr''])), rstr ''o'', REnd]), ''$1oes''),
      (rx (rseq [RGroup 1 (ralt (map rstr [''agend'', ''addend'', ''millenni'', ''dat'', ''extrem'',
        ''bacteri'', ''desiderat'', ''strat'', ''candelabr'', ''errat'', ''ov'', ''symposi'', ''curricul'',
        ''automat'', ''quor''])), ralt (map rstr [''a'', ''um'']), REnd]), ''$1a''),
      (rx (rseq [RGroup 1 (ralt (map rstr [''apheli'', ''hyperbat'', ''periheli'', ''asyndet'', ''noumen'',
        ''phenomen'', ''criteri'', ''organ'', ''prolegomen'', ''hedr'', ''automat''])),
        ralt (map rstr [''a'', ''on'']), REnd]), ''$1a''),
      (rx (rseq [rstr ''sis'', REnd]), ''ses''),
      (rx (rseq [ralt [rseq [RGroup 1 (ralt (map rstr [''kni'', ''wi'', ''li''])), rstr ''fe''],
        rseq [RGroup 2 (ralt (map rstr [''ar'', ''l'', ''ea'', ''eo'', ''oa'', ''hoo''])), rstr ''f'']],
        REnd]), ''$1$2ves''),
      (rx (rseq [RGroup 1 (ralt [rnset ''aeiouy'', rstr ''qu'']), rstr ''y'', REnd]), ''$1ies''),
      (rx (rseq [RGroup 1 (rseq [rnset ''ch'', rset ''ieo'', rset ''ln'']), rstr ''ey'', REnd]), ''$1ies''),
      (rx (rseq [RGroup 1 (ralt (map rstr [''x'', ''ch'', ''ss'', ''sh'', ''zz''])), REnd]), ''$1es''),
      (rx (rseq [RGroup 1 (ralt (map rstr [''matr'', ''cod'', ''mur'', ''sil'', ''vert'', ''ind'',
        ''append''])), ralt (map rstr [''ix'', ''ex'']), REnd]), ''$1ices''),
      (rx (rseq [RGroup 1 (ralt (map rstr [''m'', ''l''])), ralt (map rstr [''ice'', ''ouse'']), REnd]),
        ''$1ice''),
      (rx (rseq [RGroup 1 (rstr ''pe''), ralt (map rstr [''rson'', ''ople'']), REnd]), ''$1ople''),
      (rx (rseq [RGroup 1 (rstr ''child''), ROpt (rstr ''ren''), REnd]), ''$1ren''),
      (rx (rseq [rstr ''eaux'', REnd]), ''$0''),
      (rx (rseq [rstr ''m'', rset ''ae'', rstr ''n'', REnd]), ''men'')]"

definition singular_table :: "(regex \<times> string) list" where
  "singular_table =
     [(rx (rseq [rstr ''s'', REnd]), ''''),
      (rx (rseq [RGroup 1 (rstr ''ss''), REnd]), ''$1''),
      (rx (rseq [RGroup 1 (ralt [rstr ''wi'', rstr ''kni'', rseq [ralt [rstr ''after'', rstr ''half'',
        rstr ''high'', rstr ''low'', rstr ''mid'', rstr ''non'', rstr ''night'', RClass True is_word_char,
        RBegin], rstr ''li'']]), rstr ''ves'', REnd]), ''$1fe''),
      (rx (rseq [RGroup 1 (ralt [rstr ''ar'', rseq [ralt [rstr ''wo'', rset ''ae''], rstr ''l''],
        rseq [rset ''eo'', rset ''ao'']]), rstr ''ves'', REnd]), ''$1f''),
      (rx (rseq [rstr ''ies'', REnd]), ''y''),
      (rx (rseq [RWordBoundary, RGroup 1 (ralt [rset ''pl'', rstr ''zomb'',
        rseq [ROpt (ralt (map rstr [''neck'', ''cross''])), rstr ''t''], rstr ''coll'', rstr ''faer'',
        rstr ''food'', rstr ''gen'', rstr ''goon'', rstr ''group'', rstr ''lass'', rstr ''talk'',
        rstr ''goal'', rstr ''cut'']), rstr ''ies'', REnd]), ''$1ie''),
      (rx (rseq [RWordBoundary, RGroup 1 (ralt (map rstr [''mon'', ''smil''])), rstr ''ies'', REnd]),
        ''$1ey''),
      (rx (rseq [RGroup 1 (ralt (map rstr [''m'', ''l''])), rstr ''ice'', REnd]), ''$1ouse''),
      (rx (rseq [RGroup 1 (ralt (map rstr [''seraph'', ''cherub''])), rstr ''im'', REnd]), ''$1''),
      (rx (rseq [RGroup 1 (ralt [rstr ''x'', rstr ''ch'', rstr ''ss'', rstr ''sh'', rstr ''zz'',
        rstr ''tto'', rstr ''go'', rstr ''cho'', rstr ''alias'', rseq [rnset ''aou'', rstr ''us''],
        rstr ''tlas'', rstr ''gas'', rseq [ralt (map rstr [''her'', ''at'', ''gr'']), rstr ''o''],
        rstr ''ris'']), ROpt (rstr ''es''), REnd]), ''$1''),
      (rx (rseq [RGroup 1 (ralt (map rstr [''analy'', ''ba'', ''diagno'', ''parenthe'', ''progno'',
        ''synop'', ''the'', ''empha'', ''cri''])), ralt (map rstr [''sis'', ''ses'']), REnd]), ''$1sis''),
      (rx (rseq [RGroup 1 (ralt [rstr ''movie'', rstr ''twelve'', rstr ''abuse'', rseq [rstr ''e'',
        rset ''mn'', rstr ''u'']]), rstr ''s'', REnd]), ''$1''),
      (rx (rseq [RGroup 1 (rstr ''test''), ralt (map rstr [''is'', ''es'']), REnd]), ''$1is''),
      (rx (rseq [RGroup 1 (ralt (map rstr [''alumn'', ''syllab'', ''octop'', ''vir'', ''radi'', ''nucle'',
        ''fung'', ''cact'', ''stimul'', ''termin'', ''bacill'', ''foc'', ''uter'', ''loc'', ''strat''])),
        ralt (map rstr [''us'', ''i'']), REnd]), ''$1us''),
      (rx (rseq [RGroup 1 (ralt (map rstr [''agend'', ''addend'', ''millenni'', ''dat'', ''extrem'',
        ''bacteri'', ''desiderat'', ''strat'', ''candelabr'', ''errat'', ''ov'', ''symposi'', ''curricul'',
        ''quor''])), rstr ''a'', REnd]), ''$1um''),
      (rx (rseq [RGroup 1 (ralt (map rstr [''apheli'', ''hyperbat'', ''periheli'', ''asyndet'', ''noumen'',
        ''phenomen'', ''criteri'', ''organ'', ''prolegomen'', ''hedr'', ''automat''])), rstr ''a'', REnd]),
        ''$1on''),
      (rx (rseq [RGroup 1 (ralt (map rstr [''alumn'', ''alg'', ''vertebr''])), rstr ''ae'', REnd]), ''$1a''),
      (rx (rseq [RGroup 1 (ralt (map rstr [''cod'', ''mur'', ''sil'', ''vert'', ''ind''])), rstr ''ices'',
        REnd]), ''$1ex''),
      (rx (rseq [RGroup 1 (ralt (map rstr [''matr'', ''append''])), rstr ''ices'', REnd]), ''$1ix''),
      (rx (rseq [RGroup 1 (rstr ''pe''), RGroup 2 (ralt (map rstr [''rson'', ''ople''])), REnd]), ''$1rson''),
      (rx (rseq [RGroup 1 (rstr ''child''), rstr ''ren'', REnd]), ''$1''),
      (rx (rseq [RGroup 1 (rstr ''eau''), ROpt (rstr ''x''), REnd]), ''$1''),
      (rx (rseq [rstr ''men'', REnd]), ''man'')]"

definition uncountable_words :: "string list" where
  "uncountable_words =
     [''adulthood'', ''advice'', ''agenda'', ''aid'', ''alcohol'', ''ammo'', ''anime'', ''athletics'',
      ''audio'', ''bison'', ''blood'', ''bream'', ''buffalo'', ''butter'', ''carp'', ''cash'',
      ''chassis'', ''chess'', ''clothing'', ''cod'', ''commerce'', ''cooperation'', ''corps'', ''debris'',
      ''diabetes'', ''digestion'', ''elk'', ''energy'', ''equipment'', ''excretion'', ''expertise'',
        ''flounder'',
      ''fun'', ''gallows'', ''garbage'', ''graffiti'', ''headquarters'', ''health'', ''herpes'',
        ''highjinks'',
      ''homework'', ''housework'', ''information'', ''jeans'', ''justice'', ''kudos'', ''labour'',
        ''literature'',
      ''machinery'', ''mackerel'', ''mail'', ''media'', ''mews'', ''moose'', ''music'', ''manga'',
      ''news'', ''pike'', ''plankton'', ''pliers'', ''pollution'', ''premises'', ''rain'', ''research'',
      ''rice'', ''salmon'', ''scissors'', ''series'', ''sewage'', ''shambles'', ''shrimp'', ''species'',
      ''staff'', ''swine'', ''tennis'', ''traffic'', ''transporation'', ''trout'', ''tuna'', ''wealth'',
      ''welfare'', ''whiting'', ''wildebeest'', ''wildlife'', ''you'']"

definition uncountable_patterns :: "regex list" where
  "uncountable_patterns =
     [rx (rseq [rnset ''aeiou'', rstr ''ese'', REnd]),
      rx (rseq [rstr ''deer'', REnd]),
      rx (rseq [rstr ''fish'', REnd]),
      rx (rseq [rstr ''measles'', REnd]),
      rx (rseq [rstr ''o'', rset ''iu'', rstr ''s'', REnd]),
      rx (rseq [rstr ''pox'', REnd]),
      rx (rseq [rstr ''sheep'', REnd])]"

text \<open>The rules in the order in which they are added; the last that matches is taken.\<close>

definition sanitizeRule :: "string \<Rightarrow> regex" where
  "sanitizeRule word = rx (rseq [RBegin, rstr word, REnd])"

definition pluralRules :: "(regex \<times> string) list" where
  "pluralRules = plural_table @ [(sanitizeRule ''thou'', ''you'')] @ map (\<lambda>r. (r, ''$0'')) uncountable_patterns"

definition singularRules :: "(regex \<times> string) list" where
  "singularRules = singular_table @ map (\<lambda>r. (r, ''$0'')) uncountable_patterns"

definition irregularSingles :: "string obj" where
  "irregularSingles = foldl (\<lambda>acc (s, p). obj_set (to_lower s) (to_lower p) acc) [] irregular_words"

definition irregularPlurals :: "string obj" where
  "irregularPlurals = foldl (\<lambda>acc (s, p). obj_set (to_lower p) (to_lower s) acc) [] irregular_words"

text \<open>
  Of two words with the same plural the later one is kept, so that the objects are lists of the table; evaluation
  uses this.
\<close>

definition replaced_words :: "string list" where
  "replaced_words = [''he'', ''itself'', ''herself'', ''himself'']"

lemma irregular_code [code]:
  "irregularSingles = map (\<lambda>(s, p). (to_lower s, to_lower p)) irregular_words"
  "irregularPlurals =
     map (\<lambda>(s, p). (to_lower p, to_lower s)) (filter (\<lambda>(s, p). \<not> List.member replaced_words s) irregular_words)"
  by code_simp+

section \<open>Words\<close>

text \<open>The word is \<open>None\<close> where it is undefined.\<close>

definition restoreCase :: "string option \<Rightarrow> string \<Rightarrow> string option" where
  "restoreCase word token =
     (case word of
        None \<Rightarrow> None
      | Some w \<Rightarrow>
          if w = token then Some token
          else if w = to_upper w then Some (to_upper token)
          else if w \<noteq> [] \<and> hd w = upper_char (hd w)
          then Some (to_upper (take 1 token) @ to_lower (drop 1 token))
          else Some (to_lower token))"

text \<open>\<open>$\<close> with one or two digits stands for an argument; one that is missing or empty gives nothing.\<close>

definition arg_text :: "string option list \<Rightarrow> nat \<Rightarrow> string" where
  "arg_text args i = (if i < length args then or_else (args ! i) [] else [])"

fun interpolate :: "string \<Rightarrow> string option list \<Rightarrow> string" where
  "interpolate (d # a # b # s) args =
     (if d = CHR ''$'' \<and> is_digit a then
        (if is_digit b then arg_text args (digits_value [a, b]) @ interpolate s args
         else arg_text args (digits_value [a]) @ interpolate (b # s) args)
      else d # interpolate (a # b # s) args)"
| "interpolate [d, a] args =
     (if d = CHR ''$'' \<and> is_digit a then arg_text args (digits_value [a]) else [d, a])"
| "interpolate s args = s"

text \<open>
  The arguments of the replacement: the match, the groups, the position and the word. The second
  argument is the first group where there is one, and as an index it is no number then.
\<close>

definition replace_args :: "regex \<Rightarrow> match_result \<Rightarrow> string \<Rightarrow> string option list" where
  "replace_args r m word =
     Some (m_text m) # map (\<lambda>i. group m (i + 1)) [0..<length (groups (pattern_of r))] @
     [Some (show_nat (length (m_before m))), Some word]"

definition char_before :: "regex \<Rightarrow> match_result \<Rightarrow> string \<Rightarrow> string option" where
  "char_before r m word =
     (if groups (pattern_of r) = [] \<and> m_before m \<noteq> []
      then map_option (\<lambda>c. [c]) (elem_at word (length (m_before m) - 1)) else None)"

definition replace_rule :: "string \<Rightarrow> regex \<times> string \<Rightarrow> string option" where
  "replace_rule word rule =
     (case exec (fst rule) word of
        None \<Rightarrow> Some word
      | Some m \<Rightarrow>
          (let result = interpolate (snd rule) (replace_args (fst rule) m word)
           in map_option (\<lambda>t. m_before m @ t @ m_after m)
                (restoreCase (if m_text m = [] then char_before (fst rule) m word else Some (m_text m)) result)))"

definition sanitizeWord :: "string \<Rightarrow> string \<Rightarrow> (regex \<times> string) list \<Rightarrow> string option" where
  "sanitizeWord token word rules =
     (if token = [] \<or> token \<in> set uncountable_words then Some word
      else (case find (\<lambda>rule. test (fst rule) word) (rev rules) of
              Some rule \<Rightarrow> replace_rule word rule
            | None \<Rightarrow> Some word))"

definition replaceWord :: "string obj \<Rightarrow> string obj \<Rightarrow> (regex \<times> string) list \<Rightarrow> string \<Rightarrow> string option" where
  "replaceWord replaceMap keepMap rules word =
     (let token = to_lower word
      in if has_key keepMap token then restoreCase (Some word) token
         else (case obj_get replaceMap token of
                 Some t \<Rightarrow> restoreCase (Some word) t
               | None \<Rightarrow> sanitizeWord token word rules))"

definition checkWord :: "string obj \<Rightarrow> string obj \<Rightarrow> (regex \<times> string) list \<Rightarrow> string \<Rightarrow> bool option" where
  "checkWord replaceMap keepMap rules word =
     (let token = to_lower word
      in if has_key keepMap token then Some True
         else if has_key replaceMap token then Some False
         else map_option (\<lambda>w. w = token) (sanitizeWord token token rules))"

definition plural :: "string \<Rightarrow> string option" where
  "plural = replaceWord irregularSingles irregularPlurals pluralRules"

definition isPlural :: "string \<Rightarrow> bool option" where
  "isPlural = checkWord irregularSingles irregularPlurals pluralRules"

definition singular :: "string \<Rightarrow> string option" where
  "singular = replaceWord irregularPlurals irregularSingles singularRules"

definition isSingular :: "string \<Rightarrow> bool option" where
  "isSingular = checkWord irregularPlurals irregularSingles singularRules"

definition pluralize :: "string \<Rightarrow> nat \<Rightarrow> bool \<Rightarrow> string option" where
  "pluralize word count inclusive =
     map_option (\<lambda>w. (if inclusive then show_nat count @ '' '' else []) @ w)
       (if count = 1 then singular word else plural word)"

text \<open>The method of the mixin \<open>Pluralizer\<close>.\<close>

definition pluralizer :: "string \<Rightarrow> nat \<Rightarrow> string option" where
  "pluralizer word count = pluralize word count False"

section \<open>The words of the application\<close>

lemma plural_samples:
  "plural ''run'' = Some ''runs''" "plural ''test'' = Some ''tests''"
  "plural ''revision'' = Some ''revisions''" "plural ''label'' = Some ''labels''"
  by code_simp+

lemma singular_samples:
  "singular ''run'' = Some ''run''" "singular ''test'' = Some ''test''"
  "singular ''revision'' = Some ''revision''" "singular ''label'' = Some ''label''"
  by code_simp+

lemma irregular_samples:
  "plural ''Person'' = Some ''People''" "singular ''OXEN'' = Some ''OX''" "plural ''Sheep'' = Some ''Sheep''"
  "singular ''they'' = Some ''she''"
  by code_simp+

text \<open>The words that the application counts.\<close>

definition counted_words :: "string list" where
  "counted_words = [''run'', ''test'', ''revision'', ''label'']"

lemma pluralizer_counted:
  assumes "w \<in> set counted_words"
  shows "pluralizer w n = Some (if n = 1 then w else w @ ''s'')"
  using assms
  by (auto simp: counted_words_def pluralizer_def pluralize_def plural_samples singular_samples)

end
