(* ===== verification/AmendMetadata.thy ===== *)
theory AmendMetadata
  imports PathNav Pluralize
begin

text \<open>
  \<^verbatim>\<open>webapp/components/wpt-amend-metadata.js\<close>: the triage of failing tests. \<open>AmendMetadataMixin\<close> keeps the
  cells of a table that are selected; the dialog \<open>AmendMetadata\<close> takes a link or a label for each
  product and sends them. The handlers of the two tables that use the mixin
  (\<^verbatim>\<open>views/wpt-results.js\<close> and \<^verbatim>\<open>test-file-results-table.js\<close>) are the same but for the guard of
  \<open>handleTriageMode\<close>. A cell of the table (a \<open>td\<close> element) is a number.
\<close>

section \<open>State\<close>

record selection =
  sel_test :: string
  sel_product :: string

text \<open>An entry of the dialog: one product, its tests, and what the user typed.\<close>

record triage_node =
  node_product :: string
  node_url :: string
  node_tests :: "string list"
  node_label :: "string option"
  node_invalid :: bool

record dialog =
  dlg_selected :: "selection list"
  displayedMetadata :: "triage_node list"
  filled :: "nat \<Rightarrow> bool"
  numEmpty :: int
  triageSubmitDisabled :: bool
  dlg_opened :: bool
  prLink :: string
  prText :: string
  errorMessage :: string
  pr_toast :: bool

record triage =
  selectedMetadata :: "selection list"
  selectedCells :: "nat list"
  td_selected :: "nat \<Rightarrow> bool"
  td_triage :: "nat \<Rightarrow> bool"
  triageMode :: bool
  selected_toast :: bool
  dlg :: dialog

definition new_dialog :: dialog where
  "new_dialog =
     \<lparr>dlg_selected = [], displayedMetadata = [], filled = (\<lambda>_. False), numEmpty = 0,
      triageSubmitDisabled = True, dlg_opened = False, prLink = [], prText = [], errorMessage = [],
      pr_toast = False\<rparr>"

definition new_triage :: triage where
  "new_triage =
     \<lparr>selectedMetadata = [], selectedCells = [], td_selected = (\<lambda>_. False), td_triage = (\<lambda>_. False),
      triageMode = False, selected_toast = False, dlg = new_dialog\<rparr>"

section \<open>Selecting cells\<close>

definition handleClear :: "selection list \<Rightarrow> triage \<Rightarrow> triage" where
  "handleClear ms s =
     (if ms = [] \<and> selectedCells s \<noteq> [] then
        s\<lparr>td_selected := foldl (\<lambda>f td. f(td := False)) (td_selected s) (selectedCells s), selectedCells := []\<rparr>
      else s)"

definition clearSelectedCells :: "triage \<Rightarrow> triage" where
  "clearSelectedCells s =
     (if selectedMetadata s = [] then handleClear (selectedMetadata s) s else s)"

text \<open>Assigning \<open>selectedMetadata\<close>: the binding passes it to the dialog, the observer clears cells.\<close>

definition set_selectedMetadata :: "selection list \<Rightarrow> triage \<Rightarrow> triage" where
  "set_selectedMetadata ms s =
     clearSelectedCells (s\<lparr>selectedMetadata := ms, dlg := (dlg s)\<lparr>dlg_selected := ms\<rparr>\<rparr>)"

definition pathChanged :: "triage \<Rightarrow> triage" where
  "pathChanged s = set_selectedMetadata [] s"

definition computeHasSelections :: "selection list \<Rightarrow> bool" where
  "computeHasSelections ms = (length ms > 0)"

definition handleHover :: "nat \<Rightarrow> bool \<Rightarrow> triage \<Rightarrow> triage" where
  "handleHover td canAmend s = s\<lparr>td_triage := (td_triage s)(td := canAmend)\<rparr>"

definition updateSelectedMetadataAndCells :: "nat \<Rightarrow> string \<Rightarrow> string \<Rightarrow> triage \<Rightarrow> triage" where
  "updateSelectedMetadataAndCells td browser tst s =
     (if list_ex (\<lambda>m. sel_test m = tst \<and> sel_product m = browser) (selectedMetadata s) then
        (let s = set_selectedMetadata
               (filter (\<lambda>m. \<not> (sel_test m = tst \<and> sel_product m = browser)) (selectedMetadata s)) s;
             s = s\<lparr>selectedCells := filter (\<lambda>c. c \<noteq> td) (selectedCells s)\<rparr>
         in s\<lparr>td_selected := (td_selected s)(td := False)\<rparr>)
      else
        (let s = set_selectedMetadata
               (selectedMetadata s @ [\<lparr>sel_test = tst, sel_product = browser\<rparr>]) s;
             s = s\<lparr>td_selected := (td_selected s)(td := True)\<rparr>
         in s\<lparr>selectedCells := selectedCells s @ [td]\<rparr>))"

definition handleSelect :: "nat \<Rightarrow> string \<Rightarrow> string \<Rightarrow> triage \<Rightarrow> triage" where
  "handleSelect td browser tst s =
     (let s = updateSelectedMetadataAndCells td browser tst s
      in if selectedMetadata s \<noteq> [] then s\<lparr>selected_toast := True\<rparr> else s)"

text \<open>
  The product of a cell: the column of a whole test has no index, and no product; an index without
  a product throws (\<open>None\<close>).
\<close>

definition triage_product :: "product list \<Rightarrow> nat option \<Rightarrow> string option" where
  "triage_product displayedProducts index =
     (case index of None \<Rightarrow> Some [] | Some i \<Rightarrow> map_option browser_name (elem_at displayedProducts i))"

text \<open>The click on a cell: its test and product, and whether it can be amended.\<close>

definition handleTriageSelect :: "bool \<Rightarrow> nat \<Rightarrow> string \<Rightarrow> string \<Rightarrow> triage \<Rightarrow> triage" where
  "handleTriageSelect canAmend td browser tst s =
     (if \<not> canAmend then s else handleSelect td browser tst s)"

definition handleTriageModeChange :: "bool \<Rightarrow> triage \<Rightarrow> triage" where
  "handleTriageModeChange mode s =
     (if mode then s\<lparr>selected_toast := True\<rparr>
      else
        (let s = (if length (selectedMetadata s) > 0 then set_selectedMetadata [] s else s)
         in s\<lparr>selected_toast := False\<rparr>))"

definition triageToastMsg :: "nat \<Rightarrow> string option" where
  "triageToastMsg arrayLen =
     (if arrayLen > 0
      then map_option (\<lambda>w. show_nat arrayLen @ '' '' @ w @ '' selected'') (pluralizer ''test'' arrayLen)
      else Some ''Select some cells to triage'')"

text \<open>
  Assigning \<open>isTriageMode\<close>: the observer \<open>handleTriageMode\<close>. In \<^verbatim>\<open>wpt-results\<close> it does nothing for a
  test file when the mode begins; \<^verbatim>\<open>test-file-results-table\<close> has no such guard.
\<close>

definition set_isTriageMode :: "bool \<Rightarrow> bool \<Rightarrow> triage \<Rightarrow> triage" where
  "set_isTriageMode guarded mode s =
     (let s = s\<lparr>triageMode := mode\<rparr>
      in if mode \<and> guarded then s else handleTriageModeChange mode s)"

section \<open>The dialog\<close>

text \<open>The tests of each product that is selected, in the order of selection.\<close>

definition browser_test :: "string \<Rightarrow> string \<Rightarrow> string \<Rightarrow> string" where
  "browser_test base path tst =
     (if \<not> computePathIsATestFile base (Some path) \<and> computePathIsASubfolder base (Some tst)
      then tst @ ''/*'' else tst)"

definition browserMap :: "string \<Rightarrow> string \<Rightarrow> selection list \<Rightarrow> string list obj" where
  "browserMap base path ms =
     foldl (\<lambda>bm m.
        obj_set (sel_product m)
          ((case obj_get bm (sel_product m) of None \<Rightarrow> [] | Some ts \<Rightarrow> ts) @ [browser_test base path (sel_test m)]) bm)
       [] ms"

definition new_node :: "string \<times> string list \<Rightarrow> triage_node" where
  "new_node kv =
     \<lparr>node_product = fst kv, node_url = [], node_tests = snd kv,
      node_label = (if fst kv = [] then Some [] else None), node_invalid = False\<rparr>"

definition populateDisplayData :: "string \<Rightarrow> string \<Rightarrow> dialog \<Rightarrow> dialog" where
  "populateDisplayData base path d =
     (let nodes = map new_node (own_order (browserMap base path (dlg_selected d)))
      in d\<lparr>displayedMetadata := nodes, filled := (\<lambda>_. False), numEmpty := int (length nodes)\<rparr>)"

definition open_dialog :: "string \<Rightarrow> string \<Rightarrow> dialog \<Rightarrow> dialog" where
  "open_dialog base path d = (populateDisplayData base path d)\<lparr>dlg_opened := True\<rparr>"

text \<open>
  \<open>protocol url\<close> is \<^verbatim>\<open>new URL(url).protocol\<close>, or \<open>None\<close> where the constructor throws: the parser of the
  browser is a parameter.
\<close>

definition invalid_url :: "(string \<Rightarrow> string option) \<Rightarrow> string \<Rightarrow> bool" where
  "invalid_url protocol url =
     (url \<noteq> [] \<and>
       (case protocol url of None \<Rightarrow> True | Some p \<Rightarrow> p \<noteq> ''http:'' \<and> p \<noteq> ''https:''))"

definition type_in :: "(string \<Rightarrow> string option) \<Rightarrow> bool \<Rightarrow> string \<Rightarrow> triage_node \<Rightarrow> triage_node" where
  "type_in protocol isLabel newValue nd =
     (if isLabel then nd\<lparr>node_label := Some newValue\<rparr>
      else nd\<lparr>node_url := newValue, node_invalid := invalid_url protocol newValue\<rparr>)"

definition input_empty :: "triage_node \<Rightarrow> bool" where
  "input_empty nd = (node_url nd = [] \<and> (node_label nd = Some [] \<or> node_label nd = None))"

text \<open>The index is that of an entry of the repeated template.\<close>

definition handleFieldInput :: "(string \<Rightarrow> string option) \<Rightarrow> nat \<Rightarrow> bool \<Rightarrow> string \<Rightarrow> dialog \<Rightarrow> dialog" where
  "handleFieldInput protocol index isLabel newValue d =
     (case elem_at (displayedMetadata d) index of
        None \<Rightarrow> d
      | Some nd0 \<Rightarrow>
          (let nd = type_in protocol isLabel newValue nd0;
               d = d\<lparr>displayedMetadata := (displayedMetadata d)[index := nd]\<rparr>;
               d = (if input_empty nd then
                      d\<lparr>numEmpty := (if filled d index then numEmpty d + 1 else numEmpty d),
                        filled := (filled d)(index := False)\<rparr>
                    else if \<not> filled d index then
                      d\<lparr>numEmpty := numEmpty d - 1, filled := (filled d)(index := True)\<rparr>
                    else d)
           in d\<lparr>triageSubmitDisabled := numEmpty d > 0 \<or> list_ex node_invalid (displayedMetadata d)\<rparr>))"

section \<open>Submitting\<close>

text \<open>What is sent for a test; the properties of the object that are absent are \<open>None\<close>.\<close>

record triage_entry =
  te_url :: "string option"
  te_product :: "string option"
  te_label :: "string option"
  te_results :: "string list option"

definition file_entries :: "triage_node list \<Rightarrow> triage_entry list" where
  "file_entries nodes =
     map (\<lambda>nd. \<lparr>te_url = Some (node_url nd), te_product = Some (node_product nd), te_label = None,
                te_results = Some (node_tests nd)\<rparr>)
       (filter (\<lambda>nd. \<not> (node_url nd = [] \<or> node_invalid nd)) nodes)"

definition test_entry :: "triage_node \<Rightarrow> triage_entry" where
  "test_entry nd =
     \<lparr>te_url = (if node_url nd \<noteq> [] \<and> \<not> node_invalid nd then Some (node_url nd) else None),
      te_product = (if node_product nd \<noteq> [] then Some (node_product nd) else None),
      te_label = (if truthy (node_label nd) then node_label nd else None),
      te_results = None\<rparr>"

definition add_entry :: "triage_node \<Rightarrow> triage_entry list obj \<Rightarrow> string \<Rightarrow> triage_entry list obj" where
  "add_entry nd links tst =
     obj_set tst ((case obj_get links tst of None \<Rightarrow> [] | Some es \<Rightarrow> es) @ [test_entry nd]) links"

definition add_node :: "triage_entry list obj \<Rightarrow> triage_node \<Rightarrow> triage_entry list obj" where
  "add_node links nd =
     (if (node_url nd = [] \<or> node_invalid nd) \<and> \<not> truthy (node_label nd) then links
      else foldl (add_entry nd) links (node_tests nd))"

definition getTriagedMetadataMap :: "string \<Rightarrow> string \<Rightarrow> triage_node list \<Rightarrow> triage_entry list obj" where
  "getTriagedMetadataMap base path nodes =
     (if computePathIsATestFile base (Some path) then [(path, file_entries nodes)]
      else foldl add_node [] nodes)"

text \<open>The new state and the body of the request, where one is sent.\<close>

definition handleTriage :: "string \<Rightarrow> string \<Rightarrow> dialog \<Rightarrow> dialog \<times> triage_entry list obj option" where
  "handleTriage base path d =
     (if list_ex node_invalid (displayedMetadata d) then (d, None)
      else
        (let links = getTriagedMetadataMap base path (displayedMetadata d)
         in if links = [] then
              (d\<lparr>dlg_selected := [], pr_toast := True,
                 errorMessage :=
                   (if length (displayedMetadata d) > 0 \<and> node_product (displayedMetadata d ! 0) = []
                    then ''Failed to triage: Bug URL and Label fields cannot both be empty.''
                    else ''Failed to triage: Bug URLs cannot be empty.'')\<rparr>, None)
            else (d\<lparr>dlg_selected := []\<rparr>, Some links)))"

text \<open>The answer to the request: a failure of the network, or a status with a text.\<close>

datatype triage_answer = Network_Failure string | Answered bool nat string

definition triage_answered :: "triage_answer \<Rightarrow> dialog \<Rightarrow> dialog \<times> bool" where
  "triage_answered a d =
     (case a of
        Network_Failure msg \<Rightarrow> (d\<lparr>errorMessage := msg, pr_toast := True\<rparr>, False)
      | Answered ok status txt \<Rightarrow>
          (let d = d\<lparr>prText := [], prLink := [], errorMessage := []\<rparr>
           in if \<not> ok \<or> status \<noteq> 200
              then (d\<lparr>errorMessage := show_nat status @ '': '' @ txt, pr_toast := True\<rparr>, False)
              else (d\<lparr>prLink := txt, prText := ''Created PR: '' @ txt, pr_toast := True\<rparr>, True)))"

text \<open>Closing: the event \<open>selected-metadata-changed\<close> makes the table drop its selection too.\<close>

definition close_dialog :: "triage \<Rightarrow> triage" where
  "close_dialog s =
     (let s = s\<lparr>dlg := (dlg s)\<lparr>triageSubmitDisabled := True, dlg_selected := []\<rparr>\<rparr>;
          s = set_selectedMetadata [] s
      in s\<lparr>dlg := (dlg s)\<lparr>filled := (\<lambda>_. False), numEmpty := 0, dlg_opened := False\<rparr>\<rparr>)"

definition triageSubmit :: "string \<Rightarrow> string \<Rightarrow> triage \<Rightarrow> triage \<times> triage_entry list obj option" where
  "triageSubmit base path s =
     (let (d, request) = handleTriage base path (dlg s)
      in (close_dialog (s\<lparr>dlg := d\<rparr>), request))"

definition triageOnEnter :: "string \<Rightarrow> string \<Rightarrow> nat \<Rightarrow> triage \<Rightarrow> triage \<times> triage_entry list obj option" where
  "triageOnEnter base path which s =
     (if which = 13 \<and> \<not> triageSubmitDisabled (dlg s) then triageSubmit base path s else (s, None))"

section \<open>Links for a test\<close>

definition hasSearchURL :: "string \<Rightarrow> bool" where
  "hasSearchURL p =
     (p \<in> set [''blitz'', ''chrome'', ''chromium'', ''deno'', ''edge'', ''firefox'', ''ladybird'', ''node.js'',
               ''safari'', ''servo'', ''wktr'', ''webkitgtk'', ''wpewebkit''])"

definition trailing_star :: regex where
  "trailing_star = \<lparr>ignore_case = False,
     pattern_of = RGroup 1 (RSeq (ROpt (RGroup 2 (rstr ''/*''))) REnd)\<rparr>"

definition getSearchURL :: "string \<Rightarrow> string \<Rightarrow> string \<Rightarrow> string option" where
  "getSearchURL base testName0 p =
     (let testName = (if computePathIsATestFile base (Some testName0)
                      then hd (split_on (CHR ''.'') testName0)
                      else replace_match trailing_star (\<lambda>_. []) testName0);
          quotes = [CHR 0x22] @ testName @ [CHR 0x22]
      in if p = ''blitz'' then Some (''https://github.com/DioxusLabs/blitz/issues?q='' @ quotes)
         else if p = ''chrome'' \<or> p = ''chromium'' \<or> p = ''edge''
         then Some (''https://issues.chromium.org/issues?q='' @ quotes)
         else if p = ''deno'' then Some (''https://github.com/denoland/deno/issues?q='' @ quotes)
         else if p = ''firefox'' then Some (''https://bugzilla.mozilla.org/buglist.cgi?quicksearch='' @ quotes)
         else if p = ''ladybird'' then Some (''https://github.com/LadybirdBrowser/ladybird/issues?q='' @ quotes)
         else if p = ''node.js'' then Some (''https://github.com/nodejs/node/issues?q='' @ quotes)
         else if p = ''safari'' \<or> p = ''wktr'' \<or> p = ''webkitgtk'' \<or> p = ''wpewebkit''
         then Some (''https://bugs.webkit.org/buglist.cgi?quicksearch='' @ quotes)
         else if p = ''servo'' then Some (''https://github.com/servo/servo/issues?q='' @ quotes)
         else None)"

definition hasFileIssueURL :: "string \<Rightarrow> bool" where
  "hasFileIssueURL p = (p = [])"

definition getFileIssueURL :: "string \<Rightarrow> string" where
  "getFileIssueURL testName =
     ''https://github.com/web-platform-tests/wpt-metadata/issues/new?'' @
     form_serialize
       [(''title'', ''[compat2021] '' @ testName @ '' fails due to test issue''),
        (''labels'', ''compat2021-test-issue'')]"

section \<open>The behaviour of a table\<close>

text \<open>
  What can happen to a table and its dialog. \<open>key\<close> gives the test and product of each cell, which
  change with the path; \<open>ok\<close> is what is known of it. Only in triage mode can a cell be amended. The
  overlay can close on its own (\<open>Dismissed\<close>: the escape key, or a click outside).
\<close>

inductive triage_reach :: "((nat \<Rightarrow> selection) \<Rightarrow> bool) \<Rightarrow> (nat \<Rightarrow> selection) \<Rightarrow> triage \<Rightarrow> bool"
  for ok :: "(nat \<Rightarrow> selection) \<Rightarrow> bool" where
  Start: "ok key \<Longrightarrow> triage_reach ok key new_triage"
| Click: "triage_reach ok key s \<Longrightarrow> (canAmend \<longrightarrow> triageMode s) \<Longrightarrow>
    triage_reach ok key (handleTriageSelect canAmend td (sel_product (key td)) (sel_test (key td)) s)"
| Hover: "triage_reach ok key s \<Longrightarrow> triage_reach ok key (handleHover td canAmend s)"
| Mode: "triage_reach ok key s \<Longrightarrow> triage_reach ok key (set_isTriageMode guarded mode s)"
| Path: "triage_reach ok key s \<Longrightarrow> ok key' \<Longrightarrow> triage_reach ok key' (pathChanged s)"
| Open: "triage_reach ok key s \<Longrightarrow> triage_reach ok key (s\<lparr>dlg := open_dialog base path (dlg s)\<rparr>)"
| Input: "triage_reach ok key s \<Longrightarrow> dlg_opened (dlg s) \<Longrightarrow>
    triage_reach ok key (s\<lparr>dlg := handleFieldInput protocol index isLabel v (dlg s)\<rparr>)"
| Submit: "triage_reach ok key s \<Longrightarrow> \<not> triageSubmitDisabled (dlg s) \<Longrightarrow>
    triage_reach ok key (fst (triageSubmit base path s))"
| Enter: "triage_reach ok key s \<Longrightarrow> triage_reach ok key (fst (triageOnEnter base path which s))"
| Answer: "triage_reach ok key s \<Longrightarrow> triage_reach ok key (s\<lparr>dlg := fst (triage_answered a (dlg s))\<rparr>)"
| Close: "triage_reach ok key s \<Longrightarrow> triage_reach ok key (close_dialog s)"
| Dismissed: "triage_reach ok key s \<Longrightarrow> triage_reach ok key (s\<lparr>dlg := (dlg s)\<lparr>dlg_opened := False\<rparr>\<rparr>)"

text \<open>The contract of the selection.\<close>

definition selection_ok :: "(nat \<Rightarrow> selection) \<Rightarrow> triage \<Rightarrow> bool" where
  "selection_ok key s \<longleftrightarrow>
     map key (selectedCells s) = selectedMetadata s \<and> distinct (selectedCells s) \<and>
     {td. td_selected s td} = set (selectedCells s) \<and>
     dlg_selected (dlg s) = selectedMetadata s \<and> (selectedMetadata s = [] \<or> triageMode s)"

definition is_selected :: "triage \<Rightarrow> string \<Rightarrow> string \<Rightarrow> bool" where
  "is_selected s path product \<longleftrightarrow> list_ex (\<lambda>m. sel_test m = path \<and> sel_product m = product) (selectedMetadata s)"

lemma cleared_selection [simp]: "selectedMetadata (set_selectedMetadata ms s) = ms"
  by (simp add: set_selectedMetadata_def clearSelectedCells_def handleClear_def)

lemma selection_after:
  "selectedMetadata (handleTriageSelect True td product path s) =
     (if is_selected s path product
      then filter (\<lambda>m. \<not> (sel_test m = path \<and> sel_product m = product)) (selectedMetadata s)
      else selectedMetadata s @ [\<lparr>sel_test = path, sel_product = product\<rparr>])"
  by (simp add: handleTriageSelect_def handleSelect_def updateSelectedMetadataAndCells_def is_selected_def Let_def)

lemma select_toggles:
  "is_selected (handleTriageSelect True td product path s) path' product' =
     (if path' = path \<and> product' = product then \<not> is_selected s path product else is_selected s path' product')"
  unfolding is_selected_def [of "handleTriageSelect True td product path s"] selection_after
  by (auto simp: is_selected_def list_ex_iff)

lemma foldl_unset: "foldl (\<lambda>f td. f(td := False)) g tds = (\<lambda>td. g td \<and> td \<notin> set tds)"
  by (induction tds arbitrary: g) auto

lemma selection_ok_clear:
  assumes "selection_ok key s"
  shows "selection_ok key' (set_selectedMetadata [] s) \<and> selectedMetadata (set_selectedMetadata [] s) = [] \<and>
    triageMode (set_selectedMetadata [] s) = triageMode s"
  using assms
  by (auto simp: selection_ok_def set_selectedMetadata_def clearSelectedCells_def handleClear_def foldl_unset)

lemma selection_ok_only:
  "selectedMetadata s' = selectedMetadata s \<Longrightarrow> selectedCells s' = selectedCells s \<Longrightarrow>
   td_selected s' = td_selected s \<Longrightarrow> triageMode s' = triageMode s \<Longrightarrow>
   dlg_selected (dlg s') = dlg_selected (dlg s) \<Longrightarrow> selection_ok key s' = selection_ok key s"
  by (simp add: selection_ok_def)

lemma selection_eq_iff: "m = (m' :: selection) \<longleftrightarrow> sel_test m = sel_test m' \<and> sel_product m = sel_product m'"
  by (cases m; cases m') simp

lemma key_filter:
  "inj (key :: nat \<Rightarrow> selection) \<Longrightarrow>
   filter (\<lambda>m. \<not> (sel_test m = sel_test (key td) \<and> sel_product m = sel_product (key td))) (map key cs) =
   map key (filter (\<lambda>c. c \<noteq> td) cs)"
  unfolding selection_eq_iff [symmetric] filter_map comp_def by (simp only: inj_eq)

lemma selection_ok_deselect:
  assumes "inj key" and "selection_ok key s" and "triageMode s"
    and "list_ex (\<lambda>m. sel_test m = sel_test (key td) \<and> sel_product m = sel_product (key td)) (selectedMetadata s)"
  shows "selection_ok key (updateSelectedMetadataAndCells td (sel_product (key td)) (sel_test (key td)) s)"
proof -
  let ?cs = "filter (\<lambda>c. c \<noteq> td) (selectedCells s)"
  let ?ms = "filter (\<lambda>m. \<not> (sel_test m = sel_test (key td) \<and> sel_product m = sel_product (key td))) (selectedMetadata s)"
  have keys: "?ms = map key ?cs"
    using key_filter [OF assms(1), of td "selectedCells s"] assms(2) by (simp add: selection_ok_def)
  define s1 where "s1 = set_selectedMetadata ?ms s"
  have s1: "selectedMetadata s1 = ?ms \<and> dlg_selected (dlg s1) = ?ms \<and> triageMode s1 = triageMode s \<and>
      filter (\<lambda>c. c \<noteq> td) (selectedCells s1) = ?cs \<and> {c. td_selected s1 c} - {td} = set ?cs"
    using assms(2) unfolding s1_def keys
    by (cases "?cs = []")
      (auto simp: selection_ok_def set_selectedMetadata_def clearSelectedCells_def handleClear_def foldl_unset
        filter_empty_conv)
  have "updateSelectedMetadataAndCells td (sel_product (key td)) (sel_test (key td)) s =
      s1\<lparr>selectedCells := filter (\<lambda>c. c \<noteq> td) (selectedCells s1), td_selected := (td_selected s1)(td := False)\<rparr>"
    using assms(4) by (simp add: updateSelectedMetadataAndCells_def Let_def s1_def)
  then show ?thesis
    using s1 keys assms(2,3) by (auto simp: selection_ok_def)
qed

lemma selection_ok_select:
  assumes "selection_ok key s" and "triageMode s"
    and "\<not> list_ex (\<lambda>m. sel_test m = sel_test (key td) \<and> sel_product m = sel_product (key td)) (selectedMetadata s)"
  shows "selection_ok key (updateSelectedMetadataAndCells td (sel_product (key td)) (sel_test (key td)) s)"
proof -
  have "td \<notin> set (selectedCells s)"
    using assms(1,3) unfolding selection_ok_def list_ex_iff by (metis image_eqI list.set_map)
  moreover have "\<lparr>sel_test = sel_test (key td), sel_product = sel_product (key td)\<rparr> = key td" by simp
  ultimately show ?thesis
    using assms
    by (auto simp: selection_ok_def updateSelectedMetadataAndCells_def Let_def set_selectedMetadata_def
      clearSelectedCells_def)
qed

lemma selection_ok_click:
  assumes "inj key" and "selection_ok key s" and "canAmend \<longrightarrow> triageMode s"
  shows "selection_ok key (handleTriageSelect canAmend td (sel_product (key td)) (sel_test (key td)) s)"
proof -
  let ?u = "updateSelectedMetadataAndCells td (sel_product (key td)) (sel_test (key td)) s"
  have "selection_ok key ?u" if canAmend
    using selection_ok_deselect [OF assms(1,2)] selection_ok_select [OF assms(2)] assms(3) that by blast
  moreover have "selection_ok key (?u\<lparr>selected_toast := True\<rparr>) = selection_ok key ?u"
    by (rule selection_ok_only) simp_all
  ultimately show ?thesis using assms(2) by (simp add: handleTriageSelect_def handleSelect_def Let_def)
qed

lemma handleFieldInput_selected [simp]: "dlg_selected (handleFieldInput protocol i l v d) = dlg_selected d"
  by (simp add: handleFieldInput_def Let_def split: option.split)

lemma triage_answered_selected [simp]: "dlg_selected (fst (triage_answered a d)) = dlg_selected d"
  by (simp add: triage_answered_def Let_def split: triage_answer.split)

lemma open_selected [simp]: "dlg_selected (open_dialog base path d) = dlg_selected d"
  by (simp add: open_dialog_def populateDisplayData_def Let_def)

lemma close_irrelevant:
  "set_selectedMetadata [] (s\<lparr>dlg := d\<lparr>dlg_selected := ms\<rparr>\<rparr>) = set_selectedMetadata [] (s\<lparr>dlg := d\<rparr>)"
  by (simp add: set_selectedMetadata_def)

lemma selection_ok_close:
  assumes "selection_ok key s"
  shows "selection_ok key (close_dialog (s\<lparr>dlg := d\<rparr>))"
proof -
  let ?t = "s\<lparr>dlg := d\<lparr>triageSubmitDisabled := True, dlg_selected := selectedMetadata s\<rparr>\<rparr>"
  have "selection_ok key ?t" using assms by (simp add: selection_ok_def)
  from selection_ok_clear [OF this] have "selection_ok key (set_selectedMetadata [] ?t)" by blast
  then have "selection_ok key
      (set_selectedMetadata [] (s\<lparr>dlg := d\<lparr>triageSubmitDisabled := True, dlg_selected := []\<rparr>\<rparr>))"
    by (simp only: close_irrelevant)
  then show ?thesis by (simp add: close_dialog_def Let_def selection_ok_def)
qed

lemma selection_ok_submit: "selection_ok key s \<Longrightarrow> selection_ok key (fst (triageSubmit base path s))"
  by (simp add: triageSubmit_def selection_ok_close split: prod.split)

lemma selection_ok_mode:
  assumes "selection_ok key s"
  shows "selection_ok key (set_isTriageMode guarded mode s)"
proof (cases mode)
  case True
  then show ?thesis
    using assms by (simp add: set_isTriageMode_def handleTriageModeChange_def Let_def selection_ok_def)
next
  case False
  let ?t = "set_selectedMetadata [] (s\<lparr>triageMode := False\<rparr>)"
  have "set_selectedMetadata [] (s\<lparr>triageMode := False\<rparr>) = (set_selectedMetadata [] s)\<lparr>triageMode := False\<rparr>"
    by (simp add: set_selectedMetadata_def clearSelectedCells_def handleClear_def)
  then have "selection_ok key ?t"
    using selection_ok_clear [OF assms, of key] by (simp add: selection_ok_def)
  with False assms show ?thesis
    by (auto simp: set_isTriageMode_def handleTriageModeChange_def Let_def selection_ok_def)
qed

lemma click_mode [simp]: "triageMode (handleTriageSelect canAmend td p tst s) = triageMode s"
  by (simp add: handleTriageSelect_def handleSelect_def updateSelectedMetadataAndCells_def
    set_selectedMetadata_def clearSelectedCells_def handleClear_def Let_def)

lemmas selection_keeps = selection_ok_click selection_ok_mode selection_ok_submit

section \<open>The fields of the dialog\<close>

definition fields_ok :: "dialog \<Rightarrow> bool" where
  "fields_ok d \<longleftrightarrow>
     (\<forall>i < length (displayedMetadata d). filled d i = (\<not> input_empty (displayedMetadata d ! i))) \<and>
     numEmpty d = int (length (filter input_empty (displayedMetadata d)))"

lemma filter_update:
  "i < length xs \<Longrightarrow>
   length (filter P (xs[i := x])) + of_bool (P (xs ! i)) = length (filter P xs) + of_bool (P x)"
proof (induction xs arbitrary: i)
  case (Cons y ys)
  show ?case
  proof (cases i)
    case (Suc j)
    with Cons.prems have "j < length ys" by simp
    from Cons.IH [OF this] Suc show ?thesis by simp
  qed simp
qed simp

lemma filter_update_int:
  "i < length xs \<Longrightarrow>
   int (length (filter P (xs[i := x]))) = int (length (filter P xs)) - of_bool (P (xs ! i)) + of_bool (P x)"
  using filter_update [of i xs P x] by (cases "P x"; cases "P (xs ! i)") simp_all

lemma fields_ok_open: "fields_ok (open_dialog base path d)"
proof -
  have "input_empty (new_node kv)" for kv by (simp add: input_empty_def new_node_def)
  then show ?thesis
    by (simp add: fields_ok_def open_dialog_def populateDisplayData_def Let_def comp_def)
qed

lemma fields_ok_input: "fields_ok d \<Longrightarrow> fields_ok (handleFieldInput protocol i l v d)"
  by (auto simp: fields_ok_def handleFieldInput_def Let_def elem_at_def filter_update_int nth_list_update
      split: option.split if_splits)

definition type_all :: "(string \<Rightarrow> string option) \<Rightarrow> (nat \<times> bool \<times> string) list \<Rightarrow> dialog \<Rightarrow> dialog" where
  "type_all protocol inputs d = foldl (\<lambda>d (i, l, v). handleFieldInput protocol i l v d) d inputs"

lemma type_all_snoc [simp]:
  "type_all protocol (inputs @ [(i, l, v)]) d = handleFieldInput protocol i l v (type_all protocol inputs d)"
  by (simp add: type_all_def)

lemma type_all_Nil [simp]: "type_all protocol [] d = d"
  by (simp add: type_all_def)

lemma fields_ok_typed: "fields_ok d \<Longrightarrow> fields_ok (type_all protocol inputs d)"
  by (induction inputs rule: rev_induct) (auto simp: fields_ok_input)

definition same_entries :: "triage_node list \<Rightarrow> triage_node list \<Rightarrow> bool" where
  "same_entries xs ys \<longleftrightarrow> map node_product xs = map node_product ys \<and> map node_tests xs = map node_tests ys"

lemma same_entries_input:
  "same_entries (displayedMetadata (handleFieldInput protocol i l v d)) (displayedMetadata d)"
  by (auto simp: same_entries_def handleFieldInput_def Let_def elem_at_def map_update type_in_def
      list_update_same_conv split: option.split if_splits intro!: nth_equalityI simp: nth_list_update)

lemma same_entries_typed:
  "same_entries (displayedMetadata (type_all protocol inputs d)) (displayedMetadata d)"
proof (induction inputs rule: rev_induct)
  case (snoc x inputs)
  obtain i l v where "x = (i, l, v)" by (cases x)
  with snoc same_entries_input show ?case by (simp add: same_entries_def)
qed (simp add: same_entries_def)

section \<open>From the selection to the request\<close>

definition tests_of :: "'v list obj \<Rightarrow> string \<Rightarrow> 'v list" where
  "tests_of m k = (case obj_get m k of None \<Rightarrow> [] | Some xs \<Rightarrow> xs)"

lemma tests_of_set [simp]: "tests_of (obj_set k v m) k' = (if k' = k then v else tests_of m k')"
  by (simp add: tests_of_def obj_get_set)

lemma browserMap_has:
  "m \<in> set ms \<Longrightarrow> browser_test base path (sel_test m) \<in> set (tests_of (browserMap base path ms) (sel_product m))"
proof (induction ms rule: rev_induct)
  case (snoc x ms)
  have "browserMap base path (ms @ [x]) =
      obj_set (sel_product x) (tests_of (browserMap base path ms) (sel_product x) @ [browser_test base path (sel_test x)])
        (browserMap base path ms)"
    by (simp add: browserMap_def tests_of_def)
  with snoc show ?case by auto
qed simp

lemma node_of_selection:
  assumes "m \<in> set (dlg_selected d)"
  shows "\<exists>nd \<in> set (displayedMetadata (open_dialog base path d)).
    node_product nd = sel_product m \<and> browser_test base path (sel_test m) \<in> set (node_tests nd)"
proof -
  let ?bm = "browserMap base path (dlg_selected d)"
  have t: "browser_test base path (sel_test m) \<in> set (tests_of ?bm (sel_product m))"
    using assms by (rule browserMap_has)
  then obtain ts where ts: "obj_get ?bm (sel_product m) = Some ts"
    by (cases "obj_get ?bm (sel_product m)") (auto simp: tests_of_def)
  then have "(sel_product m, ts) \<in> set (own_order ?bm)" by (simp add: map_of_SomeD)
  then have "new_node (sel_product m, ts) \<in> set (displayedMetadata (open_dialog base path d))"
    by (simp add: open_dialog_def populateDisplayData_def Let_def)
  moreover have "browser_test base path (sel_test m) \<in> set ts" using t ts by (simp add: tests_of_def)
  ultimately show ?thesis by (intro bexI) (auto simp: new_node_def)
qed

lemma same_entries_node:
  assumes "same_entries xs ys" and "nd \<in> set ys"
  shows "\<exists>nd' \<in> set xs. node_product nd' = node_product nd \<and> node_tests nd' = node_tests nd"
proof -
  obtain i where i: "i < length ys" "ys ! i = nd" using assms(2) by (auto simp: in_set_conv_nth)
  have l: "length xs = length ys" using assms(1) by (metis same_entries_def length_map)
  have "map node_product xs ! i = map node_product ys ! i \<and> map node_tests xs ! i = map node_tests ys ! i"
    using assms(1) by (simp add: same_entries_def)
  with i l show ?thesis by (intro bexI [of _ "xs ! i"]) auto
qed

lemma add_entries_tests:
  "tests_of (foldl (add_entry nd) links ts) t =
     tests_of links t @ replicate (length (filter (\<lambda>u. u = t) ts)) (test_entry nd)"
  by (induction ts arbitrary: links)
    (auto simp: add_entry_def replicate_app_Cons_same simp flip: tests_of_def)

lemma add_nodes_keep: "set (tests_of links t) \<subseteq> set (tests_of (foldl add_node links nodes) t)"
  by (induction nodes arbitrary: links) (force simp: add_node_def add_entries_tests)+

lemma add_nodes_has:
  "nd \<in> set nodes \<Longrightarrow> t \<in> set (node_tests nd) \<Longrightarrow>
   \<not> ((node_url nd = [] \<or> node_invalid nd) \<and> \<not> truthy (node_label nd)) \<Longrightarrow>
   test_entry nd \<in> set (tests_of (foldl add_node links nodes) t)"
proof (induction nodes arbitrary: links)
  case (Cons x nodes)
  show ?case
  proof (cases "nd = x")
    case True
    have "filter (\<lambda>u. u = t) (node_tests nd) \<noteq> []" using Cons.prems(2) by (auto simp: filter_empty_conv)
    with True Cons.prems(3) have "test_entry nd \<in> set (tests_of (add_node links x) t)"
      by (auto simp: add_node_def add_entries_tests)
    then show ?thesis using add_nodes_keep [of "add_node links x" t nodes] by auto
  next
    case False
    with Cons show ?thesis by simp
  qed
qed simp

section \<open>Properties\<close>


text \<open>Cells of three tests of Chrome, and of more.\<close>

definition sample_key :: "nat \<Rightarrow> selection" where
  "sample_key n = \<lparr>sel_test = replicate n (CHR ''t''), sel_product = ''chrome''\<rparr>"


text \<open>
  Two runs of one browser. Where two cells have the same test and product (the runs of one
  browser differ in their version only), a click on the second drops the selection made with the
  first but leaves the first cell marked: there is a state in which a cell is marked as selected
  whose test is not among those to be triaged.
\<close>

theorem same_browser_cells:
  "\<exists>key s. triage_reach (\<lambda>_. True) key s \<and>
     (\<exists>td. td_selected s td \<and> td \<in> set (selectedCells s) \<and> key td \<notin> set (selectedMetadata s))"
proof -
  let ?key = "\<lambda>td::nat. \<lparr>sel_test = (if td = 0 then ''/a'' else ''/b''), sel_product = ''chrome''\<rparr>"
  let ?click = "\<lambda>td s. handleTriageSelect True td (sel_product (?key td)) (sel_test (?key td)) s"
  let ?s0 = "set_isTriageMode True True new_triage"
  let ?s = "?click 2 (?click 1 (?click 0 ?s0))"
  have "triageMode ?s0" by (simp add: set_isTriageMode_def)
  then have "triage_reach (\<lambda>_. True) ?key ?s"
    by (intro triage_reach.Click triage_reach.Mode triage_reach.Start impI TrueI) simp_all
  moreover have "td_selected ?s 1 \<and> 1 \<in> set (selectedCells ?s) \<and> ?key 1 \<notin> set (selectedMetadata ?s)"
    by (simp add: set_isTriageMode_def handleTriageModeChange_def new_triage_def new_dialog_def
      handleTriageSelect_def handleSelect_def updateSelectedMetadataAndCells_def set_selectedMetadata_def
      clearSelectedCells_def Let_def)
  ultimately show ?thesis by blast
qed

text \<open>
  C15: The fields of the dialog. After the dialog opens, and after any inputs, the count of empty
  fields is the number of entries without link and label; and after an input into an entry the
  button is enabled exactly if every entry has a link or a label and no link is invalid.
\<close>

theorem fields_counted:
  assumes "d = type_all protocol inputs (open_dialog base path d0)"
    and "i < length (displayedMetadata d)" and "e = handleFieldInput protocol i isLabel v d"
  shows "numEmpty d = int (length (filter input_empty (displayedMetadata d))) \<and>
    (triageSubmitDisabled e \<longleftrightarrow> (\<exists>nd \<in> set (displayedMetadata e). input_empty nd \<or> node_invalid nd))"
proof -
  have d: "fields_ok d" unfolding assms(1) by (intro fields_ok_typed fields_ok_open)
  then have e: "fields_ok e" unfolding assms(3) by (rule fields_ok_input)
  have "triageSubmitDisabled e = (numEmpty e > 0 \<or> list_ex node_invalid (displayedMetadata e))"
    using assms(2) by (simp add: assms(3) handleFieldInput_def elem_at_def Let_def)
  also have "numEmpty e > 0 \<longleftrightarrow> (\<exists>nd \<in> set (displayedMetadata e). input_empty nd)"
    using e by (simp add: fields_ok_def filter_empty_conv)
  finally have "triageSubmitDisabled e \<longleftrightarrow> (\<exists>nd \<in> set (displayedMetadata e). input_empty nd \<or> node_invalid nd)"
    by (auto simp: list_ex_iff)
  with d show ?thesis by (simp add: fields_ok_def)
qed

definition sample_dialog :: dialog where
  "sample_dialog = new_dialog\<lparr>dlg_selected :=
     [\<lparr>sel_test = ''/css/a.html'', sel_product = ''chrome''\<rparr>, \<lparr>sel_test = ''/css/b'', sel_product = []\<rparr>]\<rparr>"

definition sample_protocol :: "string \<Rightarrow> string option" where
  "sample_protocol url = (if starts_with url ''https://'' then Some ''https:'' else None)"

lemma sample_nodes:
  "displayedMetadata (open_dialog ''/results/css'' ''/css'' sample_dialog) =
     [\<lparr>node_product = ''chrome'', node_url = [], node_tests = [''/css/a.html''], node_label = None, node_invalid = False\<rparr>,
      \<lparr>node_product = [], node_url = [], node_tests = [''/css/b/*''], node_label = Some [], node_invalid = False\<rparr>]"
proof -
  have "browser_test ''/results/css'' ''/css'' ''/css/a.html'' = ''/css/a.html''"
    "browser_test ''/results/css'' ''/css'' ''/css/b'' = ''/css/b/*''"
    by code_simp+
  then have "browserMap ''/results/css'' ''/css'' (dlg_selected sample_dialog) =
      [(''chrome'', [''/css/a.html'']), ([], [''/css/b/*''])]"
    by (simp add: browserMap_def sample_dialog_def)
  moreover have "own_order [(''chrome'', [''/css/a.html'']), ([], [''/css/b/*''])] =
      [(''chrome'', [''/css/a.html'']), ([], [''/css/b/*''])]"
    by code_simp
  ultimately have "own_order (browserMap ''/results/css'' ''/css'' (dlg_selected sample_dialog)) =
      [(''chrome'', [''/css/a.html'']), ([], [''/css/b/*''])]"
    by simp
  then show ?thesis by (simp add: open_dialog_def populateDisplayData_def Let_def new_node_def sample_dialog_def)
qed

lemma sample_enabled:
  "\<not> triageSubmitDisabled (handleFieldInput sample_protocol 0 False ''https://crbug.com/1''
       (type_all sample_protocol [(1, True, ''flaky'')] (open_dialog ''/results/css'' ''/css'' sample_dialog)))"
proof -
  have "numEmpty (open_dialog ''/results/css'' ''/css'' sample_dialog) =
      int (length (displayedMetadata (open_dialog ''/results/css'' ''/css'' sample_dialog)))"
    by (simp add: open_dialog_def populateDisplayData_def Let_def)
  then have "numEmpty (open_dialog ''/results/css'' ''/css'' sample_dialog) = 2"
    by (simp add: sample_nodes)
  moreover have "filled (open_dialog ''/results/css'' ''/css'' sample_dialog) = (\<lambda>_. False)"
    by (simp add: open_dialog_def populateDisplayData_def Let_def)
  ultimately show ?thesis
    by (simp add: type_all_def handleFieldInput_def sample_nodes elem_at_def type_in_def Let_def
      invalid_url_def sample_protocol_def input_empty_def)
qed

theorem fields_counted_witness:
  "\<exists>e. e = handleFieldInput sample_protocol 0 False ''https://crbug.com/1''
         (type_all sample_protocol [(1, True, ''flaky'')] (open_dialog ''/results/css'' ''/css'' sample_dialog)) \<and>
     \<not> triageSubmitDisabled e \<and> (\<forall>nd \<in> set (displayedMetadata e). \<not> input_empty nd \<and> \<not> node_invalid nd)"
proof -
  let ?d = "type_all sample_protocol [(1, True, ''flaky'')] (open_dialog ''/results/css'' ''/css'' sample_dialog)"
  let ?e = "handleFieldInput sample_protocol 0 False ''https://crbug.com/1'' ?d"
  have "0 < length (displayedMetadata ?d)"
    by (simp add: type_all_def handleFieldInput_def sample_nodes elem_at_def Let_def)
  from fields_counted [OF refl this refl, of False "''https://crbug.com/1''"]
  have "triageSubmitDisabled ?e \<longleftrightarrow> (\<exists>nd \<in> set (displayedMetadata ?e). input_empty nd \<or> node_invalid nd)" by blast
  with sample_enabled show ?thesis by blast
qed



end
