(* ===== verification/AmendDialog.thy ===== *)
theory AmendDialog
  imports AmendMetadata JsHtml
begin

text \<open>
  The template of \<^verbatim>\<open>webapp/components/wpt-amend-metadata.js\<close>: the dialog in which bugs and labels are typed, as a
  function of its state, and what its fields and buttons do.
\<close>

section \<open>The rendered dialog\<close>

text \<open>A field is that of a bug or of a label, in the entry with an index.\<close>

datatype dialog_click = FieldInput nat bool | DismissDialog | SubmitTriage

type_synonym dialog_html = "(unit, dialog_click) html"

definition url_field :: "nat \<Rightarrow> triage_node \<Rightarrow> dialog_html" where
  "url_field i nd =
     Elem ''paper-input'' ([(''label'', ''Bug URL''), (''value'', node_url nd)] @ flag_attr ''invalid'' (node_invalid nd))
       [(''input'', FieldInput i False)] []"

definition label_field :: "nat \<Rightarrow> triage_node \<Rightarrow> dialog_html" where
  "label_field i nd =
     Elem ''paper-input'' [(''label'', ''Label''), (''value'', case node_label nd of None \<Rightarrow> [] | Some t \<Rightarrow> t)]
       [(''input'', FieldInput i True)] []"

definition entry_html :: "nat \<Rightarrow> triage_node \<Rightarrow> dialog_html" where
  "entry_html i nd =
     Elem ''div'' [(''class'', ''metadata-entry'')] []
       ([Elem ''img'' ((''class'', ''browser'') #
            (case displayMetadataLogo (node_product nd) of None \<Rightarrow> [] | Some src \<Rightarrow> [(''src'', src)])) [] [],
         Txt '':'', url_field i nd] @ (if node_product nd = [] then [label_field i nd] else []))"

definition test_item :: "string \<Rightarrow> triage_node \<Rightarrow> string \<Rightarrow> dialog_html" where
  "test_item base nd tst =
     Elem ''li'' [] []
       ([Elem ''div'' [(''class'', ''list'')] [] [Txt tst]] @
        (if hasSearchURL (node_product nd)
         then [Elem ''a'' (case getSearchURL base tst (node_product nd) of None \<Rightarrow> [] | Some u \<Rightarrow> [(''href'', u)]) []
                 [Txt ''[Search for bug]'']] else []) @
        (if hasFileIssueURL (node_product nd)
         then [Elem ''a'' [(''href'', getFileIssueURL tst)] [] [Txt ''[File test-level issue]'']] else []))"

definition dialog_entries :: "string \<Rightarrow> dialog \<Rightarrow> dialog_html list" where
  "dialog_entries base d =
     concat (map (\<lambda>(i, nd). entry_html i nd # map (test_item base nd) (node_tests nd))
       (zip [0..<length (displayedMetadata d)] (displayedMetadata d)))"

definition dialog_html :: "string \<Rightarrow> dialog \<Rightarrow> dialog_html list" where
  "dialog_html base d =
     [Elem ''paper-dialog'' [(''id'', ''dialog'')] []
        [Elem ''h3'' [] [] [Txt ''Triage Failing Tests''],
         Elem ''paper-dialog-scrollable'' [] [] (dialog_entries base d),
         Elem ''div'' [(''class'', ''buttons'')] []
           [Elem ''paper-button'' [] [(''click'', DismissDialog)] [Txt ''Dismiss''],
            Elem ''paper-button'' (flag_attr ''disabled'' (triageSubmitDisabled d)) [(''click'', SubmitTriage)] [Txt ''Triage'']]],
      Elem ''paper-toast'' [(''id'', ''show-pr'')] []
        [Elem ''span'' [] [] [Txt (errorMessage d)],
         Elem ''a'' [(''class'', ''link''), (''href'', prLink d)] [] [Txt (prText d)]]]"

text \<open>An input into a field, with its new value.\<close>

definition dialog_input :: "(string \<Rightarrow> string option) \<Rightarrow> dialog_click \<Rightarrow> string \<Rightarrow> dialog \<Rightarrow> dialog" where
  "dialog_input protocol field v d =
     (case field of FieldInput i isLabel \<Rightarrow> handleFieldInput protocol i isLabel v d | _ \<Rightarrow> d)"

section \<open>What is typed is shown\<close>

fun field_of :: "dialog_html \<Rightarrow> (dialog_click \<times> string) list" where
  "field_of (Elem tag as es hs) =
     (if tag = ''paper-input'' then [(the (map_of es ''input''), the (map_of as ''value''))] else concat (map field_of hs))"
| "field_of _ = []"

text \<open>The fields of the dialog with their values, in their order.\<close>

definition dialog_fields :: "string \<Rightarrow> dialog \<Rightarrow> (dialog_click \<times> string) list" where
  "dialog_fields base d = concat (map field_of (dialog_html base d))"

definition node_fields :: "nat \<Rightarrow> triage_node \<Rightarrow> (dialog_click \<times> string) list" where
  "node_fields i nd =
     (FieldInput i False, node_url nd) #
     (if node_product nd = [] then [(FieldInput i True, case node_label nd of None \<Rightarrow> [] | Some t \<Rightarrow> t)] else [])"

lemma entry_fields: "field_of (entry_html i nd) = node_fields i nd"
  by (simp add: entry_html_def url_field_def label_field_def node_fields_def)

lemma item_fields [simp]: "field_of (test_item base nd tst) = []"
  by (simp add: test_item_def)

lemma dialog_fields_nodes:
  "dialog_fields base d =
     concat (map (\<lambda>(i, nd). node_fields i nd) (zip [0..<length (displayedMetadata d)] (displayedMetadata d)))"
proof -
  have items: "concat (map field_of (map (test_item base nd) ts)) = []" for nd ts by (induction ts) simp_all
  have "concat (map field_of (concat (map (\<lambda>(i, nd). entry_html i nd # map (test_item base nd) (node_tests nd)) xs))) =
      concat (map (\<lambda>(i, nd). node_fields i nd) xs)" for xs
    using items by (induction xs) (auto simp: entry_fields split: prod.split)
  then show ?thesis by (simp add: dialog_fields_def dialog_html_def dialog_entries_def)
qed

lemma node_fields_other:
  "j \<noteq> i \<Longrightarrow> map (\<lambda>(f, w). if f = FieldInput i b then (f, v) else (f, w)) (node_fields j nd) = node_fields j nd"
  by (simp add: node_fields_def)

lemma node_fields_typed:
  "map (\<lambda>(f, w). if f = FieldInput i isLabel then (f, v) else (f, w)) (node_fields i nd) =
   node_fields i (type_in protocol isLabel v nd)"
  by (auto simp: node_fields_def type_in_def)

text \<open>After an input into a field the field shows the new value, and all other fields show what they did.\<close>

lemma typed_shown:
  assumes "i < length (displayedMetadata d)"
  shows "dialog_fields base (dialog_input protocol (FieldInput i isLabel) v d) =
    map (\<lambda>(f, w). if f = FieldInput i isLabel then (f, v) else (f, w)) (dialog_fields base d)"
proof -
  let ?ns = "displayedMetadata d" and ?set = "\<lambda>(f, w). if f = FieldInput i isLabel then (f, v) else (f, w)"
  let ?new = "?ns[i := type_in protocol isLabel v (?ns ! i)]"
  have new: "displayedMetadata (dialog_input protocol (FieldInput i isLabel) v d) = ?new"
    using assms by (simp add: dialog_input_def handleFieldInput_def elem_at_def Let_def)
  have "map (\<lambda>(j, nd). node_fields j nd) (zip [0..<length ?ns] ?new) =
      map (\<lambda>(j, nd). map ?set (node_fields j nd)) (zip [0..<length ?ns] ?ns)"
  proof (rule nth_equalityI)
    fix j assume "j < length (map (\<lambda>(j, nd). node_fields j nd) (zip [0..<length ?ns] ?new))"
    then have j: "j < length ?ns" by simp
    have "node_fields j (?new ! j) = map ?set (node_fields j (?ns ! j))"
      using j assms node_fields_other [of j i isLabel v] node_fields_typed [of i isLabel v _ protocol]
      by (cases "j = i") simp_all
    with j show "map (\<lambda>(j, nd). node_fields j nd) (zip [0..<length ?ns] ?new) ! j =
        map (\<lambda>(j, nd). map ?set (node_fields j nd)) (zip [0..<length ?ns] ?ns) ! j" by simp
  qed simp
  then show ?thesis
    by (simp add: dialog_fields_nodes new map_concat comp_def case_prod_beta')
qed

end
