(* ===== verification/JsDate.thy ===== *)
theory JsDate
  imports JsPrelude
begin

text \<open>
  Dates: time values in milliseconds since 1970, the reading of ISO texts, and the calendar. The
  offset of the local time zone at an instant, in milliseconds, is an argument.
\<close>

definition ms_per_day :: int where
  "ms_per_day = 86400000"

text \<open>
  The number of a day of the proleptic Gregorian calendar, counted from 1970-01-01, and back. The
  year is counted from March, so that the leap day is its last one.
\<close>

definition day_from_civil :: "int \<Rightarrow> int \<Rightarrow> int \<Rightarrow> int" where
  "day_from_civil y0 m d =
     (let y = (if m \<le> 2 then y0 - 1 else y0);
          era = y div 400;
          yoe = y mod 400;
          doy = (153 * ((m + 9) mod 12) + 2) div 5 + d - 1;
          doe = yoe * 365 + yoe div 4 - yoe div 100 + doy
      in era * 146097 + doe - 719468)"

definition civil_from_day :: "int \<Rightarrow> int \<times> int \<times> int" where
  "civil_from_day day =
     (let z = day + 719468;
          era = z div 146097;
          doe = z mod 146097;
          yoe = (doe - doe div 1460 + doe div 36524 - doe div 146096) div 365;
          doy = doe - (365 * yoe + yoe div 4 - yoe div 100);
          mp = (5 * doy + 2) div 153;
          d = doy - (153 * mp + 2) div 5 + 1;
          m = (if mp < 10 then mp + 3 else mp - 9)
      in (yoe + era * 400 + (if m \<le> 2 then 1 else 0), m, d))"

type_synonym zone = "int \<Rightarrow> int"

definition local_date :: "zone \<Rightarrow> int \<Rightarrow> int \<times> int \<times> int" where
  "local_date tz t = civil_from_day ((t + tz t) div ms_per_day)"

definition get_date :: "zone \<Rightarrow> int \<Rightarrow> int" where
  "get_date tz t = snd (snd (local_date tz t))"

definition get_full_year :: "zone \<Rightarrow> int \<Rightarrow> int" where
  "get_full_year tz t = fst (local_date tz t)"

text \<open>The digits from \<open>i\<close> on, \<open>n\<close> of them, as a number.\<close>

definition digits_at :: "nat \<Rightarrow> nat \<Rightarrow> string \<Rightarrow> int option" where
  "digits_at i n s =
     (let w = take n (drop i s)
      in if length w = n \<and> list_all is_digit w then Some (int (digits_value w)) else None)"

definition fraction_ms :: "string \<Rightarrow> int option" where
  "fraction_ms f =
     (if f = ''Z'' then Some 0
      else if starts_with f ''.'' \<and> last f = CHR ''Z'' \<and> length f > 2 \<and> list_all is_digit (butlast (drop 1 f))
      then Some (int (digits_value (take 3 (butlast (drop 1 f) @ ''00''))))
      else None)"

text \<open>
  \<^verbatim>\<open>new Date(text).getTime()\<close> for the format of the server, \<^verbatim>\<open>2020-01-31T12:34:56.789Z\<close> (the fraction may
  be missing or have other lengths); \<open>None\<close> is \<open>NaN\<close>, an invalid date.
\<close>

definition parse_date :: "string \<Rightarrow> int option" where
  "parse_date s =
     (case (digits_at 0 4 s, digits_at 5 2 s, digits_at 8 2 s, digits_at 11 2 s, digits_at 14 2 s,
            digits_at 17 2 s, fraction_ms (drop 19 s)) of
        (Some y, Some mo, Some d, Some h, Some mi, Some sec, Some ms) \<Rightarrow>
          if s ! 4 = CHR ''-'' \<and> s ! 7 = CHR ''-'' \<and> s ! 10 = CHR ''T'' \<and> s ! 13 = CHR '':'' \<and> s ! 16 = CHR '':'' \<and>
             1 \<le> mo \<and> mo \<le> 12 \<and> 1 \<le> d \<and> d \<le> 31 \<and> h < 24 \<and> mi < 60 \<and> sec < 60
          then Some (day_from_civil y mo d * ms_per_day + ((h * 60 + mi) * 60 + sec) * 1000 + ms)
          else None
      | _ \<Rightarrow> None)"

lemma parse_date_samples:
  "parse_date ''1970-01-01T00:00:00Z'' = Some 0"
  "parse_date ''2020-02-29T12:34:56.7Z'' = Some 1582979696700"
  "parse_date ''yesterday'' = None"
  "civil_from_day (day_from_civil 2000 2 29) = (2000, 2, 29)"
  by code_simp+

end
