(* ===== verification/JsSearchParams.thy ===== *)
theory JsSearchParams
  imports JsUrl
begin

text \<open>
  The methods of \<^verbatim>\<open>URLSearchParams\<close>, on the list of its pairs. \<open>search_of\<close> is the search of a URL whose
  parameters were changed.
\<close>

type_synonym search_params = "(string \<times> string) list"

definition params_get :: "string \<Rightarrow> search_params \<Rightarrow> string option" where
  "params_get k ps = map_of ps k"

definition params_get_all :: "string \<Rightarrow> search_params \<Rightarrow> string list" where
  "params_get_all k ps = map snd (filter (\<lambda>kv. fst kv = k) ps)"

definition params_has :: "string \<Rightarrow> search_params \<Rightarrow> bool" where
  "params_has k ps = list_ex (\<lambda>kv. fst kv = k) ps"

definition params_append :: "string \<Rightarrow> string \<Rightarrow> search_params \<Rightarrow> search_params" where
  "params_append k v ps = ps @ [(k, v)]"

definition params_delete :: "string \<Rightarrow> search_params \<Rightarrow> search_params" where
  "params_delete k ps = filter (\<lambda>kv. fst kv \<noteq> k) ps"

text \<open>The first pair of the name gets the value, further ones go; or a pair is appended.\<close>

fun params_set :: "string \<Rightarrow> string \<Rightarrow> search_params \<Rightarrow> search_params" where
  "params_set k v [] = [(k, v)]"
| "params_set k v (p # ps) = (if fst p = k then (k, v) # params_delete k ps else p # params_set k v ps)"

definition search_of :: "search_params \<Rightarrow> string" where
  "search_of ps = (if ps = [] then [] else ''?'' @ form_serialize ps)"

lemma params_get_set [simp]: "params_get k (params_set k v ps) = Some v"
  by (induction ps) (auto simp: params_get_def)

lemma params_get_all_delete [simp]:
  "params_get_all k' (params_delete k ps) = (if k' = k then [] else params_get_all k' ps)"
  by (auto simp: params_get_all_def params_delete_def intro!: arg_cong [of _ _ "map snd"] filter_cong)

lemma params_get_all_Cons [simp]:
  "params_get_all k (p # ps) = (if fst p = k then snd p # params_get_all k ps else params_get_all k ps)"
  by (simp add: params_get_all_def)

lemma params_get_all_Nil [simp]: "params_get_all k [] = []"
  by (simp add: params_get_all_def)

lemma params_get_all_set [simp]:
  "params_get_all k' (params_set k v ps) = (if k' = k then [v] else params_get_all k' ps)"
  by (induction ps) auto

lemma params_get_all_append [simp]:
  "params_get_all k' (params_append k v ps) = params_get_all k' ps @ (if k' = k then [v] else [])"
  by (simp add: params_get_all_def params_append_def)

lemma params_get_first: "params_get k ps = (case params_get_all k ps of [] \<Rightarrow> None | v # _ \<Rightarrow> Some v)"
  by (induction ps) (auto simp: params_get_def params_get_all_def)

text \<open>The pairs are read again from the search of the URL.\<close>

lemma form_decode_encode [simp]: "form_decode (form_encode s) = s"
proof -
  let ?keep = "\<lambda>c. form_keep c \<or> c = CHR '' ''"
  let ?f = "\<lambda>c. if c = CHR ''+'' then CHR '' '' else c"
  have one: "map ?f (encode_char form_keep c) = encode_char form_keep c" for c
    using form_text_chars [of "CHR ''+''" "[c]"] by (intro map_idI) (auto simp: form_text_def percent_encode_def)
  have "map ?f (form_encode s) = percent_encode ?keep s"
    by (induction s) (auto simp: form_encode_def percent_encode_def one, auto simp: encode_char_def)
  moreover have "\<not> ?keep (CHR ''%'')" using form_keep_facts by simp
  ultimately show ?thesis
    using percent_encode_decode(1) [of ?keep] by (simp add: form_decode_def)
qed

interpretation form_pairs: separated_codec "\<lambda>_. True" form_pair form_unpair id "CHR ''&''"
proof
  fix kv :: "string \<times> string"
  show "form_unpair (form_pair kv) = id kv"
    using form_encode_chars [of "CHR ''=''" "fst kv"] by (simp add: form_unpair_def form_pair_def)
  show "CHR ''&'' \<notin> set (form_pair kv)"
    using form_encode_chars [of "CHR ''&''"] by (simp add: form_pair_def)
qed

text \<open>A query is the list of its parts.\<close>

lemma form_parse_join:
  assumes "ws \<noteq> []" and "\<forall>w \<in> set ws. w \<noteq> [] \<and> CHR ''&'' \<notin> set w"
  shows "form_parse (''?'' @ join ''&'' ws) = map form_unpair ws"
  using assms split_on_join [of ws "CHR ''&''"] by (simp add: form_parse_def filter_id_conv)

lemma form_decode_keep: "\<forall>c \<in> set s. form_keep c \<Longrightarrow> form_decode s = s"
proof -
  assume "\<forall>c \<in> set s. form_keep c"
  then have "form_text s = s" by (induction s) (auto simp: form_text_def percent_encode_def encode_char_def)
  then show ?thesis by (metis form_decode_text)
qed

text \<open>A query of plain parts: names, with or without a plain value.\<close>

definition plain_text :: "string \<Rightarrow> bool" where
  "plain_text s \<longleftrightarrow> list_all form_keep s"

definition query_part :: "string \<times> string option \<Rightarrow> string" where
  "query_part kv = (case snd kv of None \<Rightarrow> fst kv | Some v \<Rightarrow> fst kv @ ''='' @ v)"

definition part_pair :: "string \<times> string option \<Rightarrow> string \<times> string" where
  "part_pair kv = (fst kv, case snd kv of None \<Rightarrow> [] | Some v \<Rightarrow> v)"

definition part_ok :: "string \<times> string option \<Rightarrow> bool" where
  "part_ok kv \<longleftrightarrow> fst kv \<noteq> [] \<and> plain_text (fst kv) \<and> (case snd kv of None \<Rightarrow> True | Some v \<Rightarrow> plain_text v)"

lemma plain_text_chars:
  "plain_text s \<Longrightarrow> c \<in> {CHR ''&'', CHR ''='', CHR ''+'', CHR ''%'', CHR ''?''} \<Longrightarrow> c \<notin> set s"
  using form_keep_facts by (auto simp: plain_text_def list_all_iff)

lemma form_unpair_part: "part_ok kv \<Longrightarrow> form_unpair (query_part kv) = part_pair kv"
  using plain_text_chars [of "fst kv" "CHR ''=''"] form_decode_keep [of "fst kv"] form_decode_keep [of "the (snd kv)"]
  by (auto simp: part_ok_def form_unpair_def query_part_def part_pair_def plain_text_def list_all_iff split: option.splits)

lemma form_parse_parts:
  assumes "list_all part_ok kvs"
  shows "form_parse (if kvs = [] then [] else ''?'' @ join ''&'' (map query_part kvs)) = map part_pair kvs"
proof (cases "kvs = []")
  case False
  have "\<forall>w \<in> set (map query_part kvs). w \<noteq> [] \<and> CHR ''&'' \<notin> set w"
    using assms plain_text_chars [of _ "CHR ''&''"]
    by (auto simp: list_all_iff part_ok_def query_part_def split: option.splits)
  then show ?thesis
    using False assms form_unpair_part by (simp add: form_parse_join list_all_iff del: append.simps)
qed (simp add: form_parse_def)

lemma form_parse_search [simp]: "form_parse (search_of ps) = ps"
proof (cases "ps = []")
  case False
  have "split_on (CHR ''&'') (form_serialize ps) = map form_pair ps"
    unfolding form_serialize_def using False by (intro form_pairs.split_joined) simp_all
  moreover have "filter (\<lambda>p. p \<noteq> []) (map form_pair ps) = map form_pair ps"
    by (simp add: form_pair_def filter_id_conv)
  moreover have "map form_unpair (map form_pair ps) = ps" using form_pairs.dec_enc by (simp add: map_idI)
  ultimately show ?thesis using False by (simp add: search_of_def form_parse_def Let_def)
qed (simp add: search_of_def form_parse_def)

end
