(* ===== verification/WptRuns.thy ===== *)
theory WptRuns
  imports TestRunsLoader QueryParams Pluralize JsSort JsDate JsSearchParams
begin

text \<open>
  \<^verbatim>\<open>webapp/components/wpt-runs.js\<close>: the table of test runs, grouped by revision and browser, and the
  selection of runs; and the message of \<^verbatim>\<open>test-runs-query.js\<close> that says which runs are shown.
  The time zone is a parameter.
\<close>

section \<open>The message above the runs\<close>

definition month_names :: "string list" where
  "month_names = [''Jan'', ''Feb'', ''Mar'', ''Apr'', ''May'', ''Jun'', ''Jul'', ''Aug'', ''Sep'', ''Oct'', ''Nov'', ''Dec'']"

text \<open>A date in the locale \<open>en-US\<close> with a short month and the day.\<close>

definition shortDate :: "zone \<Rightarrow> string \<Rightarrow> string" where
  "shortDate tz date =
     (case parse_date date of
        None \<Rightarrow> ''Invalid Date''
      | Some t \<Rightarrow> (case local_date tz t of (y, m, d) \<Rightarrow> month_names ! nat (m - 1) @ '' '' @ show_int d))"

definition days_between :: "int option \<Rightarrow> int option \<Rightarrow> string" where
  "days_between mx from =
     (case (mx, from) of (Some a, Some b) \<Rightarrow> show_int ((a - b) div ms_per_day) | _ \<Rightarrow> ''NaN'')"

definition show_param :: "param \<Rightarrow> string" where
  "show_param p =
     (case p of PStr s \<Rightarrow> s | PNum n \<Rightarrow> show_nat n | PBool b \<Rightarrow> (if b then ''true'' else ''false'') | PList ss \<Rightarrow> join '','' ss)"

definition short_sha :: "string \<Rightarrow> string" where
  "short_sha s = (if \<not> computeIsLatest (Sha s) \<and> length s > 7 then take 7 s else s)"

definition nonempty_list :: "'a list option \<Rightarrow> bool" where
  "nonempty_list xs = (case xs of Some (_ # _) \<Rightarrow> True | _ \<Rightarrow> False)"

text \<open>The message, in the order of the parameters of the function. \<open>None\<close>: an exception.\<close>

definition computeResultsRangeMessage ::
  "zone \<Rightarrow> int \<Rightarrow> string list option \<Rightarrow> string list option \<Rightarrow> string option \<Rightarrow> string option \<Rightarrow> param option \<Rightarrow>
   string list option \<Rightarrow> bool \<Rightarrow> string list option \<Rightarrow> string option" where
  "computeResultsRangeMessage tz now shs specs from to mx ls is_master ids =
     (if nonempty_list ids
      then Some (''Showing '' @ show_nat (length (the ids)) @ '' run(s) based on query parameters'')
      else
        (let latest = (if shas_latest shs then ''the latest '' else []);
             branch = (if is_master then ''master '' else []);
             msg = ''Showing '' @ latest @ branch @ ''test runs'';
             ranged =
               (if nonempty_list shs then
                  map_option (\<lambda>w. msg @ '' from '' @ w @ '' '' @ join '', '' (map short_sha (the shs)))
                    (pluralizer ''revision'' (length (the shs)))
                else if from \<noteq> None then
                  Some (msg @ (if to \<noteq> None
                    then '' from '' @ shortDate tz (the from) @ '' to '' @ shortDate tz (the to)
                    else '' from the last '' @ days_between (Some now) (parse_date (the from)) @ '' days''))
                else if truthy_param mx then
                  Some (''Showing '' @ show_param (the mx) @ '' '' @ branch @ ''test runs per product'')
                else if computeIsDefaultProducts specs then Some (msg @ '' for the default product set'')
                else Some (msg @ '' for '' @ join '', '' (the specs)))
         in if nonempty_list ls then
              (case (ranged, pluralizer ''label'' (length (the ls))) of
                 (Some m, Some w) \<Rightarrow>
                   Some (m @ '' with '' @ w @ '' '' @ join '', '' (map (\<lambda>l. [CHR 0x27] @ l @ [CHR 0x27]) (the ls)))
               | _ \<Rightarrow> None)
            else ranged))"

text \<open>
  The computed property: its declaration lists \<open>to\<close> before \<open>from\<close>, so the function gets the two
  dates in the other order.
\<close>

definition resultsRangeMessage :: "zone \<Rightarrow> int \<Rightarrow> ui_query \<Rightarrow> string option" where
  "resultsRangeMessage tz now q =
     computeResultsRangeMessage tz now (shas q) (productSpecs q) (to_date q) (from_date q) (maxCount q)
       (label_list q) (master q) (runIds q)"

section \<open>Grouping the runs\<close>

type_synonym runs_by_browser = "test_run list obj"

text \<open>A row of the table: a revision with its runs; \<open>None\<close> is a property that is not set.\<close>

record sha_row =
  row_sha :: string
  row_runs :: runs_by_browser
  row_first :: int
  row_commit :: "string option"
  row_date :: "int option"
  day_boundary :: bool
  year_boundary :: bool

definition sha_key :: "test_run \<Rightarrow> string" where
  "sha_key r = (case revision r of None \<Rightarrow> ''undefined'' | Some s \<Rightarrow> s)"

definition runs_at :: "runs_by_browser \<Rightarrow> string \<Rightarrow> test_run list" where
  "runs_at m b = (case obj_get m b of None \<Rightarrow> [] | Some rs \<Rightarrow> rs)"

definition add_run :: "runs_by_browser obj \<Rightarrow> test_run \<Rightarrow> runs_by_browser obj" where
  "add_run accum r =
     (let row = (case obj_get accum (sha_key r) of None \<Rightarrow> [] | Some m \<Rightarrow> m)
      in obj_set (sha_key r) (obj_set (browser_name r) (runs_at row (browser_name r) @ [r]) row) accum)"

text \<open>The time of the first of the runs, at most \<open>now\<close>; a date that is invalid is passed over.\<close>

definition earlier :: "int \<Rightarrow> test_run \<Rightarrow> int" where
  "earlier oldest r =
     (case parse_date (time_start r) of Some t \<Rightarrow> if t < oldest then t else oldest | None \<Rightarrow> oldest)"

definition firstRunDate :: "int \<Rightarrow> runs_by_browser \<Rightarrow> int" where
  "firstRunDate now runs = foldl (\<lambda>oldest rs. foldl earlier oldest rs) now (map snd (own_order runs))"

definition commit_label :: "test_run \<Rightarrow> string option" where
  "commit_label r =
     (case labels r of
        None \<Rightarrow> None
      | Some ls \<Rightarrow> (case find (\<lambda>l. l \<in> set CommitTypes) ls of Some l \<Rightarrow> if l = [] then None else Some l | None \<Rightarrow> None))"

fun first_some :: "('a \<Rightarrow> 'b option) \<Rightarrow> 'a list \<Rightarrow> 'b option" where
  "first_some f [] = None"
| "first_some f (x # xs) = (case f x of Some y \<Rightarrow> Some y | None \<Rightarrow> first_some f xs)"

definition commitType :: "runs_by_browser \<Rightarrow> string option" where
  "commitType runsByBrowser = first_some commit_label (concat (map snd (own_order runsByBrowser)))"

definition new_row :: "int \<Rightarrow> string \<times> runs_by_browser \<Rightarrow> sha_row" where
  "new_row now e =
     \<lparr>row_sha = fst e, row_runs = snd e, row_first = firstRunDate now (snd e), row_commit = commitType (snd e),
      row_date = None, day_boundary = False, year_boundary = False\<rparr>"

text \<open>Marking the first row of each day and year, from the latest date there is.\<close>

fun mark_days :: "zone \<Rightarrow> int \<Rightarrow> sha_row list \<Rightarrow> sha_row list" where
  "mark_days tz previous [] = []"
| "mark_days tz previous (r # rs) =
     r\<lparr>row_date := Some (row_first r),
       day_boundary := get_date tz previous \<noteq> get_date tz (row_first r),
       year_boundary := get_full_year tz previous \<noteq> get_full_year tz (row_first r)\<rparr>
     # mark_days tz (row_first r) rs"

definition max_date :: int where
  "max_date = 8640000000000000"

definition newest_first :: "sha_row \<Rightarrow> sha_row \<Rightarrow> rat" where
  "newest_first a b = of_int (row_first b - row_first a)"

text \<open>The rows of the table, and its columns: the browsers.\<close>

definition testRunsLoaded :: "zone \<Rightarrow> int \<Rightarrow> test_run list \<Rightarrow> sha_row list \<times> string list" where
  "testRunsLoaded tz now runs =
     (let flattened = js_sort newest_first (map (new_row now) (own_order (foldl add_run [] runs)));
          flattened = (if length flattened > 1 then mark_days tz max_date flattened else flattened)
      in (flattened, js_sort compare_strings (nub (map browser_name runs))))"

definition runClass :: "runs_by_browser \<Rightarrow> string \<Rightarrow> string" where
  "runClass runs browser = (if obj_get runs browser = None then ''missing'' else ''present'')"

definition runList :: "runs_by_browser \<Rightarrow> string \<Rightarrow> test_run list" where
  "runList runs browser = runs_at runs browser"

text \<open>The date of a row, and whether its year is shown; how it is printed depends on the locale.\<close>

definition computeDateDisplay :: "zone \<Rightarrow> int \<Rightarrow> sha_row \<Rightarrow> (int \<times> bool) option" where
  "computeDateDisplay tz now r =
     map_option (\<lambda>date. (date, year_boundary r \<and> get_full_year tz date \<noteq> get_full_year tz now)) (row_date r)"

definition githubRevision :: "string \<Rightarrow> string" where
  "githubRevision sha = take 7 sha"

text \<open>The width of a column, in percent.\<close>

definition computeThWidth :: "string list \<Rightarrow> rat" where
  "computeThWidth bs = 100 / (of_nat (length bs) + 2)"

section \<open>Links\<close>

definition runLink :: "test_run \<Rightarrow> string" where
  "runLink r =
     ''/results'' @ search_of
       (foldl (\<lambda>ps label. if label \<in> set (case labels r of None \<Rightarrow> [] | Some ls \<Rightarrow> ls) then params_append ''label'' label ps else ps)
          (params_set ''sha'' (sha_key r) []) [''experimental'', ''stable''])"

text \<open>The link takes the query of the page; one that is not set becomes the text "undefined".\<close>

definition revisionLink :: "string option \<Rightarrow> sha_row \<Rightarrow> string" where
  "revisionLink query r =
     ''/results'' @ search_of
       (params_delete ''from'' (params_set ''max-count'' ''1'' (params_set ''sha'' (row_sha r)
          (form_parse (case query of None \<Rightarrow> ''undefined'' | Some q \<Rightarrow> q)))))"

section \<open>State of the page\<close>

text \<open>The identifiers of runs are the texts of an attribute; the elements of runs carry the marks.\<close>

record runs_page =
  page_loader :: runs_loader
  testRunsBySHA :: "sha_row list option"
  browsers :: "string list"
  loadingFailed :: bool
  noResults :: bool
  editingQuery :: bool
  selectedRuns :: "string list"
  run_marked :: "string \<Rightarrow> bool"
  runs_toast :: bool
  page_query :: "string option"

definition onRunsComplete :: "runs_page \<Rightarrow> runs_page" where
  "onRunsComplete st =
     st\<lparr>loadingFailed := (testRunsBySHA st = None), noResults := (testRunsBySHA st = Some [])\<rparr>"

text \<open>The observer of \<open>testRuns\<close>.\<close>

definition runs_arrived :: "zone \<Rightarrow> int \<Rightarrow> runs_loader \<Rightarrow> runs_page \<Rightarrow> runs_page" where
  "runs_arrived tz now ld st =
     (let st = st\<lparr>page_loader := ld\<rparr>
      in case testRuns ld of
           None \<Rightarrow> st
         | Some runs \<Rightarrow>
             (let (rows, bs) = testRunsLoaded tz now runs
              in st\<lparr>testRunsBySHA := Some rows, browsers := bs\<rparr>))"

definition toggleBuilder :: "runs_page \<Rightarrow> runs_page" where
  "toggleBuilder st = st\<lparr>editingQuery := \<not> editingQuery st\<rparr>"

definition computeIsLoadingFirstRuns :: "bool \<Rightarrow> test_run list option \<Rightarrow> bool" where
  "computeIsLoadingFirstRuns isLoading runs = (isLoading \<and> \<not> nonempty_list runs)"

text \<open>
  Submitting the query of the builder; \<open>query'\<close> is the query that its parameters give. The flag says
  that the page navigates and loads the runs again.
\<close>

definition handleSubmitQuery :: "string option \<Rightarrow> runs_page \<Rightarrow> runs_page \<times> bool" where
  "handleSubmitQuery query' st =
     (let queryBefore = page_query st;
          st = st\<lparr>editingQuery := False, page_loader := (page_loader st)\<lparr>nextPageToken := None\<rparr>, page_query := query'\<rparr>
      in if queryBefore = query' then (st, False)
         else (st\<lparr>browsers := [], page_loader := (page_loader st)\<lparr>testRuns := Some []\<rparr>, testRunsBySHA := Some []\<rparr>, True))"

definition handleSelectRun :: "string \<Rightarrow> runs_page \<Rightarrow> runs_page" where
  "handleSelectRun rid st =
     (let found = list_ex (\<lambda>r. r = rid \<and> r \<noteq> []) (selectedRuns st);
          st = (if found
                then st\<lparr>selectedRuns := filter (\<lambda>r. r \<noteq> rid) (selectedRuns st), run_marked := (run_marked st)(rid := False)\<rparr>
                else st\<lparr>selectedRuns := selectedRuns st @ [rid], run_marked := (run_marked st)(rid := True)\<rparr>)
      in st\<lparr>runs_toast := (selectedRuns st \<noteq> [])\<rparr>)"

definition showRuns :: "bool \<Rightarrow> runs_page \<Rightarrow> string" where
  "showRuns as_diff st =
     ''/results'' @ search_of
       ((if as_diff then params_set ''diff'' ''true'' else id)
          (foldl (\<lambda>ps i. params_append ''run_id'' i ps) [] (selectedRuns st)))"

definition computeRunPlural :: "string list \<Rightarrow> string option" where
  "computeRunPlural selected = pluralizer ''run'' (length selected)"

definition computeTwoRunsSelected :: "string list \<Rightarrow> bool" where
  "computeTwoRunsSelected selected = (length selected = 2)"

section \<open>What the grouping holds\<close>

definition of_sha :: "string \<Rightarrow> string \<Rightarrow> test_run \<Rightarrow> bool" where
  "of_sha s b r \<longleftrightarrow> sha_key r = s \<and> browser_name r = b"

definition row_ok :: "test_run list \<Rightarrow> string \<Rightarrow> runs_by_browser \<Rightarrow> bool" where
  "row_ok runs s m \<longleftrightarrow> distinct (obj_keys m) \<and> (\<forall>b. runs_at m b = filter (of_sha s b) runs)"

definition group_ok :: "test_run list \<Rightarrow> runs_by_browser obj \<Rightarrow> bool" where
  "group_ok runs acc \<longleftrightarrow>
     distinct (obj_keys acc) \<and> set (obj_keys acc) = sha_key ` set runs \<and>
     (\<forall>s m. obj_get acc s = Some m \<longrightarrow> row_ok runs s m)"

lemma runs_at_set: "runs_at (obj_set k v m) b = (if b = k then v else runs_at m b)"
  by (simp add: runs_at_def obj_get_set)

lemma keys_obj_set: "set (obj_keys (obj_set k v m)) = insert k (set (obj_keys m))"
  using has_key_set [of k v m] by (auto simp: has_key_iff image_iff)

lemma row_ok_add:
  assumes "row_ok runs s m"
  shows "row_ok (runs @ [r]) s
    (if sha_key r = s then obj_set (browser_name r) (runs_at m (browser_name r) @ [r]) m else m)"
  using assms by (auto simp: row_ok_def runs_at_set of_sha_def distinct_keys_set)

lemma row_ok_none:
  "s \<notin> sha_key ` set runs \<Longrightarrow> row_ok runs s []"
  by (auto simp: row_ok_def runs_at_def of_sha_def intro!: filter_False [symmetric])

lemma group_ok_add:
  assumes g: "group_ok runs acc"
  shows "group_ok (runs @ [r]) (add_run acc r)"
proof -
  let ?s = "sha_key r"
  let ?row = "case obj_get acc ?s of None \<Rightarrow> [] | Some m \<Rightarrow> m"
  have "row_ok runs ?s ?row"
  proof (cases "obj_get acc ?s")
    case None
    then have "?s \<notin> set (obj_keys acc)" by (simp add: map_of_eq_None_iff)
    with None g show ?thesis by (simp add: group_ok_def row_ok_none)
  next
    case (Some m)
    with g show ?thesis by (simp add: group_ok_def)
  qed
  from row_ok_add [OF this, of r]
  have new: "row_ok (runs @ [r]) ?s (obj_set (browser_name r) (runs_at ?row (browser_name r) @ [r]) ?row)"
    by simp
  have "row_ok (runs @ [r]) s m" if "obj_get (add_run acc r) s = Some m" for s m
  proof (cases "s = ?s")
    case True
    with that new show ?thesis by (simp add: add_run_def Let_def obj_get_set)
  next
    case False
    with that have "obj_get acc s = Some m" by (simp add: add_run_def Let_def obj_get_set)
    with g have "row_ok runs s m" by (simp add: group_ok_def)
    from row_ok_add [OF this, of r] False show ?thesis by simp
  qed
  moreover have "set (obj_keys (add_run acc r)) = insert ?s (set (obj_keys acc))"
    unfolding add_run_def Let_def by (rule keys_obj_set)
  moreover have "distinct (obj_keys (add_run acc r))"
    using g unfolding add_run_def Let_def group_ok_def by (intro distinct_keys_set) blast
  ultimately show ?thesis using g unfolding group_ok_def by simp
qed

lemma group_ok_runs: "group_ok runs (foldl add_run [] runs)"
proof (induction runs rule: rev_induct)
  case Nil
  show ?case by (simp add: group_ok_def)
next
  case (snoc r runs)
  from group_ok_add [OF this, of r] show ?case by simp
qed

lemma row_runs_set:
  assumes "row_ok runs s m"
  shows "set (concat (map snd (own_order m))) = {r \<in> set runs. sha_key r = s}"
proof (intro set_eqI iffI)
  fix r assume "r \<in> set (concat (map snd (own_order m)))"
  then obtain b rs where b: "(b, rs) \<in> set m" "r \<in> set rs" by auto
  then have "runs_at m b = rs" using assms by (simp add: row_ok_def runs_at_def)
  with b assms have "r \<in> set (filter (of_sha s b) runs)" by (simp add: row_ok_def)
  then show "r \<in> {r \<in> set runs. sha_key r = s}" by (simp add: of_sha_def)
next
  fix r assume "r \<in> {r \<in> set runs. sha_key r = s}"
  then have "r \<in> set (runs_at m (browser_name r))" using assms by (simp add: row_ok_def of_sha_def)
  then obtain rs where "obj_get m (browser_name r) = Some rs" "r \<in> set rs"
    by (cases "obj_get m (browser_name r)") (auto simp: runs_at_def)
  then have "(browser_name r, rs) \<in> set (own_order m)" by (simp add: map_of_SomeD)
  with \<open>r \<in> set rs\<close> show "r \<in> set (concat (map snd (own_order m)))" by force
qed

definition start_times :: "test_run list \<Rightarrow> int set" where
  "start_times rs = {t. \<exists>r \<in> set rs. parse_date (time_start r) = Some t}"

lemma finite_start_times [simp]: "finite (start_times rs)"
proof -
  have "start_times rs \<subseteq> (\<lambda>r. the (parse_date (time_start r))) ` set rs"
    by (force simp: start_times_def image_iff)
  then show ?thesis by (rule finite_subset) simp
qed

lemma fold_earlier: "foldl earlier t0 rs = Min (insert t0 (start_times rs))"
proof (induction rs arbitrary: t0)
  case Nil
  show ?case by (simp add: start_times_def)
next
  case (Cons r rs)
  show ?case
  proof (cases "parse_date (time_start r)")
    case None
    then have "start_times (r # rs) = start_times rs" by (auto simp: start_times_def)
    moreover have "earlier t0 r = t0" using None by (simp add: earlier_def)
    ultimately show ?thesis using Cons [of t0] by simp
  next
    case (Some t)
    then have st: "start_times (r # rs) = insert t (start_times rs)" by (auto simp: start_times_def)
    have "earlier t0 r = min t t0" using Some by (simp add: earlier_def min_def)
    then have "foldl earlier t0 (r # rs) = Min (insert (min t t0) (start_times rs))"
      using Cons [of "earlier t0 r"] by simp
    also have "\<dots> = Min (insert t0 (start_times (r # rs)))"
      unfolding st by (cases "start_times rs = {}") (simp_all add: ac_simps)
    finally show ?thesis .
  qed
qed

lemma firstRunDate_concat: "firstRunDate now m = foldl earlier now (concat (map snd (own_order m)))"
proof -
  have "foldl (\<lambda>oldest rs. foldl earlier oldest rs) t rss = foldl earlier t (concat rss)" for t rss
    by (induction rss arbitrary: t) simp_all
  then show ?thesis by (simp add: firstRunDate_def)
qed

lemma mark_days_maps [simp]:
  "map row_sha (mark_days tz t rows) = map row_sha rows \<and> map row_runs (mark_days tz t rows) = map row_runs rows \<and>
   map row_first (mark_days tz t rows) = map row_first rows"
  by (induction rows arbitrary: t) auto

interpretation newest: comparator "\<lambda>_. True" newest_first
  by unfold_locales (simp_all add: newest_first_def)

lemma sorted_strings:
  assumes "distinct xs"
  shows "sorted_wrt str_less (js_sort compare_strings xs)"
proof -
  let ?ys = "js_sort compare_strings xs"
  have "sorted_wrt (\<lambda>a b. compare_strings a b \<le> 0) ?ys"
    by (rule string_order.sorted_sort) (simp add: list_all_iff)
  moreover have "distinct ?ys"
    using assms by (metis mset_js_sort mset_eq_imp_distinct_iff)
  moreover have "str_less a b" if "compare_strings a b \<le> 0" "a \<noteq> b" for a b
    using that str_less_linear [of a b] by (auto simp: compare_strings_def split: if_splits)
  ultimately show ?thesis by (auto simp: sorted_wrt_iff_nth_less nth_eq_iff_index_eq)
qed

section \<open>Properties\<close>

text \<open>
  The table of runs. The rows are the revisions of the runs, each once, with the newest first; the
  columns are their browsers, each once, in order; a cell holds exactly the runs of its revision
  and browser, in the order in which they were loaded; and the time of a row is that of its
  earliest run.
\<close>

lemma runs_table:
  assumes "testRunsLoaded tz now runs = (rows, bs)"
  shows "distinct (map row_sha rows) \<and> set (map row_sha rows) = sha_key ` set runs \<and>
    sorted_wrt (\<ge>) (map row_first rows) \<and> sorted_wrt str_less bs \<and> set bs = browser_name ` set runs \<and>
    (\<forall>row \<in> set rows.
      row_first row = Min (insert now (start_times (filter (\<lambda>r. sha_key r = row_sha row) runs))) \<and>
      (\<forall>b. runList (row_runs row) b = filter (of_sha (row_sha row) b) runs))"
proof -
  let ?g = "foldl add_run [] runs"
  let ?flat = "js_sort newest_first (map (new_row now) (own_order ?g))"
  have g: "group_ok runs ?g" by (rule group_ok_runs)
  have rows: "map row_sha rows = map row_sha ?flat" "map row_runs rows = map row_runs ?flat"
    "map row_first rows = map row_first ?flat"
    and bs: "bs = js_sort compare_strings (nub (map browser_name runs))"
    using assms by (auto simp: testRunsLoaded_def Let_def split: if_splits)
  have "image_mset row_sha (mset ?flat) = image_mset fst (mset ?g)"
    by (simp add: image_mset.compositionality comp_def new_row_def)
  then have "mset (map row_sha ?flat) = mset (obj_keys ?g)" by (simp only: mset_map)
  then have shas: "distinct (map row_sha rows)" "set (map row_sha rows) = sha_key ` set runs"
    using g unfolding rows(1) group_ok_def by (metis mset_eq_imp_distinct_iff, metis mset_eq_setD)
  have "sorted_wrt (\<lambda>a b. newest_first a b \<le> 0) ?flat"
    by (rule newest.sorted_sort) (simp add: list_all_iff)
  then have newest: "sorted_wrt (\<ge>) (map row_first rows)"
    unfolding rows(3) sorted_wrt_map by (simp add: newest_first_def)
  have "row_first row = Min (insert now (start_times (filter (\<lambda>r. sha_key r = row_sha row) runs))) \<and>
      (\<forall>b. runList (row_runs row) b = filter (of_sha (row_sha row) b) runs)" if row: "row \<in> set rows" for row
  proof -
    obtain i where i: "i < length rows" "rows ! i = row" using row by (auto simp: in_set_conv_nth)
    have len: "length ?flat = length rows" using rows(1) by (metis length_map)
    have at: "row_sha row = row_sha (?flat ! i)" "row_runs row = row_runs (?flat ! i)" "row_first row = row_first (?flat ! i)"
      using rows i len by (metis nth_map)+
    have "?flat ! i \<in> set ?flat" using i len by (metis nth_mem)
    then obtain e where e: "e \<in> set ?g" "?flat ! i = new_row now e" by auto
    have "obj_get ?g (fst e) = Some (snd e)" using e g by (simp add: group_ok_def)
    with g have ok: "row_ok runs (fst e) (snd e)" by (simp add: group_ok_def)
    have "start_times (concat (map snd (own_order (snd e)))) = start_times (filter (\<lambda>r. sha_key r = fst e) runs)"
      using row_runs_set [OF ok] by (simp add: start_times_def)
    with at e ok show ?thesis
      by (simp add: new_row_def firstRunDate_concat fold_earlier runList_def row_ok_def)
  qed
  with shas newest show ?thesis unfolding bs by (simp add: sorted_strings)
qed

definition sample_test_run :: "string \<Rightarrow> string \<Rightarrow> string \<Rightarrow> test_run" where
  "sample_test_run browser sha t =
     \<lparr>browser_name = browser, browser_version = None, labels = None, revision = Some sha, run_id = 1,
      os_name = ''linux'', os_version = [], full_revision_hash = sha, results_url = [], time_start = t, time_end = t\<rparr>"

definition sample_runs :: "test_run list" where
  "sample_runs =
     [sample_test_run ''firefox'' ''aaa'' ''2020-01-13T10:00:00Z'', sample_test_run ''chrome'' ''bbb'' ''2020-01-14T10:00:00Z'',
      sample_test_run ''chrome'' ''aaa'' ''2020-01-13T09:00:00Z'']"

theorem runs_table_witness:
  "\<exists>rows. testRunsLoaded (\<lambda>_. 0) 1600000000000 sample_runs = (rows, [''chrome'', ''firefox'']) \<and>
     set (map row_sha rows) = {''aaa'', ''bbb''} \<and>
     (\<forall>row \<in> set rows. \<forall>b. runList (row_runs row) b = filter (of_sha (row_sha row) b) sample_runs)"
proof -
  obtain rows bs where r: "testRunsLoaded (\<lambda>_. 0) 1600000000000 sample_runs = (rows, bs)" by force
  have "bs = js_sort compare_strings (nub (map browser_name sample_runs))"
    using r by (simp add: testRunsLoaded_def Let_def)
  also have "\<dots> = [''chrome'', ''firefox'']" by code_simp
  finally have "bs = [''chrome'', ''firefox'']" .
  moreover have "sha_key ` set sample_runs = {''aaa'', ''bbb''}"
    by (auto simp: sample_runs_def sample_test_run_def sha_key_def)
  ultimately show ?thesis using r runs_table [OF r] by metis
qed

text \<open>
  The start of a range of dates. The declaration of the property passes \<open>to\<close> and \<open>from\<close> in the other
  order than the function expects, so without an end of the range its start is ignored: the
  message is the same whatever \<open>from\<close> is.
\<close>

lemma range_from_ignored:
  assumes "to_date q = None"
  shows "resultsRangeMessage tz now (q\<lparr>from_date := f\<rparr>) = resultsRangeMessage tz now q"
  using assms by (simp add: resultsRangeMessage_def computeResultsRangeMessage_def Let_def)

definition sample_query :: ui_query where
  "sample_query =
     \<lparr>shas = None, aligned = False, master = True, label_list = None, productSpecs = None, to_date = None,
      from_date = None, maxCount = None, offset = None, view = None, search_text = [], diff = False,
      diffFilter = None, pr = None, runIds = None\<rparr>"

theorem range_from_ignored_witness:
  "resultsRangeMessage (\<lambda>_. 0) 0 (sample_query\<lparr>from_date := Some ''2020-01-01T00:00:00Z''\<rparr>) =
     Some ''Showing the latest master test runs for the default product set''"
proof -
  have "resultsRangeMessage (\<lambda>_. 0) 0 (sample_query\<lparr>from_date := Some ''2020-01-01T00:00:00Z''\<rparr>) =
      resultsRangeMessage (\<lambda>_. 0) 0 sample_query"
    by (rule range_from_ignored) (simp add: sample_query_def)
  also have "\<dots> = Some ''Showing the latest master test runs for the default product set''" by code_simp
  finally show ?thesis .
qed

lemma range_reversed:
  "resultsRangeMessage (\<lambda>_. 0) 0
     (sample_query\<lparr>from_date := Some ''2020-01-01T00:00:00Z'', to_date := Some ''2020-02-01T00:00:00Z''\<rparr>) =
   Some ''Showing the latest master test runs from Feb 1 to Jan 1''"
  by code_simp

text \<open>
  The first row of the table is marked as the beginning of a day unless its day of the month is
  that of the latest date there is, the 13th in UTC.
\<close>

lemma first_row_unmarked:
  assumes "testRunsLoaded tz now runs = (row # row2 # rows, bs)"
  shows "day_boundary row \<longleftrightarrow> get_date tz max_date \<noteq> get_date tz (row_first row)"
proof -
  define flat where "flat = js_sort newest_first (map (new_row now) (own_order (foldl add_run [] runs)))"
  have eq: "(if length flat > 1 then mark_days tz max_date flat else flat) = row # row2 # rows"
    using assms unfolding testRunsLoaded_def Let_def flat_def by simp
  then have "length flat > 1" by (cases "length flat > 1") auto
  with eq have "mark_days tz max_date flat = row # row2 # rows" by simp
  then show ?thesis by (cases flat) auto
qed

lemma max_date_13: "get_date (\<lambda>_. 0) max_date = 13"
  by code_simp

end
