(* ===== verification/RunsTable.thy ===== *)
theory RunsTable
  imports WptRuns JsHtml
begin

text \<open>
  The template of \<^verbatim>\<open>webapp/components/wpt-runs.js\<close>: the rendered page of runs as a function of its state. How
  dates and times are written in the locale of the browser is an argument. The marks of selected runs
  are not in the template: \<open>handleSelectRun\<close> puts them on the elements.
\<close>

section \<open>The template\<close>

record runs_env =
  re_zone :: zone
  re_now :: int
  re_query :: ui_query
  re_isLoading :: bool
  re_toLocaleDateString :: "int \<Rightarrow> bool \<Rightarrow> string"
  re_toLocaleTimeString :: "int \<Rightarrow> string"

datatype runs_comp = RunsInfo string string | RunsBuilder ui_query | RunElement test_run | ScrollThreshold | Spinner bool

datatype runs_click = RunsSelect string | RunsShow bool | RunsEdit | RunsSubmit

type_synonym runs_html = "(runs_comp, runs_click) html"

text \<open>The toast; the word for the number of runs comes from the \<^verbatim>\<open>pluralize\<close> library, which may throw.\<close>

definition runs_toast_html :: "runs_page \<Rightarrow> runs_html option" where
  "runs_toast_html st =
     map_option
       (\<lambda>runPlural. Elem ''paper-toast'' [(''id'', ''selected-toast'')] []
          ([Elem ''span'' [] [] [Txt (show_nat (length (selectedRuns st)) @ '' '' @ runPlural @ '' selected'')],
            Elem ''paper-button'' [] [(''click'', RunsShow False)] [Txt (''View '' @ runPlural)]] @
           (if computeTwoRunsSelected (selectedRuns st)
            then [Elem ''paper-button'' [] [(''click'', RunsShow True)] [Txt ''View diff'']] else [])))
       (computeRunPlural (selectedRuns st))"

definition range_banner :: "runs_env \<Rightarrow> runs_html list option" where
  "range_banner env =
     map_option
       (\<lambda>msg. if msg = [] then []
          else [Comp (RunsInfo [] msg), Elem ''paper-button'' [] [(''click'', RunsEdit)] [Txt ''Edit'']])
       (resultsRangeMessage (re_zone env) (re_now env) (re_query env))"

definition runs_messages :: "runs_env \<Rightarrow> runs_page \<Rightarrow> runs_html list" where
  "runs_messages env st =
     [Elem ''iron-collapse'' (flag_attr ''opened'' (editingQuery st)) [(''submit'', RunsSubmit)] [Comp (RunsBuilder (re_query env))]] @
     (if loadingFailed st then [Comp (RunsInfo ''error'' ''Failed to load test runs.'')] else []) @
     (if noResults st then [Comp (RunsInfo ''info'' ''No results.'')] else [])"

section \<open>The table\<close>

definition runs_head :: "runs_page \<Rightarrow> runs_html" where
  "runs_head st =
     Elem ''tr'' [] []
       (Elem ''th'' [] [] [Txt ''SHA''] #
        map (\<lambda>b. Elem ''th'' [] [] [Txt (case displayName (Some b) of None \<Rightarrow> [] | Some t \<Rightarrow> t)]) (browsers st))"

definition revision_cell :: "runs_page \<Rightarrow> sha_row \<Rightarrow> runs_html" where
  "revision_cell st r =
     Elem ''td'' [] []
       [Elem ''a'' [(''class'', ''github''), (''href'', revisionLink (page_query st) r)] []
          (case row_commit r of
             Some label \<Rightarrow> [Elem ''img'' [(''src'', ''/static/'' @ label @ ''.svg'')] [] [], Txt (githubRevision (row_sha r))]
           | None \<Rightarrow> [Txt (row_sha r)])]"

definition run_element :: "test_run \<Rightarrow> runs_html" where
  "run_element run =
     Elem ''test-run'' [(''data-run-id'', show_nat (run_id run))] [(''click'', RunsSelect (show_nat (run_id run)))]
       [Comp (RunElement run)]"

definition runs_cell :: "sha_row \<Rightarrow> string \<Rightarrow> runs_html" where
  "runs_cell r browser =
     Elem ''td'' [(''class'', ''runs '' @ runClass (row_runs r) browser)] []
       (map run_element (runList (row_runs r) browser))"

definition computeTimeDisplay :: "runs_env \<Rightarrow> sha_row \<Rightarrow> string option" where
  "computeTimeDisplay env r = map_option (re_toLocaleTimeString env) (row_date r)"

definition time_cell :: "runs_env \<Rightarrow> sha_row \<Rightarrow> runs_html" where
  "time_cell env r =
     Elem ''td'' (flag_attr ''day-boundary'' (day_boundary r)) []
       ((if day_boundary r
         then [Txt (case computeDateDisplay (re_zone env) (re_now env) r of
                      None \<Rightarrow> [] | Some (date, withYear) \<Rightarrow> re_toLocaleDateString env date withYear)]
         else []) @
        [Elem ''span'' [(''class'', ''time'')] [] [Txt (case computeTimeDisplay env r of None \<Rightarrow> [] | Some t \<Rightarrow> t)]])"

definition runs_row :: "runs_env \<Rightarrow> runs_page \<Rightarrow> sha_row \<Rightarrow> runs_html" where
  "runs_row env st r = Elem ''tr'' [] [] (revision_cell st r # map (runs_cell r) (browsers st) @ [time_cell env r])"

definition progress_row :: "runs_env \<Rightarrow> runs_html" where
  "progress_row env =
     Elem ''tr'' [] []
       [Elem ''td'' [(''colspan'', ''999''), (''no-padding'', [])] []
          [Elem ''paper-progress'' (flag_attr ''hidden'' (\<not> re_isLoading env)) [] []]]"

definition runs_table_html :: "runs_env \<Rightarrow> runs_page \<Rightarrow> runs_html" where
  "runs_table_html env st =
     Elem ''table'' [] []
       [Elem ''thead'' [] [] [runs_head st],
        Elem ''tbody'' [] []
          (map (runs_row env st) (case testRunsBySHA st of None \<Rightarrow> [] | Some rows \<Rightarrow> rows) @ [progress_row env])]"

definition render_runs :: "runs_env \<Rightarrow> runs_page \<Rightarrow> runs_html list option" where
  "render_runs env st =
     (case (runs_toast_html st, range_banner env) of
        (Some toast, Some banner) \<Rightarrow> Some
          (toast # banner @ runs_messages env st @
           (if nonempty_list (testRuns (page_loader st)) then [runs_table_html env st, Comp ScrollThreshold] else []) @
           [Comp (Spinner (computeIsLoadingFirstRuns (re_isLoading env) (testRuns (page_loader st))))])
      | _ \<Rightarrow> None)"

section \<open>Clicks\<close>

text \<open>A click changes the page, or goes to another address.\<close>

definition runs_click_page :: "runs_click \<Rightarrow> runs_page \<Rightarrow> runs_page + string" where
  "runs_click_page click st =
     (case click of
        RunsSelect rid \<Rightarrow> Inl (handleSelectRun rid st)
      | RunsShow as_diff \<Rightarrow> Inr (showRuns as_diff st)
      | RunsEdit \<Rightarrow> Inl (toggleBuilder st)
      | RunsSubmit \<Rightarrow> Inl st)"

section \<open>Lemmas\<close>

text \<open>The runs whose elements are in a cell.\<close>

fun element_run :: "runs_html \<Rightarrow> test_run list" where
  "element_run (Elem tag as es [Comp (RunElement r)]) = [r]"
| "element_run _ = []"

definition cell_runs :: "runs_html \<Rightarrow> test_run list" where
  "cell_runs cell = concat (map element_run (html_children cell))"

lemma cell_runs_cell [simp]: "cell_runs (runs_cell r b) = runList (row_runs r) b"
  by (simp add: cell_runs_def runs_cell_def run_element_def comp_def)

lemma runs_row_cells: "row_cells (runs_row env st r) = revision_cell st r # map (runs_cell r) (browsers st) @ [time_cell env r]"
  unfolding runs_row_def
  by (rule cells_all) (auto simp: list_all_iff revision_cell_def runs_cell_def time_cell_def)

lemma runs_head_cells: "length (row_cells (runs_head st)) = 1 + length (browsers st)"
proof -
  have "row_cells (runs_head st) = html_children (runs_head st)"
    unfolding runs_head_def html_children.simps by (rule cells_all) (auto simp: list_all_iff)
  then show ?thesis by (simp add: runs_head_def)
qed

text \<open>Clicks on elements of runs, by the texts of their identifiers.\<close>

definition click_runs :: "string list \<Rightarrow> runs_page \<Rightarrow> runs_page" where
  "click_runs ids st = foldl (\<lambda>st i. handleSelectRun i st) st ids"

definition runs_selection_ok :: "string list \<Rightarrow> runs_page \<Rightarrow> bool" where
  "runs_selection_ok ids st \<longleftrightarrow>
     distinct (selectedRuns st) \<and> set (selectedRuns st) = {i. odd (count_list ids i)} \<and>
     (\<forall>i. run_marked st i \<longleftrightarrow> i \<in> set (selectedRuns st)) \<and> (runs_toast st \<longleftrightarrow> selectedRuns st \<noteq> [])"

lemma run_selection_click:
  assumes ok: "runs_selection_ok ids st" and "i \<noteq> []"
  shows "runs_selection_ok (ids @ [i]) (handleSelectRun i st)"
proof (cases "i \<in> set (selectedRuns st)")
  case True
  then have "odd (count_list ids i)" using ok by (simp add: runs_selection_ok_def)
  with True assms show ?thesis
    by (auto simp: runs_selection_ok_def handleSelectRun_def list_ex_iff Let_def)
next
  case False
  then have "even (count_list ids i)" using ok by (simp add: runs_selection_ok_def)
  with False assms show ?thesis
    by (auto simp: runs_selection_ok_def handleSelectRun_def list_ex_iff Let_def)
qed

lemma selection_clicks:
  assumes "\<forall>i \<in> set ids. i \<noteq> []" and "selectedRuns st = []" and "\<forall>i. \<not> run_marked st i" and "\<not> runs_toast st"
  shows "runs_selection_ok ids (click_runs ids st)"
  using assms(1)
proof (induction ids rule: rev_induct)
  case Nil
  show ?case using assms(2-4) by (simp add: click_runs_def runs_selection_ok_def)
next
  case (snoc i ids)
  then show ?case using run_selection_click [of ids "click_runs ids st" i] by (simp add: click_runs_def)
qed

lemma append_run_ids: "params_get_all ''run_id'' (foldl (\<lambda>ps i. params_append ''run_id'' i ps) ps ids) = params_get_all ''run_id'' ps @ ids"
  by (induction ids arbitrary: ps) auto

lemma shown_run_ids: "params_get_all ''run_id'' (form_parse (drop 8 (showRuns as_diff st))) = selectedRuns st"
  by (simp add: showRuns_def append_run_ids)

section \<open>Properties\<close>

text \<open>
  The table of runs shows these runs: it has a row for each of their revisions, once, with the newest
  first, and below them the row of the progress; its columns are their browsers, each once, in order; a cell holds
  exactly an element for each run of its revision and browser, in the order in which they were loaded, and a
  click on it selects that run.
\<close>

definition shows_runs :: "runs_env \<Rightarrow> runs_page \<Rightarrow> test_run list \<Rightarrow> bool" where
  "shows_runs env st runs \<longleftrightarrow>
    (\<exists>(rows :: sha_row list) head body. table_rows (runs_table_html env st) = head # body @ [progress_row env] \<and>
    length body = length rows \<and> distinct (map row_sha rows) \<and> set (map row_sha rows) = sha_key ` set runs \<and>
    sorted_wrt (\<ge>) (map row_first rows) \<and> length (row_cells head) = 1 + length (browsers st) \<and>
    sorted_wrt str_less (browsers st) \<and> set (browsers st) = browser_name ` set runs \<and>
    (\<forall>j < length rows. length (row_cells (body ! j)) = length (browsers st) + 2 \<and>
       (\<forall>i < length (browsers st).
          let cell = row_cells (body ! j) ! (i + 1); shown = filter (of_sha (row_sha (rows ! j)) (browsers st ! i)) runs
          in cell_runs cell = shown \<and>
             map (html_handler ''click'') (html_children cell) = map (\<lambda>r. Some (RunsSelect (show_nat (run_id r)))) shown)))"

lemma rows_shown:
  assumes loaded: "testRunsLoaded tz now runs = (rows, browsers st)" and "testRunsBySHA st = Some rows"
  shows "shows_runs env st runs"
proof -
  note facts = runs_table [OF loaded]
  have t: "table_rows (runs_table_html env st) = runs_head st # map (runs_row env st) rows @ [progress_row env]"
    by (simp add: table_rows_def runs_table_html_def assms(2))
  have cell: "let cell = row_cells (map (runs_row env st) rows ! j) ! (i + 1);
        shown = filter (of_sha (row_sha (rows ! j)) (browsers st ! i)) runs
      in cell_runs cell = shown \<and>
         map (html_handler ''click'') (html_children cell) = map (\<lambda>r. Some (RunsSelect (show_nat (run_id r)))) shown"
    if "j < length rows" "i < length (browsers st)" for i j
  proof -
    have "runList (row_runs (rows ! j)) (browsers st ! i) = filter (of_sha (row_sha (rows ! j)) (browsers st ! i)) runs"
      using facts nth_mem [OF that(1)] by blast
    moreover have "row_cells (map (runs_row env st) rows ! j) ! (i + 1) = runs_cell (rows ! j) (browsers st ! i)"
      using that by (simp add: runs_row_cells nth_append)
    ultimately show ?thesis by (simp add: Let_def) (simp add: runs_cell_def run_element_def comp_def)
  qed
  have "length (row_cells (map (runs_row env st) rows ! j)) = length (browsers st) + 2" if "j < length rows" for j
    using that by (simp add: runs_row_cells)
  then have cells: "\<forall>j < length rows. length (row_cells (map (runs_row env st) rows ! j)) = length (browsers st) + 2 \<and>
      (\<forall>i < length (browsers st).
         let cell = row_cells (map (runs_row env st) rows ! j) ! (i + 1);
             shown = filter (of_sha (row_sha (rows ! j)) (browsers st ! i)) runs
         in cell_runs cell = shown \<and>
            map (html_handler ''click'') (html_children cell) = map (\<lambda>r. Some (RunsSelect (show_nat (run_id r)))) shown)"
    using cell by blast
  show ?thesis
    unfolding shows_runs_def
    by (rule exI [of _ rows], rule exI [of _ "runs_head st"], rule exI [of _ "map (runs_row env st) rows"], intro conjI)
      (rule t cells | use facts runs_head_cells [of st] in simp)+
qed

lemma runs_rendered: "testRuns ld = Some runs \<Longrightarrow> shows_runs env (runs_arrived tz now ld st) runs"
  by (rule rows_shown [where tz = tz and now = now and rows = "fst (testRunsLoaded tz now runs)"])
    (simp_all add: runs_arrived_def split: prod.split)

definition sample_loader :: runs_loader where
  "sample_loader = \<lparr>testRuns = Some sample_runs, nextPageToken = None, displayedProducts = [], pages_in_flight = [], load_events = []\<rparr>"

definition new_runs_page :: runs_page where
  "new_runs_page =
     \<lparr>page_loader = sample_loader\<lparr>testRuns := None\<rparr>, testRunsBySHA = None, browsers = [], loadingFailed = False,
      noResults = False, editingQuery = False, selectedRuns = [], run_marked = (\<lambda>_. False), runs_toast = False,
      page_query = Some []\<rparr>"

definition sample_env :: runs_env where
  "sample_env = \<lparr>re_zone = (\<lambda>_. 0), re_now = 1600000000000, re_query = sample_query, re_isLoading = False,
     re_toLocaleDateString = (\<lambda>d y. show_int d), re_toLocaleTimeString = (\<lambda>t. show_int t)\<rparr>"

lemma render_total: "\<exists>html. render_runs env st = Some html"
proof -
  have toast: "runs_toast_html st \<noteq> None"
    by (simp add: runs_toast_html_def computeRunPlural_def pluralizer_counted counted_words_def)
  have "resultsRangeMessage (re_zone env) (re_now env) (re_query env) \<noteq> None"
    by (simp add: resultsRangeMessage_def computeResultsRangeMessage_def pluralizer_counted counted_words_def Let_def
      split: option.split)
  with toast show ?thesis by (auto simp: render_runs_def range_banner_def)
qed

text \<open>
  C36: The selection of runs. After any clicks on elements of runs, the elements that are marked and the runs of the
  link "View" are exactly those that were clicked an odd number of times, none twice, and the toast is
  open exactly if there is one.
\<close>

theorem runs_selected:
  assumes "selectedRuns st = []" and "\<forall>i. \<not> run_marked st i" and "\<not> runs_toast st"
    and "st' = click_runs (map show_nat ids) st"
  shows "(let shown = params_get_all ''run_id'' (form_parse (drop 8 (showRuns as_diff st')))
    in distinct shown \<and> set shown = {i. odd (count_list (map show_nat ids) i)} \<and>
       (\<forall>i. run_marked st' i \<longleftrightarrow> i \<in> set shown) \<and> (runs_toast st' \<longleftrightarrow> shown \<noteq> []))"
  using selection_clicks [of "map show_nat ids" st] assms
  by (auto simp: shown_run_ids runs_selection_ok_def show_nat_not_Nil)

theorem runs_selected_witness:
  "set (params_get_all ''run_id'' (form_parse (drop 8 (showRuns True (click_runs (map show_nat [7, 8, 9, 8]) new_runs_page))))) =
   {''7'', ''9''}"
proof -
  have "set (params_get_all ''run_id'' (form_parse (drop 8 (showRuns True (click_runs (map show_nat [7, 8, 9, 8]) new_runs_page))))) =
      {i. odd (count_list (map show_nat [7, 8, 9, 8]) i)}"
    using runs_selected [where st = new_runs_page and ids = "[7, 8, 9, 8]" and as_diff = True, OF _ _ _ HOL.refl] by (simp add: new_runs_page_def Let_def)
  also have "\<dots> = {''7'', ''9''}"
  proof -
    have "map show_nat [7, 8, 9, 8] = [''7'', ''8'', ''9'', ''8'']" by code_simp
    then show ?thesis by auto
  qed
  finally show ?thesis .
qed

end
