(* ===== verification/RunsQueryState.thy ===== *)
theory RunsQueryState
  imports QueryParams
begin

text \<open>
  The element with a query of \<^verbatim>\<open>webapp/components/test-runs-query.js\<close> and
  \<^verbatim>\<open>webapp/components/results-navigation.js\<close>: products, product specs, UI properties, params and query
  string, and the observers that keep them together. A parameter that is repeated counts as its
  text. An exception is \<open>Inl\<close> with its message and the state that it leaves behind.
\<close>

section \<open>State\<close>

record runs_state =
  rs_ui :: ui_query
  rs_products :: "product list"
  rs_canViewInteropScores :: bool
  rs_query :: "string option"
  rs_queryParams :: "params option"
  rs_dontReact :: bool

type_synonym runs_result = "(string \<times> runs_state) + runs_state"

definition param_text :: "param \<Rightarrow> string" where
  "param_text v = join '','' (param_values v)"

definition text_of :: "param option \<Rightarrow> string option" where
  "text_of v = map_option param_text v"

text \<open>An \<open>undefined\<close> that is left out of the update leaves the property as it is.\<close>

definition or_keep :: "'a option \<Rightarrow> 'a option \<Rightarrow> 'a option" where
  "or_keep new old = (case new of None \<Rightarrow> old | Some v \<Rightarrow> Some v)"

definition set_properties :: "ui_update \<Rightarrow> runs_state \<Rightarrow> runs_state" where
  "set_properties u s =
     (let ui = rs_ui s
      in s\<lparr>rs_ui :=
             \<lparr>shas = Some (b_shas u), aligned = truthy_param (b_aligned u), master = b_master u,
              label_list = Some (b_labels u), productSpecs = Some (b_productSpecs u),
              to_date = or_keep (text_of (b_to u)) (to_date ui), from_date = or_keep (text_of (b_from u)) (from_date ui),
              maxCount = b_maxCount u, offset = or_keep (b_offset u) (offset ui),
              view = or_keep (text_of (b_view u)) (view ui),
              search_text = (case text_of (b_search u) of None \<Rightarrow> [] | Some t \<Rightarrow> t), diff = b_diff u,
              diffFilter = (if b_diff u then text_of (b_diffFilter u) else diffFilter ui),
              pr = b_pr u, runIds = or_keep (b_runIds u) (runIds ui)\<rparr>,
           rs_products := b_products u,
           rs_canViewInteropScores :=
             (case b_canViewInteropScores u of None \<Rightarrow> rs_canViewInteropScores s | Some v \<Rightarrow> truthy_param (Some v))\<rparr>)"

text \<open>The computed params.\<close>

definition computed_params :: "param option \<Rightarrow> runs_state \<Rightarrow> string + params" where
  "computed_params dmc s =
     (let ui = rs_ui s
      in computeTestRunUIQueryParams dmc (diff ui) (case runIds ui of None \<Rightarrow> [] | Some ids \<Rightarrow> ids) ui)"

section \<open>Observers\<close>

text \<open>New params while the element does not react: \<open>queryParamsChanged\<close> returns at once.\<close>

definition computedQueryChanged :: "param option \<Rightarrow> runs_state \<Rightarrow> runs_result" where
  "computedQueryChanged dmc s =
     (case computed_params dmc s of Inl e \<Rightarrow> Inl (e, s) | Inr ps \<Rightarrow> Inr (s\<lparr>rs_queryParams := Some ps\<rparr>))"

definition update_quietly :: "param option \<Rightarrow> params \<Rightarrow> runs_state \<Rightarrow> runs_result" where
  "update_quietly dmc ps s =
     (case getUIBatchUpdate ps of
        Inl e \<Rightarrow> Inl (e, s)
      | Inr u \<Rightarrow> computedQueryChanged dmc (set_properties u s))"

text \<open>The flag is reset after the update, but not by an exception.\<close>

definition runs_queryChanged :: "param option \<Rightarrow> string \<Rightarrow> runs_state \<Rightarrow> runs_result" where
  "runs_queryChanged dmc q s =
     (if q = [] \<or> rs_dontReact s then Inr s
      else (case update_quietly dmc (parseUIQuery q) (s\<lparr>rs_dontReact := True\<rparr>) of
              Inl es \<Rightarrow> Inl es
            | Inr s' \<Rightarrow> Inr (s'\<lparr>rs_dontReact := False\<rparr>)))"

definition set_runs_query :: "param option \<Rightarrow> string option \<Rightarrow> runs_state \<Rightarrow> runs_result" where
  "set_runs_query dmc q s =
     (if rs_query s = q then Inr s
      else (case q of
              None \<Rightarrow> Inr (s\<lparr>rs_query := None\<rparr>)
            | Some t \<Rightarrow> runs_queryChanged dmc t (s\<lparr>rs_query := Some t\<rparr>)))"

definition queryParamsChanged :: "param option \<Rightarrow> params \<Rightarrow> params option \<Rightarrow> runs_state \<Rightarrow> runs_result" where
  "queryParamsChanged dmc ps before s =
     (if rs_dontReact s then Inr s
      else if before \<noteq> None \<and> computeQuery ps = computeQuery (the before) then Inr s
      else set_runs_query dmc (computeQuery ps) s)"

text \<open>A change of the UI properties: the params are computed again and, if they differ, the query.\<close>

definition ui_changed :: "param option \<Rightarrow> runs_state \<Rightarrow> runs_result" where
  "ui_changed dmc s =
     (case computedQueryChanged dmc s of
        Inl es \<Rightarrow> Inl es
      | Inr s' \<Rightarrow> queryParamsChanged dmc (the (rs_queryParams s')) (rs_queryParams s) s')"

definition updateQueryParams :: "param option \<Rightarrow> params \<Rightarrow> runs_state \<Rightarrow> runs_result" where
  "updateQueryParams dmc ps s =
     (case getUIBatchUpdate ps of
        Inl e \<Rightarrow> Inl (e, s)
      | Inr u \<Rightarrow> ui_changed dmc (set_properties u s))"

definition set_products :: "param option \<Rightarrow> product list \<Rightarrow> runs_state \<Rightarrow> runs_result" where
  "set_products dmc ps s =
     (let s = s\<lparr>rs_products := ps\<rparr>
      in if rs_dontReact s then Inr s
         else ui_changed dmc (s\<lparr>rs_ui := (rs_ui s)\<lparr>productSpecs := Some (map (getSpec True) ps)\<rparr>\<rparr>))"

definition set_productSpecs :: "param option \<Rightarrow> string list \<Rightarrow> runs_state \<Rightarrow> runs_result" where
  "set_productSpecs dmc specs s =
     (let s = s\<lparr>rs_ui := (rs_ui s)\<lparr>productSpecs := Some specs\<rparr>\<rparr>
      in if rs_dontReact s then ui_changed dmc s
         else (case map_throw parseProductSpec specs of
                 Inl e \<Rightarrow> Inl (e, s)
               | Inr ps \<Rightarrow> ui_changed dmc (s\<lparr>rs_products := ps\<rparr>)))"

definition clear_ui :: "ui_query \<Rightarrow> ui_query" where
  "clear_ui ui =
     ui\<lparr>productSpecs := Some DefaultProductSpecs, label_list := Some [], maxCount := None, shas := Some [], aligned := False\<rparr>"

definition clearQuery :: "param option \<Rightarrow> runs_state \<Rightarrow> runs_result" where
  "clearQuery dmc s =
     (case map_throw parseProductSpec DefaultProductSpecs of
        Inl e \<Rightarrow> Inl (e, s)
      | Inr ps \<Rightarrow>
          (let s' = s\<lparr>rs_ui := clear_ui (rs_ui s)\<rparr>
           in ui_changed dmc (if rs_dontReact s then s' else s'\<lparr>rs_products := ps\<rparr>)))"

definition computeProducts :: "string list option \<Rightarrow> string + product list option" where
  "computeProducts specs =
     (case specs of
        None \<Rightarrow> Inr None
      | Some ss \<Rightarrow> (case map_throw parseProductSpec ss of Inl e \<Rightarrow> Inl e | Inr ps \<Rightarrow> Inr (Some ps)))"

text \<open>Other properties of the query: labels, branch, revisions, dates, search and so on.\<close>

datatype ui_field =
  SetShas "string list" | SetAligned bool | SetMaster bool | SetLabels "string list"
  | SetFrom "string option" | SetTo "string option" | SetMaxCount "param option" | SetSearch string | SetDiff bool

fun set_field :: "ui_field \<Rightarrow> ui_query \<Rightarrow> ui_query" where
  "set_field (SetShas x) ui = ui\<lparr>shas := Some x\<rparr>"
| "set_field (SetAligned x) ui = ui\<lparr>aligned := x\<rparr>"
| "set_field (SetMaster x) ui = ui\<lparr>master := x\<rparr>"
| "set_field (SetLabels x) ui = ui\<lparr>label_list := Some x\<rparr>"
| "set_field (SetFrom x) ui = ui\<lparr>from_date := x\<rparr>"
| "set_field (SetTo x) ui = ui\<lparr>to_date := x\<rparr>"
| "set_field (SetMaxCount x) ui = ui\<lparr>maxCount := x\<rparr>"
| "set_field (SetSearch x) ui = ui\<lparr>search_text := x\<rparr>"
| "set_field (SetDiff x) ui = ui\<lparr>diff := x\<rparr>"

definition set_ui :: "param option \<Rightarrow> ui_field \<Rightarrow> runs_state \<Rightarrow> runs_result" where
  "set_ui dmc f s = ui_changed dmc (s\<lparr>rs_ui := set_field f (rs_ui s)\<rparr>)"

text \<open>\<open>sha\<close> is the first of the revisions.\<close>

definition get_sha :: "runs_state \<Rightarrow> string" where
  "get_sha s = (case shas (rs_ui s) of Some (x # _) \<Rightarrow> if x = [] then ''latest'' else x | _ \<Rightarrow> ''latest'')"

text \<open>\<open>ready\<close>: initial specs become products, and the params are expanded.\<close>

definition query_ready :: "param option \<Rightarrow> runs_state \<Rightarrow> runs_result" where
  "query_ready dmc s =
     (case (if rs_products s = [] then map_throw parseProductSpec (case productSpecs (rs_ui s) of None \<Rightarrow> [] | Some specs \<Rightarrow> specs)
            else Inr (rs_products s)) of
        Inl e \<Rightarrow> Inl (e, s)
      | Inr ps \<Rightarrow>
          (let s = s\<lparr>rs_products := ps\<rparr>
           in case rs_queryParams s of
                None \<Rightarrow> clearQuery dmc s
              | Some params \<Rightarrow> updateQueryParams dmc params s))"

text \<open>Whether there are products or runs to ask the server for.\<close>

definition runs_to_fetch :: "runs_state \<Rightarrow> bool" where
  "runs_to_fetch s =
     ((case productSpecs (rs_ui s) of None \<Rightarrow> False | Some specs \<Rightarrow> specs \<noteq> []) \<or>
      (case runIds (rs_ui s) of None \<Rightarrow> False | Some ids \<Rightarrow> ids \<noteq> []))"

section \<open>Products and specs agree\<close>

definition products_agree :: "runs_state \<Rightarrow> bool" where
  "products_agree s \<longleftrightarrow>
     (\<exists>qs. map_throw parseProductSpec (case productSpecs (rs_ui s) of None \<Rightarrow> [] | Some specs \<Rightarrow> specs) = Inr qs \<and>
        map canonical qs = map canonical (rs_products s))"

definition params_computed :: "param option \<Rightarrow> runs_state \<Rightarrow> bool" where
  "params_computed dmc s \<longleftrightarrow> (\<exists>ps. rs_queryParams s = Some ps \<and> computed_params dmc s = Inr ps)"

definition runs_state_ok :: "param option \<Rightarrow> runs_state \<Rightarrow> bool" where
  "runs_state_ok dmc s \<longleftrightarrow> products_agree s \<and> params_computed dmc s \<and> \<not> rs_dontReact s"

lemma update_parsed: "getUIBatchUpdate ps = Inr u \<Longrightarrow> map_throw parseProductSpec (b_productSpecs u) = Inr (b_products u)"
  by (auto simp: getUIBatchUpdate_def getBatchUpdate_def Let_def batch_update.defs split: sum.splits)

lemma set_properties_agree: "getUIBatchUpdate ps = Inr u \<Longrightarrow> products_agree (set_properties u s)"
  using update_parsed [of ps u] by (simp add: products_agree_def set_properties_def Let_def)

lemma products_agree_cong:
  "rs_ui s' = rs_ui s \<Longrightarrow> rs_products s' = rs_products s \<Longrightarrow> products_agree s' = products_agree s"
  by (simp add: products_agree_def)

lemma products_agree_simps [simp]:
  "products_agree (s\<lparr>rs_queryParams := x\<rparr>) = products_agree s" "products_agree (s\<lparr>rs_query := q\<rparr>) = products_agree s"
  "products_agree (s\<lparr>rs_dontReact := b\<rparr>) = products_agree s"
  "params_computed dmc (s\<lparr>rs_query := q\<rparr>) = params_computed dmc s"
  "params_computed dmc (s\<lparr>rs_dontReact := b\<rparr>) = params_computed dmc s"
  by (simp_all add: products_agree_def params_computed_def computed_params_def)

lemma computed_ok:
  "computedQueryChanged dmc s = Inr s' \<Longrightarrow>
   params_computed dmc s' \<and> products_agree s' = products_agree s \<and> rs_dontReact s' = rs_dontReact s \<and> rs_query s' = rs_query s"
  by (auto simp: computedQueryChanged_def params_computed_def computed_params_def Let_def split: sum.splits)

lemma queryChanged_ok: "runs_queryChanged dmc q s = Inr s' \<Longrightarrow> runs_state_ok dmc s \<Longrightarrow> runs_state_ok dmc s'"
  by (auto simp: runs_queryChanged_def update_quietly_def runs_state_ok_def set_properties_agree dest: computed_ok
    split: if_splits sum.splits)

lemma set_runs_query_ok: "set_runs_query dmc q s = Inr s' \<Longrightarrow> runs_state_ok dmc s \<Longrightarrow> runs_state_ok dmc s'"
  by (auto simp: set_runs_query_def runs_state_ok_def split: if_splits option.splits dest: queryChanged_ok [unfolded runs_state_ok_def])

lemma ui_changed_ok:
  assumes "ui_changed dmc s = Inr s'" and "products_agree s" and "\<not> rs_dontReact s"
  shows "runs_state_ok dmc s'"
proof -
  obtain s1 where s1: "computedQueryChanged dmc s = Inr s1" using assms(1) by (auto simp: ui_changed_def split: sum.splits)
  with computed_ok [OF this] assms(2,3) have ok: "runs_state_ok dmc s1" by (simp add: runs_state_ok_def)
  show ?thesis
    using assms(1) ok by (auto simp: ui_changed_def s1 queryParamsChanged_def dest: set_runs_query_ok split: if_splits)
qed

lemma canonical_idem [simp]: "canonical (canonical p) = canonical p"
  by (auto simp: canonical_def truthy_def split: option.splits)

lemma parse_specifiable_all:
  "list_all specifiable ps \<Longrightarrow> map_throw parseProductSpec (map (getSpec True) ps) = Inr (map canonical ps)"
  by (induction ps) (auto simp: parse_specifiable)

lemma set_products_ok:
  assumes "set_products dmc ps s = Inr s'" and "runs_state_ok dmc s" and "list_all specifiable ps"
  shows "runs_state_ok dmc s'"
proof (rule ui_changed_ok)
  let ?s = "s\<lparr>rs_products := ps, rs_ui := (rs_ui s)\<lparr>productSpecs := Some (map (getSpec True) ps)\<rparr>\<rparr>"
  show "ui_changed dmc ?s = Inr s'" using assms(1,2) by (simp add: set_products_def Let_def runs_state_ok_def)
  show "products_agree ?s" using parse_specifiable_all [OF assms(3)] by (simp add: products_agree_def comp_def)
  show "\<not> rs_dontReact ?s" using assms(2) by (simp add: runs_state_ok_def)
qed

lemma set_productSpecs_ok:
  assumes "set_productSpecs dmc specs s = Inr s'" and "runs_state_ok dmc s"
  shows "runs_state_ok dmc s'"
proof -
  have flag: "\<not> rs_dontReact s" using assms(2) by (simp add: runs_state_ok_def)
  obtain ps where ps: "map_throw parseProductSpec specs = Inr ps"
    and s': "ui_changed dmc (s\<lparr>rs_ui := (rs_ui s)\<lparr>productSpecs := Some specs\<rparr>, rs_products := ps\<rparr>) = Inr s'"
    using assms(1) flag unfolding set_productSpecs_def Let_def by (cases "map_throw parseProductSpec specs") auto
  show ?thesis
    by (rule ui_changed_ok [OF s']) (use ps flag in \<open>simp_all add: products_agree_def\<close>)
qed

lemma clearQuery_ok:
  assumes "clearQuery dmc s = Inr s'" and "\<not> rs_dontReact s"
  shows "runs_state_ok dmc s'"
proof -
  obtain ps where ps: "map_throw parseProductSpec DefaultProductSpecs = Inr ps"
    and s': "ui_changed dmc (s\<lparr>rs_ui := clear_ui (rs_ui s), rs_products := ps\<rparr>) = Inr s'"
    using assms unfolding clearQuery_def Let_def by (cases "map_throw parseProductSpec DefaultProductSpecs") auto
  show ?thesis
    by (rule ui_changed_ok [OF s']) (use ps assms(2) in \<open>simp_all add: products_agree_def clear_ui_def\<close>)
qed

lemma set_field_specs [simp]: "productSpecs (set_field f ui) = productSpecs ui"
  by (cases f) simp_all

lemma set_ui_ok:
  assumes "set_ui dmc f s = Inr s'" and "runs_state_ok dmc s"
  shows "runs_state_ok dmc s'"
  by (rule ui_changed_ok [OF assms(1) [unfolded set_ui_def]])
    (use assms(2) in \<open>simp_all add: runs_state_ok_def products_agree_def\<close>)

lemma set_properties_flag [simp]: "rs_dontReact (set_properties u s) = rs_dontReact s"
  by (simp add: set_properties_def Let_def)

lemma updateQueryParams_ok:
  assumes "updateQueryParams dmc ps s = Inr s'" and "\<not> rs_dontReact s"
  shows "runs_state_ok dmc s'"
proof -
  obtain u where u: "getUIBatchUpdate ps = Inr u" "ui_changed dmc (set_properties u s) = Inr s'"
    using assms(1) by (auto simp: updateQueryParams_def split: sum.splits)
  show ?thesis by (rule ui_changed_ok [OF u(2) set_properties_agree [OF u(1)]]) (use assms(2) in simp)
qed

lemma query_ready_ok:
  assumes "query_ready dmc s = Inr s'" and "\<not> rs_dontReact s"
  shows "runs_state_ok dmc s'"
proof -
  obtain ps where ps: "(case rs_queryParams s of None \<Rightarrow> clearQuery dmc (s\<lparr>rs_products := ps\<rparr>)
      | Some params \<Rightarrow> updateQueryParams dmc params (s\<lparr>rs_products := ps\<rparr>)) = Inr s'"
    using assms(1) by (auto simp: query_ready_def Let_def split: sum.splits)
  show ?thesis
  proof (cases "rs_queryParams s")
    case None
    show ?thesis by (rule clearQuery_ok [of dmc "s\<lparr>rs_products := ps\<rparr>"]) (use ps None assms(2) in simp_all)
  next
    case (Some params)
    show ?thesis by (rule updateQueryParams_ok [of dmc params "s\<lparr>rs_products := ps\<rparr>"]) (use ps Some assms(2) in simp_all)
  qed
qed

section \<open>The life of a query\<close>

inductive runs_reachable :: "param option \<Rightarrow> runs_state \<Rightarrow> bool" for dmc where
  ready: "\<not> rs_dontReact s \<Longrightarrow> query_ready dmc s = Inr s' \<Longrightarrow> runs_reachable dmc s'"
| query: "runs_reachable dmc s \<Longrightarrow> set_runs_query dmc q s = Inr s' \<Longrightarrow> runs_reachable dmc s'"
| products: "runs_reachable dmc s \<Longrightarrow> list_all specifiable ps \<Longrightarrow> set_products dmc ps s = Inr s' \<Longrightarrow> runs_reachable dmc s'"
| specs: "runs_reachable dmc s \<Longrightarrow> set_productSpecs dmc specs s = Inr s' \<Longrightarrow> runs_reachable dmc s'"
| ui_field: "runs_reachable dmc s \<Longrightarrow> set_ui dmc f s = Inr s' \<Longrightarrow> runs_reachable dmc s'"
| clear: "runs_reachable dmc s \<Longrightarrow> clearQuery dmc s = Inr s' \<Longrightarrow> runs_reachable dmc s'"

text \<open>
  C26: as long as no exception occurs, whatever is done to products, specs, query and other properties, the
  products are those that the specs denote and the params are the ones computed from the properties; the
  element always reacts to the next change.
\<close>

theorem runs_query_consistent:
  assumes "runs_reachable dmc s"
  shows "runs_state_ok dmc s"
  using assms
proof (induction rule: runs_reachable.induct)
  case (ready s s')
  then show ?case by (simp add: query_ready_ok)
next
  case (query s q s')
  then show ?case by (simp add: set_runs_query_ok)
next
  case (products s ps s')
  then show ?case by (simp add: set_products_ok)
next
  case (specs s specs s')
  then show ?case by (simp add: set_productSpecs_ok)
next
  case (ui_field s f s')
  then show ?case by (simp add: set_ui_ok)
next
  case (clear s s')
  then have "\<not> rs_dontReact s" by (simp add: runs_state_ok_def)
  with clear(2) show ?case by (rule clearQuery_ok)
qed

section \<open>After an exception\<close>

lemma failed_query_flag: "runs_queryChanged dmc q s = Inl (e, s') \<Longrightarrow> rs_dontReact s'"
  by (auto simp: runs_queryChanged_def update_quietly_def computedQueryChanged_def set_properties_def Let_def
    split: if_splits sum.splits)

text \<open>
  C27: a query whose products cannot be read leaves the element deaf: afterwards a change of the products
  does not reach specs, params or query, and a change of the query changes nothing but the query.
\<close>

theorem bad_query_freezes:
  assumes "set_runs_query dmc q s = Inl (e, s')"
  shows "(\<forall>ps. set_products dmc ps s' = Inr (s'\<lparr>rs_products := ps\<rparr>)) \<and>
    (\<forall>q'. set_runs_query dmc q' s' = Inr (s'\<lparr>rs_query := q'\<rparr>))"
proof -
  have flag: "rs_dontReact s'"
    using assms failed_query_flag by (auto simp: set_runs_query_def split: if_splits option.splits)
  have "set_runs_query dmc q' s' = Inr (s'\<lparr>rs_query := q'\<rparr>)" for q'
  proof (cases "rs_query s' = q'")
    case True
    then show ?thesis by (auto simp: set_runs_query_def)
  next
    case False
    then show ?thesis using flag by (cases q') (auto simp: set_runs_query_def runs_queryChanged_def)
  qed
  then show ?thesis using flag by (simp add: set_products_def Let_def)
qed

definition fresh_runs :: runs_state where
  "fresh_runs =
     \<lparr>rs_ui = \<lparr>shas = None, aligned = False, master = False, label_list = None, productSpecs = None, to_date = None,
        from_date = None, maxCount = None, offset = None, view = None, search_text = [], diff = False,
        diffFilter = None, pr = None, runIds = None\<rparr>,
      rs_products = [], rs_canViewInteropScores = False, rs_query = None, rs_queryParams = None, rs_dontReact = False\<rparr>"

lemma ready_fresh: "case query_ready None fresh_runs of Inl _ \<Rightarrow> False | Inr s \<Rightarrow> True"
  by code_simp

definition ready_runs :: runs_state where
  "ready_runs = (case query_ready None fresh_runs of Inl _ \<Rightarrow> fresh_runs | Inr s \<Rightarrow> s)"

theorem runs_query_consistent_witness: "runs_state_ok None ready_runs"
proof (rule runs_query_consistent)
  have "query_ready None fresh_runs = Inr ready_runs"
    using ready_fresh by (cases "query_ready None fresh_runs") (auto simp: ready_runs_def)
  then show "runs_reachable None ready_runs" by (rule runs_reachable.ready [rotated]) (simp add: fresh_runs_def)
qed

lemma bad_query_sample: "case set_runs_query None (Some ''product=chrome['') fresh_runs of Inl _ \<Rightarrow> True | Inr s \<Rightarrow> False"
  by code_simp

definition frozen_runs :: "string \<times> runs_state" where
  "frozen_runs = (case set_runs_query None (Some ''product=chrome['') fresh_runs of Inl es \<Rightarrow> es | Inr s \<Rightarrow> ([], s))"

theorem bad_query_freezes_witness:
  "(\<forall>ps. set_products None ps (snd frozen_runs) = Inr ((snd frozen_runs)\<lparr>rs_products := ps\<rparr>)) \<and>
   (\<forall>q'. set_runs_query None q' (snd frozen_runs) = Inr ((snd frozen_runs)\<lparr>rs_query := q'\<rparr>))"
proof (rule bad_query_freezes)
  show "set_runs_query None (Some ''product=chrome['') fresh_runs = Inl (fst frozen_runs, snd frozen_runs)"
    using bad_query_sample by (cases "set_runs_query None (Some ''product=chrome['') fresh_runs") (auto simp: frozen_runs_def)
qed

text \<open>A date stays when the query that named it is replaced by one without.\<close>

lemma stale_date:
  "(case set_runs_query None (Some ''from=2020-01-01'') fresh_runs of
      Inl _ \<Rightarrow> None
    | Inr s \<Rightarrow> (case set_runs_query None (Some ''label=master'') s of Inl _ \<Rightarrow> None | Inr s \<Rightarrow> from_date (rs_ui s))) =
   Some ''2020-01-01''"
  by code_simp

end
