(* ===== verification/RunsPage.thy ===== *)
theory RunsPage
  imports RunsTable LoadingState RunsQueryState
begin

text \<open>
  \<^verbatim>\<open>webapp/components/wpt-runs.js\<close>, third part: the life of the page of runs. It composes the element with
  the query (\<open>RunsQueryState\<close>), the loader of runs and of further pages (\<open>TestRunsLoader\<close>), the counting of
  loads (\<open>LoadingState\<close>) and the rendered table (\<open>RunsTable\<close>): the first runs are asked for when the page is
  opened and when another query is submitted, a further page when the user has scrolled to the end, and
  the answers arrive in any order.
\<close>

section \<open>State\<close>

text \<open>
  What a pending promise is for. \<open>FirstRuns\<close> says whether it is the load of \<open>ready\<close>, and keeps what \<open>loadRuns\<close>
  has read before its \<open>await\<close>. \<open>NoPage\<close> is a call of \<open>loadMoreRuns\<close> without a token.
\<close>

datatype runs_request = FirstRuns bool bool "test_run list" | MorePage string | NoPage

text \<open>
  \<open>rp_triggered\<close> belongs to the element \<open>iron-scroll-threshold\<close>: it says once that the end was reached, and not
  again before its triggers are cleared.
\<close>

record runs_session =
  rp_query :: runs_state
  rp_page :: runs_page
  rp_loads :: "string loader"
  rp_pending :: "(nat \<times> runs_request) list"
  rp_next :: nat
  rp_triggered :: bool

definition put_runs_query :: "runs_state \<Rightarrow> runs_session \<Rightarrow> runs_session" where
  "put_runs_query s p = p\<lparr>rp_query := s, rp_page := (rp_page p)\<lparr>page_query := rs_query s\<rparr>\<rparr>"

section \<open>Loads\<close>

definition start_request :: "runs_request \<Rightarrow> runs_session \<Rightarrow> runs_session" where
  "start_request r p =
     p\<lparr>rp_loads := load_start (rp_next p) False (rp_loads p),
       rp_pending := (rp_next p, r) # rp_pending p, rp_next := rp_next p + 1\<rparr>"

fun runs_call :: "runs_page \<Rightarrow> string load_call \<Rightarrow> runs_page" where
  "runs_call st (ErrHandler k e) = st"
| "runs_call st Complete = onRunsComplete st"

definition settle_request :: "nat \<Rightarrow> string option \<Rightarrow> runs_session \<Rightarrow> runs_session" where
  "settle_request k rejection p =
     (let st = load_settle k rejection (rp_loads p);
          new_calls = drop (length (calls (rp_loads p))) (calls st)
      in p\<lparr>rp_loads := st, rp_pending := filter (\<lambda>kr. fst kr \<noteq> k) (rp_pending p),
           rp_page := foldl runs_call (rp_page p) new_calls\<rparr>)"

definition load_first_runs :: "bool \<Rightarrow> runs_session \<Rightarrow> runs_session" where
  "load_first_runs opening p =
     start_request (FirstRuns opening (runs_to_fetch (rp_query p)) (runs_of (page_loader (rp_page p)))) p"

text \<open>\<open>ready\<close>; if the query throws there, nothing is loaded.\<close>

definition runs_page_ready :: "param option \<Rightarrow> runs_session \<Rightarrow> runs_session" where
  "runs_page_ready dmc p =
     (case query_ready dmc (rp_query p) of
        Inl (e, s) \<Rightarrow> put_runs_query s p
      | Inr s \<Rightarrow> load_first_runs True (put_runs_query s p))"

section \<open>Submitting a query\<close>

text \<open>
  The builder is closed and the token taken away before the params are taken over, which may throw. A query that
  is the same loads nothing.
\<close>

definition submit_runs_query :: "param option \<Rightarrow> params \<Rightarrow> runs_session \<Rightarrow> runs_session" where
  "submit_runs_query dmc ps p =
     (case updateQueryParams dmc ps (rp_query p) of
        Inl (e, s) \<Rightarrow>
          put_runs_query s
            (p\<lparr>rp_page := (rp_page p)\<lparr>editingQuery := False, page_loader := (page_loader (rp_page p))\<lparr>nextPageToken := None\<rparr>\<rparr>\<rparr>)
      | Inr s \<Rightarrow>
          (let (st, loads) = handleSubmitQuery (rs_query s) (rp_page p);
               p = p\<lparr>rp_query := s, rp_page := st\<rparr>
           in if loads then load_first_runs False p else p))"

section \<open>Scrolling\<close>

definition set_loader :: "runs_loader \<Rightarrow> runs_session \<Rightarrow> runs_session" where
  "set_loader ld p = p\<lparr>rp_page := (rp_page p)\<lparr>page_loader := ld\<rparr>\<rparr>"

definition handleLoadNextPage :: "runs_session \<Rightarrow> runs_session" where
  "handleLoadNextPage p =
     (let ld = page_loader (rp_page p)
      in start_request (if truthy (nextPageToken ld) then MorePage (the (nextPageToken ld)) else NoPage)
           (set_loader (loadMoreRuns_start ld) p))"

definition lower_threshold :: "runs_session \<Rightarrow> runs_session" where
  "lower_threshold p = (if rp_triggered p then p else handleLoadNextPage (p\<lparr>rp_triggered := True\<rparr>))"

definition resetScrollThreshold :: "runs_session \<Rightarrow> runs_session" where
  "resetScrollThreshold p = p\<lparr>rp_triggered := False\<rparr>"

section \<open>Answers\<close>

text \<open>The runs come after those that were preloaded; then the observer of \<open>testRuns\<close> makes the rows.\<close>

definition first_runs_answered ::
  "zone \<Rightarrow> int \<Rightarrow> nat \<Rightarrow> bool \<Rightarrow> bool \<Rightarrow> test_run list \<Rightarrow> runs_answer \<Rightarrow> runs_session \<Rightarrow> runs_session" where
  "first_runs_answered tz now k opening has_query preloaded ans p =
     (case loadRuns has_query ans ((page_loader (rp_page p))\<lparr>testRuns := Some preloaded\<rparr>) of
        None \<Rightarrow> settle_request k (Some ''TypeError: Failed to fetch'') p
      | Some (ld, runs) \<Rightarrow>
          (let p = p\<lparr>rp_page := runs_arrived tz now ld (rp_page p)\<rparr>
           in settle_request k None (if opening then resetScrollThreshold p else p)))"

text \<open>A further page: the request fails, is answered with an error status, or with runs and a token.\<close>

datatype page_answer = PageLost | PageNotOk | PageRuns "test_run list" "string option"

definition more_runs_answered ::
  "zone \<Rightarrow> int \<Rightarrow> nat \<Rightarrow> string \<Rightarrow> page_answer \<Rightarrow> runs_session \<Rightarrow> runs_session" where
  "more_runs_answered tz now k token ans p =
     (let ld = page_loader (rp_page p)
      in case ans of
           PageLost \<Rightarrow>
             settle_request k (Some ''TypeError: Failed to fetch'') (set_loader (loadMoreRuns_answer token None ld) p)
         | PageNotOk \<Rightarrow> settle_request k None (set_loader (loadMoreRuns_answer token None ld) p)
         | PageRuns runs next_token \<Rightarrow>
             (let p = p\<lparr>rp_page :=
                runs_arrived tz now (loadMoreRuns_answer token (Some (runs, next_token)) ld) (rp_page p)\<rparr>
              in settle_request k None (if runs \<noteq> [] then resetScrollThreshold p else p)))"

section \<open>Events\<close>

text \<open>An answer comes with the time when it arrives; one to a promise that is not pending does not happen.\<close>

datatype runs_event =
  FirstAnswer nat int runs_answer | PageAnswer nat int page_answer | PageSkipped nat
| ScrollEnd | SubmitQuery params | RunsClick runs_click

fun runs_handle :: "zone \<Rightarrow> param option \<Rightarrow> runs_event \<Rightarrow> runs_session \<Rightarrow> runs_session" where
  "runs_handle tz dmc (FirstAnswer k now ans) p =
     (case map_of (rp_pending p) k of
        Some (FirstRuns opening has pre) \<Rightarrow> first_runs_answered tz now k opening has pre ans p | _ \<Rightarrow> p)"
| "runs_handle tz dmc (PageAnswer k now ans) p =
     (case map_of (rp_pending p) k of Some (MorePage token) \<Rightarrow> more_runs_answered tz now k token ans p | _ \<Rightarrow> p)"
| "runs_handle tz dmc (PageSkipped k) p =
     (case map_of (rp_pending p) k of Some NoPage \<Rightarrow> settle_request k None p | _ \<Rightarrow> p)"
| "runs_handle tz dmc ScrollEnd p = lower_threshold p"
| "runs_handle tz dmc (SubmitQuery ps) p = submit_runs_query dmc ps p"
| "runs_handle tz dmc (RunsClick c) p =
     (case runs_click_page c (rp_page p) of Inl st \<Rightarrow> p\<lparr>rp_page := st\<rparr> | Inr url \<Rightarrow> p)"

definition new_runs_session :: "runs_state \<Rightarrow> runs_session" where
  "new_runs_session q =
     put_runs_query q
     \<lparr>rp_query = q,
      rp_page = \<lparr>page_loader = \<lparr>testRuns = None, nextPageToken = None, displayedProducts = [], pages_in_flight = [], load_events = []\<rparr>,
        testRunsBySHA = None, browsers = [], loadingFailed = False, noResults = False, editingQuery = False,
        selectedRuns = [], run_marked = (\<lambda>_. False), runs_toast = False, page_query = None\<rparr>,
      rp_loads = \<lparr>loadingCount = 0, has_callback = True, in_flight = [], calls = []\<rparr>,
      rp_pending = [], rp_next = 0, rp_triggered = False\<rparr>"

text \<open>Sessions of a page that has opened with a query that does not throw.\<close>

inductive runs_session_of :: "zone \<Rightarrow> param option \<Rightarrow> runs_session \<Rightarrow> bool" for tz dmc where
  opened: "query_ready dmc q = Inr s \<Longrightarrow> runs_session_of tz dmc (runs_page_ready dmc (new_runs_session q))"
| event: "runs_session_of tz dmc p \<Longrightarrow> runs_session_of tz dmc (runs_handle tz dmc e p)"

text \<open>The page as it is rendered: the query and the loads are those of the session.\<close>

definition render_session :: "runs_env \<Rightarrow> runs_session \<Rightarrow> runs_html list option" where
  "render_session env p =
     render_runs (env\<lparr>re_query := rs_ui (rp_query p), re_isLoading := computeIsLoading (loadingCount (rp_loads p))\<rparr>)
       (rp_page p)"

section \<open>What holds in every session\<close>

definition rows_ok :: "zone \<Rightarrow> runs_page \<Rightarrow> bool" where
  "rows_ok tz st \<longleftrightarrow>
     (case testRuns (page_loader st) of
        None \<Rightarrow> testRunsBySHA st = None
      | Some runs \<Rightarrow> (\<exists>now rows. testRunsLoaded tz now runs = (rows, browsers st) \<and> testRunsBySHA st = Some rows))"

definition banners_ok :: "runs_page \<Rightarrow> bool" where
  "banners_ok st \<longleftrightarrow> loadingFailed st = (testRunsBySHA st = None) \<and> noResults st = (testRunsBySHA st = Some [])"

text \<open>\<open>mid_ok\<close> also holds in the middle of a step, before a promise settles or starts.\<close>

definition mid_ok :: "zone \<Rightarrow> runs_session \<Rightarrow> bool" where
  "mid_ok tz p \<longleftrightarrow> tracks (rp_loads p) (rp_pending p) (rp_next p) \<and> rows_ok tz (rp_page p)"

definition session_ok :: "zone \<Rightarrow> runs_session \<Rightarrow> bool" where
  "session_ok tz p \<longleftrightarrow> mid_ok tz p \<and> (rp_pending p = [] \<longrightarrow> banners_ok (rp_page p))"

lemma loaded_nothing [simp]: "testRunsLoaded tz now [] = ([], [])"
  by (simp add: testRunsLoaded_def own_order_def js_sort_Nil Let_def)

lemma no_rows: "rows_ok tz st \<Longrightarrow> testRunsBySHA st = Some [] \<longleftrightarrow> testRuns (page_loader st) = Some []"
  by (auto simp: rows_ok_def split: option.splits dest: runs_table)

lemma no_rows_none: "rows_ok tz st \<Longrightarrow> testRunsBySHA st = None \<longleftrightarrow> testRuns (page_loader st) = None"
  by (auto simp: rows_ok_def split: option.splits)

lemma rows_arrived: "rows_ok tz st \<Longrightarrow> testRuns ld \<noteq> None \<Longrightarrow> rows_ok tz (runs_arrived tz now ld st)"
  by (auto simp: rows_ok_def runs_arrived_def split: prod.split)

lemma rows_loader [simp]: "testRuns ld = testRuns (page_loader st) \<Longrightarrow> rows_ok tz (st\<lparr>page_loader := ld\<rparr>) = rows_ok tz st"
  by (simp add: rows_ok_def split: option.split)

lemma runs_unchanged [simp]:
  "testRuns (loadMoreRuns_start ld) = testRuns ld" "testRuns (loadMoreRuns_answer token None ld) = testRuns ld"
  by (simp_all add: loadMoreRuns_start_def loadMoreRuns_answer_def)

lemma rows_simps [simp]:
  "rows_ok tz (st\<lparr>page_query := q\<rparr>) = rows_ok tz st" "rows_ok tz (st\<lparr>editingQuery := b\<rparr>) = rows_ok tz st"
  "rows_ok tz (handleSelectRun rid st) = rows_ok tz st" "rows_ok tz (onRunsComplete st) = rows_ok tz st"
  "banners_ok (st\<lparr>page_query := q\<rparr>) = banners_ok st" "banners_ok (st\<lparr>editingQuery := b\<rparr>) = banners_ok st"
  "banners_ok (st\<lparr>page_loader := ld\<rparr>) = banners_ok st" "banners_ok (handleSelectRun rid st) = banners_ok st"
  "banners_ok (onRunsComplete st)"
  by (simp_all add: rows_ok_def banners_ok_def handleSelectRun_def onRunsComplete_def Let_def split: option.split)

lemma rows_calls [simp]: "rows_ok tz (foldl runs_call st cs) = rows_ok tz st"
proof (induction cs arbitrary: st)
  case (Cons c cs)
  then show ?case by (cases c) simp_all
qed simp

lemma okD: "session_ok tz p \<Longrightarrow> mid_ok tz p"
  by (simp add: session_ok_def)

lemma mid_simps [simp]:
  "mid_ok tz (p\<lparr>rp_triggered := b\<rparr>) = mid_ok tz p" "mid_ok tz (p\<lparr>rp_query := q\<rparr>) = mid_ok tz p"
  "mid_ok tz (p\<lparr>rp_query := q, rp_page := st\<rparr>) = mid_ok tz (p\<lparr>rp_page := st\<rparr>)"
  by (simp_all add: mid_ok_def)

lemma mid_page: "mid_ok tz p \<Longrightarrow> rows_ok tz st \<Longrightarrow> mid_ok tz (p\<lparr>rp_page := st\<rparr>)"
  by (simp add: mid_ok_def)

lemma mid_rows: "mid_ok tz p \<Longrightarrow> rows_ok tz (rp_page p)"
  by (simp add: mid_ok_def)

lemma mid_loader: "mid_ok tz p \<Longrightarrow> testRuns ld = testRuns (page_loader (rp_page p)) \<Longrightarrow> mid_ok tz (set_loader ld p)"
  by (simp add: mid_ok_def set_loader_def)

lemma pending_page [simp]:
  "rp_pending (set_loader ld p) = rp_pending p" "rp_pending (resetScrollThreshold p) = rp_pending p"
  "mid_ok tz (resetScrollThreshold p) = mid_ok tz p"
  by (simp_all add: set_loader_def resetScrollThreshold_def)

lemma ok_settle:
  assumes "mid_ok tz p" and k: "map_of (rp_pending p) k = Some rq"
  shows "session_ok tz (settle_request k r p)"
proof -
  have t: "tracks (rp_loads p) (rp_pending p) (rp_next p)" using assms(1) by (simp add: mid_ok_def)
  from tracks_settle(2) [OF t k, of r] have "banners_ok (rp_page (settle_request k r p))"
    if "filter (\<lambda>kr. fst kr \<noteq> k) (rp_pending p) = []"
    using that by (auto simp: settle_request_def Let_def)
  with assms(1) tracks_settle(1) [OF t k, of r] show ?thesis
    by (simp add: session_ok_def mid_ok_def settle_request_def Let_def)
qed

lemma ok_start: "mid_ok tz p \<Longrightarrow> session_ok tz (start_request r p)"
  by (simp add: session_ok_def mid_ok_def start_request_def tracks_start)

lemma ok_submit:
  assumes "session_ok tz p"
  shows "session_ok tz (submit_runs_query dmc ps p)"
proof (cases "updateQueryParams dmc ps (rp_query p)")
  case (Inl es)
  with assms show ?thesis
    by (cases es) (simp add: submit_runs_query_def put_runs_query_def session_ok_def mid_ok_def)
next
  case (Inr s)
  show ?thesis
  proof (cases "page_query (rp_page p) = rs_query s")
    case True
    with Inr assms show ?thesis by (simp add: submit_runs_query_def handleSubmitQuery_def session_ok_def mid_ok_def)
  next
    case False
    with Inr assms show ?thesis
      by (auto simp: submit_runs_query_def handleSubmitQuery_def load_first_runs_def rows_ok_def
        intro!: ok_start mid_page dest: okD)
  qed
qed

lemma ok_scroll: "session_ok tz p \<Longrightarrow> session_ok tz (lower_threshold p)"
  by (auto simp: lower_threshold_def handleLoadNextPage_def Let_def intro!: ok_start mid_loader dest: okD)

lemma ok_first:
  assumes "session_ok tz p" and "map_of (rp_pending p) k = Some rq"
  shows "session_ok tz (first_runs_answered tz now k opening has pre ans p)"
proof (cases "loadRuns has ans ((page_loader (rp_page p))\<lparr>testRuns := Some pre\<rparr>)")
  case None
  with assms show ?thesis by (auto simp: first_runs_answered_def intro: ok_settle okD)
next
  case (Some r)
  obtain ld runs where r: "r = (ld, runs)" by force
  then have "testRuns ld \<noteq> None"
    using Some by (auto simp: loadRuns_def fireTestRunsLoadEvent_def Let_def split: if_splits runs_answer.splits)
  with assms Some r show ?thesis
    by (auto simp: first_runs_answered_def Let_def intro!: ok_settle mid_page rows_arrived mid_rows dest: okD)
qed

lemma ok_more:
  assumes "session_ok tz p" and "map_of (rp_pending p) k = Some rq"
  shows "session_ok tz (more_runs_answered tz now k token ans p)"
proof -
  have "\<exists>rs. testRuns (loadMoreRuns_answer token (Some (runs, t)) ld) = Some rs" for runs t ld
    by (simp add: loadMoreRuns_answer_def fireTestRunsLoadEvent_def Let_def)
  with assms show ?thesis
    by (auto simp: more_runs_answered_def Let_def split: page_answer.split
      intro!: ok_settle mid_page mid_loader rows_arrived mid_rows dest: okD)
qed

lemma ok_click: "session_ok tz p \<Longrightarrow> runs_click_page c (rp_page p) = Inl st \<Longrightarrow> session_ok tz (p\<lparr>rp_page := st\<rparr>)"
  by (auto simp: session_ok_def mid_ok_def runs_click_page_def toggleBuilder_def split: runs_click.splits)

lemma ok_session: "runs_session_of tz dmc p \<Longrightarrow> session_ok tz p"
proof (induction rule: runs_session_of.induct)
  case (opened q s)
  then show ?case
    by (auto simp: runs_page_ready_def new_runs_session_def put_runs_query_def load_first_runs_def mid_ok_def tracks_new rows_ok_def
      intro!: ok_start)
next
  case (event p e)
  show ?case
  proof (cases e)
    case (FirstAnswer k now ans)
    with event.IH show ?thesis by (auto simp: ok_first split: option.split runs_request.split)
  next
    case (PageAnswer k now ans)
    with event.IH show ?thesis by (auto simp: ok_more split: option.split runs_request.split)
  next
    case (PageSkipped k)
    with event.IH show ?thesis
      by (auto split: option.split runs_request.split intro: ok_settle okD)
  next
    case (RunsClick c)
    with event.IH show ?thesis by (auto simp: ok_click split: sum.split)
  qed (simp_all add: ok_submit ok_scroll event.IH)
qed

section \<open>A new query while the page is in use\<close>

text \<open>A query that is another one: the runs are taken away and the load is pending.\<close>

lemma submit_changed:
  assumes "updateQueryParams dmc ps (rp_query p) = Inr s" and "page_query (rp_page p) \<noteq> rs_query s"
  shows "rp_pending (submit_runs_query dmc ps p) = (rp_next p, FirstRuns False (runs_to_fetch s) []) # rp_pending p"
    and "testRuns (page_loader (rp_page (submit_runs_query dmc ps p))) = Some []"
    and "rp_triggered (submit_runs_query dmc ps p) = rp_triggered p"
  using assms
  by (simp_all add: submit_runs_query_def handleSubmitQuery_def load_first_runs_def start_request_def)

lemma settle_simps [simp]:
  "rp_pending (settle_request k r p) = filter (\<lambda>kr. fst kr \<noteq> k) (rp_pending p)"
  "rp_triggered (settle_request k r p) = rp_triggered p"
  by (simp_all add: settle_request_def Let_def)

lemma calls_loader [simp]: "page_loader (foldl runs_call st cs) = page_loader st"
proof (induction cs arbitrary: st)
  case (Cons c cs)
  then show ?case by (cases c) (simp_all add: onRunsComplete_def)
qed simp

lemma settle_loader [simp]: "page_loader (rp_page (settle_request k r p)) = page_loader (rp_page p)"
  by (simp add: settle_request_def Let_def)

lemma arrived_loader [simp]: "page_loader (runs_arrived tz now ld st) = ld"
  by (simp add: runs_arrived_def Let_def split: option.split prod.split)

lemma map_of_others: "k \<noteq> j \<Longrightarrow> map_of (filter (\<lambda>kr. fst kr \<noteq> j) xs) k = map_of xs k"
  by (induction xs) auto

text \<open>
  When the request for the runs of another query fails, the page says that there are no results,
  not that loading has failed: the runs were taken away before, which counts as having none.
\<close>

lemma failed_reload_is_empty:
  assumes ok: "session_ok tz p" and rest: "rp_pending p = []"
    and new: "updateQueryParams dmc ps (rp_query p) = Inr s" "page_query (rp_page p) \<noteq> rs_query s" and "runs_to_fetch s"
    and p': "p' = runs_handle tz dmc (FirstAnswer (rp_next p) now NetworkError) (submit_runs_query dmc ps p)"
  shows "rp_pending p' = [] \<and> \<not> loadingFailed (rp_page p') \<and> noResults (rp_page p')"
proof -
  let ?q = "submit_runs_query dmc ps p"
  have k: "map_of (rp_pending ?q) (rp_next p) = Some (FirstRuns False True [])"
    using assms(5) by (simp add: submit_changed(1) [OF new])
  have p'_eq: "p' = settle_request (rp_next p) (Some ''TypeError: Failed to fetch'') ?q"
    using k by (simp add: p' first_runs_answered_def loadRuns_def)
  have ok': "session_ok tz p'"
    unfolding p'_eq using ok_submit [OF ok, of dmc ps] k by (auto intro: ok_settle okD)
  have "rp_pending p' = []" "testRuns (page_loader (rp_page p')) = Some []"
    using rest by (simp_all add: p'_eq submit_changed [OF new])
  moreover have "rows_ok tz (rp_page p')" using ok' by (auto dest: okD mid_rows)
  ultimately show ?thesis
    using ok' no_rows [of tz "rp_page p'"] by (auto simp: session_ok_def banners_ok_def)
qed

text \<open>
  The trigger of the element that watches the scrolling is cleared when the page has opened and when
  a further page brings runs, but not after another query: once the end of the runs was reached, no
  further page of the runs of another query is ever asked for.
\<close>

lemma new_query_cannot_scroll:
  assumes "rp_triggered p"
    and "updateQueryParams dmc ps (rp_query p) = Inr s" "page_query (rp_page p) \<noteq> rs_query s"
    and p': "p' = runs_handle tz dmc (FirstAnswer (rp_next p) now ans) (submit_runs_query dmc ps p)"
  shows "runs_handle tz dmc ScrollEnd p' = p'"
proof -
  have "rp_triggered p'"
    using assms(1) by (simp add: p' first_runs_answered_def submit_changed [OF assms(2,3)] Let_def split: option.split prod.split)
  then show ?thesis by (simp add: lower_threshold_def)
qed

text \<open>
  A page of the old runs that is still on its way when another query is submitted ends up among the runs of the
  new one, and so does its token.
\<close>

lemma stale_page:
  assumes old: "map_of (rp_pending p) k = Some (MorePage token)" "k \<noteq> rp_next p"
    and new: "updateQueryParams dmc ps (rp_query p) = Inr s" "page_query (rp_page p) \<noteq> rs_query s" and "runs_to_fetch s"
    and p1: "p1 = runs_handle tz dmc (FirstAnswer (rp_next p) now (RunsOk (RunArray (a # as)) tok)) (submit_runs_query dmc ps p)"
    and p2: "p2 = runs_handle tz dmc (PageAnswer k now' (PageRuns stale tok')) p1"
  shows "runs_of (page_loader (rp_page p1)) = a # as \<and>
    runs_of (page_loader (rp_page p2)) = butlast (a # as) @ stale @ [last (a # as)] \<and>
    nextPageToken (page_loader (rp_page p2)) = tok'"
proof -
  let ?q = "submit_runs_query dmc ps p"
  have first: "runs_of (page_loader (rp_page p1)) = a # as"
    using assms(5) by (simp add: p1 first_runs_answered_def submit_changed [OF new] loadRuns_def body_runs_def
      fireTestRunsLoadEvent_def resetScrollThreshold_def Let_def)
  have "map_of (rp_pending p1) k = Some (MorePage token)"
    using old assms(5) by (simp add: p1 first_runs_answered_def submit_changed [OF new] loadRuns_def
      fireTestRunsLoadEvent_def Let_def map_of_others)
  then have "page_loader (rp_page p2) = loadMoreRuns_answer token (Some (stale, tok')) (page_loader (rp_page p1))"
    by (simp add: p2 more_runs_answered_def resetScrollThreshold_def Let_def)
  moreover have "nextPageToken (loadMoreRuns_answer token (Some (stale, tok')) (page_loader (rp_page p1))) = tok'"
    by (simp add: loadMoreRuns_answer_def Let_def)
  ultimately show ?thesis
    using first more_runs_before_last [of "page_loader (rp_page p1)" token stale tok'] by simp
qed

section \<open>Properties\<close>

text \<open>
  C37: What the page of runs says. In every session, in whatever order answers arrive and whenever queries are
  submitted, the page renders, and it is loading exactly as long as a promise is pending. Once none is, the
  spinner is off, and the page shows exactly one of three things: that loading has failed, if no runs have ever
  arrived; that there are no results; or the table with the element that watches the scrolling.
\<close>

theorem runs_page_settles:
  assumes "runs_session_of tz dmc p"
  shows "\<exists>html. render_session env p = Some html \<and>
    (computeIsLoading (loadingCount (rp_loads p)) \<longleftrightarrow> rp_pending p \<noteq> []) \<and>
    (rp_pending p = [] \<longrightarrow>
      Comp (Spinner False) \<in> set html \<and>
      (Comp (RunsInfo ''error'' ''Failed to load test runs.'') \<in> set html \<longleftrightarrow> testRuns (page_loader (rp_page p)) = None) \<and>
      (Comp (RunsInfo ''info'' ''No results.'') \<in> set html \<longleftrightarrow> testRuns (page_loader (rp_page p)) = Some []) \<and>
      (Comp ScrollThreshold \<in> set html \<longleftrightarrow> runs_of (page_loader (rp_page p)) \<noteq> []))"
proof -
  let ?env = "env\<lparr>re_query := rs_ui (rp_query p), re_isLoading := computeIsLoading (loadingCount (rp_loads p))\<rparr>"
  have ok: "session_ok tz p" by (rule ok_session [OF assms])
  have rows: "rows_ok tz (rp_page p)" by (rule mid_rows [OF okD [OF ok]])
  have load: "computeIsLoading (loadingCount (rp_loads p)) \<longleftrightarrow> rp_pending p \<noteq> []"
    using okD [OF ok] by (auto simp: mid_ok_def dest: tracks_loading)
  obtain html where html: "render_runs ?env (rp_page p) = Some html" using render_total by blast
  obtain toast banner where parts: "runs_toast_html (rp_page p) = Some toast" "range_banner ?env = Some banner"
    "html = toast # banner @ runs_messages ?env (rp_page p) @
       (if nonempty_list (testRuns (page_loader (rp_page p))) then [runs_table_html ?env (rp_page p), Comp ScrollThreshold] else []) @
       [Comp (Spinner (computeIsLoadingFirstRuns (re_isLoading ?env) (testRuns (page_loader (rp_page p)))))]"
    using html by (auto simp: render_runs_def split: option.splits)
  have plain: "toast \<noteq> Comp c" "Comp c \<in> set banner \<Longrightarrow> \<exists>msg. c = RunsInfo [] msg" for c
    using parts(1,2) by (auto simp: runs_toast_html_def range_banner_def split: if_splits)
  have "runs_table_html ?env (rp_page p) \<noteq> Comp c" "Comp c \<noteq> runs_table_html ?env (rp_page p)" for c
    by (simp_all add: runs_table_html_def)
  moreover have "nonempty_list (testRuns (page_loader (rp_page p))) \<longleftrightarrow> runs_of (page_loader (rp_page p)) \<noteq> []"
    by (auto simp: nonempty_list_def split: option.split list.split)
  moreover have "loadingFailed (rp_page p) \<longleftrightarrow> testRuns (page_loader (rp_page p)) = None"
      "noResults (rp_page p) \<longleftrightarrow> testRuns (page_loader (rp_page p)) = Some []" if "rp_pending p = []"
    using ok that no_rows [OF rows] no_rows_none [OF rows] by (simp_all add: session_ok_def banners_ok_def)
  ultimately show ?thesis
    using html load plain(1) plain(2) [of "Spinner False"] plain(2) [of ScrollThreshold]
      plain(2) [of "RunsInfo ''error'' ''Failed to load test runs.''"] plain(2) [of "RunsInfo ''info'' ''No results.''"]
    by (intro exI [of _ html]) (auto simp: render_session_def parts(3) runs_messages_def computeIsLoadingFirstRuns_def)
qed

definition opened_session :: runs_session where
  "opened_session = runs_page_ready None (new_runs_session fresh_runs)"

definition loaded_session :: runs_session where
  "loaded_session = runs_handle (\<lambda>_. 0) None (FirstAnswer 0 1600000000000 (RunsOk (RunArray sample_runs) None)) opened_session"

lemma sample_fetches: "case query_ready None fresh_runs of Inl _ \<Rightarrow> False | Inr s \<Rightarrow> runs_to_fetch s"
  by code_simp

lemma sample_sessions:
  "runs_session_of (\<lambda>_. 0) None opened_session" "runs_session_of (\<lambda>_. 0) None loaded_session"
  "rp_pending opened_session \<noteq> []" "rp_pending loaded_session = []"
  "testRuns (page_loader (rp_page loaded_session)) = Some sample_runs"
proof -
  obtain s where s: "query_ready None fresh_runs = Inr s" "runs_to_fetch s"
    using sample_fetches by (cases "query_ready None fresh_runs") auto
  have q: "rp_query (new_runs_session fresh_runs) = fresh_runs" by (simp add: new_runs_session_def put_runs_query_def)
  show o: "runs_session_of (\<lambda>_. 0) None opened_session"
    unfolding opened_session_def by (rule runs_session_of.opened [OF s(1)])
  then show "runs_session_of (\<lambda>_. 0) None loaded_session"
    unfolding loaded_session_def by (rule runs_session_of.event)
  have p: "rp_pending opened_session = [(0, FirstRuns True True [])]" "testRuns (page_loader (rp_page opened_session)) = None"
    using s(2) by (simp_all add: opened_session_def runs_page_ready_def q s(1) load_first_runs_def start_request_def
      put_runs_query_def new_runs_session_def)
  then show "rp_pending opened_session \<noteq> []" by simp
  show "rp_pending loaded_session = []" "testRuns (page_loader (rp_page loaded_session)) = Some sample_runs"
    by (simp_all add: loaded_session_def p first_runs_answered_def loadRuns_def body_runs_def fireTestRunsLoadEvent_def
      resetScrollThreshold_def Let_def)
qed

theorem runs_page_settles_witness:
  "computeIsLoading (loadingCount (rp_loads opened_session)) \<and> \<not> computeIsLoading (loadingCount (rp_loads loaded_session)) \<and>
   (\<exists>html. render_session sample_env loaded_session = Some html \<and> Comp ScrollThreshold \<in> set html \<and>
      Comp (RunsInfo ''info'' ''No results.'') \<notin> set html)"
  using runs_page_settles [OF sample_sessions(1), of sample_env] runs_page_settles [OF sample_sessions(2), of sample_env]
    sample_sessions(3-5) by (auto simp: sample_runs_def)



end
