(* ===== verification/InteropData.thy ===== *)
theory InteropData
  imports JsNumber
begin

text \<open>
  \<^verbatim>\<open>webapp/components/interop-data.js\<close>: for each year of the Interop project, its focus areas, its
  investigations and the sections of its tables.
\<close>

record focus_area =
  fa_description :: string
  fa_counts :: bool
  fa_mdn :: string
  fa_spec :: string
  fa_tests :: string
  fa_mobile_tests :: "string option"
  fa_labels :: "string list"

record table_section =
  ts_name :: string
  ts_score_as_group :: bool
  ts_previous_investigation :: bool
  ts_rows :: "string list"

text \<open>An investigation; its scores are per mille, with the dates from which they hold.\<close>

record investigation =
  inv_name :: string
  inv_url :: string
  scores_over_time :: "(string \<times> rat) list"

record year_info =
  yi_browsers :: "string list option"
  yi_mobile_browsers :: "string list option"
  table_sections :: "table_section list"
  investigation_scores :: "investigation list option"
  investigation_weight :: "rat option"
  mobile_table_sections :: "table_section list option"
  mobile_focus_areas :: "string list option"
  csv_url :: string
  mobile_csv_url :: "string option"
  summary_feature_name :: string
  issue_url :: "string option"
  focus_areas_description :: "string option"
  matrix_url :: "string option"
  focus_areas :: "focus_area obj"

definition focus_areas_2021 :: "focus_area obj" where
  "focus_areas_2021 =
     [(''interop-2021-aspect-ratio'',
        \<lparr>fa_description = ''Aspect Ratio'', fa_counts = True,
          fa_mdn = ''https://developer.mozilla.org/docs/Web/CSS/aspect-ratio'',
          fa_spec = ''https://drafts.csswg.org/css-sizing/#aspect-ratio'',
          fa_tests = ''/results/?label=master&product=chrome&product=firefox&product=safari&aligned&view=interop&q=label%3Ainterop-2021-aspect-ratio'',
          fa_mobile_tests = None,
          fa_labels = [''interop-2021-aspect-ratio'']\<rparr>),
      (''interop-2021-flexbox'',
        \<lparr>fa_description = ''Flexbox'', fa_counts = True,
          fa_mdn = ''https://developer.mozilla.org/docs/Learn/CSS/CSS_layout/Flexbox'',
          fa_spec = ''https://drafts.csswg.org/css-flexbox/'',
          fa_tests = ''/results/css/css-flexbox?label=master&product=chrome&product=firefox&product=safari&aligned&view=interop&q=label%3Ainterop-2021-flexbox'',
          fa_mobile_tests = None,
          fa_labels = [''interop-2021-flexbox'']\<rparr>),
      (''interop-2021-grid'',
        \<lparr>fa_description = ''Grid'', fa_counts = True,
          fa_mdn = ''https://developer.mozilla.org/docs/Web/CSS/grid'',
          fa_spec = ''https://drafts.csswg.org/css-grid-1/'',
          fa_tests = ''/results/css/css-grid?label=master&product=chrome&product=firefox&product=safari&aligned&view=interop&q=label%3Ainterop-2021-grid'',
          fa_mobile_tests = None,
          fa_labels = [''interop-2021-grid'']\<rparr>),
      (''interop-2021-position-sticky'',
        \<lparr>fa_description = ''Sticky Positioning'', fa_counts = True,
          fa_mdn = ''https://developer.mozilla.org/docs/Web/CSS/position'',
          fa_spec = ''https://drafts.csswg.org/css-position/#position-property'',
          fa_tests = ''/results/css/css-position/sticky?label=master&product=chrome&product=firefox&product=safari&aligned&view=interop&q=label%3Ainterop-2021-position-sticky'',
          fa_mobile_tests = None,
          fa_labels = [''interop-2021-position-sticky'']\<rparr>),
      (''interop-2021-transforms'',
        \<lparr>fa_description = ''Transforms'', fa_counts = True,
          fa_mdn = ''https://developer.mozilla.org/docs/Web/CSS/transform'',
          fa_spec = ''https://drafts.csswg.org/css-transforms/'',
          fa_tests = ''/results/css/css-transforms?label=master&product=chrome&product=firefox&product=safari&aligned&view=interop&q=label%3Ainterop-2021-transforms'',
          fa_mobile_tests = None,
          fa_labels = [''interop-2021-transforms'']\<rparr>)]"

definition year_2021 :: year_info where
  "year_2021 =
     \<lparr>yi_browsers = None,
      yi_mobile_browsers = None,
      table_sections = [
        \<lparr>ts_name = ''2021 Focus Areas'', ts_score_as_group = False, ts_previous_investigation = False,
         ts_rows =
           [''interop-2021-aspect-ratio'', ''interop-2021-flexbox'', ''interop-2021-grid'',
            ''interop-2021-transforms'', ''interop-2021-position-sticky'']\<rparr>],
      investigation_scores = None,
      investigation_weight = None,
      mobile_table_sections = None,
      mobile_focus_areas = None,
      csv_url = ''/static/interop-2021-{stable|experimental}.csv'',
      mobile_csv_url = None,
      summary_feature_name = ''summary'',
      issue_url = None,
      focus_areas_description = None,
      matrix_url = Some (''https://matrix.to/#/#interop20xx:matrix.org?web-instance%5Belement.io%5D=app.element.io''),
      focus_areas = focus_areas_2021\<rparr>"

definition focus_areas_2022_a :: "focus_area obj" where
  "focus_areas_2022_a =
     [(''interop-2021-aspect-ratio'',
        \<lparr>fa_description = ''Aspect Ratio'', fa_counts = True,
          fa_mdn = ''https://developer.mozilla.org/docs/Web/CSS/aspect-ratio'',
          fa_spec = ''https://drafts.csswg.org/css-sizing/#aspect-ratio'',
          fa_tests = ''/results/?label=master&product=chrome&product=firefox&product=safari&aligned&view=interop&q=label%3Ainterop-2021-aspect-ratio'',
          fa_mobile_tests = None,
          fa_labels = [''interop-2021-aspect-ratio'']\<rparr>),
      (''interop-2021-flexbox'',
        \<lparr>fa_description = ''Flexbox'', fa_counts = True,
          fa_mdn = ''https://developer.mozilla.org/docs/Learn/CSS/CSS_layout/Flexbox'',
          fa_spec = ''https://drafts.csswg.org/css-flexbox/'',
          fa_tests = ''/results/css/css-flexbox?label=master&product=chrome&product=firefox&product=safari&aligned&view=interop&q=label%3Ainterop-2021-flexbox'',
          fa_mobile_tests = None,
          fa_labels = [''interop-2021-flexbox'']\<rparr>),
      (''interop-2021-grid'',
        \<lparr>fa_description = ''Grid'', fa_counts = True,
          fa_mdn = ''https://developer.mozilla.org/docs/Web/CSS/grid'',
          fa_spec = ''https://drafts.csswg.org/css-grid-1/'',
          fa_tests = ''/results/css/css-grid?label=master&product=chrome&product=firefox&product=safari&aligned&view=interop&q=label%3Ainterop-2021-grid'',
          fa_mobile_tests = None,
          fa_labels = [''interop-2021-grid'']\<rparr>),
      (''interop-2021-position-sticky'',
        \<lparr>fa_description = ''Sticky Positioning'', fa_counts = True,
          fa_mdn = ''https://developer.mozilla.org/docs/Web/CSS/position'',
          fa_spec = ''https://drafts.csswg.org/css-position/#position-property'',
          fa_tests = ''/results/css/css-position/sticky?label=master&product=chrome&product=firefox&product=safari&aligned&view=interop&q=label%3Ainterop-2021-position-sticky'',
          fa_mobile_tests = None,
          fa_labels = [''interop-2021-position-sticky'']\<rparr>),
      (''interop-2021-transforms'',
        \<lparr>fa_description = ''Transforms'', fa_counts = True,
          fa_mdn = ''https://developer.mozilla.org/docs/Web/CSS/transform'',
          fa_spec = ''https://drafts.csswg.org/css-transforms/'',
          fa_tests = ''/results/css/css-transforms?label=master&product=chrome&product=firefox&product=safari&aligned&view=interop&q=label%3Ainterop-2021-transforms'',
          fa_mobile_tests = None,
          fa_labels = [''interop-2021-transforms'']\<rparr>),
      (''interop-2022-cascade'',
        \<lparr>fa_description = ''Cascade Layers'', fa_counts = True,
          fa_mdn = ''https://developer.mozilla.org/docs/Web/CSS/@layer'',
          fa_spec = ''https://drafts.csswg.org/css-cascade/#layering'',
          fa_tests = ''/results/css/css-cascade?label=master&product=chrome&product=firefox&product=safari&aligned&view=interop&q=label%3Ainterop-2022-cascade'',
          fa_mobile_tests = None,
          fa_labels = [''interop-2022-cascade'']\<rparr>),
      (''interop-2022-color'',
        \<lparr>fa_description = ''Color Spaces and Functions'', fa_counts = True,
          fa_mdn = ''https://developer.mozilla.org/docs/Web/CSS/color_value'',
          fa_spec = ''https://drafts.csswg.org/css-color/'',
          fa_tests = ''/results/css/css-color?label=master&product=chrome&product=firefox&product=safari&aligned&view=interop&q=label%3Ainterop-2022-color'',
          fa_mobile_tests = None,
          fa_labels = [''interop-2022-color'']\<rparr>),
      (''interop-2022-contain'',
        \<lparr>fa_description = ''Containment'', fa_counts = True,
          fa_mdn = ''https://developer.mozilla.org/docs/Web/CSS/contain'',
          fa_spec = ''https://drafts.csswg.org/css-contain/#contain-property'',
          fa_tests = ''/results/css/css-contain?label=master&product=chrome&product=firefox&product=safari&aligned&view=interop&q=label%3Ainterop-2022-contain'',
          fa_mobile_tests = None,
          fa_labels = [''interop-2022-contain'']\<rparr>),
      (''interop-2022-dialog'',
        \<lparr>fa_description = ''Dialog Element'', fa_counts = True,
          fa_mdn = ''https://developer.mozilla.org/docs/Web/HTML/Element/dialog'',
          fa_spec = ''https://html.spec.whatwg.org/multipage/interactive-elements.html#the-dialog-element'',
          fa_tests = ''/results/?label=master&product=chrome&product=firefox&product=safari&aligned&view=interop&q=label%3Ainterop-2022-dialog'',
          fa_mobile_tests = None,
          fa_labels = [''interop-2022-dialog'']\<rparr>),
      (''interop-2022-forms'',
        \<lparr>fa_description = ''Forms'', fa_counts = True,
          fa_mdn = ''https://developer.mozilla.org/docs/Web/HTML/Element/form'',
          fa_spec = ''https://html.spec.whatwg.org/multipage/forms.html#the-form-element'',
          fa_tests = ''/results/?label=master&product=chrome&product=firefox&product=safari&aligned&view=interop&q=label%3Ainterop-2022-forms'',
          fa_mobile_tests = None,
          fa_labels = [''interop-2022-forms'']\<rparr>),
      (''interop-2022-scrolling'',
        \<lparr>fa_description = ''Scrolling'', fa_counts = True,
          fa_mdn = ''https://developer.mozilla.org/docs/Web/CSS/overflow'',
          fa_spec = ''https://drafts.csswg.org/css-overflow/#propdef-overflow'',
          fa_tests = ''/results/css?label=master&product=chrome&product=firefox&product=safari&aligned&view=interop&q=label%3Ainterop-2022-scrolling'',
          fa_mobile_tests = None,
          fa_labels = [''interop-2022-scrolling'']\<rparr>),
      (''interop-2022-subgrid'',
        \<lparr>fa_description = ''Subgrid'', fa_counts = True,
          fa_mdn = ''https://developer.mozilla.org/docs/Web/CSS/CSS_Grid_Layout/Subgrid'',
          fa_spec = ''https://drafts.csswg.org/css-grid-2/#subgrids'',
          fa_tests = ''/results/css/css-grid/subgrid?label=master&product=chrome&product=firefox&product=safari&aligned&view=interop&q=label%3Ainterop-2022-subgrid'',
          fa_mobile_tests = None,
          fa_labels = [''interop-2022-subgrid'']\<rparr>),
      (''interop-2022-text'',
        \<lparr>fa_description = ''Typography and Encodings'', fa_counts = True,
          fa_mdn = [],
          fa_spec = [],
          fa_tests = ''/results/?label=master&product=chrome&product=firefox&product=safari&aligned&view=interop&q=label%3Ainterop-2022-text'',
          fa_mobile_tests = None,
          fa_labels = [''interop-2022-text'']\<rparr>),
      (''interop-2022-viewport'',
        \<lparr>fa_description = ''Viewport Units'', fa_counts = True,
          fa_mdn = [],
          fa_spec = ''https://drafts.csswg.org/css-values/#viewport-relative-units'',
          fa_tests = ''/results/css/css-values?label=master&product=chrome&product=firefox&product=safari&aligned&view=interop&q=label%3Ainterop-2022-viewport'',
          fa_mobile_tests = None,
          fa_labels = [''interop-2022-viewport'']\<rparr>)]"

definition focus_areas_2022_b :: "focus_area obj" where
  "focus_areas_2022_b =
     [(''interop-2022-webcompat'',
        \<lparr>fa_description = ''Web Compat'', fa_counts = True,
          fa_mdn = [],
          fa_spec = [],
          fa_tests = ''/results/?label=master&product=chrome&product=firefox&product=safari&aligned&view=interop&q=label%3Ainterop-2022-webcompat'',
          fa_mobile_tests = None,
          fa_labels = [''interop-2022-webcompat'']\<rparr>)]"

definition year_2022 :: year_info where
  "year_2022 =
     \<lparr>yi_browsers = None,
      yi_mobile_browsers = None,
      table_sections = [
        \<lparr>ts_name = ''2022 Focus Areas'', ts_score_as_group = False, ts_previous_investigation = False,
         ts_rows =
           [''interop-2021-aspect-ratio'', ''interop-2022-cascade'', ''interop-2022-color'',
            ''interop-2022-contain'', ''interop-2022-dialog'', ''interop-2021-flexbox'', ''interop-2022-forms'',
            ''interop-2021-grid'', ''interop-2022-scrolling'', ''interop-2021-position-sticky'',
            ''interop-2022-subgrid'', ''interop-2022-text'', ''interop-2021-transforms'',
            ''interop-2022-viewport'', ''interop-2022-webcompat'']\<rparr>,
        \<lparr>ts_name = ''2022 Investigations'', ts_score_as_group = True, ts_previous_investigation = False,
         ts_rows =
           [''Editing, contenteditable, and execCommand'', ''Pointer and Mouse Events'', ''Viewport Measurement'']\<rparr>],
      investigation_scores = Some [
        \<lparr>inv_name = ''Editing, contenteditable, and execCommand'', inv_url = ''https://github.com/web-platform-tests/interop-2022-editing'',
         scores_over_time =
           [(''2022-10-22'', 360), (''2022-11-25'', 460), (''2022-12-15'', 520)]\<rparr>,
        \<lparr>inv_name = ''Pointer and Mouse Events'', inv_url = ''https://github.com/web-platform-tests/interop-2022-pointer'',
         scores_over_time =
           [(''2022-12-01'', 790), (''2022-12-14'', 1000)]\<rparr>,
        \<lparr>inv_name = ''Viewport Measurement'', inv_url = ''https://github.com/web-platform-tests/interop-2022-viewport'',
         scores_over_time =
           [(''2022-09-28'', 600), (''2022-12-14'', 900)]\<rparr>],
      investigation_weight = Some (1 / 10),
      mobile_table_sections = None,
      mobile_focus_areas = None,
      csv_url = ''/static/interop-2022-{stable|experimental}.csv'',
      mobile_csv_url = None,
      summary_feature_name = ''summary'',
      issue_url = Some (''https://github.com/web-platform-tests/interop/issues/new''),
      focus_areas_description = None,
      matrix_url = None,
      focus_areas = focus_areas_2022_a @ focus_areas_2022_b\<rparr>"

definition focus_areas_2023_a :: "focus_area obj" where
  "focus_areas_2023_a =
     [(''interop-2021-aspect-ratio'',
        \<lparr>fa_description = ''Aspect Ratio'', fa_counts = False,
          fa_mdn = ''https://developer.mozilla.org/docs/Web/CSS/aspect-ratio'',
          fa_spec = ''https://drafts.csswg.org/css-sizing/#aspect-ratio'',
          fa_tests = ''/results/?label=master&product=chrome&product=firefox&product=safari&aligned&view=interop&q=label%3Ainterop-2021-aspect-ratio'',
          fa_mobile_tests = None,
          fa_labels = [''interop-2021-aspect-ratio'']\<rparr>),
      (''interop-2021-position-sticky'',
        \<lparr>fa_description = ''Sticky Positioning'', fa_counts = False,
          fa_mdn = ''https://developer.mozilla.org/docs/Web/CSS/position'',
          fa_spec = ''https://drafts.csswg.org/css-position/#position-property'',
          fa_tests = ''/results/css/css-position/sticky?label=master&product=chrome&product=firefox&product=safari&aligned&view=interop&q=label%3Ainterop-2021-position-sticky'',
          fa_mobile_tests = None,
          fa_labels = [''interop-2021-position-sticky'']\<rparr>),
      (''interop-2022-cascade'',
        \<lparr>fa_description = ''Cascade Layers'', fa_counts = False,
          fa_mdn = ''https://developer.mozilla.org/docs/Web/CSS/@layer'',
          fa_spec = ''https://drafts.csswg.org/css-cascade/#layering'',
          fa_tests = ''/results/css/css-cascade?label=master&product=chrome&product=firefox&product=safari&aligned&view=interop&q=label%3Ainterop-2022-cascade'',
          fa_mobile_tests = None,
          fa_labels = [''interop-2022-cascade'']\<rparr>),
      (''interop-2022-dialog'',
        \<lparr>fa_description = ''Dialog Element'', fa_counts = False,
          fa_mdn = ''https://developer.mozilla.org/docs/Web/HTML/Element/dialog'',
          fa_spec = ''https://html.spec.whatwg.org/multipage/interactive-elements.html#the-dialog-element'',
          fa_tests = ''/results/?label=master&product=chrome&product=firefox&product=safari&aligned&view=interop&q=label%3Ainterop-2022-dialog'',
          fa_mobile_tests = None,
          fa_labels = [''interop-2022-dialog'']\<rparr>),
      (''interop-2022-text'',
        \<lparr>fa_description = ''Typography and Encodings'', fa_counts = False,
          fa_mdn = ''https://developer.mozilla.org/docs/Web/CSS/length#relative_length_units_based_on_viewport'',
          fa_spec = [],
          fa_tests = ''/results/?label=master&product=chrome&product=firefox&product=safari&aligned&view=interop&q=label%3Ainterop-2022-text'',
          fa_mobile_tests = None,
          fa_labels = [''interop-2022-text'']\<rparr>),
      (''interop-2022-viewport'',
        \<lparr>fa_description = ''Viewport Units'', fa_counts = False,
          fa_mdn = [],
          fa_spec = ''https://drafts.csswg.org/css-values/#viewport-relative-units'',
          fa_tests = ''/results/css/css-values?label=master&product=chrome&product=firefox&product=safari&aligned&view=interop&q=label%3Ainterop-2022-viewport'',
          fa_mobile_tests = None,
          fa_labels = [''interop-2022-viewport'']\<rparr>),
      (''interop-2022-webcompat'',
        \<lparr>fa_description = ''Web Compat 2022'', fa_counts = False,
          fa_mdn = [],
          fa_spec = [],
          fa_tests = ''/results/?label=master&product=chrome&product=firefox&product=safari&aligned&view=interop&q=label%3Ainterop-2022-webcompat'',
          fa_mobile_tests = None,
          fa_labels = [''interop-2022-webcompat'']\<rparr>),
      (''interop-2023-cssborderimage'',
        \<lparr>fa_description = ''Border Image'', fa_counts = True,
          fa_mdn = ''https://developer.mozilla.org/docs/Web/CSS/border-image'',
          fa_spec = ''https://www.w3.org/TR/css-backgrounds-3/#the-border-image'',
          fa_tests = ''/results/css/css-backgrounds?label=master&product=chrome&product=firefox&product=safari&aligned&view=interop&q=label%3Ainterop-2023-cssborderimage'',
          fa_mobile_tests = None,
          fa_labels = [''interop-2023-cssborderimage'']\<rparr>),
      (''interop-2023-color'',
        \<lparr>fa_description = ''Color Spaces and Functions'', fa_counts = True,
          fa_mdn = ''https://developer.mozilla.org/docs/Web/CSS/color_value'',
          fa_spec = ''https://w3c.github.io/csswg-drafts/css-color/#color-syntax'',
          fa_tests = ''/results/css?label=master&product=chrome&product=firefox&product=safari&aligned&view=interop&q=label%3Ainterop-2022-color%20or%20label%3Ainterop-2023-color'',
          fa_mobile_tests = None,
          fa_labels = [''interop-2022-color'', ''interop-2023-color'']\<rparr>),
      (''interop-2023-container'',
        \<lparr>fa_description = ''Container Queries'', fa_counts = True,
          fa_mdn = ''https://developer.mozilla.org/docs/Web/CSS/CSS_Container_Queries'',
          fa_spec = ''https://drafts.csswg.org/css-contain-3/#container-queries'',
          fa_tests = ''/results/css/css-contain/container-queries?label=master&product=chrome&product=firefox&product=safari&aligned&view=interop&q=label%3Ainterop-2023-container'',
          fa_mobile_tests = None,
          fa_labels = [''interop-2023-container'']\<rparr>),
      (''interop-2023-contain'',
        \<lparr>fa_description = ''Containment'', fa_counts = True,
          fa_mdn = ''https://developer.mozilla.org/docs/Web/CSS/contain'',
          fa_spec = ''https://drafts.csswg.org/css-contain/#contain-property'',
          fa_tests = ''/results/css?label=master&product=chrome&product=firefox&product=safari&aligned&view=interop&q=label%3Ainterop-2022-contain%20or%20label%3Ainterop-2023-contain'',
          fa_mobile_tests = None,
          fa_labels = [''interop-2022-contain'', ''interop-2023-contain'']\<rparr>),
      (''interop-2023-pseudos'',
        \<lparr>fa_description = ''CSS Pseudo-classes'', fa_counts = True,
          fa_mdn = ''https://developer.mozilla.org/docs/Web/CSS/Pseudo-classes'',
          fa_spec = ''https://drafts.csswg.org/selectors/'',
          fa_tests = ''/results/css/selectors?label=master&product=chrome&product=firefox&product=safari&aligned&view=interop&q=label%3Ainterop-2023-pseudos'',
          fa_mobile_tests = None,
          fa_labels = [''interop-2023-pseudos'']\<rparr>),
      (''interop-2023-property'',
        \<lparr>fa_description = ''Custom Properties'', fa_counts = True,
          fa_mdn = ''https://developer.mozilla.org/docs/Web/CSS/@property'',
          fa_spec = ''https://drafts.css-houdini.org/css-properties-values-api/'',
          fa_tests = ''/results/css/css-properties-values-api?label=master&product=chrome&product=firefox&product=safari&aligned&view=interop&q=label%3Ainterop-2023-property'',
          fa_mobile_tests = None,
          fa_labels = [''interop-2023-property'']\<rparr>),
      (''interop-2023-flexbox'',
        \<lparr>fa_description = ''Flexbox'', fa_counts = True,
          fa_mdn = ''https://developer.mozilla.org/docs/Learn/CSS/CSS_layout/Flexbox'',
          fa_spec = ''https://drafts.csswg.org/css-flexbox/'',
          fa_tests = ''/results/css/css-flexbox?label=master&product=chrome&product=firefox&product=safari&aligned&view=interop&q=label%3Ainterop-2021-flexbox%20or%20label%3Ainterop-2023-flexbox'',
          fa_mobile_tests = None,
          fa_labels = [''interop-2021-flexbox'', ''interop-2023-flexbox'']\<rparr>)]"

definition focus_areas_2023_b :: "focus_area obj" where
  "focus_areas_2023_b =
     [(''interop-2023-fonts'',
        \<lparr>fa_description = ''Font Feature Detection and Palettes'', fa_counts = True,
          fa_mdn = ''https://developer.mozilla.org/docs/Web/CSS/font-palette'',
          fa_spec = ''https://drafts.csswg.org/css-fonts-4/#font-palette-prop'',
          fa_tests = ''/results/css?label=master&product=chrome&product=firefox&product=safari&aligned&view=interop&q=label%3Ainterop-2023-fonts'',
          fa_mobile_tests = None,
          fa_labels = [''interop-2023-fonts'']\<rparr>),
      (''interop-2023-forms'',
        \<lparr>fa_description = ''Forms'', fa_counts = True,
          fa_mdn = ''https://developer.mozilla.org/docs/Web/HTML/Element/form'',
          fa_spec = ''https://html.spec.whatwg.org/multipage/forms.html#the-form-element'',
          fa_tests = ''/results/?label=master&product=chrome&product=firefox&product=safari&aligned&view=interop&q=label%3Ainterop-2022-forms%20or%20label%3Ainterop-2023-forms'',
          fa_mobile_tests = None,
          fa_labels = [''interop-2022-forms'', ''interop-2023-forms'']\<rparr>),
      (''interop-2023-grid'',
        \<lparr>fa_description = ''Grid'', fa_counts = True,
          fa_mdn = ''https://developer.mozilla.org/docs/Web/CSS/CSS_Grid_Layout'',
          fa_spec = ''https://drafts.csswg.org/css-grid/'',
          fa_tests = ''/results/css/css-grid?label=master&product=chrome&product=firefox&product=safari&aligned&view=interop&q=label%3Ainterop-2021-grid%20or%20label%3Ainterop-2023-grid'',
          fa_mobile_tests = None,
          fa_labels = [''interop-2021-grid'', ''interop-2023-grid'']\<rparr>),
      (''interop-2023-has'',
        \<lparr>fa_description = '':has()'', fa_counts = True,
          fa_mdn = ''https://developer.mozilla.org/docs/Web/CSS/:has'',
          fa_spec = ''https://drafts.csswg.org/selectors-4/#relational'',
          fa_tests = ''/results/css/selectors?label=master&product=chrome&product=firefox&product=safari&aligned&view=interop&q=label%3Ainterop-2023-has'',
          fa_mobile_tests = None,
          fa_labels = [''interop-2023-has'']\<rparr>),
      (''interop-2023-inert'',
        \<lparr>fa_description = ''Inert'', fa_counts = True,
          fa_mdn = ''https://developer.mozilla.org/docs/Web/HTML/Global_attributes/inert'',
          fa_spec = ''https://html.spec.whatwg.org/multipage/interaction.html#the-inert-attribute'',
          fa_tests = ''/results/inert?label=master&product=chrome&product=firefox&product=safari&aligned&view=interop&q=label%3Ainterop-2023-inert'',
          fa_mobile_tests = None,
          fa_labels = [''interop-2023-inert'']\<rparr>),
      (''interop-2023-cssmasking'',
        \<lparr>fa_description = ''Masking'', fa_counts = True,
          fa_mdn = ''https://developer.mozilla.org/docs/Web/CSS/CSS_Masking'',
          fa_spec = ''https://drafts.fxtf.org/css-masking/'',
          fa_tests = ''/results/css/css-masking?label=master&product=chrome&product=firefox&product=safari&aligned&view=interop&q=label%3Ainterop-2023-cssmasking'',
          fa_mobile_tests = None,
          fa_labels = [''interop-2023-cssmasking'']\<rparr>),
      (''interop-2023-mathfunctions'',
        \<lparr>fa_description = ''CSS Math Functions'', fa_counts = True,
          fa_mdn = ''https://developer.mozilla.org/docs/Web/CSS/CSS_Functions#math_functions'',
          fa_spec = ''https://drafts.csswg.org/css-values-4/#math'',
          fa_tests = ''/results/css/css-values?label=master&product=chrome&product=firefox&product=safari&aligned&view=interop&q=label%3Ainterop-2023-mathfunctions'',
          fa_mobile_tests = None,
          fa_labels = [''interop-2023-mathfunctions'']\<rparr>),
      (''interop-2023-mediaqueries'',
        \<lparr>fa_description = ''Media Queries 4'', fa_counts = True,
          fa_mdn = ''https://developer.mozilla.org/docs/Web/CSS/Media_Queries/Using_media_queries'',
          fa_spec = ''https://www.w3.org/TR/mediaqueries-4/'',
          fa_tests = ''/results/css/mediaqueries?label=master&product=chrome&product=firefox&product=safari&aligned&view=interop&q=label%3Ainterop-2023-mediaqueries'',
          fa_mobile_tests = None,
          fa_labels = [''interop-2023-mediaqueries'']\<rparr>),
      (''interop-2023-modules'',
        \<lparr>fa_description = ''Modules'', fa_counts = True,
          fa_mdn = ''https://developer.mozilla.org/docs/Web/JavaScript/Guide/Modules'',
          fa_spec = ''https://tc39.es/proposal-import-assertions/'',
          fa_tests = ''/results/?label=master&product=chrome&product=firefox&product=safari&aligned&view=interop&q=label%3Ainterop-2023-modules'',
          fa_mobile_tests = None,
          fa_labels = [''interop-2023-modules'']\<rparr>),
      (''interop-2023-motion'',
        \<lparr>fa_description = ''Motion Path'', fa_counts = True,
          fa_mdn = ''https://developer.mozilla.org/docs/Web/CSS/CSS_Motion_Path'',
          fa_spec = ''https://drafts.fxtf.org/motion-1/'',
          fa_tests = ''/results/css/motion?label=master&product=chrome&product=firefox&product=safari&aligned&view=interop&q=label%3Ainterop-2023-motion'',
          fa_mobile_tests = None,
          fa_labels = [''interop-2023-motion'']\<rparr>),
      (''interop-2023-offscreencanvas'',
        \<lparr>fa_description = ''Offscreen Canvas'', fa_counts = True,
          fa_mdn = ''https://developer.mozilla.org/docs/Web/API/OffscreenCanvas'',
          fa_spec = ''https://html.spec.whatwg.org/multipage/canvas.html#the-offscreencanvas-interface'',
          fa_tests = ''/results/?label=master&product=chrome&product=firefox&product=safari&aligned&view=interop&q=label%3Ainterop-2023-offscreencanvas'',
          fa_mobile_tests = None,
          fa_labels = [''interop-2023-offscreencanvas'']\<rparr>),
      (''interop-2023-events'',
        \<lparr>fa_description = ''Pointer and Mouse Events'', fa_counts = True,
          fa_mdn = ''https://developer.mozilla.org/docs/Web/API/Pointer_events'',
          fa_spec = ''https://w3c.github.io/pointerevents/'',
          fa_tests = ''/results/?label=master&product=chrome&product=firefox&product=safari&aligned&view=interop&q=label%3Ainterop-2023-events'',
          fa_mobile_tests = None,
          fa_labels = [''interop-2023-events'']\<rparr>),
      (''interop-2022-scrolling'',
        \<lparr>fa_description = ''Scrolling'', fa_counts = True,
          fa_mdn = ''https://developer.mozilla.org/docs/Web/CSS/overflow'',
          fa_spec = ''https://drafts.csswg.org/css-overflow/#propdef-overflow'',
          fa_tests = ''/results/css?label=master&product=chrome&product=firefox&product=safari&aligned&view=interop&q=label%3Ainterop-2022-scrolling'',
          fa_mobile_tests = None,
          fa_labels = [''interop-2022-scrolling'']\<rparr>),
      (''interop-2022-subgrid'',
        \<lparr>fa_description = ''Subgrid'', fa_counts = True,
          fa_mdn = ''https://developer.mozilla.org/docs/Web/CSS/CSS_Grid_Layout/Subgrid'',
          fa_spec = ''https://drafts.csswg.org/css-grid-2/#subgrids'',
          fa_tests = ''/results/css/css-grid/subgrid?label=master&product=chrome&product=firefox&product=safari&aligned&view=interop&q=label%3Ainterop-2022-subgrid'',
          fa_mobile_tests = None,
          fa_labels = [''interop-2022-subgrid'']\<rparr>)]"

definition focus_areas_2023_c :: "focus_area obj" where
  "focus_areas_2023_c =
     [(''interop-2021-transforms'',
        \<lparr>fa_description = ''Transforms'', fa_counts = True,
          fa_mdn = ''https://developer.mozilla.org/docs/Web/CSS/transform'',
          fa_spec = ''https://drafts.csswg.org/css-transforms/'',
          fa_tests = ''/results/css/css-transforms?label=master&product=chrome&product=firefox&product=safari&aligned&view=interop&q=label%3Ainterop-2021-transforms'',
          fa_mobile_tests = None,
          fa_labels = [''interop-2021-transforms'']\<rparr>),
      (''interop-2023-url'',
        \<lparr>fa_description = ''URL'', fa_counts = True,
          fa_mdn = ''https://developer.mozilla.org/docs/Web/API/URL'',
          fa_spec = ''https://url.spec.whatwg.org'',
          fa_tests = ''/results/url?label=master&product=chrome&product=firefox&product=safari&aligned&view=interop&q=label%3Ainterop-2023-url'',
          fa_mobile_tests = None,
          fa_labels = [''interop-2023-url'']\<rparr>),
      (''interop-2023-webcompat'',
        \<lparr>fa_description = ''Web Compat 2023'', fa_counts = True,
          fa_mdn = [],
          fa_spec = [],
          fa_tests = ''/results/?label=master&product=chrome&product=firefox&product=safari&aligned&view=interop&q=label%3Ainterop-2023-webcompat'',
          fa_mobile_tests = None,
          fa_labels = [''interop-2023-webcompat'']\<rparr>),
      (''interop-2023-webcodecs'',
        \<lparr>fa_description = ''Web Codecs (video)'', fa_counts = True,
          fa_mdn = ''https://developer.mozilla.org/docs/Web/API/WebCodecs_API'',
          fa_spec = ''https://www.w3.org/TR/webcodecs/'',
          fa_tests = ''/results/webcodecs?label=master&product=chrome&product=firefox&product=safari&aligned&view=interop&q=label%3Ainterop-2023-webcodecs'',
          fa_mobile_tests = None,
          fa_labels = [''interop-2023-webcodecs'']\<rparr>),
      (''interop-2023-webcomponents'',
        \<lparr>fa_description = ''Web Components'', fa_counts = True,
          fa_mdn = ''https://developer.mozilla.org/docs/Web/Web_Components'',
          fa_spec = ''https://www.w3.org/wiki/WebComponents/'',
          fa_tests = ''/results/?label=master&product=chrome&product=firefox&product=safari&aligned&view=interop&q=label%3Ainterop-2023-webcomponents'',
          fa_mobile_tests = None,
          fa_labels = [''interop-2023-webcomponents'']\<rparr>)]"

definition year_2023 :: year_info where
  "year_2023 =
     \<lparr>yi_browsers = None,
      yi_mobile_browsers = None,
      table_sections = [
        \<lparr>ts_name = ''Active Focus Areas'', ts_score_as_group = False, ts_previous_investigation = False,
         ts_rows =
           [''interop-2023-cssborderimage'', ''interop-2023-color'', ''interop-2023-container'',
            ''interop-2023-contain'', ''interop-2023-mathfunctions'', ''interop-2023-pseudos'',
            ''interop-2023-property'', ''interop-2023-flexbox'', ''interop-2023-fonts'', ''interop-2023-forms'',
            ''interop-2023-grid'', ''interop-2023-has'', ''interop-2023-inert'', ''interop-2023-cssmasking'',
            ''interop-2023-mediaqueries'', ''interop-2023-modules'', ''interop-2023-motion'',
            ''interop-2023-offscreencanvas'', ''interop-2023-events'', ''interop-2022-scrolling'',
            ''interop-2022-subgrid'', ''interop-2021-transforms'', ''interop-2023-url'',
            ''interop-2023-webcodecs'', ''interop-2023-webcompat'', ''interop-2023-webcomponents'']\<rparr>,
        \<lparr>ts_name = ''Active Investigations'', ts_score_as_group = True, ts_previous_investigation = False,
         ts_rows =
           [''Accessibility Testing'', ''Mobile Testing'']\<rparr>,
        \<lparr>ts_name = ''Previous Focus Areas'', ts_score_as_group = False, ts_previous_investigation = False,
         ts_rows =
           [''interop-2021-aspect-ratio'', ''interop-2022-cascade'', ''interop-2022-dialog'',
            ''interop-2021-position-sticky'', ''interop-2022-text'', ''interop-2022-viewport'',
            ''interop-2022-webcompat'']\<rparr>,
        \<lparr>ts_name = ''Previous Investigations'', ts_score_as_group = True, ts_previous_investigation = True,
         ts_rows =
           [''Editing, contenteditable, and execCommand'', ''Pointer and Mouse Events'', ''Viewport Measurement'']\<rparr>],
      investigation_scores = Some [
        \<lparr>inv_name = ''Accessibility Testing'', inv_url = ''https://github.com/web-platform-tests/interop-accessibility'',
         scores_over_time =
           [(''2023-03-08'', 600), (''2023-05-13'', 700), (''2023-06-27'', 780), (''2023-09-05'', 860),
            (''2023-09-27'', 870), (''2023-10-12'', 910), (''2023-10-13'', 920), (''2023-11-03'', 950),
            (''2023-11-14'', 980), (''2023-11-19'', 1000)]\<rparr>,
        \<lparr>inv_name = ''Mobile Testing'', inv_url = ''https://github.com/web-platform-tests/interop-2023-mobile-testing'',
         scores_over_time =
           [(''2023-06-20'', 400), (''2023-09-26'', 600), (''2023-10-24'', 700)]\<rparr>],
      investigation_weight = Some (0),
      mobile_table_sections = None,
      mobile_focus_areas = None,
      csv_url = ''/static/interop-2023-{stable|experimental}.csv'',
      mobile_csv_url = None,
      summary_feature_name = ''summary'',
      issue_url = Some (''https://github.com/web-platform-tests/interop/issues/new''),
      focus_areas_description = None,
      matrix_url = None,
      focus_areas = focus_areas_2023_a @ focus_areas_2023_b @ focus_areas_2023_c\<rparr>"

definition focus_areas_2024_a :: "focus_area obj" where
  "focus_areas_2024_a =
     [(''interop-2021-aspect-ratio'',
        \<lparr>fa_description = ''Aspect Ratio'', fa_counts = False,
          fa_mdn = ''https://developer.mozilla.org/docs/Web/CSS/aspect-ratio'',
          fa_spec = ''https://drafts.csswg.org/css-sizing/#aspect-ratio'',
          fa_tests = ''/results/?label=master&product=chrome&product=edge&product=firefox&product=safari&aligned&view=interop&q=label%3Ainterop-2021-aspect-ratio'',
          fa_mobile_tests = Some (''/results/?label=master&product=chrome_android&product=firefox_android&aligned&view=interop&q=label%3Ainterop-2021-aspect-ratio''),
          fa_labels = [''interop-2021-aspect-ratio'']\<rparr>),
      (''interop-2021-position-sticky'',
        \<lparr>fa_description = ''Sticky Positioning'', fa_counts = False,
          fa_mdn = ''https://developer.mozilla.org/docs/Web/CSS/position'',
          fa_spec = ''https://drafts.csswg.org/css-position/#position-property'',
          fa_tests = ''/results/css/css-position/sticky?label=master&product=chrome&product=edge&product=firefox&product=safari&aligned&view=interop&q=label%3Ainterop-2021-position-sticky'',
          fa_mobile_tests = Some (''/results/css/css-position/sticky?label=master&product=chrome_android&product=firefox_android&aligned&view=interop&q=label%3Ainterop-2021-position-sticky''),
          fa_labels = [''interop-2021-position-sticky'']\<rparr>),
      (''interop-2022-cascade'',
        \<lparr>fa_description = ''Cascade Layers'', fa_counts = False,
          fa_mdn = ''https://developer.mozilla.org/docs/Web/CSS/@layer'',
          fa_spec = ''https://drafts.csswg.org/css-cascade/#layering'',
          fa_tests = ''/results/css/css-cascade?label=master&product=chrome&product=edge&product=firefox&product=safari&aligned&view=interop&q=label%3Ainterop-2022-cascade'',
          fa_mobile_tests = Some (''/results/css/css-cascade?label=master&product=chrome_android&product=firefox_android&aligned&view=interop&q=label%3Ainterop-2022-cascade''),
          fa_labels = [''interop-2022-cascade'']\<rparr>),
      (''interop-2022-dialog'',
        \<lparr>fa_description = ''Dialog Element'', fa_counts = False,
          fa_mdn = ''https://developer.mozilla.org/docs/Web/HTML/Element/dialog'',
          fa_spec = ''https://html.spec.whatwg.org/multipage/interactive-elements.html#the-dialog-element'',
          fa_tests = ''/results/?label=master&product=chrome&product=edge&product=firefox&product=safari&aligned&view=interop&q=label%3Ainterop-2022-dialog'',
          fa_mobile_tests = Some (''/results/?label=master&product=chrome_android&product=firefox_android&aligned&view=interop&q=label%3Ainterop-2022-dialog''),
          fa_labels = [''interop-2022-dialog'']\<rparr>),
      (''interop-2022-text'',
        \<lparr>fa_description = ''Typography and Encodings'', fa_counts = False,
          fa_mdn = ''https://developer.mozilla.org/docs/Web/CSS/length#relative_length_units_based_on_viewport'',
          fa_spec = [],
          fa_tests = ''/results/?label=master&product=chrome&product=edge&product=firefox&product=safari&aligned&view=interop&q=label%3Ainterop-2022-text'',
          fa_mobile_tests = Some (''/results/?label=master&product=chrome_android&product=firefox_android&aligned&view=interop&q=label%3Ainterop-2022-text''),
          fa_labels = [''interop-2022-text'']\<rparr>),
      (''interop-2022-viewport'',
        \<lparr>fa_description = ''Viewport Units'', fa_counts = False,
          fa_mdn = [],
          fa_spec = ''https://drafts.csswg.org/css-values/#viewport-relative-units'',
          fa_tests = ''/results/css/css-values?label=master&product=chrome&product=edge&product=firefox&product=safari&aligned&view=interop&q=label%3Ainterop-2022-viewport'',
          fa_mobile_tests = Some (''/results/css/css-values?label=master&product=chrome_android&product=firefox_android&aligned&view=interop&q=label%3Ainterop-2022-viewport''),
          fa_labels = [''interop-2022-viewport'']\<rparr>),
      (''interop-2022-webcompat'',
        \<lparr>fa_description = ''Web Compat 2022'', fa_counts = False,
          fa_mdn = [],
          fa_spec = [],
          fa_tests = ''/results/?label=master&product=chrome&product=edge&product=firefox&product=safari&aligned&view=interop&q=label%3Ainterop-2022-webcompat'',
          fa_mobile_tests = Some (''/results/?label=master&product=chrome_android&product=firefox_android&aligned&view=interop&q=label%3Ainterop-2022-webcompat''),
          fa_labels = [''interop-2022-webcompat'']\<rparr>),
      (''interop-2024-accessibility'',
        \<lparr>fa_description = ''Accessibility'', fa_counts = True,
          fa_mdn = ''https://developer.mozilla.org/docs/Glossary/Accessible_name'',
          fa_spec = [],
          fa_tests = ''/results/?label=master&label=experimental&product=chrome&product=edge&product=firefox&product=safari&aligned&view=interop&q=label%3Ainterop-2024-accessibility'',
          fa_mobile_tests = Some (''/results/?label=master&label=experimental&product=chrome_android&product=firefox_android&aligned&view=interop&q=label%3Ainterop-2024-accessibility''),
          fa_labels = [''interop-2024-accessibility'']\<rparr>),
      (''interop-2024-starting-style-transition-behavior'',
        \<lparr>fa_description = ''@starting-style & transition-behavior'', fa_counts = True,
          fa_mdn = ''https://developer.mozilla.org/docs/Web/CSS/@starting-style'',
          fa_spec = [],
          fa_tests = ''/results/css?label=experimental&label=master&product=chrome&product=edge&product=firefox&product=safari&aligned&view=interop&q=label%3Ainterop-2024-starting-style%20or%20label%3Ainterop-2024-transition-behavior'',
          fa_mobile_tests = Some (''/results/css?label=experimental&label=master&product=chrome_android&product=firefox_android&aligned&view=interop&q=label%3Ainterop-2024-starting-style%20or%20label%3Ainterop-2024-transition-behavior''),
          fa_labels = [''interop-2024-starting-style'', ''interop-2024-transition-behavior'']\<rparr>),
      (''interop-2024-dsd'',
        \<lparr>fa_description = ''Declarative Shadow DOM'', fa_counts = True,
          fa_mdn = [],
          fa_spec = [],
          fa_tests = ''/shadow-dom?label=master&label=experimental&product=chrome&product=edge&product=firefox&product=safari&aligned&view=interop&q=label%3Ainterop-2024-dsd'',
          fa_mobile_tests = Some (''/shadow-dom?label=master&label=experimental&product=chrome_android&product=firefox_android&aligned&view=interop&q=label%3Ainterop-2024-dsd''),
          fa_labels = [''interop-2024-dsd'']\<rparr>),
      (''interop-2024-dir'',
        \<lparr>fa_description = ''Text Directionality'', fa_counts = True,
          fa_mdn = ''https://developer.mozilla.org/docs/Web/CSS/:dir'',
          fa_spec = [],
          fa_tests = ''/results/html/dom/elements/global-attributes?label=master&label=experimental&product=chrome&product=edge&product=firefox&product=safari&aligned&view=interop&q=label%3Ainterop-2024-dir'',
          fa_mobile_tests = Some (''/results/html/dom/elements/global-attributes?label=master&label=experimental&product=chrome_android&product=firefox_android&aligned&view=interop&q=label%3Ainterop-2024-dir''),
          fa_labels = [''interop-2024-dir'']\<rparr>),
      (''interop-2024-font-size-adjust'',
        \<lparr>fa_description = ''font-size-adjust'', fa_counts = True,
          fa_mdn = ''https://developer.mozilla.org/docs/Web/CSS/font-size-adjust'',
          fa_spec = [],
          fa_tests = ''/results/css/css-fonts?label=experimental&label=master&product=chrome&product=edge&product=firefox&product=safari&aligned&view=interop&q=label%3Ainterop-2024-font-size-adjust'',
          fa_mobile_tests = Some (''/results/css/css-fonts?label=experimental&label=master&product=chrome_android&product=firefox_android&aligned&view=interop&q=label%3Ainterop-2024-font-size-adjust''),
          fa_labels = [''interop-2024-font-size-adjust'']\<rparr>),
      (''interop-2024-websockets'',
        \<lparr>fa_description = ''HTTPS URLs for WebSocket'', fa_counts = True,
          fa_mdn = [],
          fa_spec = ''https://websockets.spec.whatwg.org/ '',
          fa_tests = ''/results/websockets?label=experimental&label=master&product=chrome&product=edge&product=firefox&product=safari&aligned&view=interop&q=label%3Ainterop-2024-websockets'',
          fa_mobile_tests = Some (''/results/websockets?label=experimental&label=master&product=chrome_android&product=firefox_android&aligned&view=interop&q=label%3Ainterop-2024-websockets''),
          fa_labels = [''interop-2024-websockets'']\<rparr>)]"

definition focus_areas_2024_b :: "focus_area obj" where
  "focus_areas_2024_b =
     [(''interop-2024-indexeddb'',
        \<lparr>fa_description = ''IndexedDB'', fa_counts = True,
          fa_mdn = ''https://developer.mozilla.org/docs/Web/API/IndexedDB_API/Using_IndexedDB'',
          fa_spec = [],
          fa_tests = ''/results/IndexedDB?label=master&label=experimental&product=chrome&product=edge&product=firefox&product=safari&aligned&view=interop&q=label%3Ainterop-2024-indexeddb'',
          fa_mobile_tests = Some (''/results/IndexedDB?label=master&label=experimental&product=chrome_android&product=firefox_android&aligned&view=interop&q=label%3Ainterop-2024-indexeddb''),
          fa_labels = [''interop-2024-indexeddb'']\<rparr>),
      (''interop-2024-layout'',
        \<lparr>fa_description = ''Layout'', fa_counts = True,
          fa_mdn = [],
          fa_spec = [],
          fa_tests = ''/results/css?label=master&label=experimental&product=chrome&product=edge&product=firefox&product=safari&aligned&view=interop&q=label%3Ainterop-2021-flexbox%20or%20label%3Ainterop-2023-flexbox%20or%20label%3Ainterop-2021-grid%20or%20label%3Ainterop-2023-grid%20or%20label%3Ainterop-2022-subgrid'',
          fa_mobile_tests = Some (''/results/css?label=master&label=experimental&product=chrome_android&product=firefox_android&aligned&view=interop&q=label%3Ainterop-2021-flexbox%20or%20label%3Ainterop-2023-flexbox%20or%20label%3Ainterop-2021-grid%20or%20label%3Ainterop-2023-grid%20or%20label%3Ainterop-2022-subgrid''),
          fa_labels = [''interop-2021-flexbox'', ''interop-2021-grid'', ''interop-2022-subgrid'', ''interop-2023-flexbox'',
            ''interop-2023-grid'']\<rparr>),
      (''interop-2024-nesting'',
        \<lparr>fa_description = ''CSS Nesting'', fa_counts = True,
          fa_mdn = ''https://developer.mozilla.org/docs/Web/CSS/CSS_nesting'',
          fa_spec = [],
          fa_tests = ''/results/css?label=experimental&label=master&product=chrome&product=edge&product=firefox&product=safari&aligned&view=interop&q=label%3Ainterop-2024-nesting'',
          fa_mobile_tests = Some (''/results/css?label=experimental&label=master&product=chrome_android&product=firefox_android&aligned&view=interop&q=label%3Ainterop-2024-nesting''),
          fa_labels = [''interop-2024-nesting'']\<rparr>),
      (''interop-2024-popover'',
        \<lparr>fa_description = ''Popover'', fa_counts = True,
          fa_mdn = ''https://developer.mozilla.org/docs/Web/API/Popover_API'',
          fa_spec = [],
          fa_tests = ''/results/html/semantics/popovers?label=master&label=experimental&product=chrome&product=edge&product=firefox&product=safari&aligned&view=interop&q=label%3Ainterop-2024-popover'',
          fa_mobile_tests = Some (''/results/html/semantics/popovers?label=master&label=experimental&product=chrome_android&product=firefox_android&aligned&view=interop&q=label%3Ainterop-2024-popover''),
          fa_labels = [''interop-2024-popover'']\<rparr>),
      (''interop-2024-relative-color'',
        \<lparr>fa_description = ''Relative Color Syntax'', fa_counts = True,
          fa_mdn = [],
          fa_spec = [],
          fa_tests = ''/results/css/css-color?label=master&label=experimental&product=chrome&product=edge&product=firefox&product=safari&aligned&view=interop&q=label%3Ainterop-2024-relative-color'',
          fa_mobile_tests = Some (''/results/css/css-color?label=master&label=experimental&product=chrome_android&product=firefox_android&aligned&view=interop&q=label%3Ainterop-2024-relative-color''),
          fa_labels = [''interop-2024-relative-color'']\<rparr>),
      (''interop-2024-video-rvfc'',
        \<lparr>fa_description = ''requestVideoFrameCallback'', fa_counts = True,
          fa_mdn = ''https://developer.mozilla.org/docs/Web/API/HTMLVideoElement/requestVideoFrameCallback'',
          fa_spec = [],
          fa_tests = ''/results/video-rvfc?label=experimental&label=master&product=chrome&product=edge&product=firefox&product=safari&aligned&view=interop&q=label%3Ainterop-2024-video-rvfc'',
          fa_mobile_tests = Some (''/results/video-rvfc?label=experimental&label=master&product=chrome_android&product=firefox_android&aligned&view=interop&q=label%3Ainterop-2024-video-rvfc''),
          fa_labels = [''interop-2024-video-rvfc'']\<rparr>),
      (''interop-2024-scrollbar'',
        \<lparr>fa_description = ''Scrollbar Styling'', fa_counts = True,
          fa_mdn = ''https://developer.mozilla.org/docs/Web/CSS/scrollbar-width'',
          fa_spec = [],
          fa_tests = ''/results/css?label=master&label=experimental&product=chrome&product=edge&product=firefox&product=safari&aligned&view=interop&q=label%3Ainterop-2024-scrollbar'',
          fa_mobile_tests = Some (''/results/css?label=master&label=experimental&product=chrome_android&product=firefox_android&aligned&view=interop&q=label%3Ainterop-2024-scrollbar''),
          fa_labels = [''interop-2024-scrollbar'']\<rparr>),
      (''interop-2024-text-wrap'',
        \<lparr>fa_description = ''text-wrap: balance'', fa_counts = True,
          fa_mdn = ''https://developer.mozilla.org/docs/Web/CSS/text-wrap'',
          fa_spec = [],
          fa_tests = ''/results/css/css-text?label=master&label=experimental&product=chrome&product=edge&product=firefox&product=safari&aligned&view=interop&q=label%3Ainterop-2024-text-wrap'',
          fa_mobile_tests = Some (''/results/css/css-text?label=master&label=experimental&product=chrome_android&product=firefox_android&aligned&view=interop&q=label%3Ainterop-2024-text-wrap''),
          fa_labels = [''interop-2024-text-wrap'']\<rparr>),
      (''interop-2023-cssborderimage'',
        \<lparr>fa_description = ''Border Image'', fa_counts = False,
          fa_mdn = ''https://developer.mozilla.org/docs/Web/CSS/border-image'',
          fa_spec = ''https://www.w3.org/TR/css-backgrounds-3/#the-border-image'',
          fa_tests = ''/results/css/css-backgrounds?label=master&product=chrome&product=edge&product=firefox&product=safari&aligned&view=interop&q=label%3Ainterop-2023-cssborderimage'',
          fa_mobile_tests = Some (''/results/css/css-backgrounds?label=master&product=chrome_android&product=firefox_android&aligned&view=interop&q=label%3Ainterop-2023-cssborderimage''),
          fa_labels = [''interop-2023-cssborderimage'']\<rparr>),
      (''interop-2023-color'',
        \<lparr>fa_description = ''Color Spaces and Functions'', fa_counts = False,
          fa_mdn = ''https://developer.mozilla.org/docs/Web/CSS/color_value'',
          fa_spec = ''https://w3c.github.io/csswg-drafts/css-color/#color-syntax'',
          fa_tests = ''/results/css?label=master&product=chrome&product=edge&product=firefox&product=safari&aligned&view=interop&q=label%3Ainterop-2022-color%20or%20label%3Ainterop-2023-color'',
          fa_mobile_tests = Some (''/results/css?label=master&product=chrome_android&product=firefox_android&aligned&view=interop&q=label%3Ainterop-2022-color%20or%20label%3Ainterop-2023-color''),
          fa_labels = [''interop-2022-color'', ''interop-2023-color'']\<rparr>),
      (''interop-2023-container'',
        \<lparr>fa_description = ''Container Queries'', fa_counts = False,
          fa_mdn = ''https://developer.mozilla.org/docs/Web/CSS/CSS_Container_Queries'',
          fa_spec = ''https://drafts.csswg.org/css-contain-3/#container-queries'',
          fa_tests = ''/results/css/css-contain/container-queries?label=master&product=chrome&product=edge&product=firefox&product=safari&aligned&view=interop&q=label%3Ainterop-2023-container'',
          fa_mobile_tests = Some (''/results/css/css-contain/container-queries?label=master&product=chrome_android&product=firefox_android&aligned&view=interop&q=label%3Ainterop-2023-container''),
          fa_labels = [''interop-2023-container'']\<rparr>),
      (''interop-2023-contain'',
        \<lparr>fa_description = ''Containment'', fa_counts = False,
          fa_mdn = ''https://developer.mozilla.org/docs/Web/CSS/contain'',
          fa_spec = ''https://drafts.csswg.org/css-contain/#contain-property'',
          fa_tests = ''/results/css?label=master&product=chrome&product=edge&product=firefox&product=safari&aligned&view=interop&q=label%3Ainterop-2022-contain%20or%20label%3Ainterop-2023-contain'',
          fa_mobile_tests = Some (''/results/css?label=master&product=chrome_android&product=firefox_android&aligned&view=interop&q=label%3Ainterop-2022-contain%20or%20label%3Ainterop-2023-contain''),
          fa_labels = [''interop-2022-contain'', ''interop-2023-contain'']\<rparr>)]"

definition focus_areas_2024_c :: "focus_area obj" where
  "focus_areas_2024_c =
     [(''interop-2023-pseudos'',
        \<lparr>fa_description = ''CSS Pseudo-classes'', fa_counts = False,
          fa_mdn = ''https://developer.mozilla.org/docs/Web/CSS/Pseudo-classes'',
          fa_spec = ''https://drafts.csswg.org/selectors/'',
          fa_tests = ''/results/css/selectors?label=master&product=chrome&product=edge&product=firefox&product=safari&aligned&view=interop&q=label%3Ainterop-2023-pseudos'',
          fa_mobile_tests = Some (''/results/css/selectors?label=master&product=chrome_android&product=firefox_android&aligned&view=interop&q=label%3Ainterop-2023-pseudos''),
          fa_labels = [''interop-2023-pseudos'']\<rparr>),
      (''interop-2023-property'',
        \<lparr>fa_description = ''Custom Properties'', fa_counts = True,
          fa_mdn = ''https://developer.mozilla.org/docs/Web/CSS/@property'',
          fa_spec = ''https://drafts.css-houdini.org/css-properties-values-api/'',
          fa_tests = ''/results/css/css-properties-values-api?label=master&product=chrome&product=edge&product=firefox&product=safari&aligned&view=interop&q=label%3Ainterop-2023-property'',
          fa_mobile_tests = Some (''/results/css/css-properties-values-api?label=master&product=chrome_android&product=firefox_android&aligned&view=interop&q=label%3Ainterop-2023-property''),
          fa_labels = [''interop-2023-property'']\<rparr>),
      (''interop-2023-fonts'',
        \<lparr>fa_description = ''Font Feature Detection and Palettes'', fa_counts = False,
          fa_mdn = ''https://developer.mozilla.org/docs/Web/CSS/font-palette'',
          fa_spec = ''https://drafts.csswg.org/css-fonts-4/#font-palette-prop'',
          fa_tests = ''/results/css?label=master&product=chrome&product=edge&product=firefox&product=safari&aligned&view=interop&q=label%3Ainterop-2023-fonts'',
          fa_mobile_tests = Some (''/results/css?label=master&product=chrome_android&product=firefox_android&aligned&view=interop&q=label%3Ainterop-2023-fonts''),
          fa_labels = [''interop-2023-fonts'']\<rparr>),
      (''interop-2023-forms'',
        \<lparr>fa_description = ''Forms'', fa_counts = False,
          fa_mdn = ''https://developer.mozilla.org/docs/Web/HTML/Element/form'',
          fa_spec = ''https://html.spec.whatwg.org/multipage/forms.html#the-form-element'',
          fa_tests = ''/results/?label=master&product=chrome&product=edge&product=firefox&product=safari&aligned&view=interop&q=label%3Ainterop-2022-forms%20or%20label%3Ainterop-2023-forms'',
          fa_mobile_tests = Some (''/results/?label=master&product=chrome_android&product=firefox_android&aligned&view=interop&q=label%3Ainterop-2022-forms%20or%20label%3Ainterop-2023-forms''),
          fa_labels = [''interop-2022-forms'', ''interop-2023-forms'']\<rparr>),
      (''interop-2023-has'',
        \<lparr>fa_description = '':has()'', fa_counts = False,
          fa_mdn = ''https://developer.mozilla.org/docs/Web/CSS/:has'',
          fa_spec = ''https://drafts.csswg.org/selectors-4/#relational'',
          fa_tests = ''/results/css/selectors?label=master&product=chrome&product=edge&product=firefox&product=safari&aligned&view=interop&q=label%3Ainterop-2023-has'',
          fa_mobile_tests = Some (''/results/css/selectors?label=master&product=chrome_android&product=firefox_android&aligned&view=interop&q=label%3Ainterop-2023-has''),
          fa_labels = [''interop-2023-has'']\<rparr>),
      (''interop-2023-inert'',
        \<lparr>fa_description = ''Inert'', fa_counts = False,
          fa_mdn = ''https://developer.mozilla.org/docs/Web/HTML/Global_attributes/inert'',
          fa_spec = ''https://html.spec.whatwg.org/multipage/interaction.html#the-inert-attribute'',
          fa_tests = ''/results/inert?label=master&product=chrome&product=edge&product=firefox&product=safari&aligned&view=interop&q=label%3Ainterop-2023-inert'',
          fa_mobile_tests = Some (''/results/inert?label=master&product=chrome_android&product=firefox_android&aligned&view=interop&q=label%3Ainterop-2023-inert''),
          fa_labels = [''interop-2023-inert'']\<rparr>),
      (''interop-2023-cssmasking'',
        \<lparr>fa_description = ''Masking'', fa_counts = False,
          fa_mdn = ''https://developer.mozilla.org/docs/Web/CSS/CSS_Masking'',
          fa_spec = ''https://drafts.fxtf.org/css-masking/'',
          fa_tests = ''/results/css/css-masking?label=master&product=chrome&product=edge&product=firefox&product=safari&aligned&view=interop&q=label%3Ainterop-2023-cssmasking'',
          fa_mobile_tests = Some (''/results/css/css-masking?label=master&product=chrome_android&product=firefox_android&aligned&view=interop&q=label%3Ainterop-2023-cssmasking''),
          fa_labels = [''interop-2023-cssmasking'']\<rparr>),
      (''interop-2023-mathfunctions'',
        \<lparr>fa_description = ''CSS Math Functions'', fa_counts = False,
          fa_mdn = ''https://developer.mozilla.org/docs/Web/CSS/CSS_Functions#math_functions'',
          fa_spec = ''https://drafts.csswg.org/css-values-4/#math'',
          fa_tests = ''/results/css/css-values?label=master&product=chrome&product=edge&product=firefox&product=safari&aligned&view=interop&q=label%3Ainterop-2023-mathfunctions'',
          fa_mobile_tests = Some (''/results/css/css-values?label=master&product=chrome_android&product=firefox_android&aligned&view=interop&q=label%3Ainterop-2023-mathfunctions''),
          fa_labels = [''interop-2023-mathfunctions'']\<rparr>),
      (''interop-2023-mediaqueries'',
        \<lparr>fa_description = ''Media Queries 4'', fa_counts = False,
          fa_mdn = ''https://developer.mozilla.org/docs/Web/CSS/Media_Queries/Using_media_queries'',
          fa_spec = ''https://www.w3.org/TR/mediaqueries-4/'',
          fa_tests = ''/results/css/mediaqueries?label=master&product=chrome&product=edge&product=firefox&product=safari&aligned&view=interop&q=label%3Ainterop-2023-mediaqueries'',
          fa_mobile_tests = Some (''/results/css/mediaqueries?label=master&product=chrome_android&product=firefox_android&aligned&view=interop&q=label%3Ainterop-2023-mediaqueries''),
          fa_labels = [''interop-2023-mediaqueries'']\<rparr>),
      (''interop-2023-modules'',
        \<lparr>fa_description = ''Modules'', fa_counts = False,
          fa_mdn = ''https://developer.mozilla.org/docs/Web/JavaScript/Guide/Modules'',
          fa_spec = ''https://tc39.es/proposal-import-assertions/'',
          fa_tests = ''/results/?label=master&product=chrome&product=edge&product=firefox&product=safari&aligned&view=interop&q=label%3Ainterop-2023-modules'',
          fa_mobile_tests = Some (''/results/?label=master&product=chrome_android&product=firefox_android&aligned&view=interop&q=label%3Ainterop-2023-modules''),
          fa_labels = [''interop-2023-modules'']\<rparr>),
      (''interop-2023-motion'',
        \<lparr>fa_description = ''Motion Path'', fa_counts = False,
          fa_mdn = ''https://developer.mozilla.org/docs/Web/CSS/CSS_Motion_Path'',
          fa_spec = ''https://drafts.fxtf.org/motion-1/'',
          fa_tests = ''/results/css/motion?label=master&product=chrome&product=edge&product=firefox&product=safari&aligned&view=interop&q=label%3Ainterop-2023-motion'',
          fa_mobile_tests = Some (''/results/css/motion?label=master&product=chrome_android&product=firefox_android&aligned&view=interop&q=label%3Ainterop-2023-motion''),
          fa_labels = [''interop-2023-motion'']\<rparr>),
      (''interop-2023-offscreencanvas'',
        \<lparr>fa_description = ''Offscreen Canvas'', fa_counts = False,
          fa_mdn = ''https://developer.mozilla.org/docs/Web/API/OffscreenCanvas'',
          fa_spec = ''https://html.spec.whatwg.org/multipage/canvas.html#the-offscreencanvas-interface'',
          fa_tests = ''/results/?label=master&product=chrome&product=edge&product=firefox&product=safari&aligned&view=interop&q=label%3Ainterop-2023-offscreencanvas'',
          fa_mobile_tests = Some (''/results/?label=master&product=chrome_android&product=firefox_android&aligned&view=interop&q=label%3Ainterop-2023-offscreencanvas''),
          fa_labels = [''interop-2023-offscreencanvas'']\<rparr>),
      (''interop-2023-events'',
        \<lparr>fa_description = ''Pointer and Mouse Events'', fa_counts = True,
          fa_mdn = ''https://developer.mozilla.org/docs/Web/API/Pointer_events'',
          fa_spec = ''https://w3c.github.io/pointerevents/'',
          fa_tests = ''/results/?label=master&product=chrome&product=edge&product=firefox&product=safari&aligned&view=interop&q=label%3Ainterop-2023-events'',
          fa_mobile_tests = Some (''/results/?label=master&product=chrome_android&product=firefox_android&aligned&view=interop&q=label%3Ainterop-2023-events''),
          fa_labels = [''interop-2023-events'']\<rparr>)]"

definition focus_areas_2024_d :: "focus_area obj" where
  "focus_areas_2024_d =
     [(''interop-2022-scrolling'',
        \<lparr>fa_description = ''Scrolling'', fa_counts = False,
          fa_mdn = ''https://developer.mozilla.org/docs/Web/CSS/overflow'',
          fa_spec = ''https://drafts.csswg.org/css-overflow/#propdef-overflow'',
          fa_tests = ''/results/css?label=master&product=chrome&product=edge&product=firefox&product=safari&aligned&view=interop&q=label%3Ainterop-2022-scrolling'',
          fa_mobile_tests = Some (''/results/css?label=master&product=chrome_android&product=firefox_android&aligned&view=interop&q=label%3Ainterop-2022-scrolling''),
          fa_labels = [''interop-2022-scrolling'']\<rparr>),
      (''interop-2021-transforms'',
        \<lparr>fa_description = ''Transforms'', fa_counts = False,
          fa_mdn = ''https://developer.mozilla.org/docs/Web/CSS/transform'',
          fa_spec = ''https://drafts.csswg.org/css-transforms/'',
          fa_tests = ''/results/css/css-transforms?label=master&product=chrome&product=edge&product=firefox&product=safari&aligned&view=interop&q=label%3Ainterop-2021-transforms'',
          fa_mobile_tests = Some (''/results/css/css-transforms?label=master&product=chrome_android&product=firefox_android&aligned&view=interop&q=label%3Ainterop-2021-transforms''),
          fa_labels = [''interop-2021-transforms'']\<rparr>),
      (''interop-2023-url'',
        \<lparr>fa_description = ''URL'', fa_counts = True,
          fa_mdn = ''https://developer.mozilla.org/docs/Web/API/URL'',
          fa_spec = ''https://url.spec.whatwg.org'',
          fa_tests = ''/results/url?label=master&product=chrome&product=edge&product=firefox&product=safari&aligned&view=interop&q=label%3Ainterop-2023-url'',
          fa_mobile_tests = Some (''/results/url?label=master&product=chrome_android&product=firefox_android&aligned&view=interop&q=label%3Ainterop-2023-url''),
          fa_labels = [''interop-2023-url'']\<rparr>),
      (''interop-2023-webcompat'',
        \<lparr>fa_description = ''Web Compat 2023'', fa_counts = False,
          fa_mdn = [],
          fa_spec = [],
          fa_tests = ''/results/?label=master&product=chrome&product=edge&product=firefox&product=safari&aligned&view=interop&q=label%3Ainterop-2023-webcompat'',
          fa_mobile_tests = Some (''/results/?label=master&product=chrome_android&product=firefox_android&aligned&view=interop&q=label%3Ainterop-2023-webcompat''),
          fa_labels = [''interop-2023-webcompat'']\<rparr>),
      (''interop-2023-webcodecs'',
        \<lparr>fa_description = ''Web Codecs (video)'', fa_counts = False,
          fa_mdn = ''https://developer.mozilla.org/docs/Web/API/WebCodecs_API'',
          fa_spec = ''https://www.w3.org/TR/webcodecs/'',
          fa_tests = ''/results/webcodecs?label=master&product=chrome&product=edge&product=firefox&product=safari&aligned&view=interop&q=label%3Ainterop-2023-webcodecs'',
          fa_mobile_tests = Some (''/results/webcodecs?label=master&product=chrome_android&product=firefox_android&aligned&view=interop&q=label%3Ainterop-2023-webcodecs''),
          fa_labels = [''interop-2023-webcodecs'']\<rparr>),
      (''interop-2023-webcomponents'',
        \<lparr>fa_description = ''Web Components'', fa_counts = False,
          fa_mdn = ''https://developer.mozilla.org/docs/Web/Web_Components'',
          fa_spec = ''https://www.w3.org/wiki/WebComponents/'',
          fa_tests = ''/results/?label=master&product=chrome&product=edge&product=firefox&product=safari&aligned&view=interop&q=label%3Ainterop-2023-webcomponents'',
          fa_mobile_tests = Some (''/results/?label=master&product=chrome_android&product=firefox_android&aligned&view=interop&q=label%3Ainterop-2023-webcomponents''),
          fa_labels = [''interop-2023-webcomponents'']\<rparr>)]"

definition year_2024 :: year_info where
  "year_2024 =
     \<lparr>yi_browsers = Some [''chrome_canary'', ''edge'', ''firefox'', ''safari''],
      yi_mobile_browsers = Some [''chrome_android'', ''firefox_android''],
      table_sections = [
        \<lparr>ts_name = ''Active Focus Areas'', ts_score_as_group = False, ts_previous_investigation = False,
         ts_rows =
           [''interop-2024-accessibility'', ''interop-2024-nesting'', ''interop-2023-property'',
            ''interop-2024-dsd'', ''interop-2024-font-size-adjust'', ''interop-2024-websockets'',
            ''interop-2024-indexeddb'', ''interop-2024-layout'', ''interop-2023-events'', ''interop-2024-popover'',
            ''interop-2024-relative-color'', ''interop-2024-video-rvfc'', ''interop-2024-scrollbar'',
            ''interop-2024-starting-style-transition-behavior'', ''interop-2024-dir'', ''interop-2024-text-wrap'',
            ''interop-2023-url'']\<rparr>,
        \<lparr>ts_name = ''Active Investigations'', ts_score_as_group = True, ts_previous_investigation = False,
         ts_rows =
           [''Accessibility Testing'', ''Mobile Testing'', ''WebAssembly Testing'']\<rparr>,
        \<lparr>ts_name = ''Previous Focus Areas'', ts_score_as_group = False, ts_previous_investigation = False,
         ts_rows =
           [''interop-2021-aspect-ratio'', ''interop-2023-cssborderimage'', ''interop-2022-cascade'',
            ''interop-2023-color'', ''interop-2023-container'', ''interop-2023-contain'',
            ''interop-2023-mathfunctions'', ''interop-2023-pseudos'', ''interop-2022-dialog'',
            ''interop-2023-fonts'', ''interop-2023-forms'', ''interop-2023-has'', ''interop-2023-inert'',
            ''interop-2023-cssmasking'', ''interop-2023-mediaqueries'', ''interop-2023-modules'',
            ''interop-2023-motion'', ''interop-2023-offscreencanvas'', ''interop-2022-scrolling'',
            ''interop-2021-position-sticky'', ''interop-2021-transforms'', ''interop-2022-text'',
            ''interop-2022-viewport'', ''interop-2023-webcodecs'', ''interop-2022-webcompat'',
            ''interop-2023-webcompat'', ''interop-2023-webcomponents'']\<rparr>],
      investigation_scores = Some [
        \<lparr>inv_name = ''Accessibility Testing'', inv_url = ''https://github.com/web-platform-tests/interop-accessibility'',
         scores_over_time =
           [(''2024-04-02'', 18), (''2024-04-25'', 33), (''2024-06-28'', 120), (''2024-08-13'', 242),
            (''2024-10-01'', 458), (''2024-11-11'', 558)]\<rparr>,
        \<lparr>inv_name = ''Mobile Testing'', inv_url = ''https://github.com/web-platform-tests/interop-mobile-testing'',
         scores_over_time =
           [(''2024-04-23'', 130), (''2024-10-22'', 625)]\<rparr>,
        \<lparr>inv_name = ''WebAssembly Testing'', inv_url = ''https://github.com/web-platform-tests/interop-2024-wasm'',
         scores_over_time =
           [(''2024-11-19'', 333), (''2024-12-20'', 666)]\<rparr>],
      investigation_weight = Some (0),
      mobile_table_sections = Some [
        \<lparr>ts_name = ''Active Focus Areas'', ts_score_as_group = False, ts_previous_investigation = False,
         ts_rows =
           [''interop-2024-accessibility'', ''interop-2024-nesting'', ''interop-2023-property'',
            ''interop-2024-dsd'', ''interop-2024-font-size-adjust'', ''interop-2024-websockets'',
            ''interop-2024-indexeddb'', ''interop-2024-layout'', ''interop-2023-events'', ''interop-2024-popover'',
            ''interop-2024-relative-color'', ''interop-2024-video-rvfc'', ''interop-2024-scrollbar'',
            ''interop-2024-starting-style-transition-behavior'', ''interop-2024-dir'', ''interop-2024-text-wrap'',
            ''interop-2023-url'']\<rparr>,
        \<lparr>ts_name = ''Active Investigations'', ts_score_as_group = True, ts_previous_investigation = False,
         ts_rows =
           [''Accessibility Testing'', ''Mobile Testing'', ''WebAssembly Testing'']\<rparr>],
      mobile_focus_areas = Some [''interop-2024-accessibility'', ''interop-2024-nesting'', ''interop-2023-property'',
         ''interop-2024-dsd'', ''interop-2024-font-size-adjust'', ''interop-2024-websockets'',
         ''interop-2024-indexeddb'', ''interop-2024-layout'', ''interop-2023-events'', ''interop-2024-popover'',
         ''interop-2024-relative-color'', ''interop-2024-video-rvfc'', ''interop-2024-scrollbar'',
         ''interop-2024-starting-style-transition-behavior'', ''interop-2024-dir'', ''interop-2024-text-wrap'',
         ''interop-2023-url''],
      csv_url = ''/static/interop-2024-{stable|experimental}.csv'',
      mobile_csv_url = Some (''/static/interop-2024-mobile-experimental.csv''),
      summary_feature_name = ''summary'',
      issue_url = Some (''https://github.com/web-platform-tests/interop/issues/new''),
      focus_areas_description = Some (''https://github.com/web-platform-tests/interop/blob/main/2024/README.md''),
      matrix_url = None,
      focus_areas = focus_areas_2024_a @ focus_areas_2024_b @ focus_areas_2024_c @ focus_areas_2024_d\<rparr>"

definition focus_areas_2025_a :: "focus_area obj" where
  "focus_areas_2025_a =
     [(''interop-2025-anchor-positioning'',
        \<lparr>fa_description = ''CSS anchor positioning'', fa_counts = True,
          fa_mdn = ''https://developer.mozilla.org/docs/Web/CSS/CSS_anchor_positioning'',
          fa_spec = ''https://drafts.csswg.org/css-anchor-position-1/'',
          fa_tests = ''/results/css/css-anchor-position?label=master&product=chrome&product=edge&product=firefox&product=safari&aligned&view=interop&q=label%3Ainterop-2025-anchor-positioning'',
          fa_mobile_tests = Some (''/results/css/css-anchor-position?label=master&product=chrome_android&product=firefox_android&aligned&view=interop&q=label%3Ainterop-2025-anchor-positioning''),
          fa_labels = [''interop-2025-anchor-positioning'']\<rparr>),
      (''interop-2025-core-web-vitals'',
        \<lparr>fa_description = ''Core Web Vitals'', fa_counts = True,
          fa_mdn = [],
          fa_spec = [],
          fa_tests = ''/results/?label=master&product=chrome&product=edge&product=firefox&product=safari&aligned&view=interop&q=label%3Ainterop-2025-core-web-vitals'',
          fa_mobile_tests = Some (''/results/?label=master&product=chrome_android&product=firefox_android&aligned&view=interop&q=label%3Ainterop-2025-core-web-vitals''),
          fa_labels = [''interop-2025-core-web-vitals'']\<rparr>),
      (''interop-2025-scope'',
        \<lparr>fa_description = ''@scope'', fa_counts = True,
          fa_mdn = ''https://developer.mozilla.org/docs/Web/CSS/@scope'',
          fa_spec = ''https://drafts.csswg.org/css-cascade-6/#scoped-styles'',
          fa_tests = ''/results/css/css-cascade?label=master&product=chrome&product=edge&product=firefox&product=safari&aligned&view=interop&q=label%3Ainterop-2025-scope'',
          fa_mobile_tests = Some (''/results/css/css-cascade?label=master&product=chrome_android&product=firefox_android&aligned&view=interop&q=label%3Ainterop-2025-scope''),
          fa_labels = [''interop-2025-scope'']\<rparr>),
      (''interop-2025-writingmodes'',
        \<lparr>fa_description = ''Writing modes'', fa_counts = True,
          fa_mdn = ''https://developer.mozilla.org/docs/Web/CSS/writing-mode'',
          fa_spec = ''https://drafts.csswg.org/css-writing-modes/'',
          fa_tests = ''/results/css?label=master&product=chrome&product=edge&product=firefox&product=safari&aligned&view=interop&q=label%3Ainterop-2025-writingmodes'',
          fa_mobile_tests = Some (''/results/css?label=master&product=chrome_android&product=firefox_android&aligned&view=interop&q=label%3Ainterop-2025-writingmodes''),
          fa_labels = [''interop-2025-writingmodes'']\<rparr>),
      (''interop-2024-layout'',
        \<lparr>fa_description = ''Layout'', fa_counts = True,
          fa_mdn = [],
          fa_spec = [],
          fa_tests = ''/results/css?label=master&label=experimental&product=chrome&product=edge&product=firefox&product=safari&aligned&view=interop&q=label%3Ainterop-2021-flexbox%20or%20label%3Ainterop-2023-flexbox%20or%20label%3Ainterop-2021-grid%20or%20label%3Ainterop-2023-grid%20or%20label%3Ainterop-2022-subgrid'',
          fa_mobile_tests = Some (''/results/css?label=master&label=experimental&product=chrome_android&product=firefox_android&aligned&view=interop&q=label%3Ainterop-2021-flexbox%20or%20label%3Ainterop-2023-flexbox%20or%20label%3Ainterop-2021-grid%20or%20label%3Ainterop-2023-grid%20or%20label%3Ainterop-2022-subgrid''),
          fa_labels = [''interop-2021-flexbox'', ''interop-2021-grid'', ''interop-2022-subgrid'', ''interop-2023-flexbox'',
            ''interop-2023-grid'']\<rparr>),
      (''interop-2025-modules'',
        \<lparr>fa_description = ''Modules'', fa_counts = True,
          fa_mdn = ''https://developer.mozilla.org/docs/Web/JavaScript/Reference/Statements/import/with'',
          fa_spec = ''https://tc39.es/proposal-import-attributes/'',
          fa_tests = ''/results/html/semantics/scripting-1/the-script-element?label=master&product=chrome&product=edge&product=firefox&product=safari&aligned&view=interop&q=label%3Ainterop-2025-modules'',
          fa_mobile_tests = Some (''/results/html/semantics/scripting-1/the-script-element?label=master&product=chrome_android&product=firefox_android&aligned&view=interop&q=label%3Ainterop-2025-modules''),
          fa_labels = [''interop-2025-modules'']\<rparr>),
      (''interop-2025-navigation'',
        \<lparr>fa_description = ''Navigation API'', fa_counts = True,
          fa_mdn = ''https://developer.mozilla.org/docs/Web/API/Navigation_API'',
          fa_spec = ''https://html.spec.whatwg.org/multipage/nav-history-apis.html#navigation-api'',
          fa_tests = ''/results/navigation-api?label=master&product=chrome&product=edge&product=firefox&product=safari&aligned&view=interop&q=label%3Ainterop-2025-navigation'',
          fa_mobile_tests = Some (''/results/navigation-api?label=master&product=chrome_android&product=firefox_android&aligned&view=interop&q=label%3Ainterop-2025-navigation''),
          fa_labels = [''interop-2025-navigation'']\<rparr>),
      (''interop-2025-backdrop-filter'',
        \<lparr>fa_description = ''backdrop-filter'', fa_counts = True,
          fa_mdn = ''https://developer.mozilla.org/docs/Web/CSS/backdrop-filter'',
          fa_spec = ''https://drafts.fxtf.org/filter-effects-2/#BackdropFilterProperty'',
          fa_tests = ''/results/css/filter-effects?label=master&product=chrome&product=edge&product=firefox&product=safari&aligned&view=interop&q=label%3Ainterop-2025-backdrop-filter'',
          fa_mobile_tests = Some (''/results/css/filter-effects?label=master&product=chrome_android&product=firefox_android&aligned&view=interop&q=label%3Ainterop-2025-backdrop-filter''),
          fa_labels = [''interop-2025-backdrop-filter'']\<rparr>),
      (''interop-2025-remove-mutation-events'',
        \<lparr>fa_description = ''Remove mutation events'', fa_counts = True,
          fa_mdn = ''https://developer.mozilla.org/docs/Web/API/MutationEvent'',
          fa_spec = [],
          fa_tests = ''/results/dom?label=master&product=chrome&product=edge&product=firefox&product=safari&aligned&view=interop&q=label%3Ainterop-2025-remove-mutation-events'',
          fa_mobile_tests = Some (''/results/dom?label=master&product=chrome_android&product=firefox_android&aligned&view=interop&q=label%3Ainterop-2025-remove-mutation-events''),
          fa_labels = [''interop-2025-remove-mutation-events'']\<rparr>),
      (''interop-2023-events'',
        \<lparr>fa_description = ''Pointer and mouse events'', fa_counts = True,
          fa_mdn = ''https://developer.mozilla.org/docs/Web/API/Pointer_events'',
          fa_spec = ''https://w3c.github.io/pointerevents/'',
          fa_tests = ''/results/?label=master&product=chrome&product=edge&product=firefox&product=safari&aligned&view=interop&q=label%3Ainterop-2023-events'',
          fa_mobile_tests = Some (''/results/?label=master&product=chrome_android&product=firefox_android&aligned&view=interop&q=label%3Ainterop-2023-events''),
          fa_labels = [''interop-2023-events'']\<rparr>),
      (''interop-2025-scrollend'',
        \<lparr>fa_description = ''scrollend event'', fa_counts = True,
          fa_mdn = ''https://developer.mozilla.org/docs/Web/API/Document/scrollend_event'',
          fa_spec = ''https://drafts.csswg.org/cssom-view/#eventdef-document-scrollend'',
          fa_tests = ''/results/dom/events/scrolling?label=master&product=chrome&product=edge&product=firefox&product=safari&aligned&view=interop&q=label%3Ainterop-2025-scrollend'',
          fa_mobile_tests = Some (''/results/dom/events/scrolling?label=master&product=chrome_android&product=firefox_android&aligned&view=interop&q=label%3Ainterop-2025-scrollend''),
          fa_labels = [''interop-2025-scrollend'']\<rparr>),
      (''interop-2025-storageaccess'',
        \<lparr>fa_description = ''Storage Access API'', fa_counts = True,
          fa_mdn = ''https://developer.mozilla.org/docs/Web/API/Storage_Access_API'',
          fa_spec = ''https://privacycg.github.io/storage-access/'',
          fa_tests = ''/results/storage-access-api?label=master&product=chrome&product=edge&product=firefox&product=safari&aligned&view=interop&q=label%3Ainterop-2025-storageaccess'',
          fa_mobile_tests = Some (''/results/storage-access-api?label=master&product=chrome_android&product=firefox_android&aligned&view=interop&q=label%3Ainterop-2025-storageaccess''),
          fa_labels = [''interop-2025-storageaccess'']\<rparr>),
      (''interop-2025-details'',
        \<lparr>fa_description = ''<details> element'', fa_counts = True,
          fa_mdn = ''https://developer.mozilla.org/docs/Web/HTML/Element/details'',
          fa_spec = ''https://html.spec.whatwg.org/multipage/interactive-elements.html#the-details-element'',
          fa_tests = ''/results/html?label=master&product=chrome&product=edge&product=firefox&product=safari&aligned&view=interop&q=label%3Ainterop-2025-details'',
          fa_mobile_tests = Some (''/results/html?label=master&product=chrome_android&product=firefox_android&aligned&view=interop&q=label%3Ainterop-2025-details''),
          fa_labels = [''interop-2025-details'']\<rparr>)]"

definition focus_areas_2025_b :: "focus_area obj" where
  "focus_areas_2025_b =
     [(''interop-2025-textdecoration'',
        \<lparr>fa_description = ''text-decoration'', fa_counts = True,
          fa_mdn = ''https://developer.mozilla.org/docs/Web/CSS/text-decoration'',
          fa_spec = ''https://drafts.csswg.org/css-text-decor/#text-decoration-property'',
          fa_tests = ''/results/css/css-text-decor/parsing?label=master&product=chrome&product=edge&product=firefox&product=safari&aligned&view=interop&q=label%3Ainterop-2025-textdecoration'',
          fa_mobile_tests = Some (''/results/css/css-text-decor/parsing?label=master&product=chrome_android&product=firefox_android&aligned&view=interop&q=label%3Ainterop-2025-textdecoration''),
          fa_labels = [''interop-2025-textdecoration'']\<rparr>),
      (''interop-2025-view-transitions'',
        \<lparr>fa_description = ''View Transition API'', fa_counts = True,
          fa_mdn = ''https://developer.mozilla.org/docs/Web/API/View_Transition_API'',
          fa_spec = ''https://drafts.csswg.org/css-view-transitions/'',
          fa_tests = ''/results/css/css-view-transitions?label=master&product=chrome&product=edge&product=firefox&product=safari&aligned&view=interop&q=label%3Ainterop-2025-view-transitions'',
          fa_mobile_tests = Some (''/results/css/css-view-transitions?label=master&product=chrome_android&product=firefox_android&aligned&view=interop&q=label%3Ainterop-2025-view-transitions''),
          fa_labels = [''interop-2025-view-transitions'']\<rparr>),
      (''interop-2025-webassembly'',
        \<lparr>fa_description = ''WebAssembly'', fa_counts = True,
          fa_mdn = ''https://developer.mozilla.org/docs/WebAssembly'',
          fa_spec = ''https://webassembly.github.io/spec/'',
          fa_tests = ''/results/wasm/jsapi?label=master&product=chrome&product=edge&product=firefox&product=safari&aligned&view=interop&q=label%3Ainterop-2025-webassembly'',
          fa_mobile_tests = Some (''/results/wasm/jsapi?label=master&product=chrome_android&product=firefox_android&aligned&view=interop&q=label%3Ainterop-2025-webassembly''),
          fa_labels = [''interop-2025-webassembly'']\<rparr>),
      (''interop-2025-urlpattern'',
        \<lparr>fa_description = ''URLPattern'', fa_counts = True,
          fa_mdn = ''https://developer.mozilla.org/docs/Web/API/URL_Pattern_API'',
          fa_spec = ''https://urlpattern.spec.whatwg.org/'',
          fa_tests = ''/results/urlpattern?label=master&product=chrome&product=edge&product=firefox&product=safari&aligned&view=interop&q=label%3Ainterop-2025-urlpattern'',
          fa_mobile_tests = Some (''/results/urlpattern?label=master&product=chrome_android&product=firefox_android&aligned&view=interop&q=label%3Ainterop-2025-urlpattern''),
          fa_labels = [''interop-2025-urlpattern'']\<rparr>),
      (''interop-2025-webcompat'',
        \<lparr>fa_description = ''Web compat'', fa_counts = True,
          fa_mdn = [],
          fa_spec = [],
          fa_tests = ''/results/?label=master&product=chrome&product=edge&product=firefox&product=safari&aligned&view=interop&q=label%3Ainterop-2025-webcompat'',
          fa_mobile_tests = Some (''/results/?label=master&product=chrome_android&product=firefox_android&aligned&view=interop&q=label%3Ainterop-2025-webcompat''),
          fa_labels = [''interop-2025-webcompat'']\<rparr>),
      (''interop-2025-webrtc'',
        \<lparr>fa_description = ''WebRTC'', fa_counts = True,
          fa_mdn = ''https://developer.mozilla.org/docs/Web/API/WebRTC_API'',
          fa_spec = ''https://w3c.github.io/webrtc-pc/'',
          fa_tests = ''/results/?label=master&product=chrome&product=edge&product=firefox&product=safari&aligned&view=interop&q=label%3Ainterop-2025-webrtc'',
          fa_mobile_tests = Some (''/results/?label=master&product=chrome_android&product=firefox_android&aligned&view=interop&q=label%3Ainterop-2025-webrtc''),
          fa_labels = [''interop-2025-webrtc'']\<rparr>)]"

definition year_2025 :: year_info where
  "year_2025 =
     \<lparr>yi_browsers = Some [''chrome_canary'', ''edge'', ''firefox'', ''safari''],
      yi_mobile_browsers = Some [''chrome_android'', ''firefox_android''],
      table_sections = [
        \<lparr>ts_name = ''Active Focus Areas'', ts_score_as_group = False, ts_previous_investigation = False,
         ts_rows =
           [''interop-2025-anchor-positioning'', ''interop-2025-core-web-vitals'', ''interop-2025-modules'',
            ''interop-2025-navigation'', ''interop-2025-backdrop-filter'', ''interop-2025-remove-mutation-events'',
            ''interop-2023-events'', ''interop-2024-layout'', ''interop-2025-scrollend'',
            ''interop-2025-storageaccess'', ''interop-2025-details'', ''interop-2025-textdecoration'',
            ''interop-2025-scope'', ''interop-2025-view-transitions'', ''interop-2025-webassembly'',
            ''interop-2025-writingmodes'', ''interop-2025-urlpattern'', ''interop-2025-webcompat'',
            ''interop-2025-webrtc'']\<rparr>,
        \<lparr>ts_name = ''Active Investigations'', ts_score_as_group = True, ts_previous_investigation = False,
         ts_rows =
           [''Accessibility testing'', ''Gamepad API testing'', ''Mobile testing'', ''Privacy testing'',
            ''WebVTT'']\<rparr>],
      investigation_scores = Some [
        \<lparr>inv_name = ''Accessibility testing'', inv_url = ''https://github.com/web-platform-tests/interop-accessibility'',
         scores_over_time =
           [(''2025-08-05'', 300), (''2025-10-07'', 450), (''2025-11-05'', 510), (''2025-12-31'', 610)]\<rparr>,
        \<lparr>inv_name = ''Gamepad API testing'', inv_url = ''https://github.com/web-platform-tests/interop-gamepad'',
         scores_over_time =
           [(''2025-06-01'', 125), (''2025-08-14'', 375), (''2025-09-08'', 415), (''2025-09-22'', 540)]\<rparr>,
        \<lparr>inv_name = ''Mobile testing'', inv_url = ''https://github.com/web-platform-tests/interop-mobile-testing'',
         scores_over_time =
           [(''2025-06-10'', 120), (''2025-08-26'', 300), (''2025-12-31'', 460)]\<rparr>,
        \<lparr>inv_name = ''Privacy testing'', inv_url = ''https://github.com/web-platform-tests/interop-privacy'',
         scores_over_time =
           []\<rparr>,
        \<lparr>inv_name = ''WebVTT'', inv_url = ''https://github.com/web-platform-tests/interop-webvtt'',
         scores_over_time =
           [(''2025-06-23'', 100), (''2025-11-05'', 211)]\<rparr>],
      investigation_weight = Some (0),
      mobile_table_sections = Some [
        \<lparr>ts_name = ''Active Focus Areas'', ts_score_as_group = False, ts_previous_investigation = False,
         ts_rows =
           [''interop-2025-anchor-positioning'', ''interop-2025-core-web-vitals'', ''interop-2025-modules'',
            ''interop-2025-navigation'', ''interop-2025-backdrop-filter'', ''interop-2025-remove-mutation-events'',
            ''interop-2023-events'', ''interop-2024-layout'', ''interop-2025-scrollend'',
            ''interop-2025-storageaccess'', ''interop-2025-details'', ''interop-2025-textdecoration'',
            ''interop-2025-scope'', ''interop-2025-view-transitions'', ''interop-2025-webassembly'',
            ''interop-2025-writingmodes'', ''interop-2025-urlpattern'', ''interop-2025-webcompat'',
            ''interop-2025-webrtc'']\<rparr>,
        \<lparr>ts_name = ''Active Investigations'', ts_score_as_group = True, ts_previous_investigation = False,
         ts_rows =
           [''Accessibility testing'', ''Gamepad API testing'', ''Mobile testing'', ''Privacy testing'',
            ''WebVTT'']\<rparr>],
      mobile_focus_areas = Some [''interop-2025-anchor-positioning'', ''interop-2025-core-web-vitals'', ''interop-2025-modules'',
         ''interop-2025-navigation'', ''interop-2025-backdrop-filter'', ''interop-2025-remove-mutation-events'',
         ''interop-2023-events'', ''interop-2024-layout'', ''interop-2025-scrollend'',
         ''interop-2025-storageaccess'', ''interop-2025-details'', ''interop-2025-textdecoration'',
         ''interop-2025-scope'', ''interop-2025-view-transitions'', ''interop-2025-webassembly'',
         ''interop-2025-writingmodes'', ''interop-2025-urlpattern'', ''interop-2025-webcompat'',
         ''interop-2025-webrtc''],
      csv_url = ''/static/interop-2025-{stable|experimental}.csv'',
      mobile_csv_url = Some (''/static/interop-2025-mobile-experimental.csv''),
      summary_feature_name = ''summary'',
      issue_url = Some (''https://github.com/web-platform-tests/interop/issues/new''),
      focus_areas_description = Some (''https://github.com/web-platform-tests/interop/blob/main/2025/README.md''),
      matrix_url = None,
      focus_areas = focus_areas_2025_a @ focus_areas_2025_b\<rparr>"

definition focus_areas_2026_a :: "focus_area obj" where
  "focus_areas_2026_a =
     [(''interop-2026-anchor-positioning'',
        \<lparr>fa_description = ''CSS anchor positioning'', fa_counts = True,
          fa_mdn = ''https://developer.mozilla.org/docs/Web/CSS/CSS_anchor_positioning'',
          fa_spec = ''https://drafts.csswg.org/css-anchor-position-1/'',
          fa_tests = ''/results/css/css-anchor-position?label=master&product=chrome&product=edge&product=firefox&product=safari&aligned&view=interop&q=label%3Ainterop-2025-anchor-positioning'',
          fa_mobile_tests = Some (''/results/css/css-anchor-position?label=master&product=chrome_android&product=firefox_android&aligned&view=interop&q=label%3Ainterop-2025-anchor-positioning''),
          fa_labels = [''interop-2025-anchor-positioning'']\<rparr>),
      (''interop-2026-attr'',
        \<lparr>fa_description = ''CSS attr()'', fa_counts = True,
          fa_mdn = ''https://developer.mozilla.org/docs/Web/CSS/Reference/Values/attr'',
          fa_spec = ''https://drafts.csswg.org/css-values-5/#attr-notation'',
          fa_tests = ''/results/css/css-values?label=master&product=chrome&product=edge&product=firefox&product=safari&aligned&view=interop&q=label%3Ainterop-2026-attr'',
          fa_mobile_tests = Some (''/results/css/css-values?label=master&product=chrome_android&product=firefox_android&aligned&view=interop&q=label%3Ainterop-2026-attr''),
          fa_labels = [''interop-2026-attr'']\<rparr>),
      (''interop-2026-contrast-color'',
        \<lparr>fa_description = ''CSS contrast-color()'', fa_counts = True,
          fa_mdn = ''https://developer.mozilla.org/docs/Web/CSS/Reference/Values/color_value/contrast-color'',
          fa_spec = ''https://drafts.csswg.org/css-color-5/#contrast-color'',
          fa_tests = ''/results/css/css-color?label=master&product=chrome&product=edge&product=firefox&product=safari&aligned&view=interop&q=label%3Ainterop-2026-contrast-color'',
          fa_mobile_tests = Some (''/results/css/css-color?label=master&product=chrome_android&product=firefox_android&aligned&view=interop&q=label%3Ainterop-2026-contrast-color''),
          fa_labels = [''interop-2026-contrast-color'']\<rparr>),
      (''interop-2026-container-style-queries'',
        \<lparr>fa_description = ''Container style queries'', fa_counts = True,
          fa_mdn = ''https://developer.mozilla.org/docs/Web/CSS/Reference/At-rules/@container#container_style_queries'',
          fa_spec = ''https://drafts.csswg.org/css-conditional-5/#style-container'',
          fa_tests = ''/results/css/css-conditional/container-queries?label=master&product=chrome&product=edge&product=firefox&product=safari&aligned&view=interop&q=label%3Ainterop-2026-container-style-queries'',
          fa_mobile_tests = Some (''/results/css/css-conditional/container-queries?label=master&product=chrome_android&product=firefox_android&aligned&view=interop&q=label%3Ainterop-2026-container-style-queries''),
          fa_labels = [''interop-2026-container-style-queries'']\<rparr>),
      (''interop-2026-custom-highlights'',
        \<lparr>fa_description = ''Custom highlights'', fa_counts = True,
          fa_mdn = ''https://developer.mozilla.org/docs/Web/API/CSS_Custom_Highlight_API'',
          fa_spec = ''https://drafts.csswg.org/css-highlight-api-1/'',
          fa_tests = ''/results/css/css-highlight-api?label=master&label=experimental&product=chrome&product=edge&product=firefox&product=safari&aligned&view=interop&q=label%3Ainterop-2026-custom-highlights'',
          fa_mobile_tests = Some (''/results/css/css-highlight-api?label=master&label=experimental&product=chrome_android&product=firefox_android&aligned&view=interop&q=label%3Ainterop-2026-custom-highlights''),
          fa_labels = [''interop-2026-custom-highlights'']\<rparr>),
      (''interop-2026-dialogs-and-popovers'',
        \<lparr>fa_description = ''Dialogs and popovers'', fa_counts = True,
          fa_mdn = [],
          fa_spec = [],
          fa_tests = ''/results/?label=master&product=chrome&product=edge&product=firefox&product=safari&aligned&view=interop&q=label%3Ainterop-2026-dialogs-and-popovers'',
          fa_mobile_tests = Some (''/results/?label=master&product=chrome_android&product=firefox_android&aligned&view=interop&q=label%3Ainterop-2026-dialogs-and-popovers''),
          fa_labels = [''interop-2026-dialogs-and-popovers'']\<rparr>),
      (''interop-2026-fetch'',
        \<lparr>fa_description = ''Fetch uploads and ranges'', fa_counts = True,
          fa_mdn = [],
          fa_spec = ''https://fetch.spec.whatwg.org/'',
          fa_tests = ''/results/fetch?label=master&product=chrome&product=edge&product=firefox&product=safari&aligned&view=interop&q=label%3Ainterop-2026-fetch'',
          fa_mobile_tests = Some (''/results/fetch?label=master&product=chrome_android&product=firefox_android&aligned&view=interop&q=label%3Ainterop-2026-fetch''),
          fa_labels = [''interop-2026-fetch'']\<rparr>),
      (''interop-2026-indexeddb'',
        \<lparr>fa_description = ''IndexedDB'', fa_counts = True,
          fa_mdn = ''https://developer.mozilla.org/docs/Web/API/IndexedDB_API/Using_IndexedDB'',
          fa_spec = [],
          fa_tests = ''/results/IndexedDB?label=master&label=experimental&product=chrome&product=edge&product=firefox&product=safari&aligned&view=interop&q=label%3Ainterop-2026-indexeddb'',
          fa_mobile_tests = Some (''/results/IndexedDB?label=master&label=experimental&product=chrome_android&product=firefox_android&aligned&view=interop&q=label%3Ainterop-2026-indexeddb''),
          fa_labels = [''interop-2026-indexeddb'']\<rparr>),
      (''interop-2026-jspi-for-wasm'',
        \<lparr>fa_description = ''JSPI for WASM'', fa_counts = True,
          fa_mdn = [],
          fa_spec = ''https://webassembly.github.io/js-promise-integration/'',
          fa_tests = ''/results/wasm/jsapi/jspi?label=master&product=chrome&product=edge&product=firefox&product=safari&aligned&view=interop&q=label%3Ainterop-2026-jspi-for-wasm'',
          fa_mobile_tests = Some (''/results/wasm/jsapi/jspi?label=master&product=chrome_android&product=firefox_android&aligned&view=interop&q=label%3Ainterop-2026-jspi-for-wasm''),
          fa_labels = [''interop-2026-jspi-for-wasm'']\<rparr>),
      (''interop-2026-media-pseudo-classes'',
        \<lparr>fa_description = ''Media pseudo-classes'', fa_counts = True,
          fa_mdn = [],
          fa_spec = ''https://drafts.csswg.org/selectors-4/#resource-pseudos'',
          fa_tests = ''/results/css/selectors/media?label=master&product=chrome&product=edge&product=firefox&product=safari&aligned&view=interop&q=label%3Ainterop-2026-media-pseudo-classes'',
          fa_mobile_tests = Some (''/results/css/selectors/media?label=master&product=chrome_android&product=firefox_android&aligned&view=interop&q=label%3Ainterop-2026-media-pseudo-classes''),
          fa_labels = [''interop-2026-media-pseudo-classes'']\<rparr>),
      (''interop-2026-navigation'',
        \<lparr>fa_description = ''Navigation API'', fa_counts = True,
          fa_mdn = ''https://developer.mozilla.org/docs/Web/API/Navigation_API'',
          fa_spec = ''https://html.spec.whatwg.org/multipage/nav-history-apis.html#navigation-api'',
          fa_tests = ''/results/navigation-api?label=master&product=chrome&product=edge&product=firefox&product=safari&aligned&view=interop&q=label%3Ainterop-2026-navigation'',
          fa_mobile_tests = Some (''/results/navigation-api?label=master&product=chrome_android&product=firefox_android&aligned&view=interop&q=label%3Ainterop-2026-navigation''),
          fa_labels = [''interop-2026-navigation'']\<rparr>),
      (''interop-2026-scoped-custom-element-registries'',
        \<lparr>fa_description = ''Scoped custom element registries'', fa_counts = True,
          fa_mdn = ''https://developer.mozilla.org/docs/Web/API/CustomElementRegistry'',
          fa_spec = [],
          fa_tests = ''/results/custom-elements/registries?label=master&product=chrome&product=edge&product=firefox&product=safari&aligned&view=interop&q=label%3Ainterop-2026-scoped-custom-element-registries'',
          fa_mobile_tests = Some (''/results/custom-elements/registries?label=master&product=chrome_android&product=firefox_android&aligned&view=interop&q=label%3Ainterop-2026-scoped-custom-element-registries''),
          fa_labels = [''interop-2026-scoped-custom-element-registries'']\<rparr>),
      (''interop-2026-scroll-driven-animations'',
        \<lparr>fa_description = ''Scroll-driven animations'', fa_counts = True,
          fa_mdn = ''https://developer.mozilla.org/docs/Web/CSS/Guides/Scroll-driven_animations'',
          fa_spec = ''https://drafts.csswg.org/scroll-animations-1/'',
          fa_tests = ''/results/scroll-animations?label=master&product=chrome&product=edge&product=firefox&product=safari&aligned&view=interop&q=label%3Ainterop-2026-scroll-driven-animations'',
          fa_mobile_tests = Some (''/results/scroll-animations?label=master&product=chrome_android&product=firefox_android&aligned&view=interop&q=label%3Ainterop-2026-scroll-driven-animations''),
          fa_labels = [''interop-2026-scroll-driven-animations'']\<rparr>)]"

definition focus_areas_2026_b :: "focus_area obj" where
  "focus_areas_2026_b =
     [(''interop-2026-scroll-snap'',
        \<lparr>fa_description = ''Scroll snap'', fa_counts = True,
          fa_mdn = ''https://developer.mozilla.org/docs/Web/CSS/Guides/Scroll_snap'',
          fa_spec = ''https://drafts.csswg.org/css-scroll-snap-2/'',
          fa_tests = ''/results/css/css-scroll-snap?label=master&product=chrome&product=edge&product=firefox&product=safari&aligned&view=interop&q=label%3Ainterop-2026-scroll-snap'',
          fa_mobile_tests = Some (''/results/css/css-scroll-snap?label=master&product=chrome_android&product=firefox_android&aligned&view=interop&q=label%3Ainterop-2026-scroll-snap''),
          fa_labels = [''interop-2026-scroll-snap'']\<rparr>),
      (''interop-2026-shape'',
        \<lparr>fa_description = ''CSS shape()'', fa_counts = True,
          fa_mdn = ''https://developer.mozilla.org/docs/Web/CSS/Reference/Values/basic-shape/shape'',
          fa_spec = ''https://drafts.csswg.org/css-shapes-1/#shape-function'',
          fa_tests = ''/results/?label=master&product=chrome&product=edge&product=firefox&product=safari&aligned&view=interop&q=label%3Ainterop-2026-shape'',
          fa_mobile_tests = Some (''/results/?label=master&product=chrome_android&product=firefox_android&aligned&view=interop&q=label%3Ainterop-2026-shape''),
          fa_labels = [''interop-2026-shape'']\<rparr>),
      (''interop-2026-view-transitions'',
        \<lparr>fa_description = ''View transitions'', fa_counts = True,
          fa_mdn = [],
          fa_spec = ''https://drafts.csswg.org/css-view-transitions/'',
          fa_tests = ''/results/?label=master&product=chrome&product=edge&product=firefox&product=safari&aligned&view=interop&q=label%3Ainterop-2026-view-transitions'',
          fa_mobile_tests = Some (''/results/?label=master&product=chrome_android&product=firefox_android&aligned&view=interop&q=label%3Ainterop-2026-view-transitions''),
          fa_labels = [''interop-2026-view-transitions'']\<rparr>),
      (''interop-2026-webcompat'',
        \<lparr>fa_description = ''Web compat'', fa_counts = True,
          fa_mdn = [],
          fa_spec = [],
          fa_tests = ''/results/?label=master&product=chrome&product=edge&product=firefox&product=safari&aligned&view=interop&q=label%3Ainterop-2026-webcompat'',
          fa_mobile_tests = Some (''/results/?label=master&product=chrome_android&product=firefox_android&aligned&view=interop&q=label%3Ainterop-2026-webcompat''),
          fa_labels = [''interop-2026-webcompat'']\<rparr>),
      (''interop-2026-webrtc'',
        \<lparr>fa_description = ''WebRTC'', fa_counts = True,
          fa_mdn = ''https://developer.mozilla.org/docs/Web/API/WebRTC_API'',
          fa_spec = ''https://w3c.github.io/webrtc-pc/'',
          fa_tests = ''/results/?label=master&product=chrome&product=edge&product=firefox&product=safari&aligned&view=interop&q=label%3Ainterop-2026-webrtc'',
          fa_mobile_tests = Some (''/results/?label=master&product=chrome_android&product=firefox_android&aligned&view=interop&q=label%3Ainterop-2026-webrtc''),
          fa_labels = [''interop-2026-webrtc'']\<rparr>),
      (''interop-2026-webtransport'',
        \<lparr>fa_description = ''WebTransport'', fa_counts = True,
          fa_mdn = ''https://developer.mozilla.org/docs/Web/API/WebTransport_API'',
          fa_spec = ''https://w3c.github.io/webtransport/'',
          fa_tests = ''/results/webtransport?label=master&product=chrome&product=edge&product=firefox&product=safari&aligned&view=interop&q=label%3Ainterop-2026-webtransport'',
          fa_mobile_tests = Some (''/results/webtransport?label=master&product=chrome_android&product=firefox_android&aligned&view=interop&q=label%3Ainterop-2026-webtransport''),
          fa_labels = [''interop-2026-webtransport'']\<rparr>),
      (''interop-2026-zoom'',
        \<lparr>fa_description = ''CSS zoom'', fa_counts = True,
          fa_mdn = ''https://developer.mozilla.org/docs/Web/CSS/zoom'',
          fa_spec = ''https://drafts.csswg.org/css-viewport/#zoom-property'',
          fa_tests = ''/results/?label=master&product=chrome&product=edge&product=firefox&product=safari&aligned&view=interop&q=label%3Ainterop-2026-zoom'',
          fa_mobile_tests = Some (''/results/?label=master&product=chrome_android&product=firefox_android&aligned&view=interop&q=label%3Ainterop-2026-zoom''),
          fa_labels = [''interop-2026-zoom'']\<rparr>)]"

definition year_2026 :: year_info where
  "year_2026 =
     \<lparr>yi_browsers = Some [''chrome_canary'', ''edge'', ''firefox'', ''safari''],
      yi_mobile_browsers = Some [''chrome_android'', ''firefox_android''],
      table_sections = [
        \<lparr>ts_name = ''Active Focus Areas'', ts_score_as_group = False, ts_previous_investigation = False,
         ts_rows =
           [''interop-2026-anchor-positioning'', ''interop-2026-attr'', ''interop-2026-contrast-color'',
            ''interop-2026-container-style-queries'', ''interop-2026-custom-highlights'',
            ''interop-2026-dialogs-and-popovers'', ''interop-2026-fetch'', ''interop-2026-indexeddb'',
            ''interop-2026-jspi-for-wasm'', ''interop-2026-media-pseudo-classes'', ''interop-2026-navigation'',
            ''interop-2026-scoped-custom-element-registries'', ''interop-2026-scroll-driven-animations'',
            ''interop-2026-scroll-snap'', ''interop-2026-shape'', ''interop-2026-view-transitions'',
            ''interop-2026-webcompat'', ''interop-2026-webrtc'', ''interop-2026-webtransport'',
            ''interop-2026-zoom'']\<rparr>,
        \<lparr>ts_name = ''Active Investigations'', ts_score_as_group = True, ts_previous_investigation = False,
         ts_rows =
           [''Accessibility testing'', ''JPEG XL'', ''Mobile testing'', ''WebVTT'']\<rparr>],
      investigation_scores = Some [
        \<lparr>inv_name = ''Accessibility testing'', inv_url = ''https://github.com/web-platform-tests/interop-accessibility'',
         scores_over_time =
           [(''2026-04-07'', 300), (''2026-05-05'', 480), (''2026-07-06'', 502), (''2026-08-10'', 575)]\<rparr>,
        \<lparr>inv_name = ''JPEG XL'', inv_url = ''https://github.com/web-platform-tests/interop-jpegxl'',
         scores_over_time =
           [(''2026-06-01'', 783)]\<rparr>,
        \<lparr>inv_name = ''Mobile testing'', inv_url = ''https://github.com/web-platform-tests/interop-mobile-testing'',
         scores_over_time =
           []\<rparr>,
        \<lparr>inv_name = ''WebVTT'', inv_url = ''https://github.com/web-platform-tests/interop-webvtt'',
         scores_over_time =
           []\<rparr>],
      investigation_weight = Some (0),
      mobile_table_sections = Some [
        \<lparr>ts_name = ''Active Focus Areas'', ts_score_as_group = False, ts_previous_investigation = False,
         ts_rows =
           [''interop-2026-anchor-positioning'', ''interop-2026-attr'', ''interop-2026-contrast-color'',
            ''interop-2026-container-style-queries'', ''interop-2026-custom-highlights'',
            ''interop-2026-dialogs-and-popovers'', ''interop-2026-fetch'', ''interop-2026-indexeddb'',
            ''interop-2026-jspi-for-wasm'', ''interop-2026-media-pseudo-classes'', ''interop-2026-navigation'',
            ''interop-2026-scoped-custom-element-registries'', ''interop-2026-scroll-driven-animations'',
            ''interop-2026-scroll-snap'', ''interop-2026-shape'', ''interop-2026-view-transitions'',
            ''interop-2026-webcompat'', ''interop-2026-webrtc'', ''interop-2026-webtransport'',
            ''interop-2026-zoom'']\<rparr>,
        \<lparr>ts_name = ''Active Investigations'', ts_score_as_group = True, ts_previous_investigation = False,
         ts_rows =
           [''Accessibility testing'', ''JPEG XL'', ''Mobile testing'', ''WebVTT'']\<rparr>],
      mobile_focus_areas = Some [''interop-2026-anchor-positioning'', ''interop-2026-attr'', ''interop-2026-contrast-color'',
         ''interop-2026-container-style-queries'', ''interop-2026-custom-highlights'',
         ''interop-2026-dialogs-and-popovers'', ''interop-2026-fetch'', ''interop-2026-indexeddb'',
         ''interop-2026-jspi-for-wasm'', ''interop-2026-media-pseudo-classes'', ''interop-2026-navigation'',
         ''interop-2026-scoped-custom-element-registries'', ''interop-2026-scroll-driven-animations'',
         ''interop-2026-scroll-snap'', ''interop-2026-shape'', ''interop-2026-view-transitions'',
         ''interop-2026-webcompat'', ''interop-2026-webrtc'', ''interop-2026-webtransport'',
         ''interop-2026-zoom''],
      csv_url = ''https://raw.githubusercontent.com/web-platform-tests/results-analysis/gh-pages/data/interop-2026/interop-2026-{stable|experimental}-v2.csv'',
      mobile_csv_url = Some (''https://api.github.com/repos/jgraham/interop-results/contents/2026/latest/aligned/mobile-{stable|experimental}-current.csv?ref=main''),
      summary_feature_name = ''summary'',
      issue_url = Some (''https://github.com/web-platform-tests/interop/issues/new''),
      focus_areas_description = Some (''https://github.com/web-platform-tests/interop/blob/main/2026/README.md''),
      matrix_url = None,
      focus_areas = focus_areas_2026_a @ focus_areas_2026_b\<rparr>"

definition interop_years :: "year_info obj" where
  "interop_years =
     [(''2021'', year_2021), (''2022'', year_2022), (''2023'', year_2023), (''2024'', year_2024), (''2025'', year_2025), (''2026'', year_2026)]"

definition valid_years :: "string list" where
  "valid_years = [''2021'', ''2022'', ''2023'', ''2024'', ''2025'', ''2026'']"

definition valid_mobile_years :: "string list" where
  "valid_mobile_years = [''2024'', ''2025'', ''2026'']"

end
