(* ===== verification/InteropManager.thy ===== *)
theory InteropManager
  imports InteropData JsDate JsSort JsUrl
begin

text \<open>
  \<^verbatim>\<open>webapp/components/interop-data-manager.js\<close>: the scores of a year of Interop, read from CSV files into
  one table per focus area. A \<open>DataTable\<close> of Google Charts is the list of its column labels with its
  rows. \<open>None\<close> is an exception (a rejected promise) unless noted. The instant of the local midnight of
  a day is a parameter.
\<close>

section \<open>Browsers\<close>

record browser_info =
  experimentalIcon :: "string option"
  experimentalName :: "string option"
  graphColor :: string
  stableIcon :: "string option"
  tableName :: string
  tooltipName :: string

definition BROWSER_INFO :: "browser_info obj" where
  "BROWSER_INFO =
     [(''chrome_edge_dev'',
        \<lparr>experimentalIcon = None, experimentalName = None, graphColor = ''#fbc013'', stableIcon = None,
         tableName = ''Chrome/Edge'', tooltipName = ''Chrome''\<rparr>),
      (''chrome_dev'',
        \<lparr>experimentalIcon = Some ''chrome-dev'', experimentalName = Some ''Dev'', graphColor = ''#fbc013'',
         stableIcon = Some ''chrome'', tableName = ''Chrome'', tooltipName = ''Chrome''\<rparr>),
      (''chrome_android'',
        \<lparr>experimentalIcon = Some ''chrome'', experimentalName = Some ''Android'', graphColor = ''#fbc013'',
         stableIcon = Some ''chrome'', tableName = ''Chrome'', tooltipName = ''Chrome''\<rparr>),
      (''firefox_android'',
        \<lparr>experimentalIcon = Some ''geckoview'', experimentalName = Some ''Android'', graphColor = ''#fc7a3a'',
         stableIcon = Some ''firefox'', tableName = ''Firefox'', tooltipName = ''Firefox''\<rparr>),
      (''chrome_canary'',
        \<lparr>experimentalIcon = Some ''chrome-canary'', experimentalName = Some ''Canary'', graphColor = ''#fbc013'',
         stableIcon = Some ''chrome'', tableName = ''Chrome'', tooltipName = ''Chrome''\<rparr>),
      (''edge'',
        \<lparr>experimentalIcon = Some ''edge-dev'', experimentalName = Some ''Dev'', graphColor = ''#55d555'',
         stableIcon = Some ''edge'', tableName = ''Edge'', tooltipName = ''Edge''\<rparr>),
      (''firefox'',
        \<lparr>experimentalIcon = Some ''firefox-nightly'', experimentalName = Some ''Nightly'', graphColor = ''#fc7a3a'',
         stableIcon = Some ''firefox'', tableName = ''Firefox'', tooltipName = ''Firefox''\<rparr>),
      (''safari'',
        \<lparr>experimentalIcon = Some ''safari-preview'', experimentalName = Some ''Technology Preview'', graphColor = ''#148cda'',
         stableIcon = Some ''safari'', tableName = ''Safari'', tooltipName = ''Safari''\<rparr>),
      (''safari_mobile'',
        \<lparr>experimentalIcon = Some ''wktr'', experimentalName = Some ''iOS'', graphColor = ''#148cda'',
         stableIcon = Some ''safari'', tableName = ''Safari'', tooltipName = ''Safari''\<rparr>)]"

section \<open>The data of a year\<close>

text \<open>The manager; a property that is \<open>undefined\<close> is \<open>None\<close>.\<close>

record manager =
  dm_year :: string
  isMobileScoresView :: bool
  validMobileYears :: "string list"
  investigationScores :: "investigation list option"
  investigationWeight :: "rat option"
  previousInvestigationScores :: "investigation list option"
  investigationTotalScore :: "jsnum option"
  previousInvestigationTotalScore :: "jsnum option"
  focusAreas :: "focus_area obj"
  dm_browsers :: "string list"
  csvURL :: "string option"
  validYears :: "string list"
  focusAreasList :: "string list option"
  tableSections :: "table_section list option"
  browserInfo :: "browser_info option list"
  summaryFeatureName :: string
  issueURL :: "string option"
  focusAreasDescriptionLink :: "string option"

definition numBrowsers :: "manager \<Rightarrow> nat" where
  "numBrowsers dm = length (browserInfo dm)"

definition last_score :: "investigation \<Rightarrow> rat" where
  "last_score area = (if scores_over_time area = [] then 0 else snd (last (scores_over_time area)))"

text \<open>A mean of no numbers is \<open>0 / 0\<close>, which is \<open>NaN\<close>.\<close>

definition mean :: "rat \<Rightarrow> nat \<Rightarrow> jsnum" where
  "mean sm n = (if n = 0 then NaN else Num (sm / of_nat n))"

definition calcInvestigationTotalScore :: "investigation list option \<Rightarrow> jsnum option" where
  "calcInvestigationTotalScore scores =
     map_option (\<lambda>is. mean (sum_list (map last_score is)) (length is)) scores"

definition fetchYearData :: "string \<Rightarrow> bool \<Rightarrow> manager option" where
  "fetchYearData year mobile =
     (case obj_get interop_years year of
        None \<Rightarrow> None
      | Some yi \<Rightarrow>
          (let prev = (case obj_get interop_years (show_nat (digits_value year - 1)) of
                         None \<Rightarrow> None | Some p \<Rightarrow> investigation_scores p);
               browsers = (if mobile then yi_mobile_browsers yi
                           else Some (case yi_browsers yi of Some bs \<Rightarrow> bs
                                      | None \<Rightarrow> [''chrome_edge_dev'', ''firefox'', ''safari'']))
           in case browsers of
                None \<Rightarrow> None
              | Some bs \<Rightarrow> Some
                  \<lparr>dm_year = year, isMobileScoresView = mobile, validMobileYears = valid_mobile_years,
                   investigationScores = investigation_scores yi, investigationWeight = investigation_weight yi,
                   previousInvestigationScores = prev,
                   investigationTotalScore = calcInvestigationTotalScore (investigation_scores yi),
                   previousInvestigationTotalScore = calcInvestigationTotalScore prev,
                   focusAreas = focus_areas yi, dm_browsers = bs,
                   csvURL = (if mobile then mobile_csv_url yi else Some (csv_url yi)),
                   validYears = (if mobile then valid_mobile_years else valid_years),
                   focusAreasList = (if mobile then mobile_focus_areas yi
                                     else Some (map fst (own_order (focus_areas yi)))),
                   tableSections = (if mobile then mobile_table_sections yi else Some (table_sections yi)),
                   browserInfo = map (obj_get BROWSER_INFO) bs,
                   summaryFeatureName = summary_feature_name yi, issueURL = issue_url yi,
                   focusAreasDescriptionLink = focus_areas_description yi\<rparr>))"

section \<open>Reading a CSV file\<close>

text \<open>The lines of a text that are not empty; the decoded mobile files end their lines with CR LF.\<close>

fun split_crlf :: "string \<Rightarrow> string list" where
  "split_crlf (a # b # s) =
     (if a = CHR 0x0D \<and> b = CHR 0x0A then [] # split_crlf s
      else (case split_crlf (b # s) of [] \<Rightarrow> [[a]] | w # ws \<Rightarrow> (a # w) # ws))"
| "split_crlf s = [s]"

definition csv_lines :: "string \<Rightarrow> bool \<Rightarrow> string \<Rightarrow> string list" where
  "csv_lines url mobile csvText =
     filter (\<lambda>l. l \<noteq> [])
       (if mobile \<and> \<not> starts_with url ''/static/'' then split_crlf csvText else split_on (CHR 0x0A) csvText)"

text \<open>
  \<^verbatim>\<open>parseInt\<close>: white space, a sign, and the digits that follow, hexadecimal ones after \<^verbatim>\<open>0x\<close>;
  \<open>None\<close> is \<open>NaN\<close>.
\<close>

definition hex_value :: "string \<Rightarrow> nat" where
  "hex_value ds = foldl (\<lambda>n c. 16 * n + the (hex_val c)) 0 ds"

definition parseInt :: "string \<Rightarrow> int option" where
  "parseInt s0 =
     (let s = dropWhile is_space s0;
          neg = starts_with s ''-'';
          s = (if neg \<or> starts_with s ''+'' then drop 1 s else s);
          hex = starts_with s ''0x'' \<or> starts_with s ''0X'';
          ds = (if hex then takeWhile (\<lambda>c. hex_val c \<noteq> None) (drop 2 s) else takeWhile is_digit s);
          v = int (if hex then hex_value ds else digits_value ds)
      in if ds = [] then None else Some (if neg then - v else v))"

datatype chart_cell = DateCell "int option" | NumCell jsnum | TextCell string

record datatable =
  dt_columns :: "string list"
  dt_rows :: "chart_cell list list"

definition createTooltip :: "string \<Rightarrow> string \<Rightarrow> jsnum \<Rightarrow> string" where
  "createTooltip browser version score =
     show_js (case score of Num q \<Rightarrow> Num (q / 10) | _ \<Rightarrow> NaN) @ ''% passing '' @ [CHR 0x0A] @ browser @ '' '' @ version"

definition features :: "manager \<Rightarrow> string list \<Rightarrow> string list" where
  "features dm areas = summaryFeatureName dm # areas"

definition obj_of_keys :: "string list \<Rightarrow> 'v \<Rightarrow> 'v obj" where
  "obj_of_keys ks v = foldl (\<lambda>m k. obj_set k v m) [] ks"

definition new_table :: "browser_info list \<Rightarrow> datatable" where
  "new_table infos =
     \<lparr>dt_columns = ''Date'' # concat (map (\<lambda>b. [tableName b, []]) infos) @ [''Interop'', []], dt_rows = []\<rparr>"

definition tooltipBrowserNames :: "string list \<Rightarrow> browser_info list \<Rightarrow> string list" where
  "tooltipBrowserNames fs infos = concat (map (\<lambda>_. map tooltipName infos @ [''Interop'']) fs)"

definition csv_headers :: "nat \<Rightarrow> string \<Rightarrow> string list" where
  "csv_headers n line =
     map (\<lambda>l. case index_of l ''-'' of None \<Rightarrow> l | Some i \<Rightarrow> drop (i + 1) l)
       (take n (drop 2 (split_on (CHR '','') line)))"

text \<open>\<^verbatim>\<open>new Date(year, month - 1, day)\<close> as a day number; months and days out of range carry over.\<close>

definition csv_date :: "string \<Rightarrow> int option" where
  "csv_date s =
     (case map parseInt (split_on (CHR ''-'') s) of
        Some y # Some m # Some d # _ \<Rightarrow>
          Some (day_from_civil ((if 0 \<le> y \<and> y \<le> 99 then y + 1900 else y) + (m - 1) div 12) ((m - 1) mod 12 + 1) 1 + d - 1)
      | _ \<Rightarrow> None)"

text \<open>A date without time is read as a midnight in UTC.\<close>

definition iso_day :: "string \<Rightarrow> int option" where
  "iso_day s =
     (case (digits_at 0 4 s, digits_at 5 2 s, digits_at 8 2 s) of
        (Some y, Some m, Some d) \<Rightarrow> Some (day_from_civil y m d * ms_per_day)
      | _ \<Rightarrow> None)"

definition reached :: "(int \<Rightarrow> int) \<Rightarrow> int option \<Rightarrow> string \<times> rat \<Rightarrow> bool" where
  "reached midnight date entry =
     (case (date, iso_day (fst entry)) of (Some d, Some e) \<Rightarrow> midnight d \<ge> e | _ \<Rightarrow> False)"

definition score_at :: "(int \<Rightarrow> int) \<Rightarrow> int option \<Rightarrow> investigation \<Rightarrow> rat" where
  "score_at midnight date info =
     (case find (reached midnight date) (rev (scores_over_time info)) of None \<Rightarrow> 0 | Some e \<Rightarrow> snd e)"

text \<open>The weight may be \<open>undefined\<close>.\<close>

definition getInvestigationScoreAndWeight ::
  "(int \<Rightarrow> int) \<Rightarrow> manager \<Rightarrow> int option \<Rightarrow> jsnum \<times> rat option" where
  "getInvestigationScoreAndWeight midnight dm date =
     (case investigationScores dm of
        None \<Rightarrow> (Num 0, Some 0)
      | Some is \<Rightarrow> (mean (sum_list (map (score_at midnight date) is)) (length is), investigationWeight dm))"

definition summary_score :: "jsnum \<Rightarrow> jsnum \<times> rat option \<Rightarrow> jsnum" where
  "summary_score tst iv =
     (case (tst, fst iv, snd iv) of
        (Num t, Num s, Some w) \<Rightarrow> Num (of_int \<lfloor>t * (1 - w) + s * w\<rfloor>)
      | _ \<Rightarrow> NaN)"

definition per_mille :: "jsnum \<Rightarrow> jsnum" where
  "per_mille x = (case x of Num q \<Rightarrow> Num (q / 1000) | _ \<Rightarrow> NaN)"

type_synonym new_rows = "chart_cell list obj"

text \<open>The scores of the features, read from the values that follow; their counted sum.\<close>

fun add_scores ::
  "manager \<Rightarrow> string \<Rightarrow> string \<Rightarrow> string list \<Rightarrow> string list \<Rightarrow> new_rows \<times> rat \<Rightarrow> (new_rows \<times> rat) option" where
  "add_scores dm b version vals [] st = Some st"
| "add_scores dm b version [] (f # fs) st = None"
| "add_scores dm b version (x # vals) (f # fs) (rows, testScore) =
     (case (parseInt x, obj_get rows f, obj_get (focusAreas dm) f) of
        (Some k, Some row, Some fa) \<Rightarrow>
          if 0 \<le> k \<and> k \<le> 1000 then
            add_scores dm b version vals fs
              (obj_set f (row @ [NumCell (per_mille (Num (of_int k))), TextCell (createTooltip b version (Num (of_int k)))]) rows,
               if fa_counts fa then testScore + of_int k else testScore)
          else None
      | _ \<Rightarrow> None)"

definition numCountedFocusAreas :: "manager \<Rightarrow> string list \<Rightarrow> nat option" where
  "numCountedFocusAreas dm areas =
     (if list_all (\<lambda>k. has_key (focusAreas dm) k) areas
      then Some (length (filter (\<lambda>k. fa_counts (the (obj_get (focusAreas dm) k))) areas)) else None)"

definition push_at :: "nat \<Rightarrow> 'a \<Rightarrow> 'a list list \<Rightarrow> 'a list list option" where
  "push_at i x xss = (if i < length xss then Some (xss[i := xss ! i @ [x]]) else None)"

type_synonym csv_state = "new_rows \<times> string list list"

definition read_block ::
  "(int \<Rightarrow> int) \<Rightarrow> manager \<Rightarrow> string list \<Rightarrow> string list \<Rightarrow> string list \<Rightarrow> int option \<Rightarrow> nat \<Rightarrow> string \<Rightarrow> string list \<Rightarrow>
   csv_state \<Rightarrow> csv_state option" where
  "read_block midnight dm areas names headers date idx version vals st =
     (case push_at idx version (snd st) of
        None \<Rightarrow> None
      | Some versions \<Rightarrow>
          (let b = names ! idx;
               scores = (if isMobileScoresView dm \<and> b = ''Interop'' then version # vals else vals)
           in case (add_scores dm b version scores headers (fst st, 0), numCountedFocusAreas dm areas) of
                (Some (rows, testScore), Some n) \<Rightarrow>
                  (let summaryScore =
                         summary_score (mean testScore n) (getInvestigationScoreAndWeight midnight dm date);
                       s = summaryFeatureName dm
                   in map_option
                        (\<lambda>row. (obj_set s (row @ [NumCell (per_mille summaryScore),
                                  TextCell (createTooltip b version summaryScore)]) rows, versions))
                        (obj_get rows s))
              | _ \<Rightarrow> None))"

text \<open>The blocks of the browsers: a version and the scores of all focus areas; \<open>i\<close> is the index of the value.\<close>

function read_blocks ::
  "(int \<Rightarrow> int) \<Rightarrow> manager \<Rightarrow> string list \<Rightarrow> string list \<Rightarrow> string list \<Rightarrow> int option \<Rightarrow> nat \<Rightarrow> string list \<Rightarrow>
   csv_state \<Rightarrow> csv_state option" where
  "read_blocks midnight dm areas names headers date i [] st = Some st"
| "read_blocks midnight dm areas names headers date i (v # vs) st =
     (case read_block midnight dm areas names headers date (i div (length areas + 1)) v vs st of
        None \<Rightarrow> None
      | Some st \<Rightarrow>
          read_blocks midnight dm areas names headers date (i + length areas + 1) (drop (length areas) vs) st)"
  by pat_completeness auto
termination
  by (relation "measure (\<lambda>(_, _, _, _, _, _, _, vs, _). length vs)") auto

definition add_rows :: "new_rows \<Rightarrow> datatable obj \<Rightarrow> datatable obj option" where
  "add_rows rows tables =
     foldl (\<lambda>acc kv. case acc of
               None \<Rightarrow> None
             | Some ts \<Rightarrow> map_option (\<lambda>t. obj_set (fst kv) (t\<lparr>dt_rows := dt_rows t @ [snd kv]\<rparr>) ts) (obj_get ts (fst kv)))
       (Some tables) rows"

definition read_line ::
  "(int \<Rightarrow> int) \<Rightarrow> manager \<Rightarrow> string list \<Rightarrow> string list \<Rightarrow> string list \<Rightarrow> string \<Rightarrow>
   datatable obj \<times> string list list \<Rightarrow> (datatable obj \<times> string list list) option" where
  "read_line midnight dm areas names headers line st =
     (case split_on (CHR '','') line of
        [] \<Rightarrow> None
      | d # vals \<Rightarrow>
          (let date = csv_date d
           in case read_blocks midnight dm areas names headers date 1 vals
                     (obj_of_keys (features dm areas) [DateCell date], snd st) of
                None \<Rightarrow> None
              | Some (rows, versions) \<Rightarrow> map_option (\<lambda>ts. (ts, versions)) (add_rows rows (fst st))))"

fun read_lines ::
  "(int \<Rightarrow> int) \<Rightarrow> manager \<Rightarrow> string list \<Rightarrow> string list \<Rightarrow> string list \<Rightarrow> string list \<Rightarrow>
   datatable obj \<times> string list list \<Rightarrow> (datatable obj \<times> string list list) option" where
  "read_lines midnight dm areas names headers [] st = Some st"
| "read_lines midnight dm areas names headers (l # ls) st =
     (case read_line midnight dm areas names headers l st of
        None \<Rightarrow> None
      | Some st \<Rightarrow> read_lines midnight dm areas names headers ls st)"

text \<open>The tables of the features and the versions of the browsers; \<open>csvLines\<close> begins with the headers.\<close>

definition loadCsv ::
  "(int \<Rightarrow> int) \<Rightarrow> manager \<Rightarrow> string list \<Rightarrow> (datatable obj \<times> string list list) option" where
  "loadCsv midnight dm csvLines =
     (case (focusAreasList dm, those (browserInfo dm), csvLines) of
        (Some areas, Some infos, header # rest) \<Rightarrow>
          (let fs = features dm areas; names = tooltipBrowserNames fs infos
           in read_lines midnight dm areas names (csv_headers (length areas) header) rest
                (obj_of_keys fs (new_table infos), map (\<lambda>_. []) names))
      | _ \<Rightarrow> None)"

section \<open>The most recent scores\<close>

definition getColumnIndex :: "datatable \<Rightarrow> string \<Rightarrow> nat option" where
  "getColumnIndex t label = find_index (\<lambda>c. c = label) (dt_columns t)"

text \<open>A number of a row, times thousand; no row, no column, or another kind of cell: an exception.\<close>

definition last_value :: "datatable \<Rightarrow> string \<Rightarrow> jsnum option" where
  "last_value t label =
     (case (dt_rows t, getColumnIndex t label) of
        (_ # _, Some c) \<Rightarrow>
          (case elem_at (last (dt_rows t)) c of
             Some (NumCell (Num q)) \<Rightarrow> Some (Num (q * 1000)) | Some (NumCell _) \<Rightarrow> Some NaN | _ \<Rightarrow> None)
      | _ \<Rightarrow> None)"

text \<open>One object per browser and one for Interop: the features with their scores.\<close>

definition getMostRecentScores :: "manager \<Rightarrow> bool \<Rightarrow> datatable obj \<Rightarrow> jsnum obj list option" where
  "getMostRecentScores dm isStable tables =
     (if isMobileScoresView dm \<and> isStable then Some []
      else case (focusAreasList dm, those (browserInfo dm)) of
        (Some areas, Some infos) \<Rightarrow>
          those (map (\<lambda>name. those (map
              (\<lambda>f. case obj_get tables f of None \<Rightarrow> None | Some t \<Rightarrow> map_option (Pair f) (last_value t name))
              (features dm areas))) (map tableName infos @ [''Interop'']))
      | _ \<Rightarrow> None)"

definition getDataTable :: "string \<Rightarrow> bool \<Rightarrow> datatable obj \<Rightarrow> datatable obj \<Rightarrow> datatable option" where
  "getDataTable feature isStable stableDatatables experimentalDatatables =
     (if isStable then obj_get stableDatatables feature else obj_get experimentalDatatables feature)"

text \<open>
  The server, \<open>fetch\<close>, gives the text at an address (decoded, in the mobile view), or nothing when the
  request fails. There is no stable file for mobiles.
\<close>

definition load_label ::
  "(int \<Rightarrow> int) \<Rightarrow> (string \<Rightarrow> string option) \<Rightarrow> manager \<Rightarrow> string \<Rightarrow> (datatable obj \<times> string list list) option option" where
  "load_label midnight fetch dm label =
     (if isMobileScoresView dm \<and> label = ''stable'' then Some None
      else case csvURL dm of
        None \<Rightarrow> None
      | Some u \<Rightarrow>
          (let url = replace_first ''{stable|experimental}'' label u
           in case fetch url of
                None \<Rightarrow> None
              | Some csvText \<Rightarrow> map_option Some (loadCsv midnight dm (csv_lines url (isMobileScoresView dm) csvText))))"

record loaded =
  ld_manager :: manager
  ld_stable :: "(datatable obj \<times> string list list) option"
  ld_experimental :: "(datatable obj \<times> string list list) option"

definition load_year ::
  "(int \<Rightarrow> int) \<Rightarrow> (string \<Rightarrow> string option) \<Rightarrow> string \<Rightarrow> bool \<Rightarrow> loaded option" where
  "load_year midnight fetch year mobile =
     (case fetchYearData year mobile of
        None \<Rightarrow> None
      | Some dm \<Rightarrow>
          (case (load_label midnight fetch dm ''stable'', load_label midnight fetch dm ''experimental'') of
             (Some st, Some ex) \<Rightarrow> Some \<lparr>ld_manager = dm, ld_stable = st, ld_experimental = ex\<rparr>
           | _ \<Rightarrow> None))"

definition getBrowserVersions :: "bool \<Rightarrow> loaded \<Rightarrow> string list list option" where
  "getBrowserVersions isStable l = map_option snd (if isStable then ld_stable l else ld_experimental l)"

definition recent_scores :: "bool \<Rightarrow> loaded \<Rightarrow> jsnum obj list option" where
  "recent_scores isStable l =
     getMostRecentScores (ld_manager l) isStable
       (case (if isStable then ld_stable l else ld_experimental l) of None \<Rightarrow> [] | Some tv \<Rightarrow> fst tv)"

section \<open>Files of the form that is expected\<close>

text \<open>A line of the desktop files: a date, and for each browser a version and its scores.\<close>

type_synonym block = "string \<times> nat list"

definition block_values :: "block \<Rightarrow> string list" where
  "block_values b = fst b # map show_nat (snd b)"

definition csv_line :: "string \<Rightarrow> block list \<Rightarrow> string" where
  "csv_line d bs = join '','' (d # concat (map block_values bs))"

definition block_ok :: "nat \<Rightarrow> block \<Rightarrow> bool" where
  "block_ok n b \<longleftrightarrow> CHR '','' \<notin> set (fst b) \<and> length (snd b) = n \<and> (\<forall>k \<in> set (snd b). k \<le> 1000)"

definition line_ok :: "nat \<Rightarrow> nat \<Rightarrow> string \<times> block list \<Rightarrow> bool" where
  "line_ok n browsers l \<longleftrightarrow>
     CHR '','' \<notin> set (fst l) \<and> length (snd l) = browsers + 1 \<and> list_all (block_ok n) (snd l)"

lemma parseInt_show_nat [simp]: "parseInt (show_nat k) = Some (int k)"
proof -
  have d: "\<forall>c \<in> set (show_nat k). is_digit c" using show_nat_digits by blast
  obtain c cs where s: "show_nat k = c # cs" by (cases "show_nat k") auto
  have "is_digit c" using d s by simp
  then have "\<not> is_space c" "c \<noteq> CHR ''-''" "c \<noteq> CHR ''+''" by (auto simp: is_digit_def is_space_def Let_def)
  moreover have "takeWhile is_digit (c # cs) = c # cs"
    using d unfolding s by (simp add: takeWhile_eq_all_conv)
  moreover have "\<not> starts_with (c # cs) ''0x''" "\<not> starts_with (c # cs) ''0X''"
    using d unfolding s by (cases cs; auto simp: is_digit_def)+
  ultimately show ?thesis
    using digits_value_show_nat [of k] unfolding parseInt_def s Let_def by auto
qed

lemma split_csv_line:
  assumes "line_ok n browsers (d, bs)"
  shows "split_on (CHR '','') (csv_line d bs) = d # concat (map block_values bs)"
  unfolding csv_line_def
proof (rule split_on_join)
  have "CHR '','' \<notin> set (show_nat k)" for k
    using show_nat_digits [of "CHR '',''" k] by (auto simp: is_digit_def)
  then show "\<forall>w \<in> set (d # concat (map block_values bs)). CHR '','' \<notin> set w"
    using assms by (auto simp: line_ok_def block_ok_def block_values_def list_all_iff)
qed simp

section \<open>What a block adds\<close>

definition score_cells :: "string \<Rightarrow> string \<Rightarrow> jsnum \<Rightarrow> chart_cell list" where
  "score_cells b version score = [NumCell (per_mille score), TextCell (createTooltip b version score)]"

lemma add_scores_spec:
  assumes "distinct hs" and "length ss = length hs" and "\<forall>k \<in> set ss. k \<le> 1000"
    and "\<forall>f \<in> set hs. obj_get rows f \<noteq> None \<and> obj_get (focusAreas dm) f \<noteq> None"
  shows "\<exists>rows'. add_scores dm b v (map show_nat ss @ rest) hs (rows, t) =
      Some (rows', t + (\<Sum>(f, k) \<leftarrow> zip hs ss. if fa_counts (the (obj_get (focusAreas dm) f)) then of_nat k else 0)) \<and>
    obj_keys rows' = obj_keys rows \<and>
    (\<forall>f. obj_get rows' f = (case map_of (zip hs ss) f of
       None \<Rightarrow> obj_get rows f
     | Some k \<Rightarrow> map_option (\<lambda>r. r @ score_cells b v (Num (of_nat k))) (obj_get rows f)))"
  using assms
proof (induction hs arbitrary: ss rows t)
  case (Cons h hs)
  from Cons.prems(2) obtain k ks where ss: "ss = k # ks" by (cases ss) auto
  obtain row fa where r: "obj_get rows h = Some row" and fa: "obj_get (focusAreas dm) h = Some fa"
    using Cons.prems(4) by auto
  let ?rows = "obj_set h (row @ score_cells b v (Num (of_nat k))) rows"
  have keys: "obj_keys ?rows = obj_keys rows"
  proof -
    have "h \<in> set (obj_keys rows)" using r by (metis map_of_SomeD fst_conv image_eqI list.set_map)
    then show ?thesis by (induction rows) auto
  qed
  have get: "obj_get ?rows f = (if f = h then Some (row @ score_cells b v (Num (of_nat k))) else obj_get rows f)" for f
    by (simp add: obj_get_set)
  let ?t = "if fa_counts fa then t + of_nat k else t"
  have pre: "distinct hs" "length ks = length hs" "\<forall>k \<in> set ks. k \<le> 1000"
    "\<forall>f \<in> set hs. obj_get ?rows f \<noteq> None \<and> obj_get (focusAreas dm) f \<noteq> None"
    using Cons.prems ss by (auto simp: get)
  from Cons.IH [OF pre, of ?t]
  obtain rows' where rows': "add_scores dm b v (map show_nat ks @ rest) hs (?rows, ?t) =
      Some (rows', ?t + (\<Sum>(f, k) \<leftarrow> zip hs ks. if fa_counts (the (obj_get (focusAreas dm) f)) then of_nat k else 0))"
    "obj_keys rows' = obj_keys ?rows"
    "\<forall>f. obj_get rows' f = (case map_of (zip hs ks) f of
       None \<Rightarrow> obj_get ?rows f
     | Some k \<Rightarrow> map_option (\<lambda>r. r @ score_cells b v (Num (of_nat k))) (obj_get ?rows f))"
    by blast
  have none: "map_of (zip hs ks) h = None" using Cons.prems(1) pre(2) by (simp add: map_of_zip_is_None)
  have "add_scores dm b v (map show_nat ss @ rest) (h # hs) (rows, t) =
      add_scores dm b v (map show_nat ks @ rest) hs (?rows, ?t)"
    using Cons.prems(3) by (simp add: ss r fa score_cells_def)
  moreover have "obj_get rows' f = (case map_of (zip (h # hs) ss) f of
       None \<Rightarrow> obj_get rows f
     | Some k \<Rightarrow> map_option (\<lambda>r. r @ score_cells b v (Num (of_nat k))) (obj_get rows f))" for f
    using rows'(3) none r unfolding get ss by (cases "f = h") simp_all
  ultimately show ?case
    using rows'(1,2) keys unfolding ss by (intro exI [of _ rows']) (simp add: fa)
qed simp

text \<open>The score that a block has for a feature.\<close>

definition block_score ::
  "(int \<Rightarrow> int) \<Rightarrow> manager \<Rightarrow> string list \<Rightarrow> string list \<Rightarrow> int option \<Rightarrow> string \<Rightarrow> nat list \<Rightarrow> jsnum" where
  "block_score midnight dm areas hs date f ss =
     (if f = summaryFeatureName dm then
        summary_score
          (mean (\<Sum>(f, k) \<leftarrow> zip hs ss. if fa_counts (the (obj_get (focusAreas dm) f)) then of_nat k else 0)
             (length (filter (\<lambda>k. fa_counts (the (obj_get (focusAreas dm) k))) areas)))
          (getInvestigationScoreAndWeight midnight dm date)
      else (case map_of (zip hs ss) f of Some k \<Rightarrow> Num (of_nat k) | None \<Rightarrow> Undefined))"

text \<open>What is known of the manager and the headers of a desktop file.\<close>

definition csv_ready :: "manager \<Rightarrow> string list \<Rightarrow> string list \<Rightarrow> bool" where
  "csv_ready dm areas hs \<longleftrightarrow>
     \<not> isMobileScoresView dm \<and> areas \<noteq> [] \<and> distinct (features dm areas) \<and> distinct hs \<and> set hs = set areas \<and>
     (\<forall>f \<in> set areas. obj_get (focusAreas dm) f \<noteq> None)"

definition row_keys :: "manager \<Rightarrow> string list \<Rightarrow> 'v obj \<Rightarrow> bool" where
  "row_keys dm areas rows \<longleftrightarrow> obj_keys rows = features dm areas"

lemma row_keys_get: "row_keys dm areas rows \<Longrightarrow> f \<in> set (features dm areas) \<Longrightarrow> \<exists>r. obj_get rows f = Some r"
  unfolding row_keys_def by (metis list.set_map map_of_eq_None_iff not_None_eq)

lemma obj_keys_set: "k \<in> set (obj_keys m) \<Longrightarrow> obj_keys (obj_set k v m) = obj_keys m"
  by (induction m) auto

lemma ready_length: "csv_ready dm areas hs \<Longrightarrow> length hs = length areas"
  by (metis csv_ready_def distinct.simps(2) distinct_card features_def)

lemma counted_some:
  "csv_ready dm areas hs \<Longrightarrow> numCountedFocusAreas dm areas =
     Some (length (filter (\<lambda>k. fa_counts (the (obj_get (focusAreas dm) k))) areas))"
  by (auto simp: numCountedFocusAreas_def csv_ready_def list_all_iff has_key_def)

lemma read_block_spec:
  assumes ready: "csv_ready dm areas hs" and ok: "block_ok (length areas) (v, ss)"
    and keys: "row_keys dm areas rows" and idx: "idx < length versions" "length versions = length names"
  shows "\<exists>rows' versions'.
    read_block midnight dm areas names hs date idx v (map show_nat ss @ rest) (rows, versions) = Some (rows', versions') \<and>
    row_keys dm areas rows' \<and> length versions' = length names \<and>
    (\<forall>f \<in> set (features dm areas). obj_get rows' f =
       map_option (\<lambda>r. r @ score_cells (names ! idx) v (block_score midnight dm areas hs date f ss)) (obj_get rows f))"
proof -
  let ?b = "names ! idx" and ?s = "summaryFeatureName dm"
  let ?sum = "\<Sum>(f, k) \<leftarrow> zip hs ss. if fa_counts (the (obj_get (focusAreas dm) f)) then of_nat k else 0 :: rat"
  have len: "length ss = length hs" using ready_length [OF ready] ok by (simp add: block_ok_def)
  have hs: "distinct hs" "set hs = set areas" "?s \<notin> set hs"
    using ready by (auto simp: csv_ready_def features_def)
  have "\<forall>f \<in> set hs. obj_get rows f \<noteq> None \<and> obj_get (focusAreas dm) f \<noteq> None"
    using ready row_keys_get [OF keys] hs by (fastforce simp: csv_ready_def features_def)
  from add_scores_spec [OF hs(1) len _ this, of ?b v rest 0] ok
  obtain rows1 where rows1: "add_scores dm ?b v (map show_nat ss @ rest) hs (rows, 0) = Some (rows1, ?sum)"
    "obj_keys rows1 = obj_keys rows"
    "\<forall>f. obj_get rows1 f = (case map_of (zip hs ss) f of
       None \<Rightarrow> obj_get rows f
     | Some k \<Rightarrow> map_option (\<lambda>r. r @ score_cells ?b v (Num (of_nat k))) (obj_get rows f))"
    by (auto simp: block_ok_def)
  have s_none: "map_of (zip hs ss) ?s = None" using hs(3) len by (simp add: map_of_zip_is_None)
  obtain row where row: "obj_get rows ?s = Some row"
    using row_keys_get [OF keys, of ?s] by (auto simp: features_def)
  let ?score = "block_score midnight dm areas hs date ?s ss"
  let ?rows = "obj_set ?s (row @ score_cells ?b v ?score) rows1"
  have block: "read_block midnight dm areas names hs date idx v (map show_nat ss @ rest) (rows, versions) =
      Some (?rows, versions[idx := versions ! idx @ [v]])"
    using idx ready rows1 row s_none counted_some [OF ready]
    by (simp add: read_block_def push_at_def csv_ready_def block_score_def score_cells_def Let_def)
  moreover have "row_keys dm areas ?rows"
    using keys rows1(2) unfolding row_keys_def
    by (subst obj_keys_set) (simp_all add: features_def)
  moreover have "obj_get ?rows f =
       map_option (\<lambda>r. r @ score_cells ?b v (block_score midnight dm areas hs date f ss)) (obj_get rows f)"
    if f: "f \<in> set (features dm areas)" for f
  proof (cases "f = ?s")
    case True
    with row show ?thesis by (simp add: obj_get_set)
  next
    case False
    with f hs have "f \<in> set hs" by (simp add: features_def)
    with len have "map_of (zip hs ss) f \<noteq> None" by (simp add: map_of_zip_is_None)
    with False rows1(3) show ?thesis by (auto simp: obj_get_set block_score_def)
  qed
  ultimately show ?thesis using idx by auto
qed

lemma read_blocks_spec:
  assumes ready: "csv_ready dm areas hs"
  shows "list_all (block_ok (length areas)) bs \<Longrightarrow> row_keys dm areas rows \<Longrightarrow> length versions = length names \<Longrightarrow>
    idx + length bs \<le> length names \<Longrightarrow>
    \<exists>rows' versions'.
      read_blocks midnight dm areas names hs date (1 + idx * (length areas + 1)) (concat (map block_values bs)) (rows, versions) =
        Some (rows', versions') \<and>
      row_keys dm areas rows' \<and> length versions' = length names \<and>
      (\<forall>f \<in> set (features dm areas). obj_get rows' f =
         map_option (\<lambda>r. r @ concat (map (\<lambda>(b, v, ss). score_cells b v (block_score midnight dm areas hs date f ss))
                               (zip (drop idx names) bs))) (obj_get rows f))"
proof (induction bs arbitrary: idx rows versions)
  case Nil
  then show ?case by (intro exI [of _ rows] exI [of _ versions]) (auto simp: map_option.identity)
next
  case (Cons b bs)
  obtain v ss where b: "b = (v, ss)" by (cases b)
  have idx: "idx < length versions" using Cons.prems by simp
  have ok: "block_ok (length areas) (v, ss)" "length ss = length areas"
    using Cons.prems(1) b by (auto simp: block_ok_def)
  have div: "(1 + idx * (length areas + 1)) div (length areas + 1) = idx"
  proof -
    have "1 div (length areas + 1) = 0" using ready by (simp add: csv_ready_def)
    then show ?thesis by (simp only: div_mult_self1 [of "length areas + 1" 1 idx])
  qed
  let ?rest = "concat (map block_values bs)"
  from read_block_spec [OF ready ok(1) Cons.prems(2) idx Cons.prems(3), of midnight date ?rest]
  obtain rows1 versions1 where one:
    "read_block midnight dm areas names hs date idx v (map show_nat ss @ ?rest) (rows, versions) = Some (rows1, versions1)"
    "row_keys dm areas rows1" "length versions1 = length names"
    "\<forall>f \<in> set (features dm areas). obj_get rows1 f =
       map_option (\<lambda>r. r @ score_cells (names ! idx) v (block_score midnight dm areas hs date f ss)) (obj_get rows f)"
    by blast
  have "list_all (block_ok (length areas)) bs" "Suc idx + length bs \<le> length names" using Cons.prems by auto
  from Cons.IH [OF this(1) one(2,3) this(2)]
  obtain rows2 versions2 where two:
    "read_blocks midnight dm areas names hs date (1 + Suc idx * (length areas + 1)) ?rest (rows1, versions1) =
       Some (rows2, versions2)"
    "row_keys dm areas rows2" "length versions2 = length names"
    "\<forall>f \<in> set (features dm areas). obj_get rows2 f =
       map_option (\<lambda>r. r @ concat (map (\<lambda>(b, v, ss). score_cells b v (block_score midnight dm areas hs date f ss))
                             (zip (drop (Suc idx) names) bs))) (obj_get rows1 f)"
    by blast
  define i where "i = 1 + idx * (length areas + 1)"
  have i: "i div (length areas + 1) = idx" "i + length areas + 1 = 1 + Suc idx * (length areas + 1)"
    using div by (simp_all add: i_def)
  have "concat (map block_values (b # bs)) = v # map show_nat ss @ ?rest" by (simp add: b block_values_def)
  then have "read_blocks midnight dm areas names hs date (1 + idx * (length areas + 1)) (concat (map block_values (b # bs)))
      (rows, versions) = Some (rows2, versions2)"
    unfolding i_def [symmetric] using one(1) two(1) ok(2) by (simp only: read_blocks.simps i) simp
  moreover have "drop idx names = names ! idx # drop (Suc idx) names"
    using Cons.prems by (simp add: Cons_nth_drop_Suc)
  ultimately show ?case
    using one(4) two(2-4) by (intro exI [of _ rows2] exI [of _ versions2]) (auto simp: b option.map_comp comp_def)
qed

section \<open>What a file gives\<close>

lemma obj_of_keys: "distinct ks \<Longrightarrow> obj_of_keys ks v = map (\<lambda>k. (k, v)) ks"
proof -
  have "distinct (map fst acc @ ks) \<Longrightarrow> foldl (\<lambda>m k. obj_set k v m) acc ks = acc @ map (\<lambda>k. (k, v)) ks" for acc
  proof (induction ks arbitrary: acc)
    case (Cons k ks)
    then have "\<not> has_key acc k" by (simp add: has_key_iff)
    then have "obj_set k v acc = acc @ [(k, v)]" by (rule obj_set_new)
    with Cons show ?case by simp
  qed simp
  from this [of "[]"] show "distinct ks \<Longrightarrow> obj_of_keys ks v = map (\<lambda>k. (k, v)) ks"
    by (simp add: obj_of_keys_def)
qed

lemma map_of_const: "f \<in> set ks \<Longrightarrow> map_of (map (\<lambda>k. (k, c)) ks) f = Some c"
  by (induction ks) auto

lemma add_rows_spec:
  assumes "distinct (obj_keys rows)" and "set (obj_keys rows) \<subseteq> set (obj_keys ts)"
  shows "\<exists>ts'. add_rows rows ts = Some ts' \<and> obj_keys ts' = obj_keys ts \<and>
    (\<forall>f. obj_get ts' f = (case obj_get rows f of None \<Rightarrow> obj_get ts f
       | Some r \<Rightarrow> map_option (\<lambda>t. t\<lparr>dt_rows := dt_rows t @ [r]\<rparr>) (obj_get ts f)))"
  using assms
proof (induction rows arbitrary: ts)
  case Nil
  then show ?case by (simp add: add_rows_def)
next
  case (Cons kv rows)
  obtain k r where kv: "kv = (k, r)" by (cases kv)
  have k: "k \<in> set (obj_keys ts)" using Cons.prems kv by simp
  then obtain t where t: "obj_get ts k = Some t" by (metis list.set_map map_of_eq_None_iff not_None_eq)
  let ?ts = "obj_set k (t\<lparr>dt_rows := dt_rows t @ [r]\<rparr>) ts"
  have keys: "obj_keys ?ts = obj_keys ts" using k by (rule obj_keys_set)
  have get: "obj_get ?ts f = (if f = k then Some (t\<lparr>dt_rows := dt_rows t @ [r]\<rparr>) else obj_get ts f)" for f
    by (simp add: obj_get_set)
  have "distinct (obj_keys rows)" "set (obj_keys rows) \<subseteq> set (obj_keys ?ts)"
    unfolding keys using Cons.prems by auto
  from Cons.IH [OF this] obtain ts' where ts': "add_rows rows ?ts = Some ts'" "obj_keys ts' = obj_keys ?ts"
    "\<forall>f. obj_get ts' f = (case obj_get rows f of None \<Rightarrow> obj_get ?ts f
       | Some r \<Rightarrow> map_option (\<lambda>t. t\<lparr>dt_rows := dt_rows t @ [r]\<rparr>) (obj_get ?ts f))"
    by blast
  have "add_rows (kv # rows) ts = add_rows rows ?ts" by (simp add: add_rows_def kv t)
  moreover have "obj_get rows k = None"
    using Cons.prems(1) kv by (simp add: map_of_eq_None_iff)
  then have "obj_get ts' f = (case obj_get (kv # rows) f of None \<Rightarrow> obj_get ts f
       | Some r \<Rightarrow> map_option (\<lambda>t. t\<lparr>dt_rows := dt_rows t @ [r]\<rparr>) (obj_get ts f))" for f
    using ts'(3) kv t unfolding get by (cases "f = k") simp_all
  ultimately show ?case using ts'(1,2) keys by auto
qed

definition browser_names :: "browser_info list \<Rightarrow> string list" where
  "browser_names infos = map tooltipName infos @ [''Interop'']"

definition line_cells ::
  "(int \<Rightarrow> int) \<Rightarrow> manager \<Rightarrow> string list \<Rightarrow> string list \<Rightarrow> browser_info list \<Rightarrow> string \<Rightarrow> string \<times> block list \<Rightarrow> chart_cell list" where
  "line_cells midnight dm areas hs infos f l =
     DateCell (csv_date (fst l)) #
     concat (map (\<lambda>(b, v, ss). score_cells b v (block_score midnight dm areas hs (csv_date (fst l)) f ss))
       (zip (browser_names infos) (snd l)))"

lemma names_prefix:
  "\<exists>more. tooltipBrowserNames (features dm areas) infos = browser_names infos @ more"
  by (simp add: tooltipBrowserNames_def features_def browser_names_def)

lemma read_line_spec:
  assumes ready: "csv_ready dm areas hs" and ok: "line_ok (length areas) (length infos) l"
    and tables: "obj_keys tables = features dm areas"
    and names: "names = tooltipBrowserNames (features dm areas) infos" "length versions = length names"
  shows "\<exists>tables' versions'.
    read_line midnight dm areas names hs (csv_line (fst l) (snd l)) (tables, versions) = Some (tables', versions') \<and>
    obj_keys tables' = features dm areas \<and> length versions' = length names \<and>
    (\<forall>f \<in> set (features dm areas). obj_get tables' f =
       map_option (\<lambda>t. t\<lparr>dt_rows := dt_rows t @ [line_cells midnight dm areas hs infos f l]\<rparr>) (obj_get tables f))"
proof -
  obtain d bs where l: "l = (d, bs)" by (cases l)
  obtain more where more: "names = browser_names infos @ more" using names_prefix names(1) by blast
  have bs: "list_all (block_ok (length areas)) bs" "length bs = length (browser_names infos)"
    using ok by (auto simp: l line_ok_def browser_names_def)
  have dist: "distinct (features dm areas)" using ready by (simp add: csv_ready_def)
  let ?rows = "obj_of_keys (features dm areas) [DateCell (csv_date d)]"
  have keys: "row_keys dm areas ?rows" using dist by (simp add: row_keys_def obj_of_keys comp_def)
  have "0 + length bs \<le> length names" using bs(2) more by simp
  from read_blocks_spec [OF ready bs(1) keys names(2) this, of midnight "csv_date d"]
  obtain rows versions' where blocks:
    "read_blocks midnight dm areas names hs (csv_date d) 1 (concat (map block_values bs)) (?rows, versions) = Some (rows, versions')"
    "row_keys dm areas rows" "length versions' = length names"
    "\<forall>f \<in> set (features dm areas). obj_get rows f =
       map_option (\<lambda>r. r @ concat (map (\<lambda>(b, v, ss). score_cells b v (block_score midnight dm areas hs (csv_date d) f ss))
                             (zip names bs))) (obj_get ?rows f)"
    by auto
  have zip: "zip names bs = zip (browser_names infos) bs" using bs(2) by (simp add: more zip_append1)
  have cells: "obj_get rows f = Some (line_cells midnight dm areas hs infos f l)" if "f \<in> set (features dm areas)" for f
  proof -
    have "obj_get ?rows f = Some [DateCell (csv_date d)]" using that dist by (simp add: obj_of_keys map_of_const)
    with that blocks(4) show ?thesis by (simp add: zip line_cells_def l)
  qed
  have "distinct (obj_keys rows)" "set (obj_keys rows) \<subseteq> set (obj_keys tables)"
    using blocks(2) dist tables by (simp_all add: row_keys_def)
  from add_rows_spec [OF this] obtain ts' where ts': "add_rows rows tables = Some ts'" "obj_keys ts' = obj_keys tables"
    "\<forall>f. obj_get ts' f = (case obj_get rows f of None \<Rightarrow> obj_get tables f
       | Some r \<Rightarrow> map_option (\<lambda>t. t\<lparr>dt_rows := dt_rows t @ [r]\<rparr>) (obj_get tables f))"
    by blast
  have "split_on (CHR '','') (csv_line d bs) = d # concat (map block_values bs)"
    using ok unfolding l by (rule split_csv_line)
  then have "read_line midnight dm areas names hs (csv_line (fst l) (snd l)) (tables, versions) = Some (ts', versions')"
    using blocks(1) ts'(1) by (simp add: read_line_def l)
  with ts'(2,3) tables blocks(3) cells show ?thesis by (intro exI [of _ ts'] exI [of _ versions']) simp
qed

lemma read_lines_spec:
  assumes ready: "csv_ready dm areas hs"
    and names: "names = tooltipBrowserNames (features dm areas) infos"
  shows "list_all (line_ok (length areas) (length infos)) ls \<Longrightarrow> obj_keys tables = features dm areas \<Longrightarrow>
    length versions = length names \<Longrightarrow>
    \<exists>tables' versions'.
      read_lines midnight dm areas names hs (map (\<lambda>l. csv_line (fst l) (snd l)) ls) (tables, versions) = Some (tables', versions') \<and>
      (\<forall>f \<in> set (features dm areas). obj_get tables' f =
         map_option (\<lambda>t. t\<lparr>dt_rows := dt_rows t @ map (line_cells midnight dm areas hs infos f) ls\<rparr>) (obj_get tables f))"
proof (induction ls arbitrary: tables versions)
  case Nil
  then show ?case by (intro exI [of _ tables] exI [of _ versions]) (simp add: map_option.identity)
next
  case (Cons l ls)
  have "line_ok (length areas) (length infos) l" using Cons.prems by simp
  from read_line_spec [OF ready this Cons.prems(2) names Cons.prems(3), of midnight]
  obtain tables1 versions1 where one:
    "read_line midnight dm areas names hs (csv_line (fst l) (snd l)) (tables, versions) = Some (tables1, versions1)"
    "obj_keys tables1 = features dm areas" "length versions1 = length names"
    "\<forall>f \<in> set (features dm areas). obj_get tables1 f =
       map_option (\<lambda>t. t\<lparr>dt_rows := dt_rows t @ [line_cells midnight dm areas hs infos f l]\<rparr>) (obj_get tables f)"
    by blast
  from Cons.IH [OF _ one(2,3)] Cons.prems
  obtain tables2 versions2 where two:
    "read_lines midnight dm areas names hs (map (\<lambda>l. csv_line (fst l) (snd l)) ls) (tables1, versions1) = Some (tables2, versions2)"
    "\<forall>f \<in> set (features dm areas). obj_get tables2 f =
       map_option (\<lambda>t. t\<lparr>dt_rows := dt_rows t @ map (line_cells midnight dm areas hs infos f) ls\<rparr>) (obj_get tables1 f)"
    by auto
  with one show ?case
    by (intro exI [of _ tables2] exI [of _ versions2]) (simp add: option.map_comp comp_def)
qed

lemma loadCsv_spec:
  assumes ready: "csv_ready dm areas hs" and areas: "focusAreasList dm = Some areas"
    and infos: "browserInfo dm = map Some infos" and hs: "csv_headers (length areas) header = hs"
    and ls: "list_all (line_ok (length areas) (length infos)) ls"
  shows "\<exists>tables versions.
    loadCsv midnight dm (header # map (\<lambda>l. csv_line (fst l) (snd l)) ls) = Some (tables, versions) \<and>
    (\<forall>f \<in> set (features dm areas). obj_get tables f =
       Some \<lparr>dt_columns = dt_columns (new_table infos), dt_rows = map (line_cells midnight dm areas hs infos f) ls\<rparr>)"
proof -
  let ?fs = "features dm areas" and ?names = "tooltipBrowserNames (features dm areas) infos"
  have dist: "distinct ?fs" using ready by (simp add: csv_ready_def)
  let ?tables = "obj_of_keys ?fs (new_table infos)"
  have "obj_keys ?tables = ?fs" using dist by (simp add: obj_of_keys comp_def)
  from read_lines_spec [OF ready refl ls this, of "map (\<lambda>_. []) ?names" midnight]
  obtain tables versions where t:
    "read_lines midnight dm areas ?names hs (map (\<lambda>l. csv_line (fst l) (snd l)) ls) (?tables, map (\<lambda>_. []) ?names) =
       Some (tables, versions)"
    "\<forall>f \<in> set ?fs. obj_get tables f =
       map_option (\<lambda>t. t\<lparr>dt_rows := dt_rows t @ map (line_cells midnight dm areas hs infos f) ls\<rparr>) (obj_get ?tables f)"
    by auto
  have those: "those (map Some infos) = Some infos" by (induction infos) auto
  have "obj_get ?tables f = Some (new_table infos)" if "f \<in> set ?fs" for f
    using that dist by (simp add: obj_of_keys map_of_const)
  with t show ?thesis
    by (intro exI [of _ tables] exI [of _ versions]) (simp add: loadCsv_def areas infos those hs Let_def new_table_def)
qed

section \<open>The last line\<close>

lemma nth_pairs:
  "i < length xs \<Longrightarrow> concat (map (\<lambda>x. [g x, h x]) xs) ! (2 * i) = g (xs ! i) \<and>
     2 * i < length (concat (map (\<lambda>x. [g x, h x]) xs))"
proof (induction xs arbitrary: i)
  case (Cons x xs)
  then show ?case by (cases i) auto
qed simp

lemma find_index_pairs:
  "distinct xs \<Longrightarrow> c \<notin> set xs \<Longrightarrow> i < length xs \<Longrightarrow>
   find_index (\<lambda>l. l = xs ! i) (concat (map (\<lambda>x. [x, c]) xs)) = Some (2 * i)"
proof (induction xs arbitrary: i)
  case (Cons x xs)
  then show ?case by (cases i) auto
qed simp

definition table_names :: "browser_info list \<Rightarrow> string list" where
  "table_names infos = map tableName infos @ [''Interop'']"

lemma new_table_columns:
  "dt_columns (new_table infos) = ''Date'' # concat (map (\<lambda>x. [x, []]) (table_names infos))"
  by (simp add: new_table_def table_names_def comp_def)

lemma column_at:
  assumes "distinct (''Date'' # [] # table_names infos)" and "i < length (table_names infos)"
    and "dt_columns t = dt_columns (new_table infos)"
  shows "getColumnIndex t (table_names infos ! i) = Some (1 + 2 * i)"
proof -
  have "find_index (\<lambda>l. l = table_names infos ! i) (concat (map (\<lambda>x. [x, []]) (table_names infos))) = Some (2 * i)"
    using assms(1,2) by (intro find_index_pairs) auto
  moreover have "table_names infos ! i \<noteq> ''Date''" using assms(1,2) by (metis distinct.simps(2) list.set_intros(2) nth_mem)
  ultimately show ?thesis unfolding getColumnIndex_def assms(3) new_table_columns by simp
qed

definition shown_score :: "jsnum \<Rightarrow> jsnum" where
  "shown_score x = (case x of Num q \<Rightarrow> Num q | _ \<Rightarrow> NaN)"

lemma last_value_at:
  assumes cols: "distinct (''Date'' # [] # table_names infos)" and i: "i < length (table_names infos)"
    and t: "dt_columns t = dt_columns (new_table infos)"
    and rows: "dt_rows t = map (line_cells midnight dm areas hs infos f) ls" "ls \<noteq> []"
    and bs: "length (snd (last ls)) = length (browser_names infos)"
  shows "last_value t (table_names infos ! i) =
    Some (shown_score (block_score midnight dm areas hs (csv_date (fst (last ls))) f (snd (snd (last ls) ! i))))"
proof -
  let ?sc = "\<lambda>ss. block_score midnight dm areas hs (csv_date (fst (last ls))) f ss"
  let ?zs = "zip (browser_names infos) (snd (last ls))"
  have last: "last (dt_rows t) = line_cells midnight dm areas hs infos f (last ls)" "dt_rows t \<noteq> []"
    using rows by (simp_all add: last_map)
  have i': "i < length ?zs" "?zs ! i = (browser_names infos ! i, snd (last ls) ! i)"
    using i bs by (simp_all add: table_names_def browser_names_def)
  have "concat (map (\<lambda>(b, v, ss). score_cells b v (?sc ss)) ?zs) =
      concat (map (\<lambda>x. [NumCell (per_mille (?sc (snd (snd x)))), TextCell (createTooltip (fst x) (fst (snd x)) (?sc (snd (snd x))))]) ?zs)"
    by (simp add: score_cells_def case_prod_unfold)
  with nth_pairs [OF i'(1), of "\<lambda>x. NumCell (per_mille (?sc (snd (snd x))))"
      "\<lambda>x. TextCell (createTooltip (fst x) (fst (snd x)) (?sc (snd (snd x))))"] i'(2)
  have "elem_at (last (dt_rows t)) (1 + 2 * i) = Some (NumCell (per_mille (?sc (snd (snd (last ls) ! i)))))"
    by (simp add: last line_cells_def elem_at_def)
  moreover have "getColumnIndex t (table_names infos ! i) = Some (1 + 2 * i)" by (rule column_at [OF cols i t])
  ultimately show ?thesis
    using last(2) by (cases "dt_rows t"; cases "?sc (snd (snd (last ls) ! i))")
      (simp_all add: last_value_def per_mille_def shown_score_def)
qed

section \<open>The scores of a file\<close>

text \<open>The scores that are shown for a line: for each browser and for Interop, the features.\<close>

definition line_scores ::
  "(int \<Rightarrow> int) \<Rightarrow> manager \<Rightarrow> string list \<Rightarrow> string list \<Rightarrow> string \<times> block list \<Rightarrow> jsnum obj list" where
  "line_scores midnight dm areas hs l =
     map (\<lambda>b. map (\<lambda>f. (f, shown_score (block_score midnight dm areas hs (csv_date (fst l)) f (snd b)))) (features dm areas))
       (snd l)"

lemma those_map_Some: "(\<And>x. x \<in> set xs \<Longrightarrow> g x = Some (h x)) \<Longrightarrow> those (map g xs) = Some (map h xs)"
  by (induction xs) auto

lemma scores_of_file:
  assumes "csv_ready dm areas hs" and "focusAreasList dm = Some areas"
    and "browserInfo dm = map Some infos" and "distinct (''Date'' # [] # table_names infos)"
    and "csv_headers (length areas) header = hs"
    and "list_all (line_ok (length areas) (length infos)) ls" and "ls \<noteq> []"
  shows "Option.bind (loadCsv midnight dm (header # map (\<lambda>l. csv_line (fst l) (snd l)) ls))
      (\<lambda>tv. getMostRecentScores dm isStable (fst tv)) =
    Some (line_scores midnight dm areas hs (last ls))"
proof -
  let ?names = "table_names infos" and ?bs = "snd (last ls)"
  from loadCsv_spec [OF assms(1,2,3,5,6)] obtain tables versions where
    t: "loadCsv midnight dm (header # map (\<lambda>l. csv_line (fst l) (snd l)) ls) = Some (tables, versions)"
      "\<forall>f \<in> set (features dm areas). obj_get tables f =
         Some \<lparr>dt_columns = dt_columns (new_table infos), dt_rows = map (line_cells midnight dm areas hs infos f) ls\<rparr>"
    by blast
  have those: "those (map Some infos) = Some infos" by (induction infos) auto
  have "line_ok (length areas) (length infos) (last ls)"
    using assms(6,7) by (simp add: list_all_iff)
  then have len: "length ?bs = length ?names" "length ?bs = length (browser_names infos)"
    by (simp_all add: line_ok_def table_names_def browser_names_def)
  let ?score = "\<lambda>b f. shown_score (block_score midnight dm areas hs (csv_date (fst (last ls))) f (snd b))"
  have val: "last_value \<lparr>dt_columns = dt_columns (new_table infos), dt_rows = map (line_cells midnight dm areas hs infos f) ls\<rparr>
      (?names ! i) = Some (?score (?bs ! i) f)" if "i < length ?names" for i f
    using assms(4,7) that len(2) by (intro last_value_at) simp_all
  have row: "those (map (\<lambda>f. case obj_get tables f of None \<Rightarrow> None | Some t \<Rightarrow> map_option (Pair f) (last_value t (?names ! i)))
      (features dm areas)) = Some (map (\<lambda>f. (f, ?score (?bs ! i) f)) (features dm areas))"
    if "i < length ?names" for i
    using t(2) val [OF that] by (intro those_map_Some) simp
  have names: "?names = map (\<lambda>i. ?names ! i) [0..<length ?names]" by (simp add: map_nth)
  have "those (map (\<lambda>name. those (map (\<lambda>f. case obj_get tables f of None \<Rightarrow> None
        | Some t \<Rightarrow> map_option (Pair f) (last_value t name)) (features dm areas))) ?names) =
      Some (map (\<lambda>i. map (\<lambda>f. (f, ?score (?bs ! i) f)) (features dm areas)) [0..<length ?names])"
    by (subst names, unfold map_map comp_def, rule those_map_Some, rule row) simp
  moreover have "map (\<lambda>i. map (\<lambda>f. (f, ?score (?bs ! i) f)) (features dm areas)) [0..<length ?names] =
      line_scores midnight dm areas hs (last ls)"
    unfolding line_scores_def by (rule nth_equalityI) (simp_all add: len(1))
  ultimately show ?thesis
    using t(1) assms(1,2,3) by (simp add: getMostRecentScores_def those table_names_def csv_ready_def)
qed

text \<open>
  C17: the scores that are shown come from the last line of the file: reading a file of the expected
  form gives one table per feature, and the most recent scores of these tables are, for each
  browser and for Interop, the scores that the last line has, with the summary score computed from
  them and from the investigations at the date of the line.
\<close>
theorem csv_scores:
  assumes "csv_ready dm areas hs" and "focusAreasList dm = Some areas"
    and "browserInfo dm = map Some infos" and "distinct (''Date'' # [] # table_names infos)"
    and "csv_headers (length areas) header = hs"
    and "list_all (line_ok (length areas) (length infos)) ls" and "ls \<noteq> []"
  shows "Option.bind (loadCsv midnight dm (header # map (\<lambda>l. csv_line (fst l) (snd l)) ls))
      (\<lambda>tv. getMostRecentScores dm isStable (fst tv)) =
    Some (line_scores midnight dm areas hs (last ls))"
  using assms by (rule scores_of_file)

definition sample_area :: "bool \<Rightarrow> focus_area" where
  "sample_area counts =
     \<lparr>fa_description = ''Area'', fa_counts = counts, fa_mdn = [], fa_spec = [], fa_tests = [],
      fa_mobile_tests = None, fa_labels = []\<rparr>"

definition sample_manager :: manager where
  "sample_manager =
     \<lparr>dm_year = ''2021'', isMobileScoresView = False, validMobileYears = [], investigationScores = None,
      investigationWeight = None, previousInvestigationScores = None, investigationTotalScore = None,
      previousInvestigationTotalScore = None,
      focusAreas = [(''grid'', sample_area True), (''sticky'', sample_area False)], dm_browsers = [''firefox''],
      csvURL = None, validYears = [], focusAreasList = Some [''grid'', ''sticky''], tableSections = None,
      browserInfo = [obj_get BROWSER_INFO ''firefox''], summaryFeatureName = ''summary'', issueURL = None,
      focusAreasDescriptionLink = None\<rparr>"

lemma csv_scores_witness:
  "Option.bind (loadCsv (\<lambda>d. d) sample_manager
      (''date,firefox-version,firefox-sticky,firefox-grid'' #
       map (\<lambda>l. csv_line (fst l) (snd l)) [(''2021-03-01'', [(''88.0'', [700, 431]), (''-'', [650, 400])])]))
      (\<lambda>tv. getMostRecentScores sample_manager False (fst tv)) =
    Some (line_scores (\<lambda>d. d) sample_manager [''grid'', ''sticky''] [''sticky'', ''grid'']
      (''2021-03-01'', [(''88.0'', [700, 431]), (''-'', [650, 400])]))"
proof -
  let ?infos = "[the (obj_get BROWSER_INFO ''firefox'')]"
  have "csv_ready sample_manager [''grid'', ''sticky''] [''sticky'', ''grid'']"
    by (auto simp: csv_ready_def sample_manager_def features_def)
  moreover have "browserInfo sample_manager = map Some ?infos" "distinct (''Date'' # [] # table_names ?infos)"
    by (simp_all add: sample_manager_def BROWSER_INFO_def table_names_def)
  moreover have "focusAreasList sample_manager = Some [''grid'', ''sticky'']" by (simp add: sample_manager_def)
  moreover have "csv_headers (length [''grid'', ''sticky'']) ''date,firefox-version,firefox-sticky,firefox-grid'' = [''sticky'', ''grid'']"
    by code_simp
  ultimately show ?thesis
    using csv_scores [of sample_manager "[''grid'', ''sticky'']" "[''sticky'', ''grid'']" ?infos
        "''date,firefox-version,firefox-sticky,firefox-grid''"
        "[(''2021-03-01'', [(''88.0'', [700, 431]), (''-'', [650, 400])])]" "\<lambda>d. d" False]
    by (simp add: line_ok_def block_ok_def)
qed

end
