(* ===== verification/InteropDashboard.thy ===== *)
theory InteropDashboard
  imports InteropManager JsSearchParams JsRegex ResultColors
begin

text \<open>
  \<^verbatim>\<open>webapp/components/interop-dashboard.js\<close>: the page of a year of Interop. The state is a record; the
  values that the page has once it is ready are those of \<open>ready\<close>. \<open>None\<close> is an exception. The order of
  texts (\<open>localeCompare\<close>) and the current year are arguments.
\<close>

section \<open>State\<close>

text \<open>
  \<open>db_pressed\<close> are the pressed marks of the buttons for stable and experimental, \<open>db_address\<close> what was
  last pushed on the history, and \<open>db_location\<close> an address that the page navigates to.
\<close>

record dashboard =
  db_year :: string
  db_embedded :: bool
  db_stable :: bool
  db_mobile :: bool
  db_feature :: string
  db_manager :: manager
  db_features :: "(string \<times> focus_area) list"
  scores_experimental :: "jsnum obj list"
  scores_stable :: "jsnum obj list"
  db_sortColumn :: nat
  db_isSortedAsc :: bool
  dashboardTitle :: string
  currentInteropYear :: string
  isCurrentYear :: bool
  totalChromium :: string
  totalFirefox :: string
  totalSafari :: string
  showMobileScoresView :: bool
  db_pressed :: "bool \<times> bool"
  db_address :: string
  db_location :: "string option"

section \<open>Scores\<close>

text \<open>\<open>toFixed(1)\<close>: one decimal, halves away from zero.\<close>

definition fixed1 :: "rat \<Rightarrow> string" where
  "fixed1 q =
     (let n = nat (math_round (\<bar>q\<bar> * 10))
      in (if q < 0 then ''-'' else []) @ show_nat (n div 10) @ ''.'' @ show_nat (n mod 10))"

definition show_fixed1 :: "jsnum \<Rightarrow> string" where
  "show_fixed1 x = (case x of Num q \<Rightarrow> fixed1 q | _ \<Rightarrow> ''NaN'')"

definition map_num :: "(rat \<Rightarrow> rat) \<Rightarrow> jsnum \<Rightarrow> jsnum" where
  "map_num f x = (case x of Num q \<Rightarrow> Num (f q) | _ \<Rightarrow> NaN)"

definition add_num :: "jsnum \<Rightarrow> jsnum \<Rightarrow> jsnum" where
  "add_num a b = (case b of Num q \<Rightarrow> js_add a q | _ \<Rightarrow> NaN)"

definition at_least :: "jsnum \<Rightarrow> rat \<Rightarrow> bool" where
  "at_least x b = (case x of Num q \<Rightarrow> b \<le> q | _ \<Rightarrow> False)"

definition scores_of :: "bool \<Rightarrow> dashboard \<Rightarrow> jsnum obj list" where
  "scores_of isStable d = (if isStable then scores_stable d else scores_experimental d)"

text \<open>A feature without a score is \<open>undefined\<close>; a browser without scores is an exception.\<close>

definition score_in :: "nat \<Rightarrow> string \<Rightarrow> jsnum obj list \<Rightarrow> jsnum option" where
  "score_in browserIndex feature scores =
     map_option (\<lambda>s. case obj_get s feature of None \<Rightarrow> Undefined | Some x \<Rightarrow> x) (elem_at scores browserIndex)"

definition getBrowserScoreForFeature :: "nat \<Rightarrow> string \<Rightarrow> bool \<Rightarrow> dashboard \<Rightarrow> string option" where
  "getBrowserScoreForFeature browserIndex feature isStable d =
     map_option
       (\<lambda>score. if at_least (map_num (\<lambda>q. q / 10) score) 100 then ''100%''
          else show_fixed1 (map_num (\<lambda>q. q / 10) score) @ ''%'')
       (score_in browserIndex feature (scores_of isStable d))"

definition getInteropScoreForFeature :: "string \<Rightarrow> bool \<Rightarrow> dashboard \<Rightarrow> string option" where
  "getInteropScoreForFeature feature isStable d =
     getBrowserScoreForFeature (numBrowsers (db_manager d)) feature isStable d"

definition getNumericalBrowserScoreByFeature :: "nat \<Rightarrow> string \<Rightarrow> bool \<Rightarrow> dashboard \<Rightarrow> jsnum option" where
  "getNumericalBrowserScoreByFeature browserIndex feature isStable d =
     map_option (map_num (\<lambda>q. of_int (math_round (q * 100)) / 100 / 10))
       (score_in browserIndex feature (scores_of isStable d))"

text \<open>The sum over the rows of a section; the scores of a browser are only read when there is a row.\<close>

definition getNumericalSubtotalScore :: "nat \<Rightarrow> table_section \<Rightarrow> bool \<Rightarrow> dashboard \<Rightarrow> jsnum option" where
  "getNumericalSubtotalScore browserIndex sec isStable d =
     (case foldl (\<lambda>acc r. case acc of None \<Rightarrow> None
             | Some s \<Rightarrow> map_option (add_num s) (score_in browserIndex r (scores_of isStable d)))
        (Some (Num 0)) (ts_rows sec) of
        None \<Rightarrow> None
      | Some totalScore \<Rightarrow> Some
          (if ts_rows sec = [] then NaN
           else map_num (\<lambda>q. of_int \<lfloor>q / of_nat (length (ts_rows sec))\<rfloor> / 10) totalScore))"

definition getSubtotalScore :: "nat \<Rightarrow> table_section \<Rightarrow> bool \<Rightarrow> dashboard \<Rightarrow> string option" where
  "getSubtotalScore browserIndex sec isStable d =
     map_option (\<lambda>score. if at_least score 100 then ''100%'' else show_fixed1 score @ ''%'')
       (getNumericalSubtotalScore browserIndex sec isStable d)"

definition getInteropSubtotalScore :: "table_section \<Rightarrow> bool \<Rightarrow> dashboard \<Rightarrow> string option" where
  "getInteropSubtotalScore sec isStable d = getSubtotalScore (numBrowsers (db_manager d)) sec isStable d"

definition style_of :: "jsnum \<Rightarrow> string option" where
  "style_of score =
     (case score of
        Num q \<Rightarrow> map_option
          (\<lambda>(c, b). ''color: color-mix(in lch, '' @ c @ '' 70%, black); background-color: '' @ b) (calculateColor q)
      | _ \<Rightarrow> None)"

definition getSubtotalScoreStyle :: "table_section \<Rightarrow> bool \<Rightarrow> dashboard \<Rightarrow> string option" where
  "getSubtotalScoreStyle sec isStable d =
     Option.bind (getNumericalSubtotalScore (numBrowsers (db_manager d)) sec isStable d) style_of"

definition getScoreStyle :: "string \<Rightarrow> bool \<Rightarrow> dashboard \<Rightarrow> string option" where
  "getScoreStyle feature isStable d =
     Option.bind (getNumericalBrowserScoreByFeature (numBrowsers (db_manager d)) feature isStable d) style_of"

section \<open>Investigations\<close>

text \<open>
  The investigations of the year, which are an exception when there are none; those of the year before are
  an empty text when that year is not in the data.
\<close>

definition investigations_of :: "bool \<Rightarrow> dashboard \<Rightarrow> investigation list option" where
  "investigations_of isPreviousYear d =
     (if isPreviousYear
      then if has_key interop_years (show_nat (digits_value (db_year d) - 1)) then previousInvestigationScores (db_manager d)
           else Some []
      else investigationScores (db_manager d))"

definition getInvestigationScore :: "string \<Rightarrow> bool \<Rightarrow> dashboard \<Rightarrow> string option" where
  "getInvestigationScore rowName isPreviousYear d =
     map_option
       (\<lambda>scores. case find (\<lambda>area. inv_name area = rowName \<and> scores_over_time area \<noteq> []) scores of
            Some area \<Rightarrow> fixed1 (snd (last (scores_over_time area)) / 10) @ ''%''
          | None \<Rightarrow> ''0.0%'')
       (investigations_of isPreviousYear d)"

definition getInvestigationUrl :: "string \<Rightarrow> bool \<Rightarrow> dashboard \<Rightarrow> string option" where
  "getInvestigationUrl rowName isPreviousYear d =
     map_option
       (\<lambda>scores. case find (\<lambda>area. inv_name area = rowName) scores of Some area \<Rightarrow> inv_url area | None \<Rightarrow> ''#'')
       (investigations_of isPreviousYear d)"

definition getInvestigationScoreSubtotal :: "bool \<Rightarrow> dashboard \<Rightarrow> string" where
  "getInvestigationScoreSubtotal isPreviousYear d =
     (case (if isPreviousYear then previousInvestigationTotalScore (db_manager d)
            else investigationTotalScore (db_manager d)) of
        Some (Num q) \<Rightarrow> if q = 0 then ''0.0%'' else fixed1 (q / 10) @ ''%''
      | _ \<Rightarrow> ''0.0%'')"

section \<open>Links\<close>

text \<open>The data of an area; an area that is not known is an exception, or \<open>undefined\<close> for the links.\<close>

definition getRowInfo :: "string \<Rightarrow> dashboard \<Rightarrow> focus_area option" where
  "getRowInfo name d = obj_get (focusAreas (db_manager d)) name"

text \<open>
  An address of the tests, which is an absolute path, as a URL of the origin: its path, its query and its
  hash. The labels that name a view are replaced.
\<close>

definition view_label :: "bool \<Rightarrow> string" where
  "view_label isStable = (if isStable then ''stable'' else ''experimental'')"

definition url_parts :: "string \<Rightarrow> string \<times> string \<times> string" where
  "url_parts u =
     (let before = takeWhile (\<lambda>c. c \<noteq> CHR ''#'') u
      in (takeWhile (\<lambda>c. c \<noteq> CHR ''?'') before, dropWhile (\<lambda>c. c \<noteq> CHR ''?'') before,
          dropWhile (\<lambda>c. c \<noteq> CHR ''#'') u))"

definition relabel :: "bool \<Rightarrow> search_params \<Rightarrow> search_params" where
  "relabel isStable ps =
     (let newLabels = filter (\<lambda>v. v \<noteq> ''stable'' \<and> v \<noteq> ''experimental'') (params_get_all ''label'' ps) @ [view_label isStable]
      in foldl (\<lambda>ps v. params_append ''label'' v ps) (params_delete ''label'' ps) newLabels)"

definition formatTestsURL :: "string \<Rightarrow> string option \<Rightarrow> bool \<Rightarrow> string" where
  "formatTestsURL origin testsURL isStable =
     (case testsURL of
        None \<Rightarrow> []
      | Some u \<Rightarrow>
          if u = [] then []
          else (case url_parts u of
                  (path, query, hash) \<Rightarrow>
                    origin @ path @ search_of (relabel isStable (form_parse query)) @ (if hash = ''#'' then [] else hash)))"

definition area_tests :: "dashboard \<Rightarrow> focus_area \<Rightarrow> string option" where
  "area_tests d area = (if db_mobile d then fa_mobile_tests area else Some (fa_tests area))"

definition getTestsURL :: "string \<Rightarrow> string \<Rightarrow> bool \<Rightarrow> dashboard \<Rightarrow> string option" where
  "getTestsURL origin name isStable d =
     map_option (\<lambda>area. formatTestsURL origin (area_tests d area) isStable) (getRowInfo name d)"

definition featureLinks :: "string \<Rightarrow> string \<Rightarrow> bool \<Rightarrow> dashboard \<Rightarrow> (string \<times> string option) list" where
  "featureLinks origin feature isStable d =
     (let data = getRowInfo feature d
      in [(''Spec'', map_option fa_spec data), (''MDN'', map_option fa_mdn data),
          (''Tests'', Some (formatTestsURL origin (Option.bind data (area_tests d)) isStable))])"

definition filterGroupSections :: "table_section \<Rightarrow> bool" where
  "filterGroupSections sec = (\<not> ts_score_as_group sec)"

section \<open>Sorting\<close>

definition plain_name :: "string \<Rightarrow> string" where
  "plain_name s = filter is_word_char s"

definition alphabeticalSort :: "(string \<Rightarrow> string \<Rightarrow> rat) \<Rightarrow> string list \<Rightarrow> dashboard \<Rightarrow> string list option" where
  "alphabeticalSort localeCompare rows d =
     map_option (\<lambda>rowNames. map fst (js_sort (\<lambda>a b. localeCompare (snd a) (snd b)) rowNames))
       (those (map (\<lambda>f. map_option (\<lambda>area. (f, plain_name (fa_description area))) (getRowInfo f d)) rows))"

definition compare_nums :: "jsnum \<Rightarrow> jsnum \<Rightarrow> rat" where
  "compare_nums a b = (case (a, b) of (Num p, Num q) \<Rightarrow> p - q | _ \<Rightarrow> 0)"

definition numericalSort :: "string list \<Rightarrow> nat \<Rightarrow> dashboard \<Rightarrow> string list option" where
  "numericalSort rows sortColumn d =
     (let browserIndex = (if db_mobile d \<and> sortColumn = 4 then 2 else sortColumn - 1)
      in map_option (\<lambda>individualScores. map fst (js_sort (\<lambda>a b. compare_nums (snd a) (snd b)) individualScores))
           (those (map (\<lambda>f. map_option (Pair f) (getNumericalBrowserScoreByFeature browserIndex f (db_stable d) d)) rows)))"

definition sortRows ::
  "(string \<Rightarrow> string \<Rightarrow> rat) \<Rightarrow> string list \<Rightarrow> nat \<Rightarrow> nat \<Rightarrow> bool \<Rightarrow> dashboard \<Rightarrow> string list option" where
  "sortRows localeCompare rows index sortColumn isSortedAsc d =
     (if index \<noteq> 0 then Some rows
      else if db_mobile d \<and> sortColumn = 3 then Some rows
      else map_option (if isSortedAsc then id else rev)
             (if sortColumn = 0 then alphabeticalSort localeCompare rows d else numericalSort rows sortColumn d))"

definition handleSortClick :: "nat \<Rightarrow> dashboard \<Rightarrow> dashboard" where
  "handleSortClick i d =
     d\<lparr>db_isSortedAsc := (if db_sortColumn d = i then \<not> db_isSortedAsc d else False), db_sortColumn := i\<rparr>"

definition sort_icon :: "bool \<Rightarrow> bool \<Rightarrow> string" where
  "sort_icon active isSortedAsc =
     (if \<not> active then ''/static/expand_inactive.svg''
      else if isSortedAsc then ''/static/expand_less.svg'' else ''/static/expand_more.svg'')"

definition shouldShowSortIcon :: "nat \<Rightarrow> nat \<Rightarrow> bool" where
  "shouldShowSortIcon columnNumber sortColumn = (columnNumber = sortColumn)"

definition getFocusAreaSortIcon :: "nat \<Rightarrow> bool \<Rightarrow> string" where
  "getFocusAreaSortIcon sortColumn isSortedAsc = sort_icon (sortColumn = 0) isSortedAsc"

definition getInteropSortIcon :: "nat \<Rightarrow> bool \<Rightarrow> dashboard \<Rightarrow> string" where
  "getInteropSortIcon sortColumn isSortedAsc d =
     sort_icon (numBrowsers (db_manager d) + (if db_mobile d then 2 else 1) = sortColumn) isSortedAsc"

definition getBrowserSortIcon :: "nat \<Rightarrow> nat \<Rightarrow> bool \<Rightarrow> string" where
  "getBrowserSortIcon index sortColumn isSortedAsc = sort_icon (sortColumn = index + 1) isSortedAsc"

section \<open>Texts and icons\<close>

definition isSelected :: "string \<Rightarrow> dashboard \<Rightarrow> bool" where
  "isSelected feature d = (feature = db_feature d)"

definition getSummaryOptionText :: "int \<Rightarrow> dashboard \<Rightarrow> string" where
  "getSummaryOptionText thisYear d =
     (if parseInt (db_year d) = Some thisYear then ''All Active Focus Areas'' else ''All Focus Areas'')"

definition showBrowserIcons :: "nat \<Rightarrow> bool \<Rightarrow> bool" where
  "showBrowserIcons index scoreAsGroup = (index = 0 \<or> \<not> scoreAsGroup)"

text \<open>The second argument of \<open>showBrowserIcons\<close> is left out by the code, which is read as false.\<close>

definition showNoOtherColumns :: "bool \<Rightarrow> nat \<Rightarrow> bool" where
  "showNoOtherColumns scoreAsGroup index = (\<not> scoreAsGroup \<and> \<not> showBrowserIcons index False)"

definition getAllYears :: "dashboard \<Rightarrow> string list" where
  "getAllYears d = js_sort compare_strings (validYears (db_manager d))"

definition shouldShowMobileScoresView :: "dashboard \<Rightarrow> bool" where
  "shouldShowMobileScoresView d = (showMobileScoresView d \<and> db_year d \<in> set (validMobileYears (db_manager d)))"

definition isFirstTable :: "nat \<Rightarrow> bool" where
  "isFirstTable tableIndex = (tableIndex = 0)"

definition shouldShowFocusAreasDescriptionLink :: "nat \<Rightarrow> dashboard \<Rightarrow> bool" where
  "shouldShowFocusAreasDescriptionLink tableIndex d =
     (isFirstTable tableIndex \<and> truthy (focusAreasDescriptionLink (db_manager d)))"

definition isChromeEdgeCombo :: "browser_info \<Rightarrow> bool" where
  "isChromeEdgeCombo b = (tableName b = ''Chrome/Edge'')"

definition or_undefined :: "string option \<Rightarrow> string" where
  "or_undefined t = (case t of None \<Rightarrow> ''undefined'' | Some s \<Rightarrow> s)"

definition getBrowserIcon :: "browser_info \<Rightarrow> bool \<Rightarrow> string" where
  "getBrowserIcon b isStable =
     ''/static/'' @ or_undefined (if isStable then stableIcon b else experimentalIcon b) @ ''_64x64.png''"

definition getBrowserIconName :: "browser_info \<Rightarrow> bool \<Rightarrow> string" where
  "getBrowserIconName b isStable =
     (if isStable then tableName b else tableName b @ '' '' @ or_undefined (experimentalName b))"

definition button_class :: "bool \<Rightarrow> string" where
  "button_class selected = (if selected then ''selected'' else ''unselected'')"

definition experimentalButtonClass :: "bool \<Rightarrow> bool \<Rightarrow> string" where
  "experimentalButtonClass isStable mobile = button_class (\<not> (mobile \<or> isStable))"

definition stableButtonClass :: "bool \<Rightarrow> bool \<Rightarrow> string" where
  "stableButtonClass isStable mobile = button_class (isStable \<and> \<not> mobile)"

definition mobileButtonClass :: "bool \<Rightarrow> string" where
  "mobileButtonClass mobile = button_class mobile"

section \<open>The observers\<close>

definition updateTotals :: "dashboard \<Rightarrow> dashboard option" where
  "updateTotals d =
     (let tot = (\<lambda>i. getBrowserScoreForFeature i (summaryFeatureName (db_manager d)) (db_stable d) d)
      in case (tot 0, tot 1, tot 2) of
           (Some a, Some b, Some c) \<Rightarrow> Some (d\<lparr>totalChromium := a, totalFirefox := b, totalSafari := c\<rparr>)
         | _ \<Rightarrow> None)"

definition view_params :: "dashboard \<Rightarrow> string list" where
  "view_params d =
     (if db_feature d \<noteq> [] \<and> db_feature d \<noteq> summaryFeatureName (db_manager d) then [''feature='' @ db_feature d] else []) @
     (if db_stable d then [''stable''] else []) @
     (if db_embedded d then [''embedded''] else []) @
     (if db_mobile d then [''mobile-view''] else [])"

definition updateUrlParams :: "string \<Rightarrow> dashboard \<Rightarrow> dashboard" where
  "updateUrlParams pathname d =
     d\<lparr>db_address := pathname @ (if view_params d = [] then [] else ''?'' @ join ''&'' (view_params d))\<rparr>"

text \<open>A changed release: both observers run. A changed feature: the address follows.\<close>

definition set_stable :: "string \<Rightarrow> bool \<Rightarrow> dashboard \<Rightarrow> dashboard option" where
  "set_stable pathname b d =
     (if db_stable d = b then Some d
      else map_option (updateUrlParams pathname) (updateTotals (d\<lparr>db_stable := b\<rparr>)))"

definition select_feature :: "string \<Rightarrow> string \<Rightarrow> dashboard \<Rightarrow> dashboard" where
  "select_feature pathname f d =
     (if db_feature d = f then d else updateUrlParams pathname (d\<lparr>db_feature := f\<rparr>))"

section \<open>Opening the page\<close>

definition new_page :: "bool \<Rightarrow> string \<Rightarrow> loaded \<Rightarrow> jsnum obj list \<Rightarrow> jsnum obj list \<Rightarrow> bool \<Rightarrow> bool \<Rightarrow> dashboard" where
  "new_page flag year l ex st isStable mobile =
     \<lparr>db_year = year, db_embedded = False, db_stable = isStable, db_mobile = mobile, db_feature = [],
      db_manager = ld_manager l, db_features = own_order (focusAreas (ld_manager l)), scores_experimental = ex,
      scores_stable = st, db_sortColumn = 0, db_isSortedAsc = True,
      dashboardTitle = ''Interop '' @ year @ (if mobile then '' Mobile Dashboard'' else '' Dashboard''),
      currentInteropYear = [], isCurrentYear = True,
      totalChromium = ''0%'', totalFirefox = ''0%'', totalSafari = ''0%'', showMobileScoresView = flag,
      db_pressed = (isStable, \<not> isStable), db_address = [], db_location = None\<rparr>"

definition set_year :: "dashboard \<Rightarrow> dashboard" where
  "set_year d =
     (let current = last (getAllYears d)
      in d\<lparr>currentInteropYear := current, isCurrentYear := db_year d = current\<rparr>)"

text \<open>The observers run when the features are set, and the address follows the parameters that come after.\<close>

definition show_page ::
  "bool \<Rightarrow> string \<Rightarrow> string \<Rightarrow> loaded \<Rightarrow> jsnum obj list \<Rightarrow> jsnum obj list \<Rightarrow> bool \<Rightarrow> bool \<Rightarrow> bool \<Rightarrow> string \<Rightarrow>
   dashboard option" where
  "show_page flag pathname year l ex st isStable mobile embedded feature =
     map_option (\<lambda>d. updateUrlParams pathname (d\<lparr>db_embedded := embedded, db_feature := feature\<rparr>))
       (updateTotals (set_year (new_page flag year l ex st isStable mobile)))"

definition ready ::
  "(int \<Rightarrow> int) \<Rightarrow> (string \<Rightarrow> string option) \<Rightarrow> bool \<Rightarrow> string \<Rightarrow> string \<Rightarrow> search_params \<Rightarrow> dashboard option" where
  "ready midnight fetch flag pathname year params =
     (let mobile = (params_get ''mobile-view'' params \<noteq> None \<and> flag);
          isStable = (\<not> mobile \<and> params_get ''stable'' params \<noteq> None);
          embedded = (params_get ''embedded'' params \<noteq> None);
          feature = params_get ''feature'' params
      in case load_year midnight fetch year mobile of
        None \<Rightarrow> None
      | Some l \<Rightarrow>
          (case (recent_scores False l, recent_scores True l) of
             (Some ex, Some st) \<Rightarrow>
               show_page flag pathname year l ex st isStable mobile embedded
                 (if truthy feature then the feature else summaryFeatureName (ld_manager l))
           | _ \<Rightarrow> None))"

section \<open>The buttons\<close>

definition toggleMobileView :: "string \<Rightarrow> bool \<Rightarrow> bool \<Rightarrow> dashboard \<Rightarrow> dashboard" where
  "toggleMobileView pathname showMobileScores isStable d =
     (let q = (if showMobileScores then ''mobile-view'' else []);
          q = q @ (if isStable then if q \<noteq> [] then ''&stable'' else ''stable'' else [])
      in d\<lparr>db_location := Some (pathname @ (if q \<noteq> [] then ''?'' @ q else []))\<rparr>)"

definition clickExperimental :: "string \<Rightarrow> dashboard \<Rightarrow> dashboard option" where
  "clickExperimental pathname d =
     (if \<not> db_stable d \<and> \<not> db_mobile d then Some d
      else if db_mobile d then Some (toggleMobileView pathname False False d)
      else map_option (\<lambda>d. d\<lparr>db_pressed := (False, True)\<rparr>) (set_stable pathname False d))"

definition clickStable :: "string \<Rightarrow> dashboard \<Rightarrow> dashboard option" where
  "clickStable pathname d =
     (if db_stable d \<and> \<not> db_mobile d then Some d
      else if db_mobile d then Some (toggleMobileView pathname False True d)
      else map_option (\<lambda>d. d\<lparr>db_pressed := (True, False)\<rparr>) (set_stable pathname True d))"

definition clickMobile :: "string \<Rightarrow> dashboard \<Rightarrow> dashboard" where
  "clickMobile pathname d = (if db_mobile d then d else toggleMobileView pathname True False d)"

datatype event = ClickExperimental | ClickStable | ClickMobile | SelectFeature string | SortClick nat

fun handle :: "string \<Rightarrow> event \<Rightarrow> dashboard \<Rightarrow> dashboard option" where
  "handle pathname ClickExperimental d = clickExperimental pathname d"
| "handle pathname ClickStable d = clickStable pathname d"
| "handle pathname ClickMobile d = Some (clickMobile pathname d)"
| "handle pathname (SelectFeature f) d = Some (select_feature pathname f d)"
| "handle pathname (SortClick i) d = Some (handleSortClick i d)"

section \<open>The order of the rows\<close>

lemma those_map_keys:
  assumes "those (map (\<lambda>f. map_option (Pair f) (g f)) rows) = Some ys"
  shows "map fst ys = rows \<and> (\<forall>y \<in> set ys. g (fst y) = Some (snd y))"
  using assms
proof (induction rows arbitrary: ys)
  case (Cons f rows)
  then obtain x zs where "g f = Some x" "those (map (\<lambda>f. map_option (Pair f) (g f)) rows) = Some zs" "ys = (f, x) # zs"
    by (auto split: option.splits)
  with Cons.IH show ?case by auto
qed simp

text \<open>Sorting by a key that may be missing.\<close>

lemma sort_by_key:
  assumes cmp: "comparator ok cmp" and ys: "those (map (\<lambda>f. map_option (Pair f) (g f)) rows) = Some ys"
    and ok: "\<forall>y \<in> set ys. ok (snd y)"
  shows "mset (map fst (js_sort (\<lambda>a b. cmp (snd a) (snd b)) ys)) = mset rows \<and>
    sorted_wrt (\<lambda>a b. \<exists>x y. g a = Some x \<and> g b = Some y \<and> ok x \<and> ok y \<and> cmp x y \<le> 0)
      (map fst (js_sort (\<lambda>a b. cmp (snd a) (snd b)) ys))"
proof -
  let ?cmp = "\<lambda>a b. cmp (snd a) (snd b)"
  have key: "comparator (\<lambda>y. ok (snd y)) ?cmp" using cmp unfolding comparator_def by blast
  from those_map_keys [OF ys] have keys: "map fst ys = rows" "\<forall>y \<in> set ys. g (fst y) = Some (snd y)" by auto
  have "sorted_wrt (\<lambda>a b. ?cmp a b \<le> 0) (js_sort ?cmp ys)"
    by (rule comparator.sorted_sort [OF key]) (simp add: list_all_iff ok)
  then have "sorted_wrt (\<lambda>a b. \<exists>x y. g (fst a) = Some x \<and> g (fst b) = Some y \<and> ok x \<and> ok y \<and> cmp x y \<le> 0) (js_sort ?cmp ys)"
    by (rule sorted_wrt_mono_rel [rotated]) (use keys(2) ok in auto)
  then show ?thesis using keys(1) by (auto simp: sorted_wrt_map)
qed

definition row_score :: "nat \<Rightarrow> dashboard \<Rightarrow> string \<Rightarrow> jsnum option" where
  "row_score sortColumn d f =
     getNumericalBrowserScoreByFeature (if db_mobile d \<and> sortColumn = 4 then 2 else sortColumn - 1) f (db_stable d) d"

text \<open>Row \<open>a\<close> does not come after row \<open>b\<close> in ascending order.\<close>

definition row_le :: "(string \<Rightarrow> string \<Rightarrow> rat) \<Rightarrow> nat \<Rightarrow> dashboard \<Rightarrow> string \<Rightarrow> string \<Rightarrow> bool" where
  "row_le localeCompare sortColumn d a b =
     (if sortColumn = 0 then
        (case (getRowInfo a d, getRowInfo b d) of
           (Some x, Some y) \<Rightarrow> localeCompare (plain_name (fa_description x)) (plain_name (fa_description y)) \<le> 0
         | _ \<Rightarrow> False)
      else (case (row_score sortColumn d a, row_score sortColumn d b) of
              (Some (Num p), Some (Num q)) \<Rightarrow> p \<le> q
            | _ \<Rightarrow> False))"

definition is_number :: "jsnum \<Rightarrow> bool" where
  "is_number x = (case x of Num _ \<Rightarrow> True | _ \<Rightarrow> False)"

interpretation by_score: comparator is_number compare_nums
  by unfold_locales (auto simp: is_number_def compare_nums_def split: jsnum.splits)

lemma alphabetical_sorted:
  assumes "comparator (\<lambda>_. True) localeCompare" and "alphabeticalSort localeCompare rows d = Some rows'"
  shows "mset rows' = mset rows \<and> sorted_wrt (row_le localeCompare 0 d) rows'"
proof -
  let ?name = "\<lambda>f. map_option (\<lambda>area. plain_name (fa_description area)) (getRowInfo f d)"
  obtain ys where ys: "those (map (\<lambda>f. map_option (Pair f) (?name f)) rows) = Some ys"
    "rows' = map fst (js_sort (\<lambda>a b. localeCompare (snd a) (snd b)) ys)"
    using assms(2) by (auto simp: alphabeticalSort_def option.map_comp comp_def)
  show ?thesis
    using sort_by_key [OF assms(1) ys(1)] unfolding ys(2)
    by (auto simp: row_le_def elim!: sorted_wrt_mono_rel [rotated])
qed

lemma numerical_sorted:
  assumes "\<forall>f \<in> set rows. \<forall>x. row_score c d f = Some x \<longrightarrow> is_number x" and "c \<noteq> 0"
    and "numericalSort rows c d = Some rows'"
  shows "mset rows' = mset rows \<and> sorted_wrt (row_le localeCompare c d) rows'"
proof -
  obtain ys where ys: "those (map (\<lambda>f. map_option (Pair f) (row_score c d f)) rows) = Some ys"
    "rows' = map fst (js_sort (\<lambda>a b. compare_nums (snd a) (snd b)) ys)"
    using assms(3) by (auto simp: numericalSort_def row_score_def Let_def)
  have "\<forall>y \<in> set ys. is_number (snd y)"
    using those_map_keys [OF ys(1)] assms(1) by (metis image_eqI list.set_map)
  from sort_by_key [OF by_score.comparator_axioms ys(1) this]
  have sort: "mset rows' = mset rows" "sorted_wrt (\<lambda>a b. \<exists>x y. row_score c d a = Some x \<and> row_score c d b = Some y \<and>
      is_number x \<and> is_number y \<and> compare_nums x y \<le> 0) rows'"
    unfolding ys(2) by auto
  have "row_le localeCompare c d a b" if "row_score c d a = Some x \<and> row_score c d b = Some y \<and>
      is_number x \<and> is_number y \<and> compare_nums x y \<le> 0" for a b x y
    using that assms(2) by (cases x; cases y) (simp_all add: row_le_def is_number_def compare_nums_def)
  then have "sorted_wrt (row_le localeCompare c d) rows'"
    by (intro sorted_wrt_mono_rel [OF _ sort(2)]) blast
  with sort(1) show ?thesis by simp
qed

text \<open>
  The rows of the first table are sorted by the column that was clicked: they are a permutation of
  the rows, in ascending order of the names or of the scores of that column, or in descending
  order when the order is reversed.
\<close>
lemma rows_sorted:
  assumes "comparator (\<lambda>_. True) localeCompare" and "sortRows localeCompare rows 0 c asc d = Some rows'"
    and "\<not> (db_mobile d \<and> c = 3)"
    and "c \<noteq> 0 \<longrightarrow> (\<forall>f \<in> set rows. \<forall>x. row_score c d f = Some x \<longrightarrow> is_number x)"
  shows "mset rows' = mset rows \<and> sorted_wrt (row_le localeCompare c d) (if asc then rows' else rev rows')"
proof (cases "c = 0")
  case True
  with assms(2,3) alphabetical_sorted [OF assms(1)] show ?thesis by (auto simp: sortRows_def split: if_splits)
next
  case False
  with assms(2-4) numerical_sorted [of rows c d _ localeCompare] show ?thesis
    by (auto simp: sortRows_def split: if_splits)
qed

definition sample_dashboard :: dashboard where
  "sample_dashboard =
     \<lparr>db_year = ''2021'', db_embedded = False, db_stable = False, db_mobile = False, db_feature = ''summary'',
      db_manager = sample_manager, db_features = focusAreas sample_manager,
      scores_experimental =
        [[(''summary'', Num 410), (''grid'', Num 500), (''sticky'', Num 320)],
         [(''summary'', Num 300), (''grid'', Num 300), (''sticky'', Num 300)]],
      scores_stable = [], db_sortColumn = 0, db_isSortedAsc = True, dashboardTitle = ''Interop 2021 Dashboard'',
      currentInteropYear = ''2021'', isCurrentYear = True, totalChromium = ''0%'', totalFirefox = ''0%'',
      totalSafari = ''0%'', showMobileScoresView = False, db_pressed = (False, True), db_address = [],
      db_location = None\<rparr>"

lemma rows_sorted_witness:
  "mset [''grid'', ''sticky''] = mset [''grid'', ''sticky''] \<and>
   sorted_wrt (row_le compare_strings 1 sample_dashboard) (rev [''grid'', ''sticky''])"
proof -
  have scores: "row_score 1 sample_dashboard ''grid'' = Some (Num 50)" "row_score 1 sample_dashboard ''sticky'' = Some (Num 32)"
    by code_simp+
  have "sortRows compare_strings [''grid'', ''sticky''] 0 1 False sample_dashboard = Some [''grid'', ''sticky'']"
    by code_simp
  moreover have "\<not> db_mobile sample_dashboard" by (simp add: sample_dashboard_def)
  moreover have "comparator (\<lambda>_. True) compare_strings" by (rule string_order.comparator_axioms)
  ultimately show ?thesis
    using rows_sorted [of compare_strings "[''grid'', ''sticky'']" 1 False sample_dashboard "[''grid'', ''sticky'']"] scores
    by (simp add: is_number_def)
qed

section \<open>The links to the tests\<close>

lemma foldl_append_params: "foldl (\<lambda>ps v. params_append k v ps) ps vs = ps @ map (Pair k) vs"
  by (induction vs arbitrary: ps) (simp_all add: params_append_def)

lemma form_serialize_no_hash: "CHR ''#'' \<notin> set (form_serialize ps)"
proof -
  have "CHR ''#'' \<notin> set (form_encode s)" for s
    using set_form_encode [of s] set_percent_encode [of "CHR ''#''" form_keep s]
    by (auto simp: form_text_def form_keep_def ascii_alnum_def is_letter_def is_digit_def)
  moreover have "set (join ''&'' ws) \<subseteq> {CHR ''&''} \<union> \<Union> (set ` set ws)" for ws
    by (induction ws rule: induct_list012) auto
  ultimately show ?thesis by (fastforce simp: form_serialize_def form_pair_def)
qed

definition link_params :: "string \<Rightarrow> search_params" where
  "link_params url = form_parse (fst (snd (url_parts url)))"

text \<open>
  The link to the tests of an area names the view: the page that it opens reads the parameters
  of the address of the area, with one label for the view, stable or experimental, in the place
  of any other such label, and with all other labels and parameters kept.
\<close>
lemma tests_link_labels:
  assumes "u \<noteq> []"
  shows "link_params (drop (length origin) (formatTestsURL origin (Some u) isStable)) =
    params_delete ''label'' (link_params u) @
    map (Pair ''label'')
      (filter (\<lambda>v. v \<noteq> ''stable'' \<and> v \<noteq> ''experimental'') (params_get_all ''label'' (link_params u)) @ [view_label isStable])"
proof -
  obtain path query hash where u: "url_parts u = (path, query, hash)" by (cases "url_parts u")
  have path: "CHR ''?'' \<notin> set path" "CHR ''#'' \<notin> set path"
    using u by (auto simp: url_parts_def Let_def dest!: set_takeWhileD)
  have hash: "hash = [] \<or> hd hash = CHR ''#''"
    using u hd_dropWhile [of "\<lambda>c. c \<noteq> CHR ''#''" u] by (auto simp: url_parts_def Let_def)
  let ?ps = "relabel isStable (form_parse query)"
  let ?hash = "if hash = ''#'' then [] else hash"
  have ps: "?ps = params_delete ''label'' (form_parse query) @
      map (Pair ''label'') (filter (\<lambda>v. v \<noteq> ''stable'' \<and> v \<noteq> ''experimental'') (params_get_all ''label'' (form_parse query)) @ [view_label isStable])"
    by (simp add: relabel_def foldl_append_params Let_def)
  have no_hash: "CHR ''#'' \<notin> set (search_of ?ps)" using form_serialize_no_hash by (simp add: search_of_def)
  have before: "takeWhile (\<lambda>c. c \<noteq> CHR ''#'') (path @ search_of ?ps @ ?hash) = path @ search_of ?ps"
  proof -
    have "takeWhile (\<lambda>c. c \<noteq> CHR ''#'') ?hash = []" using hash by (cases hash) auto
    moreover have "takeWhile (\<lambda>c. c \<noteq> CHR ''#'') (path @ search_of ?ps @ ?hash) =
        (path @ search_of ?ps) @ takeWhile (\<lambda>c. c \<noteq> CHR ''#'') ?hash"
      using path(2) no_hash by (subst append_assoc [symmetric], subst takeWhile_append2) auto
    ultimately show ?thesis by simp
  qed
  have "dropWhile (\<lambda>c. c \<noteq> CHR ''?'') (path @ search_of ?ps) = search_of ?ps"
    using path(1) ps by (subst dropWhile_append2) (auto simp: search_of_def)
  then have "link_params (path @ search_of ?ps @ ?hash) = ?ps"
    unfolding link_params_def url_parts_def Let_def before by simp
  moreover have "link_params u = form_parse query" by (simp add: link_params_def u)
  ultimately show ?thesis using assms ps by (simp add: formatTestsURL_def u)
qed

lemma tests_link_labels_witness:
  "link_params (drop (length ''https://wpt.fyi'')
      (formatTestsURL ''https://wpt.fyi'' (Some ''/results/css?label=master&label=experimental&product=chrome'') True)) =
   [(''product'', ''chrome''), (''label'', ''master''), (''label'', ''stable'')]"
proof -
  have "link_params ''/results/css?label=master&label=experimental&product=chrome'' =
      [(''label'', ''master''), (''label'', ''experimental''), (''product'', ''chrome'')]"
    by code_simp
  then show ?thesis
    using tests_link_labels [of "''/results/css?label=master&label=experimental&product=chrome''" "''https://wpt.fyi''" True]
    by (simp add: params_delete_def view_label_def)
qed

end
