(* ===== verification/InteropYears.thy ===== *)
theory InteropYears
  imports InteropManager
begin

text \<open>
  The data of \<^verbatim>\<open>interop-data.js\<close> as the data manager reads it: for each year that the dashboard can show,
  the data is complete and consistent, so that the scores of a year are numbers in their range.
\<close>

section \<open>The data of the years is consistent\<close>

fun ascending_dates :: "string list \<Rightarrow> bool" where
  "ascending_dates (d # e # ds) =
     ((case (iso_day d, iso_day e) of (Some x, Some y) \<Rightarrow> x < y | _ \<Rightarrow> False) \<and> ascending_dates (e # ds))"
| "ascending_dates [d] = (iso_day d \<noteq> None)"
| "ascending_dates [] = True"

definition investigation_ok :: "investigation \<Rightarrow> bool" where
  "investigation_ok i \<longleftrightarrow>
     ascending_dates (map fst (scores_over_time i)) \<and> list_all (\<lambda>e. 0 \<le> snd e \<and> snd e \<le> 1000) (scores_over_time i)"

text \<open>An investigation section names investigations; the other sections name focus areas.\<close>

definition names_of :: "investigation list option \<Rightarrow> string list" where
  "names_of is = (case is of None \<Rightarrow> [] | Some l \<Rightarrow> map inv_name l)"

definition section_ok :: "string list \<Rightarrow> string list \<Rightarrow> string list \<Rightarrow> table_section \<Rightarrow> bool" where
  "section_ok areas is prev s \<longleftrightarrow>
     list_all (List.member (if \<not> ts_score_as_group s then areas else if ts_previous_investigation s then prev else is))
       (ts_rows s)"

definition weights_ok :: "investigation list option \<Rightarrow> rat option \<Rightarrow> bool" where
  "weights_ok scores weight \<longleftrightarrow>
     (case scores of
        None \<Rightarrow> True
      | Some is \<Rightarrow> is \<noteq> [] \<and> list_all investigation_ok is \<and>
          (case weight of None \<Rightarrow> False | Some w \<Rightarrow> 0 \<le> w \<and> w \<le> 1))"

definition areas_ok :: "manager \<Rightarrow> string list \<Rightarrow> bool" where
  "areas_ok dm areas \<longleftrightarrow>
     distinct (features dm areas) \<and> list_all (\<lambda>f. has_key (focusAreas dm) f) areas \<and>
     list_ex (\<lambda>f. fa_counts (the (obj_get (focusAreas dm) f))) areas"

definition columns_ok :: "browser_info option list \<Rightarrow> bool" where
  "columns_ok bs \<longleftrightarrow>
     (case those bs of None \<Rightarrow> False | Some infos \<Rightarrow> 2 \<le> length infos \<and> distinct (''Date'' # [] # table_names infos))"

definition year_sound :: "string \<Rightarrow> bool \<Rightarrow> bool" where
  "year_sound year mobile \<longleftrightarrow>
     (case fetchYearData year mobile of
        None \<Rightarrow> False
      | Some dm \<Rightarrow>
          (case (focusAreasList dm, tableSections dm, csvURL dm) of
             (Some areas, Some sections, Some url) \<Rightarrow>
               areas_ok dm areas \<and> weights_ok (investigationScores dm) (investigationWeight dm) \<and> columns_ok (browserInfo dm) \<and>
               list_all (section_ok areas (names_of (investigationScores dm)) (names_of (previousInvestigationScores dm)))
                 sections
           | _ \<Rightarrow> False))"

definition shown_years :: "(string \<times> bool) list" where
  "shown_years = map (\<lambda>y. (y, False)) valid_years @ map (\<lambda>y. (y, True)) valid_mobile_years"


definition area_flags :: "focus_area obj \<Rightarrow> bool obj" where
  "area_flags as = map (\<lambda>kv. (fst kv, fa_counts (snd kv))) as"

lemma area_flags_keys [simp]: "map fst (area_flags as) = map fst as"
  by (simp add: area_flags_def comp_def)

lemma area_flags_get: "obj_get (area_flags as) f = map_option fa_counts (obj_get as f)"
  unfolding area_flags_def by (induction as) auto

definition flags_ok :: "string \<Rightarrow> bool obj \<Rightarrow> bool" where
  "flags_ok summary flags \<longleftrightarrow> distinct (summary # map fst flags) \<and> list_ex snd flags"

lemma areas_ok_flags:
  assumes "flags_ok (summaryFeatureName dm) (area_flags (focusAreas dm))"
  shows "areas_ok dm (map fst (area_flags (focusAreas dm)))"
proof -
  have d: "distinct (map fst (focusAreas dm))" using assms by (simp add: flags_ok_def)
  from assms obtain kv where kv: "kv \<in> set (focusAreas dm)" "fa_counts (snd kv)"
    by (auto simp: flags_ok_def list_ex_iff area_flags_def)
  then have "obj_get (focusAreas dm) (fst kv) = Some (snd kv)" using d by simp
  with kv have "list_ex (\<lambda>f. fa_counts (the (obj_get (focusAreas dm) f))) (map fst (focusAreas dm))"
    by (auto simp: list_ex_iff intro!: bexI [of _ kv])
  then show ?thesis using assms by (auto simp: areas_ok_def flags_ok_def features_def list_all_iff has_key_iff)
qed

lemma own_order_keys:
  "list_all (\<lambda>k. \<not> array_index k) (map fst (area_flags o1)) \<Longrightarrow> map fst (own_order o1) = map fst (area_flags o1)"
  by (simp add: own_order_plain list_all_iff)

lemmas area_defs =
  focus_areas_2021_def focus_areas_2022_a_def focus_areas_2022_b_def focus_areas_2023_a_def focus_areas_2023_b_def
  focus_areas_2023_c_def focus_areas_2024_a_def focus_areas_2024_b_def focus_areas_2024_c_def focus_areas_2024_d_def
  focus_areas_2025_a_def focus_areas_2025_b_def focus_areas_2026_a_def focus_areas_2026_b_def

lemmas year_defs = year_2021_def year_2022_def year_2023_def year_2024_def year_2025_def year_2026_def

text \<open>What is looked up in the data, without the long texts.\<close>

lemmas year_fields =
  area_flags_def year_defs year_info.select_convs area_defs append.simps list.map focus_area.select_convs fst_conv snd_conv
  names_of_def option.case investigation.select_convs

lemma years [simp]:
  "obj_get interop_years ''2020'' = None" "obj_get interop_years ''2021'' = Some year_2021"
  "obj_get interop_years ''2022'' = Some year_2022" "obj_get interop_years ''2023'' = Some year_2023"
  "obj_get interop_years ''2024'' = Some year_2024" "obj_get interop_years ''2025'' = Some year_2025"
  "obj_get interop_years ''2026'' = Some year_2026"
  by (simp_all add: interop_years_def)

lemma year_digits:
  "char_of (48::nat) = CHR ''0''" "char_of (49::nat) = CHR ''1''" "char_of (50::nat) = CHR ''2''"
  "char_of (51::nat) = CHR ''3''" "char_of (52::nat) = CHR ''4''" "char_of (53::nat) = CHR ''5''"
  by code_simp+

lemma year_before [simp]:
  "show_nat (digits_value ''2021'' - Suc 0) = ''2020''" "show_nat (digits_value ''2022'' - Suc 0) = ''2021''"
  "show_nat (digits_value ''2023'' - Suc 0) = ''2022''" "show_nat (digits_value ''2024'' - Suc 0) = ''2023''"
  "show_nat (digits_value ''2025'' - Suc 0) = ''2024''" "show_nat (digits_value ''2026'' - Suc 0) = ''2025''"
  by (simp_all add: digits_value_def show_nat.simps year_digits)

definition scores_before :: "string \<Rightarrow> investigation list option" where
  "scores_before y =
     (case obj_get interop_years (show_nat (digits_value y - Suc 0)) of None \<Rightarrow> None | Some p \<Rightarrow> investigation_scores p)"

definition desktop_check :: "year_info \<Rightarrow> investigation list option \<Rightarrow> bool" where
  "desktop_check yi prev \<longleftrightarrow>
     list_all (\<lambda>k. \<not> array_index k) (map fst (area_flags (focus_areas yi))) \<and>
     flags_ok (summary_feature_name yi) (area_flags (focus_areas yi)) \<and>
     columns_ok (map (obj_get BROWSER_INFO)
       (case yi_browsers yi of Some bs \<Rightarrow> bs | None \<Rightarrow> [''chrome_edge_dev'', ''firefox'', ''safari''])) \<and>
     weights_ok (investigation_scores yi) (investigation_weight yi) \<and>
     list_all (section_ok (map fst (area_flags (focus_areas yi))) (names_of (investigation_scores yi)) (names_of prev))
       (table_sections yi)"

definition mobile_check :: "year_info \<Rightarrow> investigation list option \<Rightarrow> bool" where
  "mobile_check yi prev \<longleftrightarrow>
     (case (mobile_focus_areas yi, yi_mobile_browsers yi, mobile_table_sections yi, mobile_csv_url yi) of
        (Some areas, Some bs, Some sections, Some url) \<Rightarrow>
          distinct (summary_feature_name yi # areas) \<and>
          list_all (List.member (map fst (area_flags (focus_areas yi)))) areas \<and>
          list_ex (\<lambda>f. obj_get (area_flags (focus_areas yi)) f = Some True) (take 1 areas) \<and>
          columns_ok (map (obj_get BROWSER_INFO) bs) \<and>
          weights_ok (investigation_scores yi) (investigation_weight yi) \<and>
          list_all (section_ok areas (names_of (investigation_scores yi)) (names_of prev)) sections
      | _ \<Rightarrow> False)"

lemma year_sound_desktop:
  assumes y: "obj_get interop_years y = Some yi" and ok: "desktop_check yi (scores_before y)"
  shows "year_sound y False"
proof -
  have "map fst (own_order (focus_areas yi)) = map fst (area_flags (focus_areas yi))"
    using ok by (intro own_order_keys) (simp add: desktop_check_def)
  with areas_ok_flags [of "the (fetchYearData y False)"] show ?thesis
    using y ok by (simp add: year_sound_def fetchYearData_def Let_def desktop_check_def scores_before_def)
qed

lemma area_flags_counts: "obj_get (area_flags as) f = Some True \<Longrightarrow> fa_counts (the (obj_get as f))"
  by (auto simp: area_flags_get)

lemma year_sound_mobile:
  assumes y: "obj_get interop_years y = Some yi" and ok: "mobile_check yi (scores_before y)"
  shows "year_sound y True"
proof -
  obtain areas bs sections url where m: "mobile_focus_areas yi = Some areas" "yi_mobile_browsers yi = Some bs"
    "mobile_table_sections yi = Some sections" "mobile_csv_url yi = Some url"
    using ok by (auto simp: mobile_check_def split: option.splits)
  have "list_ex (\<lambda>f. fa_counts (the (obj_get (focus_areas yi) f))) areas"
    using ok area_flags_counts by (cases areas) (auto simp: mobile_check_def m)
  moreover have "list_all (\<lambda>f. has_key (focus_areas yi) f) areas"
    using ok by (simp add: mobile_check_def m list_all_iff has_key_iff)
  ultimately show ?thesis
    using y ok
    by (simp add: year_sound_def fetchYearData_def Let_def areas_ok_def features_def mobile_check_def m scores_before_def)
qed

lemma scores_before_years [simp]:
  "scores_before ''2021'' = None" "scores_before ''2022'' = investigation_scores year_2021"
  "scores_before ''2023'' = investigation_scores year_2022" "scores_before ''2024'' = investigation_scores year_2023"
  "scores_before ''2025'' = investigation_scores year_2024" "scores_before ''2026'' = investigation_scores year_2025"
  by (simp_all add: scores_before_def)

lemma desktop_2021: "desktop_check year_2021 None"
  by (simp only: desktop_check_def year_fields) code_simp

lemma desktop_2022: "desktop_check year_2022 (investigation_scores year_2021)"
  by (simp only: desktop_check_def year_fields) code_simp

lemma desktop_2023: "desktop_check year_2023 (investigation_scores year_2022)"
  by (simp only: desktop_check_def year_fields) code_simp

lemma desktop_2024: "desktop_check year_2024 (investigation_scores year_2023)"
  by (simp only: desktop_check_def year_fields) code_simp

lemma desktop_2025: "desktop_check year_2025 (investigation_scores year_2024)"
  by (simp only: desktop_check_def year_fields) code_simp

lemma desktop_2026: "desktop_check year_2026 (investigation_scores year_2025)"
  by (simp only: desktop_check_def year_fields) code_simp

lemma mobile_2024: "mobile_check year_2024 (investigation_scores year_2023)"
  by (simp only: mobile_check_def year_fields prod.case) code_simp

lemma mobile_2025: "mobile_check year_2025 (investigation_scores year_2024)"
  by (simp only: mobile_check_def year_fields prod.case) code_simp

lemma mobile_2026: "mobile_check year_2026 (investigation_scores year_2025)"
  by (simp only: mobile_check_def year_fields prod.case) code_simp

lemma desktop_years: "list_all (\<lambda>y. year_sound y False) valid_years"
  using desktop_2021 desktop_2022 desktop_2023 desktop_2024 desktop_2025 desktop_2026
  by (simp add: valid_years_def year_sound_desktop)

lemma mobile_years: "list_all (\<lambda>y. year_sound y True) valid_mobile_years"
  using mobile_2024 mobile_2025 mobile_2026
  by (simp add: valid_mobile_years_def year_sound_mobile)

text \<open>
  C18: for every year that can be shown, on desktops and on mobiles, the data is found and is
  consistent: no focus area twice, all of them known and some of them counted; a weight between 0
  and 1 and investigation scores between 0 and 1000 with ascending dates; two browsers at least, with
  distinct columns; sections that name focus areas or investigations of the year or of the year before.
\<close>
theorem interop_config_sound: "list_all (\<lambda>(y, mobile). year_sound y mobile) shown_years"
  using desktop_years mobile_years by (auto simp: shown_years_def list_all_iff)

section \<open>The range of the scores\<close>

definition per_mille_number :: "jsnum \<Rightarrow> bool" where
  "per_mille_number x = (case x of Num q \<Rightarrow> q \<in> \<int> \<and> 0 \<le> q \<and> q \<le> 1000 | _ \<Rightarrow> False)"

lemma score_at_bounds: "investigation_ok i \<Longrightarrow> 0 \<le> score_at midnight date i \<and> score_at midnight date i \<le> 1000"
proof -
  assume ok: "investigation_ok i"
  show ?thesis
  proof (cases "find (reached midnight date) (rev (scores_over_time i))")
    case (Some e)
    then have "e \<in> set (scores_over_time i)" by (metis find_Some_iff nth_mem set_rev)
    with Some ok show ?thesis by (simp add: score_at_def investigation_ok_def list_all_iff)
  qed (simp add: score_at_def)
qed

lemma mean_bounds:
  assumes "xs \<noteq> []" and "\<forall>x \<in> set xs. 0 \<le> g x \<and> g x \<le> (1000 :: rat)"
  shows "0 \<le> sum_list (map g xs) / of_nat (length xs) \<and> sum_list (map g xs) / of_nat (length xs) \<le> 1000"
proof -
  have "0 \<le> sum_list (map g xs) \<and> sum_list (map g xs) \<le> 1000 * of_nat (length xs)"
    using assms(2) by (induction xs) (auto simp: algebra_simps intro: add_mono)
  then show ?thesis using assms(1) by (simp add: divide_le_eq)
qed

lemma weighted_bounds:
  assumes "0 \<le> w" "w \<le> (1 :: rat)" "0 \<le> t" "t \<le> 1000" "0 \<le> s" "s \<le> 1000"
  shows "per_mille_number (Num (of_int \<lfloor>t * (1 - w) + s * w\<rfloor>))"
proof -
  have "t * (1 - w) \<le> 1000 * (1 - w)" "s * w \<le> 1000 * w" using assms by (intro mult_right_mono; simp)+
  then have "t * (1 - w) + s * w \<le> of_int 1000" by (simp add: algebra_simps)
  then have "\<lfloor>t * (1 - w) + s * w\<rfloor> \<le> 1000" by linarith
  moreover have "0 \<le> \<lfloor>t * (1 - w) + s * w\<rfloor>" using assms by (simp add: zero_le_floor)
  ultimately show ?thesis by (simp add: per_mille_number_def)
qed

lemma counted_sum:
  "length ss = length hs \<Longrightarrow> \<forall>k \<in> set ss. k \<le> 1000 \<Longrightarrow>
   0 \<le> (\<Sum>(f, k) \<leftarrow> zip hs ss. if P f then of_nat k else (0 :: rat)) \<and>
   (\<Sum>(f, k) \<leftarrow> zip hs ss. if P f then of_nat k else (0 :: rat)) \<le> 1000 * of_nat (length (filter P hs))"
proof (induction hs arbitrary: ss)
  case (Cons h hs)
  then obtain k ks where ss: "ss = k # ks" by (cases ss) auto
  with Cons.IH [of ks] Cons.prems have
    "0 \<le> (\<Sum>(f, k) \<leftarrow> zip hs ks. if P f then of_nat k else (0 :: rat))"
    "(\<Sum>(f, k) \<leftarrow> zip hs ks. if P f then of_nat k else (0 :: rat)) \<le> 1000 * of_nat (length (filter P hs))"
    "(of_nat k :: rat) \<le> 1000" by auto
  then show ?case by (auto simp: ss algebra_simps intro: add_nonneg_nonneg)
qed simp

lemma filter_length_same:
  assumes "distinct xs" and "distinct ys" and "set xs = set ys"
  shows "length (filter P xs) = length (filter P ys)"
  by (metis assms distinct_card distinct_filter set_filter)

lemma summary_bounds:
  assumes ready: "csv_ready dm areas hs" and areas: "areas_ok dm areas"
    and weights: "weights_ok (investigationScores dm) (investigationWeight dm)"
    and ss: "length ss = length areas" "\<forall>k \<in> set ss. k \<le> 1000"
  shows "per_mille_number (shown_score (block_score midnight dm areas hs date (summaryFeatureName dm) ss))"
proof -
  let ?P = "\<lambda>f. fa_counts (the (obj_get (focusAreas dm) f))"
  define n where "n = length (filter ?P areas)"
  define t where "t = (\<Sum>(f, k) \<leftarrow> zip hs ss. if ?P f then of_nat k else (0 :: rat))"
  have hs: "distinct hs" "distinct areas" "set hs = set areas"
    using ready by (auto simp: csv_ready_def features_def)
  have "0 < n" using areas by (auto simp: n_def areas_ok_def list_ex_iff filter_empty_conv)
  moreover have "0 \<le> t \<and> t \<le> 1000 * of_nat n"
    unfolding t_def n_def filter_length_same [OF hs, symmetric]
    using counted_sum [of ss hs ?P] ss ready_length [OF ready] by simp
  ultimately have mean: "mean t n = Num (t / of_nat n)" "0 \<le> t / of_nat n" "t / of_nat n \<le> 1000"
    by (simp_all add: mean_def divide_le_eq)
  obtain s w where iv: "getInvestigationScoreAndWeight midnight dm date = (Num s, Some w)" "0 \<le> w" "w \<le> 1" "0 \<le> s" "s \<le> 1000"
  proof (cases "investigationScores dm")
    case None
    then show thesis using that [of 0 0] by (simp add: getInvestigationScoreAndWeight_def)
  next
    case (Some scores)
    then obtain w where w: "investigationWeight dm = Some w" "0 \<le> w" "w \<le> 1" "scores \<noteq> []" "list_all investigation_ok scores"
      using weights by (auto simp: weights_ok_def split: option.splits)
    then have "0 \<le> sum_list (map (score_at midnight date) scores) / of_nat (length scores)"
      "sum_list (map (score_at midnight date) scores) / of_nat (length scores) \<le> 1000"
      using mean_bounds [of scores "score_at midnight date"] score_at_bounds by (auto simp: list_all_iff)
    with Some w that show thesis by (simp add: getInvestigationScoreAndWeight_def mean_def)
  qed
  have "block_score midnight dm areas hs date (summaryFeatureName dm) ss =
      Num (of_int \<lfloor>t / of_nat n * (1 - w) + s * w\<rfloor>)"
    by (simp add: block_score_def summary_score_def mean(1) iv(1) flip: t_def n_def)
  with weighted_bounds [OF iv(2,3) mean(2,3) iv(4,5)] show ?thesis by (simp add: shown_score_def)
qed

lemma feature_bounds:
  assumes ready: "csv_ready dm areas hs" and f: "f \<in> set areas"
    and ss: "length ss = length areas" "\<forall>k \<in> set ss. k \<le> 1000"
  shows "per_mille_number (shown_score (block_score midnight dm areas hs date f ss))"
proof -
  have "f \<in> set hs" "length hs = length ss" "f \<noteq> summaryFeatureName dm"
    using ready f ss ready_length by (auto simp: csv_ready_def features_def)
  then obtain k where k: "map_of (zip hs ss) f = Some k" by (metis map_of_zip_is_None not_None_eq)
  then have "k \<in> set ss" by (metis map_of_SomeD set_zip_rightD)
  with ss(2) k \<open>f \<noteq> _\<close> show ?thesis by (auto simp: block_score_def shown_score_def per_mille_number_def)
qed

lemma those_Some: "those xs = Some ys \<Longrightarrow> xs = map Some ys"
  by (induction xs arbitrary: ys) (auto split: option.splits)

lemma desktop_scores:
  assumes "y \<in> set valid_years" and "fetchYearData y False = Some dm" and "focusAreasList dm = Some areas"
    and "csv_headers (length areas) header = hs" and "distinct hs" and "set hs = set areas"
    and "list_all (line_ok (length areas) (numBrowsers dm)) ls" and "ls \<noteq> []"
  shows "\<exists>scores. Option.bind (loadCsv midnight dm (header # map (\<lambda>l. csv_line (fst l) (snd l)) ls))
      (\<lambda>tv. getMostRecentScores dm isStable (fst tv)) = Some scores \<and>
    length scores = numBrowsers dm + 1 \<and> list_all (list_all (\<lambda>kv. per_mille_number (snd kv))) scores"
proof -
  have "year_sound y False" using desktop_years assms(1) by (simp add: list_all_iff)
  then have ok: "areas_ok dm areas" "weights_ok (investigationScores dm) (investigationWeight dm)" "columns_ok (browserInfo dm)"
    using assms(2,3) by (auto simp: year_sound_def split: option.splits)
  then obtain infos where infos: "browserInfo dm = map Some infos" "distinct (''Date'' # [] # table_names infos)"
    by (auto simp: columns_ok_def dest: those_Some split: option.splits)
  have ready: "csv_ready dm areas hs"
    using ok(1) assms(2,5,6) by (auto simp: csv_ready_def areas_ok_def list_all_iff has_key_def fetchYearData_def Let_def
        split: option.splits)
  have n: "numBrowsers dm = length infos" by (simp add: numBrowsers_def infos(1))
  have line: "line_ok (length areas) (length infos) (last ls)" using assms(7,8) by (simp add: n list_all_iff)
  then have "length (line_scores midnight dm areas hs (last ls)) = numBrowsers dm + 1"
    by (simp add: line_scores_def line_ok_def n)
  moreover have "list_all (list_all (\<lambda>kv. per_mille_number (snd kv))) (line_scores midnight dm areas hs (last ls))"
    using line summary_bounds [OF ready ok(1,2)] feature_bounds [OF ready]
    by (auto simp: line_scores_def list_all_iff features_def line_ok_def block_ok_def)
  ultimately show ?thesis
    using scores_of_file [OF ready assms(3) infos assms(4) _ assms(8), of midnight isStable] assms(7) n by simp
qed

text \<open>
  C19: for every year of the desktop view, a file whose headers are the focus areas of the year and
  whose lines have scores of at most 1000 is read, and every score that is then shown, of a
  feature or of the summary, is an integer between 0 and 1000.
\<close>
theorem desktop_score_range:
  assumes "y \<in> set valid_years" and "fetchYearData y False = Some dm" and "focusAreasList dm = Some areas"
    and "csv_headers (length areas) header = hs" and "distinct hs" and "set hs = set areas"
    and "list_all (line_ok (length areas) (numBrowsers dm)) ls" and "ls \<noteq> []"
  shows "\<exists>scores. Option.bind (loadCsv midnight dm (header # map (\<lambda>l. csv_line (fst l) (snd l)) ls))
      (\<lambda>tv. getMostRecentScores dm isStable (fst tv)) = Some scores \<and>
    length scores = numBrowsers dm + 1 \<and> list_all (list_all (\<lambda>kv. per_mille_number (snd kv))) scores"
  using assms by (rule desktop_scores)

definition areas_2021 :: "string list" where
  "areas_2021 =
     [''interop-2021-aspect-ratio'', ''interop-2021-flexbox'', ''interop-2021-grid'', ''interop-2021-position-sticky'',
      ''interop-2021-transforms'']"

definition header_2021 :: string where
  "header_2021 = join '','' ([''date'', ''chrome-version''] @ map (\<lambda>a. ''chrome-'' @ a) areas_2021 @ [''firefox-version''])"

definition line_2021 :: "string \<times> block list" where
  "line_2021 = (''2021-01-02'', replicate 4 (''90'', [605, 1000, 0, 7, 99]))"

definition manager_2021 :: manager where
  "manager_2021 = the (fetchYearData ''2021'' False)"

lemma fetched_2021: "fetchYearData ''2021'' False = Some manager_2021"
  by (simp add: manager_2021_def fetchYearData_def year_2021_def Let_def)

lemma areas_list_2021: "focusAreasList manager_2021 = Some areas_2021"
proof -
  have "list_all (\<lambda>k. \<not> array_index k) (map fst (area_flags (focus_areas year_2021)))"
    using desktop_2021 by (simp add: desktop_check_def)
  moreover have "map fst (area_flags (focus_areas year_2021)) = areas_2021"
    by (simp only: year_fields areas_2021_def)
  ultimately have "map fst (own_order (focus_areas year_2021)) = areas_2021"
    by (simp only: own_order_keys)
  then show ?thesis by (simp add: manager_2021_def fetchYearData_def year_2021_def Let_def)
qed

lemma headers_2021: "csv_headers (length areas_2021) header_2021 = areas_2021" "distinct areas_2021"
  by code_simp+

lemma line_2021_ok: "list_all (line_ok (length areas_2021) (numBrowsers manager_2021)) [line_2021]"
proof -
  have "numBrowsers manager_2021 = 3"
    by (simp add: numBrowsers_def manager_2021_def fetchYearData_def year_2021_def Let_def)
  then show ?thesis by (simp add: line_2021_def line_ok_def block_ok_def areas_2021_def list_all_iff)
qed

lemma desktop_score_range_witness:
  "\<exists>scores. Option.bind (loadCsv (\<lambda>d. d) manager_2021 (header_2021 # map (\<lambda>l. csv_line (fst l) (snd l)) [line_2021]))
      (\<lambda>tv. getMostRecentScores manager_2021 False (fst tv)) = Some scores \<and>
    length scores = numBrowsers manager_2021 + 1 \<and>
    list_all (list_all (\<lambda>kv. per_mille_number (snd kv))) scores"
proof (rule desktop_score_range)
  show "''2021'' \<in> set valid_years" by (simp add: valid_years_def)
  show "set areas_2021 = set areas_2021" by (rule refl)
qed (use fetched_2021 areas_list_2021 headers_2021 line_2021_ok in simp_all)

end
