(* ===== verification/InteropPage.thy ===== *)
theory InteropPage
  imports InteropDashboard InteropYears
begin

text \<open>
  The page of the dashboard over its life: it opens, and its buttons change what is shown. The state that is
  shown follows the clicks and the address of the page, so that the address opens the same view again.
\<close>

inductive session ::
  "(int \<Rightarrow> int) \<Rightarrow> (string \<Rightarrow> string option) \<Rightarrow> bool \<Rightarrow> string \<Rightarrow> string \<Rightarrow> dashboard \<Rightarrow> bool"
  for midnight fetch flag pathname year where
  opened: "ready midnight fetch flag pathname year params = Some d \<Longrightarrow> session midnight fetch flag pathname year d"
| event: "session midnight fetch flag pathname year d \<Longrightarrow> handle pathname e d = Some d' \<Longrightarrow>
    session midnight fetch flag pathname year d'"

text \<open>The page as it is when it opens: the order of the rows and the navigation are not part of the view.\<close>

definition fresh :: "dashboard \<Rightarrow> dashboard" where
  "fresh d = d\<lparr>db_sortColumn := 0, db_isSortedAsc := True, db_location := None\<rparr>"

definition page_shows ::
  "(int \<Rightarrow> int) \<Rightarrow> (string \<Rightarrow> string option) \<Rightarrow> bool \<Rightarrow> string \<Rightarrow> string \<Rightarrow> dashboard \<Rightarrow> bool" where
  "page_shows midnight fetch flag pathname year d \<longleftrightarrow>
     (db_mobile d \<longrightarrow> flag \<and> \<not> db_stable d) \<and>
     (\<exists>l ex st. load_year midnight fetch year (db_mobile d) = Some l \<and>
        recent_scores False l = Some ex \<and> recent_scores True l = Some st \<and>
        show_page flag pathname year l ex st (db_stable d) (db_mobile d) (db_embedded d) (db_feature d) = Some (fresh d))"

lemma updateTotals_fields:
  "updateTotals d = Some d' \<Longrightarrow> \<exists>a b c. d' = d\<lparr>totalChromium := a, totalFirefox := b, totalSafari := c\<rparr>"
  by (auto simp: updateTotals_def Let_def split: option.splits)

lemma show_page_fields:
  assumes "show_page flag pathname year l ex st isStable mobile embedded feature = Some d"
  shows "db_stable d = isStable \<and> db_mobile d = mobile \<and> db_embedded d = embedded \<and> db_feature d = feature \<and>
    db_manager d = ld_manager l \<and> fresh d = d"
proof -
  let ?d = "set_year (new_page flag year l ex st isStable mobile)"
  obtain d' where d': "updateTotals ?d = Some d'" "d = updateUrlParams pathname (d'\<lparr>db_embedded := embedded, db_feature := feature\<rparr>)"
    using assms by (auto simp: show_page_def)
  from updateTotals_fields [OF d'(1)] d'(2) show ?thesis
    by (auto simp: updateUrlParams_def set_year_def new_page_def fresh_def Let_def)
qed

lemma page_shows_opened:
  assumes "ready midnight fetch flag pathname year params = Some d"
  shows "page_shows midnight fetch flag pathname year d"
proof -
  define mobile where "mobile = (params_get ''mobile-view'' params \<noteq> None \<and> flag)"
  obtain l ex st isStable embedded feature where
    "load_year midnight fetch year mobile = Some l" "recent_scores False l = Some ex" "recent_scores True l = Some st"
    "show_page flag pathname year l ex st (\<not> mobile \<and> isStable) mobile embedded feature = Some d"
    using assms unfolding ready_def Let_def mobile_def [symmetric] by (auto split: option.splits)
  with show_page_fields [OF this(4)] show ?thesis by (auto simp: page_shows_def mobile_def)
qed

definition totals_of :: "dashboard \<Rightarrow> (string \<times> string \<times> string) option" where
  "totals_of d =
     (let tot = (\<lambda>i. getBrowserScoreForFeature i (summaryFeatureName (db_manager d)) (db_stable d) d)
      in case (tot 0, tot 1, tot 2) of (Some a, Some b, Some c) \<Rightarrow> Some (a, b, c) | _ \<Rightarrow> None)"

definition set_totals :: "string \<times> string \<times> string \<Rightarrow> dashboard \<Rightarrow> dashboard" where
  "set_totals t d = d\<lparr>totalChromium := fst t, totalFirefox := fst (snd t), totalSafari := snd (snd t)\<rparr>"

lemma updateTotals_alt: "updateTotals d = map_option (\<lambda>t. set_totals t d) (totals_of d)"
  by (auto simp: updateTotals_def totals_of_def set_totals_def Let_def split: option.splits)

text \<open>The totals depend on the scores that are shown.\<close>

lemma totals_of_cong:
  "db_manager d = db_manager e \<Longrightarrow> db_stable d = db_stable e \<Longrightarrow> scores_of (db_stable e) d = scores_of (db_stable e) e \<Longrightarrow>
   totals_of d = totals_of e"
  by (simp add: totals_of_def getBrowserScoreForFeature_def)

lemma set_stable_shows:
  assumes d: "show_page flag pathname year l ex st (db_stable d) False (db_embedded d) (db_feature d) = Some (fresh d)"
    and d': "set_stable pathname s d = Some d'" "db_stable d \<noteq> s"
  shows "show_page flag pathname year l ex st s False (db_embedded d) (db_feature d) = Some (fresh (d'\<lparr>db_pressed := (s, \<not> s)\<rparr>))"
proof -
  let ?base = "\<lambda>s. set_year (new_page flag year l ex st s False)"
  obtain t where t: "fresh d = updateUrlParams pathname ((set_totals t (?base (db_stable d)))
      \<lparr>db_embedded := db_embedded d, db_feature := db_feature d\<rparr>)"
    using d by (auto simp: show_page_def updateTotals_alt dest: sym)
  have same: "db_manager d = ld_manager l" "scores_stable d = st" "scores_experimental d = ex"
    using arg_cong [OF t, of db_manager] arg_cong [OF t, of scores_stable] arg_cong [OF t, of scores_experimental]
    by (simp_all add: fresh_def updateUrlParams_def set_totals_def set_year_def new_page_def Let_def)
  have tot: "totals_of (d\<lparr>db_stable := s\<rparr>) = totals_of (?base s)"
    using same by (intro totals_of_cong) (simp_all add: set_year_def new_page_def Let_def scores_of_def)
  obtain u where u: "totals_of (?base s) = Some u" "d' = updateUrlParams pathname (set_totals u (d\<lparr>db_stable := s\<rparr>))"
    using d' tot by (auto simp: set_stable_def updateTotals_alt split: if_splits)
  have "fresh (d'\<lparr>db_pressed := (s, \<not> s)\<rparr>) = updateUrlParams pathname (set_totals u ((fresh d)\<lparr>db_stable := s, db_pressed := (s, \<not> s)\<rparr>))"
    unfolding u(2) by (simp add: fresh_def updateUrlParams_def set_totals_def view_params_def)
  also have "\<dots> = updateUrlParams pathname ((set_totals u (?base s))\<lparr>db_embedded := db_embedded d, db_feature := db_feature d\<rparr>)"
    unfolding t by (simp add: updateUrlParams_def set_totals_def view_params_def set_year_def new_page_def Let_def getAllYears_def)
  finally show ?thesis by (simp add: show_page_def updateTotals_alt u(1))
qed

lemma feature_shows:
  assumes "show_page flag pathname year l ex st (db_stable d) mobile (db_embedded d) (db_feature d) = Some (fresh d)"
  shows "show_page flag pathname year l ex st (db_stable d) mobile (db_embedded d) f =
    Some (fresh (updateUrlParams pathname (d\<lparr>db_feature := f\<rparr>)))"
proof -
  let ?base = "set_year (new_page flag year l ex st (db_stable d) mobile)"
  obtain t where t: "totals_of ?base = Some t" "fresh d = updateUrlParams pathname ((set_totals t ?base)
      \<lparr>db_embedded := db_embedded d, db_feature := db_feature d\<rparr>)"
    using assms by (auto simp: show_page_def updateTotals_alt dest: sym)
  have "fresh (updateUrlParams pathname (d\<lparr>db_feature := f\<rparr>)) = updateUrlParams pathname ((fresh d)\<lparr>db_feature := f\<rparr>)"
    by (simp add: fresh_def updateUrlParams_def view_params_def)
  also have "\<dots> = updateUrlParams pathname ((set_totals t ?base)\<lparr>db_embedded := db_embedded d, db_feature := f\<rparr>)"
    unfolding t(2) by (simp add: updateUrlParams_def view_params_def)
  finally show ?thesis by (simp add: show_page_def updateTotals_alt t(1))
qed

lemma fresh_simps [simp]:
  "fresh (d\<lparr>db_location := x\<rparr>) = fresh d" "fresh (handleSortClick i d) = fresh d" "fresh (fresh d) = fresh d"
  by (simp_all add: fresh_def handleSortClick_def)

lemma fresh_select [simp]:
  "db_stable (fresh d) = db_stable d" "db_mobile (fresh d) = db_mobile d" "db_embedded (fresh d) = db_embedded d"
  "db_feature (fresh d) = db_feature d"
  by (simp_all add: fresh_def)

lemma page_shows_cong:
  assumes "fresh d' = fresh d" and "page_shows midnight fetch flag pathname year d"
  shows "page_shows midnight fetch flag pathname year d'"
proof -
  have "db_stable d' = db_stable d" "db_mobile d' = db_mobile d" "db_embedded d' = db_embedded d" "db_feature d' = db_feature d"
    using assms(1) by (metis fresh_select)+
  with assms show ?thesis by (simp add: page_shows_def)
qed

lemma page_shows_stable:
  assumes "page_shows midnight fetch flag pathname year d" and "\<not> db_mobile d" and "db_stable d \<noteq> s"
    and "set_stable pathname s d = Some d'"
  shows "page_shows midnight fetch flag pathname year (d'\<lparr>db_pressed := (s, \<not> s)\<rparr>)"
proof -
  obtain l ex st where l: "load_year midnight fetch year False = Some l" "recent_scores False l = Some ex"
    "recent_scores True l = Some st"
    "show_page flag pathname year l ex st (db_stable d) False (db_embedded d) (db_feature d) = Some (fresh d)"
    using assms(1,2) by (auto simp: page_shows_def)
  have page: "show_page flag pathname year l ex st s False (db_embedded d) (db_feature d) = Some (fresh (d'\<lparr>db_pressed := (s, \<not> s)\<rparr>))"
    by (rule set_stable_shows [OF l(4) assms(4,3)])
  from show_page_fields [OF this] have "db_stable d' = s" "\<not> db_mobile d'" "db_embedded d' = db_embedded d" "db_feature d' = db_feature d"
    by (simp_all add: fresh_def)
  with l page show ?thesis by (auto simp: page_shows_def)
qed

lemma page_shows_feature:
  assumes "page_shows midnight fetch flag pathname year d"
  shows "page_shows midnight fetch flag pathname year (updateUrlParams pathname (d\<lparr>db_feature := f\<rparr>))"
proof -
  obtain l ex st where l: "load_year midnight fetch year (db_mobile d) = Some l" "recent_scores False l = Some ex"
    "recent_scores True l = Some st"
    "show_page flag pathname year l ex st (db_stable d) (db_mobile d) (db_embedded d) (db_feature d) = Some (fresh d)"
    using assms by (auto simp: page_shows_def)
  from feature_shows [OF l(4), of f] l assms show ?thesis by (auto simp: page_shows_def updateUrlParams_def)
qed

lemma page_shows_event:
  assumes d: "page_shows midnight fetch flag pathname year d" and e: "handle pathname e d = Some d'"
  shows "page_shows midnight fetch flag pathname year d'"
proof (cases e)
  case ClickExperimental
  with e consider "fresh d' = fresh d" | d'' where "\<not> db_mobile d" "db_stable d \<noteq> False" "set_stable pathname False d = Some d''"
      "d' = d''\<lparr>db_pressed := (False, \<not> False)\<rparr>"
    by (auto simp: clickExperimental_def toggleMobileView_def Let_def split: if_splits)
  then show ?thesis by cases (use page_shows_cong [OF _ d] page_shows_stable [OF d] in blast)+
next
  case ClickStable
  with e consider "fresh d' = fresh d" | d'' where "\<not> db_mobile d" "db_stable d \<noteq> True" "set_stable pathname True d = Some d''"
      "d' = d''\<lparr>db_pressed := (True, \<not> True)\<rparr>"
    by (auto simp: clickStable_def toggleMobileView_def Let_def split: if_splits)
  then show ?thesis by cases (use page_shows_cong [OF _ d] page_shows_stable [OF d] in blast)+
next
  case ClickMobile
  with e have "fresh d' = fresh d" by (auto simp: clickMobile_def toggleMobileView_def Let_def)
  then show ?thesis by (rule page_shows_cong [OF _ d])
next
  case (SelectFeature f)
  with e d page_shows_feature [OF d] show ?thesis by (auto simp: select_feature_def split: if_splits)
next
  case (SortClick i)
  with e have "fresh d' = fresh d" by auto
  then show ?thesis by (rule page_shows_cong [OF _ d])
qed

lemma session_shows: "session midnight fetch flag pathname year d \<Longrightarrow> page_shows midnight fetch flag pathname year d"
  by (induction rule: session.induct) (auto intro: page_shows_opened page_shows_event)

section \<open>The view is consistent\<close>

text \<open>The buttons, the totals and the address are those of the view.\<close>

definition view_consistent :: "string \<Rightarrow> dashboard \<Rightarrow> bool" where
  "view_consistent pathname d \<longleftrightarrow>
     db_pressed d = (db_stable d, \<not> db_stable d) \<and> updateTotals d = Some d \<and> updateUrlParams pathname d = d \<and>
     (db_mobile d \<longrightarrow> showMobileScoresView d \<and> \<not> db_stable d)"

lemma shows_consistent:
  assumes "page_shows midnight fetch flag pathname year d"
  shows "view_consistent pathname (fresh d)"
proof -
  obtain l ex st where page: "show_page flag pathname year l ex st (db_stable d) (db_mobile d) (db_embedded d) (db_feature d) = Some (fresh d)"
    using assms by (auto simp: page_shows_def)
  let ?base = "set_year (new_page flag year l ex st (db_stable d) (db_mobile d))"
  obtain t where t: "totals_of ?base = Some t" "fresh d = updateUrlParams pathname ((set_totals t ?base)
      \<lparr>db_embedded := db_embedded d, db_feature := db_feature d\<rparr>)"
    using page by (auto simp: show_page_def updateTotals_alt dest: sym)
  have "totals_of (fresh d) = totals_of ?base"
    unfolding t(2) by (intro totals_of_cong)
      (simp_all add: updateUrlParams_def set_totals_def set_year_def new_page_def scores_of_def Let_def)
  then have "updateTotals (fresh d) = Some (set_totals t (fresh d))" by (simp add: updateTotals_alt t(1))
  moreover have "set_totals t (fresh d) = fresh d"
    unfolding t(2) by (simp add: updateUrlParams_def set_totals_def view_params_def)
  moreover have "updateUrlParams pathname (fresh d) = fresh d"
    unfolding t(2) by (simp add: updateUrlParams_def view_params_def)
  moreover have "db_pressed (fresh d) = (db_stable d, \<not> db_stable d)" "showMobileScoresView (fresh d) = flag"
    unfolding t(2) by (simp_all add: updateUrlParams_def set_totals_def set_year_def new_page_def Let_def)
  ultimately show ?thesis using assms by (simp add: view_consistent_def page_shows_def)
qed

text \<open>
  C21: in every state that a page reaches, by opening and by clicks on its buttons, its columns and its
  features, what is shown is consistent: the pressed button, the totals and the address are those
  of the view, and a view of mobile scores is never one of stable releases.
\<close>
theorem session_consistent:
  assumes "session midnight fetch flag pathname year d"
  shows "view_consistent pathname (fresh d)"
  by (rule shows_consistent [OF session_shows [OF assms]])

section \<open>The address opens the same view\<close>

definition plain_feature :: "string \<Rightarrow> bool" where
  "plain_feature f \<longleftrightarrow> f \<noteq> [] \<and> (\<forall>c \<in> set f. form_keep c)"

definition address_params :: "string \<Rightarrow> dashboard \<Rightarrow> search_params" where
  "address_params pathname d = form_parse (drop (length pathname) (db_address d))"

lemma unpair_feature: "plain_feature f \<Longrightarrow> form_unpair (''feature='' @ f) = (''feature'', f)"
proof -
  assume "plain_feature f"
  moreover have "form_decode ''feature'' = ''feature''" by code_simp
  ultimately show ?thesis by (simp add: form_unpair_def plain_feature_def form_decode_keep)
qed

lemma unpair_flags:
  "form_unpair ''stable'' = (''stable'', [])" "form_unpair ''embedded'' = (''embedded'', [])"
  "form_unpair ''mobile-view'' = (''mobile-view'', [])"
  by code_simp+

lemma view_params_read:
  assumes "plain_feature (db_feature d)"
  defines "ps \<equiv> form_parse (if view_params d = [] then [] else ''?'' @ join ''&'' (view_params d))"
  shows "(params_get ''stable'' ps \<noteq> None) = db_stable d" "(params_get ''embedded'' ps \<noteq> None) = db_embedded d"
    "(params_get ''mobile-view'' ps \<noteq> None) = db_mobile d"
    "params_get ''feature'' ps = (if db_feature d = summaryFeatureName (db_manager d) then None else Some (db_feature d))"
proof -
  have amp: "CHR ''&'' \<notin> set (db_feature d)" using assms(1) form_keep_facts by (auto simp: plain_feature_def)
  have "ps = map form_unpair (view_params d)"
  proof (cases "view_params d = []")
    case True
    then show ?thesis by (simp add: ps_def form_parse_def)
  next
    case False
    have "\<forall>w \<in> set (view_params d). w \<noteq> [] \<and> CHR ''&'' \<notin> set w"
      using amp by (auto simp: view_params_def)
    with False show ?thesis by (simp add: ps_def form_parse_join del: append.simps)
  qed
  then have "ps = (if db_feature d = summaryFeatureName (db_manager d) then [] else [(''feature'', db_feature d)]) @
      (if db_stable d then [(''stable'', [])] else []) @ (if db_embedded d then [(''embedded'', [])] else []) @
      (if db_mobile d then [(''mobile-view'', [])] else [])"
    using unpair_feature [OF assms(1)] assms(1) by (simp add: view_params_def unpair_flags plain_feature_def)
  then show "(params_get ''stable'' ps \<noteq> None) = db_stable d" "(params_get ''embedded'' ps \<noteq> None) = db_embedded d"
    "(params_get ''mobile-view'' ps \<noteq> None) = db_mobile d"
    "params_get ''feature'' ps = (if db_feature d = summaryFeatureName (db_manager d) then None else Some (db_feature d))"
    by (auto simp: params_get_def)
qed

lemma reload:
  assumes shown: "page_shows midnight fetch flag pathname year d" and plain: "plain_feature (db_feature d)"
  shows "ready midnight fetch flag pathname year (address_params pathname d) = Some (fresh d)"
proof -
  obtain l ex st where l: "load_year midnight fetch year (db_mobile d) = Some l" "recent_scores False l = Some ex"
    "recent_scores True l = Some st"
    "show_page flag pathname year l ex st (db_stable d) (db_mobile d) (db_embedded d) (db_feature d) = Some (fresh d)"
    and mobile: "db_mobile d \<longrightarrow> flag \<and> \<not> db_stable d"
    using shown by (auto simp: page_shows_def)
  have "updateUrlParams pathname (fresh d) = fresh d" using shows_consistent [OF shown] by (simp add: view_consistent_def)
  then have "db_address (fresh d) = pathname @ (if view_params (fresh d) = [] then [] else ''?'' @ join ''&'' (view_params (fresh d)))"
    by (metis (no_types, lifting) dashboard.select_convs(20) dashboard.surjective dashboard.update_convs(20) updateUrlParams_def)
  then have params: "address_params pathname d = form_parse (if view_params d = [] then [] else ''?'' @ join ''&'' (view_params d))"
    by (simp add: address_params_def fresh_def view_params_def)
  have "ld_manager l = db_manager (fresh d)" using show_page_fields [OF l(4)] by simp
  then have manager: "ld_manager l = db_manager d" by (simp add: fresh_def)
  have feature: "(if truthy (params_get ''feature'' (address_params pathname d)) then the (params_get ''feature'' (address_params pathname d))
      else summaryFeatureName (ld_manager l)) = db_feature d"
    using view_params_read(4) [OF plain] plain unfolding params manager by (auto simp: truthy_def plain_feature_def)
  show ?thesis
    unfolding ready_def feature Let_def view_params_read(1-3) [OF plain, folded params]
    using l mobile feature by (auto simp: Let_def)
qed


section \<open>The page opens\<close>

text \<open>A file of scores as it is expected for the year.\<close>

definition desktop_file :: "manager \<Rightarrow> string \<Rightarrow> bool" where
  "desktop_file dm csvText \<longleftrightarrow>
     (\<exists>areas header ls. focusAreasList dm = Some areas \<and>
        csv_lines [] False csvText = header # map (\<lambda>l. csv_line (fst l) (snd l)) ls \<and>
        distinct (csv_headers (length areas) header) \<and> set (csv_headers (length areas) header) = set areas \<and>
        list_all (line_ok (length areas) (numBrowsers dm)) ls \<and> ls \<noteq> [])"

definition files_ok :: "(string \<Rightarrow> string option) \<Rightarrow> manager \<Rightarrow> bool" where
  "files_ok fetch dm \<longleftrightarrow>
     (\<forall>label \<in> {''stable'', ''experimental''}. \<exists>url csvText. csvURL dm = Some url \<and>
        fetch (replace_first ''{stable|experimental}'' label url) = Some csvText \<and> desktop_file dm csvText)"

lemma label_loaded:
  assumes y: "y \<in> set valid_years" and dm: "fetchYearData y False = Some dm" and files: "files_ok fetch dm"
    and label: "label \<in> {''stable'', ''experimental''}"
  shows "\<exists>tv scores. load_label midnight fetch dm label = Some (Some tv) \<and>
    getMostRecentScores dm isStable (fst tv) = Some scores \<and> length scores = numBrowsers dm + 1 \<and>
    list_all (list_all (\<lambda>kv. per_mille_number (snd kv))) scores"
proof -
  obtain url csvText where url: "csvURL dm = Some url" "fetch (replace_first ''{stable|experimental}'' label url) = Some csvText"
    "desktop_file dm csvText"
    using files label by (auto simp: files_ok_def)
  obtain areas header ls where csv: "focusAreasList dm = Some areas"
    "csv_lines [] False csvText = header # map (\<lambda>l. csv_line (fst l) (snd l)) ls"
    "distinct (csv_headers (length areas) header)" "set (csv_headers (length areas) header) = set areas"
    "list_all (line_ok (length areas) (numBrowsers dm)) ls" "ls \<noteq> []"
    using url(3) by (auto simp: desktop_file_def)
  have desktop: "\<not> isMobileScoresView dm" using dm by (auto simp: fetchYearData_def Let_def split: option.splits)
  have lines: "csv_lines u False csvText = header # map (\<lambda>l. csv_line (fst l) (snd l)) ls" for u
    using csv(2) by (simp add: csv_lines_def)
  from desktop_scores [OF y dm csv(1) refl csv(3-6), of midnight isStable] obtain tv scores where
    "loadCsv midnight dm (header # map (\<lambda>l. csv_line (fst l) (snd l)) ls) = Some tv"
    "getMostRecentScores dm isStable (fst tv) = Some scores" "length scores = numBrowsers dm + 1"
    "list_all (list_all (\<lambda>kv. per_mille_number (snd kv))) scores"
    by (auto simp: bind_eq_Some_conv)
  with url(1,2) desktop lines show ?thesis by (simp add: load_label_def Let_def)
qed

lemma totals_exist:
  assumes "3 \<le> length (scores_of (db_stable d) d)"
  shows "\<exists>t. totals_of d = Some t"
proof -
  let ?score = "\<lambda>i. getBrowserScoreForFeature i (summaryFeatureName (db_manager d)) (db_stable d) d"
  have some: "\<exists>s. ?score i = Some s" if "i < 3" for i
    using assms that by (simp add: getBrowserScoreForFeature_def score_in_def elem_at_def)
  obtain a b c where "?score 0 = Some a" "?score 1 = Some b" "?score 2 = Some c"
    using some [of 0] some [of 1] some [of 2] by auto
  then show ?thesis by (simp add: totals_of_def)
qed

lemma page_opened:
  assumes y: "y \<in> set valid_years" and dm: "fetchYearData y False = Some dm" and files: "files_ok fetch dm"
    and desktop: "params_get ''mobile-view'' params = None"
  shows "\<exists>d. ready midnight fetch flag pathname y params = Some d \<and>
    db_stable d = (params_get ''stable'' params \<noteq> None) \<and>
    list_all (list_all (\<lambda>kv. per_mille_number (snd kv))) (scores_of (db_stable d) d)"
proof -
  from label_loaded [OF y dm files, of "''stable''" midnight True] obtain st_tv st where
    st: "load_label midnight fetch dm ''stable'' = Some (Some st_tv)" "getMostRecentScores dm True (fst st_tv) = Some st"
    "length st = numBrowsers dm + 1" "list_all (list_all (\<lambda>kv. per_mille_number (snd kv))) st"
    by auto
  from label_loaded [OF y dm files, of "''experimental''" midnight False] obtain ex_tv ex where
    ex: "load_label midnight fetch dm ''experimental'' = Some (Some ex_tv)" "getMostRecentScores dm False (fst ex_tv) = Some ex"
    "length ex = numBrowsers dm + 1" "list_all (list_all (\<lambda>kv. per_mille_number (snd kv))) ex"
    by auto
  let ?l = "\<lparr>ld_manager = dm, ld_stable = Some st_tv, ld_experimental = Some ex_tv\<rparr>"
  have l: "load_year midnight fetch y False = Some ?l" "recent_scores False ?l = Some ex" "recent_scores True ?l = Some st"
    by (simp_all add: load_year_def dm st(1,2) ex(1,2) recent_scores_def)
  have "year_sound y False" using desktop_years y by (simp add: list_all_iff)
  then have "columns_ok (browserInfo dm)" using dm by (auto simp: year_sound_def split: option.splits)
  then have n: "2 \<le> numBrowsers dm" by (auto simp: columns_ok_def numBrowsers_def dest: those_Some split: option.splits)
  let ?s = "params_get ''stable'' params \<noteq> None"
  let ?base = "set_year (new_page flag y ?l ex st ?s False)"
  have scores: "db_stable ?base = ?s" "scores_of ?s ?base = (if ?s then st else ex)"
    by (auto simp: set_year_def new_page_def scores_of_def Let_def)
  have "3 \<le> length (scores_of (db_stable ?base) ?base)" using n st(3) ex(3) unfolding scores by simp
  then obtain t where "totals_of ?base = Some t" using totals_exist by blast
  then have page: "show_page flag pathname y ?l ex st ?s False e f =
      Some (updateUrlParams pathname ((set_totals t ?base)\<lparr>db_embedded := e, db_feature := f\<rparr>))" for e f
    by (simp add: show_page_def updateTotals_alt)
  have kept: "db_stable (updateUrlParams pathname ((set_totals t ?base)\<lparr>db_embedded := e, db_feature := f\<rparr>)) = ?s"
    "scores_of ?s (updateUrlParams pathname ((set_totals t ?base)\<lparr>db_embedded := e, db_feature := f\<rparr>)) = (if ?s then st else ex)" for e f
    by (auto simp: updateUrlParams_def set_totals_def set_year_def new_page_def scores_of_def Let_def)
  show ?thesis
    unfolding ready_def Let_def using l page kept st(4) ex(4) by (simp add: desktop)
qed


section \<open>The page of 2021\<close>

definition csv_2021 :: string where
  "csv_2021 = join [CHR 0x0A] [header_2021, csv_line (fst line_2021) (snd line_2021)]"

lemma files_2021: "files_ok (\<lambda>_. Some csv_2021) manager_2021"
proof -
  have "csv_lines [] False csv_2021 = header_2021 # map (\<lambda>l. csv_line (fst l) (snd l)) [line_2021]"
    by code_simp
  then have "desktop_file manager_2021 csv_2021"
    unfolding desktop_file_def using areas_list_2021 headers_2021 line_2021_ok
    by (intro exI [of _ areas_2021] exI [of _ header_2021] exI [of _ "[line_2021]"]) simp
  moreover have "\<exists>url. csvURL manager_2021 = Some url"
    by (simp add: manager_2021_def fetchYearData_def year_2021_def Let_def)
  ultimately show ?thesis by (auto simp: files_ok_def)
qed

definition page_2021 :: dashboard where
  "page_2021 = the (ready (\<lambda>d. d) (\<lambda>_. Some csv_2021) False ''/interop-2021'' ''2021'' [(''stable'', [])])"

lemma ready_2021: "ready (\<lambda>d. d) (\<lambda>_. Some csv_2021) False ''/interop-2021'' ''2021'' [(''stable'', [])] = Some page_2021"
proof -
  have "''2021'' \<in> set valid_years" by (simp add: valid_years_def)
  from page_opened [OF this fetched_2021 files_2021, of "[(''stable'', [])]" "\<lambda>d. d" False "''/interop-2021''"]
  show ?thesis by (auto simp: page_2021_def params_get_def)
qed

definition grid_2021 :: dashboard where
  "grid_2021 = select_feature ''/interop-2021'' ''interop-2021-grid'' (handleSortClick 2 page_2021)"

lemma session_2021: "session (\<lambda>d. d) (\<lambda>_. Some csv_2021) False ''/interop-2021'' ''2021'' grid_2021"
proof -
  have "session (\<lambda>d. d) (\<lambda>_. Some csv_2021) False ''/interop-2021'' ''2021'' (handleSortClick 2 page_2021)"
    by (rule session.event [OF session.opened [OF ready_2021], where e = "SortClick 2"]) simp
  then show ?thesis
    by (rule session.event [where e = "SelectFeature ''interop-2021-grid''"]) (simp add: grid_2021_def)
qed


lemma session_consistent_witness: "view_consistent ''/interop-2021'' (fresh grid_2021)"
  by (rule session_consistent [OF session_2021])


end
