(* ===== verification/InteropTable.thy ===== *)
theory InteropTable
  imports InteropPage JsHtml
begin

text \<open>
  The template of \<^verbatim>\<open>webapp/components/interop-dashboard.js\<close>, without its styles and its prose: the
  rendered page as a function of the state of the dashboard. \<open>None\<close>: a binding throws.
\<close>

section \<open>The parts of the page\<close>

text \<open>The elements of other components, with the properties that are bound.\<close>

datatype dash_comp = SummaryPart string bool bool | ChartPart string bool string

type_synonym dash_html = "(dash_comp, event) html"

definition hidden_attr :: "bool \<Rightarrow> (string \<times> string) list" where
  "hidden_attr b = flag_attr ''hidden'' b"

definition year_banner :: "dashboard \<Rightarrow> dash_html" where
  "year_banner d =
     Elem ''div'' ((''class'', ''previous-year-banner'') # hidden_attr (isCurrentYear d)) []
       [Elem ''a'' [(''href'', ''/interop-'' @ currentInteropYear d)] [] [Txt ''View the current Interop Dashboard'']]"

definition view_buttons :: "dashboard \<Rightarrow> dash_html" where
  "view_buttons d =
     Elem ''div'' [(''class'', ''channel-area'')] []
       [Elem ''paper-button'' [(''id'', ''toggleStable''), (''class'', stableButtonClass (db_stable d) (db_mobile d))]
          [(''click'', ClickStable)] [Txt ''Stable''],
        Elem ''paper-button'' [(''id'', ''toggleExperimental''), (''class'', experimentalButtonClass (db_stable d) (db_mobile d))]
          [(''click'', ClickExperimental)] [Txt ''Experimental''],
        Elem ''paper-button''
          ([(''id'', ''toggleMobile''), (''class'', mobileButtonClass (db_mobile d))] @ hidden_attr (\<not> shouldShowMobileScoresView d))
          [(''click'', ClickMobile)] [Txt ''Mobile'']]"

definition page_head :: "dashboard \<Rightarrow> dash_html" where
  "page_head d =
     Elem ''div'' [(''class'', ''grid-item grid-item-header'')] []
       [Elem ''h1'' [] [] [Txt (dashboardTitle d)], view_buttons d,
        Elem ''div'' ((''id'', ''mobileWarning'') # hidden_attr (\<not> db_mobile d)) [] []]"

section \<open>The heads of the tables\<close>

definition icon :: "string \<Rightarrow> string \<Rightarrow> dash_html" where
  "icon src nm = Elem ''img'' [(''src'', src), (''alt'', nm), (''title'', nm)] [] []"

definition sort_img :: "string \<Rightarrow> string \<Rightarrow> dash_html" where
  "sort_img cls src = Elem ''img'' [(''class'', cls), (''src'', src)] [] []"

definition chrome_edge_icons :: "bool \<Rightarrow> dash_html" where
  "chrome_edge_icons isStable =
     Elem ''div'' [(''class'', ''browser-icons'')] []
       (if isStable then [icon ''/static/chrome_64x64.png'' ''Chrome'', icon ''/static/edge_64x64.png'' ''Edge'']
        else [icon ''/static/chrome-dev_64x64.png'' ''Chrome Dev'', icon ''/static/edge-dev_64x64.png'' ''Edge Dev''])"

definition browser_icon :: "browser_info \<Rightarrow> bool \<Rightarrow> dash_html" where
  "browser_icon b isStable =
     Elem ''div'' [(''class'', ''browser-icons single-browser-icon'')] []
       [icon (getBrowserIcon b isStable) (getBrowserIconName b isStable)]"

definition browser_icons :: "browser_info \<Rightarrow> bool \<Rightarrow> dash_html" where
  "browser_icons b isStable = (if isChromeEdgeCombo b then chrome_edge_icons isStable else browser_icon b isStable)"

text \<open>The head of a column by which rows can be sorted, with its label.\<close>

definition sortable :: "string \<Rightarrow> dash_html list \<Rightarrow> dash_html" where
  "sortable label hs = Elem ''th'' [(''class'', ''sortable-header''), (''data-label'', label)] [] hs"

definition first_head :: "dashboard \<Rightarrow> table_section \<Rightarrow> dash_html option" where
  "first_head d sec =
     (let column = db_sortColumn d; asc = db_isSortedAsc d
      in elem ''tr'' [(''class'', ''section-header'')] []
        (parts
          [Some [sortable (ts_name sec)
             [Txt (ts_name sec), sort_img ''sort-icon-focus-areas'' (getFocusAreaSortIcon column asc)]],
           dom_repeat
             (\<lambda>i info. map_option
                (\<lambda>b. sortable (if isChromeEdgeCombo b then ''Chrome/Edge'' else tableName b)
                   [browser_icons b (db_stable d), sort_img ''sort-icon'' (getBrowserSortIcon i column asc)]) info)
             (browserInfo (db_manager d)),
           dom_if (db_mobile d)
             (Some [sortable ''Safari iOS''
                [Elem ''div'' [(''class'', ''browser-icons single-browser-icon'')] []
                   [icon ''/static/wktr_64x64.png'' ''Safari iOS''],
                 sort_img ''sort-icon'' (getBrowserSortIcon 2 column asc)]]),
           Some [sortable ''Interop''
             [Elem ''div'' [(''class'', ''interop-header'')] [] [Txt ''INTEROP''],
              sort_img ''sort-icon'' (getInteropSortIcon column asc d)]]]))"

definition other_head :: "dashboard \<Rightarrow> nat \<Rightarrow> table_section \<Rightarrow> dash_html option" where
  "other_head d k sec =
     elem ''tr'' [(''class'', ''section-header'')] []
       (parts
         [Some [Elem ''th'' [] [] [Txt (ts_name sec)]],
          dom_if (ts_score_as_group sec) (Some [Elem ''th'' [(''colspan'', ''4'')] [] [Txt ''Group Progress'']]),
          dom_if (showBrowserIcons k (ts_score_as_group sec))
            (parts
              [dom_repeat (\<lambda>i info. map_option (\<lambda>b. Elem ''th'' [] [] [browser_icons b (db_stable d)]) info)
                 (browserInfo (db_manager d)),
               Some [Elem ''th'' [] [] [Elem ''div'' [(''class'', ''interop-header'')] [] [Txt ''INTEROP'']]]]),
          dom_if (showNoOtherColumns (ts_score_as_group sec) k) (Some (replicate 4 (Elem ''th'' [] [] [])))])"

text \<open>Each head for sorting gets a listener, with its place among them in the page.\<close>

definition addSortEvents :: "dash_html \<Rightarrow> (dash_html \<times> event) list" where
  "addSortEvents head =
     (let hs = filter (\<lambda>h. html_attr ''class'' h = Some ''sortable-header'') (row_cells head)
      in zip hs (map SortClick [0..<length hs]))"

section \<open>The rows\<close>

definition labelled :: "string \<Rightarrow> string \<Rightarrow> dash_html" where
  "labelled label t = Elem ''td'' [(''data-label'', label)] [] [Txt t]"

text \<open>The cells of the browsers; a browser that is not known has no label.\<close>

definition browser_cells :: "dashboard \<Rightarrow> (nat \<Rightarrow> string option) \<Rightarrow> dash_html list option" where
  "browser_cells d score =
     dom_repeat
       (\<lambda>i info. map_option
          (\<lambda>t. case info of Some b \<Rightarrow> labelled (tableName b) t | None \<Rightarrow> Elem ''td'' [] [] [Txt t])
          (score i))
       (browserInfo (db_manager d))"

definition mobile_cell :: "dashboard \<Rightarrow> dash_html list option" where
  "mobile_cell d = dom_if (db_mobile d) (Some [labelled ''Safari iOS'' ''--%''])"

definition area_row :: "string \<Rightarrow> dashboard \<Rightarrow> string \<Rightarrow> dash_html option" where
  "area_row origin d rowName =
     (case (getTestsURL origin rowName (db_stable d) d, getRowInfo rowName d) of
        (Some url, Some area) \<Rightarrow>
          elem ''tr'' [(''data-feature'', rowName)] []
            (parts
              [Some [Elem ''td'' [] [] [Elem ''a'' [(''href'', url)] [] [Txt (fa_description area)]]],
               browser_cells d (\<lambda>i. getBrowserScoreForFeature i rowName (db_stable d) d),
               mobile_cell d,
               map_option (\<lambda>t. [labelled ''Interop'' t]) (getInteropScoreForFeature rowName (db_stable d) d)])
      | _ \<Rightarrow> None)"

definition subtotal_row :: "dashboard \<Rightarrow> table_section \<Rightarrow> dash_html option" where
  "subtotal_row d sec =
     elem ''tr'' [(''class'', ''subtotal-row'')] []
       (parts
         [Some [Elem ''td'' [] [] [Elem ''strong'' [] [] [Txt ''TOTAL'']]],
          browser_cells d (\<lambda>i. getSubtotalScore i sec (db_stable d) d),
          mobile_cell d,
          map_option (\<lambda>t. [labelled ''Interop'' t]) (getInteropSubtotalScore sec (db_stable d) d)])"

definition investigation_row :: "dashboard \<Rightarrow> table_section \<Rightarrow> string \<Rightarrow> dash_html option" where
  "investigation_row d sec rowName =
     (case (getInvestigationUrl rowName (ts_previous_investigation sec) d,
            getInvestigationScore rowName (ts_previous_investigation sec) d) of
        (Some url, Some score) \<Rightarrow> Some
          (Elem ''tr'' [] []
             [Elem ''td'' [(''colspan'', ''4'')] [] [Elem ''a'' [(''href'', url)] [] [Txt rowName]],
              labelled ''Progress'' score])
      | _ \<Rightarrow> None)"

definition investigation_total :: "dashboard \<Rightarrow> table_section \<Rightarrow> dash_html" where
  "investigation_total d sec =
     Elem ''tr'' [(''class'', ''subtotal-row'')] []
       [Elem ''td'' [(''colspan'', ''4''), (''class'', ''card-header-mobile'')] [] [Elem ''strong'' [] [] [Txt ''TOTAL'']],
        labelled ''Total Progress'' (getInvestigationScoreSubtotal (ts_previous_investigation sec) d)]"

section \<open>The tables\<close>

definition score_table ::
  "string \<Rightarrow> (string \<Rightarrow> string \<Rightarrow> rat) \<Rightarrow> dashboard \<Rightarrow> nat \<Rightarrow> table_section \<Rightarrow> dash_html option" where
  "score_table origin localeCompare d k sec =
     elem ''table'' [(''class'', ''score-table'')] []
       (parts
         [just (elem ''thead'' [] [] (just (if isFirstTable k then first_head d sec else other_head d k sec))),
          dom_if (\<not> ts_score_as_group sec)
            (parts
              [just (elem ''tbody'' [] []
                 (case sortRows localeCompare (ts_rows sec) k (db_sortColumn d) (db_isSortedAsc d) d of
                    None \<Rightarrow> None
                  | Some rows \<Rightarrow> dom_repeat (\<lambda>i rowName. area_row origin d rowName) rows)),
               just (elem ''tfoot'' [] [] (just (subtotal_row d sec)))]),
          dom_if (ts_score_as_group sec)
            (parts
              [just (elem ''tbody'' [] [] (dom_repeat (\<lambda>i rowName. investigation_row d sec rowName) (ts_rows sec))),
               Some [Elem ''tfoot'' [] [] [investigation_total d sec]]])])"

definition description_link :: "dashboard \<Rightarrow> nat \<Rightarrow> dash_html" where
  "description_link d k =
     Elem ''div'' ((''class'', ''focus-area-description-link'') # hidden_attr (\<not> shouldShowFocusAreasDescriptionLink k d)) []
       [Elem ''a'' (case focusAreasDescriptionLink (db_manager d) of None \<Rightarrow> [] | Some u \<Rightarrow> [(''href'', u)]) []
          [Txt ''Descriptions of all focus areas'']]"

definition dash_sections :: "dashboard \<Rightarrow> table_section list" where
  "dash_sections d = (case tableSections (db_manager d) of None \<Rightarrow> [] | Some secs \<Rightarrow> secs)"

definition score_tables :: "string \<Rightarrow> (string \<Rightarrow> string \<Rightarrow> rat) \<Rightarrow> dashboard \<Rightarrow> dash_html list option" where
  "score_tables origin localeCompare d = dom_repeat (\<lambda>k sec. score_table origin localeCompare d k sec) (dash_sections d)"

definition table_card :: "string \<Rightarrow> (string \<Rightarrow> string \<Rightarrow> rat) \<Rightarrow> dashboard \<Rightarrow> dash_html list option" where
  "table_card origin localeCompare d =
     map_option (\<lambda>ts. concat (map (\<lambda>(k, t). [t, description_link d k]) (zip [0..<length ts] ts)))
       (score_tables origin localeCompare d)"

section \<open>The graph\<close>

definition focus_option :: "dashboard \<Rightarrow> string \<Rightarrow> dash_html option" where
  "focus_option d focusArea =
     map_option
       (\<lambda>area. Elem ''option'' ((''value'', focusArea) # flag_attr ''selected'' (isSelected focusArea d)) []
          [Txt (fa_description area)])
       (getRowInfo focusArea d)"

definition feature_select :: "int \<Rightarrow> dashboard \<Rightarrow> dash_html option" where
  "feature_select thisYear d =
     elem ''select'' [(''id'', ''featureSelect'')] []
       (parts
         [Some [Elem ''option'' [(''value'', ''summary'')] [] [Txt (getSummaryOptionText thisYear d)]],
          dom_repeat
            (\<lambda>k sec. elem ''optgroup'' [(''label'', ts_name sec)] [] (dom_repeat (\<lambda>i f. focus_option d f) (ts_rows sec)))
            (filter filterGroupSections (dash_sections d))])"

definition reference_list :: "string \<Rightarrow> dashboard \<Rightarrow> dash_html" where
  "reference_list origin d =
     Elem ''div'' [(''id'', ''featureReferenceList'')] []
       (map (\<lambda>(t, href). if truthy href then Elem ''a'' [(''href'', the href)] [] [Txt t] else Elem ''span'' [] [] [Txt t])
          (featureLinks origin (db_feature d) (db_stable d) d))"

definition years_footer :: "dashboard \<Rightarrow> dash_html" where
  "years_footer d =
     Elem ''footer'' [(''class'', ''compat-footer'')] []
       (map (\<lambda>y. Elem ''div'' [(''class'', ''interop-year-text'')] [] [Elem ''a'' [(''href'', ''interop-'' @ y)] [] [Txt y]])
          (getAllYears d))"

definition render_dashboard ::
  "string \<Rightarrow> (string \<Rightarrow> string \<Rightarrow> rat) \<Rightarrow> int \<Rightarrow> dashboard \<Rightarrow> dash_html list option" where
  "render_dashboard origin localeCompare thisYear d =
     parts
       [Some [year_banner d, page_head d, Comp (SummaryPart (db_year d) (db_stable d) (db_mobile d))],
        table_card origin localeCompare d,
        just (feature_select thisYear d),
        Some [reference_list origin d, Comp (ChartPart (db_year d) (db_stable d) (db_feature d)), years_footer d]]"

section \<open>What a session shows\<close>

lemma shown_scores:
  assumes "show_page flag pathname year l ex st isStable mobile embedded feature = Some d"
  shows "scores_of b d = (if b then st else ex) \<and> db_year d = year"
proof -
  let ?d = "set_year (new_page flag year l ex st isStable mobile)"
  obtain d' where d': "updateTotals ?d = Some d'" "d = updateUrlParams pathname (d'\<lparr>db_embedded := embedded, db_feature := feature\<rparr>)"
    using assms by (auto simp: show_page_def)
  from updateTotals_fields [OF d'(1)] d'(2) show ?thesis
    by (auto simp: updateUrlParams_def set_year_def new_page_def scores_of_def Let_def)
qed

lemma session_scores:
  assumes y: "y \<in> set valid_years" and dm: "fetchYearData y False = Some dm" and files: "files_ok fetch dm"
    and sess: "session midnight fetch flag pathname y d" and desktop: "\<not> db_mobile d"
  shows "db_manager d = dm \<and> db_year d = y \<and> length (scores_of (db_stable d) d) = numBrowsers dm + 1 \<and>
    list_all (list_all (\<lambda>kv. per_mille_number (snd kv))) (scores_of (db_stable d) d) \<and>
    (\<exists>b t. getMostRecentScores dm b t = Some (scores_of (db_stable d) d))"
proof -
  from label_loaded [OF y dm files, of "''stable''" midnight True] obtain tv1 s1 where
    st: "load_label midnight fetch dm ''stable'' = Some (Some tv1)" "getMostRecentScores dm True (fst tv1) = Some s1"
    "length s1 = numBrowsers dm + 1" "list_all (list_all (\<lambda>kv. per_mille_number (snd kv))) s1" by auto
  from label_loaded [OF y dm files, of "''experimental''" midnight False] obtain tv2 s2 where
    ex: "load_label midnight fetch dm ''experimental'' = Some (Some tv2)" "getMostRecentScores dm False (fst tv2) = Some s2"
    "length s2 = numBrowsers dm + 1" "list_all (list_all (\<lambda>kv. per_mille_number (snd kv))) s2" by auto
  let ?l = "\<lparr>ld_manager = dm, ld_stable = Some tv1, ld_experimental = Some tv2\<rparr>"
  have l: "load_year midnight fetch y False = Some ?l" "recent_scores False ?l = Some s2" "recent_scores True ?l = Some s1"
    by (simp_all add: load_year_def dm st(1,2) ex(1,2) recent_scores_def)
  then have "show_page flag pathname y ?l s2 s1 (db_stable d) (db_mobile d) (db_embedded d) (db_feature d) = Some (fresh d)"
    using session_shows [OF sess] desktop by (auto simp: page_shows_def)
  with show_page_fields [OF this] shown_scores [OF this, of "db_stable d"]
  have d: "db_manager d = dm" "db_year d = y" "scores_of (db_stable d) d = (if db_stable d then s1 else s2)"
    by (auto simp: fresh_def scores_of_def)
  then show ?thesis using st(2-4) ex(2-4) by auto
qed

lemma first_sections:
  "list_all (\<lambda>y. case fetchYearData y False of None \<Rightarrow> False
     | Some dm \<Rightarrow> (case tableSections dm of Some (s # _) \<Rightarrow> \<not> ts_score_as_group s | _ \<Rightarrow> False)) valid_years"
  by (simp add: valid_years_def fetchYearData_def Let_def) (simp add: year_defs)

text \<open>What rendering needs: every section finds its areas, or its investigations.\<close>

definition sections_ready :: "dashboard \<Rightarrow> bool" where
  "sections_ready d \<longleftrightarrow>
     (\<forall>sec \<in> set (dash_sections d). \<forall>r \<in> set (ts_rows sec).
        if ts_score_as_group sec then investigations_of (ts_previous_investigation sec) d \<noteq> None else getRowInfo r d \<noteq> None)"

lemma names_of_some: "List.member (names_of is) r \<Longrightarrow> is \<noteq> None"
  by (auto simp: names_of_def)

lemma sound_sections:
  assumes "year_sound y False" and "fetchYearData y False = Some dm" and "db_manager d = dm"
  shows "sections_ready d"
proof -
  obtain areas where a: "focusAreasList dm = Some areas" "areas_ok dm areas"
    "list_all (section_ok areas (names_of (investigationScores dm)) (names_of (previousInvestigationScores dm))) (dash_sections d)"
    using assms by (auto simp: year_sound_def dash_sections_def split: option.splits)
  have "if ts_score_as_group sec then investigations_of (ts_previous_investigation sec) d \<noteq> None else getRowInfo r d \<noteq> None"
    if "sec \<in> set (dash_sections d)" "r \<in> set (ts_rows sec)" for sec r
  proof -
    have ok: "List.member (if \<not> ts_score_as_group sec then areas else if ts_previous_investigation sec
        then names_of (previousInvestigationScores dm) else names_of (investigationScores dm)) r"
      using a(3) that by (simp add: list_all_iff section_ok_def)
    show ?thesis
    proof (cases "ts_score_as_group sec")
      case True
      then show ?thesis using ok names_of_some assms(3) by (auto simp: investigations_of_def split: if_splits)
    next
      case False
      then have "has_key (focusAreas dm) r" using ok a(2) by (simp add: areas_ok_def list_all_iff)
      then show ?thesis using False assms(3) by (simp add: getRowInfo_def has_key_def)
    qed
  qed
  then show ?thesis by (simp add: sections_ready_def)
qed

section \<open>Rendering does not throw\<close>

lemma score_defined: "i < length (scores_of b d) \<Longrightarrow> getBrowserScoreForFeature i f b d \<noteq> None"
  by (simp add: getBrowserScoreForFeature_def score_in_def elem_at_def)

lemma subtotal_sum:
  assumes "i < length scores"
  shows "\<exists>t. foldl (\<lambda>acc r. case acc of None \<Rightarrow> None | Some s \<Rightarrow> map_option (add_num s) (score_in i r scores)) (Some a) rows =
    Some t"
  using assms by (induction rows arbitrary: a) (auto simp: score_in_def elem_at_def)

lemma subtotal_defined: "i < length (scores_of b d) \<Longrightarrow> getSubtotalScore i sec b d \<noteq> None"
  using subtotal_sum [of i "scores_of b d" "Num 0" "ts_rows sec"]
  by (auto simp: getSubtotalScore_def getNumericalSubtotalScore_def)

text \<open>The labels of the columns of scores, and a row of scores with these labels.\<close>

definition label_cells :: "browser_info list \<Rightarrow> (nat \<Rightarrow> string option) \<Rightarrow> dash_html list" where
  "label_cells infos score = map (\<lambda>i. labelled (table_names infos ! i) (the (score i))) [0..<length infos + 1]"

lemma browser_cells_labelled:
  assumes "browserInfo (db_manager d) = map Some infos" and "\<forall>i < length infos. score i \<noteq> None"
  shows "browser_cells d score = Some (map (\<lambda>i. labelled (tableName (infos ! i)) (the (score i))) [0..<length infos])"
  unfolding browser_cells_def dom_repeat_def those_Some_iff assms(1)
  by (rule nth_equalityI) (use assms(2) in auto)

lemma label_cells_labelled:
  assumes "browserInfo (db_manager d) = map Some infos" and "\<forall>i < length infos + 1. score i \<noteq> None" and "\<not> db_mobile d"
  shows "parts [Some [td], browser_cells d score, mobile_cell d, map_option (\<lambda>t. [labelled ''Interop'' t]) (score (length infos))] =
    Some (td # label_cells infos score)"
proof -
  have "score (length infos) \<noteq> None" using assms(2) by simp
  then obtain t where t: "score (length infos) = Some t" by blast
  show ?thesis
    using browser_cells_labelled [OF assms(1), of score] assms(2,3) t
    by (simp add: mobile_cell_def label_cells_def table_names_def nth_append)
qed

lemma sortRows_total:
  assumes "\<forall>r \<in> set rows. getRowInfo r d \<noteq> None" and "c - 1 < length (scores_of (db_stable d) d)" and "\<not> db_mobile d"
  shows "\<exists>names. sortRows localeCompare rows k c asc d = Some names \<and> mset names = mset rows"
proof -
  have alpha: "\<exists>names. alphabeticalSort localeCompare rows d = Some names \<and> mset names = mset rows"
  proof -
    let ?g = "\<lambda>f. map_option (\<lambda>area. plain_name (fa_description area)) (getRowInfo f d)"
    have "those (map (\<lambda>f. map_option (Pair f) (?g f)) rows) \<noteq> None"
      by (rule those_defined) (use assms(1) in auto)
    then obtain ys where ys: "those (map (\<lambda>f. map_option (Pair f) (?g f)) rows) = Some ys" by blast
    then show ?thesis using those_map_keys [OF ys]
      by (simp add: alphabeticalSort_def option.map_comp comp_def) (metis mset_map)
  qed
  have num: "\<exists>names. numericalSort rows c d = Some names \<and> mset names = mset rows"
  proof -
    let ?g = "\<lambda>f. getNumericalBrowserScoreByFeature (c - 1) f (db_stable d) d"
    have "those (map (\<lambda>f. map_option (Pair f) (?g f)) rows) \<noteq> None"
      by (rule those_defined) (use assms(2) in \<open>auto simp: getNumericalBrowserScoreByFeature_def score_in_def elem_at_def\<close>)
    then obtain ys where ys: "those (map (\<lambda>f. map_option (Pair f) (?g f)) rows) = Some ys" by blast
    then show ?thesis using those_map_keys [OF ys] assms(3)
      by (simp add: numericalSort_def Let_def) (metis mset_map)
  qed
  show ?thesis using alpha num assms(3) by (auto simp: sortRows_def)
qed

section \<open>The columns of the tables\<close>

definition cell_span :: "dash_html \<Rightarrow> nat" where
  "cell_span h = (case html_attr ''colspan'' h of None \<Rightarrow> 1 | Some t \<Rightarrow> digits_value t)"

definition row_span :: "dash_html \<Rightarrow> nat" where
  "row_span r = sum_list (map cell_span (row_cells r))"

lemma four_columns [simp]: "digits_value ''4'' = 4"
  by code_simp

lemma plain_span:
  assumes "\<forall>h \<in> set (row_cells r). html_attr ''colspan'' h = None"
  shows "row_span r = length (row_cells r)"
proof -
  have "map cell_span (row_cells r) = map (\<lambda>h. 1) (row_cells r)" by (rule map_cong) (use assms in \<open>simp_all add: cell_span_def\<close>)
  then show ?thesis by (simp add: row_span_def map_replicate_const sum_list_replicate)
qed

lemma first_head_cells:
  assumes "browserInfo (db_manager d) = map Some infos" and "\<not> db_mobile d"
  shows "\<exists>h. first_head d sec = Some h \<and> map (html_attr ''data-label'') (row_cells h) = map Some (ts_name sec # table_names infos) \<and>
    row_span h = length infos + 2 \<and> addSortEvents h = zip (row_cells h) (map SortClick [0..<length infos + 2])"
proof -
  let ?f = "\<lambda>i b. sortable (if isChromeEdgeCombo b then ''Chrome/Edge'' else tableName b)
      [browser_icons b (db_stable d), sort_img ''sort-icon'' (getBrowserSortIcon i (db_sortColumn d) (db_isSortedAsc d))]"
  let ?bs = "map (\<lambda>i. ?f i (infos ! i)) [0..<length infos]"
  have "dom_repeat (\<lambda>i info. map_option (?f i) info) (map Some infos) = Some ?bs"
    unfolding dom_repeat_def those_Some_iff by (rule nth_equalityI) simp_all
  then obtain a b where h: "first_head d sec =
      Some (Elem ''tr'' [(''class'', ''section-header'')] [] (sortable (ts_name sec) a # ?bs @ [sortable ''Interop'' b]))"
    using assms by (simp add: first_head_def elem_def Let_def)
  let ?hs = "sortable (ts_name sec) a # ?bs @ [sortable ''Interop'' b]"
  let ?r = "Elem ''tr'' [(''class'', ''section-header'')] [] ?hs :: dash_html"
  have cells: "row_cells ?r = ?hs" by (rule cells_all) (auto simp: list_all_iff sortable_def)
  have "map (html_attr ''data-label'') ?bs = map (\<lambda>b. Some (tableName b)) infos"
    by (rule nth_equalityI) (simp_all add: sortable_def isChromeEdgeCombo_def)
  then have labels: "map (html_attr ''data-label'') (row_cells ?r) = map Some (ts_name sec # table_names infos)"
    unfolding cells by (simp add: sortable_def table_names_def comp_def)
  have span: "row_span ?r = length infos + 2"
    using plain_span [of ?r] unfolding cells by (auto simp: sortable_def)
  have "filter (\<lambda>h. html_attr ''class'' h = Some ''sortable-header'') ?hs = ?hs"
    by (auto simp: filter_id_conv sortable_def)
  then have "addSortEvents ?r = zip (row_cells ?r) (map SortClick [0..<length infos + 2])"
    unfolding addSortEvents_def Let_def cells by (simp del: upt_Suc)
  with h labels span show ?thesis by blast
qed

lemma other_head_span:
  assumes "browserInfo (db_manager d) = map Some infos" and "0 < k"
  shows "\<exists>h. other_head d k sec = Some h \<and> row_span h = (if ts_score_as_group sec then 5 else length infos + 2)"
proof (cases "ts_score_as_group sec")
  case True
  then show ?thesis
    using assms(2) by (simp add: other_head_def showBrowserIcons_def showNoOtherColumns_def elem_def row_span_def row_cells_def cell_span_def)
next
  case False
  let ?hs = "Elem ''th'' [] [] [Txt (ts_name sec)] # map (\<lambda>b. Elem ''th'' [] [] [browser_icons b (db_stable d)]) infos @
      [Elem ''th'' [] [] [Elem ''div'' [(''class'', ''interop-header'')] [] [Txt ''INTEROP'']]]"
  let ?r = "Elem ''tr'' [(''class'', ''section-header'')] [] ?hs :: dash_html"
  have "dom_repeat (\<lambda>i info. map_option (\<lambda>b. Elem ''th'' [] [] [browser_icons b (db_stable d)]) info) (map Some infos) =
      Some (map (\<lambda>b. Elem ''th'' [] [] [browser_icons b (db_stable d)]) infos)"
    unfolding dom_repeat_def those_Some_iff by (rule nth_equalityI) simp_all
  then have h: "other_head d k sec = Some ?r"
    using False assms(1) by (simp add: other_head_def showBrowserIcons_def showNoOtherColumns_def elem_def)
  have cells: "row_cells ?r = ?hs" by (rule cells_all) (auto simp: list_all_iff)
  have "row_span ?r = length infos + 2" using plain_span [of ?r] unfolding cells by auto
  with h False show ?thesis by auto
qed

section \<open>The tables are rendered\<close>

text \<open>What the lemmas below assume of the page.\<close>

definition table_page :: "browser_info list \<Rightarrow> dashboard \<Rightarrow> bool" where
  "table_page infos d \<longleftrightarrow>
     browserInfo (db_manager d) = map Some infos \<and> \<not> db_mobile d \<and> sections_ready d \<and>
     length (scores_of (db_stable d) d) = length infos + 1 \<and> db_sortColumn d \<le> length infos + 1"

lemma label_cells_tags: "list_all (\<lambda>h. html_tag h \<in> {''td'', ''th''}) (label_cells infos score)"
  by (auto simp: label_cells_def labelled_def list_all_iff simp del: upt_Suc)

lemma score_row:
  assumes "list_all (\<lambda>h. html_tag h \<in> {''td'', ''th''}) [td]" and "html_attr ''colspan'' td = None"
  shows "row_cells (Elem ''tr'' as [] (td # label_cells infos score)) = td # label_cells infos score"
    and "row_span (Elem ''tr'' as [] (td # label_cells infos score)) = length infos + 2"
proof -
  let ?h = "Elem ''tr'' as [] (td # label_cells infos score)"
  show cells: "row_cells ?h = td # label_cells infos score"
    by (rule cells_all) (use assms(1) label_cells_tags in simp)
  have "\<forall>x \<in> set (label_cells infos score). html_attr ''colspan'' x = None"
    by (auto simp: label_cells_def labelled_def simp del: upt_Suc)
  then show "row_span ?h = length infos + 2"
    using plain_span [of ?h] assms(2) unfolding cells by (simp add: label_cells_def del: upt_Suc)
qed

lemma area_row_cells:
  assumes page: "table_page infos d" and area: "getRowInfo rowName d = Some area"
  shows "\<exists>h td. area_row origin d rowName = Some h \<and> html_text td = fa_description area \<and> row_span h = length infos + 2 \<and>
    row_cells h = td # label_cells infos (\<lambda>i. getBrowserScoreForFeature i rowName (db_stable d) d)"
proof -
  let ?score = "\<lambda>i. getBrowserScoreForFeature i rowName (db_stable d) d"
  have n: "numBrowsers (db_manager d) = length infos" using page by (simp add: table_page_def numBrowsers_def)
  obtain url where url: "getTestsURL origin rowName (db_stable d) d = Some url" using area by (simp add: getTestsURL_def)
  let ?td = "Elem ''td'' [] [] [Elem ''a'' [(''href'', url)] [] [Txt (fa_description area)]]"
  let ?h = "Elem ''tr'' [(''data-feature'', rowName)] [] (?td # label_cells infos ?score)"
  have h: "area_row origin d rowName = Some ?h"
    using label_cells_labelled [of d infos ?score ?td] page score_defined area url
    by (simp add: area_row_def getInteropScoreForFeature_def n elem_def table_page_def)
  show ?thesis
    using h score_row [of ?td "[(''data-feature'', rowName)]" infos ?score] by (intro exI [of _ ?h] exI [of _ ?td]) simp
qed

lemma subtotal_row_span:
  assumes page: "table_page infos d"
  shows "\<exists>h. subtotal_row d sec = Some h \<and> row_span h = length infos + 2"
proof -
  let ?score = "\<lambda>i. getSubtotalScore i sec (db_stable d) d"
  have n: "numBrowsers (db_manager d) = length infos" using page by (simp add: table_page_def numBrowsers_def)
  let ?td = "Elem ''td'' [] [] [Elem ''strong'' [] [] [Txt ''TOTAL'']] :: dash_html"
  have "subtotal_row d sec = Some (Elem ''tr'' [(''class'', ''subtotal-row'')] [] (?td # label_cells infos ?score))"
    using label_cells_labelled [of d infos ?score ?td] page subtotal_defined
    by (simp add: subtotal_row_def getInteropSubtotalScore_def n elem_def table_page_def)
  then show ?thesis
    using score_row [of ?td "[(''class'', ''subtotal-row'')]" infos ?score] by simp
qed

text \<open>A table of focus areas.\<close>

definition area_table :: "(string \<Rightarrow> string \<Rightarrow> rat) \<Rightarrow> browser_info list \<Rightarrow> dashboard \<Rightarrow> nat \<Rightarrow> table_section \<Rightarrow> dash_html \<Rightarrow> bool" where
  "area_table localeCompare infos d k sec t \<longleftrightarrow>
     (\<exists>names head body foot. table_rows t = head # body @ [foot] \<and>
        sortRows localeCompare (ts_rows sec) k (db_sortColumn d) (db_isSortedAsc d) d = Some names \<and>
        mset names = mset (ts_rows sec) \<and> length body = length names \<and>
        (\<forall>j < length names. Some (html_text (hd (row_cells (body ! j)))) = map_option fa_description (getRowInfo (names ! j) d) \<and>
           tl (row_cells (body ! j)) = label_cells infos (\<lambda>i. getBrowserScoreForFeature i (names ! j) (db_stable d) d)) \<and>
        (k = 0 \<longrightarrow> map (html_attr ''data-label'') (row_cells head) = map Some (ts_name sec # table_names infos) \<and>
           addSortEvents head = zip (row_cells head) (map SortClick [0..<length infos + 2])))"

definition same_spans :: "dash_html \<Rightarrow> bool" where
  "same_spans t \<longleftrightarrow> (\<forall>r \<in> set (table_rows t). row_span r = row_span (hd (table_rows t)))"

lemma head_defined:
  assumes "table_page infos d"
  shows "\<exists>h. (if isFirstTable k then first_head d sec else other_head d k sec) = Some h \<and>
    row_span h = (if k \<noteq> 0 \<and> ts_score_as_group sec then 5 else length infos + 2) \<and>
    (k = 0 \<longrightarrow> map (html_attr ''data-label'') (row_cells h) = map Some (ts_name sec # table_names infos) \<and>
       addSortEvents h = zip (row_cells h) (map SortClick [0..<length infos + 2]))"
  using first_head_cells [of d infos sec] other_head_span [of d infos k sec] assms
  by (cases "k = 0") (auto simp: isFirstTable_def table_page_def simp del: upt_Suc)

lemma areas_rendered:
  assumes page: "table_page infos d" and sec: "sec \<in> set (dash_sections d)" "\<not> ts_score_as_group sec"
  shows "\<exists>t. score_table origin localeCompare d k sec = Some t \<and> same_spans t \<and> area_table localeCompare infos d k sec t"
proof -
  have known: "\<forall>r \<in> set (ts_rows sec). getRowInfo r d \<noteq> None"
    using page sec by (auto simp: table_page_def sections_ready_def)
  have column: "db_sortColumn d - 1 < length (scores_of (db_stable d) d)" and desktop: "\<not> db_mobile d"
    using page by (auto simp: table_page_def)
  obtain names where names: "sortRows localeCompare (ts_rows sec) k (db_sortColumn d) (db_isSortedAsc d) d = Some names"
    "mset names = mset (ts_rows sec)"
    using sortRows_total [OF known column desktop] by blast
  have row: "\<exists>h td. area_row origin d (names ! j) = Some h \<and>
      Some (html_text td) = map_option fa_description (getRowInfo (names ! j) d) \<and> row_span h = length infos + 2 \<and>
      row_cells h = td # label_cells infos (\<lambda>i. getBrowserScoreForFeature i (names ! j) (db_stable d) d)"
    if "j < length names" for j
  proof -
    have "names ! j \<in> set (ts_rows sec)" using names(2) that by (metis nth_mem set_mset_mset)
    then obtain area where "getRowInfo (names ! j) d = Some area" using known by blast
    with area_row_cells [OF page this, of origin] show ?thesis by auto
  qed
  have "dom_repeat (\<lambda>i rowName. area_row origin d rowName) names \<noteq> None" by (rule dom_repeat_defined) (use row in blast)
  then obtain body where body: "dom_repeat (\<lambda>i rowName. area_row origin d rowName) names = Some body" by blast
  note nth = dom_repeat_nth [OF body] and len = dom_repeat_length [OF body]
  obtain foot where foot: "subtotal_row d sec = Some foot" "row_span foot = length infos + 2"
    using subtotal_row_span [OF page] by blast
  obtain head where head: "(if isFirstTable k then first_head d sec else other_head d k sec) = Some head"
    "row_span head = length infos + 2"
    "k = 0 \<longrightarrow> map (html_attr ''data-label'') (row_cells head) = map Some (ts_name sec # table_names infos) \<and>
       addSortEvents head = zip (row_cells head) (map SortClick [0..<length infos + 2])"
    using head_defined [OF page, of k sec] sec(2) by auto
  let ?t = "Elem ''table'' [(''class'', ''score-table'')] []
      [Elem ''thead'' [] [] [head], Elem ''tbody'' [] [] body, Elem ''tfoot'' [] [] [foot]] :: dash_html"
  have t: "score_table origin localeCompare d k sec = Some ?t"
    using sec(2) by (simp add: score_table_def head(1) names(1) body foot(1) elem_def)
  have rows: "table_rows ?t = head # body @ [foot]" by (simp add: table_rows_def)
  have cells: "Some (html_text (hd (row_cells (body ! j)))) = map_option fa_description (getRowInfo (names ! j) d) \<and>
      tl (row_cells (body ! j)) = label_cells infos (\<lambda>i. getBrowserScoreForFeature i (names ! j) (db_stable d) d) \<and>
      row_span (body ! j) = length infos + 2" if "j < length names" for j
    using row [OF that] nth [OF that] by auto
  then have "row_span r = length infos + 2" if "r \<in> set body" for r using that len by (auto simp: in_set_conv_nth)
  then have "same_spans ?t" using head(2) foot(2) by (auto simp: same_spans_def rows)
  moreover have "area_table localeCompare infos d k sec ?t"
    unfolding area_table_def rows using names len cells head(3) by blast
  ultimately show ?thesis using t by blast
qed

lemma group_rendered:
  assumes page: "table_page infos d" and sec: "sec \<in> set (dash_sections d)" "ts_score_as_group sec" and k: "k \<noteq> 0"
  shows "\<exists>t. score_table origin localeCompare d k sec = Some t \<and> same_spans t"
proof -
  let ?f = "\<lambda>i rowName. investigation_row d sec rowName"
  have row: "\<exists>h. investigation_row d sec r = Some h \<and> row_span h = 5" if "r \<in> set (ts_rows sec)" for r
  proof -
    have "if ts_score_as_group sec then investigations_of (ts_previous_investigation sec) d \<noteq> None else getRowInfo r d \<noteq> None"
      using page sec(1) that unfolding table_page_def sections_ready_def by blast
    then obtain scores where "investigations_of (ts_previous_investigation sec) d = Some scores" using sec(2) by auto
    then show ?thesis
      by (simp add: investigation_row_def getInvestigationUrl_def getInvestigationScore_def row_span_def row_cells_def
        cell_span_def labelled_def)
  qed
  have "dom_repeat ?f (ts_rows sec) \<noteq> None" by (rule dom_repeat_defined) (use row nth_mem in fastforce)
  then obtain body where body: "dom_repeat ?f (ts_rows sec) = Some body" by blast
  have spans: "row_span h = 5" if "h \<in> set body" for h
    using dom_repeat_in [OF body that] row nth_mem by force
  obtain head where head: "(if isFirstTable k then first_head d sec else other_head d k sec) = Some head" "row_span head = 5"
    using head_defined [OF page, of k sec] sec(2) k by auto
  have foot: "row_span (investigation_total d sec) = 5"
    by (simp add: investigation_total_def row_span_def row_cells_def cell_span_def labelled_def)
  let ?t = "Elem ''table'' [(''class'', ''score-table'')] []
      [Elem ''thead'' [] [] [head], Elem ''tbody'' [] [] body, Elem ''tfoot'' [] [] [investigation_total d sec]] :: dash_html"
  have "score_table origin localeCompare d k sec = Some ?t"
    using sec(2) by (simp add: score_table_def head(1) body elem_def)
  moreover have "same_spans ?t" using spans head(2) foot by (auto simp: same_spans_def table_rows_def)
  ultimately show ?thesis by blast
qed

lemma session_table_page:
  assumes y: "y \<in> set valid_years" and dm: "fetchYearData y False = Some dm" and files: "files_ok fetch dm"
    and sess: "session midnight fetch flag pathname y d" and desktop: "\<not> db_mobile d"
    and col: "db_sortColumn d \<le> numBrowsers dm + 1"
  shows "\<exists>infos. browserInfo dm = map Some infos \<and> table_page infos d"
proof -
  have sound: "year_sound y False" using desktop_years y by (simp add: list_all_iff)
  then obtain infos where infos: "browserInfo dm = map Some infos"
    using dm by (auto simp: year_sound_def columns_ok_def dest: those_Some split: option.splits)
  then have "numBrowsers dm = length infos" by (simp add: numBrowsers_def)
  with session_scores [OF y dm files sess desktop] sound_sections [OF sound dm] infos desktop col
  show ?thesis by (intro exI [of _ infos]) (simp add: table_page_def)
qed

lemma first_not_group:
  assumes "y \<in> set valid_years" and "fetchYearData y False = Some dm" and "db_manager d = dm"
    and "k < length (dash_sections d)" and "ts_score_as_group (dash_sections d ! k)"
  shows "k \<noteq> 0"
proof -
  have "case tableSections dm of Some (s # _) \<Rightarrow> \<not> ts_score_as_group s | _ \<Rightarrow> False"
    using first_sections assms(1,2) unfolding list_all_iff by fastforce
  then show ?thesis using assms(3-5) by (cases k) (auto simp: dash_sections_def split: option.splits list.splits)
qed

section \<open>Properties\<close>

text \<open>
  C35: The tables of scores on the screen. In every session of the desktop view of a year, with the rows sorted by
  any of the columns, the tables can be rendered and the rows of each span the same columns; in a table of focus
  areas there is a row for each of them, with the label and score of each browser in its cell; and the heads
  of the first table have the labels of these cells, and a click on a head sorts by its own column.
\<close>

theorem score_tables_rendered:
  assumes "y \<in> set valid_years" and "fetchYearData y False = Some dm" and "files_ok fetch dm"
    and "session midnight fetch flag pathname y d" and "\<not> db_mobile d" and "db_sortColumn d \<le> numBrowsers dm + 1"
  shows "\<exists>ts infos. score_tables origin localeCompare d = Some ts \<and> browserInfo dm = map Some infos \<and>
    length ts = length (dash_sections d) \<and>
    (\<forall>k < length ts. same_spans (ts ! k) \<and>
       (ts_score_as_group (dash_sections d ! k) \<or> area_table localeCompare infos d k (dash_sections d ! k) (ts ! k)))"
proof -
  obtain infos where infos: "browserInfo dm = map Some infos" and page: "table_page infos d"
    using session_table_page [OF assms] by blast
  have dm: "db_manager d = dm" using session_scores [OF assms(1-5)] by simp
  let ?secs = "dash_sections d" and ?f = "\<lambda>k sec. score_table origin localeCompare d k sec"
  have t: "\<exists>t. ?f k (?secs ! k) = Some t \<and> same_spans t \<and>
      (ts_score_as_group (?secs ! k) \<or> area_table localeCompare infos d k (?secs ! k) t)" if "k < length ?secs" for k
    using areas_rendered [OF page nth_mem [OF that]] group_rendered [OF page nth_mem [OF that]]
      first_not_group [OF assms(1,2) dm that] by blast
  have "dom_repeat ?f ?secs \<noteq> None" by (rule dom_repeat_defined) (use t in blast)
  then obtain ts where ts: "dom_repeat ?f ?secs = Some ts" by blast
  have "same_spans (ts ! k) \<and> (ts_score_as_group (?secs ! k) \<or> area_table localeCompare infos d k (?secs ! k) (ts ! k))"
    if "k < length ts" for k
    using t [of k] dom_repeat_nth [OF ts, of k] dom_repeat_length [OF ts] that by auto
  with ts infos dom_repeat_length [OF ts] show ?thesis by (auto simp: score_tables_def)
qed

theorem score_tables_rendered_witness:
  "\<exists>ts. score_tables ''https://wpt.fyi'' (\<lambda>a b. 0) grid_2021 = Some ts \<and> length ts = length (dash_sections grid_2021)"
proof -
  have "\<not> db_mobile grid_2021" using session_shows [OF session_2021] by (simp add: page_shows_def)
  moreover have "db_sortColumn grid_2021 = 2"
    by (simp add: grid_2021_def select_feature_def updateUrlParams_def handleSortClick_def)
  moreover have "2 \<le> numBrowsers manager_2021 + 1"
    by (simp add: numBrowsers_def manager_2021_def fetchYearData_def year_2021_def Let_def)
  moreover have "''2021'' \<in> set valid_years" by (simp add: valid_years_def)
  ultimately show ?thesis
    using score_tables_rendered [OF _ fetched_2021 files_2021 session_2021, of "''https://wpt.fyi''" "\<lambda>a b. 0"] by auto
qed

end
