(* ===== verification/JsParse.thy ===== *)
theory JsParse
  imports JsNumber
begin

text \<open>
  Reading and printing of decimal numbers, and the values that option objects are made of. An infinite
  number is not represented: \<^verbatim>\<open>parseFloat\<close> of \<^verbatim>\<open>Infinity\<close> is read as \<open>NaN\<close>.
\<close>

section \<open>Reading\<close>

text \<open>The sign of a text and what follows it.\<close>

definition take_sign :: "string \<Rightarrow> bool \<times> string" where
  "take_sign s =
     (let neg = starts_with s ''-'' in (neg, if neg \<or> starts_with s ''+'' then drop 1 s else s))"

text \<open>The exponent of a decimal, zero when there is none.\<close>

definition exponent :: "string \<Rightarrow> int" where
  "exponent s =
     (if starts_with s ''e'' \<or> starts_with s ''E'' then
        (case take_sign (drop 1 s) of
           (neg, t) \<Rightarrow> (let e = int (digits_value (takeWhile is_digit t)) in if neg then - e else e))
      else 0)"

definition scale10 :: "int \<Rightarrow> rat \<Rightarrow> rat" where
  "scale10 e q = (if 0 \<le> e then q * 10 ^ nat e else q / 10 ^ nat (- e))"

text \<open>\<^verbatim>\<open>parseFloat\<close>: white space, a sign, digits with a point, an exponent; the rest is ignored.\<close>

definition parseFloat :: "string \<Rightarrow> jsnum" where
  "parseFloat s0 =
     (case take_sign (dropWhile is_space s0) of
        (neg, s) \<Rightarrow>
          (let whole = takeWhile is_digit s;
               r = dropWhile is_digit s;
               frac = (if starts_with r ''.'' then takeWhile is_digit (drop 1 r) else []);
               r = (if starts_with r ''.'' then dropWhile is_digit (drop 1 r) else r);
               v = scale10 (exponent r) (of_nat (digits_value (whole @ frac)) / 10 ^ length frac)
           in if whole = [] \<and> frac = [] then NaN else Num (if neg then - v else v)))"

section \<open>Printing\<close>

text \<open>\<^verbatim>\<open>toFixed\<close>: as many decimals as asked for, halves away from zero.\<close>

definition pad_left :: "nat \<Rightarrow> string \<Rightarrow> string" where
  "pad_left n s = replicate (n - length s) (CHR ''0'') @ s"

definition show_fixed :: "nat \<Rightarrow> rat \<Rightarrow> string" where
  "show_fixed d q =
     (let n = nat (math_round (\<bar>q\<bar> * 10 ^ d))
      in (if q < 0 then ''-'' else []) @ show_nat (n div 10 ^ d) @
         (if d = 0 then [] else CHR ''.'' # pad_left d (show_nat (n mod 10 ^ d))))"

definition show_fixed_num :: "nat \<Rightarrow> jsnum \<Rightarrow> string" where
  "show_fixed_num d x = (case x of Num q \<Rightarrow> show_fixed d q | _ \<Rightarrow> ''NaN'')"

section \<open>Option objects\<close>

text \<open>A date is the number of its day.\<close>

datatype jsvalue =
    VStr string
  | VNum rat
  | VBool bool
  | VDate int
  | VNull
  | VArr "jsvalue list"
  | VObj "(string \<times> jsvalue) list"

section \<open>Lemmas\<close>

lemma dropWhile_digits [simp]: "dropWhile is_digit (show_nat n) = []" "takeWhile is_digit (show_nat n) = show_nat n"
  using show_nat_digits [of _ n] by (auto simp: takeWhile_eq_all_conv)

lemma show_nat_start: "c \<in> {CHR ''-'', CHR ''+'', CHR '' '', CHR ''.''} \<Longrightarrow> \<not> starts_with (show_nat n) [c]"
  using show_nat_digits [of "hd (show_nat n)" n] show_nat_not_Nil [of n]
  by (cases "show_nat n") (auto simp: is_digit_def)

text \<open>An integer in decimal notation is read as itself.\<close>

lemma parseFloat_show_nat [simp]: "parseFloat (show_nat n) = Num (of_nat n)"
proof -
  obtain c cs where s: "show_nat n = c # cs" using show_nat_not_Nil [of n] by (cases "show_nat n") auto
  then have "is_digit c" using show_nat_digits [of c n] by simp
  then have "\<not> is_space c" by (auto simp: is_digit_def is_space_def Let_def)
  then have space: "dropWhile is_space (show_nat n) = show_nat n" by (simp add: s)
  have "take_sign (show_nat n) = (False, show_nat n)"
    using show_nat_start [of "CHR ''-''" n] show_nat_start [of "CHR ''+''" n] by (simp add: take_sign_def)
  then show ?thesis
    unfolding parseFloat_def space using digits_value_show_nat [of n] show_nat_not_Nil [of n]
    by (simp add: exponent_def scale10_def)
qed

end
