(* ===== verification/Compat2021.thy ===== *)
theory Compat2021
  imports InteropManager JsParse JsSearchParams
begin

text \<open>
  \<^verbatim>\<open>webapp/components/compat-2021.js\<close>: the dashboard of Compat 2021, with its data manager, its summary and
  its chart. The tables are those of \<open>InteropManager\<close>; the server is a parameter, and \<open>None\<close> is an
  exception. Assigning a property runs its observers.
\<close>

section \<open>Constants\<close>

definition GITHUB_URL_PREFIX :: string where
  "GITHUB_URL_PREFIX = ''https://raw.githubusercontent.com/web-platform-tests/results-analysis''"

definition DATA_BRANCH :: string where "DATA_BRANCH = ''gh-pages''"

definition DATA_FILES_PATH :: "search_params \<Rightarrow> string" where
  "DATA_FILES_PATH params =
     (if params_has ''use_webkitgtk'' params then ''data/compat2021/webkitgtk'' else ''data/compat2021'')"

definition SUMMARY_FEATURE_NAME :: string where "SUMMARY_FEATURE_NAME = ''summary''"

definition FEATURES :: "string list" where
  "FEATURES = [''aspect-ratio'', ''css-flexbox'', ''css-grid'', ''css-transforms'', ''position-sticky'']"

definition data_url :: "search_params \<Rightarrow> string \<Rightarrow> string \<Rightarrow> string" where
  "data_url params start label =
     GITHUB_URL_PREFIX @ ''/'' @ DATA_BRANCH @ ''/'' @ DATA_FILES_PATH params @ ''/'' @ start @ label @ ''.csv''"

text \<open>The lines of a file without the header; no file is an exception.\<close>

definition compat_csv :: "(string \<Rightarrow> string option) \<Rightarrow> string \<Rightarrow> string list option" where
  "compat_csv fetch url =
     map_option (\<lambda>t. drop 1 (filter (\<lambda>l. l \<noteq> []) (split_on (CHR 0x0A) t))) (fetch url)"

section \<open>The data manager\<close>

definition compat_features :: "string list" where
  "compat_features = SUMMARY_FEATURE_NAME # FEATURES"

definition compat_table :: datatable where
  "compat_table =
     \<lparr>dt_columns = [''Date'', ''Chrome/Edge'', [], ''Firefox'', [], ''Safari'', []], dt_rows = []\<rparr>"

definition compat_browsers :: "string list" where
  "compat_browsers = [''Chrome'', ''Firefox'', ''Safari'']"

definition compat_tooltip :: "string \<Rightarrow> string \<Rightarrow> string \<Rightarrow> string" where
  "compat_tooltip browser version score = browser @ '' '' @ version @ '': '' @ score"

definition push_cells :: "string \<Rightarrow> chart_cell list \<Rightarrow> new_rows \<Rightarrow> new_rows option" where
  "push_cells f cells rows = map_option (\<lambda>r. obj_set f (r @ cells) rows) (obj_get rows f)"

text \<open>The points of a feature: at most 20, rounded down.\<close>

definition points :: "jsnum \<Rightarrow> jsnum" where
  "points x = (case x of Num q \<Rightarrow> Num (of_int \<lfloor>q * 20\<rfloor>) | _ \<Rightarrow> NaN)"

definition plus_num :: "jsnum \<Rightarrow> jsnum \<Rightarrow> jsnum" where
  "plus_num a b = (case b of Num q \<Rightarrow> js_add a q | _ \<Rightarrow> NaN)"

text \<open>The values that are read past the end of the line are \<open>undefined\<close>, which is not a number.\<close>

fun compat_scores ::
  "string \<Rightarrow> string \<Rightarrow> string list \<Rightarrow> string list \<Rightarrow> new_rows \<times> jsnum \<Rightarrow> (new_rows \<times> jsnum) option" where
  "compat_scores b version [] vals st = Some st"
| "compat_scores b version (f # fs) vals (rows, summaryScore) =
     (let score = (case vals of [] \<Rightarrow> NaN | x # _ \<Rightarrow> parseFloat x)
      in case push_cells f [NumCell score, TextCell (compat_tooltip b version (show_fixed_num 3 score))] rows of
           None \<Rightarrow> None
         | Some rows \<Rightarrow> compat_scores b version fs (drop 1 vals) (rows, plus_num summaryScore (points score)))"

definition compat_block :: "nat \<Rightarrow> string \<Rightarrow> string list \<Rightarrow> csv_state \<Rightarrow> csv_state option" where
  "compat_block browserIdx version vals st =
     (case push_at browserIdx version (snd st) of
        None \<Rightarrow> None
      | Some versions \<Rightarrow>
          (let b = compat_browsers ! browserIdx
           in case compat_scores b version FEATURES vals (fst st, Num 0) of
                None \<Rightarrow> None
              | Some (rows, summaryScore) \<Rightarrow>
                  map_option (\<lambda>rows. (rows, versions))
                    (push_cells SUMMARY_FEATURE_NAME
                       [NumCell summaryScore, TextCell (compat_tooltip b version (show_js summaryScore))] rows)))"

function compat_blocks :: "nat \<Rightarrow> string list \<Rightarrow> csv_state \<Rightarrow> csv_state option" where
  "compat_blocks i [] st = Some st"
| "compat_blocks i (v # vs) st =
     (case compat_block (i div 6) v vs st of
        None \<Rightarrow> None
      | Some st \<Rightarrow> compat_blocks (i + 6) (drop 5 vs) st)"
  by pat_completeness auto
termination
  by (relation "measure (\<lambda>(_, vs, _). length vs)") auto

definition compat_line ::
  "string \<Rightarrow> datatable obj \<times> string list list \<Rightarrow> (datatable obj \<times> string list list) option" where
  "compat_line line st =
     (case split_on (CHR '','') line of
        [] \<Rightarrow> None
      | d # vals \<Rightarrow>
          (case compat_blocks 1 vals (obj_of_keys compat_features [DateCell (csv_date d)], snd st) of
             None \<Rightarrow> None
           | Some (rows, versions) \<Rightarrow> map_option (\<lambda>ts. (ts, versions)) (add_rows rows (fst st))))"

fun compat_lines ::
  "string list \<Rightarrow> datatable obj \<times> string list list \<Rightarrow> (datatable obj \<times> string list list) option" where
  "compat_lines [] st = Some st"
| "compat_lines (l # ls) st = Option.bind (compat_line l st) (compat_lines ls)"

definition compat_load ::
  "(string \<Rightarrow> string option) \<Rightarrow> search_params \<Rightarrow> string \<Rightarrow> (datatable obj \<times> string list list) option" where
  "compat_load fetch params label =
     Option.bind (compat_csv fetch (data_url params ''unified-scores-'' label))
       (\<lambda>ls. compat_lines ls (obj_of_keys compat_features compat_table, [[], [], []]))"

section \<open>The summary\<close>

record summary_score_parts =
  sc_total :: jsnum
  sc_breakdown :: "jsnum obj"

text \<open>One line: a feature and one score per browser.\<close>

definition add_line :: "string \<Rightarrow> string list \<Rightarrow> summary_score_parts list \<Rightarrow> summary_score_parts list" where
  "add_line feature vals scores =
     map (\<lambda>(v, s). let contribution = points (parseFloat v)
            in \<lparr>sc_total = plus_num (sc_total s) contribution, sc_breakdown = obj_set feature contribution (sc_breakdown s)\<rparr>)
       (zip vals scores)"

fun summary_lines :: "string list \<Rightarrow> summary_score_parts list \<Rightarrow> summary_score_parts list option" where
  "summary_lines [] scores = Some scores"
| "summary_lines (l # ls) scores =
     (case split_on (CHR '','') l of
        [f, a, b, c] \<Rightarrow> summary_lines ls (add_line f [a, b, c] scores)
      | _ \<Rightarrow> None)"

definition calculateSummaryScores ::
  "(string \<Rightarrow> string option) \<Rightarrow> search_params \<Rightarrow> bool \<Rightarrow> summary_score_parts list option" where
  "calculateSummaryScores fetch params isStable =
     Option.bind (compat_csv fetch (data_url params ''summary-'' (if isStable then ''stable'' else ''experimental'')))
       (\<lambda>ls. if length ls \<noteq> 5 then None
          else summary_lines ls (replicate 3 \<lparr>sc_total = Num 0, sc_breakdown = []\<rparr>))"

definition number_at_least :: "jsnum \<Rightarrow> rat \<Rightarrow> bool" where
  "number_at_least x b = (case x of Num q \<Rightarrow> b \<le> q | _ \<Rightarrow> False)"

definition compat_color :: "jsnum \<Rightarrow> string" where
  "compat_color score =
     (if number_at_least score 95 then ''#388E3C''
      else if number_at_least score 75 then ''#689F38''
      else if number_at_least score 50 then ''#FBC02D''
      else if number_at_least score 25 then ''#F57C00''
      else ''#D32F2F'')"

definition summary_titles :: "bool \<Rightarrow> string list" where
  "summary_titles isStable =
     (if isStable then [''Chrome/Edge Stable'', ''Firefox Stable'', ''Safari Stable'']
      else [''Chrome/Edge Dev'', ''Firefox Nightly'', ''Safari Preview''])"

text \<open>A number that is shown, with its colour, and the lines of its tooltip.\<close>

record shown_number =
  sn_text :: string
  sn_color :: string
  sn_tooltip :: "(string \<times> string \<times> string) list"

definition times5 :: "jsnum \<Rightarrow> jsnum" where
  "times5 x = (case x of Num q \<Rightarrow> Num (q * 5) | _ \<Rightarrow> NaN)"

definition updateSummaryTooltip :: "jsnum obj \<Rightarrow> (string \<times> string \<times> string) list" where
  "updateSummaryTooltip breakdown =
     map (\<lambda>(k, v). (k @ '': '', show_js v, compat_color (times5 v))) breakdown"

definition compat_updateSummaryScores ::
  "(string \<Rightarrow> string option) \<Rightarrow> search_params \<Rightarrow> bool \<Rightarrow> shown_number list option" where
  "compat_updateSummaryScores fetch params isStable =
     map_option
       (map (\<lambda>s. \<lparr>sn_text = show_js (sc_total s), sn_color = compat_color (sc_total s),
                  sn_tooltip = updateSummaryTooltip (sc_breakdown s)\<rparr>))
       (calculateSummaryScores fetch params isStable)"

section \<open>The page\<close>

text \<open>\<open>cp_feature\<close> is \<open>None\<close> until it is set; the address is what was pushed last.\<close>

record compat_page =
  cp_embedded :: bool
  cp_useWebKitGTK :: bool
  cp_stable :: bool
  cp_feature :: "string option"
  cp_address :: "string option"

definition compat_params :: "compat_page \<Rightarrow> string list" where
  "compat_params p =
     (if truthy (cp_feature p) then [''feature='' @ the (cp_feature p)] else []) @
     (if cp_stable p then [''stable''] else []) @
     (if cp_embedded p then [''embedded''] else []) @
     (if cp_useWebKitGTK p then [''use_webkitgtk''] else [])"

definition compat_updateUrlParams :: "string \<Rightarrow> compat_page \<Rightarrow> compat_page" where
  "compat_updateUrlParams pathname p =
     (if cp_feature p = None then p
      else p\<lparr>cp_address := Some (pathname @ (if compat_params p = [] then [] else ''?'' @ join ''&'' (compat_params p)))\<rparr>)"

definition set_embedded :: "string \<Rightarrow> bool \<Rightarrow> compat_page \<Rightarrow> compat_page" where
  "set_embedded pathname b p =
     (if cp_embedded p = b then p else compat_updateUrlParams pathname (p\<lparr>cp_embedded := b\<rparr>))"

definition set_useWebKitGTK :: "string \<Rightarrow> bool \<Rightarrow> compat_page \<Rightarrow> compat_page" where
  "set_useWebKitGTK pathname b p =
     (if cp_useWebKitGTK p = b then p else compat_updateUrlParams pathname (p\<lparr>cp_useWebKitGTK := b\<rparr>))"

definition set_compat_stable :: "string \<Rightarrow> bool \<Rightarrow> compat_page \<Rightarrow> compat_page" where
  "set_compat_stable pathname b p =
     (if cp_stable p = b then p else compat_updateUrlParams pathname (p\<lparr>cp_stable := b\<rparr>))"

definition set_feature :: "string \<Rightarrow> string \<Rightarrow> compat_page \<Rightarrow> compat_page" where
  "set_feature pathname f p =
     (if cp_feature p = Some f then p else compat_updateUrlParams pathname (p\<lparr>cp_feature := Some f\<rparr>))"

definition compat_ready :: "string \<Rightarrow> search_params \<Rightarrow> compat_page" where
  "compat_ready pathname params =
     (let p = \<lparr>cp_embedded = False, cp_useWebKitGTK = False, cp_stable = False, cp_feature = None, cp_address = None\<rparr>;
          p = set_embedded pathname (params_get ''embedded'' params \<noteq> None) p;
          p = set_useWebKitGTK pathname (params_get ''use_webkitgtk'' params \<noteq> None) p;
          p = set_compat_stable pathname (params_get ''stable'' params \<noteq> None) p
      in set_feature pathname
           (if truthy (params_get ''feature'' params) then the (params_get ''feature'' params) else SUMMARY_FEATURE_NAME) p)"

definition compat_clickExperimental :: "string \<Rightarrow> compat_page \<Rightarrow> compat_page" where
  "compat_clickExperimental pathname p = (if \<not> cp_stable p then p else set_compat_stable pathname False p)"

definition compat_clickStable :: "string \<Rightarrow> compat_page \<Rightarrow> compat_page" where
  "compat_clickStable pathname p = (if cp_stable p then p else set_compat_stable pathname True p)"

definition compat_experimentalButtonClass :: "bool \<Rightarrow> string" where
  "compat_experimentalButtonClass isStable = (if isStable then ''unselected'' else ''selected'')"

definition compat_stableButtonClass :: "bool \<Rightarrow> string" where
  "compat_stableButtonClass isStable = (if isStable then ''selected'' else ''unselected'')"

definition getTestListTextVisibility :: "string \<Rightarrow> string" where
  "getTestListTextVisibility feature = (if feature \<in> set FEATURES then ''visible'' else ''hidden'')"

definition getTestListHref :: "string \<Rightarrow> string" where
  "getTestListHref feature = GITHUB_URL_PREFIX @ ''/main/compat-2021/'' @ feature @ ''-tests.txt''"

section \<open>The chart\<close>

text \<open>The changelogs, which the Interop chart has too.\<close>

definition getChromeChangelogUrl :: "string \<Rightarrow> string \<Rightarrow> string" where
  "getChromeChangelogUrl fromVersion toVersion =
     ''https://chromium.googlesource.com/chromium/src/+log/'' @ hd (split_on (CHR '' '') fromVersion) @ ''..'' @
     hd (split_on (CHR '' '') toVersion) @ ''?pretty=fuller&n=10000''"

definition release_name :: "string \<Rightarrow> string" where
  "release_name version = ''FIREFOX_'' @ join ''_'' (split_on (CHR ''.'') version) @ ''_RELEASE''"

definition pushlog_url :: "string \<Rightarrow> string \<Rightarrow> string" where
  "pushlog_url a b = ''https://hg.mozilla.org/mozilla-unified/pushloghtml?fromchange='' @ a @ ''&tochange='' @ b"

definition getFirefoxStableChangelogUrl :: "string \<Rightarrow> string \<Rightarrow> string" where
  "getFirefoxStableChangelogUrl fromVersion toVersion = pushlog_url (release_name fromVersion) (release_name toVersion)"

definition clickFirefoxNightlyDialogGoButton :: "string \<Rightarrow> string \<Rightarrow> string" where
  "clickFirefoxNightlyDialogGoButton fromSha toSha = pushlog_url fromSha toSha"

text \<open>Back through the rows until the version differs, or to the first row.\<close>

fun back_to_change :: "string list \<Rightarrow> string \<Rightarrow> nat \<Rightarrow> string" where
  "back_to_change vs version 0 = vs ! 0"
| "back_to_change vs version (Suc row) =
     (if vs ! Suc row = version then back_to_change vs version row else vs ! Suc row)"

datatype changelog = OpenWindow string | NightlyDialog | SafariDialog

text \<open>A point of the chart that is selected; a row or a browser that is not there is an exception.\<close>

definition revisionChangelog :: "bool \<Rightarrow> string list list \<Rightarrow> nat \<Rightarrow> nat \<Rightarrow> changelog option" where
  "revisionChangelog isStable browserVersions row column =
     (let browserIdx = column div 2
      in case elem_at browserVersions browserIdx of
           None \<Rightarrow> None
         | Some vs \<Rightarrow>
             (case elem_at vs row of
                None \<Rightarrow> None
              | Some version \<Rightarrow>
                  (let lastVersion = back_to_change vs version row
                   in Some (if browserIdx = 0 then OpenWindow (getChromeChangelogUrl lastVersion version)
                            else if browserIdx = 1 then
                              if isStable then OpenWindow (getFirefoxStableChangelogUrl lastVersion version)
                              else NightlyDialog
                            else SafariDialog))))"

definition getChartOptions :: "int \<Rightarrow> string \<Rightarrow> (string \<times> jsvalue) list" where
  "getChartOptions clientWidth feature =
     [(''height'', VNum 350), (''fontSize'', VNum 14), (''tooltip'', VObj [(''trigger'', VStr ''both'')]),
      (''hAxis'', VObj [(''title'', VStr ''Date''), (''format'', VStr ''MMM-YYYY'')]),
      (''explorer'', VObj [(''actions'', VArr [VStr ''dragToZoom'', VStr ''rightClickToReset'']),
         (''axis'', VStr ''horizontal''), (''keepInBounds'', VBool True), (''maxZoomIn'', VNum 4)]),
      (''colors'', VArr [VStr ''#4285f4'', VStr ''#ea4335'', VStr ''#fbbc04'']),
      (''vAxis'',
        if feature = SUMMARY_FEATURE_NAME then
          VObj [(''title'', VStr ''Compat 2021 Score''), (''viewWindow'', VObj [(''min'', VNum 50), (''max'', VNum 100)])]
        else
          VObj [(''title'', VStr ''Percentage of tests passing''), (''format'', VStr ''percent''),
            (''viewWindow'', VObj [(''min'', VNum (2 / 10)), (''max'', VNum 1)])])] @
     (if 700 \<le> clientWidth then
        [(''width'', VNum 700), (''chartArea'', VObj [(''height'', VStr ''80%'')])]
      else
        [(''width'', VStr ''100%''), (''legend'', VObj [(''position'', VStr ''top''), (''alignment'', VStr ''center'')]),
         (''chartArea'', VObj [(''left'', VNum 75), (''width'', VStr ''80%'')])])"

text \<open>A chart: its table and its options; without a feature, nothing is drawn.\<close>

definition compat_chart ::
  "int \<Rightarrow> string \<Rightarrow> bool \<Rightarrow> datatable obj \<Rightarrow> datatable obj \<Rightarrow> (datatable option \<times> (string \<times> jsvalue) list) option" where
  "compat_chart clientWidth feature isStable st ex =
     (if feature = [] then None
      else Some (getDataTable feature isStable st ex, getChartOptions clientWidth feature))"

section \<open>The summary counts whole points\<close>

definition score_line_ok :: "string \<Rightarrow> bool" where
  "score_line_ok l \<longleftrightarrow>
     (case split_on (CHR '','') l of
        [f, a, b, c] \<Rightarrow>
          list_all (\<lambda>v. case parseFloat v of Num q \<Rightarrow> 0 \<le> q \<and> q \<le> 1 | _ \<Rightarrow> False) [a, b, c]
      | _ \<Rightarrow> False)"

definition line_value :: "nat \<Rightarrow> string \<Rightarrow> rat" where
  "line_value i l = amount (parseFloat (split_on (CHR '','') l ! (i + 1)))"

lemma points_bounds: "0 \<le> q \<Longrightarrow> q \<le> 1 \<Longrightarrow> 0 \<le> \<lfloor>q * 20\<rfloor> \<and> \<lfloor>q * 20\<rfloor> \<le> 20 \<and> (\<lfloor>q * 20\<rfloor> = 20 \<longleftrightarrow> q = (1 :: rat))"
  by (auto simp: floor_eq_iff le_floor_iff floor_le_iff)

lemma add_line_totals:
  assumes "score_line_ok l" and "length scores = 3" and "\<forall>i < 3. sc_total (scores ! i) = Num (t i)"
  shows "\<exists>f a b c. split_on (CHR '','') l = [f, a, b, c] \<and> length (add_line f [a, b, c] scores) = 3 \<and>
    (\<forall>i < 3. sc_total (add_line f [a, b, c] scores ! i) = Num (t i + of_int \<lfloor>line_value i l * 20\<rfloor>))"
proof -
  obtain f a b c where l: "split_on (CHR '','') l = [f, a, b, c]"
    and ok: "list_all (\<lambda>v. case parseFloat v of Num q \<Rightarrow> 0 \<le> q \<and> q \<le> 1 | _ \<Rightarrow> False) [a, b, c]"
    using assms(1) by (auto simp: score_line_ok_def split: list.splits)
  have num: "parseFloat ([a, b, c] ! i) = Num (line_value i l)" if "i < 3" for i
  proof -
    have "i = 0 \<or> i = 1 \<or> i = 2" using that by auto
    then show ?thesis using ok by (auto simp: line_value_def l split: jsnum.splits)
  qed
  have "sc_total (add_line f [a, b, c] scores ! i) = Num (t i + of_int \<lfloor>line_value i l * 20\<rfloor>)" if "i < 3" for i
    using that assms(2,3) num [OF that] by (simp add: add_line_def Let_def case_prod_unfold plus_num_def points_def)
  moreover have "length (add_line f [a, b, c] scores) = 3" using assms(2) by (simp add: add_line_def)
  ultimately show ?thesis using l by blast
qed

lemma summary_totals:
  assumes "list_all score_line_ok ls" and "length scores = 3" and "\<forall>i < 3. sc_total (scores ! i) = Num (t i)"
  shows "\<exists>scores'. summary_lines ls scores = Some scores' \<and> length scores' = 3 \<and>
    (\<forall>i < 3. sc_total (scores' ! i) = Num (t i + of_int (\<Sum>l \<leftarrow> ls. \<lfloor>line_value i l * 20\<rfloor>)))"
  using assms
proof (induction ls arbitrary: scores t)
  case (Cons l ls)
  then have "score_line_ok l" by simp
  from add_line_totals [OF this Cons.prems(2,3)] obtain f a b c where step: "split_on (CHR '','') l = [f, a, b, c]"
    "length (add_line f [a, b, c] scores) = 3"
    "\<forall>i < 3. sc_total (add_line f [a, b, c] scores ! i) = Num (t i + of_int \<lfloor>line_value i l * 20\<rfloor>)"
    by blast
  from Cons.IH [OF _ step(2,3)] Cons.prems(1) show ?case by (simp add: step(1) add.assoc)
qed simp

lemma points_sum:
  assumes "\<forall>l \<in> set ls. 0 \<le> v l \<and> v l \<le> (1 :: rat)"
  shows "0 \<le> (\<Sum>l \<leftarrow> ls. \<lfloor>v l * 20\<rfloor>) \<and> (\<Sum>l \<leftarrow> ls. \<lfloor>v l * 20\<rfloor>) \<le> 20 * int (length ls) \<and>
    ((\<Sum>l \<leftarrow> ls. \<lfloor>v l * 20\<rfloor>) = 20 * int (length ls) \<longleftrightarrow> (\<forall>l \<in> set ls. v l = 1))"
  using assms
proof (induction ls)
  case (Cons l ls)
  let ?a = "\<lfloor>v l * 20\<rfloor>" and ?s = "\<Sum>l \<leftarrow> ls. \<lfloor>v l * 20\<rfloor>"
  have a: "0 \<le> ?a" "?a \<le> 20" "?a = 20 \<longleftrightarrow> v l = 1" using points_bounds [of "v l"] Cons.prems by simp_all
  have s: "0 \<le> ?s" "?s \<le> 20 * int (length ls)" "?s = 20 * int (length ls) \<longleftrightarrow> (\<forall>l \<in> set ls. v l = 1)"
    using Cons by simp_all
  have "?a + ?s = 20 + 20 * int (length ls) \<longleftrightarrow> ?a = 20 \<and> ?s = 20 * int (length ls)" using a(2) s(2) by linarith
  then have "?a + ?s = 20 + 20 * int (length ls) \<longleftrightarrow> (\<forall>l \<in> set (l # ls). v l = 1)" using a(3) s(3) by simp
  moreover have "0 \<le> ?a + ?s" "?a + ?s \<le> 20 + 20 * int (length ls)" using a s by linarith+
  moreover have "20 * int (length (l # ls)) = 20 + 20 * int (length ls)" by simp
  ultimately show ?case by (simp only: list.map sum_list.Cons)
qed simp

lemma line_value_ok: "score_line_ok l \<Longrightarrow> i < 3 \<Longrightarrow> 0 \<le> line_value i l \<and> line_value i l \<le> 1"
proof -
  assume l: "score_line_ok l" and "i < 3"
  then have "i = 0 \<or> i = 1 \<or> i = 2" by auto
  with l show ?thesis by (auto simp: score_line_ok_def line_value_def split: list.splits jsnum.splits)
qed

text \<open>
  C23: with five lines of scores between 0 and 1, the summary has a total for each of the three browsers
  which is an integer between 0 and 100, and is 100 only if all five scores are perfect.
\<close>
theorem compat_full_marks:
  assumes "compat_csv fetch (data_url params ''summary-'' (if isStable then ''stable'' else ''experimental'')) = Some ls"
    and "length ls = 5" and "list_all score_line_ok ls"
  shows "\<exists>scores. calculateSummaryScores fetch params isStable = Some scores \<and> length scores = 3 \<and>
    (\<forall>i < 3. \<exists>n. sc_total (scores ! i) = Num (of_int n) \<and> 0 \<le> n \<and> n \<le> 100 \<and>
       (n = 100 \<longleftrightarrow> (\<forall>l \<in> set ls. line_value i l = 1)))"
proof -
  let ?zero = "replicate 3 \<lparr>sc_total = Num 0, sc_breakdown = []\<rparr>"
  from summary_totals [OF assms(3), of ?zero "\<lambda>_. 0"] obtain scores where
    scores: "summary_lines ls ?zero = Some scores" "length scores = 3"
      "\<forall>i < 3. sc_total (scores ! i) = Num (of_int (\<Sum>l \<leftarrow> ls. \<lfloor>line_value i l * 20\<rfloor>))"
    by auto
  have "calculateSummaryScores fetch params isStable = Some scores"
    using assms(1,2) scores(1) by (simp add: calculateSummaryScores_def)
  moreover have "\<forall>l \<in> set ls. 0 \<le> line_value i l \<and> line_value i l \<le> 1" if "i < 3" for i
    using that assms(3) line_value_ok by (simp add: list_all_iff)
  then have "0 \<le> (\<Sum>l \<leftarrow> ls. \<lfloor>line_value i l * 20\<rfloor>) \<and> (\<Sum>l \<leftarrow> ls. \<lfloor>line_value i l * 20\<rfloor>) \<le> 100 \<and>
      ((\<Sum>l \<leftarrow> ls. \<lfloor>line_value i l * 20\<rfloor>) = 100 \<longleftrightarrow> (\<forall>l \<in> set ls. line_value i l = 1))" if "i < 3" for i
    using points_sum [of ls "line_value i"] that assms(2) by simp
  ultimately show ?thesis using scores(2,3) by blast
qed

definition compat_summary_text :: string where
  "compat_summary_text =
     join [CHR 0x0A] [''feature,chrome,firefox,safari'', ''aspect-ratio,1,0.5,1'', ''css-flexbox,1,1,0.5'', ''css-grid,1,1,1'',
       ''css-transforms,1,0,1'', ''position-sticky,1,1,1'', []]"

lemma compat_full_marks_witness:
  "\<exists>scores. calculateSummaryScores (\<lambda>_. Some compat_summary_text) [] False = Some scores \<and> length scores = 3 \<and>
    (\<forall>i < 3. \<exists>n. sc_total (scores ! i) = Num (of_int n) \<and> 0 \<le> n \<and> n \<le> 100 \<and>
       (n = 100 \<longleftrightarrow> (\<forall>l \<in> set (drop 1 (filter (\<lambda>l. l \<noteq> []) (split_on (CHR 0x0A) compat_summary_text))).
          line_value i l = 1)))"
proof (rule compat_full_marks)
  show "compat_csv (\<lambda>_. Some compat_summary_text)
      (data_url [] ''summary-'' (if False then ''stable'' else ''experimental'')) =
    Some (drop 1 (filter (\<lambda>l. l \<noteq> []) (split_on (CHR 0x0A) compat_summary_text)))"
    by (simp add: compat_csv_def)
  show "length (drop 1 (filter (\<lambda>l. l \<noteq> []) (split_on (CHR 0x0A) compat_summary_text))) = 5" by code_simp
  show "list_all score_line_ok (drop 1 (filter (\<lambda>l. l \<noteq> []) (split_on (CHR 0x0A) compat_summary_text)))"
    by code_simp
qed

section \<open>The changelog of a point\<close>

lemma back_to_change:
  "(\<forall>k \<le> row. vs ! k = v) \<and> back_to_change vs v row = v \<or>
   (\<exists>k \<le> row. vs ! k \<noteq> v \<and> back_to_change vs v row = vs ! k \<and> (\<forall>j. k < j \<and> j \<le> row \<longrightarrow> vs ! j = v))"
proof (induction row)
  case (Suc row)
  show ?case
  proof (cases "vs ! Suc row = v")
    case True
    from Suc.IH show ?thesis
    proof
      assume "(\<forall>k \<le> row. vs ! k = v) \<and> back_to_change vs v row = v"
      with True show ?thesis by (auto simp: le_Suc_eq)
    next
      assume "\<exists>k \<le> row. vs ! k \<noteq> v \<and> back_to_change vs v row = vs ! k \<and> (\<forall>j. k < j \<and> j \<le> row \<longrightarrow> vs ! j = v)"
      then obtain k where "k \<le> row" "vs ! k \<noteq> v" "back_to_change vs v row = vs ! k" "\<forall>j. k < j \<and> j \<le> row \<longrightarrow> vs ! j = v"
        by blast
      with True have "k \<le> Suc row \<and> vs ! k \<noteq> v \<and> back_to_change vs v (Suc row) = vs ! k \<and>
          (\<forall>j. k < j \<and> j \<le> Suc row \<longrightarrow> vs ! j = v)" by (auto simp: le_Suc_eq)
      then show ?thesis by blast
    qed
  next
    case False
    then show ?thesis by (intro disjI2 exI [of _ "Suc row"]) auto
  qed
qed auto

section \<open>The address opens the page again\<close>

inductive compat_session :: "string \<Rightarrow> compat_page \<Rightarrow> bool" for pathname where
  opened: "compat_session pathname (compat_ready pathname params)"
| experimental: "compat_session pathname p \<Longrightarrow> compat_session pathname (compat_clickExperimental pathname p)"
| stable: "compat_session pathname p \<Longrightarrow> compat_session pathname (compat_clickStable pathname p)"
| feature: "compat_session pathname p \<Longrightarrow> compat_session pathname (set_feature pathname f p)"

definition compat_address :: "string \<Rightarrow> compat_page \<Rightarrow> string" where
  "compat_address pathname p = pathname @ (if compat_params p = [] then [] else ''?'' @ join ''&'' (compat_params p))"

lemmas compat_setters =
  set_embedded_def set_useWebKitGTK_def set_compat_stable_def set_feature_def compat_updateUrlParams_def

text \<open>Every setter leaves an address that is up to date, once there is a feature.\<close>

definition address_current :: "string \<Rightarrow> compat_page \<Rightarrow> bool" where
  "address_current pathname p \<longleftrightarrow> cp_feature p = None \<or> cp_address p = Some (compat_address pathname p)"

lemma address_current_update: "address_current pathname (compat_updateUrlParams pathname p)"
  by (simp add: address_current_def compat_updateUrlParams_def compat_address_def compat_params_def)

lemma address_current_setters:
  "address_current pathname p \<Longrightarrow> address_current pathname (set_embedded pathname b p)"
  "address_current pathname p \<Longrightarrow> address_current pathname (set_useWebKitGTK pathname b p)"
  "address_current pathname p \<Longrightarrow> address_current pathname (set_compat_stable pathname b p)"
  "address_current pathname p \<Longrightarrow> address_current pathname (set_feature pathname f p)"
  by (simp_all add: set_embedded_def set_useWebKitGTK_def set_compat_stable_def set_feature_def address_current_update)

lemma feature_update [simp]: "cp_feature (compat_updateUrlParams pathname p) = cp_feature p"
  by (simp add: compat_updateUrlParams_def)

lemma feature_setters [simp]:
  "cp_feature (set_compat_stable pathname b p) = cp_feature p" "cp_feature (set_feature pathname f p) = Some f"
  by (simp_all add: set_compat_stable_def set_feature_def)

lemma compat_session_address:
  assumes "compat_session pathname p"
  shows "cp_feature p \<noteq> None \<and> address_current pathname p"
  using assms
proof (induction rule: compat_session.induct)
  case (opened params)
  have "address_current pathname \<lparr>cp_embedded = False, cp_useWebKitGTK = False, cp_stable = False, cp_feature = None, cp_address = None\<rparr>"
    by (simp add: address_current_def)
  then show ?case by (simp add: compat_ready_def Let_def address_current_setters)
qed (auto simp: compat_clickExperimental_def compat_clickStable_def address_current_setters)

definition compat_parts :: "compat_page \<Rightarrow> (string \<times> string option) list" where
  "compat_parts p =
     (if truthy (cp_feature p) then [(''feature'', cp_feature p)] else []) @
     (if cp_stable p then [(''stable'', None)] else []) @
     (if cp_embedded p then [(''embedded'', None)] else []) @
     (if cp_useWebKitGTK p then [(''use_webkitgtk'', None)] else [])"

lemma compat_parts: "compat_params p = map query_part (compat_parts p)"
  by (auto simp: compat_params_def compat_parts_def query_part_def truthy_def split: option.splits)

definition compat_address_params :: "string \<Rightarrow> compat_page \<Rightarrow> search_params" where
  "compat_address_params pathname p = form_parse (drop (length pathname) (the (cp_address p)))"

text \<open>
  Whatever was clicked on the page of Compat 2021, its address opens the same page: the same feature,
  release, embedding and choice of WebKitGTK.
\<close>
lemma compat_address_roundtrip:
  assumes "compat_session pathname p" and "cp_feature p = Some f" and "f \<noteq> []" and "plain_text f"
  shows "compat_ready pathname (compat_address_params pathname p) = p"
proof -
  have address: "cp_address p = Some (compat_address pathname p)" 
    using compat_session_address [OF assms(1)] by (auto simp: address_current_def)
  have names: "plain_text ''feature''" "plain_text ''stable''" "plain_text ''embedded''" "plain_text ''use_webkitgtk''"
    by code_simp+
  have ok: "list_all part_ok (compat_parts p)"
    using assms(2,4) names by (auto simp: compat_parts_def part_ok_def)
  have "compat_address_params pathname p = map part_pair (compat_parts p)"
    using form_parse_parts [OF ok]
    by (cases "compat_parts p = []") (simp_all add: compat_address_params_def address compat_address_def compat_parts)
  then have params: "compat_address_params pathname p =
      (''feature'', f) # (if cp_stable p then [(''stable'', [])] else []) @
        (if cp_embedded p then [(''embedded'', [])] else []) @ (if cp_useWebKitGTK p then [(''use_webkitgtk'', [])] else [])"
    using assms(2,3) by (simp add: compat_parts_def part_pair_def truthy_def)
  have read: "params_get ''feature'' (compat_address_params pathname p) = Some f"
    "(params_get ''stable'' (compat_address_params pathname p) \<noteq> None) = cp_stable p"
    "(params_get ''embedded'' (compat_address_params pathname p) \<noteq> None) = cp_embedded p"
    "(params_get ''use_webkitgtk'' (compat_address_params pathname p) \<noteq> None) = cp_useWebKitGTK p"
    unfolding params by (auto simp: params_get_def)
  show ?thesis
    unfolding compat_ready_def read Let_def
    using assms(2,3) address by (cases p) (auto simp: compat_setters compat_address_def compat_params_def truthy_def)
qed

lemma compat_address_roundtrip_witness:
  "compat_ready ''/compat2021'' (compat_address_params ''/compat2021''
     (set_feature ''/compat2021'' ''css-grid'' (compat_clickStable ''/compat2021'' (compat_ready ''/compat2021'' [])))) =
   set_feature ''/compat2021'' ''css-grid'' (compat_clickStable ''/compat2021'' (compat_ready ''/compat2021'' []))"
proof (rule compat_address_roundtrip)
  show "compat_session ''/compat2021''
      (set_feature ''/compat2021'' ''css-grid'' (compat_clickStable ''/compat2021'' (compat_ready ''/compat2021'' [])))"
    by (intro compat_session.intros)
  show "cp_feature (set_feature ''/compat2021'' ''css-grid'' (compat_clickStable ''/compat2021'' (compat_ready ''/compat2021'' []))) =
      Some ''css-grid''"
    by (simp add: set_feature_def compat_updateUrlParams_def)
  show "plain_text ''css-grid''" by code_simp
qed simp

end
