(* ===== verification/InteropCharts.thy ===== *)
theory InteropCharts
  imports InteropDashboard InteropYears Compat2021
begin

text \<open>
  \<^verbatim>\<open>webapp/components/interop-summary.js\<close> and \<^verbatim>\<open>webapp/components/interop-feature-chart.js\<close>: the numbers
  above the dashboard of a year of Interop, and its chart. \<open>None\<close> is an exception.
\<close>

section \<open>The summary\<close>

text \<open>A number that is not one is not below 2024.\<close>

definition roundScore :: "string \<Rightarrow> jsnum \<Rightarrow> jsnum" where
  "roundScore year score =
     (case score of
        Num q \<Rightarrow>
          if (case parseInt year of Some y \<Rightarrow> y < 2024 | None \<Rightarrow> False) then Num (of_int \<lfloor>q / 10\<rfloor>)
          else (let roundedScore = math_round (q / 10)
                in if roundedScore = 100 \<and> q < 1000 then Num 99 else Num (of_int roundedScore))
      | _ \<Rightarrow> NaN)"

record number_shown =
  ns_value :: jsnum
  ns_color :: string
  ns_background :: string

text \<open>The number counts up to the rounded score.\<close>

definition updateSummaryScore :: "string \<Rightarrow> jsnum \<Rightarrow> number_shown option" where
  "updateSummaryScore year score0 =
     (case roundScore year score0 of
        Num q \<Rightarrow>
          map_option (\<lambda>(c, b). \<lparr>ns_value = Num q, ns_color = ''color-mix(in lch, '' @ c @ '' 70%, black)'', ns_background = b\<rparr>)
            (calculateColor q)
      | _ \<Rightarrow> None)"

definition shouldDisplayInvestigationNumber :: "manager \<Rightarrow> bool" where
  "shouldDisplayInvestigationNumber dm = (investigationScores dm \<noteq> None)"

definition hidden_numbers :: "string \<Rightarrow> manager \<Rightarrow> bool \<times> bool" where
  "hidden_numbers year dm = (\<not> shouldDisplayInvestigationNumber dm, year = ''2021'')"

text \<open>
  The numbers of the elements, in their order, and the number of the investigations; \<open>Some None\<close> when the
  elements are not there yet.
\<close>

definition updateSummaryScores ::
  "string \<Rightarrow> manager \<Rightarrow> bool \<Rightarrow> nat \<Rightarrow> jsnum obj list \<Rightarrow> (number_shown list \<times> number_shown option) option option" where
  "updateSummaryScores year dm mobile numElements scores =
     (if (\<not> mobile \<and> numElements \<noteq> length scores) \<or> (mobile \<and> numElements \<noteq> length scores + 1) then Some None
      else if scores = [] then None
      else
        (let shown = (\<lambda>s. updateSummaryScore year
                (case obj_get s (summaryFeatureName dm) of None \<Rightarrow> Undefined | Some x \<Rightarrow> x))
         in case those (map shown (last scores # butlast scores)) of
              None \<Rightarrow> None
            | Some ns \<Rightarrow>
                if shouldDisplayInvestigationNumber dm then
                  map_option (\<lambda>i. Some (ns, Some i))
                    (updateSummaryScore year (case investigationTotalScore dm of None \<Rightarrow> Undefined | Some x \<Rightarrow> x))
                else Some (Some (ns, None))))"

text \<open>The numbers are smaller unless there are fewer than four browsers.\<close>

definition setSummaryNumberSizes :: "manager \<Rightarrow> string list \<Rightarrow> string list" where
  "setSummaryNumberSizes dm classes =
     (if numBrowsers dm < 4 then filter (\<lambda>c. c \<noteq> ''smaller-summary-number'') classes else classes)"

text \<open>These three are the same as in the dashboard.\<close>

definition summary_isChromeEdgeCombo :: "browser_info \<Rightarrow> bool" where
  "summary_isChromeEdgeCombo b = (tableName b = ''Chrome/Edge'')"

definition summary_getBrowserIcon :: "browser_info \<Rightarrow> bool \<Rightarrow> string" where
  "summary_getBrowserIcon b isStable =
     ''/static/'' @ or_undefined (if isStable then stableIcon b else experimentalIcon b) @ ''_64x64.png''"

definition summary_getBrowserIconName :: "browser_info \<Rightarrow> bool \<Rightarrow> string" where
  "summary_getBrowserIconName b isStable =
     (if isStable then tableName b else tableName b @ '' '' @ or_undefined (experimentalName b))"

text \<open>A browser without experimental name is an exception.\<close>

definition getBrowserNameParts :: "browser_info \<Rightarrow> string list option" where
  "getBrowserNameParts b = map_option (\<lambda>n. tableName b # split_on (CHR '' '') n) (experimentalName b)"

section \<open>The chart\<close>

definition tick_days :: "int \<Rightarrow> int list" where
  "tick_days year = map (\<lambda>m. day_from_civil year (int m + 1) 15) [0..<12]"

definition interop_chart_options :: "manager \<Rightarrow> int \<Rightarrow> (string \<times> jsvalue) list option" where
  "interop_chart_options dm year =
     map_option
       (\<lambda>infos.
         [(''height'', VNum 350), (''width'', VStr ''100%''), (''fontSize'', VNum 14), (''lineWidth'', VNum 3),
          (''tooltip'', VObj [(''trigger'', VStr ''both'')]),
          (''hAxis'', VObj [(''format'', VStr ''MMM''),
             (''viewWindow'', VObj [(''max'', VDate (day_from_civil (year + 1) 1 1))]),
             (''ticks'', VArr (map VDate (tick_days year))), (''slantedText'', VBool True),
             (''slantedTextAngle'', VNum 90), (''showTextEvery'', VNum 1), (''gridlines'', VObj [(''count'', VNum 13)])]),
          (''vAxis'', VObj [(''format'', VStr ''percent''), (''viewWindow'', VObj [(''min'', VNum 0), (''max'', VNum 1)])]),
          (''explorer'', VObj [(''actions'', VArr [VStr ''dragToZoom'', VStr ''rightClickToReset'']),
             (''axis'', VStr ''horizontal''), (''keepInBounds'', VBool True), (''maxZoomIn'', VNum 4)]),
          (''legend'', VObj [(''position'', VStr ''none'')]),
          (''colors'', VArr (map (\<lambda>b. VStr (graphColor b)) infos @ [VStr ''#123301''])),
          (''chartArea'', VObj [(''top'', VNum 8), (''left'', VNum 60), (''width'', VStr ''100%''), (''height'', VStr ''80%'')])])
       (those (browserInfo dm))"

text \<open>The item of the legend that is selected, and the columns of the chart that are.\<close>

record chart_state =
  ch_selectedIndex :: "nat option"
  ch_selection :: "nat list"

text \<open>A new chart; without a feature there is none.\<close>

definition interop_updateChart :: "string \<Rightarrow> chart_state \<Rightarrow> chart_state" where
  "interop_updateChart feature c = (if feature = [] then c else \<lparr>ch_selectedIndex = None, ch_selection = []\<rparr>)"

text \<open>The index is \<open>None\<close> for the item of Interop.\<close>

definition onLegendItemClick :: "manager \<Rightarrow> nat option \<Rightarrow> chart_state \<Rightarrow> chart_state" where
  "onLegendItemClick dm item c =
     (let index = (case item of None \<Rightarrow> length (browserInfo dm) | Some i \<Rightarrow> i)
      in if ch_selectedIndex c = Some index then c\<lparr>ch_selectedIndex := None, ch_selection := []\<rparr>
         else c\<lparr>ch_selectedIndex := Some index, ch_selection := [(index + 1) * 2]\<rparr>)"

definition interop_ChromeChangelogUrl :: "string \<Rightarrow> string \<Rightarrow> string" where
  "interop_ChromeChangelogUrl fromVersion toVersion = getChromeChangelogUrl fromVersion toVersion"

definition interop_FirefoxStableChangelogUrl :: "string \<Rightarrow> string \<Rightarrow> string" where
  "interop_FirefoxStableChangelogUrl fromVersion toVersion = getFirefoxStableChangelogUrl fromVersion toVersion"

definition interop_NightlyDialogGo :: "string \<Rightarrow> string \<Rightarrow> string" where
  "interop_NightlyDialogGo fromSha toSha = clickFirefoxNightlyDialogGoButton fromSha toSha"

section \<open>The numbers that are shown\<close>

lemma round_score_range:
  assumes "per_mille_number x"
  shows "\<exists>n. roundScore year x = Num (of_int n) \<and> 0 \<le> n \<and> n \<le> 100 \<and> (n = 100 \<longleftrightarrow> x = Num 1000)"
proof -
  obtain k where x: "x = Num (of_int k)" "0 \<le> k" "k \<le> 1000"
    using assms by (auto simp: per_mille_number_def elim!: Ints_cases split: jsnum.splits)
  have fl: "\<lfloor>(of_int k :: rat) / 10\<rfloor> = k div 10" using floor_divide_of_int_eq [of k 10, where 'a = rat] by simp
  have rd: "0 \<le> math_round (of_int k / 10) \<and> math_round (of_int k / 10) \<le> 100"
    using x math_round_bounds [of 0 "of_int k / 10" 100] by simp
  have full: "math_round ((1000 :: rat) / 10) = 100" using math_round_of_int [of 100] by simp
  show ?thesis
  proof (cases "case parseInt year of Some y \<Rightarrow> y < 2024 | None \<Rightarrow> False")
    case True
    then show ?thesis using x by (intro exI [of _ "k div 10"]) (auto simp: roundScore_def fl)
  next
    case False
    show ?thesis
    proof (cases "k = 1000")
      case True
      then show ?thesis using False full by (auto simp: x(1) roundScore_def Let_def)
    next
      case k: False
      then have "k < 1000" using x by simp
      then show ?thesis
        using False rd by (cases "math_round (of_int k / 10) = 100") (auto simp: x(1) roundScore_def Let_def)
    qed
  qed
qed

lemma calculateColor_exists: "q \<le> 100 \<Longrightarrow> \<exists>c b. calculateColor q = Some (c, b)"
  by (simp add: calculateColor_def score_color_def gradient_def Let_def split: prod.splits)

lemma updateSummaryScore_shown:
  assumes "per_mille_number x"
  shows "\<exists>s. updateSummaryScore year x = Some s \<and> ns_value s = roundScore year x"
proof -
  from round_score_range [OF assms, of year] obtain n where n: "roundScore year x = Num (of_int n)" "n \<le> 100" by blast
  then obtain c b where "calculateColor (of_int n) = Some (c, b)" using calculateColor_exists [of "of_int n"] by auto
  then show ?thesis by (simp add: updateSummaryScore_def n(1))
qed

definition summary_of :: "manager \<Rightarrow> jsnum obj \<Rightarrow> jsnum" where
  "summary_of dm s = (case obj_get s (summaryFeatureName dm) of None \<Rightarrow> Undefined | Some x \<Rightarrow> x)"

lemma those_shown:
  "\<forall>s \<in> set ss. per_mille_number (summary_of dm s) \<Longrightarrow>
   \<exists>ns. those (map (\<lambda>s. updateSummaryScore year (summary_of dm s)) ss) = Some ns \<and>
     map ns_value ns = map (\<lambda>s. roundScore year (summary_of dm s)) ss"
proof (induction ss)
  case (Cons s ss)
  then obtain ns where "those (map (\<lambda>s. updateSummaryScore year (summary_of dm s)) ss) = Some ns"
    "map ns_value ns = map (\<lambda>s. roundScore year (summary_of dm s)) ss" by auto
  moreover from Cons.prems obtain x where "updateSummaryScore year (summary_of dm s) = Some x"
    "ns_value x = roundScore year (summary_of dm s)"
    using updateSummaryScore_shown by (metis list.set_intros(1))
  ultimately show ?case by auto
qed simp

text \<open>
  When the elements are there, the summary shows without an exception the score of Interop and then
  those of the browsers, as whole percentages: each is between 0 and 100, and is 100 only for a score
  that is complete.
\<close>
lemma summary_numbers:
  assumes "investigationScores dm = None" and "scores \<noteq> []"
    and "\<forall>s \<in> set scores. per_mille_number (summary_of dm s)"
  shows "\<exists>ns. updateSummaryScores year dm False (length scores) scores = Some (Some (ns, None)) \<and>
    list_all2 (\<lambda>s x. \<exists>n. ns_value x = Num (of_int n) \<and> 0 \<le> n \<and> n \<le> 100 \<and> (n = 100 \<longleftrightarrow> summary_of dm s = Num 1000))
      (last scores # butlast scores) ns"
proof -
  let ?ss = "last scores # butlast scores"
  have ok: "\<forall>s \<in> set ?ss. per_mille_number (summary_of dm s)"
    using assms(2,3) by (auto dest: in_set_butlastD)
  from those_shown [OF ok, of year] obtain ns where ns: "those (map (\<lambda>s. updateSummaryScore year (summary_of dm s)) ?ss) = Some ns"
    "map ns_value ns = map (\<lambda>s. roundScore year (summary_of dm s)) ?ss" by blast
  have "updateSummaryScores year dm False (length scores) scores = Some (Some (ns, None))"
    using assms(1,2) ns(1) unfolding updateSummaryScores_def summary_of_def [symmetric] Let_def
    by (simp add: shouldDisplayInvestigationNumber_def)
  moreover have "list_all2 (\<lambda>s x. \<exists>n. ns_value x = Num (of_int n) \<and> 0 \<le> n \<and> n \<le> 100 \<and> (n = 100 \<longleftrightarrow> summary_of dm s = Num 1000)) ?ss ns"
  proof (rule list_all2_all_nthI)
    show "length ?ss = length ns" using arg_cong [OF ns(2), of length] by simp
    fix i assume i: "i < length ?ss"
    then have "per_mille_number (summary_of dm (?ss ! i))" using ok nth_mem by blast
    moreover have "ns_value (ns ! i) = roundScore year (summary_of dm (?ss ! i))"
    proof -
      have len: "i < length ns" using arg_cong [OF ns(2), of length] i by simp
      have "map ns_value ns ! i = map (\<lambda>s. roundScore year (summary_of dm s)) ?ss ! i" by (simp only: ns(2))
      then show ?thesis unfolding nth_map [OF len] nth_map [OF i] .
    qed
    ultimately show "\<exists>n. ns_value (ns ! i) = Num (of_int n) \<and> 0 \<le> n \<and> n \<le> 100 \<and> (n = 100 \<longleftrightarrow> summary_of dm (?ss ! i) = Num 1000)"
      using round_score_range [of "summary_of dm (?ss ! i)" year] by simp
  qed
  ultimately show ?thesis by blast
qed

lemma summary_numbers_witness:
  "\<exists>ns. updateSummaryScores ''2024'' sample_manager False (length [[(''summary'', Num 999)], [(''summary'', Num 1000)]])
      [[(''summary'', Num 999)], [(''summary'', Num 1000)]] = Some (Some (ns, None)) \<and>
    list_all2 (\<lambda>s x. \<exists>n. ns_value x = Num (of_int n) \<and> 0 \<le> n \<and> n \<le> 100 \<and>
        (n = 100 \<longleftrightarrow> summary_of sample_manager s = Num 1000))
      (last [[(''summary'', Num 999)], [(''summary'', Num 1000)]] # butlast [[(''summary'', Num 999)], [(''summary'', Num 1000)]]) ns"
  by (rule summary_numbers) (simp_all add: sample_manager_def summary_of_def per_mille_number_def)

section \<open>The legend\<close>

definition selection_matches :: "chart_state \<Rightarrow> bool" where
  "selection_matches c \<longleftrightarrow>
     ch_selection c = (case ch_selectedIndex c of None \<Rightarrow> [] | Some i \<Rightarrow> [(i + 1) * 2])"

lemma selection_click: "selection_matches c \<Longrightarrow> selection_matches (onLegendItemClick dm item c)"
  by (simp add: selection_matches_def onLegendItemClick_def Let_def)

lemma selection_update: "selection_matches c \<Longrightarrow> selection_matches (interop_updateChart feature c)"
  by (simp add: selection_matches_def interop_updateChart_def)

text \<open>A second click on an item undoes the first, when nothing or the same item was selected.\<close>

lemma click_twice:
  "ch_selectedIndex c = None \<Longrightarrow> selection_matches c \<Longrightarrow> onLegendItemClick dm item (onLegendItemClick dm item c) = c"
  by (simp add: onLegendItemClick_def selection_matches_def Let_def)

end
