(* ===== verification/SummaryTable.thy ===== *)
theory SummaryTable
  imports InteropTable InteropCharts
begin

text \<open>
  The template of \<^verbatim>\<open>webapp/components/interop-summary.js\<close>: the numbers above the dashboard of Interop as they are
  rendered, with what \<open>updateSummaryScores\<close> has put into them. Counting up ends at the number; its
  animation is not modelled.
\<close>

section \<open>The template\<close>

type_synonym summary_html = "(string, string) html"

text \<open>A box with a number: two hyphens until it is set.\<close>

definition number_box :: "manager \<Rightarrow> (string \<times> string) list \<Rightarrow> string list \<Rightarrow> number_shown option \<Rightarrow> summary_html" where
  "number_box dm attrs classes shown =
     Elem ''div''
       (attrs @ [(''class'', join '' '' (setSummaryNumberSizes dm classes))] @
        (case shown of None \<Rightarrow> []
         | Some x \<Rightarrow> [(''style'', ''color: '' @ ns_color x @ ''; background-color: '' @ ns_background x)])) []
       [Txt (case shown of None \<Rightarrow> ''--'' | Some x \<Rightarrow> show_js (ns_value x))]"

definition figure :: "string \<Rightarrow> string \<Rightarrow> summary_html list \<Rightarrow> summary_html" where
  "figure src alt caption =
     Elem ''figure'' [] []
       [Elem ''img'' [(''src'', src), (''width'', ''36''), (''alt'', alt)] [] [], Elem ''figcaption'' [] [] caption]"

definition line_break :: summary_html where
  "line_break = Elem ''br'' [] [] []"

text \<open>The icons and names below the number of a browser.\<close>

definition browser_label :: "bool \<Rightarrow> browser_info \<Rightarrow> summary_html option" where
  "browser_label isStable b =
     elem ''div'' [(''class'', ''summary-browser-name'')] []
       (if summary_isChromeEdgeCombo b then
          Some
            (if isStable
             then [figure ''/static/chrome_64x64.png'' ''Chrome'' [Txt ''Chrome''],
                   figure ''/static/edge_64x64.png'' ''Edge'' [Txt ''Edge'']]
             else [figure ''/static/chrome-dev_64x64.png'' ''Chrome Dev'' [Txt ''Chrome'', line_break, Txt ''Dev''],
                   figure ''/static/edge-dev_64x64.png'' ''Edge Dev'' [Txt ''Edge'', line_break, Txt ''Dev'']])
        else
          just (map_option (figure (summary_getBrowserIcon b isStable) (summary_getBrowserIconName b isStable))
            (if isStable then Some [Txt (tableName b)]
             else map_option (\<lambda>ps. concat (map (\<lambda>p. [Txt p, line_break]) ps)) (getBrowserNameParts b))))"

definition browser_item :: "manager \<Rightarrow> bool \<Rightarrow> browser_info \<Rightarrow> number_shown option \<Rightarrow> summary_html option" where
  "browser_item dm isStable b shown =
     elem ''div'' [(''class'', ''summary-flex-item''), (''tabindex'', ''0'')] []
       (parts [Some [number_box dm [] [''summary-number'', ''score-number'', ''browser-score'', ''smaller-summary-number''] shown],
               just (browser_label isStable b)])"

text \<open>The number of Safari on iOS has no score of its own.\<close>

definition mobile_item :: "manager \<Rightarrow> bool \<Rightarrow> number_shown option \<Rightarrow> summary_html" where
  "mobile_item dm isStable shown =
     Elem ''div'' [(''class'', ''summary-flex-item''), (''tabindex'', ''0'')] []
       [number_box dm [] [''summary-number'', ''score-number'', ''browser-score'', ''smaller-summary-number''] shown,
        Elem ''div'' [(''class'', ''summary-browser-name'')] []
          [figure ''/static/wktr_64x64.png'' ''Safari iOS''
             (if isStable then [Txt ''Safari''] else [Txt ''Safari'', line_break, Txt ''iOS'', line_break])]]"

definition hidden_style :: "bool \<Rightarrow> (string \<times> string) list" where
  "hidden_style b = (if b then [(''style'', ''display: none'')] else [])"

text \<open>
  The numbers are those of the elements \<open>score-number\<close> in their order, and that of the investigations. A
  browser that is not known is an exception.
\<close>

definition number_at :: "number_shown list \<Rightarrow> nat \<Rightarrow> number_shown option" where
  "number_at ns i = (if i < length ns then Some (ns ! i) else None)"

definition totals_row_html :: "string \<Rightarrow> manager \<Rightarrow> number_shown list \<Rightarrow> number_shown option \<Rightarrow> summary_html" where
  "totals_row_html year dm ns investigated =
     Elem ''div'' [(''class'', ''summary-number-row''), (''id'', ''totalSummaryRow'')] []
       [Elem ''div''
          ([(''id'', ''interopSummary''), (''class'', ''summary-flex-item''), (''tabindex'', ''0''), (''data-year'', year)] @
           hidden_style (snd (hidden_numbers year dm))) []
          [number_box dm [] [''summary-number'', ''score-number'', ''smaller-summary-number''] (number_at ns 0),
           Elem ''h3'' [(''class'', ''summary-title'')] [] [Txt ''INTEROP'']],
        Elem ''div''
          ([(''id'', ''investigationSummary''), (''class'', ''summary-flex-item''), (''tabindex'', ''0'')] @
           hidden_style (fst (hidden_numbers year dm))) []
          [number_box dm [(''id'', ''investigationNumber'')] [''summary-number'', ''smaller-summary-number''] investigated,
           Elem ''h3'' [(''class'', ''summary-title'')] [] [Txt ''INVESTIGATIONS'']]]"

definition browsers_row_html :: "manager \<Rightarrow> bool \<Rightarrow> bool \<Rightarrow> number_shown list \<Rightarrow> summary_html option" where
  "browsers_row_html dm isStable mobile ns =
     elem ''div'' [(''class'', ''summary-number-row''), (''id'', ''browserSummaryRow'')] []
       (parts
          [dom_repeat (\<lambda>i info. Option.bind info (\<lambda>b. browser_item dm isStable b (number_at ns (i + 1)))) (browserInfo dm),
           dom_if mobile (Some [mobile_item dm isStable (number_at ns (numBrowsers dm + 1))])])"

definition render_summary ::
  "string \<Rightarrow> manager \<Rightarrow> bool \<Rightarrow> bool \<Rightarrow> number_shown list \<Rightarrow> number_shown option \<Rightarrow> summary_html option" where
  "render_summary year dm isStable mobile ns investigated =
     elem ''div'' [(''class'', ''summary-container''), (''data-year'', year)] []
       (parts [Some [totals_row_html year dm ns investigated], just (browsers_row_html dm isStable mobile ns)])"

text \<open>The elements that are looked up by the class \<open>score-number\<close>.\<close>

fun has_class :: "string \<Rightarrow> summary_html \<Rightarrow> bool" where
  "has_class c (Elem tag attrs hs kids) = (case map_of attrs ''class'' of None \<Rightarrow> False | Some v \<Rightarrow> c \<in> set (split_on (CHR '' '') v))"
| "has_class c _ = False"

fun by_class :: "string \<Rightarrow> summary_html \<Rightarrow> summary_html list" where
  "by_class c (Elem tag attrs hs kids) =
     (if has_class c (Elem tag attrs hs kids) then [Elem tag attrs hs kids] else []) @ concat (map (by_class c) kids)"
| "by_class c _ = []"

text \<open>The update of the numbers when the page has been rendered without them, or with others.\<close>

definition update_rendered ::
  "string \<Rightarrow> manager \<Rightarrow> bool \<Rightarrow> summary_html \<Rightarrow> jsnum obj list \<Rightarrow> (number_shown list \<times> number_shown option) option option" where
  "update_rendered year dm mobile html scores =
     updateSummaryScores year dm mobile (length (by_class ''score-number'' html)) scores"

section \<open>Lemmas\<close>

lemma box_class:
  "by_class ''score-number'' (number_box dm [] [''summary-number'', ''score-number'', ''browser-score'', ''smaller-summary-number''] x) =
     [number_box dm [] [''summary-number'', ''score-number'', ''browser-score'', ''smaller-summary-number''] x]"
  "by_class ''score-number'' (number_box dm [] [''summary-number'', ''score-number'', ''smaller-summary-number''] x) =
     [number_box dm [] [''summary-number'', ''score-number'', ''smaller-summary-number''] x]"
  "by_class ''score-number'' (number_box dm [(''id'', ''investigationNumber'')] [''summary-number'', ''smaller-summary-number''] x) = []"
  by (simp_all add: number_box_def setSummaryNumberSizes_def)

lemma label_class: "browser_label isStable b = Some h \<Longrightarrow> by_class ''score-number'' h = []"
proof -
  have fig: "by_class ''score-number'' (figure src alt [Txt t]) = []"
    "by_class ''score-number'' (figure src alt [Txt t, line_break, Txt u]) = []" for src alt t u
    by (simp_all add: figure_def line_break_def)
  have brs: "concat (map (by_class ''score-number'') (concat (map (\<lambda>p. [Txt p, line_break]) ps))) = []" for ps
    by (induction ps) (simp_all add: line_break_def)
  have "by_class ''score-number'' (figure src alt (concat (map (\<lambda>p. [Txt p, line_break]) ps))) = []" for src alt ps
    using brs [of ps] by (simp add: figure_def)
  with fig show "browser_label isStable b = Some h \<Longrightarrow> by_class ''score-number'' h = []"
    by (auto simp: browser_label_def elem_def just_def split: if_splits)
qed

text \<open>The items of the browsers.\<close>

definition items_of :: "manager \<Rightarrow> bool \<Rightarrow> browser_info list \<Rightarrow> number_shown list \<Rightarrow> summary_html list \<Rightarrow> bool" where
  "items_of dm isStable infos ns items \<longleftrightarrow>
     length items = length infos \<and>
     (\<forall>i < length infos. \<exists>lbl. browser_label isStable (infos ! i) = Some lbl \<and>
        items ! i = Elem ''div'' [(''class'', ''summary-flex-item''), (''tabindex'', ''0'')] []
          [number_box dm [] [''summary-number'', ''score-number'', ''browser-score'', ''smaller-summary-number''] (number_at ns (i + 1)), lbl])"

lemma items_rendered:
  assumes "browserInfo dm = map Some infos" and "\<forall>b \<in> set infos. browser_label isStable b \<noteq> None"
  shows "\<exists>items. items_of dm isStable infos ns items \<and>
    render_summary year dm isStable False ns investigated =
      Some (Elem ''div'' [(''class'', ''summary-container''), (''data-year'', year)] []
        [totals_row_html year dm ns investigated,
         Elem ''div'' [(''class'', ''summary-number-row''), (''id'', ''browserSummaryRow'')] [] items])"
proof -
  let ?f = "\<lambda>i info. Option.bind info (\<lambda>b. browser_item dm isStable b (number_at ns (i + 1)))"
  have item: "\<exists>lbl. browser_label isStable (infos ! i) = Some lbl \<and>
      ?f i (browserInfo dm ! i) = Some (Elem ''div'' [(''class'', ''summary-flex-item''), (''tabindex'', ''0'')] []
        [number_box dm [] [''summary-number'', ''score-number'', ''browser-score'', ''smaller-summary-number''] (number_at ns (i + 1)), lbl])"
    if "i < length infos" for i
  proof -
    have "infos ! i \<in> set infos" using that by simp
    then obtain lbl where "browser_label isStable (infos ! i) = Some lbl" using assms(2) by blast
    then show ?thesis using that assms(1) by (simp add: browser_item_def elem_def)
  qed
  have "dom_repeat ?f (browserInfo dm) \<noteq> None"
    by (rule dom_repeat_defined) (use item assms(1) in fastforce)
  then obtain items where items: "dom_repeat ?f (browserInfo dm) = Some items" by blast
  have "items_of dm isStable infos ns items"
    using item dom_repeat_nth [OF items] dom_repeat_length [OF items] assms(1) by (fastforce simp: items_of_def)
  then show ?thesis
    using items by (intro exI [of _ items]) (simp add: render_summary_def browsers_row_html_def elem_def)
qed

lemma boxes_counted:
  assumes "items_of dm isStable infos ns items"
  shows "length (by_class ''score-number''
    (Elem ''div'' [(''class'', ''summary-container''), (''data-year'', year)] []
      [totals_row_html year dm ns investigated,
       Elem ''div'' [(''class'', ''summary-number-row''), (''id'', ''browserSummaryRow'')] [] items])) = length infos + 1"
proof -
  have one: "length (by_class ''score-number'' h) = 1" if "h \<in> set items" for h
  proof -
    from that obtain i where "i < length items" "items ! i = h" by (auto simp: in_set_conv_nth)
    with assms obtain lbl where lbl: "browser_label isStable (infos ! i) = Some lbl"
      "h = Elem ''div'' [(''class'', ''summary-flex-item''), (''tabindex'', ''0'')] []
          [number_box dm [] [''summary-number'', ''score-number'', ''browser-score'', ''smaller-summary-number''] (number_at ns (i + 1)), lbl]"
      by (auto simp: items_of_def)
    then show ?thesis by (simp add: box_class label_class)
  qed
  have "length (concat (map (by_class ''score-number'') hs)) = length hs" if "\<forall>h \<in> set hs. length (by_class ''score-number'' h) = 1" for hs
    using that by (induction hs) simp_all
  then have "length (concat (map (by_class ''score-number'') items)) = length infos"
    using one assms by (simp add: items_of_def)
  then show ?thesis by (simp add: totals_row_html_def box_class)
qed

text \<open>The scores that are loaded have the summary, and the years have names and investigations to show.\<close>

lemma scores_summary:
  assumes "getMostRecentScores dm b t = Some scores" and "list_all (list_all (\<lambda>kv. per_mille_number (snd kv))) scores"
    and "\<not> (isMobileScoresView dm \<and> b)" and "s \<in> set scores"
  shows "per_mille_number (summary_of dm s)"
proof -
  from assms(1) obtain areas nms where
    scores: "those (map (\<lambda>nm. those (map (\<lambda>f. case obj_get t f of None \<Rightarrow> None | Some t \<Rightarrow> map_option (Pair f) (last_value t nm)) (features dm areas))) nms) = Some scores"
  proof -
    obtain as infos where "focusAreasList dm = Some as" "those (browserInfo dm) = Some infos"
      using assms(1) unfolding getMostRecentScores_def if_not_P [OF assms(3)] by (auto split: option.splits)
    with assms(1) show thesis
      unfolding getMostRecentScores_def if_not_P [OF assms(3)] by (intro that [of as "map tableName infos @ [''Interop'']"]) simp
  qed
  obtain i where i: "i < length scores" "scores ! i = s" using assms(4) by (auto simp: in_set_conv_nth)
  note eq = scores [unfolded those_Some_iff]
  have "i < length nms" using arg_cong [OF eq, of length] i(1) by simp
  with arg_cong [OF eq, of "\<lambda>xs. xs ! i"] i
  have "those (map (\<lambda>f. case obj_get t f of None \<Rightarrow> None | Some t \<Rightarrow> map_option (Pair f) (last_value t (nms ! i))) (features dm areas)) = Some s"
    by simp
  then obtain x s' where "s = (summaryFeatureName dm, x) # s'"
    by (auto simp: features_def split: option.splits)
  then show ?thesis using assms(2,4) by (auto simp: summary_of_def list_all_iff)
qed

definition named_browser :: "string \<Rightarrow> bool" where
  "named_browser k =
     (case obj_get BROWSER_INFO k of None \<Rightarrow> False | Some b \<Rightarrow> summary_isChromeEdgeCombo b \<or> experimentalName b \<noteq> None)"

lemma named_browsers [simp]:
  "named_browser ''chrome_edge_dev''" "named_browser ''chrome_dev''" "named_browser ''chrome_canary''" "named_browser ''edge''"
  "named_browser ''firefox''" "named_browser ''safari''"
  by code_simp+

lemma years_named:
  "list_all (\<lambda>y. case obj_get interop_years y of None \<Rightarrow> False
     | Some yi \<Rightarrow> list_all named_browser (case yi_browsers yi of Some bs \<Rightarrow> bs | None \<Rightarrow> [''chrome_edge_dev'', ''firefox'', ''safari'']))
     valid_years"
  by (simp add: valid_years_def) (simp add: year_defs)

lemma number_defined: "0 \<le> q \<Longrightarrow> q \<le> 1000 \<Longrightarrow> \<exists>x. updateSummaryScore year (Num q) = Some x \<and> ns_value x = roundScore year (Num q)"
proof -
  assume q: "0 \<le> q" "q \<le> 1000"
  have "\<exists>n. roundScore year (Num q) = Num (of_int n) \<and> n \<le> 100"
  proof (cases "case parseInt year of Some y \<Rightarrow> y < 2024 | None \<Rightarrow> False")
    case True
    moreover have "\<lfloor>q / 10\<rfloor> \<le> 100" using q by (simp add: floor_le_iff)
    ultimately show ?thesis by (simp add: roundScore_def)
  next
    case False
    have "math_round (q / 10) \<le> 100" using math_round_bounds [of 0 "q / 10" 100] q by simp
    then show ?thesis using False
      by (cases "math_round (q / 10) = 100 \<and> q < 1000") (auto simp: roundScore_def Let_def intro: exI [of _ 99])
  qed
  then obtain n where n: "roundScore year (Num q) = Num (of_int n)" "n \<le> 100" by blast
  then obtain c b where "calculateColor (of_int n) = Some (c, b)" using calculateColor_exists [of "of_int n"] by auto
  then show ?thesis by (simp add: updateSummaryScore_def n(1))
qed

lemma investigations_shown:
  assumes "year_sound y False" and "fetchYearData y False = Some dm" and "shouldDisplayInvestigationNumber dm"
  shows "\<exists>q. investigationTotalScore dm = Some (Num q) \<and> 0 \<le> q \<and> q \<le> 1000"
proof -
  obtain scores where scores: "investigationScores dm = Some scores" "scores \<noteq> []" "list_all investigation_ok scores"
    using assms by (auto simp: year_sound_def weights_ok_def shouldDisplayInvestigationNumber_def split: option.splits)
  have last: "0 \<le> last_score i \<and> last_score i \<le> 1000" if "i \<in> set scores" for i
    using scores(3) that by (auto simp: last_score_def investigation_ok_def list_all_iff)
  have "investigationTotalScore dm = calcInvestigationTotalScore (investigationScores dm)"
    using assms(2) by (auto simp: fetchYearData_def Let_def split: option.splits)
  then show ?thesis using mean_bounds [of scores last_score] last scores(1,2)
    by (simp add: calcInvestigationTotalScore_def mean_def)
qed

lemma labels_defined:
  assumes "y \<in> set valid_years" and "fetchYearData y False = Some dm" and "browserInfo dm = map Some infos"
  shows "\<forall>b \<in> set infos. browser_label isStable b \<noteq> None"
proof
  fix b assume b: "b \<in> set infos"
  obtain yi where yi: "obj_get interop_years y = Some yi"
    "browserInfo dm = map (obj_get BROWSER_INFO) (case yi_browsers yi of Some bs \<Rightarrow> bs | None \<Rightarrow> [''chrome_edge_dev'', ''firefox'', ''safari''])"
    using assms(2) by (auto simp: fetchYearData_def Let_def split: option.splits)
  have "Some b \<in> set (browserInfo dm)" using b assms(3) by simp
  then obtain k where k: "obj_get BROWSER_INFO k = Some b"
    "k \<in> set (case yi_browsers yi of Some bs \<Rightarrow> bs | None \<Rightarrow> [''chrome_edge_dev'', ''firefox'', ''safari''])"
    unfolding yi(2) by force
  have "named_browser k" using years_named assms(1) yi(1) k(2) unfolding list_all_iff by fastforce
  then show "browser_label isStable b \<noteq> None"
    using k(1) by (auto simp: named_browser_def browser_label_def getBrowserNameParts_def elem_def just_def split: option.splits)
qed

lemma numbers_set:
  assumes "year_sound y False" and "fetchYearData y False = Some dm" and "scores \<noteq> []"
    and "\<forall>s \<in> set scores. per_mille_number (summary_of dm s)"
  shows "\<exists>ns investigated. updateSummaryScores y dm False (length scores) scores = Some (Some (ns, investigated)) \<and>
    map ns_value ns = map (\<lambda>s. roundScore y (summary_of dm s)) (last scores # butlast scores)"
proof -
  have "\<forall>s \<in> set (last scores # butlast scores). per_mille_number (summary_of dm s)"
    using assms(3,4) by (auto dest: in_set_butlastD)
  from those_shown [OF this, of y] obtain ns where ns:
    "those (map (\<lambda>s. updateSummaryScore y (summary_of dm s)) (last scores # butlast scores)) = Some ns"
    "map ns_value ns = map (\<lambda>s. roundScore y (summary_of dm s)) (last scores # butlast scores)" by blast
  have "\<exists>i. updateSummaryScore y (case investigationTotalScore dm of None \<Rightarrow> Undefined | Some x \<Rightarrow> x) = Some i"
    if shown: "shouldDisplayInvestigationNumber dm"
  proof -
    obtain q where q: "investigationTotalScore dm = Some (Num q)" "0 \<le> q" "q \<le> 1000"
      using investigations_shown [OF assms(1,2) shown] by blast
    with number_defined [OF q(2,3), of y] show ?thesis by auto
  qed
  then obtain investigated where "updateSummaryScores y dm False (length scores) scores = Some (Some (ns, investigated))"
    using ns(1) assms(3) unfolding updateSummaryScores_def summary_of_def [symmetric] Let_def by fastforce
  with ns(2) show ?thesis by blast
qed

lemma items_shown:
  assumes items: "items_of dm isStable infos ns items" and "length scores = length infos + 1"
    and ns: "map ns_value ns = map (\<lambda>s. roundScore y (summary_of dm s)) (last scores # butlast scores)"
  shows "html_text (html_children (html_children (totals_row_html y dm ns investigated) ! 0) ! 0) =
      show_js (roundScore y (summary_of dm (last scores)))"
    and "i < length infos \<Longrightarrow> browser_label isStable (infos ! i) = Some (html_children (items ! i) ! 1) \<and>
      html_text (html_children (items ! i) ! 0) = show_js (roundScore y (summary_of dm (scores ! i)))"
proof -
  have len: "length ns = length infos + 1" using arg_cong [OF ns, of length] assms(2) by simp
  have number: "ns_value (ns ! j) = roundScore y (summary_of dm ((last scores # butlast scores) ! j))" if "j < length ns" for j
    using arg_cong [OF ns, of "\<lambda>xs. xs ! j"] that len assms(2) by (cases j) simp_all
  have box: "html_text (number_box dm as cs (number_at ns j)) = show_js (roundScore y (summary_of dm ((last scores # butlast scores) ! j)))"
    if "j < length ns" for j as cs
    using number [OF that] that by (simp add: number_box_def number_at_def)
  show "html_text (html_children (html_children (totals_row_html y dm ns investigated) ! 0) ! 0) =
      show_js (roundScore y (summary_of dm (last scores)))"
    using box [of 0] len by (simp add: totals_row_html_def)
  assume i: "i < length infos"
  then obtain lbl where "browser_label isStable (infos ! i) = Some lbl"
    "items ! i = Elem ''div'' [(''class'', ''summary-flex-item''), (''tabindex'', ''0'')] []
      [number_box dm [] [''summary-number'', ''score-number'', ''browser-score'', ''smaller-summary-number''] (number_at ns (i + 1)), lbl]"
    using items by (auto simp: items_of_def)
  moreover have "(last scores # butlast scores) ! (i + 1) = scores ! i" using i assms(2) by (simp add: nth_butlast)
  ultimately show "browser_label isStable (infos ! i) = Some (html_children (items ! i) ! 1) \<and>
      html_text (html_children (items ! i) ! 0) = show_js (roundScore y (summary_of dm (scores ! i)))"
    using box [of "i + 1"] i len by simp
qed

section \<open>Property\<close>

text \<open>
  C40: The numbers above the dashboard. In every session of the desktop view of a year the summary renders, its numbers
  are found when they are to be set, and none of them throws: then the box of Interop shows the rounded
  score of Interop, and the box above the icons and the name of each browser shows the rounded score of that browser.
\<close>

theorem summary_rendered:
  assumes "y \<in> set valid_years" and "fetchYearData y False = Some dm" and "files_ok fetch dm"
    and "session midnight fetch flag pathname y d" and "\<not> db_mobile d"
  shows "\<exists>html ns investigated html' items.
    render_summary y dm (db_stable d) False [] None = Some html \<and>
    update_rendered y dm False html (scores_of (db_stable d) d) = Some (Some (ns, investigated)) \<and>
    render_summary y dm (db_stable d) False ns investigated = Some html' \<and>
    html_children (html_children html' ! 1) = items \<and> length items = numBrowsers dm \<and>
    (let scores = scores_of (db_stable d) d; shown = (\<lambda>s. show_js (roundScore y (summary_of dm s)))
     in html_text (html_children (html_children (html_children html' ! 0) ! 0) ! 0) = shown (last scores) \<and>
        (\<forall>i < numBrowsers dm. browser_label (db_stable d) (the (browserInfo dm ! i)) = Some (html_children (items ! i) ! 1) \<and>
           html_text (html_children (items ! i) ! 0) = shown (scores ! i)))"
proof -
  let ?s = "scores_of (db_stable d) d"
  have sound: "year_sound y False" using desktop_years assms(1) by (simp add: list_all_iff)
  then obtain infos where infos: "browserInfo dm = map Some infos"
    using assms(2) by (auto simp: year_sound_def columns_ok_def dest: those_Some split: option.splits)
  have n: "numBrowsers dm = length infos" by (simp add: numBrowsers_def infos)
  note labels = labels_defined [OF assms(1,2) infos, of "db_stable d"]
  have not_mobile: "\<not> isMobileScoresView dm" using assms(2) by (auto simp: fetchYearData_def Let_def split: option.splits)
  obtain b t where len: "length ?s = length infos + 1" and recent: "getMostRecentScores dm b t = Some ?s"
    and per_mille: "list_all (list_all (\<lambda>kv. per_mille_number (snd kv))) ?s"
    using session_scores [OF assms] n by auto
  have ne: "?s \<noteq> []" using len by auto
  have "\<forall>s \<in> set ?s. per_mille_number (summary_of dm s)"
    using scores_summary [OF recent per_mille] not_mobile by blast
  from numbers_set [OF sound assms(2) ne this] obtain ns investigated where
    update: "updateSummaryScores y dm False (length ?s) ?s = Some (Some (ns, investigated))"
    and ns: "map ns_value ns = map (\<lambda>s. roundScore y (summary_of dm s)) (last ?s # butlast ?s)" by blast
  obtain items0 html where html: "items_of dm (db_stable d) infos [] items0" "render_summary y dm (db_stable d) False [] None = Some html"
      "html = Elem ''div'' [(''class'', ''summary-container''), (''data-year'', y)] []
        [totals_row_html y dm [] None, Elem ''div'' [(''class'', ''summary-number-row''), (''id'', ''browserSummaryRow'')] [] items0]"
    using items_rendered [OF infos labels, of "[]" y None] by blast
  then have "update_rendered y dm False html ?s = Some (Some (ns, investigated))"
    using boxes_counted [OF html(1), of y None] len update by (simp add: update_rendered_def)
  moreover obtain items where items: "items_of dm (db_stable d) infos ns items"
    and "render_summary y dm (db_stable d) False ns investigated =
      Some (Elem ''div'' [(''class'', ''summary-container''), (''data-year'', y)] []
        [totals_row_html y dm ns investigated, Elem ''div'' [(''class'', ''summary-number-row''), (''id'', ''browserSummaryRow'')] [] items])"
    using items_rendered [OF infos labels] by blast
  ultimately show ?thesis
    using html(2) items items_shown [OF items len ns] by (fastforce simp: n infos items_of_def Let_def)
qed

theorem summary_rendered_witness:
  "\<exists>html. render_summary ''2021'' manager_2021 (db_stable grid_2021) False [] None = Some html \<and>
     (\<exists>ns investigated. update_rendered ''2021'' manager_2021 False html (scores_of (db_stable grid_2021) grid_2021) =
        Some (Some (ns, investigated)))"
proof -
  have "\<not> db_mobile grid_2021" using session_shows [OF session_2021] by (simp add: page_shows_def)
  moreover have "''2021'' \<in> set valid_years" by (simp add: valid_years_def)
  ultimately show ?thesis using summary_rendered [OF _ fetched_2021 files_2021 session_2021] by blast
qed

end
