(* ===== verification/QueryBuilders.thy ===== *)
theory QueryBuilders
  imports QueryParams JsSearchParams InteropManager
begin

text \<open>
  \<^verbatim>\<open>webapp/components/product-builder.js\<close> and \<^verbatim>\<open>webapp/components/test-runs-query-builder.js\<close>: the forms in
  which a product, and a query for runs, is put together. Assigning a property runs its observer at
  once.
\<close>

section \<open>Suggestions\<close>

text \<open>The first ten values with the prefix that was typed.\<close>

definition suggestions :: "string option \<Rightarrow> string list \<Rightarrow> string list" where
  "suggestions typed vs = take 10 (if truthy typed then filter (\<lambda>v. starts_with v (the typed)) vs else vs)"

text \<open>They replace the current ones unless they are the same set.\<close>

definition replace_suggestions :: "string list \<Rightarrow> string list \<Rightarrow> string list" where
  "replace_suggestions current vs =
     (if length (nub current) = length vs \<and> \<not> truthy (find (\<lambda>v. v \<notin> set current) vs) then current else vs)"

section \<open>The product builder\<close>

text \<open>The labels that have a meaning: a channel and a source.\<close>

datatype semantic = Channel | Source

fun semantic_values :: "semantic \<Rightarrow> string list" where
  "semantic_values Channel = Channels"
| "semantic_values Source = Sources"

record product_builder =
  pb_browserName :: string
  pb_browserVersion :: string
  pb_labels :: "string list"
  pb_channel :: string
  pb_source :: string

fun get_semantic :: "semantic \<Rightarrow> product_builder \<Rightarrow> string" where
  "get_semantic Channel b = pb_channel b"
| "get_semantic Source b = pb_source b"

fun put_semantic :: "semantic \<Rightarrow> string \<Rightarrow> product_builder \<Rightarrow> product_builder" where
  "put_semantic Channel v b = b\<lparr>pb_channel := v\<rparr>"
| "put_semantic Source v b = b\<lparr>pb_source := v\<rparr>"

definition new_builder :: product_builder where
  "new_builder =
     \<lparr>pb_browserName = hd DefaultBrowserNames, pb_browserVersion = [], pb_labels = [], pb_channel = ''any'', pb_source = ''any''\<rparr>"

definition semantic_of :: "semantic \<Rightarrow> string list \<Rightarrow> string" where
  "semantic_of sem ls = (case find (\<lambda>c. c \<in> set ls) (semantic_values sem) of Some c \<Rightarrow> c | None \<Rightarrow> ''any'')"

text \<open>The labels that follow from a new value; \<open>None\<close> when they stay as they are.\<close>

definition semanticLabelChanged :: "string \<Rightarrow> string \<Rightarrow> string list \<Rightarrow> string list option" where
  "semanticLabelChanged newValue oldValue ls =
     (let isAny = (newValue = [] \<or> newValue = ''any'');
          ls' = (if oldValue \<noteq> [] then filter (\<lambda>l. l \<noteq> oldValue) ls else ls)
      in if \<not> isAny \<and> newValue \<notin> set ls' then Some (ls' @ [newValue])
         else if oldValue = [] then None else Some ls')"

text \<open>
  The observers of the labels and of the two values call each other. The fuel counts the nested calls;
  \<open>builder_settles\<close> shows that three are enough.
\<close>

fun labelsChanged :: "nat \<Rightarrow> product_builder \<Rightarrow> product_builder option" and
    semantic_step :: "nat \<Rightarrow> semantic \<Rightarrow> string \<Rightarrow> product_builder \<Rightarrow> product_builder option" where
  "labelsChanged 0 b = None"
| "labelsChanged (Suc n) b =
     (let ls = pb_labels b
      in Option.bind (semantic_step n Channel (semantic_of Channel ls) b) (semantic_step n Source (semantic_of Source ls)))"
| "semantic_step n sem v b =
     (if get_semantic sem b = v then Some b
      else (case semanticLabelChanged v (get_semantic sem b) (pb_labels b) of
              None \<Rightarrow> Some (put_semantic sem v b)
            | Some ls \<Rightarrow> labelsChanged n ((put_semantic sem v b)\<lparr>pb_labels := ls\<rparr>)))"

definition set_labels :: "string list \<Rightarrow> product_builder \<Rightarrow> product_builder option" where
  "set_labels ls b = labelsChanged 3 (b\<lparr>pb_labels := ls\<rparr>)"

definition choose_semantic :: "semantic \<Rightarrow> string \<Rightarrow> product_builder \<Rightarrow> product_builder option" where
  "choose_semantic sem v b = semantic_step 3 sem v b"

definition computeProduct :: "product_builder \<Rightarrow> product" where
  "computeProduct b =
     \<lparr>browser_name = pb_browserName b, browser_version = Some (pb_browserVersion b), labels = Some (pb_labels b),
      revision = None\<rparr>"

definition computeSpec :: "product_builder \<Rightarrow> string" where
  "computeSpec b = getSpec True (computeProduct b)"

definition productWithChannel :: "product \<Rightarrow> string \<Rightarrow> product" where
  "productWithChannel p channel = p\<lparr>labels := Some (filter (\<lambda>l. l \<notin> set Channels) (product_labels p) @ [channel])\<rparr>"

definition computeVersionsURL :: "string \<Rightarrow> product \<Rightarrow> string" where
  "computeVersionsURL origin p =
     origin @ ''/api/versions'' @ search_of (params_set ''product'' (getSpec True (p\<lparr>browser_version := None\<rparr>)) [])"

text \<open>The address is a new object after every change, never the one before, so it is always fetched.\<close>

definition versionsURLUpdated :: "(string \<Rightarrow> string list option) \<Rightarrow> string \<Rightarrow> string list option \<Rightarrow> string list option" where
  "versionsURLUpdated fetch url versions = (case fetch url of None \<Rightarrow> versions | Some v \<Rightarrow> Some v)"

definition versionsUpdated :: "string \<Rightarrow> string list option \<Rightarrow> string list \<Rightarrow> string list" where
  "versionsUpdated version versions current =
     (case versions of
        None \<Rightarrow> []
      | Some vs \<Rightarrow> if vs = [] then [] else replace_suggestions current (suggestions (Some version) vs))"

section \<open>The query builder\<close>

text \<open>The builders of the products are elements of their own.\<close>

record query_builder =
  qb_products :: "product list"
  qb_labels :: "string list"
  qb_labelsString :: "string option"
  qb_sha :: string
  qb_shas :: "string list"
  qb_matchingSHAs :: "string list option"
  qb_shasAutocomplete :: "string list"
  qb_from :: "int option"
  qb_to :: "int option"
  qb_diff :: "bool option"
  qb_builders :: "product_builder list"
  qb_submitted :: nat

definition computeCanShowDiff :: "string list \<Rightarrow> bool" where
  "computeCanShowDiff specs = (length specs = 2)"

definition handleDeleteProduct :: "nat \<Rightarrow> query_builder \<Rightarrow> query_builder" where
  "handleDeleteProduct i q = q\<lparr>qb_products := take i (qb_products q) @ drop (i + 1) (qb_products q)\<rparr>"

definition handleProductChanged :: "nat \<Rightarrow> product \<Rightarrow> query_builder \<Rightarrow> query_builder" where
  "handleProductChanged i p q = q\<lparr>qb_products := (qb_products q)[i := p]\<rparr>"

definition browser_product :: "string \<Rightarrow> product" where
  "browser_product nm = \<lparr>browser_name = nm, browser_version = None, labels = None, revision = None\<rparr>"

text \<open>The first browser that no product has yet, or Chrome.\<close>

definition next_browser :: "product list \<Rightarrow> string" where
  "next_browser ps =
     (case find (\<lambda>d. d \<notin> browser_name ` set ps) AllBrowserNames of Some d \<Rightarrow> d | None \<Rightarrow> ''chrome'')"

definition handleAddProduct :: "query_builder \<Rightarrow> query_builder" where
  "handleAddProduct q = q\<lparr>qb_products := qb_products q @ [browser_product (next_browser (qb_products q))]\<rparr>"

text \<open>The text of the labels and the list of them follow each other.\<close>

definition label_list_of :: "string option \<Rightarrow> string list" where
  "label_list_of t = filter (\<lambda>l. l \<noteq> []) (map trim (split_on (CHR '','') (case t of None \<Rightarrow> [] | Some s \<Rightarrow> s)))"

definition labels_text :: "string list \<Rightarrow> string option" where
  "labels_text ls = (if ls = [] \<or> join '', '' ls = [] then None else Some (join '', '' ls))"

definition labelsUpdated :: "query_builder \<Rightarrow> query_builder" where
  "labelsUpdated q = q\<lparr>qb_labelsString := labels_text (qb_labels q)\<rparr>"

definition labelsStringUpdated :: "query_builder \<Rightarrow> query_builder" where
  "labelsStringUpdated q =
     (let ls = label_list_of (qb_labelsString q)
      in if join '','' ls \<noteq> join '','' (qb_labels q) then labelsUpdated (q\<lparr>qb_labels := ls\<rparr>) else q)"

definition set_labelsString :: "string option \<Rightarrow> query_builder \<Rightarrow> query_builder" where
  "set_labelsString t q = labelsStringUpdated (q\<lparr>qb_labelsString := t\<rparr>)"

definition set_query_labels :: "string list \<Rightarrow> query_builder \<Rightarrow> query_builder" where
  "set_query_labels ls q =
     (let q' = labelsUpdated (q\<lparr>qb_labels := ls\<rparr>)
      in if qb_labelsString q' = qb_labelsString q then q' else labelsStringUpdated q')"

text \<open>A label that is a channel or a source is taken off and put on all products.\<close>

definition move_label :: "semantic \<times> string \<Rightarrow> query_builder \<Rightarrow> query_builder option" where
  "move_label sl q =
     (if snd sl \<in> set (qb_labels q) then
        (case those (map (choose_semantic (fst sl) (snd sl)) (qb_builders q)) of
           None \<Rightarrow> None
         | Some bs \<Rightarrow> Some ((set_query_labels (filter (\<lambda>l. l \<noteq> snd sl) (qb_labels q)) q)\<lparr>qb_builders := bs\<rparr>))
      else Some q)"

definition semantic_labels :: "(semantic \<times> string) list" where
  "semantic_labels = map (Pair Channel) Channels @ map (Pair Source) Sources"

definition handleSubmit :: "query_builder \<Rightarrow> query_builder option" where
  "handleSubmit q =
     map_option (\<lambda>q. q\<lparr>qb_submitted := qb_submitted q + 1\<rparr>)
       (foldl (\<lambda>acc sl. Option.bind acc (move_label sl)) (Some q) semantic_labels)"

definition computeSHAsURL :: "string \<Rightarrow> string option \<Rightarrow> string" where
  "computeSHAsURL origin query =
     origin @ ''/api/shas'' @ search_of (params_delete ''sha'' (form_parse (case query of None \<Rightarrow> [] | Some s \<Rightarrow> s)))"

definition shasUpdated :: "string \<Rightarrow> string list option \<Rightarrow> string list \<Rightarrow> string list" where
  "shasUpdated sha matching current =
     (case matching of
        None \<Rightarrow> current
      | Some vs \<Rightarrow> if vs = [] then current else replace_suggestions current (suggestions (Some sha) vs))"

definition shaUpdated :: "string \<Rightarrow> query_builder \<Rightarrow> query_builder" where
  "shaUpdated sha q = q\<lparr>qb_sha := sha, qb_shas := (if computeIsLatest (Sha sha) then [] else [sha])\<rparr>"

definition default_products :: "product list" where
  "default_products =
     map (\<lambda>s. case parseProductSpec s of Inr p \<Rightarrow> p | Inl _ \<Rightarrow> browser_product s) DefaultProductSpecs"

definition clearBuilder :: "query_builder \<Rightarrow> query_builder" where
  "clearBuilder q = (set_query_labels [] q)\<lparr>qb_products := default_products, qb_shas := [], qb_diff := None\<rparr>"

definition handleClearAll :: "query_builder \<Rightarrow> query_builder" where
  "handleClearAll q = (clearBuilder q)\<lparr>qb_products := []\<rparr>"

text \<open>A date that is not complete is ignored; the time is midnight in UTC.\<close>

definition input_date :: "string \<Rightarrow> int option" where
  "input_date s = (if length s = 10 then iso_day s else None)"

definition fromISOChanged :: "string \<Rightarrow> query_builder \<Rightarrow> query_builder" where
  "fromISOChanged s q = (case input_date s of None \<Rightarrow> q | Some t \<Rightarrow> q\<lparr>qb_from := Some t\<rparr>)"

definition toISOChanged :: "string \<Rightarrow> query_builder \<Rightarrow> query_builder" where
  "toISOChanged s q = (case input_date s of None \<Rightarrow> q | Some t \<Rightarrow> q\<lparr>qb_to := Some t\<rparr>)"

section \<open>The labels and their meaning agree\<close>

definition sem_ok :: "product_builder \<Rightarrow> bool" where
  "sem_ok b \<longleftrightarrow> (\<forall>sem. get_semantic sem b \<in> insert ''any'' (set (semantic_values sem)))"

definition builder_coherent :: "product_builder \<Rightarrow> bool" where
  "builder_coherent b \<longleftrightarrow> (\<forall>sem. get_semantic sem b = semantic_of sem (pb_labels b))"

lemma semantic_facts:
  "v \<in> insert ''any'' (set (semantic_values sem)) \<Longrightarrow> v \<noteq> []"
  "v \<in> insert ''any'' (set (semantic_values sem)) \<Longrightarrow> sem' \<noteq> sem \<Longrightarrow> v \<notin> set (semantic_values sem')"
  "''any'' \<notin> set (semantic_values sem)"
  by (cases sem; cases sem'; auto simp: Channels_def Sources_def)+

lemma semantic_values_all: "(\<forall>sem. P sem) \<longleftrightarrow> P Channel \<and> P Source"
  by (metis semantic.exhaust)

lemma semantic_of_cases: "semantic_of sem ls = ''any'' \<or> semantic_of sem ls \<in> set (semantic_values sem) \<and> semantic_of sem ls \<in> set ls"
  by (auto simp: semantic_of_def find_Some_iff in_set_conv_nth split: option.splits)

lemma semantic_of_range: "semantic_of sem ls \<in> insert ''any'' (set (semantic_values sem))"
  using semantic_of_cases by blast

lemma semantic_of_cong:
  assumes "\<forall>c \<in> set (semantic_values sem). c \<in> set ls \<longleftrightarrow> c \<in> set ls'"
  shows "semantic_of sem ls = semantic_of sem ls'"
proof -
  have "find (\<lambda>c. c \<in> set ls) (semantic_values sem) = find (\<lambda>c. c \<in> set ls') (semantic_values sem)"
    by (rule find_cong) (use assms in auto)
  then show ?thesis by (simp add: semantic_of_def)
qed

lemma find_remove:
  "(case find (\<lambda>c. c \<in> set ls) vs of Some c \<Rightarrow> c | None \<Rightarrow> a) \<noteq> old \<Longrightarrow>
   find (\<lambda>c. c \<in> set (filter (\<lambda>l. l \<noteq> old) ls)) vs = find (\<lambda>c. c \<in> set ls) vs"
  by (induction vs) auto

text \<open>Taking off the old value keeps the meaning.\<close>

lemma semantic_of_remove: "semantic_of sem ls \<noteq> old \<Longrightarrow> semantic_of sem (filter (\<lambda>l. l \<noteq> old) ls) = semantic_of sem ls"
  unfolding semantic_of_def using find_remove by metis

lemma semantic_of_other: "old \<notin> set (semantic_values sem) \<Longrightarrow> semantic_of sem (filter (\<lambda>l. l \<noteq> old) ls) = semantic_of sem ls"
  by (rule semantic_of_cong) auto

lemma changed_labels:
  assumes "old \<noteq> []" and "semantic_of sem ls \<noteq> old"
  shows "semanticLabelChanged (semantic_of sem ls) old ls = Some (filter (\<lambda>l. l \<noteq> old) ls)"
  using assms semantic_of_cases [of sem ls] semantic_facts(1) [OF semantic_of_range [of sem ls]]
  by (auto simp: semanticLabelChanged_def Let_def)

lemma labelsChanged_coherent: "builder_coherent b \<Longrightarrow> labelsChanged (Suc n) b = Some b"
proof -
  assume "builder_coherent b"
  then have "get_semantic Channel b = semantic_of Channel (pb_labels b)" "get_semantic Source b = semantic_of Source (pb_labels b)"
    by (auto simp: builder_coherent_def)
  then show ?thesis by (simp add: Let_def)
qed

lemma get_put [simp]:
  "get_semantic sem (put_semantic sem v b) = v" "pb_labels (put_semantic sem v b) = pb_labels b"
  "sem' \<noteq> sem \<Longrightarrow> get_semantic sem' (put_semantic sem v b) = get_semantic sem' b"
  "get_semantic sem (b\<lparr>pb_labels := ls\<rparr>) = get_semantic sem b"
  by (cases sem; cases sem'; simp)+

text \<open>A step for one meaning when the other one agrees already.\<close>

lemma step_settles:
  assumes ok: "sem_ok b" and other: "\<forall>sem'. sem' \<noteq> sem \<longrightarrow> get_semantic sem' b = semantic_of sem' (pb_labels b)"
  shows "\<exists>b'. semantic_step (Suc n) sem (semantic_of sem (pb_labels b)) b = Some b' \<and> builder_coherent b' \<and>
    (\<forall>s. semantic_of s (pb_labels b') = semantic_of s (pb_labels b))"
proof (cases "get_semantic sem b = semantic_of sem (pb_labels b)")
  case True
  with other show ?thesis by (auto simp: builder_coherent_def)
next
  case False
  let ?old = "get_semantic sem b" and ?v = "semantic_of sem (pb_labels b)"
  let ?ls = "filter (\<lambda>l. l \<noteq> ?old) (pb_labels b)"
  let ?b = "(put_semantic sem ?v b)\<lparr>pb_labels := ?ls\<rparr>"
  have old: "?old \<in> insert ''any'' (set (semantic_values sem))" using ok by (simp add: sem_ok_def)
  have change: "semanticLabelChanged ?v ?old (pb_labels b) = Some ?ls"
    by (rule changed_labels) (use semantic_facts(1) [OF old] False in auto)
  have same: "semantic_of s ?ls = semantic_of s (pb_labels b)" for s
    using semantic_of_remove [of sem "pb_labels b" ?old] semantic_of_other [of ?old s "pb_labels b"] semantic_facts(2) [OF old, of s] False
    by (cases "s = sem") auto
  have "builder_coherent ?b"
    unfolding builder_coherent_def
  proof
    fix s
    show "get_semantic s ?b = semantic_of s (pb_labels ?b)" using same other by (cases "s = sem") auto
  qed
  then show ?thesis using False change same by (auto simp: labelsChanged_coherent simp del: labelsChanged.simps)
qed

lemma sem_ok_labels [simp]: "sem_ok (b\<lparr>pb_labels := ls\<rparr>) = sem_ok b"
  by (simp add: sem_ok_def)

lemma sem_ok_put: "sem_ok b \<Longrightarrow> v \<in> insert ''any'' (set (semantic_values sem)) \<Longrightarrow> sem_ok (put_semantic sem v b)"
  unfolding sem_ok_def by (metis get_put(1,3))

lemma labelsChanged_settles:
  assumes ok: "sem_ok b" and channel: "pb_channel b = semantic_of Channel (pb_labels b)"
  shows "\<exists>b'. labelsChanged (Suc (Suc n)) b = Some b' \<and> builder_coherent b' \<and>
    (\<forall>s. semantic_of s (pb_labels b') = semantic_of s (pb_labels b))"
proof -
  have "\<forall>sem'. sem' \<noteq> Source \<longrightarrow> get_semantic sem' b = semantic_of sem' (pb_labels b)"
    using channel semantic.exhaust by (metis get_semantic.simps(1))
  from step_settles [OF ok this, of n] show ?thesis using channel by (auto simp: Let_def)
qed

lemma builder_settles:
  assumes ok: "sem_ok b"
  shows "\<exists>b'. labelsChanged 3 b = Some b' \<and> builder_coherent b' \<and> (\<forall>s. semantic_of s (pb_labels b') = semantic_of s (pb_labels b))"
proof (cases "pb_channel b = semantic_of Channel (pb_labels b)")
  case True
  from labelsChanged_settles [OF ok this, of 1] show ?thesis by (simp add: numeral_3_eq_3)
next
  case False
  let ?v = "semantic_of Channel (pb_labels b)" and ?old = "pb_channel b"
  let ?b = "(put_semantic Channel ?v b)\<lparr>pb_labels := filter (\<lambda>l. l \<noteq> ?old) (pb_labels b)\<rparr>"
  have old: "?old \<in> insert ''any'' (set (semantic_values Channel))" using ok unfolding sem_ok_def by (metis get_semantic.simps(1))
  have change: "semanticLabelChanged ?v ?old (pb_labels b) = Some (pb_labels ?b)"
    using changed_labels [of ?old Channel "pb_labels b"] semantic_facts(1) [OF old] False by auto
  have same: "semantic_of s (pb_labels ?b) = semantic_of s (pb_labels b)" for s
    using semantic_of_remove [of Channel "pb_labels b" ?old] semantic_of_other [of ?old s "pb_labels b"] semantic_facts(2) [OF old, of s] False
    by (cases "s = Channel") auto
  have "sem_ok (put_semantic Channel ?v b)" by (rule sem_ok_put [OF ok semantic_of_range])
  then have "sem_ok ?b" by simp
  moreover have "pb_channel ?b = semantic_of Channel (pb_labels ?b)" using same by simp
  ultimately obtain b' where b': "labelsChanged (Suc (Suc 0)) ?b = Some b'" "builder_coherent b'"
    "\<forall>s. semantic_of s (pb_labels b') = semantic_of s (pb_labels ?b)"
    using labelsChanged_settles by blast
  have "semantic_step (Suc (Suc 0)) Channel ?v b = Some b'" using False change b'(1) by simp
  moreover have "semantic_step (Suc (Suc 0)) Source (semantic_of Source (pb_labels b)) b' = Some b'"
    using b'(2,3) same by (simp add: builder_coherent_def)
  ultimately show ?thesis using b' same by (simp add: numeral_3_eq_3 Let_def del: semantic_step.simps)
qed

text \<open>
  C24: whatever labels a product builder is given, its observers come to rest, and then the channel and the
  source it shows are the ones of its labels.
\<close>

theorem set_labels_settles:
  assumes "sem_ok b"
  shows "\<exists>b'. set_labels ls b = Some b' \<and> builder_coherent b'"
  using builder_settles [of "b\<lparr>pb_labels := ls\<rparr>"] assms unfolding set_labels_def by auto

theorem set_labels_settles_witness:
  "\<exists>b'. set_labels [''azure'', ''stable'', ''beta''] new_builder = Some b' \<and> builder_coherent b'"
  by (rule set_labels_settles) (simp add: sem_ok_def new_builder_def semantic_values_all)

section \<open>Choosing a channel or a source\<close>

definition single :: "product_builder \<Rightarrow> bool" where
  "single b \<longleftrightarrow> (\<forall>sem. list_all (\<lambda>l. list_all (\<lambda>l'. l' \<in> set (semantic_values sem) \<longrightarrow> l \<in> set (semantic_values sem) \<longrightarrow> l = l')
     (pb_labels b)) (pb_labels b))"

lemma single_eq:
  "single b \<Longrightarrow> l \<in> set (pb_labels b) \<Longrightarrow> l' \<in> set (pb_labels b) \<Longrightarrow> l \<in> set (semantic_values sem) \<Longrightarrow>
   l' \<in> set (semantic_values sem) \<Longrightarrow> l = l'"
  by (auto simp: single_def list_all_iff)

lemma semantic_of_unique:
  assumes "v \<in> set (semantic_values sem)" and "v \<in> set ls" and "\<forall>l \<in> set ls. l \<in> set (semantic_values sem) \<longrightarrow> l = v"
  shows "semantic_of sem ls = v"
proof -
  have "semantic_of sem ls \<noteq> ''any''"
  proof (cases "find (\<lambda>c. c \<in> set ls) (semantic_values sem)")
    case None
    with assms(1,2) show ?thesis by (auto simp: find_None_iff)
  next
    case (Some c)
    then have "c \<in> set (semantic_values sem)" by (auto simp: find_Some_iff)
    with Some show ?thesis using semantic_facts(3) by (auto simp: semantic_of_def)
  qed
  then show ?thesis using semantic_of_cases [of sem ls] assms(3) by blast
qed

lemma semantic_of_none: "\<forall>l \<in> set ls. l \<notin> set (semantic_values sem) \<Longrightarrow> semantic_of sem ls = ''any''"
  using semantic_of_cases [of sem ls] by auto

lemma coherent_sem_ok: "builder_coherent b \<Longrightarrow> sem_ok b"
  using semantic_of_range by (auto simp: builder_coherent_def sem_ok_def)

text \<open>The labels after a choice.\<close>

definition chosen_labels :: "string \<Rightarrow> string \<Rightarrow> string list \<Rightarrow> string list" where
  "chosen_labels v old ls = filter (\<lambda>l. l \<noteq> old) ls @ (if v = ''any'' then [] else [v])"

lemma old_label:
  assumes "builder_coherent b" and "single b" and "l \<in> set (pb_labels b)" and "l \<in> set (semantic_values sem)"
  shows "l = get_semantic sem b"
proof -
  have "semantic_of sem (pb_labels b) = l"
    by (rule semantic_of_unique [OF assms(4,3)]) (use single_eq [OF assms(2) _ assms(3) _ assms(4)] in blast)
  then show ?thesis using assms(1) by (simp add: builder_coherent_def)
qed

lemma chosen_coherent:
  assumes co: "builder_coherent b" and one: "single b" and v: "v \<in> insert ''any'' (set (semantic_values sem))"
    and old: "old = get_semantic sem b" "v \<noteq> old"
  shows "semantic_of s (chosen_labels v old (pb_labels b)) = (if s = sem then v else get_semantic s b)"
proof (cases "s = sem")
  case True
  show ?thesis
  proof (cases "v = ''any''")
    case True
    then show ?thesis using old_label [OF co one] old \<open>s = sem\<close>
      by (auto simp: chosen_labels_def intro!: semantic_of_none)
  next
    case False
    then show ?thesis using old_label [OF co one] old \<open>s = sem\<close> v
      by (auto simp: chosen_labels_def intro!: semantic_of_unique)
  qed
next
  case False
  have "old \<in> insert ''any'' (set (semantic_values sem))" using coherent_sem_ok [OF co] old by (simp add: sem_ok_def)
  then have no: "old \<notin> set (semantic_values s)" "v \<notin> set (semantic_values s)" using semantic_facts(2) v False by auto
  have "semantic_of s (chosen_labels v old (pb_labels b)) = semantic_of s (pb_labels b)"
    by (rule semantic_of_cong) (use no in \<open>auto simp: chosen_labels_def\<close>)
  then show ?thesis using co False by (simp add: builder_coherent_def)
qed

lemma chosen_changed:
  assumes co: "builder_coherent b" and one: "single b" and v: "v \<in> insert ''any'' (set (semantic_values sem))"
    and old: "old = get_semantic sem b" "v \<noteq> old"
  shows "semanticLabelChanged v old (pb_labels b) = Some (chosen_labels v old (pb_labels b))"
proof -
  have "old \<in> insert ''any'' (set (semantic_values sem))" using coherent_sem_ok [OF co] old by (simp add: sem_ok_def)
  then have "old \<noteq> []" "v \<noteq> []" using semantic_facts(1) v by auto
  moreover have "v \<noteq> ''any'' \<Longrightarrow> v \<notin> set (pb_labels b)" using old_label [OF co one] v old by auto
  ultimately show ?thesis by (auto simp: semanticLabelChanged_def chosen_labels_def)
qed

lemma choose_eq:
  assumes "builder_coherent b" and "single b" and "v \<in> insert ''any'' (set (semantic_values sem))" and "v \<noteq> get_semantic sem b"
  shows "choose_semantic sem v b =
    Some ((put_semantic sem v b)\<lparr>pb_labels := chosen_labels v (get_semantic sem b) (pb_labels b)\<rparr>)"
proof -
  let ?b = "(put_semantic sem v b)\<lparr>pb_labels := chosen_labels v (get_semantic sem b) (pb_labels b)\<rparr>"
  have "get_semantic s ?b = (if s = sem then v else get_semantic s b)" for s by simp
  then have "builder_coherent ?b" using chosen_coherent [OF assms(1-3) refl assms(4)] by (simp add: builder_coherent_def)
  then show ?thesis using chosen_changed [OF assms(1-3) refl assms(4)] assms(4)
    by (simp add: choose_semantic_def numeral_3_eq_3 labelsChanged_coherent del: labelsChanged.simps)
qed

lemma chosen_single:
  assumes "builder_coherent b" and "single b" and "v \<in> insert ''any'' (set (semantic_values sem))" and "v \<noteq> get_semantic sem b"
  shows "single (put_semantic sem v b\<lparr>pb_labels := chosen_labels v (get_semantic sem b) (pb_labels b)\<rparr>)"
proof -
  have only: "l = get_semantic s b" if "l \<in> set (pb_labels b)" "l \<in> set (semantic_values s)" for l s
    using old_label [OF assms(1,2) that] .
  have one: "l = (if s = sem then v else get_semantic s b)"
    if l: "l \<in> set (chosen_labels v (get_semantic sem b) (pb_labels b))" "l \<in> set (semantic_values s)" for l s
  proof (cases "l = v \<and> v \<noteq> ''any''")
    case True
    then have "s = sem" using semantic_facts(2) [OF assms(3), of s] l(2) by blast
    then show ?thesis using True by simp
  next
    case False
    then have "l \<in> set (pb_labels b)" "l \<noteq> get_semantic sem b" using l(1) by (auto simp: chosen_labels_def split: if_splits)
    then show ?thesis using only [OF _ l(2)] by auto
  qed
  then show ?thesis unfolding single_def list_all_iff by (metis product_builder.select_convs(3) product_builder.surjective product_builder.update_convs(3))
qed

lemma chosen_others:
  assumes "v \<in> insert ''any'' (set (semantic_values sem))" and "old \<in> insert ''any'' (set (semantic_values sem))"
  shows "filter (\<lambda>l. l \<notin> insert ''any'' (set (semantic_values sem))) (chosen_labels v old ls) =
    filter (\<lambda>l. l \<notin> insert ''any'' (set (semantic_values sem))) ls"
proof -
  have "filter (\<lambda>l. l \<notin> insert ''any'' (set (semantic_values sem)) \<and> l \<noteq> old) ls =
    filter (\<lambda>l. l \<notin> insert ''any'' (set (semantic_values sem))) ls"
    by (rule filter_cong [OF refl]) (use assms(2) in auto)
  then show ?thesis using assms(1) by (auto simp: chosen_labels_def conj_commute)
qed



text \<open>With two channels among the labels the choice may not win.\<close>

lemma two_channels:
  "map_option pb_channel (choose_semantic Channel ''experimental''
     (new_builder\<lparr>pb_labels := [''stable'', ''beta''], pb_channel := ''stable''\<rparr>)) = Some ''beta''"
  by code_simp

section \<open>The labels of the query as a text\<close>

lemma trim_space: "trim (CHR '' '' # l) = trim l"
  by (simp add: trim_def is_space_def)

lemma split_labels_text:
  "ls \<noteq> [] \<Longrightarrow> \<forall>l \<in> set ls. CHR '','' \<notin> set l \<Longrightarrow>
   map trim (split_on (CHR '','') (join '', '' ls)) = map trim ls"
proof (induction ls)
  case (Cons l ls)
  show ?case
  proof (cases ls)
    case (Cons m ms)
    have "map trim (split_on (CHR '','') (CHR '' '' # join '', '' ls)) = map trim ls"
      using Cons.IH Cons.prems Cons by (cases "split_on (CHR '','') (join '', '' ls)") (auto simp: trim_space)
    then show ?thesis using Cons.prems Cons by (simp add: join_Cons split_on_append)
  qed (use Cons.prems in simp)
qed simp

lemma labels_text_list:
  assumes "list_all (\<lambda>l. l \<noteq> [] \<and> trim l = l \<and> CHR '','' \<notin> set l) ls"
  shows "label_list_of (labels_text ls) = ls"
proof (cases "ls = []")
  case True
  then show ?thesis by (simp add: label_list_of_def labels_text_def trim_def)
next
  case False
  then have "join '', '' ls \<noteq> []" using assms by (cases ls; cases "tl ls") (auto simp: join_Cons)
  moreover have "map trim ls = ls" "filter (\<lambda>l. l \<noteq> []) ls = ls"
    using assms by (auto simp: list_all_iff filter_id_conv intro!: map_idI)
  ultimately show ?thesis using False assms split_labels_text [OF False]
    by (simp add: label_list_of_def labels_text_def list_all_iff)
qed

text \<open>Setting the labels shows them as a text that gives them back; nothing is changed a second time.\<close>

lemma set_query_labels_eq:
  assumes "list_all (\<lambda>l. l \<noteq> [] \<and> trim l = l \<and> CHR '','' \<notin> set l) ls"
  shows "set_query_labels ls q = q\<lparr>qb_labels := ls, qb_labelsString := labels_text ls\<rparr>"
  using labels_text_list [OF assms] by (simp add: set_query_labels_def labelsUpdated_def labelsStringUpdated_def Let_def)

section \<open>Submitting\<close>

lemma choose_total:
  assumes ok: "sem_ok b" and v: "v \<in> insert ''any'' (set (semantic_values sem))"
  shows "\<exists>b'. choose_semantic sem v b = Some b' \<and> sem_ok b'"
proof -
  have "sem_ok (put_semantic sem v b)" by (rule sem_ok_put [OF ok v])
  then have "\<exists>b'. labelsChanged 3 ((put_semantic sem v b)\<lparr>pb_labels := ls\<rparr>) = Some b' \<and> sem_ok b'" for ls
    using builder_settles [of "(put_semantic sem v b)\<lparr>pb_labels := ls\<rparr>"] coherent_sem_ok by fastforce
  then show ?thesis using ok \<open>sem_ok (put_semantic sem v b)\<close>
    by (auto simp: choose_semantic_def split: option.splits)
qed

lemma choose_all_total:
  assumes "\<forall>b \<in> set bs. sem_ok b" and "v \<in> set (semantic_values sem)"
  shows "\<exists>bs'. those (map (choose_semantic sem v) bs) = Some bs' \<and> (\<forall>b \<in> set bs'. sem_ok b) \<and> length bs' = length bs"
  using assms(1)
proof (induction bs)
  case (Cons b bs)
  then obtain bs' where bs': "those (map (choose_semantic sem v) bs) = Some bs'" "\<forall>b \<in> set bs'. sem_ok b" "length bs' = length bs"
    by auto
  obtain b' where "choose_semantic sem v b = Some b'" "sem_ok b'" using choose_total [of b v sem] Cons.prems assms(2) by auto
  with bs' show ?case by simp
qed simp

definition clean_label :: "string \<Rightarrow> bool" where
  "clean_label l \<longleftrightarrow> l \<noteq> [] \<and> trim l = l \<and> CHR '','' \<notin> set l"

definition query_ok :: "query_builder \<Rightarrow> bool" where
  "query_ok q \<longleftrightarrow> list_all clean_label (qb_labels q) \<and> list_all sem_ok (qb_builders q)"

lemma move_label_total:
  assumes "query_ok q" and "v \<in> set (semantic_values sem)"
  shows "\<exists>q'. move_label (sem, v) q = Some q' \<and> query_ok q' \<and> qb_labels q' = filter (\<lambda>l. l \<noteq> v) (qb_labels q) \<and>
    length (qb_builders q') = length (qb_builders q) \<and> qb_submitted q' = qb_submitted q"
proof (cases "v \<in> set (qb_labels q)")
  case True
  obtain bs where bs: "those (map (choose_semantic sem v) (qb_builders q)) = Some bs" "\<forall>b \<in> set bs. sem_ok b"
      "length bs = length (qb_builders q)"
    using choose_all_total [of "qb_builders q" v sem] assms by (auto simp: query_ok_def list_all_iff)
  have clean: "list_all (\<lambda>l. l \<noteq> [] \<and> trim l = l \<and> CHR '','' \<notin> set l) (filter (\<lambda>l. l \<noteq> v) (qb_labels q))"
    using assms(1) by (auto simp: query_ok_def clean_label_def list_all_iff)
  show ?thesis using True bs clean
    by (auto simp: move_label_def set_query_labels_eq [OF clean] query_ok_def clean_label_def list_all_iff)
next
  case False
  then have "filter (\<lambda>l. l \<noteq> v) (qb_labels q) = qb_labels q" by (auto simp: filter_id_conv)
  with False assms(1) show ?thesis by (simp add: move_label_def)
qed

lemma move_labels_total:
  assumes "query_ok q" and "\<forall>(sem, v) \<in> set sls. v \<in> set (semantic_values sem)"
  shows "\<exists>q'. foldl (\<lambda>acc sl. Option.bind acc (move_label sl)) (Some q) sls = Some q' \<and> query_ok q' \<and>
    qb_labels q' = filter (\<lambda>l. l \<notin> snd ` set sls) (qb_labels q) \<and>
    length (qb_builders q') = length (qb_builders q) \<and> qb_submitted q' = qb_submitted q"
  using assms
proof (induction sls arbitrary: q)
  case (Cons sl sls)
  obtain sem v where sl: "sl = (sem, v)" by (cases sl)
  obtain q1 where q1: "move_label sl q = Some q1" "query_ok q1" "qb_labels q1 = filter (\<lambda>l. l \<noteq> v) (qb_labels q)"
      "length (qb_builders q1) = length (qb_builders q)" "qb_submitted q1 = qb_submitted q"
    using move_label_total [OF Cons.prems(1), of v sem] Cons.prems(2) sl by auto
  show ?case using Cons.IH [OF q1(2)] Cons.prems(2) q1 sl by (auto simp: filter_filter conj_commute)
qed simp

text \<open>
  Submitting the form takes every channel and every source off the labels of the query, whatever the
  products are, and then submits once; the other labels keep their order.
\<close>

lemma submit_moves_labels:
  assumes "query_ok q"
  shows "\<exists>q'. handleSubmit q = Some q' \<and> query_ok q' \<and>
    qb_labels q' = filter (\<lambda>l. l \<notin> set Channels \<and> l \<notin> set Sources) (qb_labels q) \<and>
    length (qb_builders q') = length (qb_builders q) \<and> qb_submitted q' = qb_submitted q + 1"
proof -
  have "\<forall>(sem, v) \<in> set semantic_labels. v \<in> set (semantic_values sem)" by (auto simp: semantic_labels_def)
  moreover have "snd ` set semantic_labels = set Channels \<union> set Sources" by (auto simp: semantic_labels_def image_Un image_image)
  ultimately show ?thesis using move_labels_total [OF assms, of semantic_labels]
    by (auto simp: handleSubmit_def query_ok_def)
qed

theorem submit_moves_labels_witness:
  "\<exists>q'. handleSubmit \<lparr>qb_products = [], qb_labels = [''stable'', ''tls''], qb_labelsString = None, qb_sha = [], qb_shas = [],
        qb_matchingSHAs = None, qb_shasAutocomplete = [], qb_from = None, qb_to = None, qb_diff = None,
        qb_builders = [new_builder], qb_submitted = 0\<rparr> = Some q' \<and> query_ok q' \<and>
    qb_labels q' = filter (\<lambda>l. l \<notin> set Channels \<and> l \<notin> set Sources) [''stable'', ''tls''] \<and>
    length (qb_builders q') = 1 \<and> qb_submitted q' = 1"
  using submit_moves_labels [of "\<lparr>qb_products = [], qb_labels = [''stable'', ''tls''], qb_labelsString = None, qb_sha = [],
        qb_shas = [], qb_matchingSHAs = None, qb_shasAutocomplete = [], qb_from = None, qb_to = None, qb_diff = None,
        qb_builders = [new_builder], qb_submitted = 0\<rparr>"]
  by (simp add: query_ok_def sem_ok_def new_builder_def semantic_values_all clean_label_def trim_def is_space_def)

end
