(* ===== verification/Insights.thy ===== *)
theory Insights
  imports TestSearch JsSearchParams ProductInfo
begin

text \<open>
  \<^verbatim>\<open>webapp/components/wpt-insights.js\<close> and \<^verbatim>\<open>webapp/components/test-info.js\<close>: the page of insights, three cards
  that build a search query and a link to its results.
\<close>

section \<open>Statuses\<close>

definition TestStatuses :: "string list" where
  "TestStatuses =
     [''UNKNOWN'', ''PASS'', ''OK'', ''ERROR'', ''TIMEOUT'', ''NOTRUN'', ''FAIL'', ''CRASH'', ''SKIP'', ''ASSERT'',
      ''PRECONDITION_FAILED'']"

definition isPass :: "string \<Rightarrow> bool" where
  "isPass nm = (nm = ''PASS'' \<or> nm = ''OK'')"

definition passStatuses :: "string list" where
  "passStatuses = filter isPass TestStatuses"

definition passing_query :: string where
  "passing_query = join ''|'' (map (\<lambda>s. ''status:'' @ s) passStatuses)"

definition notPassing_query :: string where
  "notPassing_query = join ''&'' (map (\<lambda>s. ''status:!'' @ s) (passStatuses @ [''unknown'']))"

definition results_url :: "string \<Rightarrow> search_params \<Rightarrow> string" where
  "results_url origin ps = origin @ ''/results/'' @ search_of ps"

section \<open>Flakes\<close>

definition flakes_computeQuery :: string where
  "flakes_computeQuery =
     ''seq(('' @ passing_query @ '') ('' @ notPassing_query @ '')) seq(('' @ notPassing_query @ '') ('' @ passing_query @ ''))''"

definition flakes_computeURL :: "string \<Rightarrow> string \<Rightarrow> string \<Rightarrow> string" where
  "flakes_computeURL origin browser qtext =
     results_url origin (params_set ''labels'' ''master,experimental'' (params_set ''max-count'' ''10''
       (params_set ''product'' browser (params_set ''q'' qtext []))))"

section \<open>Anomalies\<close>

definition default_others :: "string list" where
  "default_others = filter (\<lambda>b. b \<noteq> ''chrome'') DefaultBrowserNames"

definition allProductsExcept :: "string \<Rightarrow> (string + product) list" where
  "allProductsExcept browser =
     filter (\<lambda>p. case p of Inr q \<Rightarrow> browser_name q \<noteq> browser | Inl _ \<Rightarrow> True) AllProducts"

text \<open>A name without display name is joined as an empty text.\<close>

definition computeOthersDisplayNames :: "string list \<Rightarrow> string" where
  "computeOthersDisplayNames others =
     join '', '' (map (\<lambda>p. case displayName (Some p) of None \<Rightarrow> [] | Some t \<Rightarrow> t) others)"

definition anomalies_computeQuery :: "string \<Rightarrow> string \<Rightarrow> string list \<Rightarrow> string" where
  "anomalies_computeQuery anomalyType browser others =
     (let nt = (if anomalyType = ''passing'' then ''!'' else []);
          notnot = (if anomalyType = ''passing'' then [] else ''!'');
          otherFilters = join '' '' (map (\<lambda>ob. ''('' @ ob @ '':'' @ nt @ ''pass|'' @ ob @ '':'' @ nt @ ''ok)'') others)
      in ''('' @ browser @ '':'' @ notnot @ ''pass&'' @ browser @ '':'' @ notnot @ ''ok) '' @ otherFilters)"

definition anomalies_computeURL :: "string \<Rightarrow> string \<Rightarrow> string \<Rightarrow> string list \<Rightarrow> string" where
  "anomalies_computeURL origin qtext browser others =
     (let products = browser # others;
          ps = params_set ''q'' qtext (params_set ''labels'' ''master'' [])
      in results_url origin
           (if join '','' DefaultProductSpecs \<noteq> join '','' products
            then params_set ''products'' (join '','' products) ps else ps))"

section \<open>Release regressions\<close>

definition regressions_computeQuery :: string where
  "regressions_computeQuery = ''seq(('' @ passing_query @ '') ('' @ notPassing_query @ ''))''"

definition regressions_computeURL :: "string \<Rightarrow> string \<Rightarrow> string \<Rightarrow> string \<Rightarrow> string" where
  "regressions_computeURL origin browser channel qtext =
     results_url origin (params_set ''diff'' ''true'' (params_set ''labels'' ''master''
       (params_set ''products'' (browser @ ''[stable],'' @ browser @ ''['' @ channel @ '']'') (params_set ''q'' qtext []))))"

definition computeBrowser :: "string \<Rightarrow> string \<Rightarrow> product" where
  "computeBrowser browser channel =
     \<lparr>browser_name = browser, browser_version = None, labels = Some [channel], revision = None\<rparr>"

section \<open>What the queries select\<close>

text \<open>
  A test with one status for each browser, and the queries that are made of statuses of browsers; other
  queries select nothing.
\<close>

fun query_holds :: "(string \<Rightarrow> string) \<Rightarrow> query \<Rightarrow> bool" where
  "query_holds st (QExists qs) = list_all (query_holds st) qs"
| "query_holds st (QAnd qs) = list_all (query_holds st) qs"
| "query_holds st (QOr qs) = list_ex (query_holds st) qs"
| "query_holds st (QProductStatus p negated s) = ((st p = s) \<noteq> negated)"
| "query_holds st _ = False"

definition anomaly_tree :: "bool \<Rightarrow> string \<Rightarrow> string list \<Rightarrow> query" where
  "anomaly_tree passing browser others =
     QExists (QAnd [QProductStatus browser (\<not> passing) ''PASS'', QProductStatus browser (\<not> passing) ''OK''] #
       map (\<lambda>ob. QOr [QProductStatus ob passing ''PASS'', QProductStatus ob passing ''OK'']) others)"

text \<open>The queries for Chrome and the other default browsers.\<close>

lemma failing_parsed:
  "parseAndInterpretQuery (anomalies_computeQuery ''failing'' ''chrome'' default_others) =
     Inr (anomaly_tree False ''chrome'' default_others)"
  by code_simp

lemma passing_parsed:
  "parseAndInterpretQuery (anomalies_computeQuery ''passing'' ''chrome'' default_others) =
     Inr (anomaly_tree True ''chrome'' default_others)"
  by code_simp

lemma failing_tree:
  "query_holds st (anomaly_tree False b others) \<longleftrightarrow> \<not> isPass (st b) \<and> list_all (\<lambda>ob. isPass (st ob)) others"
  by (auto simp: anomaly_tree_def isPass_def list_all_iff)

lemma passing_tree: "\<not> query_holds st (anomaly_tree True b others)"
  by (auto simp: anomaly_tree_def)

text \<open>
  The query of the card of anomalies is accepted by the search, and it selects exactly the tests that
  Chrome does not pass and that the other browsers all pass.
\<close>

lemma failing_anomalies:
  "\<exists>q. parseAndInterpretQuery (anomalies_computeQuery ''failing'' ''chrome'' default_others) = Inr q \<and>
    (\<forall>st. query_holds st q = (\<not> isPass (st ''chrome'') \<and> list_all (\<lambda>ob. isPass (st ob)) default_others))"
  using failing_parsed failing_tree by simp

text \<open>
  The query for passing anomalies selects nothing, as it asks for a test of the browser with the status
  PASS and the status OK.
\<close>

lemma passing_anomalies_empty:
  "\<exists>q. parseAndInterpretQuery (anomalies_computeQuery ''passing'' ''chrome'' default_others) = Inr q \<and> (\<forall>st. \<not> query_holds st q)"
  using passing_parsed passing_tree by simp

end
