(* ===== verification/RunElements.thy ===== *)
theory RunElements
  imports ProductInfo JsParse JsDate JsSearchParams WptRuns
begin

text \<open>
  Small elements: \<^verbatim>\<open>test-run.js\<close>, \<^verbatim>\<open>display-logo.js\<close>, \<^verbatim>\<open>channel-picker.js\<close>, \<^verbatim>\<open>browser-picker.js\<close>,
  \<^verbatim>\<open>wpt-processor.js\<close>, \<^verbatim>\<open>wpt-header.js\<close> and \<^verbatim>\<open>github-login.js\<close>. \<open>None\<close> stands for \<open>undefined\<close>.
\<close>

section \<open>A test run\<close>

definition dateFormat :: "zone \<Rightarrow> string \<Rightarrow> string" where
  "dateFormat tz isoDate =
     (case parse_date isoDate of
        None \<Rightarrow> ''Invalid Date''
      | Some t \<Rightarrow> shortDate tz isoDate @ '', '' @ show_int (get_full_year tz t))"

text \<open>Hours with one decimal; a missing time is not a number, which is not less than 0.1.\<close>

definition hours_text :: "string \<Rightarrow> string \<Rightarrow> jsnum" where
  "hours_text a b =
     (case (parse_date a, parse_date b) of
        (Some s, Some e) \<Rightarrow> Num (of_int (e - s) / (1000 * 60 * 60))
      | _ \<Rightarrow> NaN)"

definition run_timeTaken :: "('a :: type) test_run_scheme \<Rightarrow> string" where
  "run_timeTaken r =
     (let h = hours_text (time_start r) (time_end r); oneDP = show_fixed_num 1 h
      in case h of
           Num q \<Rightarrow> if to_fixed 1 q < 1 / 10 then [] else ''(took '' @ oneDP @ ''h)''
         | _ \<Rightarrow> ''(took '' @ oneDP @ ''h)'')"

definition run_isDiff :: "string \<Rightarrow> bool" where
  "run_isDiff browserName = (to_lower browserName = ''diff'')"

definition moreTooltip :: "('a :: type) product_scheme \<Rightarrow> string" where
  "moreTooltip r =
     (if starts_with (browser_name r) ''chrome'' \<and> ''experimental'' \<in> set (case labels r of None \<Rightarrow> [] | Some ls \<Rightarrow> ls)
      then ''With --enable-experimental-web-platform-features''
      else if starts_with (browser_name r) ''firefox''
      then ''Using prefs in /testing/profiles/; some experimental features enabled'' else [])"

definition sevenCharSHA :: "string option \<Rightarrow> string option" where
  "sevenCharSHA s = map_option (take 7) s"

definition displaySource :: "('a :: type) product_scheme \<Rightarrow> string option" where
  "displaySource r =
     (case sourceName r of
        None \<Rightarrow> None
      | Some s \<Rightarrow> if s = [] then Some [] else Some (''(run on '' @ s @ '')''))"

section \<open>Logos and pickers\<close>

definition containerClass :: "bool \<Rightarrow> string" where
  "containerClass small = (if small then ''small'' else [])"

definition computeSource :: "string list option \<Rightarrow> bool \<Rightarrow> string option" where
  "computeSource ls showSource =
     (case ls of
        None \<Rightarrow> Some []
      | Some l \<Rightarrow> if \<not> showSource then Some [] else find (\<lambda>s. s \<in> set Sources) l)"

definition computePlatform :: "string \<Rightarrow> bool \<Rightarrow> string" where
  "computePlatform os showPlatform = (if \<not> showPlatform \<or> os \<notin> set Platforms then [] else os)"

definition picker_productWithChannel :: "string \<Rightarrow> string \<Rightarrow> product" where
  "picker_productWithChannel browser channel =
     \<lparr>browser_name = browser, browser_version = None, labels = Some [channel], revision = None\<rparr>"

text \<open>The names that are selected; a check box adds or removes its name.\<close>

definition productsChanged :: "product list \<Rightarrow> string list" where
  "productsChanged ps = map browser_name ps"

definition selectedChanged :: "string \<Rightarrow> bool \<Rightarrow> string list \<Rightarrow> string list" where
  "selectedChanged browser checked sel =
     (if checked then if browser \<in> set sel then sel else sel @ [browser] else filter (\<lambda>b. b \<noteq> browser) sel)"

section \<open>The processor\<close>

text \<open>A run on its way through the processor.\<close>

record pending_run = product +
  pr_id :: nat
  pr_stage :: string
  pr_error :: string

record processor =
  pc_testRuns :: "pending_run list option"
  pc_resultsLoadFailed :: bool
  pc_selectedTab :: nat
  pc_showAll :: bool
  pc_detailsOpened :: "pending_run list"
  pc_requests :: "string list"

definition pending_path :: "nat \<Rightarrow> string" where
  "pending_path tab = (if tab = 0 then ''/api/status/pending'' else ''/api/status/invalid'')"

definition loadPendingRuns :: "string \<Rightarrow> processor \<Rightarrow> processor" where
  "loadPendingRuns path p = p\<lparr>pc_resultsLoadFailed := False, pc_requests := pc_requests p @ [path]\<rparr>"

definition selectedTabChanged :: "nat \<Rightarrow> processor \<Rightarrow> processor" where
  "selectedTabChanged tab p = loadPendingRuns (pending_path tab) p"

definition set_selectedTab :: "nat \<Rightarrow> processor \<Rightarrow> processor" where
  "set_selectedTab tab p = (if pc_selectedTab p = tab then p else selectedTabChanged tab (p\<lparr>pc_selectedTab := tab\<rparr>))"

text \<open>The answer to a request, or an exception, which the handler turns into an empty list.\<close>

definition toggleAllDetails :: "bool \<Rightarrow> processor \<Rightarrow> processor" where
  "toggleAllDetails checked p =
     p\<lparr>pc_showAll := checked,
       pc_detailsOpened := (if checked then case pc_testRuns p of None \<Rightarrow> [] | Some rs \<Rightarrow> rs else [])\<rparr>"

definition pending_arrived :: "nat \<Rightarrow> pending_run list option \<Rightarrow> processor \<Rightarrow> processor" where
  "pending_arrived i answer p =
     (let p = p\<lparr>pc_requests := take i (pc_requests p) @ drop (i + 1) (pc_requests p)\<rparr>
      in case answer of
           Some rs \<Rightarrow> (if pc_showAll p then toggleAllDetails False else id) (p\<lparr>pc_testRuns := Some rs\<rparr>)
         | None \<Rightarrow> p\<lparr>pc_resultsLoadFailed := True, pc_testRuns := Some []\<rparr>)"

definition pending_product :: "pending_run \<Rightarrow> string" where
  "pending_product r = getSpec False r"

text \<open>A check box of the menu of columns: the names of the columns that are hidden.\<close>

definition toggle_column :: "string \<Rightarrow> bool \<Rightarrow> string list \<Rightarrow> string list" where
  "toggle_column header checked hidden =
     (if checked then filter (\<lambda>h. h \<noteq> header) hidden else if header \<in> set hidden then hidden else hidden @ [header])"

section \<open>The header\<close>

definition toggleMenu :: "bool \<Rightarrow> bool" where
  "toggleMenu isOpen = (\<not> isOpen)"

definition computeMenuButtonClass :: "bool \<Rightarrow> string" where
  "computeMenuButtonClass isOpen = (if isOpen then ''menu-button open'' else ''menu-button'')"

definition computeNavLinksClass :: "bool \<Rightarrow> string" where
  "computeNavLinksClass isOpen = (if isOpen then ''nav-links open'' else ''nav-links'')"

definition computeAriaLabel :: "bool \<Rightarrow> string" where
  "computeAriaLabel isOpen = (if isOpen then ''Close navigation menu'' else ''Open navigation menu'')"

text \<open>Where the buttons of the login lead, from the address of the page.\<close>

definition handleLogIn :: "string \<Rightarrow> string \<Rightarrow> string" where
  "handleLogIn origin location = origin @ ''/login'' @ search_of (params_set ''return'' location [])"

definition handleLogOut :: "string \<Rightarrow> string \<Rightarrow> string" where
  "handleLogOut origin location = origin @ ''/logout'' @ search_of (params_set ''return'' location [])"

definition computeShowTriage :: "bool option \<Rightarrow> bool" where
  "computeShowTriage isTriageMode = (isTriageMode \<noteq> None)"

section \<open>Laws\<close>

lemma selected_distinct: "distinct sel \<Longrightarrow> distinct (selectedChanged b checked sel)"
  by (simp add: selectedChanged_def)

lemma selected_set: "set (selectedChanged b checked sel) = (if checked then insert b (set sel) else set sel - {b})"
  by (auto simp: selectedChanged_def)

text \<open>The page of the login sends the user back to where he came from.\<close>

lemma login_returns: "params_get ''return'' (form_parse (drop (length origin + 6) (handleLogIn origin location))) = Some location"
proof -
  have "form_parse (''?'' @ join ''&'' [form_pair (''return'', location)]) = [(''return'', location)]"
    using form_pairs.enc_sep [of "(''return'', location)"] form_pairs.dec_enc [of "(''return'', location)"]
    by (subst form_parse_join) (simp_all add: form_pair_def)
  then show ?thesis by (simp add: handleLogIn_def search_of_def form_serialize_def params_get_def)
qed

end
