(* ===== verification/ElementHtml.thy ===== *)
theory ElementHtml
  imports RunElements JsHtml
begin

text \<open>
  The templates of the small elements: the logo of a product (\<^verbatim>\<open>display-logo.js\<close>), the pickers (\<^verbatim>\<open>browser-picker.js\<close>,
  \<^verbatim>\<open>channel-picker.js\<close>), a run (\<^verbatim>\<open>test-run.js\<close>), the login and the header of a page (\<^verbatim>\<open>github-login.js\<close>,
  \<^verbatim>\<open>wpt-header.js\<close>) and the status of the processor (\<^verbatim>\<open>wpt-processor.js\<close>). What an event does is up to the page.
\<close>

section \<open>Logos and pickers\<close>

definition text_or_empty :: "string option \<Rightarrow> string" where
  "text_or_empty s = (case s of None \<Rightarrow> [] | Some t \<Rightarrow> t)"

definition shown_name :: "string \<Rightarrow> string" where
  "shown_name s = text_or_empty (displayName (Some s))"

definition src_attr :: "string option \<Rightarrow> (string \<times> string) list" where
  "src_attr s = (case s of None \<Rightarrow> [] | Some t \<Rightarrow> [(''src'', t)])"

text \<open>A small picture beside the logo; none for an empty name.\<close>

definition side_image :: "string \<Rightarrow> string \<Rightarrow> ('c, 'e) html list" where
  "side_image cls nm =
     (if nm = [] then []
      else [Elem ''img'' [(''class'', cls), (''src'', ''/static/'' @ nm @ ''.svg''), (''alt'', nm @ '' logo'')] [] []])"

definition display_logo :: "bool \<Rightarrow> bool \<Rightarrow> bool \<Rightarrow> string \<Rightarrow> ('a :: type) product_scheme \<Rightarrow> ('c, 'e) html" where
  "display_logo small showSource showPlatform os p =
     Elem ''div'' [(''class'', ''icon '' @ containerClass small)] []
       (side_image ''platform'' (computePlatform os showPlatform) @
        [Elem ''img''
           ([(''class'', ''browser'')] @ src_attr (displayLogo (Some (browser_name p)) (labels p)) @
            [(''alt'', browser_name p @ '' '' @ (case labels p of None \<Rightarrow> [] | Some ls \<Rightarrow> join '','' ls) @ '' logo'')]) [] []] @
        side_image ''source'' (text_or_empty (computeSource (labels p) showSource)))"

definition dropdown :: "string \<Rightarrow> string \<Rightarrow> ('c, 'e) html list \<Rightarrow> ('c, 'e) html" where
  "dropdown label selected items =
     Elem ''paper-dropdown-menu'' [(''label'', label)] []
       [Elem ''paper-listbox'' [(''slot'', ''dropdown-content''), (''selected'', selected)] [] items]"

definition dropdown_item :: "(string \<Rightarrow> 'e) \<Rightarrow> string \<Rightarrow> ('c, 'e) html \<Rightarrow> ('c, 'e) html" where
  "dropdown_item pick v icon = Elem ''paper-icon-item'' [(''value'', v)] [(''click'', pick v)] [icon, Txt (shown_name v)]"

definition any_item :: "(string \<Rightarrow> 'e) \<Rightarrow> ('c, 'e) html" where
  "any_item pick = Elem ''paper-item'' [(''value'', ''any'')] [(''click'', pick ''any'')] [Txt ''Any'']"

definition browser_picker_html :: "(string \<Rightarrow> 'e) \<Rightarrow> product list \<Rightarrow> string \<Rightarrow> ('c, 'e) html" where
  "browser_picker_html pick ps browser =
     dropdown ''Browser'' browser
       (map (\<lambda>p. dropdown_item pick (browser_name p) (display_logo True False False [] p)) ps)"

definition multi_picker_html :: "(nat \<Rightarrow> 'e) \<Rightarrow> bool list \<Rightarrow> product list \<Rightarrow> ('c, 'e) html list" where
  "multi_picker_html toggle boxes ps =
     map (\<lambda>(i, p, checked).
            Elem ''paper-checkbox'' ((''value'', browser_name p) # flag_attr ''checked'' checked) [(''change'', toggle i)]
              [Elem ''div'' [] [] [display_logo True False False [] p, Txt (shown_name (browser_name p))]])
       (zip [0..<length ps] (zip ps boxes))"

definition channel_picker_html :: "(string \<Rightarrow> 'e) \<Rightarrow> string \<Rightarrow> string \<Rightarrow> string list \<Rightarrow> ('c, 'e) html" where
  "channel_picker_html pick browser channel chans =
     dropdown ''Channel'' channel
       (any_item pick #
        map (\<lambda>ch. dropdown_item pick ch (display_logo True False False [] (picker_productWithChannel browser ch))) chans)"

section \<open>A run\<close>

text \<open>The time of day in the locale is a parameter.\<close>

definition run_tooltip :: "(string \<Rightarrow> string) \<Rightarrow> test_run \<Rightarrow> ('c, 'e) html" where
  "run_tooltip timeFormat r =
     Elem ''paper-tooltip'' [(''offset'', ''0'')] []
       (if run_isDiff (browser_name r)
        then [Txt ''diff numbers are for:'', Elem ''br'' [] [] [],
              Txt ''[newly passing] / [newly failing] / [total count delta]'']
        else [Txt (shown_name (browser_name r) @ '' '' @ text_or_empty (browser_version r)), Elem ''br'' [] [] [],
              Txt (''Platform: '' @ shown_name (os_name r) @ '' '' @ text_or_empty (displaySource r)), Elem ''br'' [] [] [],
              Txt (''Labels: '' @ displayLabels (labels r)), Elem ''br'' [] [] [],
              Txt (''Started '' @ timeFormat (time_start r) @ '' '' @ run_timeTaken r), Elem ''br'' [] [] [],
              Txt (moreTooltip r)])"

definition run_lines :: "zone \<Rightarrow> test_run \<Rightarrow> ('c, 'e) html list" where
  "run_lines tz r =
     Elem ''div'' [] []
       [Txt (shown_name (browser_name r) @ '' '' @ text_or_empty (shortVersion (browser_name r) (browser_version r)))] #
     (if run_isDiff (browser_name r) then []
      else [Elem ''div'' [] [] [Txt (shown_name (os_name r) @ '' '' @ os_version r)],
            Elem ''a''
              [(''class'', ''github''),
               (''href'', ''https://github.com/web-platform-tests/wpt/commit/'' @ text_or_empty (revision r))] []
              [Elem ''img'' [(''src'', ''/static/github.svg''), (''alt'', ''GitHub logo'')] [] [],
               Txt (text_or_empty (sevenCharSHA (revision r)))],
            Elem ''div'' [] [] [Txt (dateFormat tz (time_start r))]])"

definition test_run_html :: "zone \<Rightarrow> (string \<Rightarrow> string) \<Rightarrow> bool \<Rightarrow> bool \<Rightarrow> bool \<Rightarrow> test_run \<Rightarrow> ('c, 'e) html" where
  "test_run_html tz timeFormat small showSource showPlatform r =
     Elem ''div'' [] []
       ([display_logo small showSource showPlatform (os_name r) r] @ (if small then [] else run_lines tz r) @
        [run_tooltip timeFormat r])"

section \<open>The login and the header\<close>

datatype header_click = LogIn | LogOut | TriageToggle | OpenHelp | DismissHelp | MenuToggle

definition login_html :: "string option \<Rightarrow> bool option \<Rightarrow> bool \<Rightarrow> ('c, header_click) html list" where
  "login_html user isTriageMode helpOpened =
     (let showTriage = computeShowTriage isTriageMode;
          github = Elem ''iron-icon'' [(''class'', ''github-icon''), (''src'', ''/static/github.svg'')] [] []
      in (if \<not> truthy user
          then (if showTriage
                then [Elem ''iron-icon'' [(''class'', ''help''), (''icon'', ''icons:help-outline'')] [(''click'', OpenHelp)] []] else []) @
               [Elem ''paper-button'' [(''class'', ''login-button'')] [(''click'', LogIn)] [github, Txt ''Sign in with GitHub'']]
          else [Elem ''div'' [(''class'', ''logged-in'')] []
                 ((if showTriage
                   then [Elem ''paper-toggle-button''
                           (flag_attr ''checked'' (isTriageMode = Some True) @ [(''aria-label'', ''Toggle Triage Mode'')])
                           [(''click'', TriageToggle)] [],
                         Txt ''Triage Mode'']
                   else []) @
                  [github, Txt (text_or_empty user),
                   Elem ''paper-icon-button'' [(''title'', ''Sign out''), (''icon'', ''exit-to-app'')] [(''click'', LogOut)] []])]) @
         [Elem ''paper-dialog'' ((''id'', ''dialog'') # flag_attr ''opened'' helpOpened) []
            [Elem ''h3'' [] [] [Txt ''wpt.fyi Login''],
             Elem ''div'' [] []
               [Txt ''Logging in to wpt.fyi enables users to have a customized landing page, set default configurations, and triage tests from the wpt.fyi UI ''],
             Elem ''div'' [] [] [Txt ''To enable the triage UI, toggle Triage Mode after login ''],
             Elem ''div'' [(''class'', ''buttons'')] [] [Elem ''paper-button'' [] [(''click'', DismissHelp)] [Txt ''Dismiss'']]]])"

text \<open>The links of the header; character references of the template are kept.\<close>

definition header_links :: "(string \<times> string) list" where
  "header_links =
     [(''/'', ''Latest Run''), (''/runs'', ''Recent Runs''), (''/interop'', ''&#10024;Interop 2026&#10024;''),
      (''/insights'', ''Insights''), (''/status'', ''Processor''), (''/about'', ''About'')]"

definition header_link_html :: "string \<times> string \<Rightarrow> ('c, 'e) html" where
  "header_link_html l = Elem ''a'' [(''href'', fst l)] [] [Txt (snd l)]"

definition menu_button :: "bool \<Rightarrow> ('c, header_click) html" where
  "menu_button isOpen =
     Elem ''button''
       ([(''class'', computeMenuButtonClass isOpen), (''aria-label'', computeAriaLabel isOpen)] @ flag_attr ''aria-expanded'' isOpen @
        [(''aria-controls'', ''mobile-navigation'')]) [(''click'', MenuToggle)]
       (replicate 3 (Elem ''span'' [] [] []))"

text \<open>The two logins have their dialogs of their own.\<close>

definition header_html :: "string option \<Rightarrow> bool option \<Rightarrow> bool \<Rightarrow> bool \<times> bool \<Rightarrow> ('c, header_click) html" where
  "header_html user isTriageMode isOpen helpOpened =
     Elem ''header'' [] []
       [Elem ''div'' [(''id'', ''title-area'')] []
          [Elem ''div'' [(''class'', ''logo-area'')] []
             [Elem ''h1'' [] []
               [Elem ''img'' [(''src'', ''/static/logo.svg''), (''alt'', ''wpt.fyi logo'')] [] [],
                Elem ''a'' [(''class'', ''desktop-title''), (''href'', ''/'')] [] [Txt ''web-platform-tests dashboard''],
                Elem ''a'' [(''class'', ''mobile-title''), (''href'', ''/'')] [] [Txt ''WPT dashboard'']]],
           Elem ''div'' [(''id'', ''desktop-login'')] [] (login_html user isTriageMode (fst helpOpened)),
           menu_button isOpen],
        Elem ''nav'' [] [] (map header_link_html header_links),
        Elem ''div'' [(''id'', ''mobile-navigation''), (''class'', computeNavLinksClass isOpen)] []
          (map header_link_html header_links @ login_html user isTriageMode (snd helpOpened))]"

text \<open>All events that an element can send.\<close>

fun html_events :: "('c, 'e) html \<Rightarrow> 'e list" where
  "html_events (Txt s) = []"
| "html_events (Comp c) = []"
| "html_events (Elem tag attrs handlers hs) = map snd handlers @ concat (map html_events hs)"

text \<open>Who is signed in can sign out, and nobody else; the other way round to sign in.\<close>

lemma login_offered:
  "LogIn \<in> set (concat (map html_events (login_html user isTriageMode helpOpened))) \<longleftrightarrow> \<not> truthy user"
  "LogOut \<in> set (concat (map html_events (login_html user isTriageMode helpOpened))) \<longleftrightarrow> truthy user"
  "TriageToggle \<in> set (concat (map html_events (login_html user isTriageMode helpOpened))) \<longleftrightarrow> truthy user \<and> isTriageMode \<noteq> None"
  by (cases "truthy user"; cases isTriageMode; simp add: login_html_def computeShowTriage_def Let_def)+

text \<open>A click on the button of the menu changes all that shows whether it is open.\<close>

lemma menu_follows:
  "html_attr ''class'' (menu_button (toggleMenu isOpen)) \<noteq> html_attr ''class'' (menu_button isOpen) \<and>
   html_attr ''aria-label'' (menu_button (toggleMenu isOpen)) \<noteq> html_attr ''aria-label'' (menu_button isOpen) \<and>
   (html_attr ''aria-expanded'' (menu_button isOpen) = Some [] \<longleftrightarrow> isOpen)"
  by (simp add: menu_button_def toggleMenu_def computeMenuButtonClass_def computeAriaLabel_def flag_attr_def)

section \<open>The processor\<close>

datatype processor_click = SelectTab nat | ToggleAll bool | ToggleDetails nat bool

text \<open>The columns: the title, and the text for a run; those that the server adds are a parameter.\<close>

record pending_texts =
  pt_check_run_id :: string
  pt_hash :: string
  pt_uploader :: string
  pt_created :: string
  pt_updated :: string

definition processor_columns :: "(pending_run \<Rightarrow> pending_texts) \<Rightarrow> (string \<times> (pending_run \<Rightarrow> string)) list" where
  "processor_columns texts =
     [(''ID'', \<lambda>r. show_nat (pr_id r)),
      (''GitHub Check Run'', \<lambda>r. pt_check_run_id (texts r)),
      (''Product'', pending_product),
      (''SHA'', \<lambda>r. pt_hash (texts r)),
      (''Uploader'', \<lambda>r. pt_uploader (texts r)),
      (''Created'', \<lambda>r. pt_created (texts r)),
      (''Uploaded'', \<lambda>r. pt_updated (texts r)),
      (''Stage'', pr_stage)]"

definition hidden_at_first :: "string list" where
  "hidden_at_first = [''GitHub Check Run'']"

definition shown_columns :: "(pending_run \<Rightarrow> pending_texts) \<Rightarrow> string list \<Rightarrow> (string \<times> (pending_run \<Rightarrow> string)) list" where
  "shown_columns texts hidden =
     filter (\<lambda>hf. fst hf \<notin> set hidden) (processor_columns texts)"

definition error_header :: "processor \<Rightarrow> ('c, processor_click) html" where
  "error_header p =
     Elem ''th'' [] []
       [Txt ''Show error '',
        Elem ''vaadin-checkbox'' ([(''aria-label'', ''Show all''), (''id'', ''show-all'')] @ flag_attr ''checked'' (pc_showAll p))
          [(''checked-changed'', ToggleAll (\<not> pc_showAll p))] []]"

definition error_cell :: "processor \<Rightarrow> nat \<Rightarrow> pending_run \<Rightarrow> ('c, processor_click) html" where
  "error_cell p i r =
     (let opened = (r \<in> set (pc_detailsOpened p))
      in Elem ''td'' [] []
           [Elem ''vaadin-checkbox''
              ([(''class'', ''show-details''), (''aria-label'', ''Show error for '' @ show_nat (pr_id r))] @ flag_attr ''checked'' opened)
              [(''checked-changed'', ToggleDetails i (\<not> opened))] []])"

definition pending_rows ::
  "(pending_run \<Rightarrow> pending_texts) \<Rightarrow> string list \<Rightarrow> processor \<Rightarrow> nat \<times> pending_run \<Rightarrow> ('c, processor_click) html list" where
  "pending_rows texts hidden p ir =
     Elem ''tr'' [] []
       (map (\<lambda>(h, f). Elem ''td'' [] [] [if h = ''SHA'' then Elem ''code'' [] [] [Txt (f (snd ir))] else Txt (f (snd ir))])
          (shown_columns texts hidden) @
        (if ''Show error'' \<in> set hidden then [] else [error_cell p (fst ir) (snd ir)])) #
     (if snd ir \<in> set (pc_detailsOpened p)
      then [Elem ''tr'' [(''class'', ''row-details'')] [] [Elem ''code'' [] [] [Txt (pr_error (snd ir))]]] else [])"

definition processor_table :: "(pending_run \<Rightarrow> pending_texts) \<Rightarrow> string list \<Rightarrow> processor \<Rightarrow> pending_run list \<Rightarrow> ('c, processor_click) html" where
  "processor_table texts hidden p rs =
     Elem ''vaadin-grid'' [(''aria-label'', ''Test runs'')] []
       [Elem ''thead'' [] []
          [Elem ''tr'' [] []
            (map (\<lambda>(h, f). Elem ''th'' [] [] [Txt h]) (shown_columns texts hidden) @
             (if ''Show error'' \<in> set hidden then [] else [error_header p]))],
        Elem ''tbody'' [] [] (concat (map (pending_rows texts hidden p) (zip [0..<length rs] rs)))]"

definition processor_html :: "(pending_run \<Rightarrow> pending_texts) \<Rightarrow> string list \<Rightarrow> processor \<Rightarrow> ('c, processor_click) html list" where
  "processor_html texts hidden p =
     (let rs = (case pc_testRuns p of None \<Rightarrow> [] | Some rs \<Rightarrow> rs)
      in [Elem ''paper-tabs'' [(''selected'', show_nat (pc_selectedTab p))] []
            [Elem ''paper-tab'' [] [(''click'', SelectTab 0)] [Txt ''Pending runs''],
             Elem ''paper-tab'' [] [(''click'', SelectTab 1)] [Txt ''Invalid runs'']]] @
         (if rs \<noteq> []
          then [Elem ''div'' [(''id'', ''before-grid'')] []
                  [Elem ''p'' [] [] [Txt ''Note: timestamps are displayed in your local timezone.'']],
                processor_table texts hidden p rs]
          else [Elem ''div'' [] [] [Txt ''No runs found.'']]) @
         (if pc_resultsLoadFailed p then [Elem ''div'' [] [] [Txt ''Failed to load runs.'']] else []) @
         [Elem ''div'' [(''class'', ''loading'')] []
            [Elem ''paper-spinner-lite'' (flag_attr ''active'' (pc_requests p \<noteq> []) @ [(''class'', ''blue'')]) [] []]])"

text \<open>Every row of runs has a cell for each title, whatever columns are hidden.\<close>

lemma processor_rows:
  "r \<in> set (table_rows (processor_table texts hidden p rs)) \<Longrightarrow> html_attr ''class'' r = None \<Longrightarrow>
     length (html_children r) = length (html_children (hd (table_rows (processor_table texts hidden p rs))))"
  by (auto simp: table_rows_def processor_table_def pending_rows_def)

text \<open>
  An answer that comes late: the runs that wait are shown under the tab of invalid runs when their answer arrives after the
  one for the invalid runs.
\<close>

lemma overtaken_tab:
  assumes "pc_requests p = [pending_path 0]" and "pc_selectedTab p = 0" and "\<not> pc_showAll p"
  shows "pc_testRuns (pending_arrived 0 (Some waiting) (pending_arrived 1 (Some bad) (set_selectedTab 1 p))) = Some waiting \<and>
    pc_selectedTab (pending_arrived 0 (Some waiting) (pending_arrived 1 (Some bad) (set_selectedTab 1 p))) = 1"
  using assms by (simp add: pending_arrived_def set_selectedTab_def selectedTabChanged_def loadPendingRuns_def toggleAllDetails_def Let_def)

end
