(* ===== verification/InsightsPage.thy ===== *)
theory InsightsPage
  imports Insights ElementHtml
begin

text \<open>
  The page of insights as it is used: the state of the three cards of \<^verbatim>\<open>webapp/components/wpt-insights.js\<close>, the choices
  in their pickers (\<^verbatim>\<open>browser-picker.js\<close> and \<^verbatim>\<open>channel-picker.js\<close>) and the templates.
\<close>

section \<open>The cards\<close>

text \<open>
  The card of anomalies. The boxes are the check boxes of the other browsers, in the order of the products that are
  offered; the query, the names and the address are computed when a property that they depend on is assigned.
\<close>

record anomalies_card =
  an_browser :: string
  an_type :: string
  an_boxes :: "bool list"
  an_others :: "string list"
  an_query :: string
  an_names :: string
  an_url :: string

record insights_page =
  ip_anomalies :: anomalies_card
  ip_flakes :: string
  ip_release :: string
  ip_channel :: string

definition others_offered :: "string \<Rightarrow> product list" where
  "others_offered browser = concat (map (\<lambda>p. case p of Inl e \<Rightarrow> [] | Inr q \<Rightarrow> [q]) (allProductsExcept browser))"

definition compute_query :: "string \<Rightarrow> anomalies_card \<Rightarrow> anomalies_card" where
  "compute_query origin c =
     (let qtext = anomalies_computeQuery (an_type c) (an_browser c) (an_others c)
      in c\<lparr>an_query := qtext, an_url := anomalies_computeURL origin qtext (an_browser c) (an_others c)\<rparr>)"

definition set_others :: "string \<Rightarrow> string list \<Rightarrow> anomalies_card \<Rightarrow> anomalies_card" where
  "set_others origin os c = (compute_query origin (c\<lparr>an_others := os\<rparr>))\<lparr>an_names := computeOthersDisplayNames os\<rparr>"

text \<open>
  A browser is picked: the other browsers are offered, and all of them are selected. The check boxes are those that are
  there, which keep what they show.
\<close>

definition anomalies_pick :: "string \<Rightarrow> string \<Rightarrow> anomalies_card \<Rightarrow> anomalies_card" where
  "anomalies_pick origin browser c =
     (if browser = an_browser c then c
      else (let ps = others_offered browser; n = length ps
            in set_others origin (productsChanged ps)
                 (c\<lparr>an_browser := browser, an_boxes := take n (an_boxes c) @ replicate (n - length (an_boxes c)) True\<rparr>)))"

text \<open>
  A click on a check box. A name that is added is spliced into the array, which assigns no property; without its name
  the array is a new one.
\<close>

definition anomalies_toggle :: "string \<Rightarrow> nat \<Rightarrow> anomalies_card \<Rightarrow> anomalies_card" where
  "anomalies_toggle origin i c =
     (if i < length (an_boxes c) \<and> i < length (others_offered (an_browser c))
      then (let checked = (\<not> an_boxes c ! i);
                os = selectedChanged (browser_name (others_offered (an_browser c) ! i)) checked (an_others c);
                c = c\<lparr>an_boxes := (an_boxes c)[i := checked]\<rparr>
            in if checked then c\<lparr>an_others := os\<rparr> else set_others origin os c)
      else c)"

definition anomalies_select :: "string \<Rightarrow> string \<Rightarrow> anomalies_card \<Rightarrow> anomalies_card" where
  "anomalies_select origin t c = (if t = an_type c then c else compute_query origin (c\<lparr>an_type := t\<rparr>))"

definition new_anomalies :: "string \<Rightarrow> anomalies_card" where
  "new_anomalies origin =
     (let ps = others_offered (hd DefaultBrowserNames)
      in set_others origin (productsChanged ps)
           \<lparr>an_browser = hd DefaultBrowserNames, an_type = ''failing'', an_boxes = replicate (length ps) True, an_others = [],
            an_query = [], an_names = [], an_url = []\<rparr>)"

definition new_insights :: "string \<Rightarrow> insights_page" where
  "new_insights origin =
     \<lparr>ip_anomalies = new_anomalies origin, ip_flakes = hd DefaultBrowserNames, ip_release = hd DefaultBrowserNames,
      ip_channel = ''beta''\<rparr>"

datatype insights_event =
  PickAnomaly string | ToggleOther nat | PickType string | PickFlakes string | PickRelease string | PickChannel string

fun insights_handle :: "string \<Rightarrow> insights_event \<Rightarrow> insights_page \<Rightarrow> insights_page" where
  "insights_handle origin (PickAnomaly b) p = p\<lparr>ip_anomalies := anomalies_pick origin b (ip_anomalies p)\<rparr>"
| "insights_handle origin (ToggleOther i) p = p\<lparr>ip_anomalies := anomalies_toggle origin i (ip_anomalies p)\<rparr>"
| "insights_handle origin (PickType t) p = p\<lparr>ip_anomalies := anomalies_select origin t (ip_anomalies p)\<rparr>"
| "insights_handle origin (PickFlakes b) p = p\<lparr>ip_flakes := b\<rparr>"
| "insights_handle origin (PickRelease b) p = p\<lparr>ip_release := b\<rparr>"
| "insights_handle origin (PickChannel c) p = p\<lparr>ip_channel := c\<rparr>"

section \<open>The templates\<close>

type_synonym insights_element = "(unit, insights_event) html"

definition all_products :: "product list" where
  "all_products = concat (map (\<lambda>p. case p of Inl e \<Rightarrow> [] | Inr q \<Rightarrow> [q]) AllProducts)"

definition query_banner :: "string \<Rightarrow> string \<Rightarrow> insights_element" where
  "query_banner url qtext = Elem ''info-banner'' [] [] [Elem ''a'' [(''class'', ''query''), (''href'', url)] [] [Txt qtext]]"

definition insights_card :: "string \<Rightarrow> insights_element list \<Rightarrow> insights_element" where
  "insights_card title hs =
     Elem ''paper-card'' [] [] [Elem ''div'' [(''class'', ''card-content'')] [] (Elem ''h3'' [] [] [Txt title] # hs)]"

definition flakes_html :: "string \<Rightarrow> string \<Rightarrow> insights_element" where
  "flakes_html origin browser =
     insights_card ''Flakes''
       [browser_picker_html PickFlakes all_products browser,
        query_banner (flakes_computeURL origin browser flakes_computeQuery) flakes_computeQuery,
        Elem ''p'' [] [] [Txt (''Tests that have both passing and non-passing results in the last 10 '' @ shown_name browser @ '' runs'')]]"

definition anomalies_html :: "anomalies_card \<Rightarrow> insights_element" where
  "anomalies_html c =
     insights_card ''Anomalies''
       [Elem ''div'' [] [] ([browser_picker_html PickAnomaly all_products (an_browser c), Txt '' vs ''] @
          multi_picker_html ToggleOther (an_boxes c) (others_offered (an_browser c))),
        Txt (''where '' @ shown_name (an_browser c) @ '' is the only one''),
        Elem ''paper-radio-group'' [(''selected'', an_type c)] []
          [Elem ''paper-radio-button'' [(''name'', ''failing'')] [(''click'', PickType ''failing'')] [Txt ''Failing''],
           Elem ''paper-radio-button'' [(''name'', ''passing'')] [(''click'', PickType ''passing'')] [Txt ''Passing'']],
        query_banner (an_url c) (an_query c),
        Elem ''p'' [] []
          [Txt (''Tests that are failing in '' @ shown_name (an_browser c) @ '', but passing in the other browsers ('' @ an_names c @ '')'')]]"

definition regressions_html :: "string \<Rightarrow> string \<Rightarrow> string \<Rightarrow> insights_element" where
  "regressions_html origin browser channel =
     insights_card ''Release Regressions''
       [Elem ''div'' [(''class'', ''wrapper'')] []
          [browser_picker_html PickRelease all_products browser,
           channel_picker_html PickChannel browser channel [''beta'', ''experimental''],
           display_logo False False False [] (computeBrowser browser channel), Txt '' vs '',
           display_logo False False False [] (computeBrowser browser ''stable'')],
        query_banner (regressions_computeURL origin browser channel regressions_computeQuery) regressions_computeQuery,
        Elem ''p'' [] []
          [Txt (''Tests that are passing in the latest stable '' @ shown_name browser @ '' release, but not passing in the latest '' @
             channel @ '' run.'')]]"

definition insights_html :: "string \<Rightarrow> insights_page \<Rightarrow> insights_element list" where
  "insights_html origin p =
     [anomalies_html (ip_anomalies p), flakes_html origin (ip_flakes p), regressions_html origin (ip_release p) (ip_channel p)]"

section \<open>What a session shows\<close>

text \<open>The choices that the pickers offer.\<close>

fun offered :: "insights_event \<Rightarrow> insights_page \<Rightarrow> bool" where
  "offered (PickAnomaly b) p \<longleftrightarrow> b \<in> set AllBrowserNames"
| "offered (PickType t) p \<longleftrightarrow> t \<in> {''failing'', ''passing''}"
| "offered _ p \<longleftrightarrow> True"

text \<open>Choices that check no box again.\<close>

fun no_recheck :: "insights_event \<Rightarrow> insights_page \<Rightarrow> bool" where
  "no_recheck (ToggleOther i) p \<longleftrightarrow> (i < length (an_boxes (ip_anomalies p)) \<longrightarrow> an_boxes (ip_anomalies p) ! i)"
| "no_recheck e p \<longleftrightarrow> offered e p"

inductive insights_session :: "(insights_event \<Rightarrow> insights_page \<Rightarrow> bool) \<Rightarrow> string \<Rightarrow> insights_page \<Rightarrow> bool"
  for allowed origin where
  opened: "insights_session allowed origin (new_insights origin)"
| chosen: "insights_session allowed origin p \<Longrightarrow> allowed e p \<Longrightarrow> insights_session allowed origin (insights_handle origin e p)"

lemma parsed_products: "AllProducts = map (\<lambda>b. Inr \<lparr>browser_name = b, browser_version = None, labels = Some [], revision = Some []\<rparr>) AllBrowserNames"
  by code_simp

lemma offered_names: "map browser_name (others_offered b) = filter (\<lambda>n. n \<noteq> b) AllBrowserNames"
proof -
  have "map browser_name (concat (map (\<lambda>p. case p of Inl e \<Rightarrow> [] | Inr q \<Rightarrow> [q])
      (filter (\<lambda>p. case p of Inr q \<Rightarrow> browser_name q \<noteq> b | Inl _ \<Rightarrow> True)
        (map (\<lambda>b. Inr \<lparr>browser_name = b, browser_version = None, labels = Some [], revision = Some []\<rparr>) bs)))) =
    filter (\<lambda>n. n \<noteq> b) bs" for bs
    by (induction bs) simp_all
  then show ?thesis by (simp add: others_offered_def allProductsExcept_def parsed_products)
qed

text \<open>The other browsers are known ones, each at most once, and never the browser itself.\<close>

definition others_ok :: "anomalies_card \<Rightarrow> bool" where
  "others_ok c \<longleftrightarrow> distinct (an_others c) \<and> set (an_others c) \<subseteq> set AllBrowserNames - {an_browser c}"

text \<open>What is shown is what the browsers and the kind of anomaly make.\<close>

definition card_fresh :: "string \<Rightarrow> anomalies_card \<Rightarrow> bool" where
  "card_fresh origin c \<longleftrightarrow>
     an_query c = anomalies_computeQuery (an_type c) (an_browser c) (an_others c) \<and>
     an_url c = anomalies_computeURL origin (an_query c) (an_browser c) (an_others c) \<and>
     an_names c = computeOthersDisplayNames (an_others c)"

lemma distinct_browsers: "distinct AllBrowserNames"
  by code_simp

lemma others_offered_ok: "others_ok (c\<lparr>an_others := productsChanged (others_offered (an_browser c))\<rparr>)"
  by (auto simp: others_ok_def productsChanged_def offered_names distinct_browsers)

lemma compute_query_simps [simp]:
  "an_others (compute_query origin c) = an_others c" "an_browser (compute_query origin c) = an_browser c"
  "an_names (compute_query origin c) = an_names c" "an_boxes (compute_query origin c) = an_boxes c"
  by (simp_all add: compute_query_def Let_def)

lemma set_others_simps [simp]:
  "an_others (set_others origin os c) = os" "an_browser (set_others origin os c) = an_browser c"
  "an_boxes (set_others origin os c) = an_boxes c"
  by (simp_all add: set_others_def)

lemma set_others_fresh: "card_fresh origin (set_others origin os c)"
  by (simp add: card_fresh_def set_others_def compute_query_def Let_def)

lemma toggled_name: "i < length (others_offered b) \<Longrightarrow> browser_name (others_offered b ! i) \<in> set AllBrowserNames - {b}"
proof -
  assume i: "i < length (others_offered b)"
  then have "browser_name (others_offered b ! i) \<in> set (map browser_name (others_offered b))" by simp
  then show ?thesis unfolding offered_names by simp
qed

lemma others_ok_handle: "others_ok (ip_anomalies p) \<Longrightarrow> others_ok (ip_anomalies (insights_handle origin e p))"
proof (cases e)
  case (PickAnomaly b)
  assume "others_ok (ip_anomalies p)"
  then show ?thesis
    using PickAnomaly others_offered_ok [of "(ip_anomalies p)\<lparr>an_browser := b\<rparr>"]
    by (simp add: anomalies_pick_def others_ok_def Let_def)
next
  case (ToggleOther i)
  assume "others_ok (ip_anomalies p)"
  then show ?thesis
    using ToggleOther toggled_name [of i "an_browser (ip_anomalies p)"]
    by (auto simp: anomalies_toggle_def others_ok_def Let_def selected_distinct selected_set)
qed (simp_all add: others_ok_def anomalies_select_def)

lemma fresh_handle:
  "card_fresh origin (ip_anomalies p) \<Longrightarrow> no_recheck e p \<Longrightarrow> card_fresh origin (ip_anomalies (insights_handle origin e p))"
proof (cases e)
  case (ToggleOther i)
  assume "card_fresh origin (ip_anomalies p)" "no_recheck e p"
  then show ?thesis using ToggleOther set_others_fresh by (simp add: anomalies_toggle_def Let_def)
qed (simp_all add: anomalies_pick_def anomalies_select_def set_others_fresh Let_def,
    simp add: card_fresh_def compute_query_def Let_def)

lemma session_others: "insights_session allowed origin p \<Longrightarrow> others_ok (ip_anomalies p)"
proof (induction rule: insights_session.induct)
  case opened
  show ?case using others_offered_ok [of "\<lparr>an_browser = hd DefaultBrowserNames, an_type = [], an_boxes = [], an_others = [],
      an_query = [], an_names = [], an_url = []\<rparr>"]
    by (simp add: new_insights_def new_anomalies_def Let_def others_ok_def)
qed (rule others_ok_handle)

lemma session_fresh: "insights_session no_recheck origin p \<Longrightarrow> card_fresh origin (ip_anomalies p)"
proof (induction rule: insights_session.induct)
  case opened
  then show ?case by (simp add: new_insights_def new_anomalies_def Let_def set_others_fresh)
qed (rule fresh_handle)

text \<open>A box that is checked again: its browser is selected, and the query and the address are those without it.\<close>

lemma rechecked_box:
  assumes "i < length (an_boxes c)" and "i < length (others_offered (an_browser c))" and "\<not> an_boxes c ! i"
  shows "browser_name (others_offered (an_browser c) ! i) \<in> set (an_others (anomalies_toggle origin i c)) \<and>
    an_query (anomalies_toggle origin i c) = an_query c \<and> an_url (anomalies_toggle origin i c) = an_url c"
  using assms by (simp add: anomalies_toggle_def Let_def selected_set)

text \<open>A box that was unchecked shows so for the next browser too, all of whose others are selected.\<close>

lemma box_kept:
  assumes "i < length (an_boxes c)" and "i < length (others_offered b)" and "b \<noteq> an_browser c"
  shows "an_boxes (anomalies_pick origin b c) ! i = an_boxes c ! i \<and>
    browser_name (others_offered b ! i) \<in> set (an_others (anomalies_pick origin b c))"
  using assms by (simp add: anomalies_pick_def Let_def productsChanged_def nth_append)

text \<open>
  Choices that uncheck boxes, and pick another browser only while all boxes are checked: the browsers that are selected are
  those of the checked boxes, and the card links to the query that is made of them.
\<close>

fun plain_choice :: "insights_event \<Rightarrow> insights_page \<Rightarrow> bool" where
  "plain_choice (PickAnomaly b) p \<longleftrightarrow> b \<in> set AllBrowserNames \<and> list_all id (an_boxes (ip_anomalies p))"
| "plain_choice e p \<longleftrightarrow> no_recheck e p"

definition checked_names :: "anomalies_card \<Rightarrow> string list" where
  "checked_names c = map fst (filter snd (zip (map browser_name (others_offered (an_browser c))) (an_boxes c)))"

definition boxes_ok :: "anomalies_card \<Rightarrow> bool" where
  "boxes_ok c \<longleftrightarrow>
     an_browser c \<in> set AllBrowserNames \<and> length (an_boxes c) = length (others_offered (an_browser c)) \<and>
     an_others c = checked_names c"

lemma offered_count: "b \<in> set AllBrowserNames \<Longrightarrow> length (others_offered b) = length AllBrowserNames - 1"
proof -
  assume "b \<in> set AllBrowserNames"
  moreover have "\<forall>b \<in> set AllBrowserNames. length (filter (\<lambda>n. n \<noteq> b) AllBrowserNames) = length AllBrowserNames - 1" by code_simp
  ultimately show ?thesis using offered_names [of b] by (metis length_map)
qed

lemma all_checked: "length bs = length xs \<Longrightarrow> list_all id bs \<Longrightarrow> map fst (filter snd (zip xs bs)) = xs"
  by (induction xs bs rule: list_induct2') auto

lemma uncheck_one:
  "distinct xs \<Longrightarrow> length bs = length xs \<Longrightarrow> i < length xs \<Longrightarrow>
     map fst (filter snd (zip xs (bs[i := False]))) = filter (\<lambda>x. x \<noteq> xs ! i) (map fst (filter snd (zip xs bs)))"
proof (induction xs arbitrary: bs i)
  case (Cons x xs)
  then obtain b bs' where bs: "bs = b # bs'" by (cases bs) auto
  have out: "\<forall>y \<in> set (map fst (filter snd (zip xs bs'))). y \<noteq> x" using Cons.prems(1) by (auto dest: set_zip_leftD)
  show ?case
  proof (cases i)
    case 0
    then show ?thesis using out by (simp add: bs)
  next
    case (Suc j)
    then have "x \<noteq> xs ! j" using Cons.prems by auto
    then show ?thesis using Cons Suc by (simp add: bs)
  qed
qed simp

lemma boxes_ok_handle:
  assumes "boxes_ok (ip_anomalies p)" and "plain_choice e p"
  shows "boxes_ok (ip_anomalies (insights_handle origin e p))"
proof (cases e)
  case (PickAnomaly b)
  then show ?thesis
    using assms offered_count all_checked [of "an_boxes (ip_anomalies p)" "map browser_name (others_offered b)"]
    by (simp add: boxes_ok_def checked_names_def anomalies_pick_def productsChanged_def Let_def)
next
  case (ToggleOther i)
  let ?c = "ip_anomalies p"
  have d: "distinct (map browser_name (others_offered (an_browser ?c)))" by (simp add: offered_names distinct_browsers)
  show ?thesis
    using assms ToggleOther uncheck_one [OF d, of "an_boxes ?c" i]
    by (simp add: boxes_ok_def checked_names_def anomalies_toggle_def selectedChanged_def Let_def)
qed (use assms in \<open>simp_all add: boxes_ok_def checked_names_def anomalies_select_def\<close>)

lemma plain_fresh: "plain_choice e p \<Longrightarrow> no_recheck e p"
  by (cases e) auto

lemma anomalies_shown:
  assumes "insights_session plain_choice origin p" and "c = ip_anomalies p"
    and "qtext = anomalies_computeQuery (an_type c) (an_browser c) (checked_names c)"
  shows "query_banner (anomalies_computeURL origin qtext (an_browser c) (checked_names c)) qtext
    \<in> set (html_children (hd (html_children (anomalies_html c))))"
proof -
  from assms(1) have "boxes_ok (ip_anomalies p) \<and> card_fresh origin (ip_anomalies p)"
  proof (induction rule: insights_session.induct)
    case opened
    have "hd DefaultBrowserNames \<in> set AllBrowserNames" by code_simp
    then show ?case
      by (simp add: new_insights_def new_anomalies_def Let_def set_others_fresh boxes_ok_def checked_names_def productsChanged_def
          all_checked list_all_length)
  next
    case (chosen p e)
    then show ?case by (blast intro: boxes_ok_handle fresh_handle plain_fresh)
  qed
  then show ?thesis
    by (simp add: assms(2,3) card_fresh_def boxes_ok_def anomalies_html_def insights_card_def)
qed

end
