(* ===== verification/HistoryTimeline.thy ===== *)
theory HistoryTimeline
  imports PathNav JsDate
begin

text \<open>
  \<^verbatim>\<open>webapp/components/test-results-history-timeline.js\<close>: the history of a test, one chart for each browser.
  A chart of Google Charts is its rows, its height and what is selected; the text of a date in the locale of the
  user is a parameter. \<open>None\<close> is an invalid date, or an exception where a definition says so.
\<close>

section \<open>State\<close>

datatype status_color = PassColor | FailColor | NeutralColor

definition COLOR_MAPPING :: "(string \<times> status_color) list" where
  "COLOR_MAPPING =
     [(''OK'', PassColor), (''PASS'', PassColor), (''CRASHED'', FailColor), (''ERROR'', FailColor), (''FAIL'', FailColor),
      (''NOTRUN'', FailColor), (''PRECONDITION_FAILED'', FailColor), (''TIMEOUT'', FailColor), (''MISSING'', NeutralColor),
      (''SKIPPED'', NeutralColor), (''default'', NeutralColor)]"

definition statusColor :: "string \<Rightarrow> status_color" where
  "statusColor s = (case map_of COLOR_MAPPING s of None \<Rightarrow> NeutralColor | Some c \<Rightarrow> c)"

definition BROWSER_NAMES :: "string list" where
  "BROWSER_NAMES = [''chrome'', ''edge'', ''firefox'', ''safari'']"

record history_point =
  hp_date :: string
  hp_status :: string
  hp_run_id :: nat

type_synonym browser_history = "history_point list obj"

record timeline_row =
  tr_name :: string
  tr_status :: string
  tr_color :: status_color
  tr_tooltip :: string
  tr_start :: "int option"
  tr_end :: "int option"

text \<open>A browser without data is left alone; no rows show a message in place of a chart.\<close>

datatype timeline_chart = NoChart | NoData | Drawn "timeline_row list" nat

record timeline =
  tl_path :: "string option"
  tl_showTestHistory :: bool
  tl_subtestNames :: "string list option"
  tl_historicalData :: "browser_history obj option"
  tl_lastProcessed :: "string option"
  tl_charts :: "timeline_chart list"
  tl_chartRunIDs :: "nat list list"
  tl_resizeListeners :: "string list option list"

section \<open>A chart\<close>

text \<open>The history ends an hour after the last run that was processed, or now.\<close>

definition defaultEndDate :: "int \<Rightarrow> string option \<Rightarrow> int" where
  "defaultEndDate now lastProcessed =
     (if \<not> truthy lastProcessed then now
      else (case parse_date (the lastProcessed) of None \<Rightarrow> now | Some t \<Rightarrow> t + 60 * 60 * 1000))"

definition subtestDisplayName :: "string list \<Rightarrow> string \<Rightarrow> string" where
  "subtestDisplayName names nm =
     (if nm = [] then if length names > 1 then ''Harness status'' else ''Test status'' else nm)"

definition timeline_row ::
  "(int option \<Rightarrow> string) \<Rightarrow> int \<Rightarrow> string list \<Rightarrow> string \<Rightarrow> history_point \<Rightarrow> history_point option \<Rightarrow> timeline_row" where
  "timeline_row fmt endDate names nm p nxt =
     (let start = parse_date (hp_date p);
          stop = (case nxt of None \<Rightarrow> Some endDate | Some q \<Rightarrow> parse_date (hp_date q))
      in \<lparr>tr_name = subtestDisplayName names nm, tr_status = hp_status p, tr_color = statusColor (hp_status p),
          tr_tooltip = hp_status p @ '' '' @ fmt start @ ''-'' @ fmt stop, tr_start = start, tr_end = stop\<rparr>)"

text \<open>The rows of a subtest with the run of each, from the \<open>i\<close>th point on.\<close>

fun subtest_rows ::
  "(int option \<Rightarrow> string) \<Rightarrow> int \<Rightarrow> string list \<Rightarrow> string \<Rightarrow> history_point list \<Rightarrow> (timeline_row \<times> nat) list" where
  "subtest_rows fmt endDate names nm [] = []"
| "subtest_rows fmt endDate names nm (p # ps) =
     (timeline_row fmt endDate names nm p (case ps of [] \<Rightarrow> None | q # _ \<Rightarrow> Some q), hp_run_id p) #
     subtest_rows fmt endDate names nm ps"

definition chart_entries ::
  "(int option \<Rightarrow> string) \<Rightarrow> int \<Rightarrow> string list \<Rightarrow> browser_history \<Rightarrow> (timeline_row \<times> nat) list" where
  "chart_entries fmt endDate names dat =
     concat (map (\<lambda>nm. case obj_get dat nm of None \<Rightarrow> [] | Some ps \<Rightarrow> subtest_rows fmt endDate names nm ps) names)"

definition getChartHeight :: "nat \<Rightarrow> nat" where
  "getChartHeight n = (if n \<le> 30 then n * 41 + 50 else 20 * 41 + 50)"

text \<open>The height needs the names of the element; without them there is an exception.\<close>

definition timeline_updateChart ::
  "(int option \<Rightarrow> string) \<Rightarrow> int \<Rightarrow> browser_history option \<Rightarrow> nat \<Rightarrow> string list option \<Rightarrow> timeline \<Rightarrow> timeline option" where
  "timeline_updateChart fmt now dat i names t =
     (case (dat, names) of
        (Some d, Some ns) \<Rightarrow>
          (let es = chart_entries fmt (defaultEndDate now (tl_lastProcessed t)) ns d
           in case tl_subtestNames t of
                None \<Rightarrow> None
              | Some own \<Rightarrow>
                  Some (t\<lparr>tl_chartRunIDs := (tl_chartRunIDs t)[i := map snd es],
                          tl_charts := (tl_charts t)[i := if es = [] then NoData
                            else Drawn (map fst es) (getChartHeight (length own))]\<rparr>))
      | _ \<Rightarrow> Some t)"

text \<open>All four charts; history that has not been fetched is an exception.\<close>

definition updateAllCharts ::
  "(int option \<Rightarrow> string) \<Rightarrow> int \<Rightarrow> string list option \<Rightarrow> timeline \<Rightarrow> timeline option" where
  "updateAllCharts fmt now names t =
     (case tl_historicalData t of
        None \<Rightarrow> None
      | Some h \<Rightarrow>
          foldl (\<lambda>acc (i, b). Option.bind acc (timeline_updateChart fmt now (obj_get h b) i names))
            (Some (t\<lparr>tl_charts := replicate 4 NoChart, tl_chartRunIDs := replicate 4 []\<rparr>)) (enumerate 0 BROWSER_NAMES))"

section \<open>Events\<close>

text \<open>The answer of the server: results by browser, and when the last run was processed.\<close>

definition getTestHistory :: "browser_history obj \<times> string option \<Rightarrow> timeline \<Rightarrow> timeline" where
  "getTestHistory answer t = t\<lparr>tl_historicalData := Some (fst answer), tl_lastProcessed := snd answer\<rparr>"

definition history_request :: "string \<Rightarrow> timeline \<Rightarrow> timeline" where
  "history_request path t =
     t\<lparr>tl_historicalData := (if tl_historicalData t = None then None else Some []), tl_lastProcessed := None\<rparr>"

text \<open>Whether the charts are shown: the listener stays, and so do the names it was made with.\<close>

definition displayCharts :: "string \<Rightarrow> timeline \<Rightarrow> timeline" where
  "displayCharts base t =
     (if \<not> truthy (tl_path t) \<or> \<not> tl_showTestHistory t \<or> \<not> computePathIsATestFile base (tl_path t) then t
      else (history_request (the (tl_path t)) t)\<lparr>tl_resizeListeners := tl_resizeListeners t @ [tl_subtestNames t]\<rparr>)"

definition history_arrived ::
  "(int option \<Rightarrow> string) \<Rightarrow> int \<Rightarrow> browser_history obj \<times> string option \<Rightarrow> string list option \<Rightarrow> timeline \<Rightarrow> timeline option" where
  "history_arrived fmt now answer names t = updateAllCharts fmt now names (getTestHistory answer t)"

definition resized :: "(int option \<Rightarrow> string) \<Rightarrow> int \<Rightarrow> timeline \<Rightarrow> timeline option" where
  "resized fmt now t = foldl (\<lambda>acc names. Option.bind acc (updateAllCharts fmt now names)) (Some t) (tl_resizeListeners t)"

text \<open>A click on a row opens its run; \<open>None\<close> opens nothing.\<close>

definition statusSelectHandler :: "nat \<Rightarrow> nat list \<Rightarrow> timeline \<Rightarrow> string option" where
  "statusSelectHandler chartIndex selection t =
     (case selection of
        [] \<Rightarrow> None
      | row # _ \<Rightarrow>
          (let ids = tl_chartRunIDs t ! chartIndex
           in if row < length ids
              then Some (''/results'' @ (case tl_path t of None \<Rightarrow> ''undefined'' | Some p \<Rightarrow> p) @ ''?run_id='' @ show_nat (ids ! row))
              else None))"

section \<open>What is drawn\<close>

text \<open>The points of the history in the order of the chart, with their subtest.\<close>

definition timeline_points :: "string list \<Rightarrow> browser_history \<Rightarrow> (string \<times> history_point) list" where
  "timeline_points names dat =
     concat (map (\<lambda>nm. map (Pair nm) (case obj_get dat nm of None \<Rightarrow> [] | Some ps \<Rightarrow> ps)) names)"

definition row_shows :: "string list \<Rightarrow> timeline_row \<Rightarrow> string \<times> history_point \<Rightarrow> bool" where
  "row_shows names r np \<longleftrightarrow>
     tr_name r = subtestDisplayName names (fst np) \<and> tr_status r = hp_status (snd np) \<and>
     tr_start r = parse_date (hp_date (snd np))"

lemma subtest_rows_show:
  "list_all2 (\<lambda>e np. row_shows names (fst e) np \<and> snd e = hp_run_id (snd np)) (subtest_rows fmt endDate names nm ps) (map (Pair nm) ps)"
  by (induction ps) (auto simp: row_shows_def timeline_row_def Let_def)

lemma list_all2_concat_map:
  "(\<And>x. x \<in> set xs \<Longrightarrow> list_all2 P (f x) (g x)) \<Longrightarrow> list_all2 P (concat (map f xs)) (concat (map g xs))"
  by (induction xs) (auto intro: list_all2_appendI)

lemma chart_entries_show:
  "list_all2 (\<lambda>e np. row_shows names (fst e) np \<and> snd e = hp_run_id (snd np))
     (chart_entries fmt endDate names dat) (timeline_points names dat)"
  unfolding chart_entries_def timeline_points_def
  by (rule list_all2_concat_map) (auto split: option.splits simp: subtest_rows_show)

definition browser_entries :: "(int option \<Rightarrow> string) \<Rightarrow> int \<Rightarrow> string list \<Rightarrow> timeline \<Rightarrow> string \<Rightarrow> (timeline_row \<times> nat) list" where
  "browser_entries fmt now ns t b =
     (case obj_get (the (tl_historicalData t)) b of
        None \<Rightarrow> []
      | Some d \<Rightarrow> chart_entries fmt (defaultEndDate now (tl_lastProcessed t)) ns d)"

definition browser_chart :: "(int option \<Rightarrow> string) \<Rightarrow> int \<Rightarrow> string list \<Rightarrow> nat \<Rightarrow> timeline \<Rightarrow> string \<Rightarrow> timeline_chart" where
  "browser_chart fmt now ns n t b =
     (if obj_get (the (tl_historicalData t)) b = None then NoChart
      else if browser_entries fmt now ns t b = [] then NoData
      else Drawn (map fst (browser_entries fmt now ns t b)) (getChartHeight n))"

lemma browser_update:
  assumes "tl_historicalData t = Some h" and "tl_subtestNames t = Some own"
    and "length cs = i" and "length is = i"
  shows "timeline_updateChart fmt now (obj_get h b) i (Some ns) (t\<lparr>tl_charts := cs @ NoChart # cs', tl_chartRunIDs := is @ [] # is'\<rparr>) =
    Some (t\<lparr>tl_charts := cs @ browser_chart fmt now ns (length own) t b # cs',
            tl_chartRunIDs := is @ map snd (browser_entries fmt now ns t b) # is'\<rparr>)"
  using assms by (cases "obj_get h b")
    (simp_all add: timeline_updateChart_def browser_chart_def browser_entries_def Let_def list_update_append)

lemma browsers_update:
  assumes "tl_historicalData t = Some h" and "tl_subtestNames t = Some own"
  shows "length cs = i \<Longrightarrow> length is = i \<Longrightarrow>
    foldl (\<lambda>acc (i, b). Option.bind acc (timeline_updateChart fmt now (obj_get h b) i (Some ns)))
      (Some (t\<lparr>tl_charts := cs @ replicate (length bs) NoChart, tl_chartRunIDs := is @ replicate (length bs) []\<rparr>)) (enumerate i bs) =
    Some (t\<lparr>tl_charts := cs @ map (browser_chart fmt now ns (length own) t) bs,
            tl_chartRunIDs := is @ map (\<lambda>b. map snd (browser_entries fmt now ns t b)) bs\<rparr>)"
proof (induction bs arbitrary: i cs "is")
  case (Cons b bs)
  show ?case
    using Cons.IH [of "cs @ [browser_chart fmt now ns (length own) t b]" "Suc i" "is @ [map snd (browser_entries fmt now ns t b)]"]
      Cons.prems
    by (simp add: browser_update [OF assms Cons.prems])
qed simp

lemma updateAllCharts_eq:
  assumes "tl_historicalData t = Some h" and "tl_subtestNames t = Some own"
  shows "updateAllCharts fmt now (Some ns) t =
    Some (t\<lparr>tl_charts := map (browser_chart fmt now ns (length own) t) BROWSER_NAMES,
            tl_chartRunIDs := map (\<lambda>b. map snd (browser_entries fmt now ns t b)) BROWSER_NAMES\<rparr>)"
proof -
  have len: "length BROWSER_NAMES = 4" by (simp add: BROWSER_NAMES_def)
  show ?thesis
    using browsers_update [OF assms, of "[]" 0 "[]" fmt now ns BROWSER_NAMES]
    by (simp only: updateAllCharts_def assms option.case len append_Nil list.size)
qed

text \<open>
  C28: a click on a row of a chart opens the run of the very point of the history that the row shows.
\<close>

theorem click_opens_run:
  assumes "tl_historicalData t = Some h" and "tl_subtestNames t = Some own" and "updateAllCharts fmt now (Some ns) t = Some t'"
    and "i < 4" and "tl_charts t' ! i = Drawn rows ht" and "row < length rows" and "tl_path t = Some path"
  shows "\<exists>d np. obj_get h (BROWSER_NAMES ! i) = Some d \<and> np = timeline_points ns d ! row \<and> row_shows ns (rows ! row) np \<and>
    statusSelectHandler i [row] t' = Some (''/results'' @ path @ ''?run_id='' @ show_nat (hp_run_id (snd np)))"
proof -
  let ?b = "BROWSER_NAMES ! i"
  have len: "i < length BROWSER_NAMES" using assms(4) by (simp add: BROWSER_NAMES_def)
  have t': "t' = t\<lparr>tl_charts := map (browser_chart fmt now ns (length own) t) BROWSER_NAMES,
      tl_chartRunIDs := map (\<lambda>b. map snd (browser_entries fmt now ns t b)) BROWSER_NAMES\<rparr>"
    using updateAllCharts_eq [OF assms(1,2), of fmt now ns] assms(3) by simp
  then have chart: "browser_chart fmt now ns (length own) t ?b = Drawn rows ht" using assms(5) len by simp
  then obtain d where d: "obj_get h ?b = Some d" using assms(1) by (auto simp: browser_chart_def split: if_splits)
  let ?es = "chart_entries fmt (defaultEndDate now (tl_lastProcessed t)) ns d"
  have es: "browser_entries fmt now ns t ?b = ?es" using d assms(1) by (simp add: browser_entries_def)
  have rows: "rows = map fst ?es" using chart es d assms(1) by (auto simp: browser_chart_def split: if_splits)
  have row: "row < length ?es" using assms(6) rows by simp
  from chart_entries_show [of ns fmt "defaultEndDate now (tl_lastProcessed t)" d]
  have np: "row_shows ns (fst (?es ! row)) (timeline_points ns d ! row)" "snd (?es ! row) = hp_run_id (snd (timeline_points ns d ! row))"
    using row by (auto dest: list_all2_nthD)
  have "statusSelectHandler i [row] t' = Some (''/results'' @ path @ ''?run_id='' @ show_nat (map snd ?es ! row))"
    using row len es assms(7) by (simp add: statusSelectHandler_def t' Let_def)
  then show ?thesis using d np row rows by (intro exI [of _ d]) simp
qed

definition sample_timeline :: timeline where
  "sample_timeline =
     \<lparr>tl_path = Some ''/a.html'', tl_showTestHistory = True, tl_subtestNames = Some [[], ''sub''],
      tl_historicalData = Some [(''chrome'', [([], [\<lparr>hp_date = ''2023-01-01T00:00:00Z'', hp_status = ''OK'', hp_run_id = 7\<rparr>]),
        (''sub'', [\<lparr>hp_date = ''2023-01-01T00:00:00Z'', hp_status = ''CRASH'', hp_run_id = 7\<rparr>,
                 \<lparr>hp_date = ''2023-01-02T00:00:00Z'', hp_status = ''PASS'', hp_run_id = 9\<rparr>])])],
      tl_lastProcessed = None, tl_charts = [], tl_chartRunIDs = [], tl_resizeListeners = []\<rparr>"

definition sample_charts :: timeline where
  "sample_charts = the (updateAllCharts (\<lambda>_. ''d'') 0 (Some [[], ''sub'']) sample_timeline)"

theorem click_opens_run_witness:
  "\<exists>rows ht d np. tl_charts sample_charts ! 0 = Drawn rows ht \<and>
    obj_get (the (tl_historicalData sample_timeline)) (BROWSER_NAMES ! 0) = Some d \<and>
    np = timeline_points [[], ''sub''] d ! 2 \<and> row_shows [[], ''sub''] (rows ! 2) np \<and>
    statusSelectHandler 0 [2] sample_charts = Some (''/results'' @ ''/a.html'' @ ''?run_id='' @ show_nat (hp_run_id (snd np)))"
proof -
  have st: "tl_historicalData sample_timeline = Some (the (tl_historicalData sample_timeline))"
    "tl_subtestNames sample_timeline = Some [[], ''sub'']"
    by (simp_all add: sample_timeline_def)
  note eq = updateAllCharts_eq [OF st, of "\<lambda>_. ''d''" 0 "[[], ''sub'']"]
  have up: "updateAllCharts (\<lambda>_. ''d'') 0 (Some [[], ''sub'']) sample_timeline = Some sample_charts"
    by (simp add: sample_charts_def eq)
  have "tl_charts sample_charts = map (browser_chart (\<lambda>_. ''d'') 0 [[], ''sub''] 2 sample_timeline) BROWSER_NAMES"
    unfolding sample_charts_def eq by (simp add: numeral_2_eq_2)
  then have "tl_charts sample_charts ! 0 = browser_chart (\<lambda>_. ''d'') 0 [[], ''sub''] 2 sample_timeline ''chrome''"
    by (simp add: BROWSER_NAMES_def)
  then obtain rows ht where drawn: "tl_charts sample_charts ! 0 = Drawn rows ht" "length rows = 3"
    by (simp add: sample_timeline_def browser_chart_def browser_entries_def chart_entries_def)
  from click_opens_run [OF st up _ drawn(1), of 2 "''/a.html''"] drawn
  show ?thesis by (auto simp: sample_timeline_def)
qed

text \<open>A crash has the colour of a neutral status, as the table has the name \<open>CRASHED\<close>.\<close>

lemma crash_neutral: "statusColor ''CRASH'' = NeutralColor"
  by (simp add: statusColor_def COLOR_MAPPING_def)

text \<open>A change of the size before the answer of the server has arrived is an exception.\<close>

lemma resize_too_early:
  assumes "tl_historicalData t = None" and "tl_resizeListeners t \<noteq> []"
  shows "resized fmt now t = None"
proof -
  have "foldl (\<lambda>acc names. Option.bind acc (updateAllCharts fmt now names)) None ls = None" for ls
    by (induction ls) auto
  then show ?thesis using assms by (cases "tl_resizeListeners t") (simp_all add: resized_def updateAllCharts_def)
qed

end
