(* ===== verification/ReftestAnalyzer.thy ===== *)
theory ReftestAnalyzer
  imports JsNumber LoadingState "HOL-Library.Word"
begin

text \<open>
  \<^verbatim>\<open>webapp/components/reftest-analyzer.js\<close>: the comparison of the screenshots of a reference test, pixel by
  pixel, and the magnified view of the pixels around the pointer. A canvas is its size and the four
  bytes of each of its pixels.
\<close>

section \<open>Canvases\<close>

type_synonym byte = "8 word"

record canvas =
  cv_width :: nat
  cv_height :: nat
  cv_bytes :: "byte list"

text \<open>\<open>getImageData(x, y, 1, 1).data\<close>: outside of the canvas there is transparent black.\<close>

definition pixel_byte :: "canvas \<Rightarrow> nat \<Rightarrow> nat \<Rightarrow> nat \<Rightarrow> byte" where
  "pixel_byte c x y j =
     (if x < cv_width c \<and> y < cv_height c then cv_bytes c ! (4 * (y * cv_width c + x) + j) else 0)"

text \<open>\<open>getImageData(0, 0, w, h).data\<close>, the byte at an index.\<close>

definition image_byte :: "canvas \<Rightarrow> nat \<Rightarrow> nat \<Rightarrow> byte" where
  "image_byte c w i = pixel_byte c (i div 4 mod w) (i div 4 div w) (i mod 4)"

definition getRGB :: "canvas option \<Rightarrow> nat option \<Rightarrow> nat option \<Rightarrow> string option" where
  "getRGB c x y =
     (case (c, x, y) of
        (Some c, Some x, Some y) \<Rightarrow>
          Some (''RGB('' @ show_nat (unat (pixel_byte c x y 0)) @ '', '' @ show_nat (unat (pixel_byte c x y 1)) @ '', '' @
            show_nat (unat (pixel_byte c x y 2)) @ '')'')
      | _ \<Rightarrow> None)"

section \<open>The difference\<close>

definition byte_difference :: "byte \<Rightarrow> byte \<Rightarrow> int" where
  "byte_difference a b = \<bar>uint a - uint b\<bar>"

text \<open>The number of pixels, the largest difference of two bytes, and the pixels that are drawn, the last first.\<close>

record diff_state =
  df_total :: nat
  df_max :: int
  df_drawn :: "(nat \<times> nat) list"

text \<open>The four bytes of a pixel; the flag says whether it is counted already.\<close>

fun diff_bytes :: "canvas \<Rightarrow> canvas \<Rightarrow> nat \<Rightarrow> nat \<Rightarrow> nat list \<Rightarrow> bool \<times> diff_state \<Rightarrow> bool \<times> diff_state" where
  "diff_bytes a b w i [] st = st"
| "diff_bytes a b w i (j # js) (thisPixelDifferent, st) =
     diff_bytes a b w i js
       (if image_byte a w j \<noteq> image_byte b w j then
          (let st = st\<lparr>df_max := max (df_max st) (byte_difference (image_byte a w j) (image_byte b w j))\<rparr>
           in (True, if thisPixelDifferent then st
                     else st\<lparr>df_total := df_total st + 1, df_drawn := (i mod w, i div w) # df_drawn st\<rparr>))
        else (thisPixelDifferent, st))"

definition diff_pixel :: "canvas \<Rightarrow> canvas \<Rightarrow> nat \<Rightarrow> nat \<Rightarrow> diff_state \<Rightarrow> diff_state" where
  "diff_pixel a b w i st = snd (diff_bytes a b w i [4 * i..<4 * i + 4] (False, st))"

record image_diff =
  id_width :: nat
  id_height :: nat
  id_diff :: diff_state

text \<open>The images have the sizes of their canvases; without both of them nothing is computed.\<close>

definition computeDiff :: "canvas option \<Rightarrow> canvas option \<Rightarrow> image_diff option" where
  "computeDiff before after =
     (case (before, after) of
        (Some a, Some b) \<Rightarrow>
          (let w = max (cv_width a) (cv_width b);
               h = max (cv_height a) (cv_height b)
           in Some \<lparr>id_width = w, id_height = h,
                id_diff = foldl (\<lambda>st i. diff_pixel a b w i st) \<lparr>df_total = 0, df_max = 0, df_drawn = []\<rparr> [0..<w * h]\<rparr>)
      | _ \<Rightarrow> None)"

section \<open>The magnified view\<close>

text \<open>The outlines of the fields: upper left triangles for the first image, lower right ones for the other.\<close>

definition zoom_outline :: "bool \<Rightarrow> nat \<Rightarrow> nat \<Rightarrow> string" where
  "zoom_outline before x y =
     (let ox = show_nat (x * 50 + 1); oy = show_nat (y * 50 + 1);
          ox' = show_nat (x * 50 + 49); oy' = show_nat (y * 50 + 49)
      in if before then ''M'' @ ox @ '','' @ oy @ '' H'' @ ox' @ '' L'' @ ox @ '','' @ oy' @ '' V'' @ oy
         else ''M'' @ ox' @ '','' @ oy @ '' V'' @ oy' @ '' H'' @ ox @ '' L'' @ ox' @ '','' @ oy)"

text \<open>The attribute \<open>fill\<close> of each field.\<close>

datatype fill = BlankFill | Rgba byte byte byte byte

definition setupZoomSVG :: "bool \<Rightarrow> (string \<times> fill) list list" where
  "setupZoomSVG before = map (\<lambda>x. map (\<lambda>y. (zoom_outline before x y, BlankFill)) [0..<5]) [0..<5]"

record analyzer =
  an_before :: "canvas option"
  an_after :: "canvas option"
  an_curX :: int
  an_curY :: int
  an_fillsBefore :: "fill list list"
  an_fillsAfter :: "fill list list"
  an_error :: bool

definition blank_fills :: "fill list list" where
  "blank_fills = replicate 5 (replicate 5 BlankFill)"

definition pixel_fill :: "canvas \<Rightarrow> nat \<Rightarrow> nat \<Rightarrow> fill" where
  "pixel_fill c x y = Rgba (pixel_byte c x y 0) (pixel_byte c x y 1) (pixel_byte c x y 2) (pixel_byte c x y 3)"

definition off_canvas :: "canvas \<Rightarrow> int \<Rightarrow> int \<Rightarrow> bool" where
  "off_canvas c x y = (x < 0 \<or> x \<ge> int (cv_width c) \<or> y < 0 \<or> y \<ge> int (cv_height c))"

text \<open>Off the canvas the code assigns a property \<open>fill\<close> of the element, which leaves the attribute as it was.\<close>

definition zoom_fills :: "canvas \<Rightarrow> int \<Rightarrow> int \<Rightarrow> fill list list \<Rightarrow> fill list list" where
  "zoom_fills c x y fills =
     map (\<lambda>i. map (\<lambda>j.
            let px = x - 2 + int i; py = y - 2 + int j
            in if off_canvas c px py then fills ! i ! j else pixel_fill c (nat px) (nat py)) [0..<5]) [0..<5]"

definition handleZoom :: "int \<Rightarrow> int \<Rightarrow> analyzer \<Rightarrow> analyzer" where
  "handleZoom x y a =
     (case (an_before a, an_after a) of
        (Some b, Some c) \<Rightarrow>
          a\<lparr>an_curX := x, an_curY := y, an_fillsBefore := zoom_fills b x y (an_fillsBefore a),
            an_fillsAfter := zoom_fills c x y (an_fillsAfter a)\<rparr>
      | _ \<Rightarrow> a)"

definition showError :: "analyzer \<Rightarrow> analyzer" where
  "showError a = a\<lparr>an_error := True\<rparr>"

section \<open>Loading\<close>

text \<open>
  An image that is loaded is drawn on a canvas of its size. An empty address is an exception before
  anything is loaded, and so the canvases are never made.
\<close>

definition analyzer_loaded :: "(string \<Rightarrow> canvas option) \<Rightarrow> string \<Rightarrow> string \<Rightarrow> analyzer \<Rightarrow> analyzer" where
  "analyzer_loaded screenshot before after a =
     (if before = [] \<or> after = [] then a
      else (case (screenshot before, screenshot after) of
              (Some b, Some c) \<Rightarrow> a\<lparr>an_before := Some b, an_after := Some c, an_fillsBefore := blank_fills, an_fillsAfter := blank_fills\<rparr>
            | _ \<Rightarrow> a))"

section \<open>The difference counts the pixels that differ\<close>

definition pixels_differ :: "canvas \<Rightarrow> canvas \<Rightarrow> nat \<Rightarrow> nat \<Rightarrow> bool" where
  "pixels_differ a b w i = list_ex (\<lambda>j. image_byte a w j \<noteq> image_byte b w j) [4 * i..<4 * i + 4]"

definition byte_differences :: "canvas \<Rightarrow> canvas \<Rightarrow> nat \<Rightarrow> nat list \<Rightarrow> int list" where
  "byte_differences a b w js = map (\<lambda>j. byte_difference (image_byte a w j) (image_byte b w j)) js"

lemma byte_difference_same [simp]: "byte_difference a a = 0"
  by (simp add: byte_difference_def)

lemma byte_difference_bounds: "0 \<le> byte_difference a b" "byte_difference a b \<le> 255"
proof -
  have "uint a < 256" "uint b < 256" using uint_lt2p [of a] uint_lt2p [of b] by simp_all
  then show "0 \<le> byte_difference a b" "byte_difference a b \<le> 255"
    using uint_ge_0 [of a] uint_ge_0 [of b] unfolding byte_difference_def by linarith+
qed

lemma diff_bytes_result:
  "0 \<le> df_max st \<Longrightarrow>
   diff_bytes a b w i js (flag, st) =
     (flag \<or> list_ex (\<lambda>j. image_byte a w j \<noteq> image_byte b w j) js,
      st\<lparr>df_total := df_total st + (if \<not> flag \<and> list_ex (\<lambda>j. image_byte a w j \<noteq> image_byte b w j) js then 1 else 0),
         df_max := foldl max (df_max st) (byte_differences a b w js),
         df_drawn := (if \<not> flag \<and> list_ex (\<lambda>j. image_byte a w j \<noteq> image_byte b w j) js then [(i mod w, i div w)] else []) @
           df_drawn st\<rparr>)"
proof (induction js arbitrary: flag st)
  case (Cons j js)
  show ?case
  proof (cases "image_byte a w j = image_byte b w j")
    case True
    then show ?thesis using Cons by (simp add: byte_differences_def)
  next
    case False
    then show ?thesis using Cons by (cases flag) (simp_all add: byte_differences_def Let_def)
  qed
qed (simp add: byte_differences_def)

lemma foldl_max_in: "foldl max (m :: int) xs \<in> insert m (set xs)"
  by (induction xs arbitrary: m) (auto simp: max_def split: if_splits)

lemma foldl_max_ge: "m \<le> foldl max (m :: int) xs \<and> (\<forall>x \<in> set xs. x \<le> foldl max m xs)"
proof (induction xs arbitrary: m)
  case (Cons a xs)
  have "max m a \<le> foldl max (max m a) xs" "\<forall>x \<in> set xs. x \<le> foldl max (max m a) xs" using Cons [of "max m a"] by simp_all
  then show ?case by simp
qed simp

definition pixel_bytes :: "nat list \<Rightarrow> nat list" where
  "pixel_bytes is = concat (map (\<lambda>i. [4 * i..<4 * i + 4]) is)"

lemma diff_pixels:
  "0 \<le> df_max st \<Longrightarrow>
   foldl (\<lambda>st i. diff_pixel a b w i st) st is =
     st\<lparr>df_total := df_total st + length (filter (pixels_differ a b w) is),
        df_max := foldl max (df_max st) (byte_differences a b w (pixel_bytes is)),
        df_drawn := rev (map (\<lambda>i. (i mod w, i div w)) (filter (pixels_differ a b w) is)) @ df_drawn st\<rparr>"
proof (induction "is" arbitrary: st)
  case (Cons i "is")
  let ?st = "diff_pixel a b w i st"
  have st: "?st = st\<lparr>df_total := df_total st + (if pixels_differ a b w i then 1 else 0),
         df_max := foldl max (df_max st) (byte_differences a b w [4 * i..<4 * i + 4]),
         df_drawn := (if pixels_differ a b w i then [(i mod w, i div w)] else []) @ df_drawn st\<rparr>"
    by (simp only: diff_pixel_def diff_bytes_result [OF Cons.prems] pixels_differ_def) simp
  have "0 \<le> df_max ?st" using Cons.prems foldl_max_ge [of "df_max st" "byte_differences a b w [4 * i..<4 * i + 4]"]
    by (auto simp: st simp del: upt_Suc)
  from Cons.IH [OF this] show ?case by (simp add: st pixel_bytes_def byte_differences_def del: upt_Suc)
qed (simp add: pixel_bytes_def byte_differences_def)

lemma set_pixel_bytes: "set (pixel_bytes [0..<n]) = {..<4 * n}"
proof -
  have "j \<in> (\<Union>i < n. {4 * i..<4 * i + 4})" if "j < 4 * n" for j
    using that by (intro UN_I [of "j div 4"]) auto
  then show ?thesis by (fastforce simp: pixel_bytes_def)
qed

text \<open>Pixels by their place.\<close>

definition differs_at :: "canvas \<Rightarrow> canvas \<Rightarrow> nat \<Rightarrow> nat \<Rightarrow> bool" where
  "differs_at a b x y \<longleftrightarrow> (\<exists>j < 4. pixel_byte a x y j \<noteq> pixel_byte b x y j)"

lemma image_byte_at: "j < 4 \<Longrightarrow> image_byte c w (4 * i + j) = pixel_byte c (i mod w) (i div w) j"
  by (simp add: image_byte_def)

lemma pixels_differ_at: "pixels_differ a b w i \<longleftrightarrow> differs_at a b (i mod w) (i div w)"
proof
  assume "pixels_differ a b w i"
  then obtain k where k: "4 * i \<le> k" "k < 4 * i + 4" "image_byte a w k \<noteq> image_byte b w k"
    by (auto simp: pixels_differ_def list_ex_iff simp del: upt_Suc)
  then have "k = 4 * i + (k - 4 * i)" "k - 4 * i < 4" by simp_all
  then show "differs_at a b (i mod w) (i div w)" using k(3) image_byte_at unfolding differs_at_def by metis
next
  assume "differs_at a b (i mod w) (i div w)"
  then obtain j where j: "j < 4" "image_byte a w (4 * i + j) \<noteq> image_byte b w (4 * i + j)"
    by (auto simp: differs_at_def image_byte_at)
  then have "4 * i + j \<in> set [4 * i..<4 * i + 4]" by simp
  then show "pixels_differ a b w i" using j(2) unfolding pixels_differ_def list_ex_iff by blast
qed

lemma places:
  fixes w :: nat
  shows "bij_betw (\<lambda>i. (i mod w, i div w)) {..<w * h} ({..<w} \<times> {..<h})"
proof (rule bij_betw_byWitness [where f' = "\<lambda>(x, y). y * w + x"])
  show "\<forall>i \<in> {..<w * h}. (case (i mod w, i div w) of (x, y) \<Rightarrow> y * w + x) = i" by simp
  show "\<forall>p \<in> {..<w} \<times> {..<h}. (\<lambda>i. (i mod w, i div w)) (case p of (x, y) \<Rightarrow> y * w + x) = p" by auto
  show "(\<lambda>i. (i mod w, i div w)) ` {..<w * h} \<subseteq> {..<w} \<times> {..<h}"
  proof
    fix p assume "p \<in> (\<lambda>i. (i mod w, i div w)) ` {..<w * h}"
    then obtain i where i: "i < w * h" "p = (i mod w, i div w)" by auto
    then have "0 < w" by (cases w) auto
    then show "p \<in> {..<w} \<times> {..<h}" using i by (simp add: less_mult_imp_div_less mult.commute)
  qed
  show "(\<lambda>(x, y). y * w + x) ` ({..<w} \<times> {..<h}) \<subseteq> {..<w * h}"
  proof
    fix i assume "i \<in> (\<lambda>(x, y). y * w + x) ` ({..<w} \<times> {..<h})"
    then obtain x y where i: "x < w" "y < h" "i = y * w + x" by auto
    then have "i < (y + 1) * w" by simp
    also have "\<dots> \<le> h * w" using i(2) by (intro mult_right_mono) simp_all
    finally show "i \<in> {..<w * h}" by (simp add: mult.commute)
  qed
qed

lemma byte_difference_zero: "byte_difference a b = 0 \<longleftrightarrow> a = b"
  by (simp add: byte_difference_def word_uint_eq_iff)

lemma foldl_max_zero: "\<forall>x \<in> set xs. 0 \<le> x \<Longrightarrow> foldl max (0 :: int) xs = 0 \<longleftrightarrow> (\<forall>x \<in> set xs. x = 0)"
  using foldl_max_ge [of 0 xs] foldl_max_in [of 0 xs] by fastforce

lemma all_bytes: "(\<forall>j < 4 * n. P j) \<longleftrightarrow> (\<forall>i < n. \<forall>j \<in> set [4 * i..<4 * i + 4]. P j)"
proof -
  have "(\<forall>j < 4 * n. P j) \<longleftrightarrow> (\<forall>j \<in> set (pixel_bytes [0..<n]). P j)" by (auto simp: set_pixel_bytes)
  also have "\<dots> \<longleftrightarrow> (\<forall>i < n. \<forall>j \<in> set [4 * i..<4 * i + 4]. P j)"
    unfolding pixel_bytes_def set_concat set_map by auto
  finally show ?thesis .
qed

lemma max_zero:
  "foldl max 0 (byte_differences a b w (pixel_bytes [0..<n])) = 0 \<longleftrightarrow> filter (pixels_differ a b w) [0..<n] = []"
proof -
  have "foldl max 0 (byte_differences a b w (pixel_bytes [0..<n])) = 0 \<longleftrightarrow> (\<forall>j < 4 * n. image_byte a w j = image_byte b w j)"
    by (subst foldl_max_zero) (auto simp: byte_differences_def byte_difference_bounds byte_difference_zero set_pixel_bytes)
  also have "\<dots> \<longleftrightarrow> (\<forall>i < n. \<not> pixels_differ a b w i)"
    by (simp add: all_bytes pixels_differ_def list_ex_iff del: upt_Suc set_upt)
  finally show ?thesis by (auto simp: filter_empty_conv)
qed

text \<open>
  C29: the analyzer draws exactly the pixels in which the two screenshots differ, each once, also where only one
  of them has pixels, and counts them; the largest difference is that of some byte, is at most 255, and is zero
  only if nothing differs.
\<close>

theorem diff_exact:
  assumes "computeDiff (Some a) (Some b) = Some d"
  shows "set (df_drawn (id_diff d)) = {(x, y). x < id_width d \<and> y < id_height d \<and> differs_at a b x y} \<and>
    distinct (df_drawn (id_diff d)) \<and> df_total (id_diff d) = length (df_drawn (id_diff d)) \<and>
    df_max (id_diff d) \<le> 255 \<and> (df_max (id_diff d) = 0 \<longleftrightarrow> df_total (id_diff d) = 0)"
proof -
  let ?w = "max (cv_width a) (cv_width b)" and ?h = "max (cv_height a) (cv_height b)"
  let ?is = "filter (pixels_differ a b ?w) [0..<?w * ?h]"
  let ?ds = "byte_differences a b ?w (pixel_bytes [0..<?w * ?h])"
  let ?p = "\<lambda>i. (i mod ?w, i div ?w)"
  have size: "id_width d = ?w" "id_height d = ?h" using assms by (auto simp: computeDiff_def Let_def)
  have d: "id_diff d = \<lparr>df_total = length ?is, df_max = foldl max 0 ?ds, df_drawn = rev (map ?p ?is)\<rparr>"
    using assms diff_pixels [of "\<lparr>df_total = 0, df_max = 0, df_drawn = []\<rparr>" a b ?w "[0..<?w * ?h]"]
    by (auto simp: computeDiff_def Let_def)
  have inj: "inj_on ?p {..<?w * ?h}" and im: "?p ` {..<?w * ?h} = {..<?w} \<times> {..<?h}"
    using places [of ?w ?h] by (auto simp: bij_betw_def)
  have drawn: "set (df_drawn (id_diff d)) = {(x, y). x < id_width d \<and> y < id_height d \<and> differs_at a b x y}"
  proof -
    have "set (df_drawn (id_diff d)) = ?p ` {i \<in> {..<?w * ?h}. differs_at a b (i mod ?w) (i div ?w)}"
      by (auto simp: d pixels_differ_at)
    also have "\<dots> = {p \<in> ?p ` {..<?w * ?h}. differs_at a b (fst p) (snd p)}" by auto
    also have "\<dots> = {(x, y). x < ?w \<and> y < ?h \<and> differs_at a b x y}" unfolding im by auto
    finally show ?thesis by (simp add: size)
  qed
  have "distinct (map ?p ?is)"
    using inj by (auto simp: distinct_map intro: inj_on_subset)
  then have "distinct (df_drawn (id_diff d))" by (simp add: d)
  moreover have "df_max (id_diff d) \<le> 255"
    using foldl_max_in [of 0 ?ds] byte_difference_bounds(2) by (auto simp: d byte_differences_def)
  moreover have "df_max (id_diff d) = 0 \<longleftrightarrow> df_total (id_diff d) = 0"
    using max_zero [of a b ?w "?w * ?h"] by (simp add: d)
  ultimately show ?thesis using drawn by (simp add: d)
qed

theorem diff_exact_witness:
  "\<exists>d. computeDiff (Some \<lparr>cv_width = 1, cv_height = 1, cv_bytes = [1, 2, 3, 255]\<rparr>)
      (Some \<lparr>cv_width = 2, cv_height = 1, cv_bytes = [1, 2, 3, 255, 0, 0, 0, 255]\<rparr>) = Some d \<and>
    set (df_drawn (id_diff d)) = {(x, y). x < id_width d \<and> y < id_height d \<and>
      differs_at \<lparr>cv_width = 1, cv_height = 1, cv_bytes = [1, 2, 3, 255]\<rparr>
        \<lparr>cv_width = 2, cv_height = 1, cv_bytes = [1, 2, 3, 255, 0, 0, 0, 255]\<rparr> x y} \<and>
    distinct (df_drawn (id_diff d)) \<and> df_total (id_diff d) = length (df_drawn (id_diff d)) \<and>
    df_max (id_diff d) \<le> 255 \<and> (df_max (id_diff d) = 0 \<longleftrightarrow> df_total (id_diff d) = 0)"
proof -
  let ?a = "\<lparr>cv_width = 1, cv_height = 1, cv_bytes = [1, 2, 3, 255]\<rparr> :: canvas"
  let ?b = "\<lparr>cv_width = 2, cv_height = 1, cv_bytes = [1, 2, 3, 255, 0, 0, 0, 255]\<rparr> :: canvas"
  have "\<exists>d. computeDiff (Some a) (Some b) = Some d" for a b by (simp add: computeDiff_def Let_def)
  then obtain d where d: "computeDiff (Some ?a) (Some ?b) = Some d" by blast
  show ?thesis by (rule exI [of _ d], rule conjI [OF d diff_exact [OF d]])
qed

section \<open>The fields that are magnified\<close>

lemma zoom_field:
  assumes "i < 5" and "j < 5" and "\<not> off_canvas c (x - 2 + int i) (y - 2 + int j)"
  shows "zoom_fills c x y fills ! i ! j = pixel_fill c (nat (x - 2 + int i)) (nat (y - 2 + int j))"
  using assms by (simp add: zoom_fills_def Let_def)

text \<open>A field that has left the canvas keeps showing the last pixel that it showed.\<close>

lemma stale_field:
  assumes "i < 5" and "j < 5" and "off_canvas c (x - 2 + int i) (y - 2 + int j)"
  shows "zoom_fills c x y fills ! i ! j = fills ! i ! j"
  using assms by (simp add: zoom_fills_def Let_def)

end
