(* ===== verification/BsfChart.thy ===== *)
theory BsfChart
  imports InteropManager JsParse JsSearchParams
begin

text \<open>
  \<^verbatim>\<open>webapp/components/wpt-bsf.js\<close>: the graph of browser specific failures. What is requested stays in flight until
  its answer arrives; the answers may come in any order.
\<close>

section \<open>State\<close>

text \<open>The answer of the server: the revision, the names of the columns, and the rows as texts.\<close>

record bsf_answer =
  bsf_lastUpdateRevision :: string
  bsf_fields :: "string list"
  bsf_rows :: "string list list"

record bsf_chart =
  bc_data :: "chart_cell list list"
  bc_sha :: "string option"
  bc_isExperimental :: bool
  bc_includeThirdParty :: bool
  bc_isInteracting :: bool
  bc_requests :: "string list"
  bc_events :: "bool list"

text \<open>A revision that is not there is an exception.\<close>

definition computeShortSHA :: "string option \<Rightarrow> string option" where
  "computeShortSHA s = map_option (take 10) s"

definition computeGitHubHref :: "string option \<Rightarrow> string" where
  "computeGitHubHref s =
     ''https://github.com/web-platform-tests/wpt/commit/'' @ (case s of None \<Rightarrow> ''undefined'' | Some t \<Rightarrow> t)"

definition bsf_stableButtonClass :: "bool \<Rightarrow> string" where
  "bsf_stableButtonClass isExperimental = (if isExperimental then ''unselected'' else ''selected'')"

definition bsf_experimentalButtonClass :: "bool \<Rightarrow> string" where
  "bsf_experimentalButtonClass isExperimental = (if isExperimental then ''selected'' else ''unselected'')"

definition firstPartyButtonClass :: "bool \<Rightarrow> string" where
  "firstPartyButtonClass includeThirdParty = (if includeThirdParty then ''unselected'' else ''selected'')"

definition includeThirdPartyButtonClass :: "bool \<Rightarrow> string" where
  "includeThirdPartyButtonClass includeThirdParty = (if includeThirdParty then ''selected'' else ''unselected'')"

definition bsf_chartOptions :: "(string \<times> jsvalue) list" where
  "bsf_chartOptions =
     [(''width'', VNum 800), (''height'', VNum 350), (''chartArea'', VObj [(''height'', VStr ''80%'')]),
      (''hAxis'', VObj [(''title'', VStr ''Date''), (''format'', VStr ''MMM-YYYY'')]),
      (''vAxis'', VObj [(''title'', VStr ''Tests that fail in exactly 1 browser'')]),
      (''explorer'', VObj [(''actions'', VArr [VStr ''dragToZoom'', VStr ''rightClickToReset'']),
         (''axis'', VStr ''horizontal''), (''keepInBounds'', VBool True), (''maxZoomIn'', VNum 4)]),
      (''colors'', VArr [VStr ''#fbc013'', VStr ''#fc7a3a'', VStr ''#148cda''])]"

section \<open>The data\<close>

text \<open>Without the revision, and then only the even columns: the date and the scores.\<close>

fun even_columns :: "'a list \<Rightarrow> 'a list" where
  "even_columns [] = []"
| "even_columns [x] = [x]"
| "even_columns (x # y # xs) = x # even_columns xs"

definition bsf_columns :: "string list \<Rightarrow> string list" where
  "bsf_columns row = even_columns (drop 1 row)"

text \<open>A row without a date is an exception.\<close>

definition bsf_data_row :: "string list \<Rightarrow> chart_cell list option" where
  "bsf_data_row row =
     (case bsf_columns row of
        [] \<Rightarrow> None
      | d # vs \<Rightarrow> Some (DateCell (csv_date d) # map (\<lambda>v. NumCell (parseFloat v)) vs))"

definition bsf_table :: "bsf_answer \<Rightarrow> chart_cell list list option" where
  "bsf_table a =
     map_option ((#) (map TextCell (bsf_columns (bsf_fields a)))) (those (map bsf_data_row (bsf_rows a)))"

section \<open>Requests\<close>

definition bsf_url :: "string \<Rightarrow> bool \<Rightarrow> bool \<Rightarrow> string" where
  "bsf_url origin experimental thirdParty =
     origin @ ''/api/bsf'' @ search_of
       ((if experimental then [(''experimental'', ''true'')] else []) @ (if thirdParty then [(''includeThirdParty'', ''true'')] else []))"

definition loadBSFData :: "string \<Rightarrow> bsf_chart \<Rightarrow> bsf_chart" where
  "loadBSFData origin c = c\<lparr>bc_requests := bc_requests c @ [bsf_url origin (bc_isExperimental c) (bc_includeThirdParty c)]\<rparr>"

text \<open>
  An answer to the \<open>i\<close>th request. An answer that is not well-formed is logged; by then the revision has
  changed.
\<close>

definition bsf_arrived :: "nat \<Rightarrow> bsf_answer option \<Rightarrow> bsf_chart \<Rightarrow> bsf_chart" where
  "bsf_arrived i answer c =
     (let c = c\<lparr>bc_requests := take i (bc_requests c) @ drop (i + 1) (bc_requests c)\<rparr>
      in case answer of
           None \<Rightarrow> c
         | Some a \<Rightarrow>
             (let c = c\<lparr>bc_sha := Some (bsf_lastUpdateRevision a)\<rparr>
              in case bsf_table a of None \<Rightarrow> c | Some d \<Rightarrow> c\<lparr>bc_data := d\<rparr>))"

definition new_bsf :: "string \<Rightarrow> bsf_chart" where
  "new_bsf origin =
     loadBSFData origin
       \<lparr>bc_data = [], bc_sha = None, bc_isExperimental = True, bc_includeThirdParty = False, bc_isInteracting = False,
        bc_requests = [], bc_events = []\<rparr>"

definition bsf_clickStable :: "string \<Rightarrow> bsf_chart \<Rightarrow> bsf_chart" where
  "bsf_clickStable origin c =
     (if \<not> bc_isExperimental c then c else loadBSFData origin (c\<lparr>bc_isExperimental := False\<rparr>))"

definition bsf_clickExperimental :: "string \<Rightarrow> bsf_chart \<Rightarrow> bsf_chart" where
  "bsf_clickExperimental origin c =
     (if bc_isExperimental c then c else loadBSFData origin (c\<lparr>bc_isExperimental := True\<rparr>))"

definition clickFirstParty :: "string \<Rightarrow> bsf_chart \<Rightarrow> bsf_chart" where
  "clickFirstParty origin c =
     (if \<not> bc_includeThirdParty c then c else loadBSFData origin (c\<lparr>bc_includeThirdParty := False\<rparr>))"

definition clickIncludeThirdParty :: "string \<Rightarrow> bsf_chart \<Rightarrow> bsf_chart" where
  "clickIncludeThirdParty origin c =
     (if bc_includeThirdParty c then c else loadBSFData origin (c\<lparr>bc_includeThirdParty := True\<rparr>))"

definition enterChart :: "bsf_chart \<Rightarrow> bsf_chart" where
  "enterChart c = c\<lparr>bc_isInteracting := True, bc_events := bc_events c @ [True]\<rparr>"

definition exitChart :: "bsf_chart \<Rightarrow> bsf_chart" where
  "exitChart c = c\<lparr>bc_isInteracting := False, bc_events := bc_events c @ [False]\<rparr>"

section \<open>The columns that are kept\<close>

lemma even_columns_pairs: "even_columns (concat (map (\<lambda>(v, s). [v, s]) vs)) = map fst vs"
  by (induction vs) auto

lemma even_columns_Cons: "even_columns (d # concat (map (\<lambda>(v, s). [v, s]) vs)) = d # map snd vs"
  by (induction vs arbitrary: d) auto

text \<open>A line of the server: revision, date, and a version with a score for each product.\<close>

definition bsf_line :: "string \<Rightarrow> string \<Rightarrow> (string \<times> string) list \<Rightarrow> string list" where
  "bsf_line sha d vs = sha # d # concat (map (\<lambda>(v, s). [v, s]) vs)"

lemma bsf_data_line: "bsf_data_row (bsf_line sha d vs) = Some (DateCell (csv_date d) # map (\<lambda>(v, s). NumCell (parseFloat s)) vs)"
  unfolding bsf_data_row_def bsf_columns_def bsf_line_def by (simp add: even_columns_Cons) (simp add: comp_def case_prod_unfold)

text \<open>
  From an answer in the documented form the table has the names of the date and the products, and then for
  every line its date and exactly its scores, in their order.
\<close>

lemma bsf_table_scores:
  "bsf_table \<lparr>bsf_lastUpdateRevision = lastRevision, bsf_fields = bsf_line f0 f1 fs,
      bsf_rows = map (\<lambda>(sha, d, vs). bsf_line sha d vs) lines\<rparr> =
   Some (map TextCell (f1 # map snd fs) #
     map (\<lambda>(sha, d, vs). DateCell (csv_date d) # map (\<lambda>(v, s). NumCell (parseFloat s)) vs) lines)"
proof -
  have "those (map bsf_data_row (map (\<lambda>(sha, d, vs). bsf_line sha d vs) lines)) =
      Some (map (\<lambda>(sha, d, vs). DateCell (csv_date d) # map (\<lambda>(v, s). NumCell (parseFloat s)) vs) lines)"
    by (induction lines) (auto simp: bsf_data_line)
  then show ?thesis by (simp add: bsf_table_def bsf_columns_def bsf_line_def even_columns_Cons)
qed

section \<open>The last request\<close>

datatype bsf_event = Stable | Experimental | FirstParty | ThirdParty | Enter | Exit | Arrived nat "bsf_answer option"

fun bsf_handle :: "string \<Rightarrow> bsf_event \<Rightarrow> bsf_chart \<Rightarrow> bsf_chart" where
  "bsf_handle origin Stable c = bsf_clickStable origin c"
| "bsf_handle origin Experimental c = bsf_clickExperimental origin c"
| "bsf_handle origin FirstParty c = clickFirstParty origin c"
| "bsf_handle origin ThirdParty c = clickIncludeThirdParty origin c"
| "bsf_handle origin Enter c = enterChart c"
| "bsf_handle origin Exit c = exitChart c"
| "bsf_handle origin (Arrived i a) c = bsf_arrived i a c"

text \<open>The requests in flight end with the one for what the buttons show.\<close>

definition shown_url :: "string \<Rightarrow> bsf_chart \<Rightarrow> string" where
  "shown_url origin c = bsf_url origin (bc_isExperimental c) (bc_includeThirdParty c)"

definition last_request_shown :: "string \<Rightarrow> bsf_chart \<Rightarrow> bool" where
  "last_request_shown origin c \<longleftrightarrow> bc_requests c \<noteq> [] \<longrightarrow> last (bc_requests c) = shown_url origin c"

text \<open>A server that always answers, in the order of the requests.\<close>

definition chart_of_answer :: "bsf_answer \<Rightarrow> bsf_chart \<Rightarrow> bool" where
  "chart_of_answer a c \<longleftrightarrow> bc_sha c = Some (bsf_lastUpdateRevision a) \<and> bsf_table a = Some (bc_data c)"

definition bsf_settled :: "string \<Rightarrow> (string \<Rightarrow> bsf_answer) \<Rightarrow> bsf_chart \<Rightarrow> bool" where
  "bsf_settled origin server c \<longleftrightarrow>
     last_request_shown origin c \<and> (bc_requests c = [] \<longrightarrow> chart_of_answer (server (shown_url origin c)) c)"

inductive bsf_session :: "string \<Rightarrow> (string \<Rightarrow> bsf_answer) \<Rightarrow> bsf_chart \<Rightarrow> bool" for origin server where
  opened: "bsf_session origin server (new_bsf origin)"
| clicked: "bsf_session origin server c \<Longrightarrow> \<forall>i a. e \<noteq> Arrived i a \<Longrightarrow> bsf_session origin server (bsf_handle origin e c)"
| answered: "bsf_session origin server c \<Longrightarrow> bc_requests c = u # us \<Longrightarrow>
    bsf_session origin server (bsf_handle origin (Arrived 0 (Some (server u))) c)"

lemma load_settled: "bsf_settled origin server (loadBSFData origin c)"
  by (simp add: bsf_settled_def last_request_shown_def loadBSFData_def shown_url_def)

lemma interaction_settled:
  "bsf_settled origin server c \<Longrightarrow> bsf_settled origin server (enterChart c)"
  "bsf_settled origin server c \<Longrightarrow> bsf_settled origin server (exitChart c)"
  by (simp_all add: bsf_settled_def last_request_shown_def shown_url_def chart_of_answer_def enterChart_def exitChart_def)

lemma click_settled: "bsf_settled origin server c \<Longrightarrow> \<forall>i a. e \<noteq> Arrived i a \<Longrightarrow> bsf_settled origin server (bsf_handle origin e c)"
  by (cases e)
    (auto simp: bsf_clickStable_def bsf_clickExperimental_def clickFirstParty_def clickIncludeThirdParty_def load_settled
      interaction_settled)

lemma settled_once:
  assumes "bsf_settled origin server c" and "bc_requests c = u # us" and "bsf_table (server u) = Some d"
  shows "bsf_settled origin server (bsf_arrived 0 (Some (server u)) c)"
proof -
  have "us \<noteq> [] \<Longrightarrow> last us = shown_url origin c" and "us = [] \<Longrightarrow> u = shown_url origin c"
    using assms(1,2) by (auto simp: bsf_settled_def last_request_shown_def)
  then show ?thesis
    using assms(2,3) by (auto simp: bsf_settled_def last_request_shown_def shown_url_def chart_of_answer_def bsf_arrived_def Let_def)
qed

text \<open>
  C30: when the server answers well-formed data in the order of the requests, then after any clicks, once nothing
  is in flight, the graph and the revision are those for the release and the scope that the buttons show.
\<close>

theorem bsf_shows_selection:
  assumes "bsf_session origin server c" and "\<forall>u. bsf_table (server u) \<noteq> None" and "bc_requests c = []"
  shows "chart_of_answer (server (shown_url origin c)) c"
proof -
  have "bsf_settled origin server c"
    using assms(1)
  proof (induction rule: bsf_session.induct)
    case opened
    show ?case by (simp add: new_bsf_def load_settled)
  next
    case (clicked c e)
    then show ?case by (simp add: click_settled)
  next
    case (answered c u us)
    then show ?case using assms(2) by (auto intro: settled_once)
  qed
  then show ?thesis using assms(3) by (simp add: bsf_settled_def)
qed

definition sample_answer :: "string \<Rightarrow> bsf_answer" where
  "sample_answer u =
     \<lparr>bsf_lastUpdateRevision = u, bsf_fields = [''sha'', ''date'', ''chrome-version'', ''chrome''],
      bsf_rows = [[''abc'', ''2020-01-02'', ''79'', ''12.5'']]\<rparr>"

theorem bsf_shows_selection_witness:
  "chart_of_answer (sample_answer (shown_url ''https://wpt.fyi'' (bsf_arrived 0 (Some (sample_answer (bsf_url ''https://wpt.fyi'' True False)))
      (new_bsf ''https://wpt.fyi'')))) (bsf_arrived 0 (Some (sample_answer (bsf_url ''https://wpt.fyi'' True False))) (new_bsf ''https://wpt.fyi''))"
proof (rule bsf_shows_selection)
  let ?u = "bsf_url ''https://wpt.fyi'' True False"
  have reqs: "bc_requests (new_bsf ''https://wpt.fyi'') = ?u # []" by (simp add: new_bsf_def loadBSFData_def)
  show "bsf_session ''https://wpt.fyi'' sample_answer (bsf_arrived 0 (Some (sample_answer ?u)) (new_bsf ''https://wpt.fyi''))"
    using bsf_session.answered [OF bsf_session.opened reqs, of sample_answer] by simp
  show "\<forall>u. bsf_table (sample_answer u) \<noteq> None"
    by (simp add: bsf_table_def sample_answer_def bsf_data_row_def bsf_columns_def)
  show "bc_requests (bsf_arrived 0 (Some (sample_answer ?u)) (new_bsf ''https://wpt.fyi'')) = []"
    using reqs by (auto simp: bsf_arrived_def Let_def split: option.splits)
qed

text \<open>Answers that overtake each other leave the graph of the release that is not shown.\<close>

lemma overtaken:
  assumes "bsf_table a = Some d" and "bsf_table b = Some d'"
  shows "let c = bsf_arrived 0 (Some b) (bsf_arrived 1 (Some a) (bsf_clickStable origin (new_bsf origin)))
    in bc_requests c = [] \<and> \<not> bc_isExperimental c \<and> bc_data c = d'"
  using assms by (simp add: bsf_arrived_def bsf_clickStable_def new_bsf_def loadBSFData_def Let_def)

end
