(* ===== verification/JsJson.thy ===== *)
theory JsJson
  imports JsParse
begin

text \<open>
  \<^verbatim>\<open>JSON.parse\<close>; \<open>None\<close> is a syntax error. The fuel is the depth of calls: two for each character, since
  a value and the list it stands in take at least one character each. Escapes stand for code units
  below 256.
\<close>

section \<open>Strings and numbers\<close>

definition json_ws :: "string \<Rightarrow> string" where
  "json_ws s = dropWhile (\<lambda>c. c \<in> {CHR 0x20, CHR 0x09, CHR 0x0A, CHR 0x0D}) s"

definition json_escapes :: "(char \<times> char) list" where
  "json_escapes =
     [(CHR 0x22, CHR 0x22), (CHR 0x5C, CHR 0x5C), (CHR ''/'', CHR ''/''), (CHR ''b'', CHR 0x08), (CHR ''f'', CHR 0x0C),
      (CHR ''n'', CHR 0x0A), (CHR ''r'', CHR 0x0D), (CHR ''t'', CHR 0x09)]"

definition hex_digit :: "char \<Rightarrow> nat option" where
  "hex_digit c =
     (let n = of_char c :: nat
      in if 48 \<le> n \<and> n \<le> 57 then Some (n - 48)
         else if 97 \<le> n \<and> n \<le> 102 then Some (n - 87)
         else if 65 \<le> n \<and> n \<le> 70 then Some (n - 55) else None)"

definition hex_unit :: "string \<Rightarrow> char option" where
  "hex_unit ds =
     (case those (map hex_digit ds) of
        None \<Rightarrow> None
      | Some ns \<Rightarrow> (let n = foldl (\<lambda>a d. 16 * a + d) 0 ns in if length ds = 4 \<and> n < 256 then Some (char_of n) else None))"

text \<open>The characters after the opening quote, and what follows the closing one.\<close>

fun json_chars :: "nat \<Rightarrow> string \<Rightarrow> (string \<times> string) option" where
  "json_chars 0 s = None"
| "json_chars (Suc n) [] = None"
| "json_chars (Suc n) (c # s) =
     (if c = CHR 0x22 then Some ([], s)
      else if of_char c < (32 :: nat) then None
      else if c \<noteq> CHR 0x5C then map_option (\<lambda>(t, r). (c # t, r)) (json_chars n s)
      else (case s of
              [] \<Rightarrow> None
            | e # s' \<Rightarrow>
                (case (if e = CHR ''u'' then hex_unit (take 4 s') else map_of json_escapes e) of
                   None \<Rightarrow> None
                 | Some d \<Rightarrow> map_option (\<lambda>(t, r). (d # t, r)) (json_chars n (if e = CHR ''u'' then drop 4 s' else s')))))"

text \<open>A number: a sign, digits without a leading zero, a fraction, an exponent.\<close>

definition json_number :: "string \<Rightarrow> (rat \<times> string) option" where
  "json_number s0 =
     (let neg = starts_with s0 ''-'';
          s = (if neg then drop 1 s0 else s0);
          whole = (if starts_with s ''0'' then ''0'' else takeWhile is_digit s);
          r = drop (length whole) s;
          frac = (if starts_with r ''.'' then takeWhile is_digit (drop 1 r) else []);
          bad = (whole = [] \<or> starts_with r ''.'' \<and> frac = []);
          r = (if starts_with r ''.'' then drop (length frac + 1) r else r);
          has_exp = (starts_with r ''e'' \<or> starts_with r ''E'');
          t = snd (take_sign (drop 1 r));
          bad_exp = (has_exp \<and> takeWhile is_digit t = []);
          q = scale10 (exponent r) (of_nat (digits_value (whole @ frac)) / 10 ^ length frac)
      in if bad \<or> bad_exp then None
         else Some (if neg then - q else q, if has_exp then dropWhile is_digit t else r))"

section \<open>Values\<close>

fun json_value :: "nat \<Rightarrow> string \<Rightarrow> (jsvalue \<times> string) option" and
    json_items :: "nat \<Rightarrow> string \<Rightarrow> (jsvalue list \<times> string) option" and
    json_members :: "nat \<Rightarrow> string \<Rightarrow> ((string \<times> jsvalue) list \<times> string) option" where
  "json_value 0 s = None"
| "json_value (Suc n) s0 =
     (let s = json_ws s0
      in if starts_with s [CHR 0x22] then map_option (\<lambda>(t, r). (VStr t, r)) (json_chars (length s) (drop 1 s))
         else if starts_with s ''['' then
           (if starts_with (json_ws (drop 1 s)) '']'' then Some (VArr [], drop 1 (json_ws (drop 1 s)))
            else map_option (\<lambda>(vs, r). (VArr vs, r)) (json_items n (drop 1 s)))
         else if starts_with s ''{'' then
           (if starts_with (json_ws (drop 1 s)) ''}'' then Some (VObj [], drop 1 (json_ws (drop 1 s)))
            else map_option (\<lambda>(kvs, r). (VObj (foldl (\<lambda>m (k, v). obj_set k v m) [] kvs), r)) (json_members n (drop 1 s)))
         else if starts_with s ''true'' then Some (VBool True, drop 4 s)
         else if starts_with s ''false'' then Some (VBool False, drop 5 s)
         else if starts_with s ''null'' then Some (VNull, drop 4 s)
         else map_option (\<lambda>(q, r). (VNum q, r)) (json_number s))"
| "json_items 0 s = None"
| "json_items (Suc n) s =
     (case json_value n s of
        None \<Rightarrow> None
      | Some (v, r0) \<Rightarrow>
          (let r = json_ws r0
           in if starts_with r '','' then map_option (\<lambda>(vs, r). (v # vs, r)) (json_items n (drop 1 r))
              else if starts_with r '']'' then Some ([v], drop 1 r) else None))"
| "json_members 0 s = None"
| "json_members (Suc n) s0 =
     (let s = json_ws s0
      in if \<not> starts_with s [CHR 0x22] then None
         else (case json_chars (length s) (drop 1 s) of
                 None \<Rightarrow> None
               | Some (k, r0) \<Rightarrow>
                   (let r = json_ws r0
                    in if \<not> starts_with r '':'' then None
                       else (case json_value n (drop 1 r) of
                               None \<Rightarrow> None
                             | Some (v, t0) \<Rightarrow>
                                 (let t = json_ws t0
                                  in if starts_with t '','' then map_option (\<lambda>(kvs, r). ((k, v) # kvs, r)) (json_members n (drop 1 t))
                                     else if starts_with t ''}'' then Some ([(k, v)], drop 1 t) else None)))))"

definition json_parse :: "string \<Rightarrow> jsvalue option" where
  "json_parse s =
     (case json_value (2 * length s + 2) s of
        None \<Rightarrow> None
      | Some (v, r) \<Rightarrow> if json_ws r = [] then Some v else None)"

definition json_bool :: "bool \<Rightarrow> string" where
  "json_bool b = (if b then ''true'' else ''false'')"

lemma json_parse_bool [simp]: "json_parse (json_bool b) = Some (VBool b)"
proof -
  have "json_parse ''true'' = Some (VBool True)" "json_parse ''false'' = Some (VBool False)" by code_simp+
  then show ?thesis by (simp add: json_bool_def)
qed

lemma json_sample:
  "json_parse ''{1 : 1}'' = None"
  "json_parse ''[ 1, -2.5e1 , null,true ]'' = Some (VArr [VNum 1, VNum (-25), VNull, VBool True])"
  by code_simp+

end
