(* ===== verification/WptFlags.thy ===== *)
theory WptFlags
  imports JsJson
begin

text \<open>
  \<^verbatim>\<open>webapp/components/wpt-flags.js\<close>: feature flags, with defaults of the environment that the local storage
  overrides. The environment is \<open>None\<close> when its component is not loaded. A text that is not JSON is an
  exception.
\<close>

section \<open>The flags\<close>

definition ClientSideFeatures :: "string list" where
  "ClientSideFeatures = [''colorHomepage'', ''showMobileScoresView'']"

definition ServerSideFeatures :: "string list" where
  "ServerSideFeatures = [''failChecksOnRegression'', ''ignoreHarnessInTotal'']"

type_synonym local_storage = "string obj"

definition flag_key :: "string \<Rightarrow> string" where
  "flag_key feature = ''features.'' @ feature"

text \<open>\<open>stored && JSON.parse(stored)\<close>\<close>

definition stored_flag :: "local_storage \<Rightarrow> string \<Rightarrow> jsvalue option" where
  "stored_flag store feature =
     (case obj_get store (flag_key feature) of
        None \<Rightarrow> Some VNull
      | Some t \<Rightarrow> if t = [] then Some (VStr []) else json_parse t)"

definition feature_value :: "bool \<Rightarrow> local_storage \<Rightarrow> bool obj option \<Rightarrow> string \<Rightarrow> jsvalue option" where
  "feature_value useLocalStorage store env feature =
     map_option
       (\<lambda>v. if v = VNull \<and> env \<noteq> None then VBool (obj_get (the env) feature = Some True) else v)
       (if useLocalStorage then stored_flag store feature else Some VNull)"

text \<open>The property of a feature: whether it can be set, and its value.\<close>

record flag_property =
  fp_readOnly :: bool
  fp_value :: jsvalue

fun makeFeatureProperties ::
  "string list \<Rightarrow> bool \<Rightarrow> bool \<Rightarrow> local_storage \<Rightarrow> bool obj option \<Rightarrow> flag_property obj \<Rightarrow> flag_property obj option" where
  "makeFeatureProperties [] readOnly useLocalStorage store env target = Some target"
| "makeFeatureProperties (f # fs) readOnly useLocalStorage store env target =
     (case feature_value useLocalStorage store env f of
        None \<Rightarrow> None
      | Some v \<Rightarrow>
          makeFeatureProperties fs readOnly useLocalStorage store env (obj_set f \<lparr>fp_readOnly = readOnly, fp_value = v\<rparr> target))"

definition flags_properties :: "bool \<Rightarrow> bool \<Rightarrow> local_storage \<Rightarrow> bool obj option \<Rightarrow> flag_property obj option" where
  "flags_properties readOnly useLocalStorage store env =
     makeFeatureProperties ClientSideFeatures readOnly useLocalStorage store env []"

text \<open>What a component reads that extends \<open>WPTFlags\<close>.\<close>

definition wpt_flags :: "local_storage \<Rightarrow> bool obj option \<Rightarrow> flag_property obj option" where
  "wpt_flags store env = flags_properties True True store env"

definition setLocalStorageFlag :: "bool \<Rightarrow> string \<Rightarrow> local_storage \<Rightarrow> local_storage" where
  "setLocalStorageFlag v feature store = obj_set (flag_key feature) (json_bool v) store"

text \<open>\<open>None\<close> is an exception, \<open>VNull\<close> a flag that is not stored; an empty text is not JSON.\<close>

definition getLocalStorageFlag :: "local_storage \<Rightarrow> string \<Rightarrow> jsvalue option" where
  "getLocalStorageFlag store feature =
     (case obj_get store (flag_key feature) of None \<Rightarrow> Some VNull | Some t \<Rightarrow> json_parse t)"

section \<open>The editors\<close>

definition editor_properties :: "bool \<Rightarrow> local_storage \<Rightarrow> bool obj option \<Rightarrow> flag_property obj option" where
  "editor_properties environmentFlags store env =
     Option.bind (makeFeatureProperties ClientSideFeatures False (\<not> environmentFlags) store env [])
       (makeFeatureProperties ServerSideFeatures False (\<not> environmentFlags) store env)"

text \<open>An editor of the environment sends its changes to the server, the other one stores them.\<close>

record flags_editor =
  fe_environment :: bool
  fe_storage :: local_storage
  fe_posted :: "(string \<times> bool) list"

definition valueChanged :: "bool \<Rightarrow> string \<Rightarrow> flags_editor \<Rightarrow> flags_editor" where
  "valueChanged v feature e =
     (if fe_environment e then e\<lparr>fe_posted := fe_posted e @ [(feature, v)]\<rparr>
      else e\<lparr>fe_storage := setLocalStorageFlag v feature (fe_storage e)\<rparr>)"

definition flag_handleChange :: "bool \<Rightarrow> string \<Rightarrow> flags_editor \<Rightarrow> flags_editor" where
  "flag_handleChange checked box e = valueChanged checked box e"

section \<open>A stored flag wins\<close>

lemma flag_key_eq [simp]: "flag_key f = flag_key g \<longleftrightarrow> f = g"
  by (simp add: flag_key_def)

lemma stored_set: "stored_flag (setLocalStorageFlag v f store) g = (if g = f then Some (VBool v) else stored_flag store g)"
  using json_parse_bool [of v] by (cases v) (auto simp: stored_flag_def setLocalStorageFlag_def json_bool_def)

lemma make_feature:
  "f \<notin> set fs \<Longrightarrow> makeFeatureProperties fs ro use store env target = Some ps \<Longrightarrow> obj_get ps f = obj_get target f"
  by (induction fs arbitrary: target) (auto split: option.splits)

lemma make_features:
  "makeFeatureProperties fs ro use store env target = Some ps \<Longrightarrow> f \<in> set fs \<Longrightarrow>
   map_option fp_value (obj_get ps f) = feature_value use store env f"
proof (induction fs arbitrary: target)
  case (Cons g fs)
  then show ?case
    using make_feature [of f fs ro use store env] by (cases "f \<in> set fs") (auto split: option.splits)
qed simp

lemma feature_value_set:
  "feature_value True (setLocalStorageFlag v f store) env g =
     (if g = f then Some (VBool v) else feature_value True store env g)"
  by (simp add: feature_value_def stored_set)

lemma make_features_total:
  "(makeFeatureProperties fs ro use store env target \<noteq> None) = list_all (\<lambda>f. feature_value use store env f \<noteq> None) fs"
  by (induction fs arbitrary: target) (auto split: option.splits)

text \<open>
  A flag that is set in the local storage is what every component reads afterwards, whatever the
  environment says, and the other flags keep the value that they had.
\<close>

lemma flag_override:
  assumes "wpt_flags store env = Some ps" and "f \<in> set ClientSideFeatures"
  shows "\<exists>ps'. wpt_flags (setLocalStorageFlag v f store) env = Some ps' \<and>
    map_option fp_value (obj_get ps' f) = Some (VBool v) \<and>
    (\<forall>g \<in> set ClientSideFeatures. g \<noteq> f \<longrightarrow>
       map_option fp_value (obj_get ps' g) = map_option fp_value (obj_get ps g))"
proof -
  let ?store = "setLocalStorageFlag v f store"
  have "list_all (\<lambda>g. feature_value True store env g \<noteq> None) ClientSideFeatures"
    using assms(1) make_features_total [of ClientSideFeatures True True store env "[]"]
    by (simp add: wpt_flags_def flags_properties_def)
  then have "list_all (\<lambda>g. feature_value True ?store env g \<noteq> None) ClientSideFeatures"
    by (auto simp: feature_value_set list_all_iff)
  then obtain ps' where ps': "wpt_flags ?store env = Some ps'"
    using make_features_total [of ClientSideFeatures True True ?store env "[]"]
    by (auto simp: wpt_flags_def flags_properties_def)
  have new: "map_option fp_value (obj_get ps' g) = feature_value True ?store env g" if "g \<in> set ClientSideFeatures" for g
    using make_features [of ClientSideFeatures True True ?store env "[]" ps' g] ps' that
    by (simp add: wpt_flags_def flags_properties_def)
  have old: "map_option fp_value (obj_get ps g) = feature_value True store env g" if "g \<in> set ClientSideFeatures" for g
    using make_features [of ClientSideFeatures True True store env "[]" ps g] assms(1) that
    by (simp add: wpt_flags_def flags_properties_def)
  show ?thesis
  proof (intro exI conjI ballI impI)
    show "wpt_flags ?store env = Some ps'" by (rule ps')
    show "map_option fp_value (obj_get ps' f) = Some (VBool v)" unfolding new [OF assms(2)] by (simp add: feature_value_set)
    show "map_option fp_value (obj_get ps' g) = map_option fp_value (obj_get ps g)"
      if "g \<in> set ClientSideFeatures" "g \<noteq> f" for g
      unfolding new [OF that(1)] old [OF that(1)] using that(2) by (simp add: feature_value_set)
  qed
qed

theorem flag_override_witness:
  "\<exists>ps'. wpt_flags (setLocalStorageFlag False ''colorHomepage'' []) (Some [(''colorHomepage'', True)]) = Some ps' \<and>
    map_option fp_value (obj_get ps' ''colorHomepage'') = Some (VBool False) \<and>
    (\<forall>g \<in> set ClientSideFeatures. g \<noteq> ''colorHomepage'' \<longrightarrow>
       map_option fp_value (obj_get ps' g) =
       map_option fp_value (obj_get [(''colorHomepage'', \<lparr>fp_readOnly = True, fp_value = VBool True\<rparr>),
         (''showMobileScoresView'', \<lparr>fp_readOnly = True, fp_value = VBool False\<rparr>)] g))"
  by (rule flag_override) (code_simp, simp add: ClientSideFeatures_def)

text \<open>The environment counts only where nothing is stored.\<close>

lemma flag_default: "obj_get store (flag_key f) = None \<Longrightarrow> feature_value True store (Some env) f = Some (VBool (obj_get env f = Some True))"
  by (simp add: feature_value_def stored_flag_def)

text \<open>The editor of the local storage shows what was stored with it.\<close>

lemma editor_stores:
  "\<not> fe_environment e \<Longrightarrow> stored_flag (fe_storage (flag_handleChange v f e)) f = Some (VBool v)"
  by (simp add: flag_handleChange_def valueChanged_def stored_set)

end
