(* ===== verification/WptApp.thy ===== *)
theory WptApp
  imports RunsQueryState WptRuns WptResults PathNav WptFlags
begin

text \<open>
  \<^verbatim>\<open>webapp/views/wpt-app.js\<close>: the app of the page of results, with its query (\<open>RunsQueryState\<close>), its route, the
  view it shows, the editor of the query, and the graph of browser specific failures. The text that replaces
  \<^verbatim>\<open>Showing\<close> in the message is taken as it is (a path with a dollar sign is not). \<open>None\<close> is an exception.
\<close>

section \<open>State\<close>

text \<open>The queries of the elements of the page, by name; the time at which the pointer entered the graph.\<close>

record wpt_app =
  wa_runs :: runs_state
  wa_builder :: runs_state
  wa_page :: string
  wa_path :: "string option"
  wa_views :: "string option obj"
  wa_location_query :: "string option"
  wa_search :: string
  wa_searchCleared :: nat
  wa_testRuns :: "nat list option"
  wa_editingQuery :: bool
  wa_isBSFCollapsed :: bool
  wa_isInteracting :: bool
  wa_bsfStartTime :: "int option"
  wa_isTriageMode :: bool
  wa_permalinksOpen :: bool
  wa_toastShown :: bool
  wa_storage :: local_storage
  wa_events :: "(string \<times> int) list"

text \<open>The element of the page, when the template has one of this name.\<close>

definition activeView :: "wpt_app \<Rightarrow> string option" where
  "activeView a = (if has_key (wa_views a) (''wpt-'' @ wa_page a) then Some (''wpt-'' @ wa_page a) else None)"

definition set_view_query :: "string option \<Rightarrow> wpt_app \<Rightarrow> wpt_app" where
  "set_view_query q a =
     (case activeView a of None \<Rightarrow> a | Some v \<Rightarrow> a\<lparr>wa_views := obj_set v q (wa_views a)\<rparr>)"

section \<open>The query\<close>

text \<open>The location and the view get the query before the app reads it.\<close>

definition app_queryChanged :: "param option \<Rightarrow> string \<Rightarrow> wpt_app \<Rightarrow> (string \<times> wpt_app) + wpt_app" where
  "app_queryChanged dmc q a =
     (if q = [] \<or> rs_dontReact (wa_runs a) then Inr a
      else
        (let a = set_view_query (Some q) (a\<lparr>wa_location_query := Some q\<rparr>)
         in case runs_queryChanged dmc q (wa_runs a) of
              Inl (e, s) \<Rightarrow> Inl (e, a\<lparr>wa_runs := s\<rparr>)
            | Inr s \<Rightarrow> Inr (a\<lparr>wa_runs := s\<rparr>)))"

definition app_set_query :: "param option \<Rightarrow> string option \<Rightarrow> wpt_app \<Rightarrow> (string \<times> wpt_app) + wpt_app" where
  "app_set_query dmc q a =
     (if rs_query (wa_runs a) = q then Inr a
      else
        (let a = a\<lparr>wa_runs := (wa_runs a)\<lparr>rs_query := q\<rparr>\<rparr>
         in case q of None \<Rightarrow> Inr a | Some t \<Rightarrow> app_queryChanged dmc t a))"

definition routeChanged :: "string option \<Rightarrow> wpt_app \<Rightarrow> wpt_app" where
  "routeChanged page a =
     (let a = a\<lparr>wa_page := or_else page ''results''\<rparr> in set_view_query (rs_query (wa_runs a)) a)"

definition subrouteChanged :: "string option \<Rightarrow> wpt_app \<Rightarrow> wpt_app" where
  "subrouteChanged path a = a\<lparr>wa_path := Some (or_else path ''/'')\<rparr>"

section \<open>Handlers\<close>

definition togglePermalinks :: "wpt_app \<Rightarrow> wpt_app" where
  "togglePermalinks a = a\<lparr>wa_permalinksOpen := True\<rparr>"

definition toggleQueryEdit :: "wpt_app \<Rightarrow> wpt_app" where
  "toggleQueryEdit a = a\<lparr>wa_editingQuery := \<not> wa_editingQuery a\<rparr>"

definition handleCollapse :: "bool \<Rightarrow> wpt_app \<Rightarrow> wpt_app" where
  "handleCollapse gtag a =
     (let c = (\<not> wa_isBSFCollapsed a)
      in a\<lparr>wa_isBSFCollapsed := c,
           wa_events := wa_events a @ (if gtag then [(''visibility change'', if c then 1 else 0)] else []),
           wa_storage := setLocalStorageFlag c ''isBSFCollapsed'' (wa_storage a)\<rparr>)"

definition enterBSF :: "int \<Rightarrow> wpt_app \<Rightarrow> wpt_app" where
  "enterBSF now a = (if wa_isInteracting a then a else a\<lparr>wa_bsfStartTime := Some now\<rparr>)"

definition exitBSF :: "bool \<Rightarrow> int \<Rightarrow> wpt_app \<Rightarrow> wpt_app" where
  "exitBSF gtag now a =
     (case wa_bsfStartTime a of
        None \<Rightarrow> a
      | Some t \<Rightarrow>
          (let duration = math_round (of_int (now - t) / 1000)
           in if wa_isInteracting a \<or> duration \<le> 0 then a
              else a\<lparr>wa_events := wa_events a @ (if gtag then [(''hover'', duration)] else []), wa_bsfStartTime := None\<rparr>))"

definition bsfIsInteractingChanged :: "bool \<Rightarrow> wpt_app \<Rightarrow> wpt_app" where
  "bsfIsInteractingChanged v a = a\<lparr>wa_isInteracting := v\<rparr>"

text \<open>The move that a key asks for; keys count only when nothing has the focus.\<close>

definition app_handleKeyDown :: "bool \<Rightarrow> string \<Rightarrow> bool option" where
  "app_handleKeyDown onBody key =
     (if \<not> onBody then None else if key = ''n'' then Some True else if key = ''p'' then Some False else None)"

definition app_handleSubmitQuery :: "param option \<Rightarrow> wpt_app \<Rightarrow> (string \<times> wpt_app) + wpt_app" where
  "app_handleSubmitQuery dmc a =
     (let a = a\<lparr>wa_editingQuery := False\<rparr>
      in case (case rs_queryParams (wa_builder a) of
                 None \<Rightarrow> clearQuery dmc (wa_runs a)
               | Some ps \<Rightarrow> updateQueryParams dmc ps (wa_runs a)) of
           Inl (e, s) \<Rightarrow> Inl (e, a\<lparr>wa_runs := s\<rparr>)
         | Inr s \<Rightarrow> Inr (a\<lparr>wa_runs := s\<rparr>))"

definition handleAddMasterLabel :: "param option \<Rightarrow> wpt_app \<Rightarrow> (string \<times> wpt_app) + wpt_app" where
  "handleAddMasterLabel dmc a =
     (case set_ui dmc (SetMaster True) (wa_builder a) of
        Inl (e, s) \<Rightarrow> Inl (e, a\<lparr>wa_builder := s\<rparr>)
      | Inr s \<Rightarrow>
          (case app_handleSubmitQuery dmc (a\<lparr>wa_builder := s\<rparr>) of
             Inl ea \<Rightarrow> Inl ea
           | Inr a \<Rightarrow> Inr (a\<lparr>wa_toastShown := False\<rparr>)))"

definition handleSearchCommit :: "string \<Rightarrow> wpt_app \<Rightarrow> wpt_app" where
  "handleSearchCommit q a = a\<lparr>wa_search := q\<rparr>"

definition handleSearchAutocomplete :: "string \<Rightarrow> wpt_app \<Rightarrow> wpt_app" where
  "handleSearchAutocomplete path a = subrouteChanged (Some path) (a\<lparr>wa_searchCleared := wa_searchCleared a + 1\<rparr>)"

definition handleTriageToggle :: "bool \<Rightarrow> wpt_app \<Rightarrow> wpt_app" where
  "handleTriageToggle v a = a\<lparr>wa_isTriageMode := v\<rparr>"

definition handleTestRunsLoad :: "nat list \<Rightarrow> wpt_app \<Rightarrow> wpt_app" where
  "handleTestRunsLoad runs a = a\<lparr>wa_testRuns := Some runs\<rparr>"

text \<open>The warning about experimental runs that are not of the master branch.\<close>

definition app_ready :: "wpt_app \<Rightarrow> wpt_app" where
  "app_ready a =
     (let ls = (case rs_queryParams (wa_runs a) of None \<Rightarrow> None | Some ps \<Rightarrow> param_array ps ''label'')
      in case ls of
           None \<Rightarrow> a
         | Some l \<Rightarrow> if ''experimental'' \<in> set l \<and> ''master'' \<notin> set l then a\<lparr>wa_toastShown := True\<rparr> else a)"

section \<open>Computed properties\<close>

definition computeEditable :: "params \<Rightarrow> bool" where
  "computeEditable ps = (\<not> (truthy_param (obj_get ps ''run_id'') \<or> has_key ps ''max-count''))"

definition app_computeIsLoading :: "bool \<Rightarrow> bool" where
  "app_computeIsLoading resultsLoading = resultsLoading"

text \<open>The largest total of a result; \<open>Math.max\<close> of nothing is \<open>None\<close>, minus infinity.\<close>

definition max_total :: "run_result list \<Rightarrow> int option" where
  "max_total rs = (case map rs_total rs of [] \<Rightarrow> None | t # ts \<Rightarrow> Some (foldl max t ts))"

definition add_total :: "int option \<Rightarrow> int option \<Rightarrow> int option" where
  "add_total a b = (case (a, b) of (Some x, Some y) \<Rightarrow> Some (x + y) | _ \<Rightarrow> None)"

text \<open>Subtests and tests below a path; a result without statuses is an exception.\<close>

fun count_tests :: "string \<Rightarrow> search_result list \<Rightarrow> int option \<times> nat \<Rightarrow> (int option \<times> nat) option" where
  "count_tests path [] st = Some st"
| "count_tests path (r # rs) (subtests, tests) =
     (if starts_with (sr_test r) path then
        (case legacy_status r of
           None \<Rightarrow> None
         | Some ss \<Rightarrow> count_tests path rs (add_total subtests (max_total ss), tests + 1))
      else count_tests path rs (subtests, tests))"

definition tests_text :: "string option \<Rightarrow> int option \<times> nat \<Rightarrow> string" where
  "tests_text path counts =
     (case counts of (subtests, tests) \<Rightarrow>
        if tests > 1 then
          show_nat tests @ '' tests'' @
          (case subtests of Some n \<Rightarrow> if n > 1 then '' ('' @ show_int n @ '' subtests)'' else [] | None \<Rightarrow> []) @
          (case path of Some p \<Rightarrow> if length p > 1 then '' in '' @ drop 1 p else [] | None \<Rightarrow> [])
        else [])"

definition computeResultsTotalsRangeMessage ::
  "string \<Rightarrow> string \<Rightarrow> string option \<Rightarrow> search_result list option \<Rightarrow> nat option \<Rightarrow> string \<Rightarrow> string option" where
  "computeResultsTotalsRangeMessage base page path results subtestRowCount msg =
     (case results of
        None \<Rightarrow> Some msg
      | Some rs \<Rightarrow>
          if page \<noteq> ''results'' then Some msg
          else if computePathIsATestFile base path then
            Some (case subtestRowCount of
                None \<Rightarrow> msg
              | Some n \<Rightarrow> if n = 0 \<or> n = 1 then msg
                  else replace_first ''Showing '' (''Showing '' @ show_nat n @ '' subtests from '') msg)
          else
            map_option (\<lambda>c. replace_first ''Showing '' (''Showing '' @ tests_text path c @ '' from '') msg)
              (count_tests (or_else path ''undefined'') rs (Some 0, 0)))"

definition computeBSFBannerMessage :: "bool \<Rightarrow> string" where
  "computeBSFBannerMessage isBSFCollapsed =
     ''Browser Specific Failures graph (click the arrow to '' @ (if isBSFCollapsed then ''expand'' else ''collapse'') @ '')''"

definition computeShowBSFGraph :: "string \<Rightarrow> params \<Rightarrow> bool \<Rightarrow> bool" where
  "computeShowBSFGraph page ps pathIsRootDir =
     (if page \<noteq> ''results'' then False
      else if truthy_param (obj_get ps ''q'') \<or> truthy_param (obj_get ps ''run_id'') \<or> truthy_param (obj_get ps ''sha'') then False
      else pathIsRootDir)"

definition computeIsBSFCollapsed :: "local_storage \<Rightarrow> jsvalue option" where
  "computeIsBSFCollapsed store =
     map_option (\<lambda>v. if v = VNull then VBool False else v) (getLocalStorageFlag store ''isBSFCollapsed'')"

definition getCollapseIcon :: "bool \<Rightarrow> string" where
  "getCollapseIcon isBSFCollapsed = (if isBSFCollapsed then ''/static/expand_more.svg'' else ''/static/expand_less.svg'')"

section \<open>The message counts what is shown\<close>

definition tests_below :: "string \<Rightarrow> search_result list \<Rightarrow> search_result list" where
  "tests_below path rs = filter (\<lambda>r. starts_with (sr_test r) path) rs"

definition result_counted :: "search_result \<Rightarrow> bool" where
  "result_counted r = (case legacy_status r of Some (s # ss) \<Rightarrow> True | _ \<Rightarrow> False)"

text \<open>The subtests of a test: the most that a run has.\<close>

definition most_subtests :: "search_result \<Rightarrow> int" where
  "most_subtests r = Max (rs_total ` set (the (legacy_status r)))"

lemma foldl_max: "foldl max (m :: int) xs = Max (insert m (set xs))"
proof (induction xs arbitrary: m)
  case (Cons x xs)
  show ?case unfolding foldl.simps Cons.IH by (cases "xs = []") (simp_all add: max.assoc insert_commute)
qed simp

lemma max_total_counted: "result_counted r \<Longrightarrow> max_total (the (legacy_status r)) = Some (most_subtests r)"
  by (auto simp: result_counted_def max_total_def most_subtests_def foldl_max split: option.splits list.splits)

lemma count_tests_eq:
  assumes "list_all result_counted rs"
  shows "count_tests path rs (Some n, k) = Some (Some (n + sum_list (map most_subtests (tests_below path rs))), k + length (tests_below path rs))"
  using assms
proof (induction rs arbitrary: n k)
  case (Cons r rs)
  then obtain ss where ss: "legacy_status r = Some ss" by (auto simp: result_counted_def split: option.splits)
  have "max_total ss = Some (most_subtests r)" using max_total_counted [of r] Cons.prems ss by simp
  with Cons ss show ?case by (simp add: tests_below_def add_total_def add.assoc)
qed (simp add: tests_below_def)

lemma replace_showing: "replace_first ''Showing '' r (''Showing '' @ rest) = r @ rest"
  by (simp add: replace_first_def)

text \<open>
  In a folder with at least two tests the message counts the tests below the path and, when there are more
  than one, the largest number of subtests of each, and keeps what it says about the runs.
\<close>

lemma message_counts:
  assumes "list_all result_counted rs" and "\<not> computePathIsATestFile base (Some path)" and "path \<noteq> []"
    and "length (tests_below path rs) > 1"
  shows "computeResultsTotalsRangeMessage base ''results'' (Some path) (Some rs) rows (''Showing '' @ rest) =
    Some (''Showing '' @ show_nat (length (tests_below path rs)) @ '' tests'' @
      (if sum_list (map most_subtests (tests_below path rs)) > 1
       then '' ('' @ show_int (sum_list (map most_subtests (tests_below path rs))) @ '' subtests)'' else []) @
      (if length path > 1 then '' in '' @ drop 1 path else []) @ '' from '' @ rest)"
proof -
  have "count_tests path rs (Some 0, 0) = Some (Some (sum_list (map most_subtests (tests_below path rs))), length (tests_below path rs))"
    using count_tests_eq [OF assms(1), of path 0 0] by simp
  then show ?thesis
    using assms(2-4) replace_showing
    by (simp add: computeResultsTotalsRangeMessage_def or_else_def tests_text_def)
qed

definition totals_result :: "string \<Rightarrow> int list \<Rightarrow> search_result" where
  "totals_result t ns =
     \<lparr>sr_test = t, legacy_status = Some (map (\<lambda>n. \<lparr>rs_passes = 0, rs_total = n, rs_status = None, newAggProcess = False\<rparr>) ns),
      sr_diff = None\<rparr>"

theorem message_counts_witness:
  "computeResultsTotalsRangeMessage ''/'' ''results'' (Some ''/css'')
      (Some [totals_result ''/css/a.html'' [2, 3], totals_result ''/css/b.html'' [1], totals_result ''/dom/c.html'' [9]]) None
      (''Showing '' @ ''test runs'') =
    Some (''Showing '' @ show_nat 2 @ '' tests'' @ '' ('' @ show_int 4 @ '' subtests)'' @ '' in css'' @ '' from '' @ ''test runs'')"
proof -
  let ?rs = "[totals_result ''/css/a.html'' [2, 3], totals_result ''/css/b.html'' [1], totals_result ''/dom/c.html'' [9]]"
  have not_file: "\<not> computePathIsATestFile ''/'' (Some ''/css'')" by code_simp
  have tests_below: "tests_below ''/css'' ?rs = [totals_result ''/css/a.html'' [2, 3], totals_result ''/css/b.html'' [1]]"
    by (simp add: tests_below_def totals_result_def)
  have sum: "sum_list (map most_subtests (tests_below ''/css'' ?rs)) = 4"
    unfolding tests_below by (simp add: most_subtests_def totals_result_def)
  have "list_all result_counted ?rs" by (simp add: result_counted_def totals_result_def)
  from message_counts [OF this not_file, of None "''test runs''"] show ?thesis unfolding sum by (simp add: tests_below numeral_2_eq_2)
qed

text \<open>With a single test the message has a gap where the count would be.\<close>

lemma single_test_gap:
  "computeResultsTotalsRangeMessage ''/'' ''results'' (Some ''/css'') (Some [totals_result ''/css/a.html'' [2]]) None
     ''Showing the latest test runs'' = Some ''Showing  from the latest test runs''"
  by code_simp

section \<open>The graph\<close>

text \<open>Whether the graph is collapsed is remembered.\<close>

lemma collapse_remembered: "computeIsBSFCollapsed (wa_storage (handleCollapse gtag a)) = Some (VBool (wa_isBSFCollapsed (handleCollapse gtag a)))"
  by (simp add: handleCollapse_def computeIsBSFCollapsed_def getLocalStorageFlag_def setLocalStorageFlag_def Let_def)

text \<open>An empty query does not reach the view, which keeps the one before.\<close>

lemma empty_query_ignored: "app_set_query dmc (Some []) a = Inr a' \<Longrightarrow> wa_views a' = wa_views a"
  by (auto simp: app_set_query_def app_queryChanged_def Let_def split: if_splits)

end
