(* ===== verification/Permalinks.thy ===== *)
theory Permalinks
  imports QueryParams PathNav
begin

text \<open>
  \<^verbatim>\<open>webapp/components/wpt-permalinks.js\<close>: links to the runs that are shown, or to the query for them.
\<close>

section \<open>State\<close>

text \<open>The first tab links to the runs themselves.\<close>

record permalinks =
  pl_path :: "string option"
  pl_queryParams :: params
  pl_pathPrefix :: "string option"
  pl_testRuns :: "nat list option"
  pl_includePath :: bool
  pl_includeSearch :: bool
  pl_selectedTab :: nat
  pl_dialogOpen :: bool
  pl_toast :: "(string \<times> nat) option"

definition new_permalinks :: permalinks where
  "new_permalinks =
     \<lparr>pl_path = None, pl_queryParams = [], pl_pathPrefix = None, pl_testRuns = None, pl_includePath = True,
      pl_includeSearch = True, pl_selectedTab = 0, pl_dialogOpen = False, pl_toast = None\<rparr>"

definition open_permalinks :: "permalinks \<Rightarrow> permalinks" where
  "open_permalinks p = p\<lparr>pl_dialogOpen := True\<rparr>"

section \<open>The link\<close>

text \<open>Assigning \<open>pathname\<close> of a URL: a question mark or a hash is part of the path.\<close>

definition set_pathname :: "string \<Rightarrow> string" where
  "set_pathname s0 =
     (let s = map (\<lambda>c. if c = CHR 0x5C then CHR ''/'' else c) (filter (\<lambda>c. c \<notin> {CHR 0x09, CHR 0x0A, CHR 0x0D}) s0)
      in CHR ''/'' # join ''/'' (resolve_segments [] (split_on (CHR ''/'') (if starts_with s ''/'' then drop 1 s else s))))"

definition copy_param :: "string \<Rightarrow> params \<Rightarrow> params \<Rightarrow> params" where
  "copy_param k src ps = set_if (truthy_param (obj_get src k)) k (the (obj_get src k)) ps"

text \<open>The params of the tab with the runs.\<close>

definition run_params :: "params \<Rightarrow> nat list option \<Rightarrow> params" where
  "run_params qs runs =
     (let ps = copy_param ''q'' qs [];
          ps = copy_param ''diff'' qs ps;
          ps = (if truthy_param (obj_get qs ''diff'') then copy_param ''filter'' qs ps else ps)
      in (case runs of
            Some (r # rs) \<Rightarrow> obj_set ''run_id'' (PList (map show_nat (r # rs))) ps
          | _ \<Rightarrow> ps))"

definition permalink_params :: "permalinks \<Rightarrow> params" where
  "permalink_params p =
     (let ps = (if pl_selectedTab p = 0 then run_params (pl_queryParams p) (pl_testRuns p) else pl_queryParams p)
      in if \<not> pl_includeSearch p then filter (\<lambda>(k, v). k \<noteq> ''q'') ps else ps)"

definition link_path :: "permalinks \<Rightarrow> string" where
  "link_path p =
     (let start = (if truthy (pl_pathPrefix p) then set_pathname (the (pl_pathPrefix p)) else ''/'')
      in if pl_includePath p \<and> truthy (pl_path p) then set_pathname (start @ drop 1 (the (pl_path p))) else start)"

text \<open>The query that is assigned to \<open>search\<close>; an undefined one is the text \<open>undefined\<close>.\<close>

definition link_search :: "permalinks \<Rightarrow> string" where
  "link_search p = (case computeQuery (permalink_params p) of None \<Rightarrow> ''undefined'' | Some q \<Rightarrow> q)"

definition permalinks_computeURL :: "string \<Rightarrow> permalinks \<Rightarrow> string" where
  "permalinks_computeURL origin p =
     origin @ link_path p @ (if link_search p = [] then [] else ''?'' @ link_search p)"

definition handleCopyToClipboard :: "bool \<Rightarrow> permalinks \<Rightarrow> permalinks" where
  "handleCopyToClipboard copied p =
     p\<lparr>pl_toast := Some (if copied then (''URL copied to clipboard!'', 2000)
        else (''Failed to copy URL to clipboard. Copy it manually.'', 5000))\<rparr>"

section \<open>The link names the runs\<close>

definition pairs_ok :: "params \<Rightarrow> bool" where
  "pairs_ok ps \<longleftrightarrow> distinct (obj_keys ps) \<and> (\<forall>(k, v) \<in> set ps. k \<noteq> [] \<and> writable_value v)"

lemma pairs_ok_writable: "pairs_ok ps \<Longrightarrow> ps \<noteq> [] \<Longrightarrow> writable ps"
  by (auto simp: pairs_ok_def writable_def list_all_iff)

lemma obj_set_subset: "set (obj_set k v ps) \<subseteq> insert (k, v) (set ps)"
  by (induction ps) auto

lemma pairs_ok_set: "pairs_ok ps \<Longrightarrow> k \<noteq> [] \<Longrightarrow> writable_value v \<Longrightarrow> pairs_ok (obj_set k v ps)"
  using obj_set_subset [of k v ps] distinct_keys_set [of ps k v] unfolding pairs_ok_def by blast

lemma pairs_ok_copy: "pairs_ok ps \<Longrightarrow> pairs_ok src \<Longrightarrow> k \<noteq> [] \<Longrightarrow> pairs_ok (copy_param k src ps)"
proof -
  assume ps: "pairs_ok ps" and src: "pairs_ok src" and k: "k \<noteq> []"
  show ?thesis
  proof (cases "obj_get src k")
    case None
    then show ?thesis using ps by (simp add: copy_param_def set_if_def truthy_param_def)
  next
    case (Some v)
    then have "writable_value v" using src map_of_SomeD [of src k v] by (auto simp: pairs_ok_def)
    then show ?thesis using ps k Some pairs_ok_set by (simp add: copy_param_def set_if_def)
  qed
qed

lemma pairs_ok_filter: "pairs_ok ps \<Longrightarrow> pairs_ok (filter P ps)"
  by (auto simp: pairs_ok_def distinct_map_filter)

lemma show_nat_plain: "\<not> starts_with (show_nat n) ''true''"
  using show_nat_digits [of "CHR ''t''" n] by (cases "show_nat n") (auto simp: is_digit_def)

lemma run_params_ok:
  assumes "pairs_ok qs" and "ids \<noteq> []"
  shows "pairs_ok (run_params qs (Some ids))" "obj_get (run_params qs (Some ids)) ''run_id'' = Some (PList (map show_nat ids))"
proof -
  have "writable_value (PList (map show_nat ids))"
    using assms(2) show_nat_plain by (auto simp: writable_value_def list_all_iff)
  moreover have "pairs_ok []" by (simp add: pairs_ok_def)
  ultimately show "pairs_ok (run_params qs (Some ids))"
    using assms by (cases ids) (auto simp: run_params_def Let_def intro!: pairs_ok_set pairs_ok_copy simp del: list.map)
  show "obj_get (run_params qs (Some ids)) ''run_id'' = Some (PList (map show_nat ids))"
    using assms(2) by (cases ids) (auto simp: run_params_def Let_def)
qed

lemma obj_get_filter: "P k \<Longrightarrow> obj_get (filter (\<lambda>(k, v). P k) ps) k = obj_get ps k"
  by (induction ps) auto

lemma obj_get_map_values: "obj_get (map (\<lambda>(k, v). (k, f v)) ps) k = map_option f (obj_get ps k)"
  by (induction ps) auto

lemma as_array_other: "k \<noteq> k' \<Longrightarrow> obj_get (as_array ps k') k = obj_get ps k"
  by (auto simp: as_array_def split: option.splits param.splits)

lemma as_flag_other: "k \<noteq> k' \<Longrightarrow> obj_get (as_flag ps k') k = obj_get ps k"
  by (simp add: as_flag_def)

lemma parsed_run_ids:
  assumes "obj_get (parseParams q) ''run_id'' = Some (reread (PList ids))" and "ids \<noteq> []"
  shows "param_array (parseUIQuery q) ''run_id'' = Some ids"
proof -
  have "obj_get (parseRunsQuery q) ''run_id'' = Some (reread (PList ids))"
    using assms(1) by (simp add: parseRunsQuery_def Let_def as_array_other as_flag_other)
  moreover have "reread (PList ids) = (case ids of [s] \<Rightarrow> PStr s | _ \<Rightarrow> PList ids)"
    by (auto simp: reread_def split: list.splits)
  ultimately have "obj_get (as_array (parseRunsQuery q) ''run_id'') ''run_id'' = Some (PList ids)"
    using assms(2) by (auto simp: as_array_def split: list.splits)
  then show ?thesis by (simp add: parseUIQuery_def param_array_def as_flag_other)
qed

text \<open>
  The permalink of the first tab names exactly the runs that are shown: the page that it opens reads their
  ids, in their order, whatever else the query has.
\<close>

lemma permalink_runs:
  assumes "pl_selectedTab p = 0" and "pl_testRuns p = Some ids" and "ids \<noteq> []" and "pairs_ok (pl_queryParams p)"
  shows "param_array (parseUIQuery (link_search p)) ''run_id'' = Some (map show_nat ids)"
proof -
  let ?ps = "permalink_params p"
  have ok: "pairs_ok ?ps" and ids: "obj_get ?ps ''run_id'' = Some (PList (map show_nat ids))"
    using run_params_ok [OF assms(4,3)] assms(1,2)
      obj_get_filter [of "\<lambda>k. k \<noteq> ''q''" "''run_id''" "run_params (pl_queryParams p) (Some ids)"]
    by (auto simp: permalink_params_def Let_def pairs_ok_filter)
  then have "?ps \<noteq> []" by auto
  from query_roundtrip [OF pairs_ok_writable [OF ok this]] obtain q
    where q: "computeQuery ?ps = Some q" "parseParams q = map (\<lambda>(k, v). (k, reread v)) ?ps" by blast
  have "obj_get (parseParams q) ''run_id'' = Some (reread (PList (map show_nat ids)))"
    using ids by (simp add: q(2) obj_get_map_values)
  from parsed_run_ids [OF this] assms(3) show ?thesis by (simp add: link_search_def q(1))
qed

theorem permalink_runs_witness:
  "param_array (parseUIQuery (link_search
      (new_permalinks\<lparr>pl_testRuns := Some [123, 45], pl_queryParams := [(''q'', PStr ''css''), (''diff'', PBool True)]\<rparr>))) ''run_id'' =
    Some (map show_nat [123, 45])"
  by (rule permalink_runs) (simp_all add: new_permalinks_def pairs_ok_def writable_value_def)

end
