(* ===== verification/AppTable.thy ===== *)
theory AppTable
  imports WptApp Permalinks JsHtml
begin

text \<open>
  The template of \<^verbatim>\<open>webapp/views/wpt-app.js\<close>: the path with its links, the search box, the links of a test, the graph of
  browser specific failures, the message with its buttons, and the page that is selected. The elements of other
  components are shown with the properties that they are given. \<open>None\<close> is an exception.
\<close>

section \<open>The template\<close>

record app_env =
  ae_base :: string
  ae_user :: "string option"
  ae_resultsLoading :: bool
  ae_message :: "string option"
  ae_revision :: "string option"

datatype app_comp =
  AppHeader string "string option" "string option" bool
| AppSpinner bool
| AppSearch string
| AppBsf bool
| AppPermalinks "string option" string "params option"
| AppBuilder "params option"
| AppResults "string option" "string option" bool
| AppNotFound

datatype app_button = AppEnter | AppExit | AppCollapse | AppLink | AppEdit | AppSubmit | AppAddMaster | AppDismiss

type_synonym app_html = "(app_comp, app_button) html"

definition app_query_text :: "wpt_app \<Rightarrow> string" where
  "app_query_text a = or_else (rs_query (wa_runs a)) []"

text \<open>A part of the path and its address.\<close>

definition part_link :: "wpt_app \<Rightarrow> string \<times> string \<Rightarrow> app_html list" where
  "part_link a part =
     [Elem ''span'' [(''class'', ''path-separator'')] [] [Txt ''/''],
      Elem ''a'' [(''href'', ''/'' @ wa_page a @ snd part @ ''?'' @ app_query_text a)] [] [Txt (fst part)]]"

definition path_html :: "app_env \<Rightarrow> wpt_app \<Rightarrow> app_html option" where
  "path_html env a =
     map_option
       (\<lambda>ps. Elem ''div'' [(''class'', ''path'')] []
          (Elem ''a'' [(''href'', ''/'' @ wa_page a @ ''/?'' @ app_query_text a)] [] [Txt ''wpt''] # concat (map (part_link a) ps)))
       (splitPathIntoLinkedParts (ae_base env) (wa_path a))"

text \<open>The links of a test: its source at the revision of the first run and of the master branch, and the test itself.\<close>

definition test_links :: "app_env \<Rightarrow> wpt_app \<Rightarrow> app_html list" where
  "test_links env a =
     (let path = or_else (wa_path a) [];
          source = (\<lambda>label rev. Elem ''a'' [(''href'', ''https://github.com/web-platform-tests/wpt/blob/'' @ rev @ path), (''target'', ''_blank'')] [] [Txt label])
      in if computePathIsATestFile (ae_base env) (wa_path a)
         then [Elem ''div'' [(''class'', ''links'')] []
                [Elem ''ul'' [] []
                  [Elem ''li'' [] [] [Txt ''View source on GitHub'', source ''current commit'' (or_else (ae_revision env) []), source ''master branch'' ''master''],
                   Elem ''li'' [] []
                     [Elem ''a'' [(''href'', computeTestScheme (wa_path a) @ ''://wpt.live'' @ path), (''target'', ''_blank'')] []
                        [Txt ''Run in your browser on wpt.live'']]]]]
         else [])"

definition search_section :: "app_env \<Rightarrow> wpt_app \<Rightarrow> app_html option" where
  "search_section env a =
     map_option
       (\<lambda>p. Elem ''section'' [(''class'', ''search'')] []
          ([p, Comp (AppSpinner (app_computeIsLoading (ae_resultsLoading env))), Comp (AppSearch (search_text (rs_ui (wa_runs a))))] @
           test_links env a))
       (path_html env a)"

definition bsf_html :: "wpt_app \<Rightarrow> app_html list" where
  "bsf_html a =
     (if computeShowBSFGraph (wa_page a) (case rs_queryParams (wa_runs a) of None \<Rightarrow> [] | Some ps \<Rightarrow> ps) (computePathIsRootDir (wa_path a))
      then [Elem ''div'' [] [(''mouseenter'', AppEnter), (''mouseleave'', AppExit)]
             (Elem ''info-banner'' [] []
                [Elem ''paper-icon-button'' [(''src'', getCollapseIcon (wa_isBSFCollapsed a)), (''aria-label'', ''Hide BSF graph'')]
                   [(''click'', AppCollapse)] [],
                 Txt (computeBSFBannerMessage (wa_isBSFCollapsed a))] #
              (if \<not> wa_isBSFCollapsed a
               then [Elem ''iron-collapse'' [(''opened'', [])] [] [Comp (AppBsf (wa_isInteracting a))]] else []))]
      else [])"

definition message_html :: "app_env \<Rightarrow> wpt_app \<Rightarrow> app_html list" where
  "message_html env a =
     (case ae_message env of
        None \<Rightarrow> []
      | Some msg \<Rightarrow>
          if msg = [] then []
          else
            (let editable = computeEditable (case rs_queryParams (wa_runs a) of None \<Rightarrow> [] | Some ps \<Rightarrow> ps)
             in [Elem ''info-banner'' [] []
                  ([Txt msg] @
                   (if \<not> editable
                    then [Elem ''a'' [(''href'', ''javascript:window.location.search='' @ [CHR 0x27, CHR 0x27] @ '';'')] [] [Txt '' (switch to the default product set instead)'']]
                    else []) @
                   [Comp (AppPermalinks (wa_path a) (''/'' @ wa_page a @ ''/'') (rs_queryParams (wa_runs a))),
                    Elem ''paper-button'' [(''slot'', ''small'')] [(''click'', AppLink)] [Txt ''Link''],
                    Elem ''paper-button'' ((''slot'', ''small'') # flag_attr ''hidden'' (\<not> editable)) [(''click'', AppEdit)] [Txt ''Edit'']])]))"

text \<open>The page whose name is selected, or the one for what is not found.\<close>

definition pages_html :: "wpt_app \<Rightarrow> app_html" where
  "pages_html a =
     (let shown = (if wa_page a \<in> {''results'', ''404''} then wa_page a else ''404'')
      in Elem ''iron-pages'' [(''role'', ''main'')] []
           [Elem ''wpt-results'' ((''name'', ''results'') # flag_attr ''visible'' (shown = ''results'')) []
              [Comp (AppResults (wa_path a) (view (rs_ui (wa_runs a))) (wa_isTriageMode a))],
            Elem ''wpt-404'' ((''name'', ''404'') # flag_attr ''visible'' (shown = ''404'')) [] [Comp AppNotFound]])"

definition master_toast :: "wpt_app \<Rightarrow> app_html" where
  "master_toast a =
     Elem ''paper-toast'' ([(''id'', ''masterLabelMissing''), (''duration'', ''15000'')] @ flag_attr ''opened'' (wa_toastShown a)) []
       [Elem ''div'' [] []
         [Txt ''wpt.fyi now includes affected tests results from PRs. '', Elem ''br'' [] [] [],
          Txt ''Did you intend to view results for complete (master) runs only?'',
          Elem ''paper-button'' [] [(''click'', AppAddMaster)] [Txt ''View master runs''],
          Elem ''paper-button'' [] [(''click'', AppDismiss)] [Txt ''Dismiss'']]]"

definition render_app :: "app_env \<Rightarrow> wpt_app \<Rightarrow> app_html list option" where
  "render_app env a =
     map_option
       (\<lambda>s. [Comp (AppHeader (encodeTestPath (ae_base env) (wa_path a)) (rs_query (wa_runs a)) (ae_user env) (wa_isTriageMode a)), s] @
          bsf_html a @ message_html env a @
          [Elem ''iron-collapse'' (flag_attr ''opened'' (wa_editingQuery a)) [(''submit'', AppSubmit)]
             [Comp (AppBuilder (rs_queryParams (wa_runs a)))],
           pages_html a, master_toast a])
       (search_section env a)"

section \<open>Clicks\<close>

text \<open>What a click does; the times are those of entering and leaving. An exception leaves the state behind.\<close>

definition app_click :: "param option \<Rightarrow> bool \<Rightarrow> int \<Rightarrow> app_button \<Rightarrow> wpt_app \<Rightarrow> wpt_app" where
  "app_click dmc gtag now c a =
     (let ended = (\<lambda>r. case r of Inl (e, a') \<Rightarrow> a' | Inr a' \<Rightarrow> a')
      in case c of
           AppEnter \<Rightarrow> enterBSF now a
         | AppExit \<Rightarrow> exitBSF gtag now a
         | AppCollapse \<Rightarrow> handleCollapse gtag a
         | AppLink \<Rightarrow> togglePermalinks a
         | AppEdit \<Rightarrow> toggleQueryEdit a
         | AppSubmit \<Rightarrow> ended (app_handleSubmitQuery dmc a)
         | AppAddMaster \<Rightarrow> ended (handleAddMasterLabel dmc a)
         | AppDismiss \<Rightarrow> a\<lparr>wa_toastShown := False\<rparr>)"

section \<open>The path and its links\<close>

lemma linked_parts_nth:
  "i < length xs \<Longrightarrow> linked_parts p xs ! i = (xs ! i, p @ concat (map (\<lambda>x. ''/'' @ x) (take (i + 1) xs)))"
proof (induction xs arbitrary: p i)
  case (Cons x xs)
  then show ?case by (cases i) (simp_all add: Let_def)
qed simp

lemma length_linked_parts [simp]: "length (linked_parts p xs) = length xs"
  by (induction xs arbitrary: p) (simp_all add: Let_def)

lemma join_slashes: "xs \<noteq> [] \<Longrightarrow> concat (map ((#) (CHR ''/'')) xs) = CHR ''/'' # join ''/'' xs"
proof (induction xs)
  case (Cons x xs)
  then show ?case by (cases xs) simp_all
qed simp

text \<open>
  The links of the path lead to the folders on the way: the address of the link at a place is that of the path up to
  there, as it is encoded.
\<close>

lemma parts_lead_up:
  assumes "splitPathIntoLinkedParts base path = Some ps" and "encodeTestPath base path = ''/'' @ join ''/'' xs"
    and "xs \<noteq> []" and "\<forall>x \<in> set xs. CHR ''/'' \<notin> set x" and "join ''/'' xs \<noteq> []"
  shows "map snd ps = map (\<lambda>i. ''/'' @ join ''/'' (take (i + 1) xs)) [0..<length xs]"
proof -
  have split: "split_on (CHR ''/'') (join ''/'' xs) = xs" using assms(3,4) by (rule split_on_join)
  obtain nm p where last: "last (linked_parts [] xs) = (nm, p)" by force
  have ne: "linked_parts [] xs \<noteq> []" using assms(3) by (cases xs) (simp_all add: Let_def)
  have "map snd ps = map snd (butlast (linked_parts [] xs) @ [(nm, p)])"
    using assms(1,2,5) split last by (auto simp: splitPathIntoLinkedParts_def)
  also have "\<dots> = map snd (linked_parts [] xs)" using append_butlast_last_id [OF ne] last by simp
  also have "\<dots> = map (\<lambda>i. ''/'' @ join ''/'' (take (i + 1) xs)) [0..<length xs]"
    by (rule nth_equalityI) (use assms(3) in \<open>simp_all add: linked_parts_nth join_slashes\<close>)
  finally show ?thesis .
qed

lemma app_rendered:
  assumes "splitPathIntoLinkedParts (ae_base env) (wa_path a) = Some ps"
  shows "\<exists>html. render_app env a = Some html \<and> pages_html a \<in> set html"
  using assms by (simp add: render_app_def search_section_def path_html_def)

text \<open>Exactly one of the two pages is visible.\<close>

lemma one_page_visible:
  "\<exists>p. map (html_attr ''visible'') (html_children (pages_html a)) = (if p then [Some [], None] else [None, Some []]) \<and>
     (p \<longleftrightarrow> wa_page a = ''results'')"
  by (auto simp: pages_html_def flag_attr_def Let_def)

end
