(* ===== verification/ResultsPage.thy ===== *)
theory ResultsPage
  imports ResultsDisplay TestRunsLoader RunsQueryState
begin

text \<open>
  \<^verbatim>\<open>webapp/views/wpt-results.js\<close>, third part: the life of the page. It composes the element with the
  query (\<open>RunsQueryState\<close>), the loader of runs (\<open>TestRunsLoader\<close>), the counting of loads
  (\<open>LoadingState\<close>) and the table (\<open>ResultsDisplay\<close>): a query asks for runs, the runs ask for results
  and perhaps for a difference, and the answers arrive in any order while the user moves, sorts
  and asks for something else.

  A \<^verbatim>\<open>filter\<close> of differences that is missing is the text "undefined", as in the requests.
\<close>

section \<open>State\<close>

text \<open>
  A promise has a number. \<open>LoadRuns\<close> keeps what \<open>loadRuns\<close> has read before its \<open>await\<close>: whether there
  is something to fetch, and the runs that were preloaded.
\<close>

datatype page_request = LoadRuns bool "test_run list" | FetchResults search_request | FetchDiff

record results_page =
  pg_query :: runs_state
  pg_view :: table_view
  pg_runs :: runs_loader
  pg_loads :: "string loader"
  pg_pending :: "(nat \<times> page_request) list"
  pg_next :: nat
  pg_structured :: "string option"
  pg_editing :: bool
  pg_notifier :: bool
  pg_subtests :: "string list"
  pg_metadataMap :: "string obj obj option"
  pg_labelMap :: "string obj option"

definition page_runs :: "results_page \<Rightarrow> test_run list" where
  "page_runs p = (case testRuns (pg_runs p) of None \<Rightarrow> [] | Some rs \<Rightarrow> rs)"

text \<open>The runs of the loader are the runs of the view, the properties of the query those of the view.\<close>

definition put_runs :: "runs_loader \<Rightarrow> results_page \<Rightarrow> results_page" where
  "put_runs ld p =
     p\<lparr>pg_runs := ld, pg_view := (pg_view p)\<lparr>run_count := map_option length (testRuns ld)\<rparr>\<rparr>"

definition put_query :: "runs_state \<Rightarrow> results_page \<Rightarrow> results_page" where
  "put_query q p =
     p\<lparr>pg_query := q,
       pg_view := (pg_view p)\<lparr>diff_shown := ui_query.diff (rs_ui q),
         results_view.diffFilter := (case ui_query.diffFilter (rs_ui q) of None \<Rightarrow> ''undefined'' | Some f \<Rightarrow> f),
         table_view.view := runs_query.view (rs_ui q)\<rparr>\<rparr>"

section \<open>Loads\<close>

definition start_load :: "bool \<Rightarrow> page_request \<Rightarrow> results_page \<Rightarrow> results_page" where
  "start_load handler r p =
     p\<lparr>pg_loads := load_start (pg_next p) handler (pg_loads p),
       pg_pending := (pg_next p, r) # pg_pending p, pg_next := pg_next p + 1\<rparr>"

text \<open>The handler of errors, and the callback when nothing is loading any more.\<close>

fun run_call :: "table_view \<Rightarrow> string load_call \<Rightarrow> table_view" where
  "run_call v (ErrHandler k e) = v\<lparr>resultsLoadFailed := True\<rparr>"
| "run_call v Complete = onLoadingComplete v"

definition settle :: "nat \<Rightarrow> string option \<Rightarrow> results_page \<Rightarrow> results_page" where
  "settle k rejection p =
     (let st = load_settle k rejection (pg_loads p);
          new_calls = drop (length (calls (pg_loads p))) (calls st)
      in p\<lparr>pg_loads := st, pg_pending := filter (\<lambda>kr. fst kr \<noteq> k) (pg_pending p),
           pg_view := foldl run_call (pg_view p) new_calls\<rparr>)"

section \<open>Requests\<close>

definition loadData :: "results_page \<Rightarrow> results_page" where
  "loadData p =
     (let p = p\<lparr>pg_view := (pg_view p)\<lparr>resultsLoadFailed := False\<rparr>\<rparr>
      in start_load True (LoadRuns (runs_to_fetch (pg_query p)) (page_runs p)) p)"

text \<open>Setting the query: its observer updates the properties, then reloads unless only the view changed.\<close>

definition wants_reload :: "string \<Rightarrow> table_view \<Rightarrow> bool" where
  "wants_reload q v \<longleftrightarrow>
     \<not> (str_includes q ''view'' \<and> length (split_on (CHR ''='') q) = 2) \<and> fetchedQuery v \<noteq> Some q"

definition page_queryChanged :: "string \<Rightarrow> results_page \<Rightarrow> results_page" where
  "page_queryChanged q p =
     (if wants_reload q (pg_view p)
      then loadData (put_runs ((pg_runs p)\<lparr>testRuns := Some []\<rparr>)
             (p\<lparr>pg_view := ResultsDisplay.queryChanged q (pg_view p)\<rparr>))
      else p)"

definition set_page_query :: "param option \<Rightarrow> string \<Rightarrow> results_page \<Rightarrow> results_page" where
  "set_page_query dmc q p =
     (if rs_query (pg_query p) = Some q then p
      else (case runs_queryChanged dmc q ((pg_query p)\<lparr>rs_query := Some q\<rparr>) of
              Inl (e, s) \<Rightarrow> put_query s p
            | Inr s \<Rightarrow> page_queryChanged q (put_query s p)))"

text \<open>The request for the results of the runs that are loaded, with the structured query if there is one.\<close>

definition fetch_start :: "results_page \<Rightarrow> results_page" where
  "fetch_start p =
     (if page_runs p = [] then p
      else
        (let q = (if truthy (pg_structured p) then pg_structured p else Some (search_text (rs_ui (pg_query p))));
             r = searchRequest (pg_view p) (map run_id (page_runs p)) q
         in start_load False (FetchResults r)
              (p\<lparr>pg_view := (pg_view p)\<lparr>sortCol := replicate (length (page_runs p)) False\<rparr>\<rparr>)))"

definition diff_start :: "results_page \<Rightarrow> results_page" where
  "diff_start p =
     (if diff_shown (pg_view p) \<and> length (page_runs p) = 2
      then start_load False FetchDiff (p\<lparr>pg_view := (pg_view p)\<lparr>diffRun := True\<rparr>\<rparr>)
      else p)"

section \<open>Answers\<close>

text \<open>The runs arrive: they follow those that were preloaded when the request was made.\<close>

definition runs_answered :: "nat \<Rightarrow> bool \<Rightarrow> test_run list \<Rightarrow> runs_answer \<Rightarrow> results_page \<Rightarrow> results_page" where
  "runs_answered k has_query preloaded ans p =
     (case loadRuns has_query ans ((pg_runs p)\<lparr>testRuns := Some preloaded\<rparr>) of
        None \<Rightarrow> settle k (Some ''TypeError: Failed to fetch'') p
      | Some (ld, runs) \<Rightarrow> settle k None (diff_start (fetch_start (put_runs ld p))))"

text \<open>Rows and totals are aggregated anew; \<open>None\<close>: the aggregation throws and leaves them.\<close>

definition refresh_table :: "table_view \<Rightarrow> table_view option" where
  "refresh_table v =
     map_option (\<lambda>r. v\<lparr>displayedNodes := displayedNodes r, displayedTotals := displayedTotals r\<rparr>)
       (refreshDisplayedNodes (results_view.truncate v))"

definition refreshed_page :: "nat \<Rightarrow> results_page \<Rightarrow> results_page" where
  "refreshed_page k p =
     (case refresh_table (pg_view p) of
        None \<Rightarrow> settle k (Some ''TypeError'') p
      | Some v \<Rightarrow> settle k None (p\<lparr>pg_view := v\<rparr>))"

definition results_answered ::
  "(search_result \<Rightarrow> search_result \<Rightarrow> rat) \<Rightarrow> nat \<Rightarrow> (nat \<Rightarrow> search_answer) \<Rightarrow> results_page \<Rightarrow> results_page" where
  "results_answered localeCompare k answers p =
     (case retry (\<lambda>n. search_outcome (answers n)) (\<lambda>e. e = HttpStatus 422) 5 5000 of
        (Inl e, _) \<Rightarrow> settle k None (p\<lparr>pg_view := (pg_view p)\<lparr>resultsLoadFailed := True\<rparr>\<rparr>)
      | (Inr rs, _) \<Rightarrow> refreshed_page k (p\<lparr>pg_view := (pg_view p)\<lparr>searchResults := js_sort localeCompare rs\<rparr>\<rparr>))"

definition diff_answered :: "nat \<Rightarrow> diff_results option \<Rightarrow> results_page \<Rightarrow> results_page" where
  "diff_answered k ans p =
     (case ans of
        None \<Rightarrow> settle k (Some ''Failed to fetch diff data.'') p
      | Some d \<Rightarrow> refreshed_page k (p\<lparr>pg_view := (pg_view p)\<lparr>diffResults := Some d\<rparr>\<rparr>))"

section \<open>The user\<close>

text \<open>An exception leaves what was assigned before it.\<close>

definition set_page_path :: "string \<Rightarrow> results_page \<Rightarrow> results_page" where
  "set_page_path path p =
     p\<lparr>pg_view := (case set_view_path path (pg_view p) of
                     None \<Rightarrow> (pg_view p)\<lparr>view_path := path\<rparr> | Some v \<Rightarrow> v)\<rparr>"

definition page_move :: "bool \<Rightarrow> results_page \<Rightarrow> results_page" where
  "page_move forward p =
     (if searchResults (pg_view p) = [] then p
      else set_page_path
        (sr_test (searchResults (pg_view p) !
           next_index forward (searchResults (pg_view p)) (view_path (pg_view p)))) p)"

definition moveToNext :: "results_page \<Rightarrow> results_page" where
  "moveToNext p = page_move True p"

definition moveToPrev :: "results_page \<Rightarrow> results_page" where
  "moveToPrev p = page_move False p"

definition page_sort_names :: "results_page \<Rightarrow> results_page" where
  "page_sort_names p =
     p\<lparr>pg_view := (case sortTestName (pg_view p) of
                     None \<Rightarrow> (pg_view p)\<lparr>isPathSorted := \<not> isPathSorted (pg_view p)\<rparr> | Some v \<Rightarrow> v)\<rparr>"

definition page_sort_column :: "nat \<Rightarrow> results_page \<Rightarrow> results_page" where
  "page_sort_column i p =
     p\<lparr>pg_view := (case sortTestResults i (pg_view p) of None \<Rightarrow> pg_view p | Some v \<Rightarrow> v)\<rparr>"

definition page_toggle_filter :: "results_page \<Rightarrow> results_page" where
  "page_toggle_filter p =
     p\<lparr>pg_view := (case toggleDiffFilter (pg_view p) of
                     None \<Rightarrow> (pg_view p)\<lparr>onlyShowDifferences := \<not> onlyShowDifferences (pg_view p)\<rparr> | Some v \<Rightarrow> v)\<rparr>"

definition showHistoryClicked :: "results_page \<Rightarrow> results_page" where
  "showHistoryClicked p = p\<lparr>pg_view := (pg_view p)\<lparr>showHistory := True\<rparr>\<rparr>"

definition page_toggleQueryEdit :: "results_page \<Rightarrow> results_page" where
  "page_toggleQueryEdit p = p\<lparr>pg_editing := \<not> pg_editing p\<rparr>"

definition handleReloadPendingMetadata :: "results_page \<Rightarrow> results_page" where
  "handleReloadPendingMetadata p = p\<lparr>pg_notifier := \<not> pg_notifier p\<rparr>"

definition handleGetSubtestRows :: "string list \<Rightarrow> results_page \<Rightarrow> results_page" where
  "handleGetSubtestRows rows p = p\<lparr>pg_subtests := subtest_names rows\<rparr>"

definition metadataMapChanged :: "string obj obj option \<Rightarrow> results_page \<Rightarrow> results_page" where
  "metadataMapChanged m p = p\<lparr>pg_metadataMap := m\<rparr>"

definition labelMapChanged :: "string obj option \<Rightarrow> results_page \<Rightarrow> results_page" where
  "labelMapChanged m p = p\<lparr>pg_labelMap := m\<rparr>"

text \<open>The mode of triage is a property that the page around sets.\<close>

definition set_page_triage :: "bool \<Rightarrow> results_page \<Rightarrow> results_page" where
  "set_page_triage b p = p\<lparr>pg_view := (pg_view p)\<lparr>isTriageMode := b\<rparr>\<rparr>"

section \<open>Events\<close>

text \<open>
  An answer is to a promise that is pending, a click to sort on a button that is there; anything
  else does not happen.
\<close>

datatype page_event =
  SetQuery string | SetStructured "string option" | RunsAnswer nat runs_answer
| ResultsAnswer nat "nat \<Rightarrow> search_answer" | DiffAnswer nat "diff_results option"
| SetPath string | MoveNext | MovePrev | SortNames | SortColumn nat | ToggleFilter
| ShowHistory | ToggleEdit | ReloadMetadata | SubtestRows "string list"
| MetadataMap "string obj obj option" | LabelMap "string obj option" | TriageMode bool

fun page_handle ::
  "param option \<Rightarrow> (search_result \<Rightarrow> search_result \<Rightarrow> rat) \<Rightarrow> page_event \<Rightarrow> results_page \<Rightarrow> results_page" where
  "page_handle dmc lc (SetQuery q) p = set_page_query dmc q p"
| "page_handle dmc lc (SetStructured q) p = p\<lparr>pg_structured := q\<rparr>"
| "page_handle dmc lc (RunsAnswer k ans) p =
     (case map_of (pg_pending p) k of Some (LoadRuns has pre) \<Rightarrow> runs_answered k has pre ans p | _ \<Rightarrow> p)"
| "page_handle dmc lc (ResultsAnswer k answers) p =
     (case map_of (pg_pending p) k of Some (FetchResults r) \<Rightarrow> results_answered lc k answers p | _ \<Rightarrow> p)"
| "page_handle dmc lc (DiffAnswer k ans) p =
     (case map_of (pg_pending p) k of Some FetchDiff \<Rightarrow> diff_answered k ans p | _ \<Rightarrow> p)"
| "page_handle dmc lc (SetPath path) p = set_page_path path p"
| "page_handle dmc lc MoveNext p = moveToNext p"
| "page_handle dmc lc MovePrev p = moveToPrev p"
| "page_handle dmc lc SortNames p = page_sort_names p"
| "page_handle dmc lc (SortColumn i) p = (if i < length (sortCol (pg_view p)) then page_sort_column i p else p)"
| "page_handle dmc lc ToggleFilter p = page_toggle_filter p"
| "page_handle dmc lc ShowHistory p = showHistoryClicked p"
| "page_handle dmc lc ToggleEdit p = page_toggleQueryEdit p"
| "page_handle dmc lc ReloadMetadata p = handleReloadPendingMetadata p"
| "page_handle dmc lc (SubtestRows rows) p = handleGetSubtestRows rows p"
| "page_handle dmc lc (MetadataMap m) p = metadataMapChanged m p"
| "page_handle dmc lc (LabelMap m) p = labelMapChanged m p"
| "page_handle dmc lc (TriageMode b) p = set_page_triage b p"

definition new_results_page :: "runs_state \<Rightarrow> string \<Rightarrow> results_page" where
  "new_results_page q path =
     put_query q
     \<lparr>pg_query = q,
      pg_view = \<lparr>view_path = path, searchResults = [], run_count = None, diff_shown = False, diffRun = False,
        diffResults = None, results_view.diffFilter = ''ADC'', onlyShowDifferences = False, displayedNodes = [],
        displayedTotals = Some (Totals []), table_view.view = None, colorHomepage = False, isTriageMode = False,
        isPathSorted = False, sortCol = [], showHistory = False, resultsLoadFailed = False,
        noResults = False, fetchedQuery = None\<rparr>,
      pg_runs = \<lparr>testRuns = None, nextPageToken = None, displayedProducts = [], pages_in_flight = [], load_events = []\<rparr>,
      pg_loads = \<lparr>loadingCount = 0, has_callback = True, in_flight = [], calls = []\<rparr>,
      pg_pending = [], pg_next = 0, pg_structured = None, pg_editing = False, pg_notifier = False, pg_subtests = [],
      pg_metadataMap = None, pg_labelMap = None\<rparr>"

text \<open>
  Sessions of allowed events. All of them, or, in a calm session, a new query only while nothing is
  loading. In a sound session, moreover, the server answers as it is meant to: runs are not
  differences, results have a summary with sound counts for every run of the request, and nothing
  was renamed.
\<close>

inductive page_session ::
  "(page_event \<Rightarrow> results_page \<Rightarrow> bool) \<Rightarrow> param option \<Rightarrow> (search_result \<Rightarrow> search_result \<Rightarrow> rat) \<Rightarrow> results_page \<Rightarrow> bool"
  for allowed dmc lc where
  opened: "page_session allowed dmc lc (new_results_page q path)"
| event: "page_session allowed dmc lc p \<Longrightarrow> allowed e p \<Longrightarrow> page_session allowed dmc lc (page_handle dmc lc e p)"

definition any_event :: "page_event \<Rightarrow> results_page \<Rightarrow> bool" where
  "any_event e p = True"

definition calm_event :: "page_event \<Rightarrow> results_page \<Rightarrow> bool" where
  "calm_event e p = (case e of SetQuery q \<Rightarrow> pg_pending p = [] | _ \<Rightarrow> True)"

definition sound_results :: "nat \<Rightarrow> search_result list \<Rightarrow> bool" where
  "sound_results n rs \<longleftrightarrow>
     list_all (\<lambda>s. length (statuses_of s) = n \<and> list_all sound_result (statuses_of s)) rs"

definition sound_answer :: "page_event \<Rightarrow> results_page \<Rightarrow> bool" where
  "sound_answer e p \<longleftrightarrow>
     (case e of
        RunsAnswer k (RunsOk b tok) \<Rightarrow> list_all (\<lambda>r. revision r \<noteq> Some ''diff'') (body_runs b)
      | ResultsAnswer k answers \<Rightarrow>
          (\<forall>r i rs. map_of (pg_pending p) k = Some (FetchResults r) \<longrightarrow> answers i = AnswerOk rs \<longrightarrow>
             sound_results (length (run_ids r)) rs)
      | DiffAnswer k (Some d) \<Rightarrow> renames d = None
      | _ \<Rightarrow> True)"

definition sound_event :: "page_event \<Rightarrow> results_page \<Rightarrow> bool" where
  "sound_event e p \<longleftrightarrow> calm_event e p \<and> sound_answer e p"

lemma session_mono:
  "page_session a dmc lc p \<Longrightarrow> (\<And>e p. a e p \<Longrightarrow> b e p) \<Longrightarrow> page_session b dmc lc p"
  by (induction rule: page_session.induct) (auto intro: page_session.intros)

section \<open>Widths of the table\<close>

text \<open>Whatever the answers hold, a row that is aggregated has a cell for every run.\<close>

definition node_width :: "nat \<Rightarrow> node \<Rightarrow> bool" where
  "node_width n nd = (case nd of Row rw \<Rightarrow> length (row_results rw) = n | Totals ts \<Rightarrow> length ts = n)"

definition nodes_width :: "nat \<Rightarrow> nodes \<Rightarrow> bool" where
  "nodes_width n ns \<longleftrightarrow> (\<forall>knd \<in> set ns. node_width n (snd knd))"

lemma node_width_simps [simp]:
  "node_width n (Row rw) = (length (row_results rw) = n)" "node_width n (Totals ts) = (length ts = n)"
  by (simp_all add: node_width_def)

lemma nodes_width_Nil [simp]: "nodes_width n []"
  by (simp add: nodes_width_def)

lemma nodes_width_set: "nodes_width n ns \<Longrightarrow> node_width n nd \<Longrightarrow> nodes_width n (obj_set k nd ns)"
  by (induction ns) (auto simp: nodes_width_def)

lemma nodes_width_get: "nodes_width n ns \<Longrightarrow> obj_get ns k = Some nd \<Longrightarrow> node_width n nd"
  using map_of_SomeD by (fastforce simp: nodes_width_def)

lemma aggregate_width:
  "aggregateTestTotals d rs cells ts = Some (cells', ts') \<Longrightarrow> length cells' = length cells \<and> length ts' = length ts"
  by (induction d rs cells ts arbitrary: cells' ts' rule: aggregateTestTotals.induct) auto

lemma merge_previous_width: "merge_previous v prev rw = Some rw' \<Longrightarrow> length (row_results rw') = length (row_results rw)"
  by (auto simp: merge_previous_def add_previous_def split: if_splits option.splits list.splits)

lemma collapse_width:
  "collapsePathOnto pre (Some n) t ns = Some (nm, ns') \<Longrightarrow> nodes_width n ns \<Longrightarrow> nodes_width n ns'"
  by (auto simp: collapsePathOnto_def Let_def intro!: nodes_width_set split: prod.splits if_splits)

lemma status_width:
  assumes "accumulate_status v r prev nm rs n ns = Some ns'" and "nodes_width n ns"
  shows "nodes_width n ns'"
proof -
  let ?ns = "if has_key ns ''totals'' then ns else obj_set ''totals'' (Totals (replicate n zero_counts)) ns"
  have w: "nodes_width n ?ns" using assms(2) by (simp add: nodes_width_set)
  note W = nodes_width_get [OF w]
  show ?thesis
  proof (cases "obj_get ?ns nm")
    case None
    then show ?thesis using assms(1) w by (simp add: accumulate_status_def Let_def split: if_splits)
  next
    case (Some nd)
    show ?thesis
    proof (cases nd)
      case (Totals ts)
      then show ?thesis using assms(1) w Some by (simp add: accumulate_status_def Let_def split: if_splits)
    next
      case (Row rw)
      then have rw: "obj_get ?ns nm = Some (Row rw)" "length (row_results rw) = n" using Some W [of nm] by simp_all
      show ?thesis
      proof (cases "\<exists>ts. obj_get ?ns ''totals'' = Some (Totals ts)")
        case True
        then obtain ts where ts: "obj_get ?ns ''totals'' = Some (Totals ts)" by blast
        then have lts: "length ts = n" using W [of "''totals''"] by simp
        from assms(1) rw ts obtain cells ts' rw' where
          agg: "aggregateTestTotals (diffRun v) rs (row_results rw) ts = Some (cells, ts')"
          and rw': "merge_previous v prev (rw\<lparr>row_results := cells\<rparr>) = Some rw'"
          and ns': "ns' = obj_set nm (Row (merge_diff v r rs rw')) (obj_set ''totals'' (Totals ts') ?ns)"
          by (auto simp: accumulate_status_def Let_def split: option.splits)
        show ?thesis
          unfolding ns' using w aggregate_width [OF agg] merge_previous_width [OF rw'] rw(2) lts
          by (intro nodes_width_set) simp_all
      next
        case False
        then have "rs = [] \<and> (\<exists>rw'. merge_previous v prev rw = Some rw' \<and> ns' = obj_set nm (Row rw') ?ns)"
          using assms(1) rw(1) by (auto simp: accumulate_status_def Let_def split: option.splits node.splits if_splits)
        then show ?thesis using w rw(2) by (auto dest: merge_previous_width intro!: nodes_width_set)
      qed
    qed
  qed
qed

lemma accumulate_result_width:
  assumes "accumulate_result v ns r = Some ns'" and "nodes_width n ns" and "run_count v = Some n"
  shows "nodes_width n ns'"
  using assms
  by (auto simp: accumulate_result_def Let_def intro: collapse_width status_width
    split: if_splits option.splits prod.splits)

lemma accumulate_width:
  "accumulate v ns rs = Some ns' \<Longrightarrow> nodes_width n ns \<Longrightarrow> run_count v = Some n \<Longrightarrow> nodes_width n ns'"
  by (induction rs arbitrary: ns) (auto split: option.splits dest: accumulate_result_width)

text \<open>Without runs, nothing below the path has been found, or else the aggregation throws.\<close>

lemma accumulate_no_runs:
  assumes "run_count v = None"
  shows "accumulate v [] rs = Some ns \<Longrightarrow> ns = []"
proof (induction rs)
  case (Cons r rs)
  have "accumulate_result v [] r \<in> {None, Some []}"
    using assms by (auto simp: accumulate_result_def collapsePathOnto_def has_key_def Let_def split: option.split prod.split)
  with Cons show ?case by auto
qed simp

definition totals_width :: "nat \<Rightarrow> node option \<Rightarrow> bool" where
  "totals_width n t = (case t of Some (Totals ts) \<Rightarrow> ts = [] \<or> length ts = n | _ \<Rightarrow> True)"

text \<open>The table is aligned: one cell, one flag and one total per run.\<close>

definition aligned_view :: "table_view \<Rightarrow> bool" where
  "aligned_view v \<longleftrightarrow>
     length (sortCol v) = runs_of_view v \<and>
     (\<forall>rw \<in> set (displayedNodes v). length (row_results rw) = runs_of_view v) \<and>
     totals_width (runs_of_view v) (displayedTotals v)"

lemma refresh_width:
  assumes "refreshDisplayedNodes v = Some v'" and "searchResults v \<noteq> []"
  shows "(\<forall>rw \<in> set (displayedNodes v'). length (row_results rw) = runs_of_view v) \<and>
         totals_width (runs_of_view v) (displayedTotals v')"
proof -
  obtain ns where ns: "accumulate v [] (matching v) = Some ns" "displayedTotals v' = obj_get ns ''totals''"
    "displayedNodes v' = concat (map (\<lambda>kv. shown_row v (snd kv)) (own_order (obj_delete ''totals'' ns)))"
    using assms by (auto simp: refreshDisplayedNodes_def matching_def)
  show ?thesis
  proof (cases "run_count v")
    case None
    from accumulate_no_runs [OF this ns(1)] show ?thesis using ns by (simp add: totals_width_def own_order_def)
  next
    case (Some n)
    have w: "nodes_width n ns" by (rule accumulate_width [OF ns(1) nodes_width_Nil Some])
    have "length (row_results rw) = n" if "rw \<in> set (displayedNodes v')" for rw
    proof -
      from that ns(3) obtain k nd where k: "(k, nd) \<in> set (obj_delete ''totals'' ns)" "rw \<in> set (shown_row v nd)" by auto
      then have "node_width n nd" using w by (auto simp: nodes_width_def AList.delete_eq)
      with k(2) show ?thesis by (auto simp: shown_row_def split: node.splits if_splits)
    qed
    moreover have "totals_width n (displayedTotals v')"
      using nodes_width_get [OF w, of "''totals''"] ns(2) by (auto simp: totals_width_def split: option.split node.split)
    ultimately show ?thesis using Some by (simp add: runs_of_view_def)
  qed
qed

text \<open>The table is numeric: all its counts are numbers, because the results that it shows are sound.\<close>

definition numeric_counts :: "counts \<Rightarrow> bool" where
  "numeric_counts c \<longleftrightarrow> (\<forall>f. \<exists>q. c f = Num q \<and> 0 \<le> q)"

definition numeric_rows :: "row list \<Rightarrow> node option \<Rightarrow> bool" where
  "numeric_rows rws t \<longleftrightarrow>
     (\<forall>rw \<in> set rws. \<forall>c \<in> set (row_results rw). numeric_counts (cell_counts c)) \<and>
     (case t of Some (Totals ts) \<Rightarrow> list_all numeric_counts ts | _ \<Rightarrow> True)"

definition numeric_ok :: "table_view \<Rightarrow> bool" where
  "numeric_ok v \<longleftrightarrow>
     sound_results (runs_of_view v) (searchResults v) \<and> no_renames (results_view.truncate v) \<and>
     numeric_rows (displayedNodes v) (displayedTotals v)"

lemma all_sum_nonneg:
  assumes "sound_results n rs"
  shows "0 \<le> all_sum v rs i f"
  using assms
proof (induction rs)
  case Nil
  show ?case by (simp add: all_sum_def)
next
  case (Cons r rs)
  have "0 \<le> contribution (diffRun v) s f" if "sound_result s" for s
    using contribution_sound [OF that, of "diffRun v"] by (cases f) auto
  moreover have "list_all sound_result (statuses_of r)" using Cons.prems by (simp add: sound_results_def)
  ultimately have "0 \<le> adds_at v i f r" by (simp add: adds_at_def list_all_length)
  with Cons show ?case by (simp add: all_sum_def sound_results_def)
qed

lemma refresh_numeric:
  assumes r: "refreshDisplayedNodes v = Some v'" and ne: "searchResults v \<noteq> []"
    and sound: "sound_results (runs_of_view v) (searchResults v)" and nr: "no_renames v"
  shows "numeric_rows (displayedNodes v') (displayedTotals v')"
proof (cases "run_count v")
  case None
  obtain ns where ns: "accumulate v [] (matching v) = Some ns" "displayedTotals v' = obj_get ns ''totals''"
    "displayedNodes v' = concat (map (\<lambda>kv. shown_row v (snd kv)) (own_order (obj_delete ''totals'' ns)))"
    using r ne by (auto simp: refreshDisplayedNodes_def matching_def)
  have "ns = []" by (rule accumulate_no_runs [OF None ns(1)])
  with ns show ?thesis by (simp add: numeric_rows_def own_order_def)
next
  case (Some n)
  have below: "sound_results n (matching v)"
    using sound Some by (auto simp: sound_results_def matching_def list_all_iff runs_of_view_def)
  then have full: "length (statuses_of s) = n \<and> list_all sound_result (statuses_of s)" if "s \<in> set (matching v)" for s
    using that by (simp add: sound_results_def list_all_iff)
  have "numeric_counts (cell_counts c)" if rw: "rw \<in> set (displayedNodes v')" and c: "c \<in> set (row_results rw)" for rw c
  proof -
    from c obtain i where i: "i < length (row_results rw)" "c = row_results rw ! i" by (auto simp: in_set_conv_nth)
    have len: "length (row_results rw) = n" using refresh_width [OF r ne] rw Some by (simp add: runs_of_view_def)
    with i have "i < n" by simp
    from row_full(2) [OF r ne Some nr rw this full] i show ?thesis by (simp add: numeric_counts_def)
  qed
  moreover have "list_all numeric_counts ts" if ts: "displayedTotals v' = Some (Totals ts)" for ts
  proof -
    obtain ns where ns: "nodes_ok v n (matching v) ns" "displayedTotals v' = obj_get ns ''totals''"
      by (rule refreshed [OF r ne Some nr])
    with ts have "node_ok v n (matching v) ''totals'' (Totals ts)" by (simp add: nodes_ok_def)
    then have t: "length ts = n" "list_all counts_num ts"
      "\<forall>i f. i < n \<longrightarrow> amount ((ts ! i) f) = all_sum v (matching v) i f"
      by (simp_all add: node_ok_def)
    have "\<exists>q. (ts ! i) f = Num q \<and> 0 \<le> q" if "i < n" for i f
    proof -
      have "is_num ((ts ! i) f)" using t that by (simp add: list_all_length counts_num_def)
      then have "(ts ! i) f = Num (amount ((ts ! i) f))" by (auto simp: is_num_def)
      with t(3) that all_sum_nonneg [OF below] show ?thesis by metis
    qed
    with t(1) show ?thesis by (simp add: list_all_length numeric_counts_def)
  qed
  ultimately show ?thesis by (simp add: numeric_rows_def split: option.split node.split)
qed

text \<open>What the operations on the table leave as it is.\<close>

definition kept :: "table_view \<Rightarrow> nat option \<times> search_result list \<times> bool \<times> bool" where
  "kept v = (run_count v, searchResults v, noResults v, resultsLoadFailed v)"

lemma kept_simps [simp]:
  "kept (v\<lparr>displayedNodes := x\<rparr>) = kept v" "kept (v\<lparr>displayedTotals := t\<rparr>) = kept v"
  "kept (v\<lparr>sortCol := sc\<rparr>) = kept v" "kept (v\<lparr>isPathSorted := b\<rparr>) = kept v" "kept (v\<lparr>showHistory := b\<rparr>) = kept v"
  "kept (v\<lparr>isTriageMode := b\<rparr>) = kept v" "kept (v\<lparr>view_path := path\<rparr>) = kept v" "kept (v\<lparr>onlyShowDifferences := b\<rparr>) = kept v"
  "kept (v\<lparr>diffRun := b\<rparr>) = kept v" "kept (v\<lparr>diffResults := d\<rparr>) = kept v" "kept (v\<lparr>diff_shown := b\<rparr>) = kept v"
  "kept (v\<lparr>results_view.diffFilter := f\<rparr>) = kept v" "kept (v\<lparr>table_view.view := vw\<rparr>) = kept v"
  by (simp_all add: kept_def)

lemma aligned_simps [simp]:
  "aligned_view (v\<lparr>isPathSorted := b\<rparr>) = aligned_view v" "aligned_view (v\<lparr>showHistory := b\<rparr>) = aligned_view v"
  "aligned_view (v\<lparr>isTriageMode := b\<rparr>) = aligned_view v" "aligned_view (v\<lparr>view_path := path\<rparr>) = aligned_view v" "aligned_view (v\<lparr>onlyShowDifferences := b\<rparr>) = aligned_view v"
  "aligned_view (v\<lparr>diffRun := b\<rparr>) = aligned_view v" "aligned_view (v\<lparr>diffResults := d\<rparr>) = aligned_view v"
  "aligned_view (v\<lparr>diff_shown := b\<rparr>) = aligned_view v" "aligned_view (v\<lparr>results_view.diffFilter := f\<rparr>) = aligned_view v"
  "aligned_view (v\<lparr>table_view.view := vw\<rparr>) = aligned_view v" "aligned_view (v\<lparr>searchResults := rs\<rparr>) = aligned_view v"
  "aligned_view (v\<lparr>resultsLoadFailed := b\<rparr>) = aligned_view v" "aligned_view (v\<lparr>noResults := b\<rparr>) = aligned_view v"
  by (simp_all add: aligned_view_def runs_of_view_def)

lemma no_renames_view: "no_renames (results_view.truncate v) = (case diffResults v of None \<Rightarrow> True | Some dr \<Rightarrow> renames dr = None)"
  by (simp add: no_renames_def results_view.truncate_def)

lemma numeric_simps [simp]:
  "numeric_ok (v\<lparr>isPathSorted := b\<rparr>) = numeric_ok v" "numeric_ok (v\<lparr>showHistory := b\<rparr>) = numeric_ok v"
  "numeric_ok (v\<lparr>isTriageMode := b\<rparr>) = numeric_ok v" "numeric_ok (v\<lparr>view_path := path\<rparr>) = numeric_ok v" "numeric_ok (v\<lparr>onlyShowDifferences := b\<rparr>) = numeric_ok v"
  "numeric_ok (v\<lparr>diffRun := b\<rparr>) = numeric_ok v" "numeric_ok (v\<lparr>sortCol := sc\<rparr>) = numeric_ok v"
  "numeric_ok (v\<lparr>diff_shown := b\<rparr>) = numeric_ok v" "numeric_ok (v\<lparr>results_view.diffFilter := f\<rparr>) = numeric_ok v"
  "numeric_ok (v\<lparr>table_view.view := vw\<rparr>) = numeric_ok v"
  "numeric_ok (v\<lparr>resultsLoadFailed := b\<rparr>) = numeric_ok v" "numeric_ok (v\<lparr>noResults := b\<rparr>) = numeric_ok v"
  by (simp_all add: numeric_ok_def no_renames_view runs_of_view_def)

lemma numeric_nodes: "set rws = set (displayedNodes v) \<Longrightarrow> numeric_ok (v\<lparr>displayedNodes := rws\<rparr>) = numeric_ok v"
  by (simp add: numeric_ok_def no_renames_view runs_of_view_def numeric_rows_def)

lemma refresh_numeric_ok:
  assumes "refreshDisplayedNodes (results_view.truncate v) = Some r" and "numeric_ok v"
  shows "numeric_ok (v\<lparr>displayedNodes := displayedNodes r, displayedTotals := displayedTotals r\<rparr>)"
proof -
  have "numeric_rows (displayedNodes r) (displayedTotals r)"
  proof (cases "searchResults v = []")
    case True
    then have "displayedNodes r = []" "displayedTotals r = displayedTotals v"
      using assms(1) by (auto simp: refreshDisplayedNodes_def results_view.truncate_def)
    with assms(2) show ?thesis by (simp add: numeric_ok_def numeric_rows_def)
  next
    case False
    then show ?thesis
      using assms by (intro refresh_numeric [OF assms(1)])
        (simp_all add: numeric_ok_def results_view.truncate_def runs_of_view_def)
  qed
  with assms(2) show ?thesis by (simp add: numeric_ok_def no_renames_view runs_of_view_def)
qed

lemma refresh_kept:
  assumes "refreshDisplayedNodes (results_view.truncate v) = Some r"
  shows "kept (v\<lparr>displayedNodes := displayedNodes r, displayedTotals := displayedTotals r\<rparr>) = kept v"
    and "aligned_view v \<Longrightarrow> aligned_view (v\<lparr>displayedNodes := displayedNodes r, displayedTotals := displayedTotals r\<rparr>)"
    and "searchResults v = [] \<Longrightarrow> displayedNodes r = [] \<and> displayedTotals r = displayedTotals v"
proof -
  show "kept (v\<lparr>displayedNodes := displayedNodes r, displayedTotals := displayedTotals r\<rparr>) = kept v" by simp
  show *: "displayedNodes r = [] \<and> displayedTotals r = displayedTotals v" if "searchResults v = []"
    using assms that by (auto simp: refreshDisplayedNodes_def results_view.truncate_def)
  show "aligned_view (v\<lparr>displayedNodes := displayedNodes r, displayedTotals := displayedTotals r\<rparr>)"
    if a: "aligned_view v"
  proof (cases "searchResults v = []")
    case True
    with a * show ?thesis by (simp add: aligned_view_def runs_of_view_def)
  next
    case False
    then have "searchResults (results_view.truncate v) \<noteq> []" by (simp add: results_view.truncate_def)
    from refresh_width [OF assms this] a show ?thesis
      by (simp add: aligned_view_def runs_of_view_def results_view.truncate_def)
  qed
qed

lemma refresh_table_kept:
  "refresh_table v = Some v' \<Longrightarrow> kept v' = kept v \<and> (aligned_view v \<longrightarrow> aligned_view v') \<and>
     (numeric_ok v \<longrightarrow> numeric_ok v') \<and> (searchResults v = [] \<longrightarrow> displayedNodes v' = [])"
  using refresh_kept [of v] refresh_numeric_ok [of v] by (auto simp: refresh_table_def)

lemma path_kept:
  assumes "set_view_path path v = Some v'"
  shows "kept v' = kept v \<and> (aligned_view v \<longrightarrow> aligned_view v') \<and> (numeric_ok v \<longrightarrow> numeric_ok v') \<and>
    (searchResults v = [] \<and> displayedNodes v = [] \<longrightarrow> displayedNodes v' = [])"
proof (cases "path = view_path v")
  case True
  with assms show ?thesis by (simp add: set_view_path_def)
next
  case False
  let ?w = "v\<lparr>view_path := path\<rparr>"
  from False assms obtain r where r: "refreshDisplayedNodes (results_view.truncate ?w) = Some r"
    and v': "v' = (let u = ?w\<lparr>displayedNodes := displayedNodes r, displayedTotals := displayedTotals r\<rparr>;
        u = (if run_count u = None then u else u\<lparr>sortCol := replicate (runs_of_view u) False, isPathSorted := False\<rparr>)
      in u\<lparr>showHistory := False\<rparr>)"
    by (auto simp: set_view_path_def view_path_updated_def Let_def split: option.splits)
  let ?u = "?w\<lparr>displayedNodes := displayedNodes r, displayedTotals := displayedTotals r\<rparr>"
  have "aligned_view (?u\<lparr>sortCol := replicate (runs_of_view ?u) False\<rparr>)" if "aligned_view ?u"
    using that by (simp add: aligned_view_def runs_of_view_def)
  moreover have "aligned_view ?u" if "aligned_view v" using refresh_kept(2) [OF r] that by simp
  moreover have "displayedNodes r = []" if "searchResults v = []" using refresh_kept(3) [OF r] that by simp
  moreover have "numeric_ok ?u" if "numeric_ok v" using refresh_numeric_ok [OF r] that by simp
  ultimately show ?thesis unfolding v' Let_def by simp
qed

lemma sort_names_kept:
  "sortTestName v = Some v' \<Longrightarrow> kept v' = kept v \<and> (aligned_view v \<longrightarrow> aligned_view v') \<and>
     (numeric_ok v \<longrightarrow> numeric_ok v') \<and> set (displayedNodes v') = set (displayedNodes v)"
  by (auto simp: sortTestName_def aligned_view_def runs_of_view_def numeric_nodes Let_def split: if_splits)

lemma sort_column_kept:
  assumes "sortTestResults i v = Some v'"
  shows "kept v' = kept v \<and> (aligned_view v \<longrightarrow> aligned_view v') \<and> (numeric_ok v \<longrightarrow> numeric_ok v') \<and>
    set (displayedNodes v') = set (displayedNodes v)"
  using assms by (auto simp: sortTestResults_def aligned_view_def runs_of_view_def numeric_nodes Let_def split: if_splits)

lemma toggle_kept:
  "toggleDiffFilter v = Some v' \<Longrightarrow> kept v' = kept v \<and> (aligned_view v \<longrightarrow> aligned_view v') \<and>
     (numeric_ok v \<longrightarrow> numeric_ok v') \<and> (searchResults v = [] \<longrightarrow> displayedNodes v' = [])"
  using refresh_kept [of "v\<lparr>onlyShowDifferences := \<not> onlyShowDifferences v\<rparr>"]
    refresh_numeric_ok [of "v\<lparr>onlyShowDifferences := \<not> onlyShowDifferences v\<rparr>"]
  by (auto simp: toggleDiffFilter_def Let_def)

section \<open>What the events of the user leave as it is\<close>

definition empty_table :: "table_view \<Rightarrow> bool" where
  "empty_table v \<longleftrightarrow> searchResults v = [] \<and> displayedNodes v = []"

definition quiet :: "results_page \<Rightarrow> results_page \<Rightarrow> bool" where
  "quiet p p' \<longleftrightarrow>
     pg_loads p' = pg_loads p \<and> pg_pending p' = pg_pending p \<and> pg_next p' = pg_next p \<and> pg_runs p' = pg_runs p \<and>
     kept (pg_view p') = kept (pg_view p) \<and>
     (aligned_view (pg_view p) \<longrightarrow> aligned_view (pg_view p')) \<and>
     (numeric_ok (pg_view p) \<longrightarrow> numeric_ok (pg_view p')) \<and>
     (empty_table (pg_view p) \<longrightarrow> empty_table (pg_view p'))"

lemma kept_results: "kept v' = kept v \<Longrightarrow> searchResults v' = searchResults v"
  by (simp add: kept_def)

lemma quiet_refl [simp]: "quiet p p"
  by (simp add: quiet_def)

lemma quiet_view:
  "kept v = kept (pg_view p) \<Longrightarrow> (aligned_view (pg_view p) \<longrightarrow> aligned_view v) \<Longrightarrow>
   (numeric_ok (pg_view p) \<longrightarrow> numeric_ok v) \<Longrightarrow>
   (searchResults (pg_view p) = [] \<and> displayedNodes (pg_view p) = [] \<longrightarrow> displayedNodes v = []) \<Longrightarrow>
   quiet p (p\<lparr>pg_view := v\<rparr>)"
  using kept_results [of v "pg_view p"] by (simp add: quiet_def empty_table_def)

lemma quiet_path: "quiet p (set_page_path path p)"
  unfolding set_page_path_def
  by (rule quiet_view; cases "set_view_path path (pg_view p)") (simp_all add: path_kept)

lemma quiet_move: "quiet p (page_move forward p)"
  by (simp add: page_move_def quiet_path)

lemma quiet_flags:
  "quiet p (page_toggleQueryEdit p)" "quiet p (handleReloadPendingMetadata p)" "quiet p (handleGetSubtestRows rows p)"
  "quiet p (p\<lparr>pg_structured := q\<rparr>)" "quiet p (metadataMapChanged mm p)" "quiet p (labelMapChanged lm p)"
  by (simp_all add: quiet_def metadataMapChanged_def labelMapChanged_def page_toggleQueryEdit_def handleReloadPendingMetadata_def handleGetSubtestRows_def)

fun by_user :: "page_event \<Rightarrow> bool" where
  "by_user (SetQuery q) = False"
| "by_user (RunsAnswer k a) = False"
| "by_user (ResultsAnswer k a) = False"
| "by_user (DiffAnswer k a) = False"
| "by_user _ = True"

lemma user_quiet: "by_user e \<Longrightarrow> quiet p (page_handle dmc lc e p)"
proof (cases e)
  case SortNames
  have "quiet p (page_sort_names p)"
    unfolding page_sort_names_def
    by (rule quiet_view; cases "sortTestName (pg_view p)") (auto dest: sort_names_kept)
  with SortNames show ?thesis by simp
next
  case (SortColumn i)
  have "quiet p (page_sort_column i p)"
    unfolding page_sort_column_def
    by (rule quiet_view; cases "sortTestResults i (pg_view p)") (auto dest: sort_column_kept)
  with SortColumn show ?thesis by simp
next
  case ToggleFilter
  have "quiet p (page_toggle_filter p)"
    unfolding page_toggle_filter_def
    by (rule quiet_view; cases "toggleDiffFilter (pg_view p)") (auto dest: toggle_kept)
  with ToggleFilter show ?thesis by simp
next
  case ShowHistory
  have "quiet p (showHistoryClicked p)" unfolding showHistoryClicked_def by (rule quiet_view) simp_all
  with ShowHistory show ?thesis by simp
next
  case (TriageMode b)
  have "quiet p (set_page_triage b p)" unfolding set_page_triage_def by (rule quiet_view) simp_all
  with TriageMode show ?thesis by simp
qed (simp_all add: quiet_path quiet_move moveToNext_def moveToPrev_def quiet_flags)

section \<open>Loads are counted\<close>

definition banner_ok :: "table_view \<Rightarrow> bool" where
  "banner_ok v \<longleftrightarrow> (noResults v \<longleftrightarrow> \<not> resultsLoadFailed v \<and> searchResults v = [])"

definition loads_ok :: "results_page \<Rightarrow> bool" where
  "loads_ok p \<longleftrightarrow>
     tracks (pg_loads p) (pg_pending p) (pg_next p) \<and>
     (pg_next p > 0 \<and> pg_pending p = [] \<longrightarrow> banner_ok (pg_view p))"

lemma loads_ok_quiet: "loads_ok p \<Longrightarrow> quiet p p' \<Longrightarrow> loads_ok p'"
  by (auto simp: loads_ok_def quiet_def banner_ok_def kept_def)

lemma loads_ok_start: "loads_ok p \<Longrightarrow> loads_ok (start_load h r p)"
  by (simp add: loads_ok_def start_load_def tracks_start)

text \<open>A view that changes while something is loading says nothing yet.\<close>

lemma loads_ok_view: "loads_ok p \<Longrightarrow> pg_pending p \<noteq> [] \<Longrightarrow> loads_ok (p\<lparr>pg_view := v\<rparr>)"
  by (simp add: loads_ok_def)

lemma banner_complete [simp]: "banner_ok (onLoadingComplete v)"
  by (simp add: banner_ok_def onLoadingComplete_def)

lemma loads_ok_settle:
  assumes ok: "loads_ok p" and k: "map_of (pg_pending p) k = Some rq"
  shows "loads_ok (settle k r p)"
proof -
  have t: "tracks (pg_loads p) (pg_pending p) (pg_next p)" using ok by (simp add: loads_ok_def)
  from tracks_settle(2) [OF t k, of r] have "banner_ok (pg_view (settle k r p))"
    if "filter (\<lambda>kr. fst kr \<noteq> k) (pg_pending p) = []"
    using that by (auto simp: settle_def Let_def split: option.split)
  with tracks_settle(1) [OF t k, of r] show ?thesis by (simp add: loads_ok_def settle_def Let_def)
qed

lemma pending_simps [simp]:
  "pg_pending (start_load h r p) = (pg_next p, r) # pg_pending p" "pg_pending (put_runs ld p) = pg_pending p"
  "pg_pending (put_query q p) = pg_pending p" "pg_next (put_runs ld p) = pg_next p" "pg_next (put_query q p) = pg_next p"
  by (simp_all add: start_load_def put_runs_def put_query_def)

lemma loads_ok_put:
  "loads_ok p \<Longrightarrow> pg_pending p \<noteq> [] \<Longrightarrow> loads_ok (put_runs ld p)" "loads_ok p \<Longrightarrow> loads_ok (put_query q p)"
  by (simp_all add: loads_ok_def put_runs_def put_query_def banner_ok_def)

text \<open>The banner is only kept from changing by loading, which follows at once.\<close>

lemma loads_ok_load:
  assumes "loads_ok p" and "pg_loads p' = pg_loads p" "pg_pending p' = pg_pending p" "pg_next p' = pg_next p"
  shows "loads_ok (loadData p')"
proof -
  let ?q = "p'\<lparr>pg_view := pg_view p\<rparr>"
  have "loads_ok ?q" using assms by (simp add: loads_ok_def)
  from loads_ok_start [OF this, of True "LoadRuns (runs_to_fetch (pg_query p')) (page_runs p')"]
  show ?thesis by (simp add: loads_ok_def start_load_def loadData_def Let_def page_runs_def)
qed

lemma loads_ok_query: "loads_ok p \<Longrightarrow> loads_ok (set_page_query dmc q p)"
proof -
  assume ok: "loads_ok p"
  have "loads_ok (page_queryChanged q (put_query s p))" for s
    using loads_ok_load [OF loads_ok_put(2) [OF ok, of s]] loads_ok_put(2) [OF ok, of s]
    by (simp add: page_queryChanged_def put_runs_def)
  then show ?thesis using ok loads_ok_put(2) [OF ok] by (simp add: set_page_query_def split: sum.split prod.split)
qed

lemma pending_some: "map_of (pg_pending p) k = Some r \<Longrightarrow> pg_pending p \<noteq> []"
  by auto

lemma loads_ok_fetch: "loads_ok p \<Longrightarrow> pg_pending p \<noteq> [] \<Longrightarrow> loads_ok (fetch_start p)"
  by (auto simp: fetch_start_def Let_def intro!: loads_ok_start loads_ok_view)

lemma loads_ok_diff: "loads_ok p \<Longrightarrow> pg_pending p \<noteq> [] \<Longrightarrow> loads_ok (diff_start p)"
  by (auto simp: diff_start_def intro!: loads_ok_start loads_ok_view)

lemma pending_kept:
  "loads_ok p \<Longrightarrow> map_of (pg_pending p) k = Some r \<Longrightarrow> map_of (pg_pending (fetch_start p)) k = Some r"
  "loads_ok p \<Longrightarrow> map_of (pg_pending p) k = Some r \<Longrightarrow> map_of (pg_pending (diff_start p)) k = Some r"
  using tracks_pending [of "pg_loads p" "pg_pending p" "pg_next p" k r]
  by (auto simp: fetch_start_def diff_start_def loads_ok_def Let_def)

lemma loads_ok_runs:
  assumes ok: "loads_ok p" and k: "map_of (pg_pending p) k = Some r"
  shows "loads_ok (runs_answered k has pre ans p)"
proof (cases "loadRuns has ans ((pg_runs p)\<lparr>testRuns := Some pre\<rparr>)")
  case None
  then show ?thesis using loads_ok_settle [OF ok k] by (simp add: runs_answered_def)
next
  case (Some lr)
  let ?p = "put_runs (fst lr) p"
  have p: "loads_ok ?p" "map_of (pg_pending ?p) k = Some r" using loads_ok_put(1) [OF ok] k pending_some [OF k] by simp_all
  have f: "loads_ok (fetch_start ?p)" "map_of (pg_pending (fetch_start ?p)) k = Some r"
    using loads_ok_fetch [OF p(1)] pending_some [OF p(2)] pending_kept(1) [OF p] by simp_all
  have d: "loads_ok (diff_start (fetch_start ?p))" "map_of (pg_pending (diff_start (fetch_start ?p))) k = Some r"
    using loads_ok_diff [OF f(1)] pending_some [OF f(2)] pending_kept(2) [OF f] by simp_all
  from loads_ok_settle [OF d] Some show ?thesis by (cases lr) (simp add: runs_answered_def)
qed

lemma loads_ok_refreshed:
  assumes "loads_ok p" "map_of (pg_pending p) k = Some r"
  shows "loads_ok (refreshed_page k p)"
  using assms loads_ok_settle loads_ok_view [OF assms(1) pending_some [OF assms(2)]]
  by (auto simp: refreshed_page_def split: option.split)

lemma loads_ok_results:
  assumes "loads_ok p" "map_of (pg_pending p) k = Some r"
  shows "loads_ok (results_answered lc k answers p)"
  using assms loads_ok_settle loads_ok_refreshed loads_ok_view [OF assms(1) pending_some [OF assms(2)]]
  by (auto simp: results_answered_def split: prod.split sum.split)

lemma loads_ok_diff_answer:
  assumes "loads_ok p" "map_of (pg_pending p) k = Some r"
  shows "loads_ok (diff_answered k ans p)"
  using assms loads_ok_settle loads_ok_refreshed loads_ok_view [OF assms(1) pending_some [OF assms(2)]]
  by (auto simp: diff_answered_def split: option.split)

lemma loads_ok_event: "loads_ok p \<Longrightarrow> loads_ok (page_handle dmc lc e p)"
proof (cases "by_user e")
  case True
  then show "loads_ok p \<Longrightarrow> ?thesis" using loads_ok_quiet user_quiet by blast
next
  case False
  then show "loads_ok p \<Longrightarrow> ?thesis"
    by (cases e) (auto simp: loads_ok_query loads_ok_runs loads_ok_results loads_ok_diff_answer
      split: option.split page_request.split)
qed

lemma loads_ok_new: "loads_ok (new_results_page q path)"
  by (simp add: loads_ok_def new_results_page_def put_query_def tracks_new)

lemma session_loads: "page_session ev dmc lc p \<Longrightarrow> loads_ok p"
  by (induction rule: page_session.induct) (simp_all add: loads_ok_new loads_ok_event)

section \<open>Calm sessions\<close>

text \<open>
  While runs are asked for the table is empty; afterwards only results and a difference are. The
  number of runs of the view is that of the loader.
\<close>

definition runs_asked :: "results_page \<Rightarrow> bool" where
  "runs_asked p \<longleftrightarrow> (\<exists>k has. pg_pending p = [(k, LoadRuns has [])]) \<and> empty_table (pg_view p) \<and> page_runs p = []"

definition none_asked :: "results_page \<Rightarrow> bool" where
  "none_asked p \<longleftrightarrow> (\<forall>kr \<in> set (pg_pending p). \<forall>has pre. snd kr \<noteq> LoadRuns has pre)"

definition runs_agree :: "results_page \<Rightarrow> bool" where
  "runs_agree p \<longleftrightarrow>
     run_count (pg_view p) = map_option length (testRuns (pg_runs p)) \<and>
     (page_runs p \<noteq> [] \<longrightarrow> displayedProducts (pg_runs p) = map productFromRun (page_runs p))"

definition calm_ok :: "results_page \<Rightarrow> bool" where
  "calm_ok p \<longleftrightarrow> aligned_view (pg_view p) \<and> runs_agree p \<and> (runs_asked p \<or> none_asked p)"

lemma runs_agree_count: "runs_agree p \<Longrightarrow> runs_of_view (pg_view p) = length (page_runs p)"
  by (auto simp: runs_agree_def runs_of_view_def page_runs_def split: option.split)

lemma page_runs_quiet: "quiet p p' \<Longrightarrow> page_runs p' = page_runs p"
  by (simp add: quiet_def page_runs_def)

lemma calm_ok_quiet:
  assumes ok: "calm_ok p" and q: "quiet p p'"
  shows "calm_ok p'"
proof -
  note runs = page_runs_quiet [OF q]
  have "none_asked p' = none_asked p" using q by (simp add: none_asked_def quiet_def)
  moreover have "runs_asked p'" if "runs_asked p" using that q runs by (simp add: runs_asked_def quiet_def)
  moreover have "runs_agree p'" if "runs_agree p" using that q runs by (simp add: runs_agree_def quiet_def kept_def)
  moreover have "aligned_view (pg_view p')" using ok q by (simp add: calm_ok_def quiet_def)
  ultimately show ?thesis using ok by (auto simp: calm_ok_def)
qed

text \<open>Calls of the counting mixin change two flags only.\<close>

lemma aligned_complete [simp]: "aligned_view (onLoadingComplete v) = aligned_view v"
  by (simp add: onLoadingComplete_def)

lemma run_call_simps [simp]: "aligned_view (run_call v c) = aligned_view v" "run_count (run_call v c) = run_count v"
  by (cases c; simp add: onLoadingComplete_def)+

lemma run_calls_simps [simp]:
  "aligned_view (foldl run_call v cs) = aligned_view v" "run_count (foldl run_call v cs) = run_count v"
  by (induction cs rule: rev_induct) simp_all

lemma calm_ok_settle:
  assumes "aligned_view (pg_view p)" and "runs_agree p"
    and "\<forall>kr \<in> set (pg_pending p). fst kr \<noteq> k \<longrightarrow> (\<forall>has pre. snd kr \<noteq> LoadRuns has pre)"
  shows "calm_ok (settle k r p)"
  using assms by (auto simp: calm_ok_def settle_def Let_def none_asked_def runs_agree_def page_runs_def)

lemma start_load_simps [simp]:
  "pg_view (start_load h r p) = pg_view p" "pg_runs (start_load h r p) = pg_runs p" "page_runs (start_load h r p) = page_runs p"
  "runs_agree (start_load h r p) = runs_agree p"
  by (simp_all add: start_load_def page_runs_def runs_agree_def)

lemma put_query_simps [simp]:
  "aligned_view (pg_view (put_query q p)) = aligned_view (pg_view p)" "page_runs (put_query q p) = page_runs p"
  "runs_agree (put_query q p) = runs_agree p" "none_asked (put_query q p) = none_asked p"
  by (simp_all add: put_query_def page_runs_def runs_agree_def none_asked_def)

lemma reload_view:
  assumes "wants_reload q v"
  shows "empty_table (ResultsDisplay.queryChanged q v)" "sortCol (ResultsDisplay.queryChanged q v) = []"
    "displayedTotals (ResultsDisplay.queryChanged q v) = Some (Totals [])"
  using assms by (auto simp: wants_reload_def queryChanged_def reloadData_def empty_table_def)

lemma calm_ok_reload:
  assumes "wants_reload q (pg_view p)" and "pg_pending p = []"
  shows "calm_ok (page_queryChanged q p)"
proof -
  note V = reload_view [OF assms(1)]
  let ?p = "put_runs ((pg_runs p)\<lparr>testRuns := Some []\<rparr>) (p\<lparr>pg_view := ResultsDisplay.queryChanged q (pg_view p)\<rparr>)"
  have "aligned_view (pg_view ?p)" "runs_agree ?p" "page_runs ?p = []" "empty_table (pg_view ?p)" "pg_pending ?p = []"
    using V assms(2)
    by (simp_all add: put_runs_def aligned_view_def runs_of_view_def empty_table_def totals_width_def runs_agree_def page_runs_def)
  then have "calm_ok (loadData ?p)"
    by (simp add: calm_ok_def loadData_def Let_def runs_asked_def empty_table_def runs_agree_def page_runs_def)
  then show ?thesis using assms(1) by (simp add: page_queryChanged_def)
qed

lemma calm_ok_query:
  assumes "calm_ok p" and "pg_pending p = []"
  shows "calm_ok (set_page_query dmc q p)"
proof -
  have put: "calm_ok (put_query s p)" for s using assms by (simp add: calm_ok_def runs_asked_def none_asked_def)
  then have "calm_ok (page_queryChanged q (put_query s p))" for s
    using calm_ok_reload [of q "put_query s p"] assms(2)
    by (cases "wants_reload q (pg_view (put_query s p))") (simp_all add: page_queryChanged_def)
  with put assms(1) show ?thesis by (simp add: set_page_query_def split: sum.split prod.split)
qed

lemma loadRuns_result:
  "loadRuns has ans st = Some (ld, runs) \<Longrightarrow> testRuns ld = Some runs \<and> displayedProducts ld = map productFromRun runs"
  by (auto simp: loadRuns_def fireTestRunsLoadEvent_def Let_def split: if_splits runs_answer.splits)

lemma calm_ok_runs:
  assumes ok: "calm_ok p" and k: "map_of (pg_pending p) k = Some (LoadRuns has pre)"
  shows "calm_ok (runs_answered k has pre ans p)"
proof -
  have "\<not> none_asked p" using map_of_SomeD [OF k] by (force simp: none_asked_def)
  then have asked: "runs_asked p" using ok by (simp add: calm_ok_def)
  then have pend: "pg_pending p = [(k, LoadRuns has pre)]" using k by (auto simp: runs_asked_def split: if_splits)
  have agree: "runs_agree p" and al: "aligned_view (pg_view p)" using ok by (simp_all add: calm_ok_def)
  have nodes: "displayedNodes (pg_view p) = []" and runs: "page_runs p = []"
    using asked by (simp_all add: runs_asked_def empty_table_def)
  have zero: "runs_of_view (pg_view p) = 0" using runs_agree_count [OF agree] runs by simp
  show ?thesis
  proof (cases "loadRuns has ans ((pg_runs p)\<lparr>testRuns := Some pre\<rparr>)")
    case None
    then show ?thesis using calm_ok_settle [OF al agree] pend by (simp add: runs_answered_def)
  next
    case (Some lr)
    then obtain ld rs where lr: "lr = (ld, rs)" by (cases lr)
    note L = loadRuns_result [OF Some [unfolded lr]]
    let ?p = "put_runs ld p" and ?f = "fetch_start (put_runs ld p)"
    have runs': "page_runs ?p = rs" using L by (simp add: page_runs_def put_runs_def)
    have tot: "totals_width n (displayedTotals (pg_view p))" for n
      using al zero by (auto simp: aligned_view_def totals_width_def split: option.splits node.splits)
    have f: "aligned_view (pg_view ?f)" "runs_agree ?f" "page_runs ?f = rs"
      using nodes tot al zero L runs'
      by (auto simp: fetch_start_def Let_def aligned_view_def put_runs_def runs_of_view_def runs_agree_def page_runs_def)
    have d: "aligned_view (pg_view (diff_start ?f))" "runs_agree (diff_start ?f)"
      using f by (auto simp: diff_start_def runs_agree_def page_runs_def)
    have "\<forall>kr \<in> set (pg_pending (diff_start ?f)). fst kr \<noteq> k \<longrightarrow> (\<forall>has pre. snd kr \<noteq> LoadRuns has pre)"
      using pend by (auto simp: diff_start_def fetch_start_def Let_def)
    from calm_ok_settle [OF d this] show ?thesis by (simp add: runs_answered_def Some lr)
  qed
qed

lemma calm_ok_refreshed:
  assumes "aligned_view (pg_view p)" "runs_agree p" "none_asked p"
  shows "calm_ok (refreshed_page k p)"
proof (cases "refresh_table (pg_view p)")
  case None
  then show ?thesis using calm_ok_settle [OF assms(1,2)] assms(3) by (simp add: refreshed_page_def none_asked_def)
next
  case (Some v)
  from refresh_table_kept [OF this] assms
  have "aligned_view v" "runs_agree (p\<lparr>pg_view := v\<rparr>)" by (simp_all add: runs_agree_def kept_def page_runs_def)
  with calm_ok_settle [of "p\<lparr>pg_view := v\<rparr>" k] Some assms(3) show ?thesis
    by (simp add: refreshed_page_def none_asked_def)
qed

lemma calm_ok_answer:
  assumes "calm_ok p" and "map_of (pg_pending p) k = Some r" and "\<And>has pre. r \<noteq> LoadRuns has pre"
  shows "calm_ok (results_answered lc k answers p)" and "calm_ok (diff_answered k ans p)"
proof -
  have "\<not> runs_asked p"
  proof
    assume "runs_asked p"
    then obtain j has where "pg_pending p = [(j, LoadRuns has [])]" by (auto simp: runs_asked_def)
    with assms(2) have "r = LoadRuns has []" by (simp split: if_splits)
    with assms(3) show False by blast
  qed
  then have n: "none_asked p" using assms(1) by (simp add: calm_ok_def)
  have p: "aligned_view (pg_view p)" "runs_agree p" using assms(1) by (simp_all add: calm_ok_def)
  have other: "\<forall>kr \<in> set (pg_pending p). fst kr \<noteq> k \<longrightarrow> (\<forall>has pre. snd kr \<noteq> LoadRuns has pre)"
    using n by (simp add: none_asked_def)
  have "calm_ok (settle k x (p\<lparr>pg_view := (pg_view p)\<lparr>resultsLoadFailed := True\<rparr>\<rparr>))" for x
    using p other by (intro calm_ok_settle) (simp_all add: runs_agree_def page_runs_def)
  moreover have "calm_ok (refreshed_page k (p\<lparr>pg_view := (pg_view p)\<lparr>searchResults := rs\<rparr>\<rparr>))" for rs
    using p n by (intro calm_ok_refreshed) (simp_all add: runs_agree_def page_runs_def none_asked_def)
  ultimately show "calm_ok (results_answered lc k answers p)"
    by (simp add: results_answered_def split: prod.split sum.split)
  have "calm_ok (refreshed_page k (p\<lparr>pg_view := (pg_view p)\<lparr>diffResults := d\<rparr>\<rparr>))" for d
    using p n by (intro calm_ok_refreshed) (simp_all add: runs_agree_def page_runs_def none_asked_def)
  with calm_ok_settle [OF p other] show "calm_ok (diff_answered k ans p)"
    by (simp add: diff_answered_def split: option.split)
qed

lemma calm_ok_event:
  assumes ok: "calm_ok p" and calm: "calm_event e p"
  shows "calm_ok (page_handle dmc lc e p)"
proof (cases "by_user e")
  case True
  then show ?thesis using calm_ok_quiet [OF ok] user_quiet by blast
next
  case False
  then show ?thesis
    using assms by (cases e) (auto simp: calm_event_def calm_ok_query calm_ok_runs calm_ok_answer
      split: option.split page_request.split)
qed

lemma calm_ok_new: "calm_ok (new_results_page q path)"
  by (simp add: calm_ok_def new_results_page_def put_query_def aligned_view_def runs_of_view_def totals_width_def runs_agree_def
    page_runs_def none_asked_def)

lemma session_calm: "page_session calm_event dmc lc p \<Longrightarrow> calm_ok p"
  by (induction rule: page_session.induct) (simp_all add: calm_ok_new calm_ok_event)

section \<open>Sound sessions\<close>

text \<open>
  The counts of the table are numbers, requests for results name the runs that are shown, and no
  run is a difference.
\<close>

definition sound_ok :: "results_page \<Rightarrow> bool" where
  "sound_ok p \<longleftrightarrow>
     numeric_ok (pg_view p) \<and>
     (\<forall>kr \<in> set (pg_pending p). \<forall>r. snd kr = FetchResults r \<longrightarrow> length (run_ids r) = length (page_runs p)) \<and>
     list_all (\<lambda>r. revision r \<noteq> Some ''diff'') (page_runs p)"

lemma sound_ok_quiet: "sound_ok p \<Longrightarrow> quiet p p' \<Longrightarrow> sound_ok p'"
  using page_runs_quiet [of p p'] by (simp add: sound_ok_def quiet_def)

lemma run_calls_numeric [simp]: "numeric_ok (foldl run_call v cs) = numeric_ok v"
proof (induction cs rule: rev_induct)
  case (snoc c cs)
  have "numeric_ok (run_call w c) = numeric_ok w" for w by (cases c) (simp_all add: onLoadingComplete_def)
  with snoc show ?case by simp
qed simp

lemma sound_ok_settle:
  assumes "sound_ok p"
  shows "sound_ok (settle k r p)"
proof -
  have "page_runs (settle k r p) = page_runs p" "set (pg_pending (settle k r p)) \<subseteq> set (pg_pending p)"
    "numeric_ok (pg_view (settle k r p)) = numeric_ok (pg_view p)"
    by (auto simp: settle_def Let_def page_runs_def)
  with assms show ?thesis unfolding sound_ok_def by (metis subsetD)
qed

lemma numeric_reload:
  assumes "wants_reload q v" and "numeric_ok v"
  shows "numeric_ok (ResultsDisplay.queryChanged q v)"
  using assms
  by (auto simp: wants_reload_def queryChanged_def reloadData_def numeric_ok_def sound_results_def no_renames_view numeric_rows_def)

lemma sound_ok_query:
  assumes ok: "sound_ok p" and pend: "pg_pending p = []"
  shows "sound_ok (set_page_query dmc q p)"
proof -
  have put: "sound_ok (put_query s p)" for s using ok by (simp add: sound_ok_def) (simp add: put_query_def)
  have "sound_ok (page_queryChanged q (put_query s p))" for s
  proof (cases "wants_reload q (pg_view (put_query s p))")
    case True
    let ?v = "ResultsDisplay.queryChanged q (pg_view (put_query s p))"
    have n: "numeric_ok ?v" using numeric_reload [OF True] put [of s] by (simp add: sound_ok_def)
    have e: "searchResults ?v = []" using reload_view [OF True] by (simp add: empty_table_def)
    from n e have "numeric_ok (?v\<lparr>run_count := Some 0\<rparr>)"
      by (simp add: numeric_ok_def sound_results_def no_renames_view)
    then show ?thesis
      using True pend
      by (simp add: page_queryChanged_def loadData_def Let_def sound_ok_def put_runs_def page_runs_def start_load_def)
  next
    case False
    with put show ?thesis by (simp add: page_queryChanged_def)
  qed
  with put ok show ?thesis by (simp add: set_page_query_def split: sum.split prod.split)
qed

lemma sound_ok_runs:
  assumes ok: "sound_ok p" and calm: "calm_ok p" and k: "map_of (pg_pending p) k = Some (LoadRuns has pre)"
    and ans: "sound_answer (RunsAnswer k ans) p"
  shows "sound_ok (runs_answered k has pre ans p)"
proof (cases "loadRuns has ans ((pg_runs p)\<lparr>testRuns := Some pre\<rparr>)")
  case None
  then show ?thesis using sound_ok_settle [OF ok] by (simp add: runs_answered_def)
next
  case (Some lr)
  then obtain ld rs where lr: "lr = (ld, rs)" by (cases lr)
  have "\<not> none_asked p" using map_of_SomeD [OF k] by (force simp: none_asked_def)
  then have asked: "runs_asked p" using calm by (simp add: calm_ok_def)
  then have pre: "pre = []" and pend: "pg_pending p = [(k, LoadRuns has [])]"
    using k by (auto simp: runs_asked_def split: if_splits)
  have rs: "testRuns ld = Some rs" using loadRuns_result [OF Some [unfolded lr]] by simp
  have new: "list_all (\<lambda>r. revision r \<noteq> Some ''diff'') rs"
    using Some ans unfolding lr pre
    by (auto simp: loadRuns_def fireTestRunsLoadEvent_def sound_answer_def Let_def split: if_splits runs_answer.splits)
  have "searchResults (pg_view p) = []" using asked by (simp add: runs_asked_def empty_table_def)
  then have n: "numeric_ok ((pg_view p)\<lparr>run_count := Some (length rs)\<rparr>)"
    using ok by (simp add: sound_ok_def numeric_ok_def sound_results_def no_renames_view)
  have f: "sound_ok (fetch_start (put_runs ld p))"
    using n rs new pend
    by (auto simp: sound_ok_def fetch_start_def put_runs_def page_runs_def start_load_def searchRequest_def Let_def)
  have "sound_ok (diff_start (fetch_start (put_runs ld p)))"
    using f by (auto simp: sound_ok_def diff_start_def page_runs_def)
  from sound_ok_settle [OF this] show ?thesis by (simp add: runs_answered_def Some lr)
qed

lemma sound_ok_refreshed:
  assumes "sound_ok p"
  shows "sound_ok (refreshed_page k p)"
proof (cases "refresh_table (pg_view p)")
  case None
  then show ?thesis using sound_ok_settle [OF assms] by (simp add: refreshed_page_def)
next
  case (Some v)
  with refresh_table_kept [OF Some] assms have "sound_ok (p\<lparr>pg_view := v\<rparr>)" by (simp add: sound_ok_def page_runs_def)
  from sound_ok_settle [OF this] Some show ?thesis by (simp add: refreshed_page_def)
qed

lemma sound_ok_results:
  assumes ok: "sound_ok p" and agree: "runs_agree p" and k: "map_of (pg_pending p) k = Some (FetchResults r)"
    and ans: "sound_answer (ResultsAnswer k answers) p"
  shows "sound_ok (results_answered lc k answers p)"
proof -
  obtain n ws where n: "retry (\<lambda>n. search_outcome (answers n)) (\<lambda>e. e = HttpStatus 422) 5 5000 = (search_outcome (answers n), ws)"
    using retry_laws [of "\<lambda>n. search_outcome (answers n)" "\<lambda>e. e = HttpStatus 422" 5 5000] by auto
  show ?thesis
  proof (cases "search_outcome (answers n)")
    case (Inl e)
    have "sound_ok (p\<lparr>pg_view := (pg_view p)\<lparr>resultsLoadFailed := True\<rparr>\<rparr>)" using ok by (simp add: sound_ok_def page_runs_def)
    from sound_ok_settle [OF this] n Inl show ?thesis by (simp add: results_answered_def)
  next
    case (Inr rs)
    then have "answers n = AnswerOk rs" by (auto simp: search_outcome_def split: search_answer.splits if_splits)
    then have "sound_results (length (run_ids r)) rs" using ans k by (auto simp: sound_answer_def)
    moreover have "length (run_ids r) = runs_of_view (pg_view p)"
      using ok map_of_SomeD [OF k] runs_agree_count [OF agree] by (fastforce simp: sound_ok_def)
    ultimately have "sound_results (runs_of_view (pg_view p)) (js_sort lc rs)"
      by (simp add: sound_results_def list_all_iff)
    then have "sound_ok (p\<lparr>pg_view := (pg_view p)\<lparr>searchResults := js_sort lc rs\<rparr>\<rparr>)"
      using ok by (simp add: sound_ok_def page_runs_def numeric_ok_def no_renames_view runs_of_view_def)
    from sound_ok_refreshed [OF this] n Inr show ?thesis by (simp add: results_answered_def)
  qed
qed

lemma sound_ok_diff:
  assumes ok: "sound_ok p" and ans: "sound_answer (DiffAnswer k ans) p"
  shows "sound_ok (diff_answered k ans p)"
proof (cases ans)
  case None
  then show ?thesis using sound_ok_settle [OF ok] by (simp add: diff_answered_def)
next
  case (Some d)
  then have "sound_ok (p\<lparr>pg_view := (pg_view p)\<lparr>diffResults := Some d\<rparr>\<rparr>)"
    using ok ans by (simp add: sound_ok_def page_runs_def numeric_ok_def no_renames_view runs_of_view_def sound_answer_def)
  from sound_ok_refreshed [OF this] Some show ?thesis by (simp add: diff_answered_def)
qed

lemma sound_ok_event:
  assumes ok: "sound_ok p" and calm: "calm_ok p" and e: "sound_event e p"
  shows "sound_ok (page_handle dmc lc e p)"
proof (cases "by_user e")
  case True
  then show ?thesis using sound_ok_quiet [OF ok] user_quiet by blast
next
  case False
  have agree: "runs_agree p" using calm by (simp add: calm_ok_def)
  have c: "calm_event e p" and s: "sound_answer e p" using e by (simp_all add: sound_event_def)
  show ?thesis
  proof (cases e)
    case (SetQuery q)
    with c sound_ok_query [OF ok] show ?thesis by (simp add: calm_event_def)
  next
    case (RunsAnswer k ans)
    with s sound_ok_runs [OF ok calm, of k] ok show ?thesis by (auto split: option.split page_request.split)
  next
    case (ResultsAnswer k ans)
    with s sound_ok_results [OF ok agree, of k] ok show ?thesis by (auto split: option.split page_request.split)
  next
    case (DiffAnswer k ans)
    with s sound_ok_diff [OF ok, of k] ok show ?thesis by (auto split: option.split page_request.split)
  qed (use False in simp_all)
qed

lemma sound_ok_new: "sound_ok (new_results_page q path)"
  by (simp add: sound_ok_def new_results_page_def put_query_def numeric_ok_def sound_results_def no_renames_view numeric_rows_def
    page_runs_def)

lemma session_sound: "page_session sound_event dmc lc p \<Longrightarrow> calm_ok p \<and> sound_ok p"
  by (induction rule: page_session.induct)
    (auto simp: calm_ok_new sound_ok_new sound_ok_event sound_event_def intro: calm_ok_event)

section \<open>Sessions to try\<close>

definition run_events :: "page_event list \<Rightarrow> results_page" where
  "run_events es = foldl (\<lambda>p e. page_handle None (\<lambda>a b. 0) e p) (new_results_page fresh_runs ''/css'') es"

text \<open>All events of a list are allowed when they happen.\<close>

fun all_allowed :: "(page_event \<Rightarrow> results_page \<Rightarrow> bool) \<Rightarrow> page_event list \<Rightarrow> results_page \<Rightarrow> bool" where
  "all_allowed ok [] p = True"
| "all_allowed ok (e # es) p = (ok e p \<and> all_allowed ok es (page_handle None (\<lambda>a b. 0) e p))"

lemma session_events:
  "page_session ok None (\<lambda>a b. 0) p \<Longrightarrow> all_allowed ok es p \<Longrightarrow>
   page_session ok None (\<lambda>a b. 0) (foldl (\<lambda>p e. page_handle None (\<lambda>a b. 0) e p) p es)"
proof (induction es arbitrary: p)
  case (Cons e es)
  have "page_session ok None (\<lambda>a b. 0) (page_handle None (\<lambda>a b. 0) e p)"
    using Cons.prems by (intro page_session.event) auto
  with Cons show ?case by simp
qed simp

lemma session_run:
  "all_allowed ok es (new_results_page fresh_runs ''/css'') \<Longrightarrow> page_session ok None (\<lambda>a b. 0) (run_events es)"
  unfolding run_events_def by (rule session_events [OF page_session.opened])

text \<open>A query for one run, its answer, and the answer with the results.\<close>

definition one_run_events :: "page_event list" where
  "one_run_events = [SetQuery ''run_id=1'', RunsAnswer 0 (RunsOk (RunArray [sample_run 1]) None),
     ResultsAnswer 1 (\<lambda>_. AnswerOk [sample_result ''/css/a.html'' [(1, 2)], sample_result ''/css/b/c.html'' [(2, 2)]])]"

text \<open>What the page shows then; as a predicate, so that the session is evaluated once.\<close>

definition one_run_shown :: "results_page \<Rightarrow> bool" where
  "one_run_shown p \<longleftrightarrow>
     pg_next p > 0 \<and> pg_pending p = [] \<and> searchResults (pg_view p) \<noteq> [] \<and> page_runs p = [sample_run 1] \<and>
     map row_path (displayedNodes (pg_view p)) = [''/css/a.html'', ''/css/b'']"

lemma one_run_page: "one_run_shown (run_events one_run_events)"
  by code_simp

lemma one_run_session: "all_allowed calm_event one_run_events (new_results_page fresh_runs ''/css'')"
  by code_simp

section \<open>Properties\<close>

text \<open>
  C31: The spinner and the banner. In every session, in whatever order answers arrive and however
  often the query changes meanwhile, the page says that it is loading exactly as long as an
  answer is missing; and once none is, it says that there are no results if and only if nothing
  has failed and there are none.
\<close>

theorem page_settles:
  assumes "page_session any_event dmc lc p"
  shows "computeIsLoading (loadingCount (pg_loads p)) = (pg_pending p \<noteq> []) \<and>
    (pg_next p > 0 \<and> pg_pending p = [] \<longrightarrow>
       (noResults (pg_view p) \<longleftrightarrow> \<not> resultsLoadFailed (pg_view p) \<and> searchResults (pg_view p) = []))"
  using session_loads [OF assms] by (auto simp: loads_ok_def banner_ok_def dest: tracks_loading)

theorem page_settles_witness:
  "\<not> computeIsLoading (loadingCount (pg_loads (run_events one_run_events))) \<and>
   \<not> noResults (pg_view (run_events one_run_events))"
proof -
  have "page_session any_event None (\<lambda>a b. 0) (run_events one_run_events)"
    using session_run [OF one_run_session] by (rule session_mono) (simp add: any_event_def)
  from page_settles [OF this]
  have loading: "computeIsLoading (loadingCount (pg_loads (run_events one_run_events))) =
      (pg_pending (run_events one_run_events) \<noteq> [])"
    and banner: "pg_next (run_events one_run_events) > 0 \<and> pg_pending (run_events one_run_events) = [] \<longrightarrow>
       (noResults (pg_view (run_events one_run_events)) \<longleftrightarrow>
        \<not> resultsLoadFailed (pg_view (run_events one_run_events)) \<and> searchResults (pg_view (run_events one_run_events)) = [])"
    by blast+
  with loading banner one_run_page show ?thesis unfolding one_run_shown_def by blast
qed

text \<open>
  The columns of the table. In a session in which the query changes only while nothing is
  loading, every displayed row has one cell per run, there is one flag of sorting per run, one
  total per run or none, and the products of the columns are those of the runs.
\<close>

theorem page_aligned:
  assumes "page_session calm_event dmc lc p"
  shows "(\<forall>rw \<in> set (displayedNodes (pg_view p)). length (row_results rw) = length (page_runs p)) \<and>
    length (sortCol (pg_view p)) = length (page_runs p) \<and>
    totals_width (length (page_runs p)) (displayedTotals (pg_view p)) \<and>
    (page_runs p \<noteq> [] \<longrightarrow> displayedProducts (pg_runs p) = map productFromRun (page_runs p))"
proof -
  have ok: "calm_ok p" using session_calm [OF assms] by simp
  then have "runs_of_view (pg_view p) = length (page_runs p)" by (intro runs_agree_count) (simp add: calm_ok_def)
  with ok show ?thesis by (simp add: calm_ok_def aligned_view_def runs_agree_def)
qed

theorem page_aligned_witness:
  "map row_path (displayedNodes (pg_view (run_events one_run_events))) = [''/css/a.html'', ''/css/b''] \<and>
   (\<forall>rw \<in> set (displayedNodes (pg_view (run_events one_run_events))). length (row_results rw) = 1)"
proof -
  note one_run_page
  moreover have "page_session calm_event None (\<lambda>a b. 0) (run_events one_run_events)"
    by (rule session_run [OF one_run_session])
  ultimately show ?thesis using page_aligned [of None "\<lambda>a b. 0" "run_events one_run_events"] by (simp add: one_run_shown_def)
qed

text \<open>
  Without this restriction the answers overtake each other: when the results for the first query
  come after those for the second, they are shown in the columns of the second, for good. Here
  the run 1 passed all of 5 subtests, which the page shows for run 2, and run 3 seems not to have
  been tested.
\<close>

definition overtaken_events :: "page_event list" where
  "overtaken_events = [SetQuery ''run_id=1'', RunsAnswer 0 (RunsOk (RunArray [sample_run 1]) None),
     SetQuery ''run_id=2&run_id=3'', RunsAnswer 2 (RunsOk (RunArray [sample_run 2, sample_run 3]) None),
     ResultsAnswer 3 (\<lambda>_. AnswerOk [sample_result ''/css/a.html'' [(1, 2), (2, 2)]]),
     ResultsAnswer 1 (\<lambda>_. AnswerOk [sample_result ''/css/a.html'' [(5, 5)]])]"

definition overtaken_shown :: "results_page \<Rightarrow> bool" where
  "overtaken_shown p \<longleftrightarrow>
     pg_pending p = [] \<and> map run_id (page_runs p) = [2, 3] \<and>
     map sr_test (searchResults (pg_view p)) = [''/css/a.html''] \<and>
     map (\<lambda>rw. map (\<lambda>c. (cell_counts c SubtestPasses, cell_counts c Total)) (row_results rw)) (displayedNodes (pg_view p)) =
       [[(Num 5, Num 1), (Undefined, Num 0)]]"

lemma overtaken_results: "overtaken_shown (run_events overtaken_events)"
  by code_simp

text \<open>
  A reload keeps the difference of runs that were shown before: tests that were renamed between
  those stay hidden in all later tables. And a difference is only taken away when the new query
  does not ask for one, so that it stays for a query of one run, which has none.
\<close>

lemma reload_keeps_difference:
  "diffResults (reloadData v) = diffResults v" "diff_shown v \<Longrightarrow> diffRun (reloadData v) = diffRun v"
  by (simp_all add: reloadData_def)

lemma stale_renames:
  assumes "diffResults v = Some d" and "renames d = Some rn" and "has_key rn (sr_test r)"
  shows "accumulate_result v ns r = Some ns"
  using assms by (simp add: accumulate_result_def)

text \<open>A query that cannot be read is an exception of the observer: nothing is loaded anew.\<close>

lemma bad_query_keeps_page:
  assumes "runs_queryChanged dmc q ((pg_query p)\<lparr>rs_query := Some q\<rparr>) = Inl es" and "rs_query (pg_query p) \<noteq> Some q"
  shows "pg_pending (set_page_query dmc q p) = pg_pending p \<and>
         kept (pg_view (set_page_query dmc q p)) = kept (pg_view p) \<and>
         displayedNodes (pg_view (set_page_query dmc q p)) = displayedNodes (pg_view p)"
  using assms by (cases es) (simp add: set_page_query_def put_query_def)

end
