(* ===== verification/ResultsTable.thy ===== *)
theory ResultsTable
  imports JsHtml ResultsPage AmendMetadata
begin

text \<open>
  \<^verbatim>\<open>webapp/views/wpt-results.js\<close>, fourth part: its template, as a function of the state of the page,
  and what a click on a cell of the rendered table selects. \<open>None\<close>: a binding throws.

  A literal \<^verbatim>\<open>null\<close> in a binding is the name of a property that no one sets, hence the index is
  \<open>undefined\<close> (here \<open>None\<close>) in the first column.
\<close>

section \<open>The parts of the page\<close>

text \<open>The elements of other components, with the properties that are bound.\<close>

datatype page_comp =
  TestRunHead test_run bool
| PathPart string bool bool
| FileResults string
| RunsQueryBuilder
| InfoBanner string string
| HistoryChart string "string list"
| Metadata "product list" string
| AmendDialog string

datatype page_click =
  ClickNames | ClickColumn nat | ClickFilter | ClickInterop | ClickDefault | ClickHistory | ClickDismiss
| ClickTriage | SelectCell "nat option" row | HoverCell "nat option" row

type_synonym page_html = "(page_comp, page_click) html"

definition diff_run :: test_run where
  "diff_run = \<lparr>browser_name = ''diff'', browser_version = None, labels = None, revision = Some ''diff'',
     run_id = 0, os_name = [], os_version = [], full_revision_hash = [], results_url = [], time_start = [],
     time_end = []\<rparr>"

text \<open>A bound text: \<open>undefined\<close> is empty. A bound link: \<open>undefined\<close> is its name.\<close>

definition bound_text :: "prop_value \<Rightarrow> string" where
  "bound_text v =
     (case v of VNum Undefined \<Rightarrow> [] | VNum n \<Rightarrow> show_js n | VStatus None \<Rightarrow> [] | VStatus (Some s) \<Rightarrow> s | VText t \<Rightarrow> t)"

definition bound_href :: "string option \<Rightarrow> string" where
  "bound_href u = (case u of None \<Rightarrow> ''undefined'' | Some t \<Rightarrow> t)"

section \<open>The table\<close>

definition head_row :: "results_page \<Rightarrow> page_html option" where
  "head_row p =
     elem ''tr'' [] []
       (parts
         [Some [Elem ''th'' [] [] [Txt ''Path'']],
          dom_repeat (\<lambda>i r. Some (Elem ''th'' [] [] [Comp (TestRunHead r True)])) (page_runs p),
          dom_if (diffRun (pg_view p))
            (Some [Elem ''th'' [] []
               [Comp (TestRunHead diff_run False),
                Elem ''paper-icon-button'' [(''icon'', ''filter-list'')] [(''click'', ClickFilter)] []]])])"

definition sort_button :: "page_click \<Rightarrow> bool \<Rightarrow> page_html" where
  "sort_button click isSorted =
     Elem ''td'' [] [] [Elem ''paper-icon-button'' [(''class'', ''sort-button''), (''src'', getSortIcon isSorted)]
       [(''click'', click)] []]"

definition sort_row :: "results_page \<Rightarrow> page_html option" where
  "sort_row p =
     elem ''tr'' [(''class'', ''sort-col'')] []
       (parts
         [Some [sort_button ClickNames (isPathSorted (pg_view p))],
          dom_repeat (\<lambda>i b. Some (sort_button (ClickColumn i) b)) (sortCol (pg_view p))])"

text \<open>The link to a bug, if there is metadata.\<close>

definition metadata_icon :: "string \<Rightarrow> results_page \<Rightarrow> nat option \<Rightarrow> string \<Rightarrow> page_html list option" where
  "metadata_icon base p index path =
     (let root = computePathIsRootDir (Some (view_path (pg_view p)));
          products = displayedProducts (pg_runs p)
      in case shouldDisplayMetadata base root products index path (pg_metadataMap p) of
           None \<Rightarrow> None
         | Some b \<Rightarrow>
             dom_if b
               (map_option (\<lambda>u. [Elem ''a'' [(''href'', bound_href u)] [] [Elem ''iron-icon'' [(''class'', ''bug'')] [] []]])
                 (getMetadataUrl base products index path (pg_metadataMap p))))"

definition triage_handlers :: "nat option \<Rightarrow> row \<Rightarrow> (string \<times> page_click) list" where
  "triage_handlers index node = [(''click'', SelectCell index node), (''mouseover'', HoverCell index node)]"

definition path_cell :: "string \<Rightarrow> results_page \<Rightarrow> row \<Rightarrow> page_html option" where
  "path_cell base p node =
     elem ''td'' [] (triage_handlers None node)
       (parts
         [Some [Comp (PathPart (row_path node) (isDir node) (isTriageMode (pg_view p)))],
          metadata_icon base p None (row_path node),
          dom_if (shouldDisplayTestLabel base (row_path node) (pg_labelMap p))
            (Some [Elem ''iron-icon'' [(''class'', ''bug''),
               (''title'', getTestLabelTitle base (row_path node) (pg_labelMap p))] [] []])])"

text \<open>The numbers of a cell: two of them when differences are shown, else the text of the view.\<close>

definition diff_numbers :: "results_page \<Rightarrow> row \<Rightarrow> nat \<Rightarrow> test_run \<Rightarrow> page_html list option" where
  "diff_numbers p node i run =
     (let v = pg_view p;
          span = (\<lambda>nm prop cls_prop.
            (case (testResultClass v (Some node) (int i) (Some run) (Count cls_prop),
                   getNodeResultDataByPropertyName node (int i) (Some run) (Count prop)) of
               (Some c, Some x) \<Rightarrow> Some [Elem ''span'' [(''class'', nm @ '' '' @ c)] [] [Txt (bound_text x)]]
             | _ \<Rightarrow> None))
      in parts [span ''passes'' SubtestPasses Passes, Some [Txt '' / ''], span ''total'' SubtestTotal Total])"

definition view_numbers :: "results_page \<Rightarrow> row \<Rightarrow> nat \<Rightarrow> test_run \<Rightarrow> page_html list option" where
  "view_numbers p node i run =
     (let v = pg_view p
      in parts
        [case (testResultClass v (Some node) (int i) (Some run) (Count Passes), getNodeResult v node i) of
           (Some c, Some t) \<Rightarrow> Some [Elem ''span'' [(''class'', ''passes '' @ c)] [] [Txt t]]
         | _ \<Rightarrow> None,
         case shouldDisplayHarnessWarning node i of
           None \<Rightarrow> None
         | Some b \<Rightarrow>
             dom_if b
               (map_option
                 (\<lambda>s. [Elem ''span'' [(''class'', ''pointer''), (''title'', ''Harness '' @ (case s of None \<Rightarrow> [] | Some t \<Rightarrow> t))]
                    [] []])
                 (getStatusDisplay node i))])"

definition run_cell :: "string \<Rightarrow> results_page \<Rightarrow> row \<Rightarrow> nat \<Rightarrow> test_run \<Rightarrow> page_html option" where
  "run_cell base p node i run =
     (case testResultClass (pg_view p) (Some node) (int i) (Some run) (Count Passes) of
        None \<Rightarrow> None
      | Some c \<Rightarrow>
          elem ''td'' [(''class'', ''numbers '' @ c)] (triage_handlers (Some i) node)
            (parts
              [dom_if (diffRun (pg_view p)) (diff_numbers p node i run),
               dom_if (\<not> diffRun (pg_view p)) (view_numbers p node i run),
               metadata_icon base p (Some i) (row_path node)]))"

text \<open>The column of the difference.\<close>

definition delta_span :: "row \<Rightarrow> string \<Rightarrow> result_prop \<Rightarrow> page_html list option" where
  "delta_span node cls prop =
     map_option (\<lambda>x. [Elem ''span'' [(''class'', cls)] [] [Txt (bound_text x)]])
       (getNodeResultDataByPropertyName node (- 1) (Some diff_run) prop)"

definition diff_cell :: "results_page \<Rightarrow> row \<Rightarrow> nat \<Rightarrow> page_html option" where
  "diff_cell p node j =
     (case testResultClass (pg_view p) (Some node) (int j) (Some diff_run) (Count Passes) of
        None \<Rightarrow> None
      | Some c \<Rightarrow>
          elem ''td'' [(''class'', ''numbers '' @ c)] []
            (dom_if (row_diff node \<noteq> None)
              (parts
                [delta_span node ''delta passes'' (Count Passes), Some [Txt '' / ''],
                 delta_span node ''delta regressions'' Regressions, Some [Txt '' / ''],
                 delta_span node ''delta total'' (Count Total)])))"

definition node_row :: "string \<Rightarrow> results_page \<Rightarrow> nat \<Rightarrow> row \<Rightarrow> page_html option" where
  "node_row base p j node =
     elem ''tr'' [] []
       (parts
         [just (path_cell base p node),
          dom_repeat (\<lambda>i run. run_cell base p node i run) (page_runs p),
          dom_if (diffRun (pg_view p)) (just (diff_cell p node j))])"

text \<open>The totals: an array, unless a file of that name took its place.\<close>

definition column_totals :: "table_view \<Rightarrow> counts list option" where
  "column_totals v = (case displayedTotals v of Some (Totals ts) \<Rightarrow> Some ts | _ \<Rightarrow> None)"

definition totals_row :: "results_page \<Rightarrow> page_html list option" where
  "totals_row p =
     (let v = pg_view p
      in dom_if (shouldDisplayTotals (column_totals v) (diffRun v))
        (just
          (elem ''tr'' [(''class'', ''totals-row'')] []
            (parts
              [Some [Elem ''td'' [] [] [Txt (getTotalText v)]],
               dom_repeat
                 (\<lambda>i t. case (getTotalsClass v t, getTotalDisplay v t) of
                           (Some c, Some s) \<Rightarrow>
                             Some (Elem ''td'' [(''class'', ''numbers '' @ c)] []
                               [Elem ''span'' [(''class'', ''total '' @ c)] [] [Txt s]])
                         | _ \<Rightarrow> None)
                 (the (column_totals v))]))))"

definition results_table :: "string \<Rightarrow> results_page \<Rightarrow> page_html option" where
  "results_table base p =
     elem ''table'' [] []
       (parts
         [just (elem ''thead'' [] [] (just (head_row p))),
          just (elem ''tbody'' [] []
            (parts
              [just (sort_row p),
               dom_repeat (\<lambda>j node. node_row base p j node) (displayedNodes (pg_view p)),
               totals_row p]))])"

section \<open>The page around the table\<close>

definition selection_toast :: "'e \<Rightarrow> nat \<Rightarrow> ('c, 'e) html list option" where
  "selection_toast click selected =
     (case triageToastMsg selected of
        None \<Rightarrow> None
      | Some msg \<Rightarrow> Some
          [Elem ''paper-toast'' [(''id'', ''selected-toast'')] []
            [Elem ''span'' [] [] [Txt msg],
             Elem ''paper-button''
               ([(''class'', ''view-triage'')] @ flag_attr ''raised'' (selected > 0) @ flag_attr ''disabled'' (\<not> selected > 0))
               [(''click'', click)] [Txt ''TRIAGE'']]])"

definition page_messages :: "results_page \<Rightarrow> page_html list option" where
  "page_messages p =
     (let v = pg_view p
      in parts
        [dom_if (isInvalidDiffUse (diff_shown v) (run_count v))
           (Some [Elem ''paper-toast''
              [(''id'', ''diffInvalid''),
               (''text'', [CHR 0x27] @ ''diff'' @ [CHR 0x27] @ '' was requested, but is only valid when comparing two runs.'')] []
              [Elem ''paper-button'' [(''class'', ''yellow-button'')] [(''click'', ClickDismiss)] [Txt ''Close'']]]),
         Some [Elem ''paper-toast''
           [(''id'', ''runsNotInCache''),
            (''text'', ''One or more of the runs requested is currently being loaded into the cache. Trying again...'')] [] []],
         dom_if (resultsLoadFailed v) (Some [Comp (InfoBanner ''error'' ''Failed to fetch test runs.'')]),
         Some [Elem ''iron-collapse'' (flag_attr ''opened'' (pg_editing p)) [] [Comp RunsQueryBuilder]]])"

definition view_toggle :: "results_page \<Rightarrow> page_html list" where
  "view_toggle p =
     [Elem ''div'' [(''class'', ''channel-area'')] []
       [Elem ''paper-button'' [(''id'', ''toggleInterop''), (''class'', interopButtonClass (table_view.view (pg_view p)))]
          [(''click'', ClickInterop)] [Txt ''Interop View''],
        Elem ''paper-button'' [(''id'', ''toggleDefault''), (''class'', defaultButtonClass (table_view.view (pg_view p)))]
          [(''click'', ClickDefault)] [Txt ''Default View'']]]"

definition page_results :: "string \<Rightarrow> results_page \<Rightarrow> page_html list option" where
  "page_results base p =
     (let v = pg_view p; isFile = computePathIsATestFile base (Some (view_path v))
      in dom_if (run_count v \<noteq> None)
        (parts
          [dom_if isFile (Some [Comp (FileResults (view_path v))]),
           dom_if (shouldDisplayToggle (rs_canViewInteropScores (pg_query p)) isFile) (Some (view_toggle p)),
           dom_if (\<not> isFile)
             (parts
               [just (results_table base p),
                dom_if (noResults v) (Some [Comp (InfoBanner ''info'' ''No results.'')])])]))"

definition page_history :: "string \<Rightarrow> results_page \<Rightarrow> page_html list option" where
  "page_history base p =
     (let v = pg_view p
      in dom_if (computePathIsATestFile base (Some (view_path v)))
        (just
          (elem ''div'' [(''class'', ''history'')] []
            (parts
              [dom_if (\<not> showHistory v)
                 (Some [Elem ''paper-button'' [(''id'', ''show-history''), (''raised'', [])] [(''click'', ClickHistory)]
                   [Txt ''Show history timeline'']]),
               dom_if (showHistory v)
                 (Some [Elem ''h3'' [] [] [Txt ''History:''], Comp (HistoryChart (view_path v) (pg_subtests p))])]))))"

definition render_page :: "string \<Rightarrow> nat \<Rightarrow> results_page \<Rightarrow> page_html list option" where
  "render_page base selected p =
     parts
       [selection_toast ClickTriage selected, page_messages p, page_results base p, page_history base p,
        Some [Comp (Metadata (displayedProducts (pg_runs p)) (view_path (pg_view p))),
              Comp (AmendDialog (view_path (pg_view p)))]]"

section \<open>Rendering does not throw\<close>

lemma class_defined:
  assumes "i < length (row_results node)" and "numeric_counts (cell_counts (row_results node ! i))"
    and "revision run \<noteq> Some ''diff''"
  shows "testResultClass v (Some node) (int i) (Some run) (Count f) \<noteq> None"
proof -
  obtain pp t where "cell_counts (row_results node ! i) (fst (view_props v)) = Num pp" "0 \<le> pp"
    "cell_counts (row_results node ! i) (snd (view_props v)) = Num t" "0 \<le> t"
    using assms(2) by (metis numeric_counts_def)
  with assms(1,3) rate_class_num show ?thesis
    by (auto simp: testResultClass_def isDiff_def elem_at_def Let_def split: prod.split)
qed

lemma text_defined:
  assumes "i < length (row_results node)" and "numeric_counts (cell_counts (row_results node ! i))"
  shows "getNodeResult v node i \<noteq> None"
proof -
  obtain pp t where "cell_counts (row_results node ! i) (getNodePassProp v node) = Num pp"
    "cell_counts (row_results node ! i) (getNodeTotalProp v node) = Num t"
    using assms(2) by (metis numeric_counts_def)
  with assms(1) format_num show ?thesis by (simp add: getNodeResult_def elem_at_def)
qed

lemma metadata_defined:
  assumes "\<And>i. index = Some i \<Longrightarrow> i < length (displayedProducts (pg_runs p))"
  shows "metadata_icon base p index path \<noteq> None"
proof -
  have u: "getMetadataUrl base (displayedProducts (pg_runs p)) index path m \<noteq> None" for m
    using assms by (cases index) (auto simp: getMetadataUrl_def elem_at_def Let_def split: option.split)
  then have "shouldDisplayMetadata base root (displayedProducts (pg_runs p)) index path m \<noteq> None" for root m
    by (cases root) (simp_all add: shouldDisplayMetadata_def)
  then show ?thesis
    using u by (auto simp: metadata_icon_def Let_def dom_if_def split: option.split)
qed

lemma diff_numbers_defined:
  assumes "i < length (row_results node)" and "numeric_counts (cell_counts (row_results node ! i))"
    and "revision run \<noteq> Some ''diff''"
  shows "diff_numbers p node i run \<noteq> None"
proof -
  have "\<exists>x. getNodeResultDataByPropertyName node (int i) (Some run) rp = Some x" for rp
    using assms(1,3) by (simp add: getNodeResultDataByPropertyName_def isDiff_def)
  then obtain a b where "getNodeResultDataByPropertyName node (int i) (Some run) (Count SubtestPasses) = Some a"
    "getNodeResultDataByPropertyName node (int i) (Some run) (Count SubtestTotal) = Some b" by blast
  moreover obtain c d where "testResultClass (pg_view p) (Some node) (int i) (Some run) (Count Passes) = Some c"
    "testResultClass (pg_view p) (Some node) (int i) (Some run) (Count Total) = Some d"
    using class_defined [OF assms] by (meson not_None_eq)
  ultimately show ?thesis by (simp add: diff_numbers_def Let_def)
qed

lemma view_numbers_defined:
  assumes "i < length (row_results node)" and "numeric_counts (cell_counts (row_results node ! i))"
    and "revision run \<noteq> Some ''diff''"
  shows "view_numbers p node i run \<noteq> None"
proof -
  obtain b s where "shouldDisplayHarnessWarning node i = Some b" "getStatusDisplay node i = Some s"
    using assms(1) by (simp add: shouldDisplayHarnessWarning_def getStatusDisplay_def elem_at_def)
  moreover obtain c t where "testResultClass (pg_view p) (Some node) (int i) (Some run) (Count Passes) = Some c"
    "getNodeResult (pg_view p) node i = Some t"
    using class_defined [OF assms] text_defined [OF assms(1,2)] by (meson not_None_eq)
  ultimately show ?thesis by (simp add: view_numbers_def Let_def dom_if_def)
qed

lemma run_cell_defined:
  assumes "i < length (row_results node)" and "numeric_counts (cell_counts (row_results node ! i))"
    and "revision run \<noteq> Some ''diff''" and "i < length (displayedProducts (pg_runs p))"
  shows "\<exists>cls hs. testResultClass (pg_view p) (Some node) (int i) (Some run) (Count Passes) = Some cls \<and>
    run_cell base p node i run = Some (Elem ''td'' [(''class'', ''numbers '' @ cls)] (triage_handlers (Some i) node) hs)"
proof -
  have "parts [dom_if (diffRun (pg_view p)) (diff_numbers p node i run),
      dom_if (\<not> diffRun (pg_view p)) (view_numbers p node i run),
      metadata_icon base p (Some i) (row_path node)] \<noteq> None"
    using diff_numbers_defined [OF assms(1-3)] view_numbers_defined [OF assms(1-3)]
      metadata_defined [of "Some i" p base "row_path node"] assms(4)
    by (intro parts_defined) (auto simp: dom_if_def)
  with class_defined [OF assms(1-3), of "pg_view p" Passes] show ?thesis
    by (auto simp: run_cell_def elem_def)
qed

lemma path_cell_defined:
  "\<exists>hs. path_cell base p node = Some (Elem ''td'' [] (triage_handlers None node) hs)"
proof -
  have "parts [Some [Comp (PathPart (row_path node) (isDir node) (isTriageMode (pg_view p)))],
      metadata_icon base p None (row_path node),
      dom_if (shouldDisplayTestLabel base (row_path node) (pg_labelMap p))
        (Some [Elem ''iron-icon'' [(''class'', ''bug''), (''title'', getTestLabelTitle base (row_path node) (pg_labelMap p))] [] []])]
      \<noteq> (None :: page_html list option)"
    using metadata_defined [of None p base "row_path node"] by (intro parts_defined) (auto simp: dom_if_def)
  then show ?thesis by (auto simp: path_cell_def elem_def)
qed

lemma isDiff_diff_run [simp]: "isDiff (Some diff_run)"
  by (simp add: isDiff_def diff_run_def)

lemma diff_cell_defined: "\<exists>cls hs. diff_cell p node j = Some (Elem ''td'' [(''class'', cls)] [] hs)"
proof (cases "row_diff node")
  case None
  then show ?thesis by (simp add: diff_cell_def testResultClass_def elem_def)
next
  case (Some d)
  then have delta: "getDiffDelta node rp \<noteq> None" for rp by (simp add: getDiffDelta_def)
  then have "delta_span node cls rp \<noteq> None" for cls rp
    by (simp add: delta_span_def getNodeResultDataByPropertyName_def getDiffDeltaStr_def)
  then have "parts [delta_span node ''delta passes'' (Count Passes), Some [Txt '' / ''],
      delta_span node ''delta regressions'' Regressions, Some [Txt '' / ''],
      delta_span node ''delta total'' (Count Total)] \<noteq> None"
    by (intro parts_defined) auto
  moreover have "testResultClass (pg_view p) (Some node) (int j) (Some diff_run) (Count Passes) \<noteq> None"
    using Some delta by (simp add: testResultClass_def)
  ultimately show ?thesis using Some by (auto simp: diff_cell_def elem_def)
qed

lemma totals_row_defined:
  assumes "case column_totals (pg_view p) of Some ts \<Rightarrow> list_all numeric_counts ts | None \<Rightarrow> True"
  shows "totals_row p \<noteq> None"
proof -
  have cell: "getTotalsClass v t \<noteq> None \<and> getTotalDisplay v t \<noteq> None" if t: "numeric_counts t" for v t
  proof -
    have num: "\<exists>q. t f = Num q \<and> 0 \<le> q" for f using t by (simp add: numeric_counts_def)
    obtain a b c d e g where "t Passes = Num a" "0 \<le> a" "t Total = Num b" "0 \<le> b" "t SubtestPasses = Num c" "0 \<le> c"
      "t SubtestTotal = Num d" "0 \<le> d" "t TestViewPasses = Num e" "0 \<le> e" "t TestViewTotal = Num g" "0 \<le> g"
      using num by metis
    then show ?thesis using rate_class_num format_num by (auto simp: getTotalsClass_def getTotalDisplay_def Let_def)
  qed
  show ?thesis
  proof (cases "column_totals (pg_view p)")
    case None
    then show ?thesis by (simp add: totals_row_def shouldDisplayTotals_def Let_def)
  next
    case (Some ts)
    have "dom_repeat (\<lambda>i t. case (getTotalsClass (pg_view p) t, getTotalDisplay (pg_view p) t) of
        (Some c, Some s) \<Rightarrow> Some (Elem ''td'' [(''class'', ''numbers '' @ c)] [] [Elem ''span'' [(''class'', ''total '' @ c)] [] [Txt s]])
      | _ \<Rightarrow> None) ts \<noteq> (None :: page_html list option)"
    proof (rule dom_repeat_defined)
      fix i assume "i < length ts"
      then have "numeric_counts (ts ! i)" using assms Some by (simp add: list_all_length)
      from cell [OF this, of "pg_view p"]
      show "(case (getTotalsClass (pg_view p) (ts ! i), getTotalDisplay (pg_view p) (ts ! i)) of
        (Some c, Some s) \<Rightarrow> Some (Elem ''td'' [(''class'', ''numbers '' @ c)] [] [Elem ''span'' [(''class'', ''total '' @ c)] [] [Txt s]])
      | _ \<Rightarrow> None) \<noteq> (None :: page_html option)" by auto
    qed
    then show ?thesis using Some by (auto simp: totals_row_def Let_def dom_if_def elem_def)
  qed
qed

section \<open>Clicks\<close>

text \<open>
  A click on a cell in triage mode: it selects the row, with the product of the column if it has
  one. The cell is the element \<open>td\<close>.
\<close>

definition click_cell :: "results_page \<Rightarrow> nat \<Rightarrow> page_click \<Rightarrow> triage \<Rightarrow> triage" where
  "click_cell p td click s =
     (case click of
        SelectCell index node \<Rightarrow>
          if \<not> canAmendMetadata (pg_view p) node index then s
          else (case triage_product (displayedProducts (pg_runs p)) index of
                  None \<Rightarrow> s | Some product \<Rightarrow> handleTriageSelect True td product (row_path node) s)
      | HoverCell index node \<Rightarrow> handleHover td (canAmendMetadata (pg_view p) node index) s
      | _ \<Rightarrow> s)"

section \<open>The rows of the rendered table\<close>

lemma head_cells:
  "\<exists>h. head_row p = Some h \<and> length (row_cells h) = 1 + length (page_runs p) + (if diffRun (pg_view p) then 1 else 0) \<and>
     (\<forall>i < length (page_runs p). html_children (row_cells h ! (i + 1)) = [Comp (TestRunHead (page_runs p ! i) True)])"
proof -
  let ?th = "\<lambda>r. Elem ''th'' [] [] [Comp (TestRunHead r True)] :: page_html"
  let ?d = "if diffRun (pg_view p) then [Elem ''th'' [] []
      [Comp (TestRunHead diff_run False), Elem ''paper-icon-button'' [(''icon'', ''filter-list'')] [(''click'', ClickFilter)] []]]
    else [] :: page_html list"
  have h: "head_row p = Some (Elem ''tr'' [] [] (Elem ''th'' [] [] [Txt ''Path''] # map ?th (page_runs p) @ ?d))"
    by (simp add: head_row_def elem_def dom_repeat_each)
  have "row_cells (Elem ''tr'' [] [] (Elem ''th'' [] [] [Txt ''Path''] # map ?th (page_runs p) @ ?d)) =
      Elem ''th'' [] [] [Txt ''Path''] # map ?th (page_runs p) @ ?d"
    by (rule cells_all) (auto simp: list_all_iff)
  with h show ?thesis by (simp add: nth_append)
qed

lemma sort_cells: "\<exists>h. sort_row p = Some h \<and> length (row_cells h) = 1 + length (sortCol (pg_view p))"
proof -
  let ?n = "length (sortCol (pg_view p))"
  let ?bs = "map (\<lambda>i. sort_button (ClickColumn i) (sortCol (pg_view p) ! i)) [0..<?n]"
  have "dom_repeat (\<lambda>i b. Some (sort_button (ClickColumn i) b)) (sortCol (pg_view p)) = Some ?bs"
    unfolding dom_repeat_def those_Some_iff by (rule nth_equalityI) simp_all
  then have "sort_row p = Some (Elem ''tr'' [(''class'', ''sort-col'')] [] (sort_button ClickNames (isPathSorted (pg_view p)) # ?bs))"
    by (simp add: sort_row_def elem_def)
  then show ?thesis by (simp add: row_cells_def sort_button_def filter_True)
qed

text \<open>The text of a cell when no difference is shown: warnings and links are icons.\<close>

lemma metadata_text: "metadata_icon base p index path = Some hs \<Longrightarrow> concat (map html_text hs) = []"
  by (auto simp: metadata_icon_def Let_def dom_if_def split: option.splits if_splits)

lemma warning_text:
  assumes "(case w of None \<Rightarrow> None | Some b \<Rightarrow>
      dom_if b (map_option (\<lambda>s. [Elem ''span'' (as s) [] [] :: page_html]) st)) = Some ws"
  shows "concat (map html_text ws) = []"
  using assms by (cases w; cases st) (auto simp: dom_if_def split: if_split_asm)

lemma view_numbers_text:
  assumes "view_numbers p node i run = Some hs"
  shows "getNodeResult (pg_view p) node i = Some (concat (map html_text hs))"
proof -
  from parts_two [OF assms [unfolded view_numbers_def Let_def]] obtain a ws where
    a: "(case (testResultClass (pg_view p) (Some node) (int i) (Some run) (Count Passes), getNodeResult (pg_view p) node i) of
           (Some c, Some t) \<Rightarrow> Some [Elem ''span'' [(''class'', ''passes '' @ c)] [] [Txt t] :: page_html]
         | _ \<Rightarrow> None) = Some a"
    and ws: "concat (map html_text ws) = []" and hs: "hs = a @ ws"
    by (elim exE conjE) (rule that, assumption, rule warning_text, assumption, assumption)
  obtain c t where "testResultClass (pg_view p) (Some node) (int i) (Some run) (Count Passes) = Some c"
    and t: "getNodeResult (pg_view p) node i = Some t"
    using a by (auto split: option.split_asm)
  with a have "a = [Elem ''span'' [(''class'', ''passes '' @ c)] [] [Txt t]]" by simp
  with hs ws t show ?thesis by simp
qed

lemma run_cell_text:
  assumes "run_cell base p node i run = Some h" and "\<not> diffRun (pg_view p)"
  shows "getNodeResult (pg_view p) node i = Some (html_text h)"
proof -
  from assms obtain c hs where h: "h = Elem ''td'' [(''class'', ''numbers '' @ c)] (triage_handlers (Some i) node) hs"
    and hs: "parts [Some [], view_numbers p node i run, metadata_icon base p (Some i) (row_path node)] = Some hs"
    by (auto simp: run_cell_def elem_Some split: option.splits)
  from hs obtain xs ys where xs: "view_numbers p node i run = Some xs"
    and ys: "metadata_icon base p (Some i) (row_path node) = Some ys" and "hs = xs @ ys"
    by (auto simp: parts_Cons split: option.splits)
  then have "html_text h = concat (map html_text xs) @ concat (map html_text ys)" by (simp add: h)
  with view_numbers_text [OF xs] metadata_text [OF ys] show ?thesis by (simp only: append_Nil2)
qed

lemma node_row_cells:
  assumes widths: "length (row_results node) = length (page_runs p)"
    and numeric: "\<forall>c \<in> set (row_results node). numeric_counts (cell_counts c)"
    and runs: "list_all (\<lambda>r. revision r \<noteq> Some ''diff'') (page_runs p)"
    and products: "page_runs p \<noteq> [] \<longrightarrow> displayedProducts (pg_runs p) = map productFromRun (page_runs p)"
  shows "\<exists>h. node_row base p j node = Some h \<and>
    length (row_cells h) = 1 + length (page_runs p) + (if diffRun (pg_view p) then 1 else 0) \<and>
    (\<forall>i < length (page_runs p).
       run_cell base p node i (page_runs p ! i) = Some (row_cells h ! (i + 1)) \<and>
       html_handler ''click'' (row_cells h ! (i + 1)) = Some (SelectCell (Some i) node))"
proof -
  let ?n = "length (page_runs p)"
  have cell: "\<exists>cls hs. run_cell base p node i (page_runs p ! i) =
      Some (Elem ''td'' [(''class'', cls)] (triage_handlers (Some i) node) hs)" if "i < ?n" for i
    using run_cell_defined [of i node "page_runs p ! i" p base] that widths numeric runs products
    by (auto simp: list_all_length)
  obtain ph where ph: "path_cell base p node = Some (Elem ''td'' [] (triage_handlers None node) ph)"
    using path_cell_defined by blast
  obtain dc dh where dc: "diff_cell p node j = Some (Elem ''td'' [(''class'', dc)] [] dh)"
    using diff_cell_defined by blast
  have "dom_repeat (\<lambda>i run. run_cell base p node i run) (page_runs p) \<noteq> None"
    by (rule dom_repeat_defined) (use cell in auto)
  then obtain cs where cs: "dom_repeat (\<lambda>i run. run_cell base p node i run) (page_runs p) = Some cs" by blast
  note nth = dom_repeat_nth [OF cs] and len = dom_repeat_length [OF cs]
  let ?d = "if diffRun (pg_view p) then [Elem ''td'' [(''class'', dc)] [] dh] else []"
  let ?hs = "Elem ''td'' [] (triage_handlers None node) ph # cs @ ?d"
  have row: "node_row base p j node = Some (Elem ''tr'' [] [] ?hs)"
    by (simp add: node_row_def ph dc cs elem_def)
  have "html_tag (cs ! i) = ''td''" if "i < ?n" for i using cell [OF that] nth [OF that] by auto
  then have "list_all (\<lambda>h. html_tag h \<in> {''td'', ''th''}) ?hs"
    using len by (auto simp: list_all_iff in_set_conv_nth)
  then have cells: "row_cells (Elem ''tr'' [] [] ?hs) = ?hs" by (rule cells_all)
  have "html_handler ''click'' (cs ! i) = Some (SelectCell (Some i) node)" if "i < ?n" for i
    using cell [OF that] nth [OF that] by (auto simp: triage_handlers_def)
  with row cells len nth show ?thesis by (simp add: nth_append)
qed

lemma totals_cells:
  assumes "totals_row p = Some hs" and "totals_width n (displayedTotals (pg_view p))" and "h \<in> set hs"
  shows "length (row_cells h) = 1 + n"
proof -
  from assms(1,3) have sh: "shouldDisplayTotals (column_totals (pg_view p)) (diffRun (pg_view p))"
    by (auto simp: totals_row_def Let_def dom_if_def split: if_splits)
  then obtain ts where ts: "column_totals (pg_view p) = Some ts" "ts \<noteq> []"
    by (auto simp: shouldDisplayTotals_def split: option.splits)
  let ?f = "\<lambda>i t. case (getTotalsClass (pg_view p) t, getTotalDisplay (pg_view p) t) of
      (Some c, Some s) \<Rightarrow> Some (Elem ''td'' [(''class'', ''numbers '' @ c)] [] [Elem ''span'' [(''class'', ''total '' @ c)] [] [Txt s] :: page_html])
    | _ \<Rightarrow> None"
  have "length ts = n" using assms(2) ts by (auto simp: totals_width_def column_totals_def split: option.splits node.splits)
  from assms(1) sh ts obtain cs where cs: "dom_repeat ?f ts = Some cs"
    and hs: "hs = [Elem ''tr'' [(''class'', ''totals-row'')] [] (Elem ''td'' [] [] [Txt (getTotalText (pg_view p))] # cs)]"
    by (cases "dom_repeat ?f ts") (auto simp: totals_row_def Let_def elem_def just_def)
  have "html_tag c = ''td''" if "c \<in> set cs" for c
  proof -
    from dom_repeat_in [OF cs that] obtain i where "?f i (ts ! i) = Some c" by blast
    then show ?thesis by (cases "getTotalsClass (pg_view p) (ts ! i)"; cases "getTotalDisplay (pg_view p) (ts ! i)") auto
  qed
  then have "row_cells (Elem ''tr'' [(''class'', ''totals-row'')] [] (Elem ''td'' [] [] [Txt (getTotalText (pg_view p))] # cs)) =
      Elem ''td'' [] [] [Txt (getTotalText (pg_view p))] # cs"
    by (intro cells_all) (simp add: list_all_iff)
  with hs assms(3) dom_repeat_length [OF cs] \<open>length ts = n\<close> show ?thesis by simp
qed

lemma table_rendered_parts:
  assumes "page_session sound_event dmc lc p"
  shows "\<exists>t head srt body tot. results_table base p = Some t \<and> table_rows t = head # srt # body @ tot \<and>
    length (row_cells head) = 1 + length (page_runs p) + (if diffRun (pg_view p) then 1 else 0) \<and>
    length (row_cells srt) = 1 + length (page_runs p) \<and>
    length body = length (displayedNodes (pg_view p)) \<and>
    (\<forall>r \<in> set tot. length (row_cells r) = 1 + length (page_runs p)) \<and>
    (\<forall>j < length body. length (row_cells (body ! j)) = length (row_cells head) \<and>
      (\<forall>i < length (page_runs p).
         html_children (row_cells head ! (i + 1)) = [Comp (TestRunHead (page_runs p ! i) True)] \<and>
         html_handler ''click'' (row_cells (body ! j) ! (i + 1)) =
           Some (SelectCell (Some i) (displayedNodes (pg_view p) ! j)) \<and>
         (diffRun (pg_view p) \<or>
            getNodeResult (pg_view p) (displayedNodes (pg_view p) ! j) i =
              Some (html_text (row_cells (body ! j) ! (i + 1))))))"
proof -
  have ok: "calm_ok p" "sound_ok p" using session_sound [OF assms] by simp_all
  let ?v = "pg_view p" and ?n = "length (page_runs p)" and ?rows = "displayedNodes (pg_view p)"
  have agree: "runs_agree p" and al: "aligned_view ?v" using ok(1) by (simp_all add: calm_ok_def)
  note count = runs_agree_count [OF agree]
  have num: "numeric_rows ?rows (displayedTotals ?v)" and runs: "list_all (\<lambda>r. revision r \<noteq> Some ''diff'') (page_runs p)"
    using ok(2) by (simp_all add: sound_ok_def numeric_ok_def)
  have row: "\<exists>h. node_row base p j (?rows ! j) = Some h \<and> length (row_cells h) = 1 + ?n + (if diffRun ?v then 1 else 0) \<and>
      (\<forall>i < ?n. run_cell base p (?rows ! j) i (page_runs p ! i) = Some (row_cells h ! (i + 1)) \<and>
         html_handler ''click'' (row_cells h ! (i + 1)) = Some (SelectCell (Some i) (?rows ! j)))"
    if "j < length ?rows" for j
    using al agree num runs nth_mem [OF that] count
    by (intro node_row_cells) (blast | simp add: aligned_view_def runs_agree_def numeric_rows_def)+
  obtain head where head: "head_row p = Some head" "length (row_cells head) = 1 + ?n + (if diffRun ?v then 1 else 0)"
    "\<forall>i < ?n. html_children (row_cells head ! (i + 1)) = [Comp (TestRunHead (page_runs p ! i) True)]"
    using head_cells [of p] by blast
  obtain srt where srt: "sort_row p = Some srt" "length (row_cells srt) = 1 + ?n"
    using sort_cells [of p] al count by (auto simp: aligned_view_def)
  have "dom_repeat (\<lambda>j node. node_row base p j node) ?rows \<noteq> None"
    by (rule dom_repeat_defined) (use row in auto)
  then obtain body where body: "dom_repeat (\<lambda>j node. node_row base p j node) ?rows = Some body" by blast
  note nth = dom_repeat_nth [OF body] and len = dom_repeat_length [OF body]
  have "case column_totals ?v of Some ts \<Rightarrow> list_all numeric_counts ts | None \<Rightarrow> True"
    using num by (auto simp: numeric_rows_def column_totals_def split: option.split node.split)
  then obtain tot where tot: "totals_row p = Some tot" using totals_row_defined by blast
  have tw: "length (row_cells h) = 1 + ?n" if "h \<in> set tot" for h
    using totals_cells [OF tot _ that] al count by (simp add: aligned_view_def)
  let ?t = "Elem ''table'' [] [] [Elem ''thead'' [] [] [head], Elem ''tbody'' [] [] (srt # body @ tot)] :: page_html"
  have t: "results_table base p = Some ?t"
    by (simp add: results_table_def head(1) srt(1) body tot elem_def)
  have "length (row_cells (body ! j)) = length (row_cells head) \<and>
      (\<forall>i < ?n. html_children (row_cells head ! (i + 1)) = [Comp (TestRunHead (page_runs p ! i) True)] \<and>
         html_handler ''click'' (row_cells (body ! j) ! (i + 1)) = Some (SelectCell (Some i) (?rows ! j)) \<and>
         (diffRun ?v \<or> getNodeResult ?v (?rows ! j) i = Some (html_text (row_cells (body ! j) ! (i + 1)))))"
    if j: "j < length body" for j
    using row [of j] nth [of j] j len head(2,3) run_cell_text by fastforce
  moreover have "table_rows ?t = head # srt # body @ tot" by (simp add: table_rows_def)
  ultimately show ?thesis
    using t head(2) srt(2) len tw
    by (rule_tac exI [of _ ?t], rule_tac exI [of _ head], rule_tac exI [of _ srt], rule_tac exI [of _ body],
        rule_tac exI [of _ tot]) blast
qed

text \<open>
  The whole page renders then, too, and says with its banners what the state says. The text of the
  toast comes from the \<^verbatim>\<open>pluralize\<close> library, which may throw.
\<close>

fun banners :: "page_html \<Rightarrow> string list" where
  "banners (Comp (InfoBanner kind msg)) = [kind]"
| "banners _ = []"

lemma page_rendered:
  assumes "page_session sound_event dmc lc p" and "triageToastMsg selected \<noteq> None"
    and "run_count (pg_view p) \<noteq> None" and "\<not> computePathIsATestFile base (Some (view_path (pg_view p)))"
  shows "\<exists>hs. render_page base selected p = Some hs \<and>
    concat (map banners hs) = (if resultsLoadFailed (pg_view p) then [''error''] else []) @
      (if noResults (pg_view p) then [''info''] else [])"
proof -
  obtain t where t: "results_table base p = Some t" using table_rendered_parts [OF assms(1), of base] by blast
  then have "banners t = []" by (auto simp: results_table_def elem_Some)
  with t assms(2-4) show ?thesis
    by (auto simp: render_page_def selection_toast_def page_messages_def page_results_def page_history_def view_toggle_def
      Let_def dom_if_def)
qed

text \<open>A session of triage: two runs, one of which fails.\<close>

definition triage_events :: "page_event list" where
  "triage_events = [SetQuery ''run_id=1&run_id=2'', RunsAnswer 0 (RunsOk (RunArray [sample_run 1,
       (sample_run 2)\<lparr>browser_name := ''firefox''\<rparr>]) None),
     ResultsAnswer 1 (\<lambda>_. AnswerOk [sample_result ''/css/a.html'' [(2, 2), (1, 2)]]), TriageMode True]"

definition triage_shown :: "results_page \<Rightarrow> bool" where
  "triage_shown p \<longleftrightarrow>
     length (displayedNodes (pg_view p)) = 1 \<and> length (page_runs p) = 2 \<and>
     canAmendMetadata (pg_view p) (displayedNodes (pg_view p) ! 0) (Some 1) \<and>
     row_path (displayedNodes (pg_view p) ! 0) = ''/css/a.html'' \<and> browser_name (page_runs p ! 1) = ''firefox''"

lemma triage_page: "triage_shown (run_events triage_events)"
  by code_simp

lemma triage_sound: "page_session sound_event None (\<lambda>a b. 0) (run_events triage_events)"
proof (rule session_run)
  let ?p1 = "page_handle None (\<lambda>a b. 0) (SetQuery ''run_id=1&run_id=2'') (new_results_page fresh_runs ''/css'')"
  let ?p2 = "page_handle None (\<lambda>a b. 0) (RunsAnswer 0 (RunsOk (RunArray [sample_run 1,
       (sample_run 2)\<lparr>browser_name := ''firefox''\<rparr>]) None)) ?p1"
  have one: "all_allowed calm_event triage_events (new_results_page fresh_runs ''/css'')" by code_simp
  have "map_of (pg_pending ?p2) 1 = Some (FetchResults \<lparr>url_query = [], run_ids = [1, 2], body_query = None\<rparr>)"
    by code_simp
  then have "sound_answer (ResultsAnswer 1 (\<lambda>_. AnswerOk [sample_result ''/css/a.html'' [(2, 2), (1, 2)]])) ?p2"
    by (auto simp: sound_answer_def sound_results_def sample_result_def statuses_of_def sound_result_def)
  moreover have "sound_answer (RunsAnswer 0 (RunsOk (RunArray [sample_run 1,
       (sample_run 2)\<lparr>browser_name := ''firefox''\<rparr>]) None)) ?p1"
    by (simp add: sound_answer_def sample_run_def body_runs_def)
  moreover have "sound_answer (SetQuery ''run_id=1&run_id=2'') (new_results_page fresh_runs ''/css'')"
    by (simp add: sound_answer_def)
  ultimately show "all_allowed sound_event triage_events (new_results_page fresh_runs ''/css'')"
    using one by (simp add: triage_events_def sound_event_def) (simp add: sound_answer_def)
qed

definition mark_page :: results_page where
  "mark_page = run_events [SetQuery ''run_id=1'', RunsAnswer 0 (RunsOk (RunArray [sample_run 1]) None),
     ResultsAnswer 1 (\<lambda>_. AnswerOk [sample_result ''/css/a.html'' [(1, 2)], sample_result ''/css/z.html'' [(1, 2)]]),
     TriageMode True]"

text \<open>
  Cells are reused when the rows change places: the mark of a selected cell stays where it is. After
  sorting, the cell at this place belongs to another row, whose test is not selected.
\<close>

lemma stale_mark:
  "(\<lambda>(p, p').
      let s = click_cell p 1 (SelectCell None (displayedNodes (pg_view p) ! 0)) new_triage
      in td_selected s 1 \<and> is_selected s ''/css/a.html'' [] \<and>
         row_path (displayedNodes (pg_view p') ! 0) = ''/css/z.html'' \<and> \<not> is_selected s ''/css/z.html'' [])
     (mark_page, page_sort_names (page_sort_names mark_page))"
  by code_simp

section \<open>Properties\<close>



text \<open>
  C33: A click in triage mode. In such a session, a click on a cell that can be amended selects the
  test of its row with the browser of the run in the head of its column, or takes this selection
  back; all other selections stay.
\<close>

theorem click_selects:
  assumes "page_session sound_event dmc lc p" and "results_table base p = Some t"
    and "table_rows t = head # srt # body @ tot" and "length body = length (displayedNodes (pg_view p))"
    and "j < length body" and "i < length (page_runs p)"
    and "canAmendMetadata (pg_view p) (displayedNodes (pg_view p) ! j) (Some i)"
    and "s' = click_cell p td (the (html_handler ''click'' (row_cells (body ! j) ! (i + 1)))) s"
  shows "is_selected s' path product =
    (if path = row_path (displayedNodes (pg_view p) ! j) \<and> product = browser_name (page_runs p ! i)
     then \<not> is_selected s path product else is_selected s path product)"
proof -
  let ?node = "displayedNodes (pg_view p) ! j"
  obtain t' head' srt' body' tot' where "results_table base p = Some t'" "table_rows t' = head' # srt' # body' @ tot'"
    "length body' = length (displayedNodes (pg_view p))"
    and h: "\<forall>j < length body'. \<forall>i < length (page_runs p).
      html_handler ''click'' (row_cells (body' ! j) ! (i + 1)) = Some (SelectCell (Some i) (displayedNodes (pg_view p) ! j))"
    using table_rendered_parts [OF assms(1), of base] by blast
  moreover from calculation assms(2-4) have "body' = body" by simp
  ultimately have click: "html_handler ''click'' (row_cells (body ! j) ! (i + 1)) = Some (SelectCell (Some i) ?node)"
    using assms(5,6) by simp
  have "displayedProducts (pg_runs p) = map productFromRun (page_runs p)"
    using session_sound [OF assms(1)] assms(6) by (auto simp: calm_ok_def runs_agree_def)
  then have "triage_product (displayedProducts (pg_runs p)) (Some i) = Some (browser_name (page_runs p ! i))"
    using assms(6) by (simp add: triage_product_def elem_at_def productFromRun_def)
  then show ?thesis
    using assms(7,8) click by (auto simp: click_cell_def select_toggles)
qed

theorem click_selects_witness:
  "\<exists>t. results_table ''/results/css'' (run_events triage_events) = Some t \<and>
     is_selected (click_cell (run_events triage_events) 5 (the (html_handler ''click'' (row_cells (table_rows t ! 2) ! 2))) new_triage)
       ''/css/a.html'' ''firefox''"
proof -
  let ?p = "run_events triage_events"
  obtain t head srt body tot where t: "results_table ''/results/css'' ?p = Some t"
    "table_rows t = head # srt # body @ tot" "length body = length (displayedNodes (pg_view ?p))"
    using table_rendered_parts [OF triage_sound, of "''/results/css''"] by blast
  have facts: "length (displayedNodes (pg_view ?p)) = 1 \<and> length (page_runs ?p) = 2 \<and>
      canAmendMetadata (pg_view ?p) (displayedNodes (pg_view ?p) ! 0) (Some 1) \<and>
      row_path (displayedNodes (pg_view ?p) ! 0) = ''/css/a.html'' \<and> browser_name (page_runs ?p ! 1) = ''firefox''"
    using triage_page unfolding triage_shown_def .
  have "is_selected (click_cell ?p 5 (the (html_handler ''click'' (row_cells (body ! 0) ! (1 + 1)))) new_triage)
      (row_path (displayedNodes (pg_view ?p) ! 0)) (browser_name (page_runs ?p ! 1))"
    using click_selects [OF triage_sound t, of 0 1 _ 5 new_triage] facts t(3)
    by (simp add: is_selected_def new_triage_def)
  moreover have "table_rows t ! 2 = body ! 0" using t(2,3) facts by (cases body) simp_all
  ultimately show ?thesis using t(1) facts by (auto simp: numeral_2_eq_2)
qed

end
