(* ===== verification/SubtestTable.thy ===== *)
theory SubtestTable
  imports ResultsTable TestFileResults
begin

text \<open>
  The element of \<^verbatim>\<open>webapp/components/test-file-results.js\<close> with its table, that of
  \<^verbatim>\<open>test-file-results-table.js\<close>: the state from which they render, the rendered table, and what its
  clicks do. \<open>None\<close>: an exception. Widths of columns are left out.
\<close>

section \<open>The state\<close>

text \<open>The properties of the two elements, which share path, runs and flags by bindings.\<close>

record file_view =
  fv_path :: string
  fv_runs :: "test_run list"
  fv_diffRun :: bool
  fv_resultsTable :: "table_row list option"
  fv_onlyShowDifferences :: bool
  fv_verbose :: bool
  fv_isTriageMode :: bool
  fv_metadataMap :: "string obj obj option"

definition new_file_view :: "string \<Rightarrow> test_run list \<Rightarrow> bool \<Rightarrow> file_view" where
  "new_file_view path runs withDiff =
     \<lparr>fv_path = path, fv_runs = runs, fv_diffRun = withDiff, fv_resultsTable = Some [], fv_onlyShowDifferences = False,
      fv_verbose = False, fv_isTriageMode = False, fv_metadataMap = None\<rparr>"

text \<open>While the files are fetched there are no rows.\<close>

definition start_file_load :: "file_view \<Rightarrow> file_view" where
  "start_file_load v = v\<lparr>fv_resultsTable := Some []\<rparr>"

text \<open>The answers: the result files of the runs, and what the search gives.\<close>

definition load_file_data :: "run_file option list \<Rightarrow> subtest_result list option \<Rightarrow> file_view \<Rightarrow> file_view" where
  "load_file_data files found v =
     v\<lparr>fv_resultsTable :=
         filterResultsTableBySearch (fv_path v) (fetchTestFile (Some (fv_path v)) (Some files)) found\<rparr>"

definition fv_rows :: "file_view \<Rightarrow> table_row list option" where
  "fv_rows v = map_option fst (computeRows (fv_resultsTable v) (fv_onlyShowDifferences v))"

definition toggle_file_diff :: "file_view \<Rightarrow> file_view" where
  "toggle_file_diff v = v\<lparr>fv_onlyShowDifferences := \<not> fv_onlyShowDifferences v\<rparr>"

definition show_details :: "bool \<Rightarrow> file_view \<Rightarrow> file_view" where
  "show_details b v = v\<lparr>fv_verbose := b\<rparr>"

definition computeDisplayedProducts :: "test_run list \<Rightarrow> product list" where
  "computeDisplayedProducts runs = map productFromRun runs"

definition computeFirstRow :: "table_row list \<Rightarrow> table_row option" where
  "computeFirstRow rows = (if length rows > 0 then Some (rows ! 0) else None)"

text \<open>The link of the analyzer, with the origin of the page.\<close>

definition analyzer_href :: "string \<Rightarrow> string obj option \<Rightarrow> string option" where
  "analyzer_href origin shots =
     map_option (\<lambda>q. origin @ ''/analyzer'' @ (if q = [] then [] else ''?'' @ q)) (computeAnalyzerURL shots)"

section \<open>The rendered table\<close>

datatype file_comp = FileRunHead test_run | FileAmendDialog string

datatype file_click =
  FileFilter | FileTriage
| SelectSubtest nat string "string option"
| HoverSubtest "string option"

type_synonym file_html = "(file_comp, file_click) html"

definition code_text :: "string \<Rightarrow> file_html" where
  "code_text t = Elem ''code'' [] [] [Txt t]"

definition name_cell :: "file_html list \<Rightarrow> file_html" where
  "name_cell hs = Elem ''td'' [(''class'', ''sub-test-name'')] [] [Elem ''code'' [] [] hs]"

definition file_head :: "file_view \<Rightarrow> file_html option" where
  "file_head v =
     elem ''tr'' [] []
       (parts
         [Some [Elem ''th'' [] [] [Txt ''Subtest'']],
          dom_repeat (\<lambda>i r. Some (Elem ''th'' [] [] [Comp (FileRunHead r)])) (fv_runs v),
          dom_if (fv_diffRun v)
            (Some [Elem ''th'' [] []
               [Comp (FileRunHead diff_run),
                Elem ''paper-icon-button'' [(''icon'', ''filter-list''),
                  (''title'', ''Toggle filtering to only show differences'')] [(''click'', FileFilter)] []]])])"

definition subtest_icon :: "file_view \<Rightarrow> nat \<Rightarrow> string \<Rightarrow> string option \<Rightarrow> file_html list option" where
  "subtest_icon v index nm status =
     (let products = computeDisplayedProducts (fv_runs v)
      in case shouldDisplaySubtestMetadata (fv_path v) products index nm (fv_metadataMap v) status (fv_isTriageMode v) of
           None \<Rightarrow> None
         | Some b \<Rightarrow>
             dom_if b
               (case fv_metadataMap v of
                  None \<Rightarrow> None
                | Some m \<Rightarrow>
                    map_option (\<lambda>u. [Elem ''a'' [(''href'', u), (''target'', ''_blank'')] []
                      [Elem ''iron-icon'' [(''class'', ''bug''), (''icon'', ''bug-report'')] [] []]])
                      (getMetadataUrlForSubtest (fv_path v) products index nm m)))"

definition compare_link :: "string \<Rightarrow> result_cell \<Rightarrow> file_html list option" where
  "compare_link origin r =
     dom_if (result_screenshots r \<noteq> None)
       (map_option (\<lambda>u. [Elem ''a'' [(''class'', ''ref-button''), (''href'', u)] []
          [Elem ''iron-icon'' [(''icon'', ''image:compare'')] [] [], Txt ''COMPARE'']])
         (analyzer_href origin (result_screenshots r)))"

definition result_td :: "string \<Rightarrow> file_view \<Rightarrow> string \<Rightarrow> nat \<Rightarrow> result_cell \<Rightarrow> file_html option" where
  "result_td origin v nm index r =
     (case colorClass (result_status r) of
        None \<Rightarrow> None
      | Some c \<Rightarrow>
          elem ''td'' [(''class'', c)]
            [(''click'', SelectSubtest index nm (result_status r)), (''mouseover'', HoverSubtest (result_status r))]
            (parts
              [Some [code_text (subtestMessage r (fv_verbose v))],
               subtest_icon v index nm (result_status r),
               compare_link origin r]))"

text \<open>A class or a text that is \<open>undefined\<close> is left out.\<close>

definition difference_td :: "table_row \<Rightarrow> file_html option" where
  "difference_td row =
     map_option
       (\<lambda>d. Elem ''td'' [(''class'', ''diff '' @ (case diffClass (tr_results row) of None \<Rightarrow> [] | Some c \<Rightarrow> c))] []
          [Txt (case d of None \<Rightarrow> [] | Some t \<Rightarrow> t)])
       (diffDisplay (tr_results row))"

definition subtest_tr :: "string \<Rightarrow> file_view \<Rightarrow> table_row \<Rightarrow> file_html option" where
  "subtest_tr origin v row =
     elem ''tr'' [] []
       (parts
         [Some [name_cell [Txt (tr_name row)]],
          dom_repeat (result_td origin v (tr_name row)) (tr_results row),
          dom_if (fv_diffRun v) (just (difference_td row))])"

definition subtest_totals :: "table_row list \<Rightarrow> file_html list option" where
  "subtest_totals rows =
     (case computeTotals rows of
        None \<Rightarrow> None
      | Some tots \<Rightarrow>
          dom_if (shouldShowTotals (Some tots))
            (just
              (elem ''tr'' [(''class'', ''totals-row'')] []
                (parts
                  [Some [name_cell [Elem ''strong'' [] [] [Txt ''Subtest Total'']]],
                   dom_repeat
                     (\<lambda>i t. map_option
                        (\<lambda>c. Elem ''td'' [(''class'', c)] [] [code_text (show_nat (fst t) @ ''/'' @ show_nat (snd t))])
                        (totalsColorClass (fst t) (snd t)))
                     tots]))))"

definition screenshot_td :: "string \<Rightarrow> string \<Rightarrow> result_cell \<Rightarrow> file_html option" where
  "screenshot_td origin path r =
     elem ''td'' [] []
       (case testScreenshot path (result_screenshots r) of
          None \<Rightarrow> Some []
        | Some shot \<Rightarrow>
            map_option (\<lambda>u. [Elem ''a'' [(''href'', u)] [] [Elem ''img'' [(''src'', shot)] [] []]])
              (analyzer_href origin (result_screenshots r)))"

definition screenshot_tr :: "string \<Rightarrow> file_view \<Rightarrow> table_row list \<Rightarrow> file_html list option" where
  "screenshot_tr origin v rows =
     dom_if (fv_verbose v)
       (case computeFirstRow rows of
          None \<Rightarrow> Some []
        | Some row \<Rightarrow>
            dom_if (anyScreenshots row)
              (just
                (elem ''tr'' [] []
                  (parts
                    [Some [name_cell [Txt ''Screenshot'']],
                     dom_repeat (\<lambda>i r. screenshot_td origin (fv_path v) r) (tr_results row)]))))"

definition file_results_table :: "string \<Rightarrow> file_view \<Rightarrow> file_html option" where
  "file_results_table origin v =
     (case fv_rows v of
        None \<Rightarrow> None
      | Some rows \<Rightarrow>
          elem ''table'' (flag_attr ''terse'' (\<not> fv_verbose v) @ flag_attr ''verbose'' (fv_verbose v)) []
            (parts
              [just (elem ''thead'' [] [] (just (file_head v))),
               just (elem ''tbody'' [] []
                 (parts
                   [dom_repeat (\<lambda>j row. subtest_tr origin v row) rows,
                    subtest_totals rows,
                    screenshot_tr origin v rows]))]))"

definition render_file_results :: "string \<Rightarrow> nat \<Rightarrow> file_view \<Rightarrow> file_html list option" where
  "render_file_results origin selected v =
     parts
       [selection_toast FileTriage selected, just (file_results_table origin v), Some [Comp (FileAmendDialog (fv_path v))]]"

section \<open>Clicks\<close>

text \<open>A click on the cell \<open>td\<close>, and the mouse over it; an index without product throws.\<close>

definition click_subtest :: "file_view \<Rightarrow> nat \<Rightarrow> file_click \<Rightarrow> triage \<Rightarrow> triage" where
  "click_subtest v td click s =
     (case click of
        SelectSubtest index nm status \<Rightarrow>
          if \<not> canAmendSubtest status (fv_isTriageMode v) then s
          else (case elem_at (computeDisplayedProducts (fv_runs v)) index of
                  None \<Rightarrow> s | Some p \<Rightarrow> handleTriageSelect True td (browser_name p) nm s)
      | HoverSubtest status \<Rightarrow> handleHover td (canAmendSubtest status (fv_isTriageMode v)) s
      | _ \<Rightarrow> s)"

section \<open>Rendering does not throw\<close>

lemma color_defined: "colorClass st \<noteq> None"
  by (simp add: colorClass_def passRateClass_def getColor_rank)

lemma totals_color_defined: "totalsColorClass a b \<noteq> None"
  by (simp add: totalsColorClass_def passRateClass_def getColor_rank)

lemma subtest_icon_defined: "index < length (fv_runs v) \<Longrightarrow> subtest_icon v index nm st \<noteq> None"
  by (auto simp: subtest_icon_def shouldDisplaySubtestMetadata_def getMetadataUrlForSubtest_def elem_at_def
    computeDisplayedProducts_def dom_if_def Let_def split: option.split)

lemma compare_link_defined: "compare_link origin r \<noteq> None"
  by (auto simp: compare_link_def analyzer_href_def computeAnalyzerURL_def dom_if_def)

lemma result_td_shape:
  assumes "index < length (fv_runs v)"
  shows "\<exists>c hs. result_td origin v nm index r =
    Some (Elem ''td'' [(''class'', c)]
      [(''click'', SelectSubtest index nm (result_status r)), (''mouseover'', HoverSubtest (result_status r))]
      (code_text (subtestMessage r (fv_verbose v)) # hs))"
proof -
  obtain c where "colorClass (result_status r) = Some c" using color_defined by blast
  moreover obtain a where "subtest_icon v index nm (result_status r) = Some a"
    using subtest_icon_defined [OF assms] by blast
  moreover obtain b where "compare_link origin r = Some b" using compare_link_defined by blast
  ultimately show ?thesis by (simp add: result_td_def elem_def)
qed

lemma difference_td_shape:
  "2 \<le> length (tr_results row) \<Longrightarrow> \<exists>c hs. difference_td row = Some (Elem ''td'' [(''class'', c)] [] hs)"
  by (auto simp: difference_td_def diffDisplay_def numeral_2_eq_2 split: list.split)

text \<open>The cells of a row: its name, one for each run, and one for the difference.\<close>

lemma subtest_tr_cells:
  assumes "length (tr_results row) = length (fv_runs v)" and "fv_diffRun v \<longrightarrow> 2 \<le> length (fv_runs v)"
  shows "\<exists>h. subtest_tr origin v row = Some h \<and>
    length (row_cells h) = 1 + length (fv_runs v) + (if fv_diffRun v then 1 else 0) \<and>
    html_text (row_cells h ! 0) = tr_name row \<and>
    (\<forall>i < length (fv_runs v).
       html_text (html_children (row_cells h ! (i + 1)) ! 0) = subtestMessage (tr_results row ! i) (fv_verbose v) \<and>
       html_handler ''click'' (row_cells h ! (i + 1)) =
         Some (SelectSubtest i (tr_name row) (result_status (tr_results row ! i))))"
proof -
  let ?f = "result_td origin v (tr_name row)"
  have "dom_repeat ?f (tr_results row) \<noteq> None"
    by (rule dom_repeat_defined) (use result_td_shape assms(1) in fastforce)
  then obtain cs where cs: "dom_repeat ?f (tr_results row) = Some cs" by blast
  have cell: "\<exists>c hs. cs ! i = Elem ''td'' [(''class'', c)]
      [(''click'', SelectSubtest i (tr_name row) (result_status (tr_results row ! i))),
       (''mouseover'', HoverSubtest (result_status (tr_results row ! i)))]
      (code_text (subtestMessage (tr_results row ! i) (fv_verbose v)) # hs)" if "i < length (fv_runs v)" for i
    using result_td_shape [OF that, of origin "tr_name row" "tr_results row ! i"] dom_repeat_nth [OF cs, of i] that assms(1)
    by auto
  have len: "length cs = length (fv_runs v)" using dom_repeat_length [OF cs] assms(1) by simp
  obtain ds where ds: "dom_if (fv_diffRun v) (just (difference_td row)) = Some ds"
    "length ds = (if fv_diffRun v then 1 else 0)" "list_all (\<lambda>h. html_tag h = ''td'') ds"
    using difference_td_shape [of row] assms by (cases "fv_diffRun v") auto
  let ?hs = "name_cell [Txt (tr_name row)] # cs @ ds"
  have row: "subtest_tr origin v row = Some (Elem ''tr'' [] [] ?hs)"
    by (simp add: subtest_tr_def cs ds(1) elem_def)
  have "html_tag (cs ! i) = ''td''" if "i < length (fv_runs v)" for i using cell [OF that] by auto
  then have "list_all (\<lambda>h. html_tag h \<in> {''td'', ''th''}) ?hs"
    using len ds(3) by (auto simp: list_all_iff in_set_conv_nth name_cell_def)
  then have cells: "row_cells (Elem ''tr'' [] [] ?hs) = ?hs" by (rule cells_all)
  have "html_text (html_children (cs ! i) ! 0) = subtestMessage (tr_results row ! i) (fv_verbose v) \<and>
      html_handler ''click'' (cs ! i) = Some (SelectSubtest i (tr_name row) (result_status (tr_results row ! i)))"
    if "i < length (fv_runs v)" for i
    using cell [OF that] by (auto simp: code_text_def)
  with row cells len ds(2) show ?thesis by (simp add: nth_append name_cell_def)
qed

lemma tally_row_defined: "length rs = length cs \<Longrightarrow> tally_row rs cs \<noteq> None"
  by (induction rs cs rule: tally_row.induct) auto

lemma tally_rows_defined: "\<forall>r \<in> set rows. length (tr_results r) = length cs \<Longrightarrow> tally_rows rows cs \<noteq> None"
proof (induction rows arbitrary: cs)
  case (Cons r rows)
  then obtain cs' where "tally_row (tr_results r) cs = Some cs'" using tally_row_defined [of "tr_results r" cs] by auto
  with Cons tally_row_bounds [OF this] show ?case by simp
qed simp

lemma subtest_totals_cells:
  assumes "\<forall>r \<in> set rows. length (tr_results r) = n"
  shows "\<exists>hs. subtest_totals rows = Some hs \<and> (\<forall>h \<in> set hs. length (row_cells h) = 1 + n)"
proof (cases "length rows \<le> 2")
  case True
  then show ?thesis by (simp add: subtest_totals_def computeTotals_def shouldShowTotals_def)
next
  case False
  then have hd: "length (tr_results (hd rows)) = n" using assms by (cases rows) auto
  have "tally_rows (drop 2 rows) (replicate n (0, 0)) \<noteq> None"
    by (rule tally_rows_defined) (use assms in \<open>auto dest: in_set_dropD\<close>)
  then obtain ts where ts: "tally_rows (drop 2 rows) (replicate n (0, 0)) = Some ts" by blast
  then have len: "length ts = n" using tally_rows_bounds by force
  let ?f = "\<lambda>i t. map_option
    (\<lambda>c. Elem ''td'' [(''class'', c)] [] [code_text (show_nat (fst t) @ ''/'' @ show_nat (snd t))])
    (totalsColorClass (fst t) (snd t)) :: file_html option"
  have "dom_repeat ?f ts \<noteq> None" by (rule dom_repeat_defined) (simp add: totals_color_defined)
  then obtain cs where cs: "dom_repeat ?f ts = Some cs" by blast
  have "html_tag h = ''td''" if "h \<in> set cs" for h using dom_repeat_in [OF cs that] by auto
  then have "row_cells (Elem ''tr'' [(''class'', ''totals-row'')] []
      (name_cell [Elem ''strong'' [] [] [Txt ''Subtest Total'']] # cs)) =
      name_cell [Elem ''strong'' [] [] [Txt ''Subtest Total'']] # cs"
    by (intro cells_all) (auto simp: list_all_iff name_cell_def)
  with False hd ts cs len dom_repeat_length [OF cs] show ?thesis
    by (simp add: subtest_totals_def computeTotals_def dom_if_def elem_def)
qed

lemma screenshot_tr_cells:
  assumes "\<forall>r \<in> set rows. length (tr_results r) = n"
  shows "\<exists>hs. screenshot_tr origin v rows = Some hs \<and> (\<forall>h \<in> set hs. length (row_cells h) = 1 + n)"
proof (cases "fv_verbose v \<and> rows \<noteq> [] \<and> anyScreenshots (rows ! 0)")
  case True
  have width: "length (tr_results (rows ! 0)) = n" using assms True by auto
  let ?f = "\<lambda>i r. screenshot_td origin (fv_path v) r"
  have td: "\<exists>hs. screenshot_td origin (fv_path v) r = Some (Elem ''td'' [] [] hs)" for r
    by (auto simp: screenshot_td_def testScreenshot_def analyzer_href_def computeAnalyzerURL_def elem_def split: option.split)
  have "dom_repeat ?f (tr_results (rows ! 0)) \<noteq> None" by (rule dom_repeat_defined) (use td in auto)
  then obtain cs where cs: "dom_repeat ?f (tr_results (rows ! 0)) = Some cs" by blast
  have "html_tag h = ''td''" if "h \<in> set cs" for h using dom_repeat_in [OF cs that] td by (metis html_tag.simps(1) option.inject)
  then have "row_cells (Elem ''tr'' [] [] (name_cell [Txt ''Screenshot''] # cs)) = name_cell [Txt ''Screenshot''] # cs"
    by (intro cells_all) (auto simp: list_all_iff name_cell_def)
  with True cs width dom_repeat_length [OF cs] show ?thesis
    by (simp add: screenshot_tr_def computeFirstRow_def dom_if_def elem_def)
next
  case False
  then show ?thesis by (auto simp: screenshot_tr_def computeFirstRow_def dom_if_def)
qed

section \<open>The rows that are shown\<close>

lemma filter_throw_total:
  "\<forall>x \<in> set xs. f x \<noteq> None \<Longrightarrow> filter_throw f xs = Some (filter (\<lambda>x. the (f x)) xs)"
  by (induction xs) auto

definition subtest_row :: "run_file option list \<Rightarrow> string \<Rightarrow> table_row" where
  "subtest_row files nm = \<lparr>tr_name = nm, tr_results = map (subtest_cell nm) files\<rparr>"

lemma filtered_rows: "\<exists>ns'. filter P (map (subtest_row files) ns) = map (subtest_row files) ns'"
  by (rule exI [of _ "filter (P \<circ> subtest_row files) ns"]) (simp add: filter_map)

lemma file_rows:
  assumes "fv_path v \<noteq> []" and "fv_resultsTable v = fv_resultsTable (load_file_data files found v)"
    and "fv_onlyShowDifferences v \<longrightarrow> 2 \<le> length files"
  shows "\<exists>rs ns. fv_rows v = Some (rs @ map (subtest_row files) ns) \<and> length rs \<le> 2 \<and>
    (\<forall>r \<in> set rs. length (tr_results r) = length files)"
proof -
  obtain r0 r1 names where ft: "file_table (fv_path v) files = r0 # r1 # map (subtest_row files) names"
    and len: "length (tr_results r0) = length files" "length (tr_results r1) = length files"
    by (auto simp: file_table_rows resultsTableHeaders_def subtest_row_def [abs_def])
  have sub: "\<exists>ns. fv_resultsTable v = Some (r0 # r1 # map (subtest_row files) ns)"
    using assms(1,2) filtered_rows
    by (auto simp: load_file_data_def filterResultsTableBySearch_def fetchTestFile_def truthy_def ft numeral_2_eq_2
      split: option.splits)
  then obtain ns where ns: "fv_resultsTable v = Some (r0 # r1 # map (subtest_row files) ns)" by blast
  show ?thesis
  proof (cases "fv_onlyShowDifferences v")
    case False
    then show ?thesis
      using ns len by (intro exI [of _ "[r0, r1]"] exI [of _ ns]) (simp add: fv_rows_def computeRows_def)
  next
    case True
    let ?f = "\<lambda>r. case (status_at r 0, status_at r 1) of (Some a, Some b) \<Rightarrow> Some (a \<noteq> b) | _ \<Rightarrow> None"
    have "\<forall>r \<in> set (r1 # map (subtest_row files) ns). ?f r \<noteq> None"
      using True assms(3) len by (auto simp: status_at_def elem_at_def subtest_row_def)
    note flt = filter_throw_total [OF this]
    obtain ns' where "filter (\<lambda>r. the (?f r)) (map (subtest_row files) ns) = map (subtest_row files) ns'"
      using filtered_rows by blast
    with True ns flt have "fv_rows v = Some ((if the (?f r1) then [r0, r1] else [r0]) @ map (subtest_row files) ns')"
      by (simp add: fv_rows_def computeRows_def)
    then show ?thesis using len by (intro exI [of _ "if the (?f r1) then [r0, r1] else [r0]"] exI [of _ ns']) auto
  qed
qed

section \<open>The rendered table of the subtests\<close>

lemma file_head_cells:
  "\<exists>h. file_head v = Some h \<and> length (row_cells h) = 1 + length (fv_runs v) + (if fv_diffRun v then 1 else 0) \<and>
     (\<forall>i < length (fv_runs v). html_children (row_cells h ! (i + 1)) = [Comp (FileRunHead (fv_runs v ! i))])"
proof -
  let ?th = "\<lambda>r. Elem ''th'' [] [] [Comp (FileRunHead r)] :: file_html"
  let ?d = "if fv_diffRun v then [Elem ''th'' [] []
      [Comp (FileRunHead diff_run),
       Elem ''paper-icon-button'' [(''icon'', ''filter-list''), (''title'', ''Toggle filtering to only show differences'')]
         [(''click'', FileFilter)] []]] else [] :: file_html list"
  let ?hs = "Elem ''th'' [] [] [Txt ''Subtest''] # map ?th (fv_runs v) @ ?d"
  have "file_head v = Some (Elem ''tr'' [] [] ?hs)" by (simp add: file_head_def elem_def dom_repeat_each)
  moreover have "row_cells (Elem ''tr'' [] [] ?hs) = ?hs" by (rule cells_all) (auto simp: list_all_iff)
  ultimately show ?thesis by (simp add: nth_append)
qed

lemma subtests_rendered_parts:
  assumes "fv_path v \<noteq> []" and "fv_resultsTable v = fv_resultsTable (load_file_data files found v)"
    and len: "length files = length (fv_runs v)"
    and two: "fv_diffRun v \<or> fv_onlyShowDifferences v \<longrightarrow> 2 \<le> length files"
  shows "\<exists>t rows head body rest. file_results_table origin v = Some t \<and> table_rows t = head # body @ rest \<and>
    fv_rows v = Some rows \<and> map (\<lambda>r. html_text (row_cells r ! 0)) body = map tr_name rows \<and>
    length (row_cells head) = 1 + length files + (if fv_diffRun v then 1 else 0) \<and>
    (\<forall>r \<in> set rest. length (row_cells r) = 1 + length files) \<and>
    (\<forall>j < length body. length (row_cells (body ! j)) = length (row_cells head)) \<and>
    (\<forall>i < length files.
       html_children (row_cells head ! (i + 1)) = [Comp (FileRunHead (fv_runs v ! i))] \<and>
       (\<forall>j < length body. 2 \<le> j \<longrightarrow>
         (let nm = tr_name (rows ! j); cell = row_cells (body ! j) ! (i + 1)
          in html_text (html_children cell ! 0) = subtestMessage (subtest_cell nm (files ! i)) (fv_verbose v) \<and>
             html_handler ''click'' cell = Some (SelectSubtest i nm (result_status (subtest_cell nm (files ! i)))))))"
proof -
  let ?n = "length files"
  obtain rs ns where rows: "fv_rows v = Some (rs @ map (subtest_row files) ns)" and rs: "length rs \<le> 2"
    "\<forall>r \<in> set rs. length (tr_results r) = ?n"
    using file_rows [OF assms(1,2)] two by blast
  let ?rows = "rs @ map (subtest_row files) ns"
  have width: "\<forall>r \<in> set ?rows. length (tr_results r) = ?n" using rs by (auto simp: subtest_row_def)
  have row: "\<exists>h. subtest_tr origin v (?rows ! j) = Some h \<and>
      length (row_cells h) = 1 + ?n + (if fv_diffRun v then 1 else 0) \<and> html_text (row_cells h ! 0) = tr_name (?rows ! j) \<and>
      (\<forall>i < ?n. html_text (html_children (row_cells h ! (i + 1)) ! 0) = subtestMessage (tr_results (?rows ! j) ! i) (fv_verbose v) \<and>
         html_handler ''click'' (row_cells h ! (i + 1)) =
           Some (SelectSubtest i (tr_name (?rows ! j)) (result_status (tr_results (?rows ! j) ! i))))"
    if "j < length ?rows" for j
    using subtest_tr_cells [of "?rows ! j" v origin] width nth_mem [OF that] len two by simp
  have "dom_repeat (\<lambda>j. subtest_tr origin v) ?rows \<noteq> None" by (rule dom_repeat_defined) (use row in blast)
  then obtain body where body: "dom_repeat (\<lambda>j. subtest_tr origin v) ?rows = Some body" by blast
  note nth = dom_repeat_nth [OF body] and blen = dom_repeat_length [OF body]
  obtain head where head: "file_head v = Some head" "length (row_cells head) = 1 + ?n + (if fv_diffRun v then 1 else 0)"
    "\<forall>i < ?n. html_children (row_cells head ! (i + 1)) = [Comp (FileRunHead (fv_runs v ! i))]"
    using file_head_cells [of v] len by auto
  obtain tot where tot: "subtest_totals ?rows = Some tot" "\<forall>h \<in> set tot. length (row_cells h) = 1 + ?n"
    using subtest_totals_cells [OF width] by blast
  obtain shots where shots: "screenshot_tr origin v ?rows = Some shots" "\<forall>h \<in> set shots. length (row_cells h) = 1 + ?n"
    using screenshot_tr_cells [OF width] by blast
  let ?t = "Elem ''table'' (flag_attr ''terse'' (\<not> fv_verbose v) @ flag_attr ''verbose'' (fv_verbose v)) []
      [Elem ''thead'' [] [] [head], Elem ''tbody'' [] [] (body @ tot @ shots)] :: file_html"
  have t: "file_results_table origin v = Some ?t"
    by (simp add: file_results_table_def rows head(1) body tot(1) shots(1) elem_def)
  have tr: "table_rows ?t = head # body @ (tot @ shots)" by (simp add: table_rows_def)
  have names: "map (\<lambda>r. html_text (row_cells r ! 0)) body = map tr_name ?rows"
  proof (rule nth_equalityI)
    fix j assume "j < length (map (\<lambda>r. html_text (row_cells r ! 0)) body)"
    then have j: "j < length ?rows" using blen by simp
    have "html_text (row_cells (body ! j) ! 0) = tr_name (?rows ! j)" using row [OF j] nth [OF j] by auto
    moreover have "j < length body" using j blen by simp
    ultimately show "map (\<lambda>r. html_text (row_cells r ! 0)) body ! j = map tr_name ?rows ! j"
      using nth_map [OF j, of tr_name] by simp
  qed (simp add: blen)
  have cells: "length (row_cells (body ! j)) = length (row_cells head)" if "j < length body" for j
    using row [of j] nth [of j] that blen head(2) by auto
  have subtests: "?rows ! j = subtest_row files (tr_name (?rows ! j))" if "j < length body" "2 \<le> j" for j
    using that rs(1) blen by (auto simp: nth_append subtest_row_def)
  have cell: "let nm = tr_name (?rows ! j); cell = row_cells (body ! j) ! (i + 1)
      in html_text (html_children cell ! 0) = subtestMessage (subtest_cell nm (files ! i)) (fv_verbose v) \<and>
         html_handler ''click'' cell = Some (SelectSubtest i nm (result_status (subtest_cell nm (files ! i))))"
    if "i < ?n" "j < length body" "2 \<le> j" for i j
  proof -
    have "tr_results (?rows ! j) ! i = subtest_cell (tr_name (?rows ! j)) (files ! i)"
      using subtests [OF that(2,3)] that(1) by (metis nth_map subtest_row_def table_row.select_convs(2))
    then show ?thesis using row [of j] nth [of j] that blen by (auto simp: Let_def)
  qed
  have rest: "\<forall>r \<in> set (tot @ shots). length (row_cells r) = 1 + ?n" using tot(2) shots(2) by auto
  have all_cells: "\<forall>j < length body. length (row_cells (body ! j)) = length (row_cells head)" using cells by blast
  have columns: "\<forall>i < ?n. html_children (row_cells head ! (i + 1)) = [Comp (FileRunHead (fv_runs v ! i))] \<and>
      (\<forall>j < length body. 2 \<le> j \<longrightarrow>
        (let nm = tr_name (?rows ! j); cell = row_cells (body ! j) ! (i + 1)
         in html_text (html_children cell ! 0) = subtestMessage (subtest_cell nm (files ! i)) (fv_verbose v) \<and>
            html_handler ''click'' cell = Some (SelectSubtest i nm (result_status (subtest_cell nm (files ! i))))))"
    using head(3) cell by blast
  show ?thesis
    by (intro exI conjI, rule t, rule tr, rule rows, rule names, rule head(2), rule rest, rule all_cells, rule columns)
qed

text \<open>A click on the cell of a subtest that can be amended.\<close>

lemma subtest_click:
  assumes "index < length (fv_runs v)" and "canAmendSubtest st (fv_isTriageMode v)"
  shows "is_selected (click_subtest v td (SelectSubtest index nm st) s) sub product =
    (if sub = nm \<and> product = browser_name (fv_runs v ! index)
     then \<not> is_selected s sub product else is_selected s sub product)"
  using assms
  by (simp add: click_subtest_def elem_at_def computeDisplayedProducts_def productFromRun_def select_toggles)

text \<open>
  Only differences. Where both runs took the same time, the row of the durations is taken out, too;
  but the totals and the banner still skip two rows, and leave out the first subtest.
\<close>

definition same_time_view :: file_view where
  "same_time_view = toggle_file_diff (load_file_data
     [sample_file [(''x'', ''PASS''), (''y'', ''PASS''), (''z'', ''FAIL'')],
      sample_file [(''x'', ''FAIL''), (''y'', ''FAIL''), (''z'', ''PASS'')]] None
     (new_file_view ''/a.html'' [some_run, some_run] True))"

lemma same_time_uncounted:
  "map_option (map tr_name) (fv_rows same_time_view) = Some [''Harness status'', ''x'', ''y'', ''z'']"
  "Option.bind (fv_rows same_time_view) computeTotals = Some [(1, 2), (1, 2)]"
  "map_option snd (computeRows (fv_resultsTable same_time_view) True) = Some 0"
  by code_simp+

text \<open>
  Answers are shown whatever was asked for since: with the files of more runs than the element has
  by then, looking for metadata throws.
\<close>

lemma stale_files:
  "fv_metadataMap v = Some m \<Longrightarrow> fv_isTriageMode v \<Longrightarrow> nm \<noteq> ''Duration'' \<Longrightarrow> length (fv_runs v) \<le> index \<Longrightarrow>
   result_td origin v nm index r = None"
  by (auto simp: result_td_def subtest_icon_def shouldDisplaySubtestMetadata_def getMetadataUrlForSubtest_def
    computeDisplayedProducts_def elem_at_def Let_def elem_def split: option.split)

section \<open>Properties\<close>


definition two_runs_view :: file_view where
  "two_runs_view = load_file_data [sample_file [(''x'', ''PASS''), (''y'', ''FAIL'')], sample_file [(''x'', ''FAIL'')]] None
     (new_file_view ''/a.html'' [some_run, some_run] True)"


end
