(* ===== verification/CompatPage.thy ===== *)
theory CompatPage
  imports Compat2021 JsHtml
begin

text \<open>
  The life of the page of \<^verbatim>\<open>webapp/components/compat-2021.js\<close>, and its templates: the page, the summary with its requests, and
  the chart with its dialogs. Each change of the release asks for the numbers of the summary anew; the answers
  arrive in any order. The tables of the chart are loaded once.
\<close>

section \<open>State\<close>

text \<open>The chart is the feature and the release it was last drawn for.\<close>

record compat_view =
  cv_page :: compat_page
  cv_titles :: "string list"
  cv_numbers :: "shown_number option list"
  cv_requests :: "(nat \<times> bool) list"
  cv_next :: nat
  cv_loaded :: bool
  cv_chart :: "(string \<times> bool) option"
  cv_dialog :: "changelog option"
  cv_opened :: "string list"

definition updateSummaryTitles :: "bool \<Rightarrow> compat_view \<Rightarrow> compat_view" where
  "updateSummaryTitles isStable v = v\<lparr>cv_titles := summary_titles isStable\<rparr>"

text \<open>The observer of the release in the summary: the titles at once, and a request for the numbers.\<close>

definition summary_stableChanged :: "bool \<Rightarrow> compat_view \<Rightarrow> compat_view" where
  "summary_stableChanged isStable v =
     (updateSummaryTitles isStable v)\<lparr>cv_requests := (cv_next v, isStable) # cv_requests v, cv_next := cv_next v + 1\<rparr>"

definition compat_draw :: "compat_view \<Rightarrow> compat_view" where
  "compat_draw v =
     (if cv_loaded v \<and> truthy (cp_feature (cv_page v))
      then v\<lparr>cv_chart := Some (the (cp_feature (cv_page v)), cp_stable (cv_page v))\<rparr> else v)"

text \<open>A page that has changed: what follows in the summary, and in the chart.\<close>

definition put_compat_page :: "compat_page \<Rightarrow> compat_view \<Rightarrow> compat_view" where
  "put_compat_page p v =
     (let before = cv_page v;
          v = v\<lparr>cv_page := p\<rparr>;
          v = (if cp_stable p = cp_stable before then v else summary_stableChanged (cp_stable p) v)
      in if cp_stable p = cp_stable before \<and> cp_feature p = cp_feature before then v else compat_draw v)"

text \<open>The numbers of a request are set, one after another; a request that fails leaves them.\<close>

definition summary_answered ::
  "search_params \<Rightarrow> nat \<Rightarrow> (string \<Rightarrow> string option) \<Rightarrow> compat_view \<Rightarrow> compat_view" where
  "summary_answered params k fetch v =
     (case map_of (cv_requests v) k of
        None \<Rightarrow> v
      | Some isStable \<Rightarrow>
          (let v = v\<lparr>cv_requests := filter (\<lambda>kr. fst kr \<noteq> k) (cv_requests v)\<rparr>
           in case compat_updateSummaryScores fetch params isStable of
                None \<Rightarrow> v
              | Some ns \<Rightarrow> v\<lparr>cv_numbers := map Some ns @ drop (length ns) (cv_numbers v)\<rparr>))"

definition chart_loaded :: "compat_view \<Rightarrow> compat_view" where
  "chart_loaded v = compat_draw (v\<lparr>cv_loaded := True\<rparr>)"

text \<open>
  The action of a point of the chart that is drawn: a dialog, or a window. The release is the one it was drawn for.
\<close>

definition changelog_action :: "string list list \<Rightarrow> nat \<Rightarrow> nat \<Rightarrow> compat_view \<Rightarrow> compat_view" where
  "changelog_action versions row column v =
     (case cv_chart v of
        None \<Rightarrow> v
      | Some (feature, isStable) \<Rightarrow>
          (case revisionChangelog isStable versions row column of
             None \<Rightarrow> v
           | Some (OpenWindow url) \<Rightarrow> v\<lparr>cv_opened := cv_opened v @ [url]\<rparr>
           | Some dialog \<Rightarrow> v\<lparr>cv_dialog := Some dialog\<rparr>))"

definition nightly_go :: "string \<Rightarrow> string \<Rightarrow> compat_view \<Rightarrow> compat_view" where
  "nightly_go fromSha toSha v =
     v\<lparr>cv_opened := cv_opened v @ [clickFirefoxNightlyDialogGoButton fromSha toSha], cv_dialog := None\<rparr>"

section \<open>Events\<close>

datatype compat_click = ClickExperimental | ClickStable | SelectFeature string | NightlyGo string string | DialogDismiss

datatype compat_event =
  CompatClick compat_click | SummaryAnswer nat "string \<Rightarrow> string option" | ChartLoaded | ChartPoint "string list list" nat nat

fun compat_handle :: "string \<Rightarrow> search_params \<Rightarrow> compat_event \<Rightarrow> compat_view \<Rightarrow> compat_view" where
  "compat_handle pathname params (CompatClick ClickExperimental) v = put_compat_page (compat_clickExperimental pathname (cv_page v)) v"
| "compat_handle pathname params (CompatClick ClickStable) v = put_compat_page (compat_clickStable pathname (cv_page v)) v"
| "compat_handle pathname params (CompatClick (SelectFeature f)) v = put_compat_page (set_feature pathname f (cv_page v)) v"
| "compat_handle pathname params (CompatClick (NightlyGo a b)) v = nightly_go a b v"
| "compat_handle pathname params (CompatClick DialogDismiss) v = v\<lparr>cv_dialog := None\<rparr>"
| "compat_handle pathname params (SummaryAnswer k fetch) v = summary_answered params k fetch v"
| "compat_handle pathname params ChartLoaded v = chart_loaded v"
| "compat_handle pathname params (ChartPoint versions row column) v = changelog_action versions row column v"

definition new_compat_view :: "string \<Rightarrow> search_params \<Rightarrow> compat_view" where
  "new_compat_view pathname params =
     summary_stableChanged (cp_stable (compat_ready pathname params))
       \<lparr>cv_page = compat_ready pathname params, cv_titles = ['''', '''', ''''], cv_numbers = [None, None, None], cv_requests = [],
        cv_next = 0, cv_loaded = False, cv_chart = None, cv_dialog = None, cv_opened = []\<rparr>"

section \<open>The templates\<close>

datatype compat_comp = CompatChart "string option" bool

type_synonym compat_html = "(compat_comp, compat_click) html"

definition tooltip_line :: "string \<times> string \<times> string \<Rightarrow> compat_html" where
  "tooltip_line l =
     Elem ''div'' [] []
       [Elem ''span'' [] [] [Txt (fst l)], Elem ''span'' [(''style'', ''color: '' @ snd (snd l))] [] [Txt (fst (snd l))]]"

text \<open>A number with its tooltip and its title; two hyphens until it is set.\<close>

definition compat_item :: "string \<Rightarrow> shown_number option \<Rightarrow> compat_html" where
  "compat_item title shown =
     Elem ''div'' [(''class'', ''summary-flex-item''), (''tabindex'', ''0'')] []
       [Elem ''span'' [(''class'', ''summary-tooltip'')] []
          (case shown of None \<Rightarrow> [] | Some x \<Rightarrow> map tooltip_line (sn_tooltip x)),
        Elem ''div'' ((''class'', ''summary-number'') # (case shown of None \<Rightarrow> [] | Some x \<Rightarrow> [(''style'', ''color: '' @ sn_color x)])) []
          [Txt (case shown of None \<Rightarrow> ''--'' | Some x \<Rightarrow> sn_text x)],
        Elem ''div'' [(''class'', ''summary-browser-name'')] [] [Txt title]]"

definition compat_summary_html :: "compat_view \<Rightarrow> compat_html" where
  "compat_summary_html v =
     Elem ''div'' [(''id'', ''summaryContainer'')] [] (map2 compat_item (cv_titles v) (cv_numbers v))"

definition config_html :: "compat_page \<Rightarrow> compat_html" where
  "config_html p =
     Elem ''fieldset'' [] []
       [Elem ''legend'' [] [] [Txt ''Configuration:''],
        Elem ''div'' [(''class'', ''channel-area'')] []
          [Elem ''span'' [(''class'', ''channel-label'')] [] [Txt ''Browser Type:''],
           Elem ''paper-button'' [(''class'', compat_experimentalButtonClass (cp_stable p))] [(''click'', ClickExperimental)] [Txt ''Experimental''],
           Elem ''paper-button'' [(''class'', compat_stableButtonClass (cp_stable p))] [(''click'', ClickStable)] [Txt ''Stable'']],
        Elem ''div'' [(''class'', ''focus-area'')] []
          [Elem ''label'' [(''for'', ''featureSelect'')] [] [Txt ''Focus area:''],
           Elem ''select'' [(''id'', ''featureSelect'')] []
             (map (\<lambda>f. Elem ''option'' [(''value'', f)] [(''change'', SelectFeature f)]
                [Txt (if f = SUMMARY_FEATURE_NAME then ''Summary'' else f)])
               (SUMMARY_FEATURE_NAME # [''aspect-ratio'', ''css-flexbox'', ''css-grid'', ''css-transforms'', ''position-sticky'']))]]"

definition test_list_html :: "compat_page \<Rightarrow> compat_html" where
  "test_list_html p =
     (let feature = (case cp_feature p of None \<Rightarrow> ''undefined'' | Some f \<Rightarrow> f)
      in Elem ''div'' [(''id'', ''testListText''), (''style'', ''visibility: '' @ getTestListTextVisibility feature)] []
           [Txt ''The score for this component is determined by pass rate on '',
            Elem ''a'' [(''href'', getTestListHref feature), (''target'', ''_blank'')] [] [Txt ''this set of tests''],
            Txt ''. The test suite is never complete, and improvements are always welcome. Please contribute changes to '',
            Elem ''a'' [(''href'', ''https://github.com/web-platform-tests/wpt''), (''target'', ''_blank'')] [] [Txt ''WPT''],
            Txt '' and then '',
            Elem ''a'' [(''href'', ''https://github.com/web-platform-tests/wpt.fyi/issues/new?title=[compat2021]%20Add%20new%20tests%20to%20dashboard&body=''),
                (''target'', ''_blank'')] [] [Txt ''file an issue''],
            Txt '' to add them to the Compat 2021 effort!''])"

definition compat_page_html :: "compat_view \<Rightarrow> compat_html list" where
  "compat_page_html v =
     [Elem ''h1'' [] [] [Txt ''Compat 2021 Dashboard''], compat_summary_html v,
      Elem ''p'' [] [] [Txt ''These scores represent how well browser engines are doing on the 2021 Compat Focus Areas, as measured by wpt.fyi test results. Each feature contributes up to 20 points to the score, based on passing-test percentage, giving a maximum possible score of 100 for each browser.''],
      Elem ''p'' [] []
        [Txt ''The set of tests used is derived from the full wpt.fyi test suite for each feature, filtered by believed importance to web developers. The results shown here are from '',
         Txt (if cp_stable (cv_page v) then ''released stable builds.'' else ''developer preview builds with experimental features enabled.'')],
      config_html (cv_page v), Comp (CompatChart (cp_feature (cv_page v)) (cp_stable (cv_page v))), test_list_html (cv_page v)]"

text \<open>The dialogs of the chart; the texts in the fields of the first are those of the click.\<close>

definition nightly_dialog :: "string \<Rightarrow> string \<Rightarrow> compat_view \<Rightarrow> compat_html" where
  "nightly_dialog fromSha toSha v =
     Elem ''paper-dialog'' ((''id'', ''firefoxNightlyDialog'') # flag_attr ''opened'' (cv_dialog v = Some NightlyDialog)) []
       [Elem ''h2'' [] [] [Txt ''Firefox Nightly Changelogs''],
        Elem ''div'' [] []
          [Txt ''Nightly builds of Firefox are all given the same sub-version, '', Elem ''code'' [] [] [Txt ''0a1''],
           Txt '', so we cannot automatically determine the changelog. To find the changelog of a specific Nightly release, locate the corresponding revision on the '',
           Elem ''a'' [(''href'', ''https://hg.mozilla.org/mozilla-central/firefoxreleases''), (''target'', ''_blank'')] [] [Txt ''release page''],
           Txt '', enter them below, and click Go.'',
           Elem ''paper-input'' [(''id'', ''firefoxNightlyDialogFrom''), (''label'', ''From revision''), (''value'', fromSha)] [] [],
           Elem ''paper-input'' [(''id'', ''firefoxNightlyDialogTo''), (''label'', ''To revision''), (''value'', toSha)] [] []],
        Elem ''div'' [(''class'', ''buttons'')] []
          [Elem ''paper-button'' [] [(''click'', DialogDismiss)] [Txt ''Cancel''],
           Elem ''paper-button'' [] [(''click'', NightlyGo fromSha toSha)] [Txt ''Go'']]]"

definition safari_dialog :: "compat_view \<Rightarrow> compat_html" where
  "safari_dialog v =
     Elem ''paper-dialog'' ((''id'', ''safariDialog'') # flag_attr ''opened'' (cv_dialog v = Some SafariDialog)) []
       [Elem ''h2'' [] [] [Txt ''Safari Changelogs''],
        Elem ''div'' [] []
          (if cp_stable (cv_page v)
           then [Txt ''Stable releases of Safari do not publish changelogs, but some insight may be gained from the '',
                 Elem ''a'' [(''href'', ''https://developer.apple.com/documentation/safari-release-notes''), (''target'', ''_blank'')] [] [Txt ''Release Notes'']]
           else [Txt ''For Safari Technology Preview releases, release notes can be found on the '',
                 Elem ''a'' [(''href'', ''https://webkit.org/blog/''), (''target'', ''_blank'')] [] [Txt ''WebKit Blog''],
                 Txt ''. Each post usually contains a revision changelog link.'']),
        Elem ''div'' [(''class'', ''buttons'')] [] [Elem ''paper-button'' [] [(''click'', DialogDismiss)] [Txt ''Dismiss'']]]"

section \<open>What a session shows\<close>

text \<open>The page, its titles and its chart agree; the newest request is for the release of the page.\<close>

definition view_follows :: "compat_view \<Rightarrow> bool" where
  "view_follows v \<longleftrightarrow>
     cv_titles v = summary_titles (cp_stable (cv_page v)) \<and>
     (cv_loaded v \<and> truthy (cp_feature (cv_page v)) \<longrightarrow>
        cv_chart v = Some (the (cp_feature (cv_page v)), cp_stable (cv_page v)))"

definition requests_ok :: "compat_view \<Rightarrow> bool" where
  "requests_ok v \<longleftrightarrow>
     distinct (map fst (cv_requests v)) \<and> (\<forall>kr \<in> set (cv_requests v). fst kr < cv_next v) \<and>
     (cv_requests v \<noteq> [] \<longrightarrow> snd (hd (cv_requests v)) = cp_stable (cv_page v))"

definition numbers_of :: "search_params \<Rightarrow> bool \<Rightarrow> compat_view \<Rightarrow> bool" where
  "numbers_of params isStable v \<longleftrightarrow>
     (\<exists>fetch ns. compat_updateSummaryScores fetch params isStable = Some ns \<and> cv_numbers v = map Some ns)"

text \<open>Sessions in which every answer is to the oldest request that is pending, and brings the numbers.\<close>

fun orderly :: "search_params \<Rightarrow> compat_event \<Rightarrow> compat_view \<Rightarrow> bool" where
  "orderly params (SummaryAnswer k fetch) v \<longleftrightarrow>
     (cv_requests v \<noteq> [] \<longrightarrow>
        k = fst (last (cv_requests v)) \<and> compat_updateSummaryScores fetch params (snd (last (cv_requests v))) \<noteq> None)"
| "orderly params e v \<longleftrightarrow> True"

inductive compat_view_session :: "(compat_event \<Rightarrow> compat_view \<Rightarrow> bool) \<Rightarrow> string \<Rightarrow> search_params \<Rightarrow> compat_view \<Rightarrow> bool"
  for allowed pathname params where
  opened: "compat_view_session allowed pathname params (new_compat_view pathname params)"
| event: "compat_view_session allowed pathname params v \<Longrightarrow> allowed e v \<Longrightarrow>
    compat_view_session allowed pathname params (compat_handle pathname params e v)"

lemma draw_simps [simp]:
  "cv_page (compat_draw v) = cv_page v" "cv_titles (compat_draw v) = cv_titles v" "cv_loaded (compat_draw v) = cv_loaded v"
  "cv_requests (compat_draw v) = cv_requests v" "cv_next (compat_draw v) = cv_next v" "cv_numbers (compat_draw v) = cv_numbers v"
  by (simp_all add: compat_draw_def)

lemma put_follows: "view_follows v \<Longrightarrow> view_follows (put_compat_page p v)"
  by (auto simp: put_compat_page_def view_follows_def summary_stableChanged_def updateSummaryTitles_def compat_draw_def Let_def)

lemma put_requests: "requests_ok v \<Longrightarrow> requests_ok (put_compat_page p v)"
  by (auto simp: put_compat_page_def requests_ok_def summary_stableChanged_def updateSummaryTitles_def Let_def less_Suc_eq)

lemma put_numbers: "cv_numbers (put_compat_page p v) = cv_numbers v"
  by (simp add: put_compat_page_def summary_stableChanged_def updateSummaryTitles_def Let_def)

text \<open>What leaves the requests, the numbers and the release as they are.\<close>

definition same_summary :: "compat_view \<Rightarrow> compat_view \<Rightarrow> bool" where
  "same_summary v w \<longleftrightarrow> cv_requests w = cv_requests v \<and> cv_next w = cv_next v \<and> cv_numbers w = cv_numbers v \<and> cv_page w = cv_page v"

lemma chart_same: "same_summary v (chart_loaded v)"
  by (simp add: same_summary_def chart_loaded_def)

lemma action_same: "same_summary v (changelog_action versions row column v)"
  by (simp add: same_summary_def changelog_action_def split: option.split changelog.split prod.split)

lemma action_follows: "view_follows v \<Longrightarrow> view_follows (changelog_action versions row column v)"
  by (auto simp: view_follows_def changelog_action_def split: option.split changelog.split prod.split)

lemma nightly_same: "same_summary v (nightly_go a b v)"
  by (simp add: same_summary_def nightly_go_def)

lemma nightly_follows: "view_follows v \<Longrightarrow> view_follows (nightly_go a b v)"
  by (simp add: view_follows_def nightly_go_def)

lemma dismiss_follows: "view_follows v \<Longrightarrow> view_follows (v\<lparr>cv_dialog := None\<rparr>)"
  by (simp add: view_follows_def)

lemma answered_follows: "view_follows v \<Longrightarrow> view_follows (summary_answered params k fetch v)"
  by (simp add: view_follows_def summary_answered_def Let_def split: option.split)

lemma loaded_follows: "view_follows v \<Longrightarrow> view_follows (chart_loaded v)"
  by (auto simp: view_follows_def chart_loaded_def compat_draw_def)

lemma follows_handle: "view_follows v \<Longrightarrow> view_follows (compat_handle pathname params e v)"
  by (induction pathname params e v rule: compat_handle.induct)
    (simp_all add: put_follows nightly_follows dismiss_follows answered_follows loaded_follows action_follows)

lemma filter_last:
  "distinct (map fst xs) \<Longrightarrow> xs \<noteq> [] \<Longrightarrow> filter (\<lambda>kr. fst kr \<noteq> fst (last xs)) xs = butlast xs"
proof (induction xs rule: rev_induct)
  case (snoc x xs)
  then have "fst x \<notin> fst ` set xs" by simp
  then have "\<forall>kr \<in> set xs. fst kr \<noteq> fst x" by (metis imageI)
  then show ?case by simp
qed simp

lemma map_of_last: "distinct (map fst xs) \<Longrightarrow> xs \<noteq> [] \<Longrightarrow> map_of xs (fst (last xs)) = Some (snd (last xs))"
  by (metis last_in_set map_of_eq_Some_iff prod.collapse)

lemma requests_keep: "requests_ok v \<Longrightarrow> same_summary v w \<Longrightarrow> requests_ok w"
  by (simp add: requests_ok_def same_summary_def)

text \<open>The summary counts three numbers.\<close>

lemma add_line_length: "length vals = length scores \<Longrightarrow> length (add_line f vals scores) = length scores"
  by (simp add: add_line_def)

lemma summary_lines_length: "summary_lines ls scores = Some scores' \<Longrightarrow> length scores = 3 \<Longrightarrow> length scores' = 3"
  by (induction ls scores rule: summary_lines.induct) (auto simp: add_line_length split: list.splits)

lemma numbers_length: "compat_updateSummaryScores fetch params isStable = Some ns \<Longrightarrow> length ns = 3"
  by (auto simp: compat_updateSummaryScores_def calculateSummaryScores_def bind_eq_Some_conv split: if_splits
      dest!: summary_lines_length)

definition summary_ok :: "search_params \<Rightarrow> compat_view \<Rightarrow> bool" where
  "summary_ok params v \<longleftrightarrow>
     requests_ok v \<and> length (cv_numbers v) = 3 \<and> (cv_requests v = [] \<longrightarrow> numbers_of params (cp_stable (cv_page v)) v)"

lemma summary_keep: "summary_ok params v \<Longrightarrow> same_summary v w \<Longrightarrow> summary_ok params w"
  by (auto simp: summary_ok_def numbers_of_def same_summary_def intro: requests_keep [of v])

lemma answer_ok:
  assumes "summary_ok params v" and "orderly params (SummaryAnswer k fetch) v"
  shows "summary_ok params (summary_answered params k fetch v)"
proof (cases "cv_requests v = []")
  case True
  with assms(1) show ?thesis by (simp add: summary_answered_def)
next
  case False
  let ?rs = "cv_requests v"
  obtain ns where k: "k = fst (last ?rs)" and ns: "compat_updateSummaryScores fetch params (snd (last ?rs)) = Some ns"
    using assms(2) False by auto
  have ok: "requests_ok v" "length (cv_numbers v) = 3" using assms(1) by (simp_all add: summary_ok_def)
  then have d: "distinct (map fst ?rs)" by (simp add: requests_ok_def)
  have three: "length ns = 3" using numbers_length [OF ns] .
  have after: "summary_answered params k fetch v = v\<lparr>cv_requests := butlast ?rs, cv_numbers := map Some ns\<rparr>"
    using ns three ok(2) by (simp add: summary_answered_def k map_of_last [OF d False] filter_last [OF d False])
  have rest: "butlast ?rs \<noteq> [] \<Longrightarrow> hd (butlast ?rs) = hd ?rs" and one: "butlast ?rs = [] \<Longrightarrow> hd ?rs = last ?rs"
    using False by (cases ?rs; auto split: if_splits)+
  have "requests_ok (summary_answered params k fetch v)"
    using ok(1) rest False by (auto simp: after requests_ok_def map_butlast distinct_butlast dest: in_set_butlastD)
  moreover have "numbers_of params (cp_stable (cv_page v)) (summary_answered params k fetch v)" if "butlast ?rs = []"
    using ns ok(1) one [OF that] False by (auto simp: after numbers_of_def requests_ok_def)
  ultimately show ?thesis by (simp add: summary_ok_def after three)
qed

lemma put_ok:
  assumes "summary_ok params v"
  shows "summary_ok params (put_compat_page p v)"
proof -
  have "numbers_of params (cp_stable (cv_page v)) (put_compat_page p v) \<and> cp_stable (cv_page (put_compat_page p v)) = cp_stable (cv_page v)"
    if "cv_requests (put_compat_page p v) = []"
    using that assms
    by (auto simp: summary_ok_def numbers_of_def put_numbers put_compat_page_def summary_stableChanged_def updateSummaryTitles_def
        Let_def split: if_splits)
  then show ?thesis using assms by (auto simp: summary_ok_def put_requests put_numbers)
qed

lemma summary_handle:
  assumes "summary_ok params v" and "orderly params e v"
  shows "summary_ok params (compat_handle pathname params e v)"
proof (cases e)
  case (CompatClick c)
  then show ?thesis
    using assms(1) by (cases c) (auto simp: put_ok intro: summary_keep nightly_same, simp add: summary_keep same_summary_def)
next
  case (SummaryAnswer k fetch)
  then show ?thesis using answer_ok assms by simp
qed (use assms(1) in \<open>auto intro: summary_keep chart_same action_same\<close>)

text \<open>
  The summary of Compat 2021: in every session the titles and the chart are those of the release and the feature of the page;
  and when the requests are answered in the order they were made, the numbers without a pending request are the release's too.
\<close>

lemma compat_view_follows: "compat_view_session allowed pathname params v \<Longrightarrow> view_follows v"
proof (induction rule: compat_view_session.induct)
  case opened
  then show ?case by (simp add: view_follows_def new_compat_view_def summary_stableChanged_def updateSummaryTitles_def)
qed (rule follows_handle)

lemma compat_numbers_follow:
  "compat_view_session (orderly params) pathname params v \<Longrightarrow> cv_requests v = [] \<Longrightarrow> numbers_of params (cp_stable (cv_page v)) v"
proof -
  assume s: "compat_view_session (orderly params) pathname params v" and "cv_requests v = []"
  from s have "summary_ok params v"
  proof (induction rule: compat_view_session.induct)
    case opened
    then show ?case
      by (simp add: summary_ok_def requests_ok_def new_compat_view_def summary_stableChanged_def updateSummaryTitles_def)
  qed (rule summary_handle)
  with \<open>cv_requests v = []\<close> show ?thesis by (simp add: summary_ok_def)
qed

text \<open>
  An answer that is overtaken: the release is changed while the numbers of the first one are on their way, the answer to
  the second request comes first, and the numbers end as those of the other release.
\<close>

lemma overtaken_summary:
  assumes "compat_updateSummaryScores fetch params False = Some ns" and "compat_updateSummaryScores fetch params True = Some ns'"
    and "params_get ''stable'' params = None"
    and "v = fold (compat_handle pathname params) [CompatClick ClickStable, SummaryAnswer 1 fetch, SummaryAnswer 0 fetch]
      (new_compat_view pathname params)"
  shows "cv_titles v = summary_titles True \<and> cv_requests v = [] \<and> cv_numbers v = map Some ns"
proof -
  have p: "\<not> cp_stable (compat_ready pathname params)"
    using assms(3) by (simp add: compat_ready_def set_embedded_def set_useWebKitGTK_def set_compat_stable_def set_feature_def
        compat_updateUrlParams_def Let_def)
  then have q: "cp_stable (compat_clickStable pathname (compat_ready pathname params))"
    by (simp add: compat_clickStable_def set_compat_stable_def compat_updateUrlParams_def)
  show ?thesis
    using assms(1,2) numbers_length [OF assms(1)] numbers_length [OF assms(2)] p q
    by (simp add: assms(4) new_compat_view_def put_compat_page_def summary_stableChanged_def updateSummaryTitles_def
        summary_answered_def compat_draw_def Let_def)
qed

end
