(* ===== verification/Spec2Isabelle.thy ===== *)
theory Spec2Isabelle
  imports SearchLaws PathNav ResultColors LoadingState TestRunsLoader WptResults ResultsDisplay
    TestFileResults MetadataPage AmendDialog RunsPage SummaryTable QueryBuilders
    RunsQueryState InsightsPage HistoryTimeline ReftestAnalyzer BsfChart AppTable SubtestTable CompatPage
begin

text \<open>
  wpt.fyi is the dashboard of the web-platform-tests project: it shows which tests pass in which
  browsers. This development models the logic of its front end, the JavaScript of
  \<^verbatim>\<open>src/webapp/components\<close> and \<^verbatim>\<open>src/webapp/views\<close>: Polymer elements that read a query from the URL,
  load test runs and results from the server, aggregate and show them, and let users triage
  failures.

  \<^bold>\<open>How the parts interact.\<close> The query string of a page (\<open>QueryParams\<close>) says which runs are wanted;
  products in it are written as specs (\<open>ProductInfo\<close>). The observers of an element with a query keep
  products, specs, params and query together (\<open>RunsQueryState\<close>); forms and menus change them
  (\<open>QueryBuilders\<close>, \<open>WptApp\<close>), links keep them (\<open>Permalinks\<close>). The runs are loaded page by page
  (\<open>TestRunsLoader\<close>, \<open>LoadingState\<close>). The page of runs groups them by revision (\<open>WptRuns\<close>, \<open>RunsPage\<close>). The page of
  results sends the structured query of the search box (\<open>OhmPeg\<close>, \<open>SearchGrammar\<close>, \<open>TestSearch\<close>) to the
  server, aggregates the results of a folder (\<open>WptResults\<close>), shows them (\<open>ResultsDisplay\<close>,
  \<open>ResultColors\<close>) with the metadata of the tests (\<open>WptMetadata\<close>), moves from path to path (\<open>PathNav\<close>), and
  shows the subtests of one test (\<open>TestFileResults\<close>) and the history of a test (\<open>HistoryTimeline\<close>).
  In triage mode cells are selected and bugs are attached to them (\<open>AmendMetadata\<close>). \<open>ResultsPage\<close>
  composes query, loading, results, selection and paths to the life of that page: requests are in
  flight, are answered in any order, and meanwhile the user goes on; \<open>ResultsTable\<close> is what it renders
  in each state, and what a click on a rendered cell does. The pages of Interop and of Compat 2021 read
  the scores of a year (\<open>InteropData\<close>, \<open>InteropManager\<close>, \<open>Compat2021\<close>) and show them (\<open>InteropDashboard\<close>,
  \<open>InteropPage\<close>, \<open>InteropCharts\<close>) with links to results.

  \<^bold>\<open>The language.\<close>
  \<^item> \<open>JsPrelude\<close>: strings, arrays and objects. A string is a list of code units below 256. An object is an
    association list in insertion order, \<open>own_order\<close> its order of enumeration.
  \<^item> \<open>JsRegex\<close>: regular expressions by backtracking with continuations. The iterations of a star are
    bounded by the length of the input; \<open>star_loop_enough\<close> and \<open>rmatch_star_unfold\<close> show that the bound
    is never reached.
  \<^item> \<open>JsUrl\<close>, \<open>JsSearchParams\<close>: percent encoding, \<^verbatim>\<open>URLSearchParams\<close>, with the locale \<open>separated_codec\<close> of encoders
    whose output avoids a separator.
  \<^item> \<open>JsNumber\<close>, \<open>JsSort\<close>, \<open>JsDate\<close>: numbers are exact rationals with \<open>NaN\<close> and \<open>undefined\<close> where the code can
    meet them (rounding of doubles is not modelled); sorting is stable, specified in the locale
    \<open>comparator\<close>; dates are milliseconds, read from ISO texts, the time zone being an argument.
  \<^item> \<open>JsParse\<close>, \<open>JsJson\<close>: decimals, the values of option objects, and \<^verbatim>\<open>JSON.parse\<close>. Its fuel is two calls for
    each character: a call consumes one, or hands over to one that does.
  \<^item> \<open>JsHtml\<close>: rendered templates as trees of elements with attributes and handlers.

  Conventions: \<open>None\<close> stands for \<open>undefined\<close>, or for an exception where a definition says so; other errors
  are the left side of a sum. A component is a record, and assigning one of its properties is a
  function that runs the observers, which Polymer calls at once. What the server answers is an
  argument. Definitions keep the names of the methods; parts of a method have names of their own.

  \<^bold>\<open>The theories of the program.\<close>
  \<^item> \<open>ProductInfo\<close> (\<^verbatim>\<open>product-info.js\<close>): product specs, display names, short versions. The parser and the
    printer are inverse on canonical products; exactly the unclosed brackets are errors.
  \<^item> \<open>OhmPeg\<close> (the matcher of \<^verbatim>\<open>ohm.js\<close>), \<open>SearchGrammar\<close> (the grammar of \<^verbatim>\<open>test-search.js\<close>), \<open>TestSearch\<close> (its
    semantics, and the search box), \<open>SearchLaws\<close>. Matching takes the number of calls of rules as
    fuel; \<open>room\<close> is 31 calls per character, the depth of the grammar without consuming, and
    \<open>search_total\<close> shows that it is enough for every rule and input. Plain words mean what they
    say, reserved prefixes are rejected, and the search box stays coherent with its query.
  \<^item> \<open>QueryParams\<close> (\<^verbatim>\<open>results-navigation.js\<close>, \<^verbatim>\<open>test-runs-query.js\<close>): query strings and params are inverse, but for
    values that begin with "true"; a channel shared by all products is restored.
  \<^item> \<open>RunsQueryState\<close> (the observers of \<^verbatim>\<open>test-runs-query.js\<close> and \<^verbatim>\<open>results-navigation.js\<close>): without an exception,
    products, specs, params and query agree after every assignment; a query whose products cannot
    be read leaves the element deaf.
  \<^item> \<open>QueryBuilders\<close> (\<^verbatim>\<open>product-builder.js\<close>, \<^verbatim>\<open>test-runs-query-builder.js\<close>): the labels and the two values that stand for
    some of them call each other's observers. The fuel is the number of nested calls; three are
    enough from any labels (\<open>builder_settles\<close>).
  \<^item> \<open>WptApp\<close> (\<^verbatim>\<open>views/wpt-app.js\<close>): the app around the page of results, its route, menus, counts and messages;
    \<open>AppTable\<close> (the template): the links of the path lead to the folders on the way, and one page is visible.
  \<^item> \<open>WptFlags\<close> (\<^verbatim>\<open>wpt-flags.js\<close>): a flag that is stored overrides its default, and only its own.
  \<^item> \<open>Permalinks\<close> (\<^verbatim>\<open>wpt-permalinks.js\<close>): the link to the runs names those that are shown.
  \<^item> \<open>Insights\<close> (\<^verbatim>\<open>wpt-insights.js\<close>, \<^verbatim>\<open>test-info.js\<close>): the query for failing anomalies
    means what its title says, the one for passing ones selects nothing; \<open>InsightsPage\<close> (the cards as they are used, with their
    templates): the card links to the query of its checked boxes, until one is checked again (\<open>rechecked_box\<close>).
  \<^item> \<open>PathNav\<close> (\<^verbatim>\<open>path.js\<close>, \<^verbatim>\<open>self-navigator.js\<close>): paths and URLs are inverse; going back undoes a navigation.
  \<^item> \<open>ResultColors\<close> (\<^verbatim>\<open>wpt-colors.js\<close>, \<^verbatim>\<open>utils.js\<close>): classes and colours of pass rates, elapsed times.
  \<^item> \<open>LoadingState\<close> (\<^verbatim>\<open>loading-state.js\<close>): the count of loads is exact in every interleaving; retries end.
  \<^item> \<open>TestRunsLoader\<close> (\<^verbatim>\<open>test-runs.js\<close>): after a load, at most one page of runs is in flight.
  \<^item> \<open>WptResults\<close>, \<open>ResultsDisplay\<close> (\<^verbatim>\<open>views/wpt-results.js\<close>): rows refine the sums over their results, totals are
    the sums of the rows, sorting is a stable permutation, every cell has a text and a class.
  \<^item> \<open>ResultsPage\<close> (the rest of \<^verbatim>\<open>views/wpt-results.js\<close>): a session is any sequence of events of the user and of
    answers to requests in flight. The page is loading exactly while something is in flight, and
    with answers that come in turn the columns are the runs of the query; \<open>overtaken_results\<close> and
    \<open>stale_renames\<close> show what answers out of turn leave behind.
  \<^item> \<open>ResultsTable\<close> (its template): in every sound session the table can be rendered and is rectangular, and a
    click on a cell selects the test of its row with the browser of its column.
  \<^item> \<open>TestFileResults\<close> (\<^verbatim>\<open>test-file-results.js\<close>, \<^verbatim>\<open>test-file-results-table.js\<close>): the merged table has every
    subtest of every run once, with its status; merging keeps the order.
  \<^item> \<open>SubtestTable\<close> (the template of \<^verbatim>\<open>test-file-results-table.js\<close>): once the files have arrived, the table can be
    rendered, and each cell shows and selects the subtest of its row in the run of its column.
  \<^item> \<open>WptMetadata\<close>, \<open>MetadataPage\<close> (\<^verbatim>\<open>wpt-metadata.js\<close>): the links and labels below a path; in every session the element
    lists the links of the tests that are shown, each once.
  \<^item> \<open>AmendMetadata\<close> (\<^verbatim>\<open>wpt-amend-metadata.js\<close>): a step relation of a table with its dialog; the selection is
    consistent in every reachable state, the dialog counts its empty fields, and a request covers
    all that was selected.
  \<^item> \<open>AmendDialog\<close> (its template): what is typed into a field is what this field shows (\<open>typed_shown\<close>).
  \<^item> \<open>Pluralize\<close> (\<^verbatim>\<open>pluralize.js\<close>), \<open>WptRuns\<close> (\<^verbatim>\<open>wpt-runs.js\<close> and the message of \<^verbatim>\<open>test-runs-query.js\<close>): the table of runs
    is a partition of the runs by revision and browser, in order of time.
  \<^item> \<open>RunsTable\<close> (its template): the rendered table is that partition; what is selected by clicks is what the
    link shows. \<open>RunsPage\<close> composes query, loader, loads and table to sessions of that page: at rest it shows exactly
    one of a failure, no results, or the table of all runs that have arrived; \<open>failed_reload_is_empty\<close>,
    \<open>new_query_cannot_scroll\<close> and \<open>stale_page\<close> show what goes wrong after another query.
  \<^item> \<open>InteropData\<close> (\<^verbatim>\<open>interop-data.js\<close>), \<open>InteropManager\<close> (\<^verbatim>\<open>interop-data-manager.js\<close>), \<open>InteropYears\<close>: the data of the
    years is consistent; the tables that are read from a file of scores refine the scores of its lines, and all
    scores that are shown are integers between 0 and 1000.
  \<^item> \<open>InteropDashboard\<close>, \<open>InteropPage\<close> (\<^verbatim>\<open>interop-dashboard.js\<close>): the page of a year opens; buttons, totals and address
    follow the view in every session, the address opens the view again; rows are sorted, and links name the view.
  \<^item> \<open>InteropTable\<close> (its template): the tables of scores can be rendered in every session of the desktop view, their
    columns are aligned, and each head sorts by its own column.
  \<^item> \<open>InteropCharts\<close> (\<^verbatim>\<open>interop-summary.js\<close>, \<^verbatim>\<open>interop-feature-chart.js\<close>): the numbers above the page, and its charts;
    \<open>SummaryTable\<close> (the template): in every session each number is that of the browser whose name is below it.
  \<^item> \<open>Compat2021\<close> (\<^verbatim>\<open>compat-2021.js\<close>): the totals are integers up to 100, which only perfect scores reach; the
    address of the page opens it again. \<open>CompatPage\<close> (its life and templates): titles and chart follow the view in
    every session, and the numbers do when the answers come in order; \<open>overtaken_summary\<close> shows the other case.
  \<^item> \<open>HistoryTimeline\<close> (\<^verbatim>\<open>test-results-history-timeline.js\<close>), \<open>BsfChart\<close> (\<^verbatim>\<open>wpt-bsf.js\<close>): a row of a chart opens its
    own run; once nothing is in flight the graph is that of the buttons.
  \<^item> \<open>ReftestAnalyzer\<close> (\<^verbatim>\<open>reftest-analyzer.js\<close>): two images are arrays of bytes of 8 bits; exactly the pixels that
    differ are drawn.
  \<^item> \<open>RunElements\<close> (\<^verbatim>\<open>test-run.js\<close>, \<^verbatim>\<open>display-logo.js\<close>, the pickers, \<^verbatim>\<open>wpt-processor.js\<close>, \<^verbatim>\<open>wpt-header.js\<close>,
    \<^verbatim>\<open>github-login.js\<close>): small elements; \<open>ElementHtml\<close> (their templates): who is signed in, and only he, can sign out,
    and the rows of the processor have a cell for each title.

  \<^bold>\<open>Not modelled.\<close> Styles, and the templates of the forms of queries and products, the search box, the links, the flags, the timeline,
  the graph of browser specific failures, the analyzer of reftests and the single test; how
  the browser updates the DOM from one rendering to the next; the network itself; the formatting of
  dates for a locale; third-party elements (dialogs and toasts open and close as documented). The
  compiler of grammars of \<^verbatim>\<open>ohm.js\<close> and most of its library, of which the matcher is modelled for
  the constructs of the grammar in use. The server in Go, the results processor in Python and the
  metrics are other programs.
\<close>

end
